(* ===== verification/Binary64.thy ===== *)
theory Binary64
  imports Complex_Main "HOL-Library.Log_Nat"
begin

text \<open>
  Rounding a rational to IEEE 754 binary64, as CPython's \<open>float\<close> does in every
  arithmetic operation: round to nearest, ties to even, 53 bits of significand and
  gradual underflow to multiples of two to the power -1074.  The bound on the exponent
  from above (overflow to infinity) is applied in theory \<open>Py_Float\<close>.  The laws the
  arithmetic relies on (monotone, odd, idempotent) are the locale \<open>rounding\<close>, which
  \<open>round_rat\<close> interprets.
\<close>

section \<open>The rounding function\<close>

text \<open>
  \<open>ilog2\<close> is the binary exponent of a positive rational, \<open>rne\<close> rounds to the nearest
  integer with ties to even, \<open>fexp\<close> is the exponent of the last significand bit.
\<close>

definition ilog2 :: "rat \<Rightarrow> int" where
  "ilog2 q = (let (n, d) = quotient_of q; e = bitlen n - bitlen d
     in if 2 powi e \<le> q then e else e - 1)"

definition rne :: "rat \<Rightarrow> int" where
  "rne x = (let f = \<lfloor>x\<rfloor>; d = x - of_int f
     in if d < 1 / 2 \<or> (d = 1 / 2 \<and> even f) then f else f + 1)"

definition fexp :: "rat \<Rightarrow> int" where
  "fexp q = max (ilog2 \<bar>q\<bar> - 52) (- 1074)"

definition round_rat :: "rat \<Rightarrow> rat" where
  "round_rat q =
     (if q = 0 then 0 else of_int (rne (q / 2 powi fexp q)) * 2 powi fexp q)"

section \<open>The binary exponent\<close>

lemma bitlen_powi_bounds:
  assumes "0 < n"
  shows "2 powi (bitlen n - 1) \<le> (of_int n :: rat)" and "(of_int n :: rat) < 2 powi bitlen n"
proof -
  have b: "1 \<le> bitlen n" using assms by (simp add: bitlen_def floorlog_def)
  have b': "2 ^ nat (bitlen n - 1) \<le> n \<and> n < 2 ^ nat (bitlen n)"
    using bitlen_bounds [OF assms] .
  have "(2::rat) powi (bitlen n - 1) = of_int (2 ^ nat (bitlen n - 1))"
    using b by (simp add: power_int_def)
  also have "\<dots> \<le> of_int n" using b' by (simp only: of_int_le_iff)
  finally show "2 powi (bitlen n - 1) \<le> (of_int n :: rat)" .
  have "(of_int n :: rat) < of_int (2 ^ nat (bitlen n))" using b' by (simp only: of_int_less_iff)
  also have "\<dots> = 2 powi bitlen n" using b by (simp add: power_int_def)
  finally show "(of_int n :: rat) < 2 powi bitlen n" .
qed

lemma ilog2_bounds:
  assumes "0 < q"
  shows "2 powi ilog2 q \<le> q" and "q < 2 powi (ilog2 q + 1)"
proof -
  obtain n d where nd: "quotient_of q = (n, d)" by fastforce
  have d: "0 < d" using quotient_of_denom_pos [OF nd] .
  have q: "q = of_int n / of_int d" using quotient_of_div [OF nd] .
  have n: "0 < n" using assms d q by (auto simp: zero_less_divide_iff)
  let ?e = "bitlen n - bitlen d"
  have "q < 2 powi (bitlen n) / 2 powi (bitlen d - 1)"
    unfolding q using bitlen_powi_bounds [OF n] bitlen_powi_bounds [OF d] n d
    by (intro frac_less) auto
  also have "\<dots> = 2 powi (?e + 1)" by (simp add: power_int_diff [symmetric] algebra_simps flip: power_int_add)
  finally have up: "q < 2 powi (?e + 1)" .
  have "2 powi (bitlen n - 1) / 2 powi (bitlen d) \<le> q"
    unfolding q using bitlen_powi_bounds [OF n] bitlen_powi_bounds [OF d] n d
    by (intro frac_le) auto
  then have lo: "2 powi (?e - 1) \<le> q" by (simp add: power_int_diff [symmetric] algebra_simps)
  show "2 powi ilog2 q \<le> q" using lo by (simp add: ilog2_def nd Let_def)
  show "q < 2 powi (ilog2 q + 1)" using up by (auto simp: ilog2_def nd Let_def)
qed

lemma powi2_le_iff: "(2::rat) powi a \<le> 2 powi b \<longleftrightarrow> a \<le> b"
  by (meson linorder_not_less one_less_numeral_iff order_less_imp_le power_int_strict_increasing semiring_norm(76) power_int_increasing)

lemma powi2_less_iff: "(2::rat) powi a < 2 powi b \<longleftrightarrow> a < b"
  using powi2_le_iff by (meson linorder_not_less)

lemma powi2_pos [simp]: "0 < (2::rat) powi e" by simp

section \<open>Rounding to an integer\<close>

lemma rne_ge: "of_int n \<le> x \<Longrightarrow> n \<le> rne x"
proof -
  assume "of_int n \<le> x"
  then have "n \<le> \<lfloor>x\<rfloor>" by (simp add: le_floor_iff)
  then show ?thesis by (auto simp: rne_def Let_def)
qed

lemma rne_le: "x \<le> of_int n \<Longrightarrow> rne x \<le> n"
proof -
  assume a: "x \<le> of_int n"
  have f: "\<lfloor>x\<rfloor> \<le> n" using a floor_mono by fastforce
  show ?thesis
  proof (cases "\<lfloor>x\<rfloor> = n")
    case True
    then have "x = of_int n" using a by (metis antisym_conv of_int_floor_le)
    then show ?thesis by (simp add: rne_def)
  next
    case False
    then show ?thesis using f by (auto simp: rne_def Let_def)
  qed
qed

lemma rne_of_int [simp]: "rne (of_int n) = n"
  by (simp add: rne_def)

lemma rne_mono: "x \<le> y \<Longrightarrow> rne x \<le> rne y"
proof (cases "\<lfloor>x\<rfloor> = \<lfloor>y\<rfloor>")
  case True
  moreover assume "x \<le> y"
  ultimately show ?thesis by (auto simp: rne_def Let_def)
next
  case False
  assume xy: "x \<le> y"
  then have "\<lfloor>x\<rfloor> + 1 \<le> \<lfloor>y\<rfloor>" using False floor_mono by fastforce
  moreover have "rne x \<le> \<lfloor>x\<rfloor> + 1" by (auto simp: rne_def Let_def)
  moreover have "\<lfloor>y\<rfloor> \<le> rne y" by (auto simp: rne_def Let_def)
  ultimately show ?thesis by linarith
qed

lemma rne_minus: "rne (- x) = - rne x"
proof (cases "x = of_int \<lfloor>x\<rfloor>")
  case True
  then show ?thesis by (metis of_int_minus rne_of_int)
next
  case False
  then have "of_int \<lfloor>x\<rfloor> < x" using of_int_floor_le [of x] by linarith
  then have f: "\<lfloor>- x\<rfloor> = - \<lfloor>x\<rfloor> - 1"
    using floor_correct [of x] by (intro floor_unique) auto
  show ?thesis unfolding rne_def Let_def f by (auto simp: field_simps)
qed

section \<open>Monotonicity\<close>

lemma ilog2_le: "0 < p \<Longrightarrow> p \<le> q \<Longrightarrow> ilog2 p \<le> ilog2 q"
proof -
  assume p: "0 < p" and pq: "p \<le> q"
  have "2 powi ilog2 p \<le> p" by (rule ilog2_bounds [OF p])
  also note pq
  also have "q < 2 powi (ilog2 q + 1)" using p pq by (intro ilog2_bounds) auto
  finally have "ilog2 p < ilog2 q + 1" by (simp only: powi2_less_iff)
  then show ?thesis by simp
qed

lemma ilog2_unique: "2 powi e \<le> q \<Longrightarrow> q < 2 powi (e + 1) \<Longrightarrow> ilog2 q = e"
proof -
  assume a: "2 powi e \<le> q" "q < 2 powi (e + 1)"
  have q: "0 < q" using a(1) powi2_pos [of e] by (rule order.strict_trans2 [rotated])
  have "(2::rat) powi ilog2 q < 2 powi (e + 1)" using ilog2_bounds(1) [OF q] a(2) by linarith
  moreover have "(2::rat) powi e < 2 powi (ilog2 q + 1)" using ilog2_bounds(2) [OF q] a(1) by linarith
  ultimately show ?thesis by (simp only: powi2_less_iff)
qed

lemma fexp_minus [simp]: "fexp (- q) = fexp q"
  by (simp add: fexp_def)

lemma round_rat_0 [simp]: "round_rat 0 = 0"
  by (simp add: round_rat_def)

lemma round_rat_minus: "round_rat (- q) = - round_rat q"
  by (simp add: round_rat_def rne_minus minus_divide_left [symmetric] del: minus_divide_left)

lemma fexp_mono: "0 < p \<Longrightarrow> p \<le> q \<Longrightarrow> fexp p \<le> fexp q"
  using ilog2_le [of p q] by (simp add: fexp_def max.coboundedI1)

lemma round_rat_le_grid:
  assumes "q \<noteq> 0" and "q \<le> of_int n * 2 powi fexp q"
  shows "round_rat q \<le> of_int n * 2 powi fexp q"
proof -
  have "q / 2 powi fexp q \<le> of_int n" using assms(2) by (simp add: divide_le_eq)
  then have "rne (q / 2 powi fexp q) \<le> n" by (rule rne_le)
  then have "(of_int (rne (q / 2 powi fexp q)) :: rat) \<le> of_int n" by (simp only: of_int_le_iff)
  then show ?thesis using assms(1) by (simp add: round_rat_def)
qed

lemma round_rat_ge_grid:
  assumes "q \<noteq> 0" and "of_int n * 2 powi fexp q \<le> q"
  shows "of_int n * 2 powi fexp q \<le> round_rat q"
proof -
  have "of_int n \<le> q / 2 powi fexp q" using assms(2) by (simp add: le_divide_eq)
  then have "n \<le> rne (q / 2 powi fexp q)" by (rule rne_ge)
  then have "(of_int n :: rat) \<le> of_int (rne (q / 2 powi fexp q))" by (simp only: of_int_le_iff)
  then show ?thesis using assms(1) by (simp add: round_rat_def)
qed

lemma powi2_grid: "a \<le> b \<Longrightarrow> (2::rat) powi b = of_int (2 ^ nat (b - a)) * 2 powi a"
proof -
  assume "a \<le> b"
  then have "(of_int (2 ^ nat (b - a)) :: rat) = 2 powi (b - a)" by (simp add: power_int_def)
  then show ?thesis by (simp flip: power_int_add)
qed

lemma round_rat_nonneg: "0 \<le> q \<Longrightarrow> 0 \<le> round_rat q"
  using round_rat_ge_grid [of q 0] by (cases "q = 0") auto

lemma round_rat_mono_pos:
  assumes p: "0 < p" and pq: "p \<le> q"
  shows "round_rat p \<le> round_rat q"
proof (cases "fexp p = fexp q")
  case True
  have "p / 2 powi fexp q \<le> q / 2 powi fexp q" using pq by (simp add: divide_right_mono)
  then have "rne (p / 2 powi fexp q) \<le> rne (q / 2 powi fexp q)" by (rule rne_mono)
  then have "(of_int (rne (p / 2 powi fexp q)) :: rat) \<le> of_int (rne (q / 2 powi fexp q))"
    by (simp only: of_int_le_iff)
  then show ?thesis using True p pq by (simp add: round_rat_def)
next
  case False
  then have lt: "fexp p < fexp q" using fexp_mono [OF p pq] by simp
  let ?b = "ilog2 q"
  have q: "0 < q" using p pq by simp
  have eq: "fexp q = ?b - 52" using lt q by (auto simp: fexp_def max_def split: if_splits)
  have lp: "ilog2 p < ?b" using lt p q by (auto simp: fexp_def max_def split: if_splits)
  have "p \<le> 2 powi (ilog2 p + 1)" using ilog2_bounds(2) [OF p] by simp
  also have "\<dots> \<le> 2 powi ?b" using lp by (simp only: powi2_le_iff)
  finally have pb: "p \<le> 2 powi ?b" .
  have g: "fexp p \<le> ?b" using lt eq by simp
  have "round_rat p \<le> 2 powi ?b"
    using round_rat_le_grid [of p "2 ^ nat (?b - fexp p)"] pb p powi2_grid [OF g] by simp
  also have "2 powi ?b \<le> round_rat q"
    using round_rat_ge_grid [of q "2 ^ nat (?b - fexp q)"] ilog2_bounds(1) [OF q] q
      powi2_grid [of "fexp q" ?b] eq by simp
  finally show ?thesis .
qed

lemma round_rat_mono: "p \<le> q \<Longrightarrow> round_rat p \<le> round_rat q"
proof -
  assume pq: "p \<le> q"
  consider "0 < p" | "p \<le> 0" "0 \<le> q" | "q < 0" by linarith
  then show ?thesis
  proof cases
    case 1
    then show ?thesis using pq by (rule round_rat_mono_pos)
  next
    case 2
    then show ?thesis using round_rat_nonneg [of q] round_rat_nonneg [of "- p"]
      by (simp add: round_rat_minus)
  next
    case 3
    then have "round_rat (- q) \<le> round_rat (- p)" using pq by (intro round_rat_mono_pos) auto
    then show ?thesis by (simp add: round_rat_minus)
  qed
qed

section \<open>Representable numbers\<close>

text \<open>\<open>grid e r\<close>: \<open>r\<close> is a multiple of two to the power \<open>e\<close>.\<close>

definition grid :: "int \<Rightarrow> rat \<Rightarrow> bool" where
  "grid e r \<longleftrightarrow> (\<exists>k. r = of_int k * 2 powi e)"

lemma grid_minus: "grid a x \<Longrightarrow> grid a (- x)"
  unfolding grid_def by (metis mult_minus_left of_int_minus)

lemma grid_mono: "e \<le> e' \<Longrightarrow> grid e' r \<Longrightarrow> grid e r"
proof -
  assume e: "e \<le> e'" and "grid e' r"
  then obtain k where "r = of_int k * 2 powi e'" by (auto simp: grid_def)
  then have "r = of_int (k * 2 ^ nat (e' - e)) * 2 powi e" using powi2_grid [OF e] by simp
  then show ?thesis unfolding grid_def by blast
qed

lemma round_rat_grid: "grid (fexp r) r \<Longrightarrow> round_rat r = r"
  by (auto simp: grid_def round_rat_def) (metis nonzero_mult_div_cancel_right power_int_eq_0_iff rne_of_int zero_neq_numeral)

lemma round_rat_in_grid: "grid (fexp q) (round_rat q)"
  by (auto simp: grid_def round_rat_def intro: exI [of _ 0])

lemma round_rat_sub_grid: "grid (- 1074) (round_rat q)"
  by (rule grid_mono [OF _ round_rat_in_grid]) (simp add: fexp_def)

lemma round_rat_small_grid:
  assumes "grid e r" and "\<bar>r\<bar> \<le> 2 powi (e + 53)" and "- 1074 \<le> e"
  shows "round_rat r = r"
proof (cases "r = 0")
  case False
  show ?thesis
  proof (cases "\<bar>r\<bar> = 2 powi (e + 53)")
    case True
    have "ilog2 \<bar>r\<bar> = e + 53" using True by (intro ilog2_unique) (simp_all add: powi2_less_iff)
    then have "fexp r = e + 1" using assms(3) by (simp add: fexp_def)
    moreover have "grid (e + 1) (2 powi (e + 53))"
      using powi2_grid [of "e + 1" "e + 53"] by (auto simp: grid_def)
    moreover have "r = 2 powi (e + 53) \<or> r = - (2 powi (e + 53))" using True by linarith
    moreover note grid_minus
    ultimately show ?thesis using round_rat_grid by metis
  next
    case False
    have "(2::rat) powi ilog2 \<bar>r\<bar> < 2 powi (e + 53)"
      using ilog2_bounds(1) [of "\<bar>r\<bar>"] \<open>r \<noteq> 0\<close> assms(2) False by linarith
    then have "ilog2 \<bar>r\<bar> - 52 \<le> e" by (simp only: powi2_less_iff)
    then have "fexp r \<le> e" using assms(3) by (simp add: fexp_def)
    then have "grid (fexp r) r" using assms(1) by (rule grid_mono)
    then show ?thesis by (rule round_rat_grid)
  qed
qed simp

lemma round_rat_idem: "round_rat (round_rat q) = round_rat q"
proof (cases "q = 0")
  case False
  have "2 powi (ilog2 \<bar>q\<bar> + 1) \<le> (2::rat) powi (fexp q + 53)"
    by (simp add: powi2_le_iff fexp_def)
  moreover have "\<bar>q\<bar> \<le> 2 powi (ilog2 \<bar>q\<bar> + 1)" using ilog2_bounds(2) [of "\<bar>q\<bar>"] False by simp
  ultimately have b: "\<bar>q\<bar> \<le> 2 powi (fexp q + 53)" by linarith
  have p: "(2::rat) powi (fexp q + 53) = of_int (2 ^ 53) * 2 powi fexp q"
    using powi2_grid [of "fexp q" "fexp q + 53"] by simp
  have "round_rat q \<le> 2 powi (fexp q + 53)"
    using round_rat_le_grid [of q "2 ^ 53"] False b p by simp
  moreover have "- (2 powi (fexp q + 53)) \<le> round_rat q"
    using round_rat_ge_grid [of q "- (2 ^ 53)"] False b p by simp
  ultimately have "\<bar>round_rat q\<bar> \<le> 2 powi (fexp q + 53)" by linarith
  then show ?thesis by (intro round_rat_small_grid [OF round_rat_in_grid]) (auto simp: fexp_def)
qed simp

lemma round_rat_int: "\<bar>k\<bar> \<le> 2 ^ 53 \<Longrightarrow> round_rat (of_int k) = of_int k"
proof -
  assume k: "\<bar>k\<bar> \<le> 2 ^ 53"
  have "\<bar>of_int k :: rat\<bar> = of_int \<bar>k\<bar>" by simp
  also have "\<dots> \<le> of_int (2 ^ 53)" using k by (simp only: of_int_le_iff)
  also have "\<dots> = 2 powi (0 + 53)" by simp
  finally show ?thesis by (intro round_rat_small_grid [of 0]) (auto simp: grid_def)
qed

lemma round_rat_tiny: "round_rat (2 powi - 1074) = 2 powi - 1074"
proof (rule round_rat_small_grid [of "- 1074"])
  show "grid (- 1074) (2 powi - 1074)" unfolding grid_def by (rule exI [of _ 1]) simp
  show "\<bar>2 powi - 1074 :: rat\<bar> \<le> 2 powi (- 1074 + 53)"
    unfolding abs_of_pos [OF powi2_pos] powi2_le_iff by simp
qed simp

lemma grid_ge_tiny:
  assumes "grid e x" and "x \<noteq> 0"
  shows "2 powi e \<le> \<bar>x\<bar>"
proof -
  obtain k where k: "x = of_int k * 2 powi e" using assms(1) by (auto simp: grid_def)
  have "1 \<le> \<bar>k\<bar>" using k assms(2) by auto
  then have "1 \<le> \<bar>of_int k :: rat\<bar>" by (simp flip: of_int_abs)
  then have "1 * 2 powi e \<le> \<bar>of_int k :: rat\<bar> * 2 powi e" by (intro mult_right_mono) auto
  then show ?thesis by (simp add: k abs_mult)
qed

lemma round_rat_abs: "round_rat \<bar>q\<bar> = \<bar>round_rat q\<bar>"
  using round_rat_nonneg [of q] round_rat_nonneg [of "- q"]
  by (cases "0 \<le> q") (auto simp: round_rat_minus abs_if)

lemma round_rat_sum_eq_0:
  assumes "round_rat a = a" and "round_rat b = b" and "round_rat (a + b) = 0"
  shows "a + b = 0"
proof (rule ccontr)
  assume nz: "a + b \<noteq> 0"
  have "grid (- 1074) a" "grid (- 1074) b" using round_rat_sub_grid assms(1,2) by metis+
  then have "grid (- 1074) (a + b)" unfolding grid_def
    by (metis (no_types, opaque_lifting) distrib_right of_int_add)
  then have "2 powi - 1074 \<le> \<bar>a + b\<bar>" using nz by (rule grid_ge_tiny)
  then have "round_rat (2 powi - 1074) \<le> \<bar>round_rat (a + b)\<bar>"
    unfolding round_rat_abs [symmetric] by (rule round_rat_mono)
  then show False unfolding round_rat_tiny assms(3) using powi2_pos [of "- 1074"]
    by (simp only: abs_zero)
qed

section \<open>The contract of a rounding function\<close>

locale rounding =
  fixes rnd :: "rat \<Rightarrow> rat"
  assumes rnd_mono: "p \<le> q \<Longrightarrow> rnd p \<le> rnd q"
    and rnd_odd: "rnd (- q) = - rnd q"
    and rnd_idem: "rnd (rnd q) = rnd q"
begin

lemma rnd_0: "rnd 0 = 0"
  using rnd_odd [of 0] by simp

lemma rnd_nonneg: "0 \<le> q \<Longrightarrow> 0 \<le> rnd q"
  using rnd_mono [of 0 q] by (simp add: rnd_0)

lemma rnd_nonpos: "q \<le> 0 \<Longrightarrow> rnd q \<le> 0"
  using rnd_mono [of q 0] by (simp add: rnd_0)

lemma rnd_le_repr: "q \<le> r \<Longrightarrow> rnd r = r \<Longrightarrow> rnd q \<le> r"
  by (metis rnd_mono)

lemma rnd_ge_repr: "r \<le> q \<Longrightarrow> rnd r = r \<Longrightarrow> r \<le> rnd q"
  by (metis rnd_mono)

lemma rnd_repr_minus: "rnd r = r \<Longrightarrow> rnd (- r) = - r"
  by (simp add: rnd_odd)

lemma rnd_repr_abs: "rnd r = r \<Longrightarrow> rnd \<bar>r\<bar> = \<bar>r\<bar>"
  by (simp add: abs_if rnd_odd)

end

interpretation b64: rounding round_rat
  by unfold_locales (auto intro: round_rat_mono simp: round_rat_minus round_rat_idem)

end
