(* ===== verification/Py_Base.thy ===== *)
theory Py_Base
  imports Complex_Main "HOL-Library.AList" "HOL-Library.Multiset"
begin

text \<open>
  The part of the Python language every component of NanoDelta uses, apart from its
  floating-point numbers (theory \<open>Py_Float\<close>) and its text (theory \<open>Py_Text\<close>):
  exceptions as values, mutation under exceptions, insertion-ordered dictionaries, and
  the stable \<open>sorted\<close>.  The last section states the contract that most stores of the
  program share, a keyed store whose entries are immutable, as a locale; the component
  theories interpret it on their own operations.
\<close>

section \<open>Exceptions as values\<close>

text \<open>
  A call that may raise has the type \<open>py_error + 'a\<close>: \<open>Inl\<close> is the exception with its
  message, \<open>Inr\<close> the returned value.  \<open>OtherError\<close> is an exception of another class, with the
  name of the class.
\<close>

datatype py_error =
    ValueError string
  | PermissionError string
  | LookupError string
  | KeyError string
  | RuntimeError string
  | TypeError string
  | ZeroDivisionError
  | OverflowError string
  | OSError string
  | OtherError string string
  | AssertionError

type_synonym 'a result = "py_error + 'a"

definition bind_r :: "'a result \<Rightarrow> ('a \<Rightarrow> 'b result) \<Rightarrow> 'b result" where
  "bind_r m f = (case m of Inl e \<Rightarrow> Inl e | Inr x \<Rightarrow> f x)"

lemma bind_r_simps [simp]:
  "bind_r (Inl e) f = Inl e"
  "bind_r (Inr x) f = f x"
  by (simp_all add: bind_r_def)

lemma bind_r_Inr_iff: "bind_r m f = Inr y \<longleftrightarrow> (\<exists>x. m = Inr x \<and> f x = Inr y)"
  by (cases m) auto

lemma bind_r_InrE [elim!]:
  assumes "bind_r m f = Inr y"
  obtains x where "m = Inr x" and "f x = Inr y"
  using assms by (auto simp: bind_r_Inr_iff)

text \<open>A call per element, in order; the first exception ends it.\<close>

fun map_r :: "('a \<Rightarrow> 'b result) \<Rightarrow> 'a list \<Rightarrow> 'b list result" where
  "map_r f [] = Inr []"
| "map_r f (x # xs) = bind_r (f x) (\<lambda>y. bind_r (map_r f xs) (\<lambda>ys. Inr (y # ys)))"

lemma map_r_Inr_iff: "map_r f xs = Inr ys \<longleftrightarrow> list_all2 (\<lambda>x y. f x = Inr y) xs ys"
  by (induction xs arbitrary: ys) (auto simp: bind_r_Inr_iff list_all2_Cons1)

lemma map_r_cong: "(\<And>x. x \<in> set xs \<Longrightarrow> f x = Inr (g x)) \<Longrightarrow> map_r f xs = Inr (map g xs)"
  by (induction xs) auto

section \<open>Mutable state under exceptions\<close>

text \<open>
  A method that mutates its object and may raise is a function from the state before to
  the outcome and the state after.  The state is returned on both outcomes, because
  what Python mutated before the exception stays mutated.
\<close>

type_synonym ('s, 'a) st = "'s \<Rightarrow> 'a result \<times> 's"

definition return_st :: "'a \<Rightarrow> ('s, 'a) st" where
  "return_st x s = (Inr x, s)"

definition raise_st :: "py_error \<Rightarrow> ('s, 'a) st" where
  "raise_st e s = (Inl e, s)"

definition bind_st :: "('s, 'a) st \<Rightarrow> ('a \<Rightarrow> ('s, 'b) st) \<Rightarrow> ('s, 'b) st" where
  "bind_st m f s = (case m s of (Inl e, s') \<Rightarrow> (Inl e, s') | (Inr x, s') \<Rightarrow> f x s')"

definition lift_st :: "'a result \<Rightarrow> ('s, 'a) st" where
  "lift_st r s = (r, s)"

text \<open>A call on one field of the state.\<close>

definition zoom :: "('s \<Rightarrow> 't) \<Rightarrow> ('t \<Rightarrow> 's \<Rightarrow> 's) \<Rightarrow> ('t, 'a) st \<Rightarrow> ('s, 'a) st" where
  "zoom get put m s = (case m (get s) of (x, t) \<Rightarrow> (x, put t s))"

text \<open>A \<open>for\<close> loop that collects one result per iteration; the first exception ends it.\<close>

fun for_st :: "('a \<Rightarrow> ('s, 'b) st) \<Rightarrow> 'a list \<Rightarrow> ('s, 'b list) st" where
  "for_st f [] = return_st []"
| "for_st f (x # xs) =
     bind_st (f x) (\<lambda>y. bind_st (for_st f xs) (\<lambda>ys. return_st (y # ys)))"

text \<open>A \<open>for\<close> loop that carries a local variable.\<close>

fun fold_st :: "('a \<Rightarrow> 'b \<Rightarrow> ('s, 'b) st) \<Rightarrow> 'a list \<Rightarrow> 'b \<Rightarrow> ('s, 'b) st" where
  "fold_st f [] b = return_st b"
| "fold_st f (x # xs) b = bind_st (f x b) (\<lambda>b'. fold_st f xs b')"

named_theorems st_defs "definitions of the state-and-exception combinators"

lemmas [st_defs] = return_st_def raise_st_def bind_st_def lift_st_def

subsection \<open>Results, invariants and frames of stateful calls\<close>

text \<open>
  \<open>keeps P m\<close>: whatever the outcome of \<open>m\<close>, a state that satisfies \<open>P\<close> still does.
  \<open>yields m Q\<close>: whenever \<open>m\<close> returns, its value and the two states satisfy \<open>Q\<close>.
\<close>

definition keeps :: "('s \<Rightarrow> bool) \<Rightarrow> ('s, 'a) st \<Rightarrow> bool" where
  "keeps P m \<longleftrightarrow> (\<forall>s. P s \<longrightarrow> P (snd (m s)))"

named_theorems keeps_intros "introduction rules for invariants of stateful calls"

lemma keeps_return [keeps_intros]: "keeps P (return_st x)"
  by (simp add: keeps_def return_st_def)

lemma keeps_raise [keeps_intros]: "keeps P (raise_st e)"
  by (simp add: keeps_def raise_st_def)

lemma keeps_lift [keeps_intros]: "keeps P (lift_st r)"
  by (simp add: keeps_def lift_st_def)

lemma keeps_bind [keeps_intros]:
  assumes "keeps P m" and "\<And>x. keeps P (f x)"
  shows "keeps P (bind_st m f)"
  using assms by (fastforce simp: keeps_def bind_st_def split: prod.splits sum.splits)

lemma keeps_for [keeps_intros]: "(\<And>x. keeps P (f x)) \<Longrightarrow> keeps P (for_st f xs)"
  by (induction xs) (auto intro!: keeps_intros)

lemma keeps_fold [keeps_intros]: "(\<And>x b. keeps P (f x b)) \<Longrightarrow> keeps P (fold_st f xs b)"
  by (induction xs arbitrary: b) (auto intro!: keeps_intros)

lemma keeps_zoom: "(\<And>s. P s \<Longrightarrow> P (put (snd (m (get s))) s)) \<Longrightarrow> keeps P (zoom get put m)"
  by (simp add: keeps_def zoom_def case_prod_beta)

lemma zoom_iff: "zoom get put m s = (x, s') \<longleftrightarrow> (\<exists>t. m (get s) = (x, t) \<and> s' = put t s)"
  by (auto simp: zoom_def split: prod.splits)

lemma keeps_if [keeps_intros]: "keeps P m \<Longrightarrow> keeps P n \<Longrightarrow> keeps P (if b then m else n)"
  by simp

lemma keepsD: "keeps P m \<Longrightarrow> P s \<Longrightarrow> m s = (r, s') \<Longrightarrow> P s'"
  by (force simp: keeps_def)

lemma keeps_frame: "keeps (\<lambda>s. f s = f s0) m \<Longrightarrow> f (snd (m s0)) = f s0"
  by (simp add: keeps_def)

lemma return_st_iff [simp]: "return_st x s = (r, s') \<longleftrightarrow> r = Inr x \<and> s' = s"
  by (auto simp: return_st_def)

lemma raise_st_iff [simp]: "raise_st e s = (r, s') \<longleftrightarrow> r = Inl e \<and> s' = s"
  by (auto simp: raise_st_def)

lemma lift_st_iff [simp]: "lift_st x s = (r, s') \<longleftrightarrow> x = r \<and> s' = s"
  by (auto simp: lift_st_def)

lemma bind_st_Inr_iff:
  "bind_st m f s = (Inr y, s') \<longleftrightarrow> (\<exists>x s1. m s = (Inr x, s1) \<and> f x s1 = (Inr y, s'))"
  by (auto simp: bind_st_def split: prod.splits sum.splits)

lemma bind_st_InrE [elim!]:
  assumes "bind_st m f s = (Inr y, s')"
  obtains x s1 where "m s = (Inr x, s1)" and "f x s1 = (Inr y, s')"
  using assms by (auto simp: bind_st_Inr_iff)

text \<open>
  The rule for loops that return: a relation that every returning iteration establishes
  between the states and is closed under composition holds for the loop.
\<close>

lemma fold_st_rule:
  assumes "fold_st f xs b s = (Inr b', s')"
    and "I b s"
    and "\<And>x c t c' t'. x \<in> set xs \<Longrightarrow> I c t \<Longrightarrow> f x c t = (Inr c', t') \<Longrightarrow> I c' t'"
  shows "I b' s'"
  using assms
proof (induction xs arbitrary: b s)
  case (Cons x xs)
  then obtain c t where "f x b s = (Inr c, t)" "fold_st f xs c t = (Inr b', s')" by auto
  with Cons show ?case by (metis list.set_intros)
qed simp

section \<open>Insertion-ordered dictionaries\<close>

text \<open>
  A \<open>dict\<close> is an association list in insertion order with distinct keys: \<open>map_of\<close> is
  \<open>d.get\<close>, \<open>AList.update\<close> is \<open>d[k] = v\<close> (in place, or appended for a new key),
  \<open>AList.delete\<close> is \<open>d.pop(k, None)\<close>, and \<open>map snd\<close> is \<open>d.values()\<close>.
\<close>

type_synonym ('k, 'v) dict = "('k \<times> 'v) list"

definition dict_ok :: "('k, 'v) dict \<Rightarrow> bool" where
  "dict_ok d \<longleftrightarrow> distinct (map fst d)"

lemma dict_ok_Nil [simp]: "dict_ok []"
  by (simp add: dict_ok_def)

lemma dict_ok_update [simp]: "dict_ok d \<Longrightarrow> dict_ok (AList.update k v d)"
  by (simp add: dict_ok_def distinct_update)

lemma dict_ok_delete [simp]: "dict_ok d \<Longrightarrow> dict_ok (AList.delete k d)"
  by (simp add: dict_ok_def distinct_delete)

lemma map_of_update [simp]: "map_of (AList.update k v d) = (map_of d)(k \<mapsto> v)"
  by (simp add: update_conv')

lemma map_of_delete [simp]: "map_of (AList.delete k d) = (map_of d)(k := None)"
  by (simp add: delete_conv')

lemma dict_ok_map_of: "dict_ok d \<Longrightarrow> map_of d k = Some v \<longleftrightarrow> (k, v) \<in> set d"
  by (simp add: dict_ok_def map_of_eq_Some_iff)

lemma update_same [simp]: "map_of d k = Some v \<Longrightarrow> AList.update k v d = d"
  by (induction d) (auto split: if_splits)

lemma update_fresh: "map_of d k = None \<Longrightarrow> AList.update k v d = d @ [(k, v)]"
  by (induction d) (auto split: if_splits)

text \<open>\<open>tuple(dict.fromkeys(xs))\<close>: the first occurrence of every element, in order.\<close>

fun fromkeys_from :: "'a list \<Rightarrow> 'a list \<Rightarrow> 'a list" where
  "fromkeys_from seen [] = []"
| "fromkeys_from seen (x # xs) =
     (if x \<in> set seen then fromkeys_from seen xs else x # fromkeys_from (x # seen) xs)"

definition dict_fromkeys :: "'a list \<Rightarrow> 'a list" where
  "dict_fromkeys xs = fromkeys_from [] xs"

lemma set_fromkeys_from: "set (fromkeys_from seen xs) = set xs - set seen"
  by (induction seen xs rule: fromkeys_from.induct) auto

lemma distinct_fromkeys_from: "distinct (fromkeys_from seen xs)"
  by (induction seen xs rule: fromkeys_from.induct) (auto simp: set_fromkeys_from)

lemma set_dict_fromkeys [simp]: "set (dict_fromkeys xs) = set xs"
  by (simp add: dict_fromkeys_def set_fromkeys_from)

lemma distinct_dict_fromkeys [simp]: "distinct (dict_fromkeys xs)"
  by (simp add: dict_fromkeys_def distinct_fromkeys_from)

section \<open>The stable sort\<close>

text \<open>
  \<open>sorted(xs, key=...)\<close> compares keys with \<open><\<close> only and is stable.  For a strict weak
  order every stable sort returns the same list; this one inserts from the right.
\<close>

fun insort_lt :: "('a \<Rightarrow> 'a \<Rightarrow> bool) \<Rightarrow> 'a \<Rightarrow> 'a list \<Rightarrow> 'a list" where
  "insort_lt lt x [] = [x]"
| "insort_lt lt x (y # ys) = (if lt y x then y # insort_lt lt x ys else x # y # ys)"

definition py_sorted :: "('a \<Rightarrow> 'a \<Rightarrow> bool) \<Rightarrow> 'a list \<Rightarrow> 'a list" where
  "py_sorted lt xs = foldr (insort_lt lt) xs []"

lemma py_sorted_simps [simp]:
  "py_sorted lt [] = []"
  "py_sorted lt (x # xs) = insort_lt lt x (py_sorted lt xs)"
  by (simp_all add: py_sorted_def)

lemma mset_insort_lt [simp]: "mset (insort_lt lt x xs) = add_mset x (mset xs)"
  by (induction xs) auto

lemma mset_py_sorted [simp]: "mset (py_sorted lt xs) = mset xs"
  by (induction xs) auto

lemma set_py_sorted [simp]: "set (py_sorted lt xs) = set xs"
  by (metis mset_py_sorted set_mset_mset)

lemma length_py_sorted [simp]: "length (py_sorted lt xs) = length xs"
  by (metis mset_py_sorted size_mset)

lemma distinct_py_sorted [simp]: "distinct (py_sorted lt xs) = distinct xs"
  by (metis mset_py_sorted mset_eq_imp_distinct_iff)

lemma py_sorted_eq_Nil [simp]: "py_sorted lt xs = [] \<longleftrightarrow> xs = []"
  by (metis length_0_conv length_py_sorted)

lemma distinct_map_py_sorted [simp]: "distinct (map f (py_sorted lt xs)) = distinct (map f xs)"
  by (metis mset_py_sorted mset_map mset_eq_imp_distinct_iff)

text \<open>
  \<open>strict_weak A lt\<close>: on the elements of \<open>A\<close>, \<open>lt\<close> is irreflexive and transitive and
  \<open>not less\<close> is transitive.
\<close>

definition strict_weak :: "'a set \<Rightarrow> ('a \<Rightarrow> 'a \<Rightarrow> bool) \<Rightarrow> bool" where
  "strict_weak A lt \<longleftrightarrow>
     (\<forall>x\<in>A. \<forall>y\<in>A. lt x y \<longrightarrow> \<not> lt y x) \<and>
     (\<forall>x\<in>A. \<forall>y\<in>A. \<forall>z\<in>A. \<not> lt y x \<longrightarrow> \<not> lt z y \<longrightarrow> \<not> lt z x)"

lemma strict_weak_mono: "strict_weak B lt \<Longrightarrow> A \<subseteq> B \<Longrightarrow> strict_weak A lt"
  unfolding strict_weak_def by blast

lemma set_insort_lt [simp]: "set (insort_lt lt x xs) = insert x (set xs)"
  by (induction xs) auto

lemma sorted_insort_lt:
  assumes "strict_weak (insert x (set xs)) lt" and "sorted_wrt (\<lambda>a b. \<not> lt b a) xs"
  shows "sorted_wrt (\<lambda>a b. \<not> lt b a) (insort_lt lt x xs)"
  using assms
proof (induction xs)
  case (Cons y ys)
  have sw: "strict_weak (insert x (set ys)) lt"
    by (rule strict_weak_mono [OF Cons.prems(1)]) auto
  show ?case
  proof (cases "lt y x")
    case True
    then have "\<not> lt x y" using Cons.prems(1) by (auto simp: strict_weak_def)
    then show ?thesis using True Cons.IH [OF sw] Cons.prems(2) by auto
  next
    case False
    have "\<not> lt z x" if "z \<in> set ys" for z
    proof -
      have "\<not> lt z y" using Cons.prems(2) that by simp
      then show ?thesis
        using False Cons.prems(1) that unfolding strict_weak_def by (metis insertCI list.set(2))
    qed
    then show ?thesis using False Cons.prems(2) by auto
  qed
qed simp

lemma sorted_py_sorted:
  "strict_weak (set xs) lt \<Longrightarrow> sorted_wrt (\<lambda>a b. \<not> lt b a) (py_sorted lt xs)"
proof (induction xs)
  case (Cons x xs)
  have "strict_weak (set xs) lt" by (rule strict_weak_mono [OF Cons.prems]) auto
  then show ?case using Cons by (auto intro!: sorted_insort_lt)
qed simp

text \<open>When the order tells all elements apart, the result depends on the elements only.\<close>

lemma sorted_wrt_mset_unique:
  assumes "sorted_wrt R xs" and "sorted_wrt R ys" and "mset xs = mset ys"
    and "\<And>x y. x \<in> set xs \<Longrightarrow> y \<in> set xs \<Longrightarrow> R x y \<Longrightarrow> R y x \<Longrightarrow> x = y"
  shows "xs = ys"
  using assms
proof (induction xs arbitrary: ys)
  case (Cons x xs)
  then obtain y ys' where ys: "ys = y # ys'" by (cases ys) auto
  have sets: "set ys = insert x (set xs)" using Cons.prems(3) by (metis list.set(2) set_mset_mset)
  have "x = y"
  proof (rule ccontr)
    assume "x \<noteq> y"
    then have "y \<in> set xs" "x \<in> set ys'" using sets ys by auto
    then show False using Cons.prems(1,2,4) ys \<open>x \<noteq> y\<close> by auto
  qed
  then show ?case using Cons ys by auto
qed simp

lemma insort_lt_sorted_head:
  "(\<forall>y \<in> set ys. \<not> lt y x) \<Longrightarrow> insort_lt lt x ys = x # ys"
  by (cases ys) auto

text \<open>The stable sort of the elements that satisfy a predicate.\<close>

lemma filter_insort_lt:
  assumes "strict_weak (insert x (set ys)) lt" and "sorted_wrt (\<lambda>a b. \<not> lt b a) ys"
  shows "filter P (insort_lt lt x ys) = (if P x then insort_lt lt x (filter P ys) else filter P ys)"
  using assms
proof (induction ys)
  case (Cons y ys)
  have sw: "strict_weak (insert x (set ys)) lt" by (rule strict_weak_mono [OF Cons.prems(1)]) auto
  show ?case
  proof (cases "lt y x")
    case True
    then show ?thesis using Cons.IH [OF sw] Cons.prems(2) by auto
  next
    case False
    have "\<not> lt z x" if "z \<in> set ys" for z
      using False Cons.prems that unfolding strict_weak_def by (metis insertCI list.set(2) sorted_wrt.simps(2))
    then have "insort_lt lt x (filter P ys) = x # filter P ys" by (intro insort_lt_sorted_head) auto
    then show ?thesis using False by auto
  qed
qed simp

lemma filter_py_sorted:
  assumes "strict_weak (set xs) lt"
  shows "filter P (py_sorted lt xs) = py_sorted lt (filter P xs)"
  using assms
proof (induction xs)
  case (Cons x xs)
  have sw: "strict_weak (set xs) lt" by (rule strict_weak_mono [OF Cons.prems]) auto
  show ?case using Cons.IH [OF sw] filter_insort_lt [of x "py_sorted lt xs" lt P] Cons.prems sorted_py_sorted [OF sw]
    by simp
qed simp

lemma py_sorted_unique:
  assumes "mset xs = mset ys" and "strict_weak (set xs) lt"
    and "\<And>x y. x \<in> set xs \<Longrightarrow> y \<in> set xs \<Longrightarrow> \<not> lt x y \<Longrightarrow> \<not> lt y x \<Longrightarrow> x = y"
  shows "py_sorted lt xs = py_sorted lt ys"
proof (rule sorted_wrt_mset_unique [where R = "\<lambda>a b. \<not> lt b a"])
  have "set ys = set xs" using assms(1) by (metis set_mset_mset)
  then show "sorted_wrt (\<lambda>a b. \<not> lt b a) (py_sorted lt ys)"
    using sorted_py_sorted assms(2) by metis
qed (use assms sorted_py_sorted in auto)

lemma py_sorted_linorder: "py_sorted (<) xs = sort (xs :: 'a :: linorder list)"
proof (rule sym, rule properties_for_sort)
  have "strict_weak (set xs) (<)" by (auto simp: strict_weak_def)
  from sorted_py_sorted [OF this] show "sorted (py_sorted (<) xs)"
    by (simp add: not_less)
qed simp

text \<open>
  \<open>max(xs, key=...)\<close> on a non-empty list: the first of the elements no other exceeds.
\<close>

fun max_by :: "('a \<Rightarrow> int) \<Rightarrow> 'a \<Rightarrow> 'a list \<Rightarrow> 'a" where
  "max_by key best [] = best"
| "max_by key best (x # xs) = max_by key (if key best < key x then x else best) xs"

lemma max_by_in: "max_by key b xs \<in> insert b (set xs)"
proof (induction xs arbitrary: b)
  case (Cons x xs)
  then show ?case using Cons.IH [of x] Cons.IH [of b] by auto
qed simp

lemma max_by_ge: "x \<in> insert b (set xs) \<Longrightarrow> key x \<le> key (max_by key b xs)"
proof (induction xs arbitrary: b x)
  case (Cons y ys)
  let ?c = "if key b < key y then y else b"
  have c: "key ?c \<le> key (max_by key ?c ys)" by (rule Cons.IH) simp
  show ?case
  proof (cases "x \<in> set ys")
    case True
    then show ?thesis using Cons.IH [of x ?c] by simp
  next
    case False
    then show ?thesis using Cons.prems c by (auto split: if_splits)
  qed
qed simp

section \<open>The contract of an immutable keyed store\<close>

text \<open>
  The decision ledger, the strategy registry and the exit-plan store all promise the same:
  an entry, once stored under a key, can be stored again but never be replaced.
  \<open>lookup\<close> reads the entry of a key, \<open>put\<close> stores one and may refuse.
\<close>

locale immutable_store =
  fixes lookup :: "'s \<Rightarrow> 'k \<Rightarrow> 'v option"
    and put :: "'v \<Rightarrow> ('s, unit) st"
    and key :: "'v \<Rightarrow> 'k"
  assumes put_ok: "put v s = (Inr u, s') \<Longrightarrow> lookup s' = (lookup s)(key v \<mapsto> v)"
    and put_bound: "put v s = (Inr u, s') \<Longrightarrow> lookup s (key v) = Some w \<Longrightarrow> w = v"
    and put_err: "put v s = (Inl e, s') \<Longrightarrow> lookup s' = lookup s"
begin

lemma put_keeps:
  assumes "put v s = (r, s')" and "lookup s k = Some w"
  shows "lookup s' k = Some w"
proof (cases r)
  case (Inl e)
  then show ?thesis using assms put_err by simp
next
  case (Inr u)
  then show ?thesis using assms put_ok [of v s u s'] put_bound [of v s u s'] by auto
qed

lemma puts_keep: "keeps (\<lambda>s. lookup s k = Some w) (put v)"
  using put_keeps unfolding keeps_def by (metis prod.collapse)

lemma put_stores: "put v s = (Inr u, s') \<Longrightarrow> lookup s' (key v) = Some v"
  by (simp add: put_ok)

lemma put_frame: "put v s = (r, s') \<Longrightarrow> k \<noteq> key v \<Longrightarrow> lookup s' k = lookup s k"
  by (cases r) (auto simp: put_ok dest: put_err)

text \<open>A whole sequence of stores, with failing ones among them, keeps every entry.\<close>

fun put_all :: "'v list \<Rightarrow> 's \<Rightarrow> 's" where
  "put_all [] s = s"
| "put_all (v # vs) s = put_all vs (snd (put v s))"

lemma put_all_keeps: "lookup s k = Some w \<Longrightarrow> lookup (put_all vs s) k = Some w"
proof (induction vs arbitrary: s)
  case (Cons v vs)
  then show ?case using put_keeps [of v s "fst (put v s)" "snd (put v s)"] by simp
qed simp

lemma put_all_only:
  "lookup (put_all vs s) k = Some w \<Longrightarrow> lookup s k = Some w \<or> (w \<in> set vs \<and> key w = k)"
proof (induction vs arbitrary: s)
  case (Cons v vs)
  then consider "lookup (snd (put v s)) k = Some w" | "w \<in> set vs \<and> key w = k" by auto
  then show ?case
  proof cases
    case 1
    show ?thesis
    proof (cases "put v s")
      case (Pair r s')
      then show ?thesis using 1 put_ok [of v s _ s'] put_err [of v s _ s']
        by (cases r) (auto split: if_splits)
    qed
  qed auto
qed simp

end

end
