(* ===== verification/Py_Float.thy ===== *)
theory Py_Float
  imports Binary64 Py_Base
begin

text \<open>
  Python's \<open>float\<close>: finite values, the two infinities and NaN, with the arithmetic and
  the comparisons of IEEE 754 (every comparison with NaN is false, so \<open>\<not> x < y\<close> does not
  give \<open>y \<le> x\<close>), division that raises on zero, Python's \<open>min\<close> and \<open>max\<close>, and \<open>sum\<close>
  with the compensation CPython 3.12 (the version of Dockerfile.api) applies to floats.
  The sign of zero is not represented: no comparison and no branch of the program
  depends on it.
\<close>

section \<open>Values\<close>

datatype pyfloat = Fin rat | PInf | NInf | NaN

text \<open>The magnitude from which a rounded result overflows to an infinity.\<close>

definition f64_bound :: rat where
  "f64_bound = 2 ^ 1024"

definition rnd64 :: "rat \<Rightarrow> pyfloat" where
  "rnd64 q = (let r = round_rat q
     in if f64_bound \<le> r then PInf else if r \<le> - f64_bound then NInf else Fin r)"

text \<open>\<open>is_f64 r\<close>: the rational is a finite binary64 value. \<open>wf_float\<close>: so is the content.\<close>

definition is_f64 :: "rat \<Rightarrow> bool" where
  "is_f64 r \<longleftrightarrow> round_rat r = r \<and> \<bar>r\<bar> < f64_bound"

fun wf_float :: "pyfloat \<Rightarrow> bool" where
  "wf_float (Fin r) = is_f64 r"
| "wf_float _ = True"

text \<open>\<open>math.isfinite\<close>, \<open>x == y\<close>, and an int literal or conversion.\<close>

fun isfinite :: "pyfloat \<Rightarrow> bool" where
  "isfinite (Fin r) = True"
| "isfinite _ = False"

fun py_eq :: "pyfloat \<Rightarrow> pyfloat \<Rightarrow> bool" where
  "py_eq NaN y = False"
| "py_eq x NaN = False"
| "py_eq x y = (x = y)"

definition float_of_int :: "int \<Rightarrow> pyfloat" where
  "float_of_int n = rnd64 (of_int n)"

section \<open>Arithmetic and order\<close>

instantiation pyfloat :: "{zero, one, plus, minus, uminus, times, abs, ord}"
begin

definition zero_pyfloat :: pyfloat where
  "0 = Fin 0"

definition one_pyfloat :: pyfloat where
  "1 = Fin 1"

fun plus_pyfloat :: "pyfloat \<Rightarrow> pyfloat \<Rightarrow> pyfloat" where
  "plus_pyfloat NaN y = NaN"
| "plus_pyfloat x NaN = NaN"
| "plus_pyfloat (Fin a) (Fin b) = rnd64 (a + b)"
| "plus_pyfloat (Fin a) y = y"
| "plus_pyfloat x (Fin b) = x"
| "plus_pyfloat x y = (if x = y then x else NaN)"

fun uminus_pyfloat :: "pyfloat \<Rightarrow> pyfloat" where
  "uminus_pyfloat (Fin a) = Fin (- a)"
| "uminus_pyfloat PInf = NInf"
| "uminus_pyfloat NInf = PInf"
| "uminus_pyfloat NaN = NaN"

definition minus_pyfloat :: "pyfloat \<Rightarrow> pyfloat \<Rightarrow> pyfloat" where
  "minus_pyfloat x y = x + (- y)"

fun times_pyfloat :: "pyfloat \<Rightarrow> pyfloat \<Rightarrow> pyfloat" where
  "times_pyfloat NaN y = NaN"
| "times_pyfloat x NaN = NaN"
| "times_pyfloat (Fin a) (Fin b) = rnd64 (a * b)"
| "times_pyfloat (Fin a) y = (if a = 0 then NaN else if 0 < a then y else - y)"
| "times_pyfloat x (Fin b) = (if b = 0 then NaN else if 0 < b then x else - x)"
| "times_pyfloat x y = (if x = y then PInf else NInf)"

fun abs_pyfloat :: "pyfloat \<Rightarrow> pyfloat" where
  "abs_pyfloat (Fin a) = Fin \<bar>a\<bar>"
| "abs_pyfloat NaN = NaN"
| "abs_pyfloat x = PInf"

fun less_pyfloat :: "pyfloat \<Rightarrow> pyfloat \<Rightarrow> bool" where
  "less_pyfloat NaN y = False"
| "less_pyfloat x NaN = False"
| "less_pyfloat (Fin a) (Fin b) = (a < b)"
| "less_pyfloat NInf y = (y \<noteq> NInf)"
| "less_pyfloat x PInf = (x \<noteq> PInf)"
| "less_pyfloat x y = False"

definition less_eq_pyfloat :: "pyfloat \<Rightarrow> pyfloat \<Rightarrow> bool" where
  "less_eq_pyfloat x y \<longleftrightarrow> x < y \<or> py_eq x y"

instance ..

end

text \<open>
  \<open>fquot\<close> is the quotient for a divisor that is not zero; \<open>py_div\<close> is the operator
  \<open>/\<close>, which raises when the divisor is zero, whatever the dividend.
\<close>

fun fquot :: "pyfloat \<Rightarrow> pyfloat \<Rightarrow> pyfloat" where
  "fquot NaN y = NaN"
| "fquot x NaN = NaN"
| "fquot (Fin a) (Fin b) = rnd64 (a / b)"
| "fquot (Fin a) y = Fin 0"
| "fquot x (Fin b) = (if 0 \<le> b then x else - x)"
| "fquot x y = NaN"

definition py_div :: "pyfloat \<Rightarrow> pyfloat \<Rightarrow> pyfloat result" where
  "py_div x y = (if y = 0 then Inl ZeroDivisionError else Inr (fquot x y))"

definition py_min :: "pyfloat \<Rightarrow> pyfloat \<Rightarrow> pyfloat" where
  "py_min x y = (if y < x then y else x)"

definition py_max :: "pyfloat \<Rightarrow> pyfloat \<Rightarrow> pyfloat" where
  "py_max x y = (if x < y then y else x)"

text \<open>
  \<open>sum\<close> over floats: the running total and Neumaier's compensation, which is added at
  the end when it is finite and not zero; the empty sum is 0.
\<close>

fun sum_loop :: "pyfloat \<Rightarrow> pyfloat \<Rightarrow> pyfloat list \<Rightarrow> pyfloat" where
  "sum_loop acc c [] = (if isfinite c \<and> c \<noteq> 0 then acc + c else acc)"
| "sum_loop acc c (x # xs) =
     (let t = acc + x;
          d = (if \<bar>x\<bar> \<le> \<bar>acc\<bar> then (acc - t) + x else (x - t) + acc)
      in sum_loop t (c + d) xs)"

fun py_sum :: "pyfloat list \<Rightarrow> pyfloat" where
  "py_sum [] = 0"
| "py_sum (x # xs) = sum_loop (0 + x) 0 xs"

section \<open>Laws\<close>

lemma less_Fin [simp]: "Fin a < Fin b \<longleftrightarrow> a < b"
  by simp

lemma le_Fin [simp]: "Fin a \<le> Fin b \<longleftrightarrow> a \<le> b"
  by (auto simp: less_eq_pyfloat_def)

lemma le_PInf [simp]: "x \<le> PInf \<longleftrightarrow> x \<noteq> NaN"
  by (cases x) (auto simp: less_eq_pyfloat_def)

lemma NInf_le [simp]: "NInf \<le> x \<longleftrightarrow> x \<noteq> NaN"
  by (cases x) (auto simp: less_eq_pyfloat_def)

lemma NaN_le [simp]: "\<not> NaN \<le> x" "\<not> x \<le> NaN"
  by (cases x; simp add: less_eq_pyfloat_def)+

lemma PInf_le_Fin [simp]: "\<not> PInf \<le> Fin a" "\<not> Fin a \<le> NInf"
  by (auto simp: less_eq_pyfloat_def)

lemma py_eq_Fin [simp]: "py_eq (Fin a) (Fin b) \<longleftrightarrow> a = b"
  by simp

lemma py_eq_iff: "py_eq x y \<longleftrightarrow> x = y \<and> x \<noteq> NaN"
  by (cases x; cases y) auto

lemma py_eq_zero [simp]: "py_eq (Fin a) 0 \<longleftrightarrow> a = 0" "0 \<le> (0 :: pyfloat)" "py_eq 0 (0 :: pyfloat)"
  by (simp_all add: zero_pyfloat_def)

text \<open>Away from NaN the order is total and transitive; with NaN nothing compares.\<close>

lemma float_not_less_iff: "x \<noteq> NaN \<Longrightarrow> y \<noteq> NaN \<Longrightarrow> \<not> x < y \<longleftrightarrow> y \<le> x"
  by (cases x; cases y) (auto simp: less_eq_pyfloat_def)

lemma float_not_less_finite: "isfinite y \<Longrightarrow> x \<noteq> NaN \<Longrightarrow> \<not> y < x \<longleftrightarrow> x \<le> y"
  by (rule float_not_less_iff) auto

lemma float_leD: "x \<le> y \<Longrightarrow> \<not> y < (x :: pyfloat)"
  by (cases x; cases y) (auto simp: less_eq_pyfloat_def)

lemma float_le_trans: "x \<le> y \<Longrightarrow> y \<le> z \<Longrightarrow> x \<le> (z :: pyfloat)"
  by (cases x; cases y; cases z) (auto simp: less_eq_pyfloat_def)

lemma float_less_trans: "x < y \<Longrightarrow> y < z \<Longrightarrow> x < (z :: pyfloat)"
  by (cases x; cases y; cases z) auto

lemma float_less_asym: "x < y \<Longrightarrow> \<not> y < (x :: pyfloat)"
  by (cases x; cases y) auto

lemma float_less_irrefl [simp]: "\<not> x < (x :: pyfloat)"
  by (cases x) auto

lemma float_le_refl: "x \<noteq> NaN \<Longrightarrow> x \<le> x"
  by (cases x) auto

lemma float_le_not_NaN: "x \<le> y \<Longrightarrow> x \<noteq> NaN \<and> y \<noteq> NaN"
  by (cases x; cases y) (auto simp: less_eq_pyfloat_def)

lemma float_less_not_NaN: "x < y \<Longrightarrow> x \<noteq> NaN \<and> y \<noteq> NaN"
  by (cases x; cases y) auto

lemma isfinite_iff: "isfinite x \<longleftrightarrow> (\<exists>r. x = Fin r)"
  by (cases x) auto

lemma pos_float_iff: "0 < x \<longleftrightarrow> x = PInf \<or> (\<exists>r. x = Fin r \<and> 0 < r)"
  by (cases x) (auto simp: zero_pyfloat_def)

lemma le_zero_Fin [simp]: "Fin a \<le> 0 \<longleftrightarrow> a \<le> 0" "0 \<le> Fin a \<longleftrightarrow> 0 \<le> a"
  "Fin a < 0 \<longleftrightarrow> a < 0" "0 < Fin a \<longleftrightarrow> 0 < a" "Fin a = 0 \<longleftrightarrow> a = 0" "0 = Fin a \<longleftrightarrow> a = 0"
  by (auto simp: zero_pyfloat_def)

lemma zero_le_inf [simp]: "0 \<le> PInf" "\<not> 0 \<le> NInf" "NInf \<le> 0" "\<not> PInf \<le> 0"
  "0 < PInf" "\<not> 0 < NInf" "NInf < 0" "\<not> PInf < 0"
  by (auto simp: zero_pyfloat_def less_eq_pyfloat_def)

lemma uminus_zero_float [simp]: "- (0 :: pyfloat) = 0"
  by (simp add: zero_pyfloat_def)

lemma uminus_float_eq_0 [simp]: "- x = 0 \<longleftrightarrow> x = (0 :: pyfloat)"
  by (cases x) (auto simp: zero_pyfloat_def)

lemma abs_uminus_float [simp]: "\<bar>- x\<bar> = \<bar>x :: pyfloat\<bar>"
  by (cases x) auto

lemma float_zero_ne [simp]: "(0 :: pyfloat) \<noteq> NaN" "(0 :: pyfloat) \<noteq> PInf" "(0 :: pyfloat) \<noteq> NInf"
  by (simp_all add: zero_pyfloat_def)

subsection \<open>Rounding\<close>

lemma f64_bound_gt: "2 ^ 53 < f64_bound"
  unfolding f64_bound_def by (rule power_strict_increasing) auto

lemma rnd64_f64: "is_f64 r \<Longrightarrow> rnd64 r = Fin r"
  by (auto simp: is_f64_def rnd64_def Let_def)

lemma rnd64_not_NaN [simp]: "rnd64 q \<noteq> NaN"
  by (simp add: rnd64_def Let_def)

lemma wf_rnd64 [simp]: "wf_float (rnd64 q)"
  by (auto simp: rnd64_def Let_def is_f64_def round_rat_idem)

lemma rnd64_mono: "p \<le> q \<Longrightarrow> rnd64 p \<le> rnd64 q"
  using round_rat_mono [of p q] by (auto simp: rnd64_def Let_def)

lemma rnd64_Fin_between:
  assumes "is_f64 a" and "is_f64 b" and "a \<le> q" and "q \<le> b"
  obtains r where "rnd64 q = Fin r" and "a \<le> r" and "r \<le> b" and "is_f64 r"
proof -
  have "a \<le> round_rat q" "round_rat q \<le> b"
    using assms by (auto simp: is_f64_def intro: b64.rnd_ge_repr b64.rnd_le_repr)
  moreover have "- f64_bound < a" "b < f64_bound" using assms(1,2) by (auto simp: is_f64_def)
  ultimately have "rnd64 q = Fin (round_rat q)" by (simp add: rnd64_def Let_def)
  then show ?thesis
    using that \<open>a \<le> round_rat q\<close> \<open>round_rat q \<le> b\<close> wf_rnd64 [of q] by simp
qed

lemma is_f64_0 [simp]: "is_f64 0"
  using f64_bound_gt by (simp add: is_f64_def)

lemma is_f64_minus: "is_f64 a \<Longrightarrow> is_f64 (- a)"
  by (simp add: is_f64_def round_rat_minus)

lemma is_f64_int: "\<bar>k\<bar> \<le> 2 ^ 53 \<Longrightarrow> is_f64 (of_int k)"
proof -
  assume k: "\<bar>k\<bar> \<le> 2 ^ 53"
  have "\<bar>of_int k :: rat\<bar> = of_int \<bar>k\<bar>" by simp
  also have "\<dots> \<le> of_int (2 ^ 53)" using k by (simp only: of_int_le_iff)
  also have "\<dots> < f64_bound" using f64_bound_gt by simp
  finally show ?thesis using round_rat_int [OF k] by (simp add: is_f64_def)
qed

lemma is_f64_numeral: "(numeral n :: int) \<le> 2 ^ 53 \<Longrightarrow> is_f64 (numeral n)"
  using is_f64_int [of "numeral n"] by simp

lemma rnd64_0 [simp]: "rnd64 0 = 0"
  by (simp add: rnd64_f64 zero_pyfloat_def)

lemma rnd64_small [simp]:
  "rnd64 1 = 1"
  "(numeral n :: int) \<le> 9007199254740992 \<Longrightarrow> rnd64 (numeral n) = Fin (numeral n)"
  "(numeral n :: int) \<le> 9007199254740992 \<Longrightarrow> rnd64 (- numeral n) = Fin (- numeral n)"
  "rnd64 (- 1) = Fin (- 1)"
  using is_f64_int [of 1] is_f64_int [of "- 1"] is_f64_int [of "numeral n"] is_f64_int [of "- numeral n"]
  by (simp_all add: rnd64_f64 one_pyfloat_def)

lemma rnd64_half [simp]: "rnd64 (1 / 2) = Fin (1 / 2)"
  by code_simp

lemma rnd64_nonneg: "0 \<le> q \<Longrightarrow> 0 \<le> rnd64 q"
  using rnd64_mono [of 0 q] by simp

lemma rnd64_nonpos: "q \<le> 0 \<Longrightarrow> rnd64 q \<le> 0"
  using rnd64_mono [of q 0] by simp

lemma rnd64_eq_0_sum:
  assumes "is_f64 a" and "is_f64 b"
  shows "rnd64 (a + b) = 0 \<longleftrightarrow> a + b = 0"
proof
  assume "rnd64 (a + b) = 0"
  then have "round_rat (a + b) = 0" by (auto simp: rnd64_def Let_def zero_pyfloat_def split: if_splits)
  then show "a + b = 0" using assms round_rat_sum_eq_0 by (auto simp: is_f64_def)
qed (use rnd64_0 in simp)

lemma wf_plus_float [simp]: "wf_float x \<Longrightarrow> wf_float y \<Longrightarrow> wf_float (x + y)"
  by (cases x; cases y) auto

lemma wf_uminus_float [simp]: "wf_float (- x) \<longleftrightarrow> wf_float x"
  by (cases x) (auto dest: is_f64_minus)

lemma wf_times_float [simp]: "wf_float x \<Longrightarrow> wf_float y \<Longrightarrow> wf_float (x * y)"
  by (cases x; cases y) auto

lemma wf_abs_float [simp]: "wf_float x \<Longrightarrow> wf_float \<bar>x\<bar>"
  by (cases x) (auto simp: is_f64_def b64.rnd_repr_abs)

lemma wf_zero_float [simp]: "wf_float 0" "wf_float 1"
  using is_f64_int [of 1] by (simp_all add: zero_pyfloat_def one_pyfloat_def)

text \<open>
  Taking away at most what is there: the rounded difference stays between zero and the
  minuend, and it is zero only for an exact match.  This is why a reducing order can
  neither reverse nor enlarge a position.
\<close>

lemma reduce_pos:
  assumes "is_f64 a" and "0 < a" and "is_f64 d" and "d < 0" and "- d \<le> a"
  obtains r where "Fin a + Fin d = Fin r" and "0 \<le> r" and "r \<le> a" and "is_f64 r"
    and "r = 0 \<longleftrightarrow> d = - a"
proof -
  obtain r where r: "rnd64 (a + d) = Fin r" "0 \<le> r" "r \<le> a" "is_f64 r"
    by (rule rnd64_Fin_between [of 0 a "a + d"]) (use assms in auto)
  moreover have "r = 0 \<longleftrightarrow> d = - a"
    using rnd64_eq_0_sum [OF assms(1,3)] r(1) by (auto simp: zero_pyfloat_def)
  ultimately show ?thesis using that by simp
qed

lemma reduce_neg:
  assumes "is_f64 a" and "a < 0" and "is_f64 d" and "0 < d" and "d \<le> - a"
  obtains r where "Fin a + Fin d = Fin r" and "r \<le> 0" and "a \<le> r" and "is_f64 r"
    and "r = 0 \<longleftrightarrow> d = - a"
proof -
  obtain r where r: "rnd64 (a + d) = Fin r" "a \<le> r" "r \<le> 0" "is_f64 r"
    by (rule rnd64_Fin_between [of a 0 "a + d"]) (use assms in auto)
  moreover have "r = 0 \<longleftrightarrow> d = - a"
    using rnd64_eq_0_sum [OF assms(1,3)] r(1) by (auto simp: zero_pyfloat_def)
  ultimately show ?thesis using that by simp
qed

lemma float_le_less_trans: "x \<le> y \<Longrightarrow> y < z \<Longrightarrow> x < (z :: pyfloat)"
  by (cases x; cases y; cases z) (auto simp: less_eq_pyfloat_def)

lemma is_f64_powi: "- 1074 \<le> k \<Longrightarrow> k < 1024 \<Longrightarrow> is_f64 (2 powi k)"
proof -
  assume k: "- 1074 \<le> k" "k < 1024"
  have "grid k (2 powi k)" unfolding grid_def by (rule exI [of _ 1]) simp
  moreover have "\<bar>2 powi k :: rat\<bar> \<le> 2 powi (k + 53)" by (simp add: powi2_le_iff)
  ultimately have "round_rat (2 powi k) = 2 powi k" using k(1) by (rule round_rat_small_grid)
  moreover have "(2 powi k :: rat) < 2 powi 1024" using k(2) by (simp only: powi2_less_iff)
  ultimately show ?thesis by (simp add: is_f64_def f64_bound_def)
qed

lemma literal_between:
  assumes "2 powi k \<le> q" and "q \<le> 2 powi (k + 1)" and "- 1074 \<le> k" and "k < 1023"
  obtains r where "rnd64 q = Fin r" and "2 powi k \<le> r" and "r \<le> 2 powi (k + 1)" and "is_f64 r"
proof -
  obtain r where "rnd64 q = Fin r" "2 powi k \<le> r" "r \<le> 2 powi (k + 1)" "is_f64 r"
    by (rule rnd64_Fin_between [of "2 powi k" "2 powi (k + 1)" q]) (use assms in \<open>auto intro: is_f64_powi\<close>)
  then show ?thesis by (rule that)
qed

text \<open>
  A representable number has a representable neighbour on either side, so adding or
  taking away at least one unit in the last place is never rounded away.
\<close>

lemma f64_grid:
  assumes "is_f64 x" and "2 powi e \<le> x" and "x < 2 powi (e + 1)" and "- 1022 \<le> e"
  shows "grid (e - 52) x"
proof -
  have x: "0 < x" using assms(2) powi2_pos [of e] by linarith
  have "ilog2 \<bar>x\<bar> = e" using assms(2,3) x by (simp add: ilog2_unique)
  then have "fexp x = e - 52" using assms(4) by (simp add: fexp_def)
  then show ?thesis using round_rat_in_grid [of x] assms(1) by (simp add: is_f64_def)
qed

lemma f64_neighbours:
  assumes "is_f64 x" and "2 powi e \<le> x" and "x < 2 powi (e + 1)" and "- 1022 \<le> e"
  shows "round_rat (x + 2 powi (e - 52)) = x + 2 powi (e - 52)"
    and "round_rat (x - 2 powi (e - 52)) = x - 2 powi (e - 52)"
proof -
  obtain k where k: "x = of_int k * 2 powi (e - 52)" using f64_grid [OF assms] by (auto simp: grid_def)
  have p: "(2 powi (e + 1) :: rat) = of_int (2 ^ 53) * 2 powi (e - 52)"
    using powi2_grid [of "e - 52" "e + 1"] by simp
  have "(of_int k :: rat) < of_int (2 ^ 53)" using assms(3) powi2_pos [of "e - 52"] unfolding k p
    by (simp only: mult_less_cancel_right_pos)
  then have kb: "k + 1 \<le> 2 ^ 53" by (simp only: of_int_less_iff)
  have "0 < x" using assms(2) powi2_pos [of e] by linarith
  then have "(0 :: rat) < of_int k" unfolding k using powi2_pos by (rule zero_less_mult_pos2)
  then have k0: "0 < k" by simp
  have g: "grid (e - 52) (of_int m * 2 powi (e - 52))" for m by (auto simp: grid_def)
  have b: "\<bar>of_int m * 2 powi (e - 52) :: rat\<bar> \<le> 2 powi (e - 52 + 53)" if "0 \<le> m" "m \<le> 2 ^ 53" for m
  proof -
    have "(of_int m :: rat) \<le> of_int (2 ^ 53)" using that(2) by (simp only: of_int_le_iff)
    then have "of_int m * 2 powi (e - 52) \<le> (of_int (2 ^ 53) * 2 powi (e - 52) :: rat)"
      by (intro mult_right_mono) simp_all
    also have "(of_int (2 ^ 53) * 2 powi (e - 52) :: rat) = 2 powi (e - 52 + 53)"
      unfolding p [symmetric] by (simp add: add.commute)
    finally have "of_int m * 2 powi (e - 52) \<le> (2 powi (e - 52 + 53) :: rat)" .
    moreover have "0 \<le> (of_int m * 2 powi (e - 52) :: rat)" using that(1) by simp
    ultimately show ?thesis by linarith
  qed
  have r: "round_rat (of_int m * 2 powi (e - 52)) = of_int m * 2 powi (e - 52)" if "0 \<le> m" "m \<le> 2 ^ 53" for m
    by (rule round_rat_small_grid [OF g b [OF that]]) (use assms(4) in simp)
  have "x + 2 powi (e - 52) = of_int (k + 1) * 2 powi (e - 52)" "x - 2 powi (e - 52) = of_int (k - 1) * 2 powi (e - 52)"
    by (simp_all add: k algebra_simps)
  then show "round_rat (x + 2 powi (e - 52)) = x + 2 powi (e - 52)"
    and "round_rat (x - 2 powi (e - 52)) = x - 2 powi (e - 52)"
    using r [of "k + 1"] r [of "k - 1"] kb k0 by simp_all
qed

lemma float_add_strict:
  assumes "is_f64 x" and "2 powi e \<le> x" and "x < 2 powi (e + 1)" and "- 1022 \<le> e" and "2 powi (e - 52) \<le> d"
  shows "x < round_rat (x + d)" and "round_rat (x - d) < x"
proof -
  have "x + 2 powi (e - 52) \<le> round_rat (x + d)"
    using round_rat_mono [of "x + 2 powi (e - 52)" "x + d"] f64_neighbours(1) [OF assms(1-4)] assms(5) by simp
  then show "x < round_rat (x + d)" using powi2_pos [of "e - 52"] by linarith
  have "round_rat (x - d) \<le> x - 2 powi (e - 52)"
    using round_rat_mono [of "x - d" "x - 2 powi (e - 52)"] f64_neighbours(2) [OF assms(1-4)] assms(5) by simp
  then show "round_rat (x - d) < x" using powi2_pos [of "e - 52"] by linarith
qed

text \<open>A whole number of at most 53 bits over a power of two is a float.\<close>

lemma rnd64_dyadic:
  assumes "\<bar>k\<bar> \<le> 2 ^ 53" and "n \<le> 1074"
  shows "rnd64 (of_int k / 2 ^ n) = Fin (of_int k / 2 ^ n)"
proof -
  have q: "(of_int k / 2 ^ n :: rat) = of_int k * 2 powi (- int n)" by (simp add: power_int_minus divide_inverse)
  have k: "\<bar>of_int k :: rat\<bar> \<le> 2 ^ 53" using assms(1) by (metis of_int_abs of_int_le_iff of_int_numeral of_int_power)
  have g: "grid (- int n) (of_int k / 2 ^ n)" unfolding grid_def q by blast
  have "\<bar>of_int k * 2 powi (- int n) :: rat\<bar> \<le> 2 ^ 53 * 2 powi (- int n)"
    unfolding abs_mult using k by (intro mult_mono) simp_all
  moreover have "(2 ^ 53 * 2 powi (- int n) :: rat) = 2 powi (- int n + 53)"
    using power_int_add [of "2 :: rat" "- int n" 53] by simp
  ultimately have "\<bar>of_int k / 2 ^ n :: rat\<bar> \<le> 2 powi (- int n + 53)" unfolding q by linarith
  then have "round_rat (of_int k / 2 ^ n) = of_int k / 2 ^ n"
    by (rule round_rat_small_grid [OF g]) (use assms(2) in simp)
  moreover have "\<bar>of_int k / 2 ^ n :: rat\<bar> \<le> \<bar>of_int k\<bar>" by (simp add: abs_divide divide_le_eq mult_le_cancel_left1)
  then have "\<bar>of_int k / 2 ^ n :: rat\<bar> < f64_bound" using k f64_bound_gt by linarith
  ultimately show ?thesis by (intro rnd64_f64) (simp add: is_f64_def)
qed

end
