(* ===== verification/Py_Text.thy ===== *)
theory Py_Text
  imports Py_Float "HOL-Library.Word" "HOL-Library.Char_ord" "HOL-Library.List_Lexorder"
begin

unbundle bit_operations_syntax

text \<open>
  Python text: \<open>str\<close> methods, \<open>str()\<close> of numbers and times, aware and naive datetimes,
  and the SHA-256 digest behind \<open>nanodelta.contracts.stable_id\<close>.  A \<open>str\<close> is the list of
  bytes of its UTF-8 encoding; the order on strings is the same for bytes and code
  points.  White space and letter case are those of ASCII.
\<close>

section \<open>Strings\<close>

definition is_space :: "char \<Rightarrow> bool" where
  "is_space c \<longleftrightarrow> (let n = of_char c :: nat in n = 32 \<or> (9 \<le> n \<and> n \<le> 13) \<or> (28 \<le> n \<and> n \<le> 31))"

definition str_strip :: "string \<Rightarrow> string" where
  "str_strip s = rev (dropWhile is_space (rev (dropWhile is_space s)))"

fun str_join :: "string \<Rightarrow> string list \<Rightarrow> string" where
  "str_join sep [] = []"
| "str_join sep [x] = x"
| "str_join sep (x # y # ys) = x @ sep @ str_join sep (y # ys)"

definition digit_char :: "nat \<Rightarrow> char" where
  "digit_char n = char_of (48 + n)"

fun str_of_nat :: "nat \<Rightarrow> string" where
  "str_of_nat n =
     (if n < 10 then [digit_char n] else str_of_nat (n div 10) @ [digit_char (n mod 10)])"

declare str_of_nat.simps [simp del]

definition str_of_int :: "int \<Rightarrow> string" where
  "str_of_int i = (if i < 0 then ''-'' @ str_of_nat (nat (- i)) else str_of_nat (nat i))"

text \<open>A non-negative number in at least \<open>w\<close> digits.\<close>

definition zfill :: "nat \<Rightarrow> int \<Rightarrow> string" where
  "zfill w i = (let s = str_of_int i in replicate (w - length s) (digit_char 0) @ s)"

text \<open>
  \<open>repr\<close> of a string and of a tuple whose items are already shown: the quote is a double
  one when the string has single quotes and no double ones; the quote, backslash and
  control characters are escaped; characters outside ASCII are taken to print.
\<close>

definition hex_digit :: "nat \<Rightarrow> char" where
  "hex_digit n = (if n < 10 then char_of (48 + n) else char_of (87 + n))"

definition repr_char :: "char \<Rightarrow> char \<Rightarrow> string" where
  "repr_char quote c =
     (let n = of_char c :: nat in
      if c = quote \<or> n = 92 then [char_of (92 :: nat), c]
      else if n = 9 then [char_of (92 :: nat), CHR ''t'']
      else if n = 10 then [char_of (92 :: nat), CHR ''n'']
      else if n = 13 then [char_of (92 :: nat), CHR ''r'']
      else if n < 32 \<or> n = 127
        then [char_of (92 :: nat), CHR ''x'', hex_digit (n div 16), hex_digit (n mod 16)]
      else [c])"

definition repr_str :: "string \<Rightarrow> string" where
  "repr_str s =
     (let quote = (if char_of (39 :: nat) \<in> set s \<and> char_of (34 :: nat) \<notin> set s
                   then char_of (34 :: nat) else char_of (39 :: nat))
      in [quote] @ concat (map (repr_char quote) s) @ [quote])"

definition repr_tuple :: "string list \<Rightarrow> string" where
  "repr_tuple xs =
     (case xs of [x] \<Rightarrow> ''('' @ x @ '',)'' | _ \<Rightarrow> ''('' @ str_join '', '' xs @ '')'')"

section \<open>The shortest decimal of a float\<close>

text \<open>
  \<open>repr(x)\<close> is the shortest decimal that rounds to \<open>x\<close> (the closest of them), written
  with an exponent from 1e16 on and below 1e-4.
\<close>

definition dec_exp :: "rat \<Rightarrow> int" where
  "dec_exp q = (let (n, d) = quotient_of q;
       e = int (length (str_of_int n)) - int (length (str_of_int d))
     in if 10 powi e \<le> q then e else e - 1)"

definition dec_candidates :: "rat \<Rightarrow> nat \<Rightarrow> int list" where
  "dec_candidates q n = (let u = 10 powi (dec_exp q - int n + 1); lo = \<lfloor>q / u\<rfloor>
     in filter (\<lambda>m. rnd64 (of_int m * u) = Fin q)
          (if q / u - of_int lo \<le> 1 / 2 then [lo, lo + 1] else [lo + 1, lo]))"

fun dec_search :: "rat \<Rightarrow> nat \<Rightarrow> nat \<Rightarrow> int \<times> nat" where
  "dec_search q n 0 = (\<lfloor>q / 10 powi (dec_exp q - int n + 1)\<rfloor>, n)"
| "dec_search q n (Suc fuel) =
     (case dec_candidates q n of m # _ \<Rightarrow> (m, n) | [] \<Rightarrow> dec_search q (Suc n) fuel)"

definition strip_zeros :: "string \<Rightarrow> string" where
  "strip_zeros s = rev (dropWhile (\<lambda>c. c = digit_char 0) (rev s))"

text \<open>\<open>e\<close> is the exponent of the first digit of \<open>ds\<close>.\<close>

definition layout_digits :: "string \<Rightarrow> int \<Rightarrow> string" where
  "layout_digits ds e =
     (let k = length ds in
      if 16 \<le> e \<or> e < - 4 then
        take 1 ds @ (if k = 1 then [] else ''.'' @ drop 1 ds) @ ''e''
          @ (if e < 0 then ''-'' else ''+'') @ zfill 2 \<bar>e\<bar>
      else if e < 0 then ''0.'' @ replicate (nat (- e) - 1) (digit_char 0) @ ds
      else if int k \<le> e + 1 then ds @ replicate (nat (e + 1) - k) (digit_char 0) @ ''.0''
      else take (nat (e + 1)) ds @ ''.'' @ drop (nat (e + 1)) ds)"

definition repr_pos :: "rat \<Rightarrow> string" where
  "repr_pos q =
     (let (m, n) = dec_search q 1 16; s = str_of_int m;
          e = dec_exp q + (int (length s) - int n)
      in layout_digits (let t = strip_zeros s in if t = [] then [digit_char 0] else t) e)"

fun str_of_float :: "pyfloat \<Rightarrow> string" where
  "str_of_float (Fin q) =
     (if q = 0 then ''0.0'' else if q < 0 then ''-'' @ repr_pos (- q) else repr_pos q)"
| "str_of_float PInf = ''inf''"
| "str_of_float NInf = ''-inf''"
| "str_of_float NaN = ''nan''"

section \<open>Datetimes\<close>

text \<open>
  A timezone-aware datetime is the instant it denotes, in microseconds since 1970-01-01
  UTC (aware datetimes compare by instant); a naive one has no instant.  \<open>utc\<close> is
  \<open>nanodelta.contracts.utc\<close>: it rejects naive values and normalises the rest.  A field
  that only ever holds values checked by \<open>utc\<close> is an \<open>instant\<close>.
\<close>

type_synonym instant = int

datatype datetime = Naive int | Aware instant

definition utc :: "datetime \<Rightarrow> string \<Rightarrow> instant result" where
  "utc t name = (case t of
     Naive _ \<Rightarrow> Inl (ValueError (name @ '' must be timezone-aware''))
   | Aware i \<Rightarrow> Inr i)"

lemma utc_simps [simp]:
  "utc (Aware i) name = Inr i"
  "utc (Naive l) name = Inl (ValueError (name @ '' must be timezone-aware''))"
  by (simp_all add: utc_def)

lemma utc_Inr_iff [simp]: "utc t name = Inr i \<longleftrightarrow> t = Aware i"
  by (cases t) auto

definition us_per_second :: int where "us_per_second = 1000000"

definition us_per_day :: int where "us_per_day = 86400000000"

text \<open>\<open>value.date()\<close> of a UTC datetime, as the number of days since the epoch.\<close>

definition date_of :: "instant \<Rightarrow> int" where
  "date_of t = t div us_per_day"

text \<open>
  Proleptic Gregorian year, month and day of a day number: the era of 400 years, the day
  and the year of the era, counted from 1 March.
\<close>

definition civil_of_days :: "int \<Rightarrow> int \<times> int \<times> int" where
  "civil_of_days z0 =
     (let z = z0 + 719468; era = z div 146097; doe = z mod 146097;
          yoe = (doe - doe div 1460 + doe div 36524 - doe div 146096) div 365;
          doy = doe - (365 * yoe + yoe div 4 - yoe div 100);
          mp = (5 * doy + 2) div 153;
          d = doy - (153 * mp + 2) div 5 + 1;
          m = (if mp < 10 then mp + 3 else mp - 9);
          y = yoe + era * 400
      in (if m \<le> 2 then y + 1 else y, m, d))"

definition date_isoformat :: "int \<Rightarrow> string" where
  "date_isoformat day =
     (case civil_of_days day of (y, m, d) \<Rightarrow> zfill 4 y @ ''-'' @ zfill 2 m @ ''-'' @ zfill 2 d)"

definition isoformat :: "instant \<Rightarrow> string" where
  "isoformat t =
     (let s = (t mod us_per_day) div us_per_second; us = t mod us_per_second
      in date_isoformat (date_of t) @ ''T'' @ zfill 2 (s div 3600) @ '':''
         @ zfill 2 (s div 60 mod 60) @ '':'' @ zfill 2 (s mod 60)
         @ (if us = 0 then [] else ''.'' @ zfill 6 us) @ ''+00:00'')"

section \<open>SHA-256\<close>

text \<open>
  The round constants are the first 32 fractional bits of the cube roots of the first 64
  primes, the initial state those of the square roots of the first 8.  \<open>iroot k bits n\<close> is
  the integer \<open>k\<close>-th root of \<open>n\<close>, found bit by bit.
\<close>

fun iroot_from :: "nat \<Rightarrow> nat \<Rightarrow> nat \<Rightarrow> nat \<Rightarrow> nat" where
  "iroot_from k 0 n r = r"
| "iroot_from k (Suc b) n r = iroot_from k b n (if (r + 2 ^ b) ^ k \<le> n then r + 2 ^ b else r)"

definition small_primes :: "nat list" where
  "small_primes = filter (\<lambda>p. \<forall>d \<in> set [2..<p]. p mod d \<noteq> 0) [2..<312]"

definition root_bits :: "nat \<Rightarrow> nat \<Rightarrow> 32 word" where
  "root_bits k p = of_nat (iroot_from k 40 (p * 2 ^ (32 * k)) 0)"

definition sha_k :: "32 word list" where
  "sha_k = map (root_bits 3) small_primes"

definition sha_h0 :: "32 word list" where
  "sha_h0 = map (root_bits 2) (take 8 small_primes)"

definition rot_xor :: "nat \<Rightarrow> nat \<Rightarrow> 32 word \<Rightarrow> 32 word" where
  "rot_xor m n x = word_rotr m x XOR word_rotr n x"

definition ssig0 :: "32 word \<Rightarrow> 32 word" where
  "ssig0 x = rot_xor 7 18 x XOR drop_bit 3 x"

definition ssig1 :: "32 word \<Rightarrow> 32 word" where
  "ssig1 x = rot_xor 17 19 x XOR drop_bit 10 x"

definition bsig0 :: "32 word \<Rightarrow> 32 word" where
  "bsig0 x = rot_xor 2 13 x XOR word_rotr 22 x"

definition bsig1 :: "32 word \<Rightarrow> 32 word" where
  "bsig1 x = rot_xor 6 11 x XOR word_rotr 25 x"

definition sha_pad :: "string \<Rightarrow> nat list" where
  "sha_pad s =
     (let n = length s; zs = nat ((55 - int n) mod 64)
      in map of_char s @ [128] @ replicate zs 0
         @ map (\<lambda>i. (8 * n) div 256 ^ (7 - i) mod 256) [0..<8])"

fun sha_words :: "nat list \<Rightarrow> 32 word list" where
  "sha_words (a # b # c # d # bs) =
     of_nat (a * 16777216 + b * 65536 + c * 256 + d) # sha_words bs"
| "sha_words _ = []"

fun sha_extend :: "nat \<Rightarrow> 32 word list \<Rightarrow> 32 word list" where
  "sha_extend 0 w = w"
| "sha_extend (Suc n) w =
     (let i = length w
      in sha_extend n (w @ [ssig1 (w ! (i - 2)) + w ! (i - 7) + ssig0 (w ! (i - 15)) + w ! (i - 16)]))"

fun sha_round :: "32 word list \<Rightarrow> 32 word \<times> 32 word \<Rightarrow> 32 word list" where
  "sha_round [a, b, c, d, e, f, g, h] (k, w) =
     (let t1 = h + bsig1 e + ((e AND f) XOR (NOT e AND g)) + k + w;
          t2 = bsig0 a + ((a AND b) XOR (a AND c) XOR (b AND c))
      in [t1 + t2, a, b, c, d + t1, e, f, g])"
| "sha_round st _ = st"

definition sha_compress :: "32 word list \<Rightarrow> 32 word list \<Rightarrow> 32 word list" where
  "sha_compress h block = map2 (+) h (foldl sha_round h (zip sha_k (sha_extend 48 block)))"

fun sha_blocks :: "nat \<Rightarrow> 32 word list \<Rightarrow> 32 word list \<Rightarrow> 32 word list" where
  "sha_blocks 0 h ws = h"
| "sha_blocks (Suc n) h ws = sha_blocks n (sha_compress h (take 16 ws)) (drop 16 ws)"

definition word_hex :: "32 word \<Rightarrow> string" where
  "word_hex w = map (\<lambda>i. hex_digit (unat w div 16 ^ (7 - i) mod 16)) [0..<8]"

definition sha256_hex :: "string \<Rightarrow> string" where
  "sha256_hex s =
     (let ws = sha_words (sha_pad s) in concat (map word_hex (sha_blocks (length ws div 16) sha_h0 ws)))"

subsection \<open>A digest is never empty\<close>

lemma sha_h0_nonempty: "sha_h0 \<noteq> []"
proof -
  have "2 \<in> set small_primes" by (simp add: small_primes_def del: upt_rec_numeral)
  then show ?thesis by (auto simp: sha_h0_def)
qed

lemma length_sha_round: "length (sha_round st kw) = length st"
  by (cases "(st, kw)" rule: sha_round.cases) (auto simp: Let_def)

lemma length_sha_compress: "length (sha_compress h b) = length h"
proof -
  have "length (foldl sha_round st kws) = length st" for st kws
    by (induction kws arbitrary: st) (auto simp: length_sha_round)
  then show "length (sha_compress h b) = length h" by (simp add: sha_compress_def)
qed

lemma length_sha_blocks: "length (sha_blocks n h ws) = length h"
  by (induction n arbitrary: h ws) (auto simp: length_sha_compress)

lemma sha256_hex_nonempty: "sha256_hex s \<noteq> []"
proof -
  have "length (concat (map word_hex ws)) = 8 * length ws" for ws
    by (induction ws) (simp_all add: word_hex_def)
  then have "length (sha256_hex s) = 8 * length sha_h0"
    by (simp only: sha256_hex_def Let_def length_sha_blocks)
  then show ?thesis using sha_h0_nonempty by auto
qed

end
