(* ===== verification/Contracts.thy ===== *)
theory Contracts
  imports Py_Text "HOL-Library.Product_Lexorder"
begin

text \<open>
  The shared vocabulary of src/src/nanodelta/contracts.py: markets, providers, advisory
  actions, event types, and the identifier every record of the program carries, the
  SHA-256 digest of its parts joined with a vertical bar.
\<close>

section \<open>Enumerations\<close>

datatype market = NSE | FOREX | CRYPTO

fun market_value :: "market \<Rightarrow> string" where
  "market_value NSE = ''nse''"
| "market_value FOREX = ''forex''"
| "market_value CRYPTO = ''crypto''"

datatype provider = DHAN | TRUEDATA | OANDA | OKX | POLONIEX

fun provider_value :: "provider \<Rightarrow> string" where
  "provider_value DHAN = ''dhan''"
| "provider_value TRUEDATA = ''truedata''"
| "provider_value OANDA = ''oanda''"
| "provider_value OKX = ''okx''"
| "provider_value POLONIEX = ''poloniex''"

datatype advisory_action = BUY | SELL | ABSTAIN

fun action_value :: "advisory_action \<Rightarrow> string" where
  "action_value BUY = ''BUY''"
| "action_value SELL = ''SELL''"
| "action_value ABSTAIN = ''ABSTAIN''"

datatype event_type = CANDLE | QUOTE | TRADE | ORDER_BOOK | INSTRUMENT

fun event_type_value :: "event_type \<Rightarrow> string" where
  "event_type_value CANDLE = ''candle''"
| "event_type_value QUOTE = ''quote''"
| "event_type_value TRADE = ''trade''"
| "event_type_value ORDER_BOOK = ''order_book''"
| "event_type_value INSTRUMENT = ''instrument''"

lemma market_value_inj [simp]: "market_value m = market_value n \<longleftrightarrow> m = n"
  by (cases m; cases n) auto

text \<open>Members of a \<open>StrEnum\<close> compare as the strings they are.\<close>

instantiation market :: linorder
begin

definition less_eq_market :: "market \<Rightarrow> market \<Rightarrow> bool" where
  "m \<le> n \<longleftrightarrow> market_value m \<le> market_value n"

definition less_market :: "market \<Rightarrow> market \<Rightarrow> bool" where
  "m < n \<longleftrightarrow> market_value m < market_value n"

instance
  by standard (auto simp: less_eq_market_def less_market_def less_le)

end

text \<open>\<open>for market in Market\<close> runs in declaration order.\<close>

definition all_markets :: "market list" where
  "all_markets = [NSE, FOREX, CRYPTO]"

lemma set_all_markets: "set all_markets = UNIV"
  using market.exhaust by (auto simp: all_markets_def)

section \<open>Identifiers\<close>

text \<open>
  The arguments are the parts after \<open>str()\<close>; \<open>str(None)\<close> is the text None.
\<close>

definition stable_id :: "string list \<Rightarrow> string" where
  "stable_id parts = sha256_hex (str_join ''|'' parts)"

definition str_of_opt :: "string option \<Rightarrow> string" where
  "str_of_opt x = (case x of None \<Rightarrow> ''None'' | Some s \<Rightarrow> s)"

text \<open>
  The digest separates different texts only, and the separator may occur in a part: two
  different tuples of parts that join to the same text have the same identifier.
\<close>

lemma stable_id_join: "str_join ''|'' ps = str_join ''|'' qs \<Longrightarrow> stable_id ps = stable_id qs"
  by (simp add: stable_id_def)

lemma stable_id_nonempty [simp]: "stable_id ps \<noteq> []"
  by (simp add: stable_id_def sha256_hex_nonempty)

end
