(* ===== verification/Registry.thy ===== *)
theory Registry
  imports Contracts
begin

text \<open>
  The strategy registry of src/src/nanodelta/strategies/registry.py and the validation
  gates of src/src/nanodelta/strategies/validation.py: exact strategy identities, their
  definitions, validation artifacts and approvals, and which approval the runtime may
  rely on at an instant.  The registry's three dictionaries are one record; every method
  that mutates them is a state function that returns the registry after the call whether
  or not it raised.
\<close>

section \<open>Identities and definitions\<close>

record strategy_identity =
  si_market :: market
  si_strategy_id :: string
  si_strategy_version :: string
  si_timeframe :: string
  si_trade_horizon :: string
  si_feature_set_version :: int

definition strategy_identity_post_init :: "strategy_identity \<Rightarrow> strategy_identity result" where
  "strategy_identity_post_init i =
     (if str_strip (si_strategy_id i) = [] then Inl (ValueError ''strategy_id cannot be empty'')
      else if str_strip (si_strategy_version i) = []
        then Inl (ValueError ''strategy_version cannot be empty'')
      else if str_strip (si_timeframe i) = [] then Inl (ValueError ''timeframe cannot be empty'')
      else if str_strip (si_trade_horizon i) = []
        then Inl (ValueError ''trade_horizon cannot be empty'')
      else if si_feature_set_version i < 1
        then Inl (ValueError ''feature_set_version must be positive'')
      else Inr i)"

definition identity_key :: "strategy_identity \<Rightarrow> string" where
  "identity_key i = stable_id
     [market_value (si_market i), si_strategy_id i, si_strategy_version i, si_timeframe i,
      si_trade_horizon i, str_of_int (si_feature_set_version i)]"

text \<open>The order of \<open>@dataclass(order=True)\<close>: the fields as one tuple.\<close>

definition identity_tuple ::
  "strategy_identity \<Rightarrow> market \<times> string \<times> string \<times> string \<times> string \<times> int" where
  "identity_tuple i = (si_market i, si_strategy_id i, si_strategy_version i, si_timeframe i,
     si_trade_horizon i, si_feature_set_version i)"

record strategy_definition =
  sd_identity :: strategy_identity
  sd_family :: string
  sd_parameters :: "(string \<times> string) list"
  sd_implementation_ref :: string

definition strategy_definition_post_init :: "strategy_definition \<Rightarrow> strategy_definition result" where
  "strategy_definition_post_init d =
     (if str_strip (sd_family d) = [] \<or> str_strip (sd_implementation_ref d) = []
        then Inl (ValueError ''family and implementation_ref cannot be empty'')
      else if \<not> distinct (map fst (sd_parameters d))
        then Inl (ValueError ''strategy parameter names must be unique'')
      else Inr d)"

section \<open>Validation gates\<close>

record validation_metrics =
  vm_trade_count :: int
  vm_walk_forward_windows :: int
  vm_profitable_windows :: int
  vm_gross_expectancy :: pyfloat
  vm_estimated_cost_per_trade :: pyfloat
  vm_maximum_drawdown :: pyfloat
  vm_p_value :: pyfloat
  vm_tested_hypotheses :: int

definition net_expectancy :: "validation_metrics \<Rightarrow> pyfloat" where
  "net_expectancy m = vm_gross_expectancy m - vm_estimated_cost_per_trade m"

record validation_policy =
  vp_minimum_trades :: int
  vp_minimum_walk_forward_windows :: int
  vp_minimum_profitable_window_ratio :: pyfloat
  vp_minimum_net_expectancy :: pyfloat
  vp_maximum_drawdown :: pyfloat
  vp_family_wise_alpha :: pyfloat

definition validation_policy_post_init :: "validation_policy \<Rightarrow> validation_policy result" where
  "validation_policy_post_init p =
     (if vp_minimum_trades p < 1 \<or> vp_minimum_walk_forward_windows p < 1
        then Inl (ValueError ''minimum sample sizes must be positive'')
      else if \<not> (0 < vp_minimum_profitable_window_ratio p
                 \<and> vp_minimum_profitable_window_ratio p \<le> 1)
        then Inl (ValueError ''profitable window ratio must be in (0, 1]'')
      else if \<not> (0 < vp_family_wise_alpha p \<and> vp_family_wise_alpha p < 1)
        then Inl (ValueError ''family_wise_alpha must be in (0, 1)'')
      else Inr p)"

record validation_result =
  vr_validation_run_id :: string
  vr_identity :: strategy_identity
  vr_evaluated_at :: instant
  vr_passed :: bool
  vr_rejection_reasons :: "string list"
  vr_metrics :: validation_metrics
  vr_policy :: validation_policy

text \<open>\<open>str()\<close> of the two dataclasses, which enters the run identifier.\<close>

definition str_of_metrics :: "validation_metrics \<Rightarrow> string" where
  "str_of_metrics m =
     ''ValidationMetrics(trade_count='' @ str_of_int (vm_trade_count m)
     @ '', walk_forward_windows='' @ str_of_int (vm_walk_forward_windows m)
     @ '', profitable_windows='' @ str_of_int (vm_profitable_windows m)
     @ '', gross_expectancy='' @ str_of_float (vm_gross_expectancy m)
     @ '', estimated_cost_per_trade='' @ str_of_float (vm_estimated_cost_per_trade m)
     @ '', maximum_drawdown='' @ str_of_float (vm_maximum_drawdown m)
     @ '', p_value='' @ str_of_float (vm_p_value m)
     @ '', tested_hypotheses='' @ str_of_int (vm_tested_hypotheses m) @ '')''"

definition str_of_policy :: "validation_policy \<Rightarrow> string" where
  "str_of_policy p =
     ''ValidationPolicy(minimum_trades='' @ str_of_int (vp_minimum_trades p)
     @ '', minimum_walk_forward_windows='' @ str_of_int (vp_minimum_walk_forward_windows p)
     @ '', minimum_profitable_window_ratio='' @ str_of_float (vp_minimum_profitable_window_ratio p)
     @ '', minimum_net_expectancy='' @ str_of_float (vp_minimum_net_expectancy p)
     @ '', maximum_drawdown='' @ str_of_float (vp_maximum_drawdown p)
     @ '', family_wise_alpha='' @ str_of_float (vp_family_wise_alpha p) @ '')''"

text \<open>
  The quotient of two ints is the correctly rounded rational; the quotient of a float by
  an int converts the int first.
\<close>

definition validation_reasons :: "validation_metrics \<Rightarrow> validation_policy \<Rightarrow> string list" where
  "validation_reasons m p =
     (if vm_trade_count m < vp_minimum_trades p then [''INSUFFICIENT_TRADES''] else [])
   @ (if vm_walk_forward_windows m < vp_minimum_walk_forward_windows p
        then [''INSUFFICIENT_WALK_FORWARD_WINDOWS'']
      else if rnd64 (of_int (vm_profitable_windows m) / of_int (vm_walk_forward_windows m))
              < vp_minimum_profitable_window_ratio p
        then [''UNSTABLE_WALK_FORWARD_PERFORMANCE''] else [])
   @ (if net_expectancy m \<le> vp_minimum_net_expectancy p
        then [''NON_POSITIVE_COST_ADJUSTED_EXPECTANCY''] else [])
   @ (if vp_maximum_drawdown p < vm_maximum_drawdown m
        then [''MAXIMUM_DRAWDOWN_EXCEEDED''] else [])
   @ (if fquot (vp_family_wise_alpha p) (float_of_int (vm_tested_hypotheses m)) < vm_p_value m
        then [''BONFERRONI_SIGNIFICANCE_FAILED''] else [])"

definition validate_strategy ::
  "strategy_identity \<Rightarrow> validation_metrics \<Rightarrow> validation_policy \<Rightarrow> datetime
     \<Rightarrow> validation_result result" where
  "validate_strategy identity m p evaluated_at =
     (if vm_walk_forward_windows m < 1 \<or> vm_tested_hypotheses m < 1
        then Inl (ValueError ''walk-forward windows and tested hypotheses must be positive'')
      else if \<not> (0 \<le> vm_profitable_windows m
                 \<and> vm_profitable_windows m \<le> vm_walk_forward_windows m)
        then Inl (ValueError ''profitable_windows is outside the evaluated window count'')
      else if vm_estimated_cost_per_trade m < 0 \<or> vm_maximum_drawdown m < 0
        then Inl (ValueError ''cost and drawdown cannot be negative'')
      else if \<not> (0 \<le> vm_p_value m \<and> vm_p_value m \<le> 1)
        then Inl (ValueError ''p_value must be in [0, 1]'')
      else
        (let reasons = validation_reasons m p
         in bind_r (utc evaluated_at ''evaluated_at'') (\<lambda>now.
              Inr \<lparr>vr_validation_run_id =
                     stable_id [identity_key identity, isoformat now, str_of_metrics m, str_of_policy p],
                   vr_identity = identity, vr_evaluated_at = now, vr_passed = (reasons = []),
                   vr_rejection_reasons = reasons, vr_metrics = m, vr_policy = p\<rparr>)))"

section \<open>Approvals\<close>

datatype approval_state = APPROVAL_APPROVED | APPROVAL_REVOKED

record strategy_approval =
  sa_approval_id :: string
  sa_identity :: strategy_identity
  sa_validation_run_id :: string
  sa_state :: approval_state
  sa_approved_at :: instant
  sa_expires_at :: instant
  sa_approved_by :: string
  sa_reason :: string

definition approval_create ::
  "strategy_identity \<Rightarrow> string \<Rightarrow> datetime \<Rightarrow> datetime \<Rightarrow> string \<Rightarrow> string
     \<Rightarrow> strategy_approval result" where
  "approval_create identity run_id approved_at expires_at approved_by reason =
     bind_r (utc approved_at ''approved_at'') (\<lambda>a.
     bind_r (utc expires_at ''expires_at'') (\<lambda>x.
       if x \<le> a then Inl (ValueError ''approval must expire after it is approved'')
       else if run_id = [] \<or> approved_by = [] \<or> reason = []
         then Inl (ValueError ''validation_run_id, approved_by, and reason are required'')
       else Inr \<lparr>sa_approval_id = stable_id [identity_key identity, run_id, isoformat a],
                 sa_identity = identity, sa_validation_run_id = run_id,
                 sa_state = APPROVAL_APPROVED, sa_approved_at = a, sa_expires_at = x,
                 sa_approved_by = approved_by, sa_reason = reason\<rparr>))"

definition is_current :: "strategy_approval \<Rightarrow> instant \<Rightarrow> bool" where
  "is_current a now \<longleftrightarrow>
     sa_state a = APPROVAL_APPROVED \<and> sa_approved_at a \<le> now \<and> now < sa_expires_at a"

definition approval_revoke :: "strategy_approval \<Rightarrow> string \<Rightarrow> strategy_approval result" where
  "approval_revoke a reason =
     (if str_strip reason = [] then Inl (ValueError ''revocation reason cannot be empty'')
      else Inr (a\<lparr>sa_state := APPROVAL_REVOKED, sa_reason := reason\<rparr>))"

section \<open>The registry\<close>

record registry =
  rg_definitions :: "(strategy_identity, strategy_definition) dict"
  rg_validations :: "(string, validation_result) dict"
  rg_approvals :: "(string, strategy_approval) dict"

definition registry_init :: registry where
  "registry_init = \<lparr>rg_definitions = [], rg_validations = [], rg_approvals = []\<rparr>"

definition registry_register :: "strategy_definition \<Rightarrow> (registry, unit) st" where
  "registry_register d r =
     (case map_of (rg_definitions r) (sd_identity d) of
        Some existing \<Rightarrow>
          if existing \<noteq> d
          then (Inl (ValueError ''strategy identity is immutable; publish a new version''), r)
          else (Inr (), r\<lparr>rg_definitions := AList.update (sd_identity d) d (rg_definitions r)\<rparr>)
      | None \<Rightarrow> (Inr (), r\<lparr>rg_definitions := AList.update (sd_identity d) d (rg_definitions r)\<rparr>))"

definition record_validation :: "validation_result \<Rightarrow> (registry, unit) st" where
  "record_validation v r =
     (if map_of (rg_definitions r) (vr_identity v) = None
        then (Inl (ValueError ''cannot validate an unregistered strategy''), r)
      else case map_of (rg_validations r) (vr_validation_run_id v) of
        Some existing \<Rightarrow>
          if existing \<noteq> v then (Inl (ValueError ''validation artifacts are immutable''), r)
          else (Inr (), r\<lparr>rg_validations := AList.update (vr_validation_run_id v) v (rg_validations r)\<rparr>)
      | None \<Rightarrow>
          (Inr (), r\<lparr>rg_validations := AList.update (vr_validation_run_id v) v (rg_validations r)\<rparr>))"

definition record_approval :: "strategy_approval \<Rightarrow> (registry, unit) st" where
  "record_approval a r =
     (if map_of (rg_definitions r) (sa_identity a) = None
        then (Inl (ValueError ''cannot approve an unregistered strategy''), r)
      else case map_of (rg_validations r) (sa_validation_run_id a) of
        None \<Rightarrow> (Inl (ValueError ''approval requires its exact-identity validation artifact''), r)
      | Some v \<Rightarrow>
          if vr_identity v \<noteq> sa_identity a
            then (Inl (ValueError ''approval requires its exact-identity validation artifact''), r)
          else if \<not> vr_passed v
            then (Inl (PermissionError ''a failed validation cannot be approved''), r)
          else (case map_of (rg_approvals r) (sa_approval_id a) of
            Some existing \<Rightarrow>
              if existing \<noteq> a then (Inl (ValueError ''approval artifacts are immutable''), r)
              else (Inr (), r\<lparr>rg_approvals := AList.update (sa_approval_id a) a (rg_approvals r)\<rparr>)
          | None \<Rightarrow>
              (Inr (), r\<lparr>rg_approvals := AList.update (sa_approval_id a) a (rg_approvals r)\<rparr>)))"

definition registry_revoke :: "string \<Rightarrow> string \<Rightarrow> (registry, unit) st" where
  "registry_revoke approval_id reason r =
     (case map_of (rg_approvals r) approval_id of
        None \<Rightarrow> (Inl (KeyError approval_id), r)
      | Some a \<Rightarrow> (case approval_revoke a reason of
            Inl e \<Rightarrow> (Inl e, r)
          | Inr a' \<Rightarrow> (Inr (), r\<lparr>rg_approvals := AList.update approval_id a' (rg_approvals r)\<rparr>)))"

definition require_approval :: "registry \<Rightarrow> strategy_identity \<Rightarrow> instant \<Rightarrow> strategy_approval result" where
  "require_approval r identity now =
     (if map_of (rg_definitions r) identity = None
        then Inl (LookupError ''strategy identity is not registered'')
      else case filter (\<lambda>a. sa_identity a = identity \<and> is_current a now) (map snd (rg_approvals r)) of
        [] \<Rightarrow> Inl (PermissionError ''no current approval for exact strategy identity'')
      | a # as \<Rightarrow> Inr (max_by sa_approved_at a as))"

text \<open>
  \<open>eligible\<close> skips an identity when \<open>require_approval\<close> raises a PermissionError; every
  identity it asks about is a key of the definitions, so the LookupError cannot occur.
\<close>

definition eligible_here ::
  "registry \<Rightarrow> market \<Rightarrow> string \<Rightarrow> string \<Rightarrow> int \<Rightarrow> instant \<Rightarrow> strategy_identity \<Rightarrow> bool" where
  "eligible_here r m timeframe horizon fsv now i \<longleftrightarrow>
     si_market i = m \<and> si_timeframe i = timeframe \<and> si_trade_horizon i = horizon
     \<and> si_feature_set_version i = fsv
     \<and> (case require_approval r i now of Inr _ \<Rightarrow> True | Inl _ \<Rightarrow> False)"

definition eligible ::
  "registry \<Rightarrow> market \<Rightarrow> string \<Rightarrow> string \<Rightarrow> int \<Rightarrow> instant \<Rightarrow> strategy_definition list" where
  "eligible r m timeframe horizon fsv now =
     py_sorted (\<lambda>d e. identity_tuple (sd_identity d) < identity_tuple (sd_identity e))
       (map snd (filter (\<lambda>(i, d). eligible_here r m timeframe horizon fsv now i) (rg_definitions r)))"

section \<open>Sequences of registry calls\<close>

text \<open>
  Any history of the registry: calls in any order, failing ones among them.
\<close>

datatype registry_call =
    Register strategy_definition
  | Record_Validation validation_result
  | Record_Approval strategy_approval
  | Revoke string string

fun registry_exec :: "registry_call \<Rightarrow> (registry, unit) st" where
  "registry_exec (Register d) = registry_register d"
| "registry_exec (Record_Validation v) = record_validation v"
| "registry_exec (Record_Approval a) = record_approval a"
| "registry_exec (Revoke i reason) = registry_revoke i reason"

fun registry_run :: "registry_call list \<Rightarrow> registry \<Rightarrow> registry" where
  "registry_run [] r = r"
| "registry_run (c # cs) r = registry_run cs (snd (registry_exec c r))"

abbreviation registry_after :: "registry_call list \<Rightarrow> registry" where
  "registry_after cs \<equiv> registry_run cs registry_init"

section \<open>Stores of the registry are immutable\<close>

lemmas registry_defs =
  registry_register_def record_validation_def record_approval_def registry_revoke_def

interpretation definitions: immutable_store "\<lambda>r. map_of (rg_definitions r)" registry_register sd_identity
  by unfold_locales
    (auto simp: registry_register_def split: option.splits if_splits)

interpretation validations: immutable_store
  "\<lambda>r. map_of (rg_validations r)" record_validation vr_validation_run_id
  by unfold_locales
    (auto simp: record_validation_def split: option.splits if_splits)

interpretation approvals: immutable_store
  "\<lambda>r. map_of (rg_approvals r)" record_approval sa_approval_id
  by unfold_locales
    (auto simp: record_approval_def split: option.splits if_splits)

section \<open>The registry invariant\<close>

text \<open>
  Every dictionary files its artifacts under their own identity, and every approval on
  file, revoked ones included, belongs to a registered strategy and cites a validation
  artifact of the same identity that passed.
\<close>

definition approval_backed :: "registry \<Rightarrow> strategy_approval \<Rightarrow> bool" where
  "approval_backed r a \<longleftrightarrow>
     map_of (rg_definitions r) (sa_identity a) \<noteq> None \<and>
     (\<exists>v. map_of (rg_validations r) (sa_validation_run_id a) = Some v
          \<and> vr_identity v = sa_identity a \<and> vr_passed v)"

definition registry_inv :: "registry \<Rightarrow> bool" where
  "registry_inv r \<longleftrightarrow>
     dict_ok (rg_definitions r) \<and> dict_ok (rg_approvals r) \<and>
     (\<forall>i d. map_of (rg_definitions r) i = Some d \<longrightarrow> sd_identity d = i) \<and>
     (\<forall>k a. map_of (rg_approvals r) k = Some a \<longrightarrow> sa_approval_id a = k \<and> approval_backed r a)"

lemma registry_inv_init: "registry_inv registry_init"
  by (simp add: registry_inv_def registry_init_def)

lemma registry_register_frame:
  "registry_register d r = (x, r') \<Longrightarrow>
     rg_validations r' = rg_validations r \<and> rg_approvals r' = rg_approvals r"
  by (auto simp: registry_register_def split: option.splits if_splits)

lemma record_validation_frame:
  "record_validation v r = (x, r') \<Longrightarrow>
     rg_definitions r' = rg_definitions r \<and> rg_approvals r' = rg_approvals r"
  by (auto simp: record_validation_def split: option.splits if_splits)

text \<open>New definitions and validations leave an approval backed.\<close>

lemma approval_backed_register:
  "registry_register d r = (x, r') \<Longrightarrow> approval_backed r a \<Longrightarrow> approval_backed r' a"
  using definitions.put_keeps [of d r x r'] registry_register_frame [of d r x r']
  by (fastforce simp: approval_backed_def)

lemma approval_backed_validation:
  "record_validation v r = (x, r') \<Longrightarrow> approval_backed r a \<Longrightarrow> approval_backed r' a"
  using validations.put_keeps [of v r x r'] record_validation_frame [of v r x r']
  by (fastforce simp: approval_backed_def)

lemma registry_inv_register: "registry_inv r \<Longrightarrow> registry_register d r = (x, r') \<Longrightarrow> registry_inv r'"
proof -
  assume inv: "registry_inv r" and step: "registry_register d r = (x, r')"
  have shape: "rg_definitions r' = rg_definitions r
      \<or> rg_definitions r' = AList.update (sd_identity d) d (rg_definitions r)"
    using step by (auto simp: registry_register_def split: option.splits if_splits)
  have "dict_ok (rg_definitions r')"
    using inv shape by (auto simp: registry_inv_def)
  moreover have "sd_identity e = i" if "map_of (rg_definitions r') i = Some e" for i e
    using that inv shape by (auto simp: registry_inv_def split: if_splits)
  moreover have "sa_approval_id a = k \<and> approval_backed r' a"
    if "map_of (rg_approvals r') k = Some a" for k a
  proof -
    have "map_of (rg_approvals r) k = Some a" using that registry_register_frame [OF step] by simp
    then have "sa_approval_id a = k \<and> approval_backed r a" using inv unfolding registry_inv_def by blast
    then show ?thesis using approval_backed_register [OF step] by blast
  qed
  moreover have "dict_ok (rg_approvals r')"
    using inv registry_register_frame [OF step] by (simp add: registry_inv_def)
  ultimately show ?thesis unfolding registry_inv_def by blast
qed

lemma registry_inv_validation:
  "registry_inv r \<Longrightarrow> record_validation v r = (x, r') \<Longrightarrow> registry_inv r'"
  using record_validation_frame [of v r x r'] approval_backed_validation [of v r x r']
  by (auto simp: registry_inv_def)

lemma registry_inv_approval:
  assumes "registry_inv r" and "record_approval a r = (x, r')"
  shows "registry_inv r'"
proof -
  have frame: "rg_definitions r' = rg_definitions r" "rg_validations r' = rg_validations r"
    using assms(2) by (auto simp: record_approval_def split: option.splits if_splits)
  then have backed: "approval_backed r' b \<longleftrightarrow> approval_backed r b" for b
    by (simp add: approval_backed_def)
  have "rg_approvals r' = rg_approvals r \<or>
      rg_approvals r' = AList.update (sa_approval_id a) a (rg_approvals r) \<and> approval_backed r a"
    using assms(2) by (auto simp: record_approval_def approval_backed_def split: option.splits if_splits)
  then show ?thesis
    using assms(1) frame backed by (auto simp: registry_inv_def split: if_splits)
qed

lemma registry_inv_revoke:
  assumes "registry_inv r" and "registry_revoke k reason r = (x, r')"
  shows "registry_inv r'"
proof -
  have frame: "rg_definitions r' = rg_definitions r" "rg_validations r' = rg_validations r"
    using assms(2) by (auto simp: registry_revoke_def split: option.splits sum.splits)
  then have backed: "approval_backed r' b \<longleftrightarrow> approval_backed r b" for b
    by (simp add: approval_backed_def)
  have "rg_approvals r' = rg_approvals r \<or>
      (\<exists>a. map_of (rg_approvals r) k = Some a \<and>
        rg_approvals r' = AList.update k (a\<lparr>sa_state := APPROVAL_REVOKED, sa_reason := reason\<rparr>) (rg_approvals r))"
    using assms(2)
    by (auto simp: registry_revoke_def approval_revoke_def split: option.splits sum.splits if_splits)
  then show ?thesis
    using assms(1) frame backed
    by (fastforce simp: registry_inv_def approval_backed_def split: if_splits)
qed

lemma registry_inv_exec: "registry_inv r \<Longrightarrow> registry_inv (snd (registry_exec c r))"
  by (cases c)
    (auto intro: registry_inv_register registry_inv_validation registry_inv_approval
      registry_inv_revoke simp: prod_eq_iff)

lemma registry_inv_run: "registry_inv r \<Longrightarrow> registry_inv (registry_run cs r)"
  by (induction cs arbitrary: r) (auto intro: registry_inv_exec)

lemma registry_reachable_inv: "registry_inv (registry_run cs registry_init)"
  by (rule registry_inv_run [OF registry_inv_init])

lemma require_approval_Inr:
  assumes "require_approval r i now = Inr a"
  shows "a \<in> snd ` set (rg_approvals r)" and "sa_identity a = i" and "is_current a now"
    and "\<And>b. b \<in> snd ` set (rg_approvals r) \<Longrightarrow> sa_identity b = i \<Longrightarrow> is_current b now
           \<Longrightarrow> sa_approved_at b \<le> sa_approved_at a"
proof -
  obtain b bs where bs: "filter (\<lambda>a. sa_identity a = i \<and> is_current a now) (map snd (rg_approvals r)) = b # bs"
    and a: "a = max_by sa_approved_at b bs"
    using assms by (auto simp: require_approval_def split: if_splits list.splits)
  have set: "insert b (set bs) = {a \<in> snd ` set (rg_approvals r). sa_identity a = i \<and> is_current a now}"
    using arg_cong [OF bs, of set] by auto
  have "a \<in> insert b (set bs)" unfolding a by (rule max_by_in)
  then show "a \<in> snd ` set (rg_approvals r)" "sa_identity a = i" "is_current a now"
    unfolding set by auto
  show "sa_approved_at c \<le> sa_approved_at a"
    if "c \<in> snd ` set (rg_approvals r)" "sa_identity c = i" "is_current c now" for c
    unfolding a by (rule max_by_ge) (use that set in auto)
qed

lemma require_approval_iff:
  "(\<exists>a. require_approval r i now = Inr a) \<longleftrightarrow>
     map_of (rg_definitions r) i \<noteq> None \<and>
     (\<exists>a \<in> snd ` set (rg_approvals r). sa_identity a = i \<and> is_current a now)"
proof -
  let ?L = "filter (\<lambda>a. sa_identity a = i \<and> is_current a now) (map snd (rg_approvals r))"
  have "?L \<noteq> [] \<longleftrightarrow> (\<exists>a \<in> snd ` set (rg_approvals r). sa_identity a = i \<and> is_current a now)"
    by (auto simp: filter_empty_conv)
  then show ?thesis by (cases ?L) (auto simp: require_approval_def)
qed

lemma set_eligible:
  assumes "registry_inv r"
  shows "set (eligible r m tf h fsv now) =
      {d. \<exists>i. map_of (rg_definitions r) i = Some d \<and> sd_identity d = i
            \<and> si_market i = m \<and> si_timeframe i = tf \<and> si_trade_horizon i = h
            \<and> si_feature_set_version i = fsv
            \<and> (\<exists>a. a \<in> set (map snd (rg_approvals r)) \<and> sa_identity a = i \<and> is_current a now)}"
proof -
  have here: "eligible_here r m tf h fsv now i \<longleftrightarrow>
      si_market i = m \<and> si_timeframe i = tf \<and> si_trade_horizon i = h \<and> si_feature_set_version i = fsv
      \<and> map_of (rg_definitions r) i \<noteq> None
      \<and> (\<exists>a. a \<in> snd ` set (rg_approvals r) \<and> sa_identity a = i \<and> is_current a now)" for i
    using require_approval_iff [of r i now] by (auto simp: eligible_here_def split: sum.splits)
  have "d \<in> set (eligible r m tf h fsv now) \<longleftrightarrow>
      (\<exists>i. map_of (rg_definitions r) i = Some d \<and> eligible_here r m tf h fsv now i)" for d
    using assms by (force simp: eligible_def registry_inv_def dict_ok_map_of)
  moreover have "map_of (rg_definitions r) i = Some d \<and> eligible_here r m tf h fsv now i \<longleftrightarrow>
      map_of (rg_definitions r) i = Some d \<and> sd_identity d = i
      \<and> si_market i = m \<and> si_timeframe i = tf \<and> si_trade_horizon i = h
      \<and> si_feature_set_version i = fsv
      \<and> (\<exists>a. a \<in> set (map snd (rg_approvals r)) \<and> sa_identity a = i \<and> is_current a now)" for i d
    using assms unfolding here registry_inv_def by auto
  ultimately show ?thesis by (simp add: set_eq_iff)
qed

lemma distinct_eligible:
  assumes "registry_inv r"
  shows "distinct (map sd_identity (eligible r m tf h fsv now))"
proof -
  let ?L = "filter (\<lambda>(i, d). eligible_here r m tf h fsv now i) (rg_definitions r)"
  have "map sd_identity (map snd ?L) = map fst ?L"
    using assms by (auto simp: registry_inv_def dict_ok_map_of)
  moreover have "distinct (map fst ?L)"
    using assms by (auto simp: registry_inv_def dict_ok_def intro: distinct_map_filter)
  ultimately show ?thesis by (simp only: eligible_def distinct_map_py_sorted)
qed

lemma sorted_eligible:
  "sorted (map (\<lambda>d. identity_tuple (sd_identity d)) (eligible r m tf h fsv now))"
proof -
  have "strict_weak A (\<lambda>d e. identity_tuple (sd_identity d) < identity_tuple (sd_identity e))" for A
    by (auto simp: strict_weak_def)
  from sorted_py_sorted [OF this] show ?thesis
    by (simp add: eligible_def sorted_map not_less)
qed

text \<open>A registered, validated and approved strategy, for the witnesses below and elsewhere.\<close>

definition ex_identity :: strategy_identity where
  "ex_identity = \<lparr>si_market = NSE, si_strategy_id = ''ema'', si_strategy_version = ''1.0.0'',
     si_timeframe = ''5m'', si_trade_horizon = ''intraday'', si_feature_set_version = 2\<rparr>"

definition ex_definition :: strategy_definition where
  "ex_definition = \<lparr>sd_identity = ex_identity, sd_family = ''trend'', sd_parameters = [],
     sd_implementation_ref = ''ema:plugin''\<rparr>"

definition ex_metrics :: validation_metrics where
  "ex_metrics = \<lparr>vm_trade_count = 40, vm_walk_forward_windows = 4, vm_profitable_windows = 4,
     vm_gross_expectancy = Fin 3, vm_estimated_cost_per_trade = Fin 1, vm_maximum_drawdown = Fin 0,
     vm_p_value = Fin 0, vm_tested_hypotheses = 1\<rparr>"

definition ex_policy :: validation_policy where
  "ex_policy = \<lparr>vp_minimum_trades = 30, vp_minimum_walk_forward_windows = 3,
     vp_minimum_profitable_window_ratio = Fin 1, vp_minimum_net_expectancy = Fin 0,
     vp_maximum_drawdown = Fin 0, vp_family_wise_alpha = Fin (1 / 2)\<rparr>"

definition ex_validation :: validation_result where
  "ex_validation = \<lparr>vr_validation_run_id = ''run-1'', vr_identity = ex_identity,
     vr_evaluated_at = 5, vr_passed = True, vr_rejection_reasons = [],
     vr_metrics = ex_metrics, vr_policy = ex_policy\<rparr>"

definition ex_approval :: strategy_approval where
  "ex_approval = \<lparr>sa_approval_id = ''approval-1'', sa_identity = ex_identity,
     sa_validation_run_id = ''run-1'', sa_state = APPROVAL_APPROVED, sa_approved_at = 10,
     sa_expires_at = 1000000000, sa_approved_by = ''ops'', sa_reason = ''validated''\<rparr>"

definition ex_calls :: "registry_call list" where
  "ex_calls = [Register ex_definition, Record_Validation ex_validation, Record_Approval ex_approval]"

lemma ex_registry:
  "registry_after ex_calls = \<lparr>rg_definitions = [(ex_identity, ex_definition)],
     rg_validations = [(''run-1'', ex_validation)], rg_approvals = [(''approval-1'', ex_approval)]\<rparr>"
  by (simp add: ex_calls_def registry_init_def registry_defs ex_definition_def ex_validation_def
      ex_approval_def)

lemma ex_require_approval:
  "10 \<le> now \<Longrightarrow> now < 1000000000 \<Longrightarrow> require_approval (registry_after ex_calls) ex_identity now = Inr ex_approval"
  by (simp add: ex_registry require_approval_def is_current_def ex_approval_def)

section \<open>Properties\<close>

text \<open>
  C1: After any history of registry calls, the approval the runtime is given for a
  strategy identity is on file for exactly that identity, is approved and unexpired at
  that instant, cites a validation artifact of the same identity that passed, and no
  other current approval of the identity is more recent.
\<close>

theorem require_approval_sound:
  assumes "require_approval (registry_after cs) i now = Inr a"
  shows "map_of (rg_approvals (registry_after cs)) (sa_approval_id a) = Some a
    \<and> sa_identity a = i \<and> sa_state a = APPROVAL_APPROVED
    \<and> sa_approved_at a \<le> now \<and> now < sa_expires_at a
    \<and> (\<exists>v. map_of (rg_validations (registry_after cs)) (sa_validation_run_id a) = Some v
           \<and> vr_identity v = i \<and> vr_passed v)
    \<and> (\<forall>b \<in> set (map snd (rg_approvals (registry_after cs))).
         sa_identity b = i \<and> is_current b now \<longrightarrow> sa_approved_at b \<le> sa_approved_at a)"
proof -
  let ?r = "registry_after cs"
  have inv: "registry_inv ?r" by (rule registry_reachable_inv)
  obtain k where k: "(k, a) \<in> set (rg_approvals ?r)" using require_approval_Inr(1) [OF assms] by auto
  then have m: "map_of (rg_approvals ?r) k = Some a" using inv by (simp add: registry_inv_def dict_ok_map_of)
  then have "sa_approval_id a = k" "approval_backed ?r a" using inv by (auto simp: registry_inv_def)
  then show ?thesis
    using m require_approval_Inr(2-4) [OF assms] by (auto simp: is_current_def approval_backed_def)
qed

theorem require_approval_sound_witness:
  "require_approval (registry_after ex_calls) ex_identity 20 = Inr ex_approval
    \<and> sa_identity ex_approval = ex_identity \<and> sa_state ex_approval = APPROVAL_APPROVED"
  using require_approval_sound [OF ex_require_approval [of 20]] ex_require_approval [of 20] by simp

text \<open>
  Revocation is permanent: once an approval is revoked, no later sequence of registry
  calls (recording the original approval artifact again included) makes its identifier
  stand for an approval that is current at any instant.
\<close>

theorem revocation_permanent:
  assumes "map_of (rg_approvals r) k = Some a" and "sa_state a = APPROVAL_REVOKED"
  shows "\<exists>b. map_of (rg_approvals (registry_run cs r)) k = Some b \<and> (\<forall>now. \<not> is_current b now)"
proof -
  have "\<exists>b. map_of (rg_approvals (registry_run cs r)) k = Some b \<and> sa_state b = APPROVAL_REVOKED"
    using assms
  proof (induction cs arbitrary: r a)
    case (Cons c cs)
    obtain x r' where step: "registry_exec c r = (x, r')" by fastforce
    have "\<exists>b. map_of (rg_approvals r') k = Some b \<and> sa_state b = APPROVAL_REVOKED"
    proof (cases c)
      case (Record_Approval b)
      then show ?thesis using step Cons.prems approvals.put_keeps [of b r x r' k a] by auto
    next
      case (Revoke j reason)
      then show ?thesis using step Cons.prems
        by (auto simp: registry_revoke_def approval_revoke_def split: option.splits sum.splits if_splits)
    qed (use step Cons.prems registry_register_frame record_validation_frame in auto)
    then show ?case using Cons.IH step by auto
  qed simp
  then show ?thesis by (auto simp: is_current_def)
qed

theorem revocation_permanent_witness:
  "\<exists>b. map_of (rg_approvals (registry_run [Record_Approval ex_approval]
          (registry_run [Revoke ''approval-1'' ''stale''] (registry_after ex_calls)))) ''approval-1'' = Some b
     \<and> (\<forall>now. \<not> is_current b now)"
  by (rule revocation_permanent
        [where a = "ex_approval\<lparr>sa_state := APPROVAL_REVOKED, sa_reason := ''stale''\<rparr>"])
    (unfold ex_registry, simp_all add: registry_revoke_def approval_revoke_def str_strip_def is_space_def)

text \<open>
  The strategies offered for a market, timeframe, horizon and feature version are
  exactly the registered definitions of such an identity that have a current approval,
  each once, in identity order.
\<close>

theorem eligible_exact:
  "set (eligible (registry_after cs) m tf h fsv now) =
      {d. \<exists>i. map_of (rg_definitions (registry_after cs)) i = Some d \<and> sd_identity d = i
            \<and> si_market i = m \<and> si_timeframe i = tf \<and> si_trade_horizon i = h
            \<and> si_feature_set_version i = fsv
            \<and> (\<exists>a. a \<in> set (map snd (rg_approvals (registry_after cs)))
                  \<and> sa_identity a = i \<and> is_current a now)}
    \<and> distinct (map sd_identity (eligible (registry_after cs) m tf h fsv now))
    \<and> sorted (map (\<lambda>d. identity_tuple (sd_identity d)) (eligible (registry_after cs) m tf h fsv now))"
  by (intro conjI set_eligible distinct_eligible sorted_eligible registry_reachable_inv)

text \<open>
  A validation passes exactly when every gate holds: enough trades, enough
  walk-forward windows and a profitable share of them that is not below the minimum, a
  net expectancy that is not at or below the minimum, a drawdown that does not exceed the
  maximum, and a p-value that does not exceed the Bonferroni-corrected level.
\<close>

theorem validate_strategy_passed_iff:
  assumes "validate_strategy identity m p evaluated_at = Inr v"
  shows "vr_passed v \<longleftrightarrow>
      vp_minimum_trades p \<le> vm_trade_count m
      \<and> vp_minimum_walk_forward_windows p \<le> vm_walk_forward_windows m
      \<and> \<not> rnd64 (of_int (vm_profitable_windows m) / of_int (vm_walk_forward_windows m))
            < vp_minimum_profitable_window_ratio p
      \<and> \<not> vm_gross_expectancy m - vm_estimated_cost_per_trade m \<le> vp_minimum_net_expectancy p
      \<and> \<not> vp_maximum_drawdown p < vm_maximum_drawdown m
      \<and> \<not> fquot (vp_family_wise_alpha p) (float_of_int (vm_tested_hypotheses m)) < vm_p_value m"
proof -
  have "vr_passed v \<longleftrightarrow> validation_reasons m p = []"
    using assms by (auto simp: validate_strategy_def Let_def split: if_splits)
  then show ?thesis by (auto simp: validation_reasons_def net_expectancy_def)
qed

theorem validate_strategy_passed_iff_witness:
  "\<exists>v. validate_strategy ex_identity ex_metrics ex_policy (Aware 5) = Inr v \<and> vr_passed v"
proof -
  have "\<exists>v. validate_strategy ex_identity ex_metrics ex_policy (Aware 5) = Inr v"
    by (simp add: validate_strategy_def ex_metrics_def one_pyfloat_def Let_def)
  then obtain v where v: "validate_strategy ex_identity ex_metrics ex_policy (Aware 5) = Inr v" ..
  have "vr_passed v"
    unfolding validate_strategy_passed_iff [OF v]
    by (simp add: ex_metrics_def ex_policy_def minus_pyfloat_def float_of_int_def one_pyfloat_def)
  then show ?thesis using v by blast
qed

end
