(* ===== verification/Strategy_Runtime.thy ===== *)
theory Strategy_Runtime
  imports Registry
begin

text \<open>
  The strategy plugin contracts of src/src/nanodelta/strategies/runtime.py: what a plugin
  sees (\<open>strategy_context\<close>), what it returns (\<open>strategy_signal\<close>), the candidate the
  pipeline makes of it, and the catalog of runtime plugins.  A plugin is a record of its
  definition and its two methods; \<open>sp_object\<close> stands for the identity of the Python
  object, which is what the catalog compares.
\<close>

section \<open>Evidence, contexts and signals\<close>

record regime_evidence =
  re_market_fit :: pyfloat
  re_sector_fit :: pyfloat
  re_symbol_fit :: pyfloat
  re_mtf_alignment :: pyfloat
  re_symbol_regime_label :: string

definition regime_evidence_post_init :: "regime_evidence \<Rightarrow> regime_evidence result" where
  "regime_evidence_post_init r =
     (if \<exists>v \<in> set [re_market_fit r, re_sector_fit r, re_symbol_fit r, re_mtf_alignment r].
            \<not> isfinite v \<or> v < 0
        then Inl (ValueError ''regime scoring terms must be finite and non-negative'')
      else Inr r)"

record strategy_context =
  sc_market :: market
  sc_symbol :: string
  sc_sector :: "string option"
  sc_timeframe :: string
  sc_trade_horizon :: string
  sc_feature_set_version :: int
  sc_event_time :: datetime
  sc_gold_snapshot_ids :: "string list"
  sc_features :: "(string, pyfloat) dict"
  sc_settled :: bool
  sc_complete :: bool
  sc_adjusted :: bool
  sc_fresh :: bool
  sc_warm :: bool
  sc_tradeable :: bool
  sc_tradeability_reason :: string
  sc_regime :: regime_evidence

definition strategy_context_post_init :: "strategy_context \<Rightarrow> strategy_context result" where
  "strategy_context_post_init c =
     (if sc_symbol c = [] \<or> sc_timeframe c = [] \<or> sc_trade_horizon c = []
        then Inl (ValueError ''symbol, timeframe, and trade_horizon are required'')
      else if sc_feature_set_version c < 1 \<or> sc_gold_snapshot_ids c = []
        then Inl (ValueError ''positive feature version and Gold lineage are required'')
      else if \<exists>v \<in> set (map snd (sc_features c)). \<not> isfinite v
        then Inl (ValueError ''strategy features must be finite'')
      else bind_r (utc (sc_event_time c) ''event_time'') (\<lambda>_. Inr c))"

record strategy_signal =
  sg_action :: advisory_action
  sg_confidence :: pyfloat
  sg_reference_price :: pyfloat
  sg_stop_price :: pyfloat
  sg_target_price :: pyfloat
  sg_estimated_cost_r :: pyfloat
  sg_historical_expectancy_r :: pyfloat
  sg_ml_tilt_r :: pyfloat

definition strategy_signal_post_init :: "strategy_signal \<Rightarrow> strategy_signal result" where
  "strategy_signal_post_init s =
     (if sg_action s = ABSTAIN then Inl (ValueError ''a strategy signal must be BUY or SELL'')
      else if \<exists>v \<in> set [sg_confidence s, sg_reference_price s, sg_stop_price s, sg_target_price s,
                        sg_estimated_cost_r s, sg_historical_expectancy_r s, sg_ml_tilt_r s].
                \<not> isfinite v
        then Inl (ValueError ''signal values must be finite'')
      else if \<not> (0 \<le> sg_confidence s \<and> sg_confidence s \<le> 1) \<or> sg_reference_price s \<le> 0
        then Inl (ValueError ''signal confidence or reference price is invalid'')
      else if sg_estimated_cost_r s < 0
        then Inl (ValueError ''estimated cost cannot be negative'')
      else if sg_action s = BUY
              \<and> \<not> (sg_stop_price s < sg_reference_price s \<and> sg_reference_price s < sg_target_price s)
        then Inl (ValueError ''BUY geometry requires stop < entry < target'')
      else if sg_action s = SELL
              \<and> \<not> (sg_target_price s < sg_reference_price s \<and> sg_reference_price s < sg_stop_price s)
        then Inl (ValueError ''SELL geometry requires target < entry < stop'')
      else Inr s)"

record deterministic_candidate =
  dc_candidate_id :: string
  dc_identity :: strategy_identity
  dc_approval_id :: string
  dc_symbol :: string
  dc_sector :: "string option"
  dc_event_time :: datetime
  dc_gold_snapshot_ids :: "string list"
  dc_signal :: strategy_signal
  dc_regime :: regime_evidence

definition candidate_create ::
  "strategy_definition \<Rightarrow> string \<Rightarrow> strategy_context \<Rightarrow> strategy_signal
     \<Rightarrow> deterministic_candidate result" where
  "candidate_create d approval_id c s =
     bind_r (utc (sc_event_time c) ''event_time'') (\<lambda>t.
       Inr \<lparr>dc_candidate_id = stable_id ([identity_key (sd_identity d), sc_symbol c, isoformat t,
                action_value (sg_action s)] @ sc_gold_snapshot_ids c),
            dc_identity = sd_identity d, dc_approval_id = approval_id, dc_symbol = sc_symbol c,
            dc_sector = sc_sector c, dc_event_time = sc_event_time c,
            dc_gold_snapshot_ids = sc_gold_snapshot_ids c, dc_signal = s, dc_regime = sc_regime c\<rparr>)"

section \<open>Plugins and their catalog\<close>

record strategy_plugin =
  sp_object :: nat
  sp_definition :: strategy_definition
  sp_compatibility :: "strategy_context \<Rightarrow> (bool \<times> string) result"
  sp_generate :: "strategy_context \<Rightarrow> strategy_signal option result"

type_synonym catalog = "(strategy_identity, strategy_plugin) dict"

definition catalog_register :: "strategy_plugin \<Rightarrow> (catalog, unit) st" where
  "catalog_register p c =
     (let identity = sd_identity (sp_definition p) in
      case map_of c identity of
        Some existing \<Rightarrow>
          if sp_object existing \<noteq> sp_object p
          then (Inl (ValueError ''runtime strategy identity is already registered''), c)
          else (Inr (), AList.update identity p c)
      | None \<Rightarrow> (Inr (), AList.update identity p c))"

definition catalog_require :: "catalog \<Rightarrow> strategy_identity \<Rightarrow> strategy_plugin result" where
  "catalog_require c identity =
     (case map_of c identity of
        Some p \<Rightarrow> Inr p
      | None \<Rightarrow> Inl (LookupError ''approved strategy has no runtime plugin''))"

section \<open>Lemmas\<close>

text \<open>What the constructor of a signal guarantees.\<close>

lemma strategy_signal_ok:
  assumes "strategy_signal_post_init s = Inr s'"
  shows "sg_action s \<noteq> ABSTAIN"
    and "\<exists>r st tg. sg_reference_price s = Fin r \<and> sg_stop_price s = Fin st \<and> sg_target_price s = Fin tg
           \<and> 0 < r \<and> (sg_action s = BUY \<longrightarrow> st < r \<and> r < tg) \<and> (sg_action s = SELL \<longrightarrow> tg < r \<and> r < st)"
    and "\<exists>c. sg_confidence s = Fin c \<and> 0 \<le> c \<and> c \<le> 1"
  using assms
  by (auto simp: strategy_signal_post_init_def isfinite_iff one_pyfloat_def split: if_splits)

lemma candidate_create_Inr:
  assumes "candidate_create d i c s = Inr x"
  shows "dc_identity x = sd_identity d" "dc_approval_id x = i" "dc_symbol x = sc_symbol c"
    "dc_sector x = sc_sector c" "dc_signal x = s" "dc_regime x = sc_regime c"
    "dc_event_time x = sc_event_time c" "dc_gold_snapshot_ids x = sc_gold_snapshot_ids c"
  using assms by (auto simp: candidate_create_def)

text \<open>
  Where the identity of the objects tells the plugins apart, the catalog is an immutable
  store: a strategy's code is never replaced behind its identity.
\<close>

lemma catalog_require_Inr [simp]: "catalog_require c i = Inr p \<longleftrightarrow> map_of c i = Some p"
  by (auto simp: catalog_require_def split: option.splits)

lemma catalog_register_keeps:
  assumes "catalog_register p c = (x, c')" and "catalog_require c i = Inr q"
  shows "\<exists>q'. catalog_require c' i = Inr q' \<and> sp_object q' = sp_object q"
  using assms by (auto simp: catalog_register_def Let_def split: option.splits if_splits)

end
