(* ===== verification/Decisions.thy ===== *)
theory Decisions
  imports Contracts "HOL-Library.Sublist"
begin

text \<open>
  The append-only stage decisions of src/src/nanodelta/decisions.py: the decision record
  and its constructor, the signal candidate with its checks, and the in-memory ledger.
  The ledger's two dictionaries are one record.
\<close>

section \<open>Data\<close>

datatype decision_stage =
    STAGE_GLOBAL | POSITION_MANAGEMENT | DATA_READINESS | TRADEABILITY | STRATEGY_ELIGIBILITY
  | STAGE_SIGNAL | SCORING | SIGNAL_QUALITY | LLM_REVIEW | PORTFOLIO_CONSTRUCTION
  | ENTRY_REVALIDATION | STAGE_RISK | STAGE_EXECUTION

fun stage_value :: "decision_stage \<Rightarrow> string" where
  "stage_value STAGE_GLOBAL = ''global''"
| "stage_value POSITION_MANAGEMENT = ''position_management''"
| "stage_value DATA_READINESS = ''data_readiness''"
| "stage_value TRADEABILITY = ''tradeability''"
| "stage_value STRATEGY_ELIGIBILITY = ''strategy_eligibility''"
| "stage_value STAGE_SIGNAL = ''signal''"
| "stage_value SCORING = ''scoring''"
| "stage_value SIGNAL_QUALITY = ''signal_quality''"
| "stage_value LLM_REVIEW = ''llm_review''"
| "stage_value PORTFOLIO_CONSTRUCTION = ''portfolio_construction''"
| "stage_value ENTRY_REVALIDATION = ''entry_revalidation''"
| "stage_value STAGE_RISK = ''risk''"
| "stage_value STAGE_EXECUTION = ''execution''"

datatype decision_status = PASSED | REJECTED | SKIPPED | ORDERED | ERROR_STATUS

fun status_value :: "decision_status \<Rightarrow> string" where
  "status_value PASSED = ''passed''"
| "status_value REJECTED = ''rejected''"
| "status_value SKIPPED = ''skipped''"
| "status_value ORDERED = ''ordered''"
| "status_value ERROR_STATUS = ''error''"

record decision =
  dn_decision_id :: string
  dn_cycle_id :: string
  dn_market :: market
  dn_symbol :: string
  dn_timeframe :: "string option"
  dn_stage :: decision_stage
  dn_status :: decision_status
  dn_reason_code :: string
  dn_occurred_at :: instant
  dn_candidate_id :: "string option"
  dn_strategy_key :: "string option"
  dn_detail :: string
  dn_metrics :: "(string \<times> pyfloat) list"

definition decision_create ::
  "string \<Rightarrow> market \<Rightarrow> string \<Rightarrow> string option \<Rightarrow> decision_stage \<Rightarrow> decision_status \<Rightarrow> string
     \<Rightarrow> datetime \<Rightarrow> string option \<Rightarrow> string option \<Rightarrow> string \<Rightarrow> (string \<times> pyfloat) list
     \<Rightarrow> decision result" where
  "decision_create cycle_id m symbol timeframe stage status reason occurred_at candidate_id
       strategy_key detail metrics =
     (if cycle_id = [] \<or> symbol = [] \<or> reason = []
        then Inl (ValueError ''cycle_id, symbol, and reason_code are required'')
      else if \<not> distinct (map fst metrics)
        then Inl (ValueError ''decision metric names must be unique'')
      else bind_r (utc occurred_at ''occurred_at'') (\<lambda>now.
        Inr \<lparr>dn_decision_id = stable_id [cycle_id, market_value m, symbol, str_of_opt timeframe,
               stage_value stage, status_value status, reason, str_of_opt candidate_id,
               str_of_opt strategy_key],
             dn_cycle_id = cycle_id, dn_market = m, dn_symbol = symbol, dn_timeframe = timeframe,
             dn_stage = stage, dn_status = status, dn_reason_code = reason, dn_occurred_at = now,
             dn_candidate_id = candidate_id, dn_strategy_key = strategy_key, dn_detail = detail,
             dn_metrics = metrics\<rparr>))"

text \<open>
  \<open>a == b\<close> on two separately built decisions: field by field, so a NaN metric differs
  from itself.
\<close>

definition decision_eq :: "decision \<Rightarrow> decision \<Rightarrow> bool" where
  "decision_eq a b \<longleftrightarrow> a = b \<and> list_all (\<lambda>(name, v). v \<noteq> NaN) (dn_metrics a)"

record signal_candidate =
  sn_candidate_id :: string
  sn_cycle_id :: string
  sn_market :: market
  sn_symbol :: string
  sn_timeframe :: string
  sn_strategy_key :: string
  sn_approval_id :: string
  sn_event_time :: datetime
  sn_action :: advisory_action
  sn_reference_price :: pyfloat
  sn_stop_price :: pyfloat
  sn_target_price :: pyfloat
  sn_confidence :: pyfloat
  sn_gold_snapshot_ids :: "string list"
  sn_evidence :: "(string \<times> pyfloat) list"

definition signal_candidate_post_init :: "signal_candidate \<Rightarrow> signal_candidate result" where
  "signal_candidate_post_init c =
     (if (\<exists>v \<in> set [sn_candidate_id c, sn_cycle_id c, sn_symbol c, sn_timeframe c,
             sn_strategy_key c, sn_approval_id c]. v = []) \<or> sn_gold_snapshot_ids c = []
        then Inl (ValueError ''signal candidate identity and Gold lineage are required'')
      else if sn_action c = ABSTAIN
        then Inl (ValueError ''signal candidate action must be BUY or SELL'')
      else if \<exists>v \<in> set ([sn_reference_price c, sn_stop_price c, sn_target_price c, sn_confidence c]
                 @ map snd (sn_evidence c)). \<not> isfinite v
        then Inl (ValueError ''signal candidate evidence must be finite'')
      else if sn_reference_price c \<le> 0 \<or> \<not> (0 \<le> sn_confidence c \<and> sn_confidence c \<le> 1)
        then Inl (ValueError ''signal candidate price or confidence is invalid'')
      else if \<not> distinct (map fst (sn_evidence c))
        then Inl (ValueError ''signal candidate evidence names must be unique'')
      else bind_r (utc (sn_event_time c) ''event_time'') (\<lambda>_. Inr c))"

section \<open>The ledger\<close>

record ledger =
  dl_decisions :: "(string, decision) dict"
  dl_candidates :: "(string, signal_candidate) dict"

definition ledger_init :: ledger where
  "ledger_init = \<lparr>dl_decisions = [], dl_candidates = []\<rparr>"

definition ledger_append :: "decision \<Rightarrow> (ledger, unit) st" where
  "ledger_append d l =
     (case map_of (dl_decisions l) (dn_decision_id d) of
        Some existing \<Rightarrow>
          if \<not> decision_eq existing d then (Inl (ValueError ''decision identity is immutable''), l)
          else (Inr (), l\<lparr>dl_decisions := AList.update (dn_decision_id d) d (dl_decisions l)\<rparr>)
      | None \<Rightarrow> (Inr (), l\<lparr>dl_decisions := AList.update (dn_decision_id d) d (dl_decisions l)\<rparr>))"

text \<open>The candidate is stored before the decision is appended, which may still raise.\<close>

definition append_candidate :: "signal_candidate \<Rightarrow> decision \<Rightarrow> (ledger, unit) st" where
  "append_candidate c d l =
     (if (case map_of (dl_candidates l) (sn_candidate_id c) of
            Some existing \<Rightarrow> existing \<noteq> c | None \<Rightarrow> False)
        then (Inl (ValueError ''signal candidate identity is immutable''), l)
      else if dn_candidate_id d \<noteq> Some (sn_candidate_id c) \<or> dn_cycle_id d \<noteq> sn_cycle_id c
        then (Inl (ValueError ''signal decision does not match candidate identity''), l)
      else ledger_append d
        (l\<lparr>dl_candidates := AList.update (sn_candidate_id c) c (dl_candidates l)\<rparr>))"

definition for_cycle :: "ledger \<Rightarrow> string \<Rightarrow> decision list" where
  "for_cycle l cycle_id = filter (\<lambda>d. dn_cycle_id d = cycle_id) (map snd (dl_decisions l))"

section \<open>The ledger is append-only\<close>

interpretation decisions: immutable_store "\<lambda>l. map_of (dl_decisions l)" ledger_append dn_decision_id
  by unfold_locales
    (auto simp: ledger_append_def decision_eq_def split: option.splits if_splits)

lemma ledger_append_shape:
  assumes "ledger_append d l = (x, l')"
  shows "dl_candidates l' = dl_candidates l"
    and "dl_decisions l' = dl_decisions l
      \<or> dl_decisions l' = dl_decisions l @ [(dn_decision_id d, d)]"
  using assms
  by (auto simp: ledger_append_def decision_eq_def update_fresh split: option.splits if_splits)

lemma append_candidate_shape:
  assumes "append_candidate c d l = (x, l')"
  shows "dl_decisions l' = dl_decisions l
      \<or> dl_decisions l' = dl_decisions l @ [(dn_decision_id d, d)]"
    and "map_of (dl_candidates l) i = Some w \<Longrightarrow> map_of (dl_candidates l') i = Some w"
    and "x = Inr u \<Longrightarrow> map_of (dl_candidates l') (sn_candidate_id c) = Some c
           \<and> map_of (dl_decisions l') (dn_decision_id d) = Some d"
proof -
  let ?l = "l\<lparr>dl_candidates := AList.update (sn_candidate_id c) c (dl_candidates l)\<rparr>"
  have "(x, l') = (Inl e, l) \<or> ledger_append d ?l = (x, l')
      \<and> (map_of (dl_candidates l) (sn_candidate_id c) = None
         \<or> map_of (dl_candidates l) (sn_candidate_id c) = Some c)" if "x = Inl e" for e
    using assms that by (auto simp: append_candidate_def split: if_splits option.splits)
  moreover have "ledger_append d ?l = (x, l')
      \<and> (map_of (dl_candidates l) (sn_candidate_id c) = None
         \<or> map_of (dl_candidates l) (sn_candidate_id c) = Some c)" if "x = Inr v" for v
    using assms that by (auto simp: append_candidate_def split: if_splits option.splits)
  ultimately consider (refused) "l' = l" "\<exists>e. x = Inl e"
    | (stored) "ledger_append d ?l = (x, l')"
        "map_of (dl_candidates l) (sn_candidate_id c) = None
         \<or> map_of (dl_candidates l) (sn_candidate_id c) = Some c"
    by (cases x) auto
  then show "dl_decisions l' = dl_decisions l \<or> dl_decisions l' = dl_decisions l @ [(dn_decision_id d, d)]"
    and "map_of (dl_candidates l) i = Some w \<Longrightarrow> map_of (dl_candidates l') i = Some w"
    and "x = Inr u \<Longrightarrow> map_of (dl_candidates l') (sn_candidate_id c) = Some c
           \<and> map_of (dl_decisions l') (dn_decision_id d) = Some d"
    by (cases; use ledger_append_shape [of d ?l x l'] decisions.put_stores [of d ?l u l'] in auto)+
qed

datatype ledger_call = Append decision | Append_Candidate signal_candidate decision

fun ledger_exec :: "ledger_call \<Rightarrow> (ledger, unit) st" where
  "ledger_exec (Append d) = ledger_append d"
| "ledger_exec (Append_Candidate c d) = append_candidate c d"

fun ledger_run :: "ledger_call list \<Rightarrow> ledger \<Rightarrow> ledger" where
  "ledger_run [] l = l"
| "ledger_run (c # cs) l = ledger_run cs (snd (ledger_exec c l))"

lemma ledger_exec_prefix:
  assumes "ledger_exec call l = (x, l')"
  shows "prefix (dl_decisions l) (dl_decisions l')"
    and "map_of (dl_candidates l) i = Some w \<Longrightarrow> map_of (dl_candidates l') i = Some w"
  using assms ledger_append_shape append_candidate_shape(1,2)
  by (cases call; fastforce)+

lemma ledger_run_prefix:
  "prefix (dl_decisions l) (dl_decisions (ledger_run cs l))
   \<and> (map_of (dl_candidates l) i = Some w \<longrightarrow> map_of (dl_candidates (ledger_run cs l)) i = Some w)"
proof (induction cs arbitrary: l)
  case (Cons c cs)
  note step = ledger_exec_prefix [of c l "fst (ledger_exec c l)" "snd (ledger_exec c l)"]
  show ?case using Cons.IH [of "snd (ledger_exec c l)"] step
    by (auto intro: prefix_order.trans)
qed simp

lemma prefix_filter_map: "prefix xs ys \<Longrightarrow> prefix (filter P (map f xs)) (filter P (map f ys))"
  by (auto simp: prefix_def)

section \<open>Properties\<close>

text \<open>
  The decision ledger is append-only.  Whatever calls follow, failing ones included, the
  decisions of a cycle that were there stay there, unchanged and in the same order, with
  later ones only added after them; a candidate once stored stays; and a decision that was
  appended successfully is listed under its cycle.
\<close>

theorem ledger_append_only:
  "prefix (for_cycle l cycle_id) (for_cycle (ledger_run cs l) cycle_id)
   \<and> (map_of (dl_candidates l) i = Some c \<longrightarrow> map_of (dl_candidates (ledger_run cs l)) i = Some c)
   \<and> (fst (ledger_append d l) = Inr () \<longrightarrow>
        d \<in> set (for_cycle (ledger_run cs (snd (ledger_append d l))) (dn_cycle_id d)))"
proof -
  have pre: "prefix (for_cycle l cycle_id) (for_cycle (ledger_run cs l) cycle_id)" for l cycle_id
    unfolding for_cycle_def using ledger_run_prefix by (blast intro: prefix_filter_map)
  have "d \<in> set (for_cycle (ledger_run cs (snd (ledger_append d l))) (dn_cycle_id d))"
    if "fst (ledger_append d l) = Inr ()"
  proof -
    have "map_of (dl_decisions (snd (ledger_append d l))) (dn_decision_id d) = Some d"
      using that decisions.put_stores [of d l "()" "snd (ledger_append d l)"]
      by (metis prod.collapse)
    then have "d \<in> set (for_cycle (snd (ledger_append d l)) (dn_cycle_id d))"
      by (force simp: for_cycle_def dest: map_of_SomeD)
    then show ?thesis using pre by (meson set_mono_prefix subsetD)
  qed
  then show ?thesis using pre ledger_run_prefix by blast
qed

theorem ledger_append_only_witness:
  "\<exists>d. decision_create ''c1'' NSE ''TCS'' None STAGE_GLOBAL REJECTED ''ENTRY_SESSION_CLOSED''
         (Aware 0) None None [] [] = Inr d
     \<and> d \<in> set (for_cycle (ledger_run [Append d] (snd (ledger_append d ledger_init))) (dn_cycle_id d))"
proof -
  obtain d where "decision_create ''c1'' NSE ''TCS'' None STAGE_GLOBAL REJECTED ''ENTRY_SESSION_CLOSED''
      (Aware 0) None None [] [] = Inr d"
    by (simp add: decision_create_def)
  moreover have "fst (ledger_append d ledger_init) = Inr ()"
    by (simp add: ledger_append_def ledger_init_def)
  ultimately show ?thesis using ledger_append_only [of ledger_init _ "[Append d]" _ _ d] by blast
qed

end
