(* ===== verification/Decision_Pipeline.thy ===== *)
theory Decision_Pipeline
  imports Strategy_Runtime Decisions
begin

text \<open>
  The staged decision pipeline of src/src/nanodelta/orchestration/decision_pipeline.py:
  generate candidates, score them, resolve conflicts, review, allocate, revalidate against
  live quotes, and record a decision at every stage.  Each stage is a stateful call on the
  ledger and the decisions emitted in the cycle; an exception (of a plugin, or of the
  ledger) ends the cycle and leaves what was recorded.  The candidate reviewer and the
  position manager, which the pipeline knows by protocol only, are functions in its record.
\<close>

section \<open>Data\<close>

datatype cycle_mode = MODE_NORMAL | EXITS_ONLY

record cycle_preconditions =
  cp_entry_kill_switch_clear :: bool
  cp_daily_loss_capacity :: bool
  cp_entry_session_open :: bool
  cp_capital_available :: bool

definition precondition_mode :: "cycle_preconditions \<Rightarrow> cycle_mode" where
  "precondition_mode p =
     (if cp_entry_kill_switch_clear p \<and> cp_daily_loss_capacity p \<and> cp_entry_session_open p
         \<and> cp_capital_available p
      then MODE_NORMAL else EXITS_ONLY)"

definition precondition_reason :: "cycle_preconditions \<Rightarrow> string" where
  "precondition_reason p =
     (if \<not> cp_entry_kill_switch_clear p then ''ENTRY_KILL_SWITCH_ACTIVE''
      else if \<not> cp_daily_loss_capacity p then ''DAILY_LOSS_LIMIT_REACHED''
      else if \<not> cp_entry_session_open p then ''ENTRY_SESSION_CLOSED''
      else if \<not> cp_capital_available p then ''INSUFFICIENT_CAPITAL''
      else ''ENTRY_PRECONDITIONS_PASSED'')"

record score_breakdown =
  sb_strategy_confidence :: pyfloat
  sb_market_regime_fit :: pyfloat
  sb_sector_regime_fit :: pyfloat
  sb_symbol_regime_fit :: pyfloat
  sb_mtf_alignment :: pyfloat
  sb_historical_expectancy_r :: pyfloat
  sb_ml_tilt_r :: pyfloat
  sb_estimated_cost_r :: pyfloat
  sb_expected_r_net_of_costs :: pyfloat

record scored_candidate =
  sr_candidate :: deterministic_candidate
  sr_score :: score_breakdown

datatype llm_review_mode = LLM_OFF | LLM_SHADOW | LLM_ENFORCED_VETO

datatype llm_verdict = LLM_PASS | LLM_BLOCK | LLM_ABSTAIN | LLM_UNAVAILABLE

fun verdict_value :: "llm_verdict \<Rightarrow> string" where
  "verdict_value LLM_PASS = ''PASS''"
| "verdict_value LLM_BLOCK = ''BLOCK''"
| "verdict_value LLM_ABSTAIN = ''ABSTAIN''"
| "verdict_value LLM_UNAVAILABLE = ''UNAVAILABLE''"

record allocation_policy =
  ap_equity :: pyfloat
  ap_risk_fraction_per_trade :: pyfloat
  ap_max_order_notional :: pyfloat
  ap_max_total_new_notional :: pyfloat
  ap_max_positions :: int
  ap_max_sector_positions :: int
  ap_max_pairwise_correlation :: pyfloat
  ap_minimum_expected_r :: pyfloat
  ap_maximum_entry_drift_fraction :: pyfloat
  ap_minimum_reward_risk :: pyfloat

text \<open>\<open>float(value)\<close> of an int raises when no finite float is near.\<close>

definition positive_int_limit :: "int \<Rightarrow> unit result" where
  "positive_int_limit n =
     (if \<not> isfinite (float_of_int n) then Inl (OverflowError ''int too large to convert to float'')
      else if n \<le> 0 then Inl (ValueError ''allocation limits must be finite and positive'')
      else Inr ())"

definition allocation_policy_post_init :: "allocation_policy \<Rightarrow> allocation_policy result" where
  "allocation_policy_post_init p =
     (if \<exists>v \<in> set [ap_equity p, ap_risk_fraction_per_trade p, ap_max_order_notional p,
                   ap_max_total_new_notional p]. \<not> isfinite v \<or> v \<le> 0
        then Inl (ValueError ''allocation limits must be finite and positive'')
      else bind_r (positive_int_limit (ap_max_positions p)) (\<lambda>_.
           bind_r (positive_int_limit (ap_max_sector_positions p)) (\<lambda>_.
        if \<not> (0 \<le> ap_max_pairwise_correlation p \<and> ap_max_pairwise_correlation p \<le> 1)
          then Inl (ValueError ''correlation limit must be in [0, 1]'')
        else if ap_maximum_entry_drift_fraction p < 0 \<or> ap_minimum_reward_risk p \<le> 0
          then Inl (ValueError ''entry revalidation settings are invalid'')
        else Inr p)))"

record portfolio_allocation =
  pa_candidate :: scored_candidate
  pa_quantity :: pyfloat
  pa_expected_entry_price :: pyfloat
  pa_stop_price :: pyfloat
  pa_target_price :: pyfloat

definition allocation_notional :: "portfolio_allocation \<Rightarrow> pyfloat" where
  "allocation_notional a = pa_quantity a * pa_expected_entry_price a"

record pipeline_result =
  pr_cycle_id :: string
  pr_mode :: cycle_mode
  pr_candidates :: "deterministic_candidate list"
  pr_scored :: "scored_candidate list"
  pr_allocations :: "portfolio_allocation list"
  pr_decisions :: "decision list"

record pipeline =
  pl_registry :: registry
  pl_strategies :: catalog
  pl_policy :: allocation_policy
  pl_llm_mode :: llm_review_mode
  pl_reviewer :: "(scored_candidate \<Rightarrow> llm_verdict result) option"
  pl_position_manager :: "(string \<Rightarrow> instant \<Rightarrow> decision list result) option"

definition pipeline_init :: "pipeline \<Rightarrow> pipeline result" where
  "pipeline_init p =
     (if pl_llm_mode p \<noteq> LLM_OFF \<and> pl_reviewer p = None
        then Inl (ValueError ''an LLM reviewer is required when review is enabled'')
      else Inr p)"

section \<open>Emitting decisions\<close>

record cycle_state =
  cy_ledger :: ledger
  cy_emitted :: "decision list"

definition on_ledger :: "(ledger, 'a) st \<Rightarrow> (cycle_state, 'a) st" where
  "on_ledger m s = (case m (cy_ledger s) of (x, l) \<Rightarrow> (x, s\<lparr>cy_ledger := l\<rparr>))"

definition push_emitted :: "decision \<Rightarrow> (cycle_state, unit) st" where
  "push_emitted d s = (Inr (), s\<lparr>cy_emitted := cy_emitted s @ [d]\<rparr>)"

definition record_decision :: "decision \<Rightarrow> (cycle_state, unit) st" where
  "record_decision d = bind_st (on_ledger (ledger_append d)) (\<lambda>_. push_emitted d)"

definition record_candidate :: "signal_candidate \<Rightarrow> decision \<Rightarrow> (cycle_state, unit) st" where
  "record_candidate c d = bind_st (on_ledger (append_candidate c d)) (\<lambda>_. push_emitted d)"

text \<open>\<open>_emit\<close>; of its optional arguments only \<open>strategy_key\<close> is ever passed.\<close>

definition emit ::
  "strategy_context \<Rightarrow> string \<Rightarrow> decision_stage \<Rightarrow> decision_status \<Rightarrow> string \<Rightarrow> instant
     \<Rightarrow> string option \<Rightarrow> (cycle_state, unit) st" where
  "emit c cycle_id stage status reason now strategy_key =
     bind_st (lift_st (decision_create cycle_id (sc_market c) (sc_symbol c) (Some (sc_timeframe c))
        stage status reason (Aware now) None strategy_key [] [])) record_decision"

definition score_metrics :: "score_breakdown \<Rightarrow> (string \<times> pyfloat) list" where
  "score_metrics s =
     [(''strategy_confidence'', sb_strategy_confidence s),
      (''market_regime_fit'', sb_market_regime_fit s),
      (''sector_regime_fit'', sb_sector_regime_fit s),
      (''symbol_regime_fit'', sb_symbol_regime_fit s),
      (''mtf_alignment'', sb_mtf_alignment s),
      (''historical_expectancy_r'', sb_historical_expectancy_r s),
      (''ml_tilt_r'', sb_ml_tilt_r s),
      (''estimated_cost_r'', sb_estimated_cost_r s),
      (''expected_r_net_of_costs'', sb_expected_r_net_of_costs s)]"

definition emit_candidate ::
  "scored_candidate \<Rightarrow> string \<Rightarrow> decision_stage \<Rightarrow> decision_status \<Rightarrow> string \<Rightarrow> instant
     \<Rightarrow> (string \<times> pyfloat) list \<Rightarrow> (cycle_state, unit) st" where
  "emit_candidate item cycle_id stage status reason now extra_metrics =
     (let c = sr_candidate item in
      bind_st (lift_st (decision_create cycle_id (si_market (dc_identity c)) (dc_symbol c)
        (Some (si_timeframe (dc_identity c))) stage status reason (Aware now)
        (Some (dc_candidate_id c)) (Some (identity_key (dc_identity c))) []
        (score_metrics (sr_score item) @ extra_metrics))) record_decision)"

definition portfolio_reject :: "scored_candidate \<Rightarrow> string \<Rightarrow> instant \<Rightarrow> string \<Rightarrow> (cycle_state, unit) st" where
  "portfolio_reject item cycle_id now reason =
     emit_candidate item cycle_id PORTFOLIO_CONSTRUCTION REJECTED reason now []"

definition entry_reject ::
  "portfolio_allocation \<Rightarrow> string \<Rightarrow> instant \<Rightarrow> string \<Rightarrow> pyfloat option \<Rightarrow> (cycle_state, unit) st" where
  "entry_reject a cycle_id now reason observed =
     emit_candidate (pa_candidate a) cycle_id ENTRY_REVALIDATION REJECTED reason now
       (case observed of Some v \<Rightarrow> [(''observed'', v)] | None \<Rightarrow> [])"

section \<open>Generating candidates\<close>

definition readiness_reason :: "strategy_context \<Rightarrow> string option" where
  "readiness_reason c =
     (if \<not> sc_settled c then Some ''NO_SETTLED_BAR''
      else if \<not> sc_complete c then Some ''MISSING_BARS''
      else if \<not> sc_adjusted c then Some ''CORP_ACTION_SUSPECT''
      else if \<not> sc_fresh c then Some ''STALE_QUOTE''
      else if \<not> sc_warm c then Some ''INDICATOR_WARMUP''
      else None)"

definition candidate_evidence :: "deterministic_candidate \<Rightarrow> (string \<times> pyfloat) list" where
  "candidate_evidence c =
     [(''market_regime_fit'', re_market_fit (dc_regime c)),
      (''sector_regime_fit'', re_sector_fit (dc_regime c)),
      (''symbol_regime_fit'', re_symbol_fit (dc_regime c)),
      (''mtf_alignment'', re_mtf_alignment (dc_regime c)),
      (''historical_expectancy_r'', sg_historical_expectancy_r (dc_signal c)),
      (''ml_tilt_r'', sg_ml_tilt_r (dc_signal c)),
      (''estimated_cost_r'', sg_estimated_cost_r (dc_signal c))]"

definition candidate_record :: "string \<Rightarrow> deterministic_candidate \<Rightarrow> signal_candidate" where
  "candidate_record cycle_id c =
     (let s = dc_signal c; i = dc_identity c in
      \<lparr>sn_candidate_id = dc_candidate_id c, sn_cycle_id = cycle_id, sn_market = si_market i,
       sn_symbol = dc_symbol c, sn_timeframe = si_timeframe i, sn_strategy_key = identity_key i,
       sn_approval_id = dc_approval_id c, sn_event_time = dc_event_time c, sn_action = sg_action s,
       sn_reference_price = sg_reference_price s, sn_stop_price = sg_stop_price s,
       sn_target_price = sg_target_price s, sn_confidence = sg_confidence s,
       sn_gold_snapshot_ids = dc_gold_snapshot_ids c, sn_evidence = candidate_evidence c\<rparr>)"

definition signal_decision ::
  "strategy_context \<Rightarrow> string \<Rightarrow> instant \<Rightarrow> deterministic_candidate \<Rightarrow> decision result" where
  "signal_decision ctx cycle_id now c =
     (let s = dc_signal c in
      decision_create cycle_id (sc_market ctx) (sc_symbol ctx) (Some (sc_timeframe ctx)) STAGE_SIGNAL
        PASSED ''SIGNAL_GENERATED'' (Aware now) (Some (dc_candidate_id c))
        (Some (identity_key (dc_identity c))) (action_value (sg_action s))
        ([(''reference_price'', sg_reference_price s), (''stop_price'', sg_stop_price s),
          (''target_price'', sg_target_price s), (''strategy_confidence'', sg_confidence s)]
         @ candidate_evidence c))"

definition generate_strategy ::
  "pipeline \<Rightarrow> string \<Rightarrow> instant \<Rightarrow> strategy_context \<Rightarrow> strategy_definition
     \<Rightarrow> deterministic_candidate list \<Rightarrow> (cycle_state, deterministic_candidate list) st" where
  "generate_strategy p cycle_id now ctx d candidates =
     (let i = sd_identity d; key = Some (identity_key i) in
      bind_st (lift_st (catalog_require (pl_strategies p) i)) (\<lambda>plugin.
      bind_st (lift_st (sp_compatibility plugin ctx)) (\<lambda>(compatible, reason).
      if \<not> compatible then
        bind_st (emit ctx cycle_id STRATEGY_ELIGIBILITY REJECTED reason now key)
          (\<lambda>_. return_st candidates)
      else
        bind_st (lift_st (require_approval (pl_registry p) i now)) (\<lambda>approval.
        bind_st (emit ctx cycle_id STRATEGY_ELIGIBILITY PASSED ''STRATEGY_ELIGIBLE'' now key) (\<lambda>_.
        bind_st (lift_st (sp_generate plugin ctx)) (\<lambda>signal.
        case signal of
          None \<Rightarrow> bind_st (emit ctx cycle_id STAGE_SIGNAL REJECTED ''NO_TRIGGER'' now key)
                    (\<lambda>_. return_st candidates)
        | Some s \<Rightarrow>
            bind_st (lift_st (candidate_create d (sa_approval_id approval) ctx s)) (\<lambda>c.
            bind_st (lift_st (signal_candidate_post_init (candidate_record cycle_id c))) (\<lambda>rec.
            bind_st (lift_st (signal_decision ctx cycle_id now c)) (\<lambda>dec.
            bind_st (record_candidate rec dec) (\<lambda>_. return_st (candidates @ [c])))))))))))"

definition generate_context ::
  "pipeline \<Rightarrow> string \<Rightarrow> instant \<Rightarrow> strategy_context
     \<Rightarrow> deterministic_candidate list \<Rightarrow> (cycle_state, deterministic_candidate list) st" where
  "generate_context p cycle_id now ctx candidates =
     (case readiness_reason ctx of
        Some reason \<Rightarrow> bind_st (emit ctx cycle_id DATA_READINESS REJECTED reason now None)
                         (\<lambda>_. return_st candidates)
      | None \<Rightarrow>
          bind_st (emit ctx cycle_id DATA_READINESS PASSED ''DATA_READY'' now None) (\<lambda>_.
          if \<not> sc_tradeable ctx then
            bind_st (emit ctx cycle_id TRADEABILITY REJECTED (sc_tradeability_reason ctx) now None)
              (\<lambda>_. return_st candidates)
          else
            bind_st (emit ctx cycle_id TRADEABILITY PASSED ''SYMBOL_TRADEABLE'' now None) (\<lambda>_.
            (let definitions = eligible (pl_registry p) (sc_market ctx) (sc_timeframe ctx)
                   (sc_trade_horizon ctx) (sc_feature_set_version ctx) now
             in if definitions = [] then
                  bind_st (emit ctx cycle_id STRATEGY_ELIGIBILITY REJECTED ''NO_APPROVED_STRATEGY'' now None)
                    (\<lambda>_. return_st candidates)
                else fold_st (generate_strategy p cycle_id now ctx) definitions candidates))))"

definition generate ::
  "pipeline \<Rightarrow> string \<Rightarrow> instant \<Rightarrow> strategy_context list
     \<Rightarrow> (cycle_state, deterministic_candidate list) st" where
  "generate p cycle_id now contexts = fold_st (generate_context p cycle_id now) contexts []"

section \<open>Scoring and conflicts\<close>

definition expected_r :: "deterministic_candidate \<Rightarrow> pyfloat" where
  "expected_r c =
     (let s = dc_signal c; r = dc_regime c in
      sg_confidence s * re_market_fit r * re_sector_fit r * re_symbol_fit r * re_mtf_alignment r
        + sg_historical_expectancy_r s + sg_ml_tilt_r s - sg_estimated_cost_r s)"

definition scored_of :: "deterministic_candidate \<Rightarrow> scored_candidate" where
  "scored_of c =
     (let s = dc_signal c; r = dc_regime c in
      \<lparr>sr_candidate = c,
       sr_score = \<lparr>sb_strategy_confidence = sg_confidence s, sb_market_regime_fit = re_market_fit r,
         sb_sector_regime_fit = re_sector_fit r, sb_symbol_regime_fit = re_symbol_fit r,
         sb_mtf_alignment = re_mtf_alignment r,
         sb_historical_expectancy_r = sg_historical_expectancy_r s, sb_ml_tilt_r = sg_ml_tilt_r s,
         sb_estimated_cost_r = sg_estimated_cost_r s, sb_expected_r_net_of_costs = expected_r c\<rparr>\<rparr>)"

abbreviation item_r :: "scored_candidate \<Rightarrow> pyfloat" where
  "item_r i \<equiv> sb_expected_r_net_of_costs (sr_score i)"

text \<open>
  The sort key of both sorts, compared as Python compares tuples: the first components
  that differ decide.
\<close>

definition rank_lt :: "scored_candidate \<Rightarrow> scored_candidate \<Rightarrow> bool" where
  "rank_lt a b =
     (if py_eq (- item_r a) (- item_r b)
      then (identity_key (dc_identity (sr_candidate a)), dc_symbol (sr_candidate a),
              dc_candidate_id (sr_candidate a))
           < (identity_key (dc_identity (sr_candidate b)), dc_symbol (sr_candidate b),
              dc_candidate_id (sr_candidate b))
      else - item_r a < - item_r b)"

definition score_candidate ::
  "pipeline \<Rightarrow> string \<Rightarrow> instant \<Rightarrow> deterministic_candidate \<Rightarrow> scored_candidate list
     \<Rightarrow> (cycle_state, scored_candidate list) st" where
  "score_candidate p cycle_id now c acc =
     (let item = scored_of c;
          passed = ap_minimum_expected_r (pl_policy p) < expected_r c
      in bind_st (emit_candidate item cycle_id SCORING (if passed then PASSED else REJECTED)
                   (if passed then ''POSITIVE_EXPECTED_R'' else ''NON_POSITIVE_EXPECTED_R'') now [])
           (\<lambda>_. return_st (if passed then acc @ [item] else acc)))"

definition score ::
  "pipeline \<Rightarrow> string \<Rightarrow> instant \<Rightarrow> deterministic_candidate list
     \<Rightarrow> (cycle_state, scored_candidate list) st" where
  "score p cycle_id now candidates =
     bind_st (fold_st (score_candidate p cycle_id now) candidates [])
       (\<lambda>result. return_st (py_sorted rank_lt result))"

definition item_symbol :: "scored_candidate \<Rightarrow> market \<times> string" where
  "item_symbol i = (si_market (dc_identity (sr_candidate i)), dc_symbol (sr_candidate i))"

definition item_action :: "scored_candidate \<Rightarrow> advisory_action" where
  "item_action i = sg_action (dc_signal (sr_candidate i))"

text \<open>\<open>groups.setdefault(key, []).append(item)\<close>, item by item.\<close>

fun symbol_groups ::
  "scored_candidate list \<Rightarrow> (market \<times> string, scored_candidate list) dict
     \<Rightarrow> (market \<times> string, scored_candidate list) dict" where
  "symbol_groups [] groups = groups"
| "symbol_groups (i # is) groups =
     symbol_groups is (AList.update (item_symbol i)
       ((case map_of groups (item_symbol i) of None \<Rightarrow> [] | Some g \<Rightarrow> g) @ [i]) groups)"

definition resolve_group ::
  "string \<Rightarrow> instant \<Rightarrow> scored_candidate list \<Rightarrow> scored_candidate list
     \<Rightarrow> (cycle_state, scored_candidate list) st" where
  "resolve_group cycle_id now items acc =
     (if 1 < length (dict_fromkeys (map item_action items)) then
        bind_st (for_st (\<lambda>i. emit_candidate i cycle_id SIGNAL_QUALITY REJECTED
                           ''CONFLICTING_SIGNALS'' now []) items) (\<lambda>_. return_st acc)
      else
        bind_st (emit_candidate (hd items) cycle_id SIGNAL_QUALITY PASSED
          (if length items = 1 then ''NO_CONFLICT'' else ''BEST_RANKED_DUPLICATE'') now []) (\<lambda>_.
        bind_st (for_st (\<lambda>i. emit_candidate i cycle_id SIGNAL_QUALITY REJECTED
                           ''DUPLICATE_SIGNAL_LOWER_RANKED'' now []) (tl items))
          (\<lambda>_. return_st (acc @ [hd items]))))"

definition resolve_conflicts ::
  "string \<Rightarrow> instant \<Rightarrow> scored_candidate list \<Rightarrow> (cycle_state, scored_candidate list) st" where
  "resolve_conflicts cycle_id now scored =
     bind_st (fold_st (resolve_group cycle_id now) (map snd (symbol_groups scored [])) [])
       (\<lambda>resolved. return_st (py_sorted rank_lt resolved))"

section \<open>Review\<close>

definition review_item ::
  "pipeline \<Rightarrow> (scored_candidate \<Rightarrow> llm_verdict result) \<Rightarrow> string \<Rightarrow> instant \<Rightarrow> scored_candidate
     \<Rightarrow> scored_candidate list \<Rightarrow> (cycle_state, scored_candidate list) st" where
  "review_item p reviewer cycle_id now item acc =
     (let verdict = (case reviewer item of Inr v \<Rightarrow> v | Inl _ \<Rightarrow> LLM_UNAVAILABLE);
          blocked = (pl_llm_mode p = LLM_ENFORCED_VETO \<and> verdict = LLM_BLOCK)
      in bind_st (emit_candidate item cycle_id LLM_REVIEW (if blocked then REJECTED else PASSED)
                   (''LLM_'' @ verdict_value verdict) now [])
           (\<lambda>_. return_st (if blocked then acc else acc @ [item])))"

definition review ::
  "pipeline \<Rightarrow> string \<Rightarrow> instant \<Rightarrow> scored_candidate list \<Rightarrow> (cycle_state, scored_candidate list) st" where
  "review p cycle_id now candidates =
     (if pl_llm_mode p = LLM_OFF then
        bind_st (for_st (\<lambda>i. emit_candidate i cycle_id LLM_REVIEW SKIPPED ''LLM_OFF'' now []) candidates)
          (\<lambda>_. return_st candidates)
      else case pl_reviewer p of
        None \<Rightarrow> raise_st AssertionError
      | Some reviewer \<Rightarrow> fold_st (review_item p reviewer cycle_id now) candidates [])"

section \<open>Allocation\<close>

text \<open>\<open>correlations.get((symbol, other), correlations.get((other, symbol), 0.0))\<close>\<close>

definition pair_correlation :: "(string \<times> string, pyfloat) dict \<Rightarrow> string \<Rightarrow> string \<Rightarrow> pyfloat" where
  "pair_correlation correlations symbol other =
     (case map_of correlations (symbol, other) of
        Some v \<Rightarrow> v
      | None \<Rightarrow> (case map_of correlations (other, symbol) of Some v \<Rightarrow> v | None \<Rightarrow> 0))"

abbreviation alloc_symbol :: "portfolio_allocation \<Rightarrow> string" where
  "alloc_symbol a \<equiv> dc_symbol (sr_candidate (pa_candidate a))"

definition correlated ::
  "allocation_policy \<Rightarrow> string \<Rightarrow> portfolio_allocation list \<Rightarrow> (string \<times> string, pyfloat) dict
     \<Rightarrow> bool" where
  "correlated policy symbol allocations correlations \<longleftrightarrow>
     list_ex (\<lambda>a. ap_max_pairwise_correlation policy
                    < \<bar>pair_correlation correlations symbol (alloc_symbol a)\<bar>) allocations"

definition sector_name :: "string option \<Rightarrow> string" where
  "sector_name s = (case s of None \<Rightarrow> ''UNCLASSIFIED'' | Some n \<Rightarrow> if n = [] then ''UNCLASSIFIED'' else n)"

record alloc_state =
  al_allocations :: "portfolio_allocation list"
  al_sectors :: "(string, int) dict"
  al_total_notional :: pyfloat

definition sector_count :: "alloc_state \<Rightarrow> string \<Rightarrow> int" where
  "sector_count a sector = (case map_of (al_sectors a) sector of None \<Rightarrow> 0 | Some n \<Rightarrow> n)"

definition order_quantity :: "allocation_policy \<Rightarrow> strategy_signal \<Rightarrow> pyfloat result" where
  "order_quantity policy s =
     bind_r (py_div (ap_equity policy * ap_risk_fraction_per_trade policy)
               \<bar>sg_reference_price s - sg_stop_price s\<bar>) (\<lambda>by_risk.
     bind_r (py_div (ap_max_order_notional policy) (sg_reference_price s)) (\<lambda>by_notional.
       Inr (py_min by_risk by_notional)))"

definition allocate_item ::
  "pipeline \<Rightarrow> string \<Rightarrow> instant \<Rightarrow> (market \<times> string) list \<Rightarrow> (string \<times> string, pyfloat) dict
     \<Rightarrow> scored_candidate \<Rightarrow> alloc_state \<Rightarrow> (cycle_state, alloc_state) st" where
  "allocate_item p cycle_id now existing correlations item a =
     (let policy = pl_policy p; c = sr_candidate item; s = dc_signal c;
          reject = (\<lambda>reason. bind_st (portfolio_reject item cycle_id now reason) (\<lambda>_. return_st a));
          sector = sector_name (dc_sector c)
      in
      if item_symbol item \<in> set existing then reject ''EXISTING_POSITION''
      else if dc_symbol c \<in> set (map alloc_symbol (al_allocations a)) then reject ''SYMBOL_ALREADY_SELECTED''
      else if ap_max_positions policy \<le> int (length (al_allocations a)) then reject ''POSITION_CAPACITY_REACHED''
      else if ap_max_sector_positions policy \<le> sector_count a sector then reject ''SECTOR_CONCENTRATION''
      else if correlated policy (dc_symbol c) (al_allocations a) correlations then reject ''CORRELATION_LIMIT''
      else
        bind_st (lift_st (order_quantity policy s)) (\<lambda>quantity.
        (let notional = quantity * sg_reference_price s in
         if ap_max_total_new_notional policy < al_total_notional a + notional
         then reject ''INSUFFICIENT_BATCH_CAPITAL''
         else
           bind_st (emit_candidate item cycle_id PORTFOLIO_CONSTRUCTION PASSED ''PORTFOLIO_SELECTED''
                      now [(''quantity'', quantity), (''notional'', notional)])
             (\<lambda>_. return_st
               \<lparr>al_allocations = al_allocations a @
                  [\<lparr>pa_candidate = item, pa_quantity = quantity,
                    pa_expected_entry_price = sg_reference_price s, pa_stop_price = sg_stop_price s,
                    pa_target_price = sg_target_price s\<rparr>],
                al_sectors = AList.update sector (sector_count a sector + 1) (al_sectors a),
                al_total_notional = al_total_notional a + notional\<rparr>))))"

definition allocate ::
  "pipeline \<Rightarrow> string \<Rightarrow> instant \<Rightarrow> (market \<times> string) list \<Rightarrow> (string \<times> string, pyfloat) dict
     \<Rightarrow> scored_candidate list \<Rightarrow> (cycle_state, portfolio_allocation list) st" where
  "allocate p cycle_id now existing correlations candidates =
     bind_st (fold_st (allocate_item p cycle_id now existing correlations) candidates
                \<lparr>al_allocations = [], al_sectors = [], al_total_notional = 0\<rparr>)
       (\<lambda>a. return_st (al_allocations a))"

section \<open>Revalidation\<close>

definition entry_geometry :: "strategy_signal \<Rightarrow> pyfloat \<Rightarrow> bool" where
  "entry_geometry s quote =
     (if sg_action s = BUY then sg_stop_price s < quote \<and> quote < sg_target_price s
      else sg_target_price s < quote \<and> quote < sg_stop_price s)"

definition reward_risk :: "strategy_signal \<Rightarrow> pyfloat \<Rightarrow> pyfloat" where
  "reward_risk s quote =
     (let risk = \<bar>quote - sg_stop_price s\<bar>; reward = \<bar>sg_target_price s - quote\<bar>
      in if 0 < risk then fquot reward risk else 0)"

definition revalidate_item ::
  "pipeline \<Rightarrow> string \<Rightarrow> instant \<Rightarrow> (market \<times> string, pyfloat) dict \<Rightarrow> portfolio_allocation
     \<Rightarrow> portfolio_allocation list \<Rightarrow> (cycle_state, portfolio_allocation list) st" where
  "revalidate_item p cycle_id now quotes a valid =
     (let policy = pl_policy p; s = dc_signal (sr_candidate (pa_candidate a));
          reject = (\<lambda>reason observed.
            bind_st (entry_reject a cycle_id now reason observed) (\<lambda>_. return_st valid))
      in case map_of quotes (item_symbol (pa_candidate a)) of
           None \<Rightarrow> reject ''LIVE_QUOTE_UNAVAILABLE'' None
         | Some quote \<Rightarrow>
             if \<not> isfinite quote \<or> quote \<le> 0 then reject ''LIVE_QUOTE_UNAVAILABLE'' None
             else
               bind_st (lift_st (py_div \<bar>quote - sg_reference_price s\<bar> (sg_reference_price s))) (\<lambda>drift.
               if ap_maximum_entry_drift_fraction policy < drift
                 then reject ''ENTRY_DRIFT_EXCEEDED'' (Some drift)
               else if \<not> entry_geometry s quote \<or> reward_risk s quote < ap_minimum_reward_risk policy
                 then reject ''RR_DEGRADED_AT_ENTRY'' (Some (reward_risk s quote))
               else
                 bind_st (emit_candidate (pa_candidate a) cycle_id ENTRY_REVALIDATION PASSED
                            ''ENTRY_REVALIDATED'' now
                            [(''entry_drift'', drift), (''reward_risk'', reward_risk s quote)])
                   (\<lambda>_. return_st (valid @ [a\<lparr>pa_expected_entry_price := quote\<rparr>]))))"

definition revalidate ::
  "pipeline \<Rightarrow> string \<Rightarrow> instant \<Rightarrow> (market \<times> string, pyfloat) dict \<Rightarrow> portfolio_allocation list
     \<Rightarrow> (cycle_state, portfolio_allocation list) st" where
  "revalidate p cycle_id now quotes allocations =
     fold_st (revalidate_item p cycle_id now quotes) allocations []"

section \<open>A cycle\<close>

definition manage_positions :: "pipeline \<Rightarrow> string \<Rightarrow> instant \<Rightarrow> (cycle_state, unit) st" where
  "manage_positions p cycle_id now =
     (case pl_position_manager p of
        None \<Rightarrow> return_st ()
      | Some manage \<Rightarrow>
          bind_st (lift_st (manage cycle_id now)) (\<lambda>ds.
          bind_st (for_st record_decision ds) (\<lambda>_. return_st ())))"

type_synonym context_row = "string \<times> string \<times> string \<times> string \<times> string \<times> int \<times> string list"

definition context_row :: "strategy_context \<Rightarrow> context_row result" where
  "context_row c =
     bind_r (utc (sc_event_time c) ''context.event_time'') (\<lambda>t.
       Inr (market_value (sc_market c), sc_symbol c, isoformat t, sc_timeframe c, sc_trade_horizon c,
            sc_feature_set_version c, sc_gold_snapshot_ids c))"

fun repr_row :: "context_row \<Rightarrow> string" where
  "repr_row (m, symbol, t, timeframe, horizon, version, golds) =
     repr_tuple (map repr_str [m, symbol, t, timeframe, horizon] @ [str_of_int version]
                 @ map repr_str golds)"

definition cycle_id_of :: "strategy_context list \<Rightarrow> string result" where
  "cycle_id_of contexts =
     bind_r (map_r context_row contexts) (\<lambda>rows.
       Inr (stable_id [''decision-cycle'', repr_tuple (map repr_row (py_sorted (<) rows))]))"

definition result_of ::
  "string \<Rightarrow> cycle_mode \<Rightarrow> deterministic_candidate list \<Rightarrow> scored_candidate list
     \<Rightarrow> portfolio_allocation list \<Rightarrow> (cycle_state, pipeline_result) st" where
  "result_of cycle_id mode candidates scored allocations s =
     (Inr \<lparr>pr_cycle_id = cycle_id, pr_mode = mode, pr_candidates = candidates, pr_scored = scored,
           pr_allocations = allocations, pr_decisions = cy_emitted s\<rparr>, s)"

definition run_cycle ::
  "pipeline \<Rightarrow> strategy_context list \<Rightarrow> cycle_preconditions \<Rightarrow> string \<Rightarrow> instant
     \<Rightarrow> (market \<times> string, pyfloat) dict \<Rightarrow> (market \<times> string) list \<Rightarrow> (string \<times> string, pyfloat) dict
     \<Rightarrow> (cycle_state, pipeline_result) st" where
  "run_cycle p contexts pre cycle_id now quotes existing correlations =
     bind_st (manage_positions p cycle_id now) (\<lambda>_.
     if precondition_mode pre = EXITS_ONLY then
       bind_st (for_st (\<lambda>c. emit c cycle_id STAGE_GLOBAL REJECTED (precondition_reason pre) now None)
                  contexts)
         (\<lambda>_. result_of cycle_id EXITS_ONLY [] [] [])
     else
       bind_st (generate p cycle_id now contexts) (\<lambda>candidates.
       bind_st (score p cycle_id now candidates) (\<lambda>scored.
       bind_st (resolve_conflicts cycle_id now scored) (\<lambda>resolved.
       bind_st (review p cycle_id now resolved) (\<lambda>reviewed.
       bind_st (allocate p cycle_id now existing correlations reviewed) (\<lambda>allocations.
       bind_st (revalidate p cycle_id now quotes allocations) (\<lambda>valid.
         result_of cycle_id MODE_NORMAL candidates scored valid)))))))"

definition run ::
  "pipeline \<Rightarrow> strategy_context list \<Rightarrow> cycle_preconditions \<Rightarrow> datetime
     \<Rightarrow> (market \<times> string, pyfloat) dict \<Rightarrow> (market \<times> string) list \<Rightarrow> (string \<times> string, pyfloat) dict
     \<Rightarrow> (ledger, pipeline_result) st" where
  "run p contexts pre evaluated_at quotes existing correlations l =
     (case bind_r (utc evaluated_at ''evaluated_at'') (\<lambda>now.
             bind_r (cycle_id_of contexts) (\<lambda>cycle_id. Inr (now, cycle_id))) of
        Inl e \<Rightarrow> (Inl e, l)
      | Inr (now, cycle_id) \<Rightarrow>
          (case run_cycle p contexts pre cycle_id now quotes existing correlations
                  \<lparr>cy_ledger = l, cy_emitted = []\<rparr> of
             (x, s) \<Rightarrow> (x, cy_ledger s)))"

section \<open>Invariants of the stages\<close>

text \<open>
  Every stage changes the state through \<open>record_decision\<close> and \<open>record_candidate\<close> only, so
  a predicate these two keep is kept by the whole cycle, on both outcomes.
\<close>

locale stage_invariant =
  fixes P :: "cycle_state \<Rightarrow> bool"
  assumes record_keeps: "keeps P (record_decision d)"
    and candidate_keeps: "keeps P (record_candidate c d)"
begin

lemma emit_keeps: "keeps P (emit c cycle_id stage status reason now key)"
  unfolding emit_def by (intro keeps_intros record_keeps)

lemma emit_candidate_keeps: "keeps P (emit_candidate i cycle_id stage status reason now extra)"
  unfolding emit_candidate_def Let_def by (intro keeps_intros record_keeps)

lemma generate_strategy_keeps: "keeps P (generate_strategy p cycle_id now ctx d cs)"
  unfolding generate_strategy_def Let_def
  by (intro keeps_intros emit_keeps candidate_keeps | simp split: prod.split option.split | rule conjI allI impI)+

lemma generate_context_keeps: "keeps P (generate_context p cycle_id now ctx cs)"
  unfolding generate_context_def Let_def
  by (cases "readiness_reason ctx") (auto intro!: keeps_intros emit_keeps generate_strategy_keeps)

lemma generate_keeps: "keeps P (generate p cycle_id now contexts)"
  unfolding generate_def by (intro keeps_intros generate_context_keeps)

lemma score_keeps: "keeps P (score p cycle_id now cs)"
  unfolding score_def score_candidate_def Let_def by (intro keeps_intros emit_candidate_keeps)

lemma resolve_keeps: "keeps P (resolve_conflicts cycle_id now scored)"
  unfolding resolve_conflicts_def resolve_group_def by (intro keeps_intros emit_candidate_keeps)

lemma review_keeps: "keeps P (review p cycle_id now cs)"
  unfolding review_def review_item_def Let_def
  by (cases "pl_reviewer p") (auto intro!: keeps_intros emit_candidate_keeps)

lemma allocate_keeps: "keeps P (allocate p cycle_id now existing correlations cs)"
  unfolding allocate_def allocate_item_def portfolio_reject_def Let_def
  by (intro keeps_intros emit_candidate_keeps)

lemma revalidate_keeps: "keeps P (revalidate p cycle_id now quotes as)"
  unfolding revalidate_def
proof (intro keeps_intros)
  fix a valid
  show "keeps P (revalidate_item p cycle_id now quotes a valid)"
    unfolding revalidate_item_def entry_reject_def Let_def
    by (cases "map_of quotes (item_symbol (pa_candidate a))")
      (auto intro!: keeps_intros emit_candidate_keeps)
qed

lemma manage_keeps: "keeps P (manage_positions p cycle_id now)"
  unfolding manage_positions_def
  by (cases "pl_position_manager p") (auto intro!: keeps_intros record_keeps)

lemma result_keeps: "keeps P (result_of cycle_id mode cs scored as)"
  by (simp add: keeps_def result_of_def)

lemmas stage_keeps = emit_keeps generate_keeps score_keeps resolve_keeps review_keeps
  allocate_keeps revalidate_keeps manage_keeps result_keeps

lemma run_cycle_keeps: "keeps P (run_cycle p contexts pre cycle_id now quotes existing correlations)"
  unfolding run_cycle_def by (intro keeps_intros stage_keeps)

end

lemma record_decision_cases:
  assumes "record_decision d s = (x, s')"
  obtains (refused) e where "x = Inl e" and "cy_emitted s' = cy_emitted s"
      and "ledger_append d (cy_ledger s) = (Inl e, cy_ledger s')"
    | (appended) "x = Inr ()" and "cy_emitted s' = cy_emitted s @ [d]"
      and "ledger_append d (cy_ledger s) = (Inr (), cy_ledger s')"
  using assms
  by (auto simp: record_decision_def on_ledger_def push_emitted_def bind_st_def
      split: prod.splits sum.splits)

lemma record_candidate_cases:
  assumes "record_candidate c d s = (x, s')"
  obtains (refused) e where "x = Inl e" and "cy_emitted s' = cy_emitted s"
      and "append_candidate c d (cy_ledger s) = (Inl e, cy_ledger s')"
    | (appended) "x = Inr ()" and "cy_emitted s' = cy_emitted s @ [d]"
      and "append_candidate c d (cy_ledger s) = (Inr (), cy_ledger s')"
  using assms
  by (auto simp: record_candidate_def on_ledger_def push_emitted_def bind_st_def
      split: prod.splits sum.splits)

text \<open>
  \<open>audited\<close>: every decision emitted so far is in the ledger as it was emitted.
\<close>

definition audited :: "cycle_state \<Rightarrow> bool" where
  "audited s \<longleftrightarrow>
     list_all (\<lambda>d. map_of (dl_decisions (cy_ledger s)) (dn_decision_id d) = Some d) (cy_emitted s)"

lemma append_candidate_keeps_decision:
  assumes "append_candidate c d l = (x, l')" and "map_of (dl_decisions l) i = Some w"
  shows "map_of (dl_decisions l') i = Some w"
  using append_candidate_shape(1) [OF assms(1)] assms(2) by (auto simp: map_add_Some_iff)

interpretation audit: stage_invariant audited
proof
  show "keeps audited (record_decision d)" for d
    unfolding keeps_def
  proof (intro allI impI)
    fix s assume a: "audited s"
    obtain x s' where r: "record_decision d s = (x, s')" by fastforce
    then have "audited s'" using a
    proof (cases rule: record_decision_cases)
      case (refused e)
      then show ?thesis using a decisions.put_keeps by (auto simp: audited_def list_all_iff)
    next
      case appended
      then show ?thesis using a decisions.put_keeps decisions.put_stores
        by (auto simp: audited_def list_all_iff)
    qed
    then show "audited (snd (record_decision d s))" using r by simp
  qed
  show "keeps audited (record_candidate c d)" for c d
    unfolding keeps_def
  proof (intro allI impI)
    fix s assume a: "audited s"
    obtain x s' where r: "record_candidate c d s = (x, s')" by fastforce
    then have "audited s'" using a
    proof (cases rule: record_candidate_cases)
      case (refused e)
      then show ?thesis using a append_candidate_keeps_decision by (auto simp: audited_def list_all_iff)
    next
      case appended
      then show ?thesis using a append_candidate_keeps_decision append_candidate_shape(3)
        by (auto simp: audited_def list_all_iff)
    qed
    then show "audited (snd (record_candidate c d s))" using r by simp
  qed
qed

text \<open>\<open>grown l es\<close>: the ledger extends \<open>l\<close> and the emitted decisions extend \<open>es\<close>.\<close>

definition grown :: "ledger \<Rightarrow> decision list \<Rightarrow> cycle_state \<Rightarrow> bool" where
  "grown l es s \<longleftrightarrow> prefix (dl_decisions l) (dl_decisions (cy_ledger s)) \<and> prefix es (cy_emitted s)"

interpretation growth: stage_invariant "grown l es" for l es
proof
  show "keeps (grown l es) (record_decision d)" for d
    unfolding keeps_def
  proof (intro allI impI)
    fix s assume g: "grown l es s"
    obtain x s' where r: "record_decision d s = (x, s')" by fastforce
    then have "grown l es s'" using g ledger_append_shape(2)
      by (cases rule: record_decision_cases) (fastforce simp: grown_def)+
    then show "grown l es (snd (record_decision d s))" using r by simp
  qed
  show "keeps (grown l es) (record_candidate c d)" for c d
    unfolding keeps_def
  proof (intro allI impI)
    fix s assume g: "grown l es s"
    obtain x s' where r: "record_candidate c d s = (x, s')" by fastforce
    then have "grown l es s'" using g append_candidate_shape(1)
      by (cases rule: record_candidate_cases) (fastforce simp: grown_def)+
    then show "grown l es (snd (record_candidate c d s))" using r by simp
  qed
qed

end
