(* ===== verification/Pipeline_Properties.thy ===== *)
theory Pipeline_Properties
  imports Decision_Pipeline
begin

text \<open>
  What a decision cycle guarantees.  The first part gives the value each stage returns as
  a function of its input, whatever the stage records; the second the properties of the
  result of \<open>run\<close>.
\<close>

section \<open>The value of each stage\<close>

definition worth_scoring :: "pipeline \<Rightarrow> deterministic_candidate \<Rightarrow> bool" where
  "worth_scoring p c \<longleftrightarrow> ap_minimum_expected_r (pl_policy p) < expected_r c"

lemma score_Inr:
  assumes "score p cycle_id now cs s = (Inr r, s')"
  shows "r = py_sorted rank_lt (map scored_of (filter (worth_scoring p) cs))"
proof -
  have "fold_st (score_candidate p cycle_id now) cs acc s = (Inr r', s1)
      \<Longrightarrow> r' = acc @ map scored_of (filter (worth_scoring p) cs)" for acc r' s s1
    by (induction cs arbitrary: acc s)
      (fastforce simp: score_candidate_def Let_def worth_scoring_def split: if_splits)+
  then show ?thesis using assms by (fastforce simp: score_def)
qed

definition symbol_items :: "scored_candidate list \<Rightarrow> market \<times> string \<Rightarrow> scored_candidate list" where
  "symbol_items is k = filter (\<lambda>i. item_symbol i = k) is"

lemma map_of_symbol_groups:
  "map_of (symbol_groups is g) k =
     (if symbol_items is k = [] then map_of g k
      else Some ((case map_of g k of None \<Rightarrow> [] | Some l \<Rightarrow> l) @ symbol_items is k))"
  by (induction "is" arbitrary: g) (auto simp: symbol_items_def split: option.splits)

lemma dict_ok_symbol_groups: "dict_ok g \<Longrightarrow> dict_ok (symbol_groups is g)"
  by (induction "is" arbitrary: g) auto

lemma set_symbol_groups:
  "g \<in> set (map snd (symbol_groups is [])) \<longleftrightarrow> (\<exists>k. g = symbol_items is k \<and> g \<noteq> [])"
proof -
  have "(k, g) \<in> set (symbol_groups is []) \<longleftrightarrow> g = symbol_items is k \<and> g \<noteq> []" for k
    using dict_ok_map_of [OF dict_ok_symbol_groups, of "[]" "is" k g]
    by (auto simp: map_of_symbol_groups split: if_splits)
  then show ?thesis by force
qed

definition agreeing :: "scored_candidate list \<Rightarrow> bool" where
  "agreeing g \<longleftrightarrow> \<not> 1 < length (dict_fromkeys (map item_action g))"

lemma agreeing_iff: "agreeing g \<longleftrightarrow> (\<forall>i \<in> set g. \<forall>j \<in> set g. item_action i = item_action j)"
proof -
  have "length (dict_fromkeys (map item_action g)) = card (item_action ` set g)"
    using distinct_card [OF distinct_dict_fromkeys, of "map item_action g"] by simp
  moreover have "\<not> 1 < card A \<longleftrightarrow> (\<forall>x \<in> A. \<forall>y \<in> A. x = y)" if "finite A" for A :: "advisory_action set"
    using that card_le_Suc0_iff_eq [OF that] by (simp add: not_less)
  ultimately show ?thesis by (auto simp: agreeing_def)
qed

lemma resolve_Inr:
  assumes "resolve_conflicts cycle_id now scored s = (Inr r, s')"
  shows "r = py_sorted rank_lt (map hd (filter agreeing (map snd (symbol_groups scored []))))"
proof -
  have "fold_st (resolve_group cycle_id now) gs acc s = (Inr r', s1)
      \<Longrightarrow> r' = acc @ map hd (filter agreeing gs)" for gs acc r' s s1
    by (induction gs arbitrary: acc s)
      (fastforce simp: resolve_group_def agreeing_def split: if_splits)+
  then show ?thesis using assms by (fastforce simp: resolve_conflicts_def)
qed

text \<open>The reviewer's verdict, and whether it removes the candidate.\<close>

definition vetoed :: "pipeline \<Rightarrow> scored_candidate \<Rightarrow> bool" where
  "vetoed p item \<longleftrightarrow> pl_llm_mode p = LLM_ENFORCED_VETO
     \<and> (\<exists>reviewer. pl_reviewer p = Some reviewer \<and> reviewer item = Inr LLM_BLOCK)"

lemma review_Inr:
  assumes "review p cycle_id now cs s = (Inr r, s')"
  shows "r = filter (\<lambda>i. \<not> vetoed p i) cs"
proof (cases "pl_llm_mode p = LLM_OFF")
  case True
  then show ?thesis using assms by (auto simp: review_def vetoed_def)
next
  case False
  then obtain f where f: "pl_reviewer p = Some f"
    "fold_st (review_item p f cycle_id now) cs [] s = (Inr r, s')"
    using assms by (auto simp: review_def split: option.splits)
  have "fold_st (review_item p f cycle_id now) cs acc s = (Inr r', s1)
      \<Longrightarrow> r' = acc @ filter (\<lambda>i. \<not> vetoed p i) cs" for acc r' s s1
    by (induction cs arbitrary: acc s)
      (fastforce simp: review_item_def Let_def vetoed_def f(1) split: if_splits sum.splits)+
  then show ?thesis using f(2) by fastforce
qed

text \<open>The allocation an item gets past revalidation, if any.\<close>

definition entry_drift :: "strategy_signal \<Rightarrow> pyfloat \<Rightarrow> pyfloat" where
  "entry_drift s quote = fquot \<bar>quote - sg_reference_price s\<bar> (sg_reference_price s)"

definition entry_ok :: "pipeline \<Rightarrow> strategy_signal \<Rightarrow> pyfloat \<Rightarrow> bool" where
  "entry_ok p s quote \<longleftrightarrow> isfinite quote \<and> \<not> quote \<le> 0
     \<and> \<not> ap_maximum_entry_drift_fraction (pl_policy p) < entry_drift s quote
     \<and> entry_geometry s quote \<and> \<not> reward_risk s quote < ap_minimum_reward_risk (pl_policy p)"

definition revalidated ::
  "pipeline \<Rightarrow> (market \<times> string, pyfloat) dict \<Rightarrow> portfolio_allocation \<Rightarrow> portfolio_allocation option" where
  "revalidated p quotes a =
     (case map_of quotes (item_symbol (pa_candidate a)) of
        None \<Rightarrow> None
      | Some quote \<Rightarrow>
          if entry_ok p (dc_signal (sr_candidate (pa_candidate a))) quote
          then Some (a\<lparr>pa_expected_entry_price := quote\<rparr>) else None)"

lemma revalidate_item_Inr:
  assumes "revalidate_item p cycle_id now quotes a valid s = (Inr r, s')"
  shows "r = valid @ (case revalidated p quotes a of None \<Rightarrow> [] | Some b \<Rightarrow> [b])"
proof (cases "map_of quotes (item_symbol (pa_candidate a))")
  case None
  then show ?thesis using assms by (auto simp: revalidate_item_def revalidated_def Let_def)
next
  case (Some quote)
  then show ?thesis using assms
    by (auto simp: revalidate_item_def revalidated_def Let_def entry_ok_def entry_drift_def py_div_def
        split: if_splits)
qed

lemma revalidate_Inr:
  assumes "revalidate p cycle_id now quotes as s = (Inr r, s')"
  shows "r = List.map_filter (revalidated p quotes) as"
proof -
  have "fold_st (revalidate_item p cycle_id now quotes) as acc s = (Inr r', s1)
      \<Longrightarrow> r' = acc @ List.map_filter (revalidated p quotes) as" for acc r' s s1
    by (induction as arbitrary: acc s)
      (fastforce simp: List.map_filter_simps dest!: revalidate_item_Inr split: option.splits)+
  then show ?thesis using assms by (fastforce simp: revalidate_def)
qed

subsection \<open>Where a candidate comes from\<close>

text \<open>
  \<open>backed\<close>: the candidate was made from a context of the cycle that is ready and
  tradeable, by the catalog's plugin of an eligible strategy with a current approval.
\<close>

definition backed_by ::
  "pipeline \<Rightarrow> instant \<Rightarrow> deterministic_candidate \<Rightarrow> strategy_context \<Rightarrow> bool" where
  "backed_by p now c ctx \<longleftrightarrow> readiness_reason ctx = None \<and> sc_tradeable ctx
     \<and> (\<exists>d plugin approval reason s.
          d \<in> set (eligible (pl_registry p) (sc_market ctx) (sc_timeframe ctx) (sc_trade_horizon ctx)
                     (sc_feature_set_version ctx) now)
        \<and> catalog_require (pl_strategies p) (sd_identity d) = Inr plugin
        \<and> sp_compatibility plugin ctx = Inr (True, reason)
        \<and> require_approval (pl_registry p) (sd_identity d) now = Inr approval
        \<and> sp_generate plugin ctx = Inr (Some s)
        \<and> candidate_create d (sa_approval_id approval) ctx s = Inr c)"

definition backed :: "pipeline \<Rightarrow> instant \<Rightarrow> strategy_context list \<Rightarrow> deterministic_candidate \<Rightarrow> bool" where
  "backed p now contexts c \<longleftrightarrow> (\<exists>ctx \<in> set contexts. backed_by p now c ctx)"

lemma generate_strategy_Inr:
  assumes "generate_strategy p cycle_id now ctx d cs s = (Inr r, s')"
    and "d \<in> set (eligible (pl_registry p) (sc_market ctx) (sc_timeframe ctx) (sc_trade_horizon ctx)
                   (sc_feature_set_version ctx) now)"
    and "readiness_reason ctx = None" and "sc_tradeable ctx"
  shows "r = cs \<or> (\<exists>c. r = cs @ [c] \<and> backed_by p now c ctx)"
proof -
  have intro: "backed_by p now c ctx"
    if "catalog_require (pl_strategies p) (sd_identity d) = Inr plugin"
      "sp_compatibility plugin ctx = Inr (True, reason)"
      "require_approval (pl_registry p) (sd_identity d) now = Inr approval"
      "sp_generate plugin ctx = Inr (Some x)"
      "candidate_create d (sa_approval_id approval) ctx x = Inr c" for plugin reason approval x c
    unfolding backed_by_def using assms(2-4) that by blast
  show ?thesis
    using assms(1) unfolding generate_strategy_def Let_def
    by (auto simp del: catalog_require_Inr split: prod.splits if_splits option.splits)
      (blast intro: intro)
qed

lemma generate_context_Inr:
  assumes "generate_context p cycle_id now ctx cs s = (Inr r, s')"
  shows "c \<in> set r \<Longrightarrow> c \<in> set cs \<or> backed_by p now c ctx"
proof -
  let ?ds = "eligible (pl_registry p) (sc_market ctx) (sc_timeframe ctx) (sc_trade_horizon ctx)
      (sc_feature_set_version ctx) now"
  have "\<forall>c \<in> set r'. c \<in> set cs \<or> backed_by p now c ctx"
    if f: "fold_st (generate_strategy p cycle_id now ctx) ?ds cs s1 = (Inr r', s2)"
      and ready: "readiness_reason ctx = None" "sc_tradeable ctx" for r' s1 s2
  proof (rule fold_st_rule [OF f, where I = "\<lambda>b _. \<forall>c \<in> set b. c \<in> set cs \<or> backed_by p now c ctx"])
    fix d b t b' t'
    assume "d \<in> set ?ds" and b: "\<forall>c \<in> set b. c \<in> set cs \<or> backed_by p now c ctx"
      and g: "generate_strategy p cycle_id now ctx d b t = (Inr b', t')"
    from generate_strategy_Inr [OF g \<open>d \<in> set ?ds\<close> ready] b
    show "\<forall>c \<in> set b'. c \<in> set cs \<or> backed_by p now c ctx" by auto
  qed simp
  then show "c \<in> set r \<Longrightarrow> c \<in> set cs \<or> backed_by p now c ctx"
    using assms by (auto simp: generate_context_def Let_def split: option.splits if_splits)
qed

lemma generate_Inr:
  assumes "generate p cycle_id now contexts s = (Inr r, s')" and "c \<in> set r"
  shows "backed p now contexts c"
proof -
  have "\<forall>c \<in> set r. backed p now contexts c"
  proof (rule fold_st_rule [OF assms(1) [unfolded generate_def],
        where I = "\<lambda>b _. \<forall>c \<in> set b. backed p now contexts c"])
    fix ctx b t b' t'
    assume "ctx \<in> set contexts" "\<forall>c \<in> set b. backed p now contexts c"
      and g: "generate_context p cycle_id now ctx b t = (Inr b', t')"
    then show "\<forall>c \<in> set b'. backed p now contexts c"
      using generate_context_Inr [OF g] by (auto simp: backed_def)
  qed simp
  then show ?thesis using assms(2) by simp
qed

subsection \<open>The portfolio limits\<close>

definition alloc_sector :: "portfolio_allocation \<Rightarrow> string" where
  "alloc_sector a = sector_name (dc_sector (sr_candidate (pa_candidate a)))"

definition sector_total :: "portfolio_allocation list \<Rightarrow> string \<Rightarrow> nat" where
  "sector_total as sector = length (filter (\<lambda>a. alloc_sector a = sector) as)"

text \<open>The allocation the signal of an item gives, before revalidation.\<close>

definition sized_from :: "allocation_policy \<Rightarrow> portfolio_allocation \<Rightarrow> bool" where
  "sized_from policy a \<longleftrightarrow>
     (let s = dc_signal (sr_candidate (pa_candidate a)) in
      order_quantity policy s = Inr (pa_quantity a)
      \<and> pa_expected_entry_price a = sg_reference_price s
      \<and> pa_stop_price a = sg_stop_price s \<and> pa_target_price a = sg_target_price s)"

definition within_limits ::
  "allocation_policy \<Rightarrow> (market \<times> string) list \<Rightarrow> (string \<times> string, pyfloat) dict
     \<Rightarrow> portfolio_allocation list \<Rightarrow> bool" where
  "within_limits policy existing correlations as \<longleftrightarrow>
     distinct (map alloc_symbol as)
   \<and> list_all (\<lambda>a. item_symbol (pa_candidate a) \<notin> set existing \<and> sized_from policy a
        \<and> int (sector_total as (alloc_sector a)) \<le> ap_max_sector_positions policy) as
   \<and> (as \<noteq> [] \<longrightarrow> int (length as) \<le> ap_max_positions policy
        \<and> \<not> ap_max_total_new_notional policy < foldl (+) 0 (map allocation_notional as))
   \<and> sorted_wrt (\<lambda>a b. \<not> ap_max_pairwise_correlation policy
        < \<bar>pair_correlation correlations (alloc_symbol b) (alloc_symbol a)\<bar>) as"

definition alloc_inv ::
  "allocation_policy \<Rightarrow> (market \<times> string) list \<Rightarrow> (string \<times> string, pyfloat) dict
     \<Rightarrow> scored_candidate list \<Rightarrow> alloc_state \<Rightarrow> bool" where
  "alloc_inv policy existing correlations is a \<longleftrightarrow>
     within_limits policy existing correlations (al_allocations a)
   \<and> set (map pa_candidate (al_allocations a)) \<subseteq> set is
   \<and> (\<forall>sector. sector_count a sector = int (sector_total (al_allocations a) sector))
   \<and> al_total_notional a = foldl (+) 0 (map allocation_notional (al_allocations a))"

lemma allocate_item_cases:
  assumes "allocate_item p cycle_id now existing correlations item a s = (Inr a', s')"
  obtains (rejected) "a' = a"
    | (selected) q x where "x = \<lparr>pa_candidate = item, pa_quantity = q,
          pa_expected_entry_price = sg_reference_price (dc_signal (sr_candidate item)),
          pa_stop_price = sg_stop_price (dc_signal (sr_candidate item)),
          pa_target_price = sg_target_price (dc_signal (sr_candidate item))\<rparr>"
      and "order_quantity (pl_policy p) (dc_signal (sr_candidate item)) = Inr q"
      and "item_symbol item \<notin> set existing"
      and "alloc_symbol x \<notin> set (map alloc_symbol (al_allocations a))"
      and "\<not> ap_max_positions (pl_policy p) \<le> int (length (al_allocations a))"
      and "\<not> ap_max_sector_positions (pl_policy p) \<le> sector_count a (alloc_sector x)"
      and "\<not> correlated (pl_policy p) (alloc_symbol x) (al_allocations a) correlations"
      and "\<not> ap_max_total_new_notional (pl_policy p) < al_total_notional a + allocation_notional x"
      and "a' = \<lparr>al_allocations = al_allocations a @ [x],
             al_sectors = AList.update (alloc_sector x) (sector_count a (alloc_sector x) + 1) (al_sectors a),
             al_total_notional = al_total_notional a + allocation_notional x\<rparr>"
  using assms rejected selected
  by (auto simp: allocate_item_def Let_def alloc_sector_def allocation_notional_def split: if_splits)

lemma allocate_item_inv:
  assumes "allocate_item p cycle_id now existing correlations item a s = (Inr a', s')"
    and "alloc_inv (pl_policy p) existing correlations is a" and "item \<in> set is"
  shows "alloc_inv (pl_policy p) existing correlations is a'"
  using assms(1)
proof (cases rule: allocate_item_cases)
  case rejected
  then show ?thesis using assms(2) by simp
next
  case (selected q x)
  note inv = assms(2) [unfolded alloc_inv_def within_limits_def list_all_iff]
  let ?as = "al_allocations a"
  have total: "sector_total (?as @ [x]) sec = sector_total ?as sec + (if alloc_sector x = sec then 1 else 0)" for sec
    by (simp add: sector_total_def)
  have count: "sector_count a' sec = int (sector_total (?as @ [x]) sec)" for sec
    using inv unfolding total by (auto simp: selected(9) sector_count_def)
  have own: "int (sector_total (?as @ [x]) (alloc_sector x)) \<le> ap_max_sector_positions (pl_policy p)"
    using selected(6) inv by (auto simp: total)
  have sectors: "int (sector_total (?as @ [x]) (alloc_sector y)) \<le> ap_max_sector_positions (pl_policy p)"
    if "y \<in> set (?as @ [x])" for y
    using that own inv by (cases "alloc_sector y = alloc_sector x") (auto simp: total)
  have cx: "pa_candidate x = item" "sized_from (pl_policy p) x"
    using selected(1,2) by (simp_all add: sized_from_def)
  have "within_limits (pl_policy p) existing correlations (?as @ [x])"
    unfolding within_limits_def list_all_iff
    using inv sectors selected(3-5,7,8) cx
    by (auto simp: sorted_wrt_append correlated_def list_ex_iff)
  then show ?thesis using inv count selected(9) cx assms(3) by (auto simp: alloc_inv_def)
qed

lemma allocate_Inr:
  assumes "allocate p cycle_id now existing correlations is s = (Inr as, s')"
  shows "within_limits (pl_policy p) existing correlations as" and "set (map pa_candidate as) \<subseteq> set is"
proof -
  obtain a where f: "fold_st (allocate_item p cycle_id now existing correlations) is
      \<lparr>al_allocations = [], al_sectors = [], al_total_notional = 0\<rparr> s = (Inr a, s')"
    and as: "as = al_allocations a"
    using assms by (auto simp: allocate_def)
  have "alloc_inv (pl_policy p) existing correlations is
      \<lparr>al_allocations = [], al_sectors = [], al_total_notional = 0\<rparr>"
    by (simp add: alloc_inv_def within_limits_def sector_count_def sector_total_def)
  then have "alloc_inv (pl_policy p) existing correlations is a"
    by (rule fold_st_rule [OF f, where I = "\<lambda>a _. alloc_inv (pl_policy p) existing correlations is a"])
      (rule allocate_item_inv)
  then show "within_limits (pl_policy p) existing correlations as" "set (map pa_candidate as) \<subseteq> set is"
    by (auto simp: alloc_inv_def as)
qed

subsection \<open>Ranking\<close>

definition passed_items :: "scored_candidate list \<Rightarrow> bool" where
  "passed_items is \<longleftrightarrow> list_all (\<lambda>i. item_r i \<noteq> NaN) is"

lemma rank_lt_strict_weak: "passed_items is \<Longrightarrow> strict_weak (set is) rank_lt"
proof -
  assume p: "passed_items is"
  define f :: "pyfloat \<Rightarrow> bool \<times> rat" where
    "f x = (case x of NInf \<Rightarrow> (False, 0) | Fin r \<Rightarrow> (True, r) | _ \<Rightarrow> (True, 0))" for x
  have neg: "- item_r i \<noteq> NaN" if "i \<in> set is" for i
    using p that by (cases "item_r i") (auto simp: passed_items_def list_all_iff)
  show ?thesis
    unfolding strict_weak_def
  proof (intro conjI ballI impI)
    fix a b assume "a \<in> set is" "b \<in> set is" "rank_lt a b"
    then show "\<not> rank_lt b a"
      by (auto simp: rank_lt_def py_eq_iff float_less_asym split: if_splits)
  next
    fix a b c assume i: "a \<in> set is" "b \<in> set is" "c \<in> set is" and "\<not> rank_lt b a" "\<not> rank_lt c b"
    then show "\<not> rank_lt c a"
      using neg [OF i(1)] neg [OF i(2)] neg [OF i(3)]
      by (cases "- item_r a"; cases "- item_r b"; cases "- item_r c")
        (auto simp: rank_lt_def split: if_splits)
  qed
qed

lemma scored_not_NaN: "passed_items (py_sorted rank_lt (map scored_of (filter (worth_scoring p) cs)))"
  by (auto simp: passed_items_def list_all_iff worth_scoring_def scored_of_def Let_def
      dest: float_less_not_NaN)

text \<open>In a ranked list, the first item of a symbol is one no other of the symbol outranks.\<close>

lemma hd_symbol_items_best:
  assumes "sorted_wrt (\<lambda>a b. \<not> rank_lt b a) is" and "passed_items is" and "j \<in> set (symbol_items is k)"
  shows "\<not> rank_lt j (hd (symbol_items is k))"
proof -
  have "sorted_wrt (\<lambda>a b. \<not> rank_lt b a) (symbol_items is k)"
    unfolding symbol_items_def using assms(1) by (rule sorted_wrt_filter)
  then show ?thesis using assms(3)
    by (cases "symbol_items is k") (auto simp: rank_lt_def split: if_splits)
qed

lemma resolved_item:
  assumes "resolve_conflicts cycle_id now scored s = (Inr r, s')" and "i \<in> set r"
  shows "\<exists>k. symbol_items scored k \<noteq> [] \<and> i = hd (symbol_items scored k) \<and> agreeing (symbol_items scored k)"
proof -
  have "i \<in> hd ` set (filter agreeing (map snd (symbol_groups scored [])))"
    using assms(2) unfolding resolve_Inr [OF assms(1)] set_py_sorted set_map .
  then obtain g where g: "g \<in> set (map snd (symbol_groups scored []))" "agreeing g" "i = hd g"
    by (auto simp only: image_iff set_filter mem_Collect_eq)
  then obtain k where "g = symbol_items scored k" "g \<noteq> []" using set_symbol_groups [of g scored] by metis
  then show ?thesis using g by metis
qed

lemma hd_symbol_items:
  "symbol_items is k \<noteq> [] \<Longrightarrow> hd (symbol_items is k) \<in> set is \<and> item_symbol (hd (symbol_items is k)) = k"
  using hd_in_set [of "symbol_items is k"] by (auto simp: symbol_items_def)

section \<open>The value of a cycle\<close>

lemma result_of_Inr:
  assumes "result_of cycle_id mode cs scored as s = (Inr r, s')"
  shows "pr_cycle_id r = cycle_id" "pr_mode r = mode" "pr_candidates r = cs" "pr_scored r = scored"
    "pr_allocations r = as" "pr_decisions r = cy_emitted s'" "s' = s"
  using assms by (auto simp: result_of_def)

lemma run_Inr:
  assumes "run p contexts pre evaluated_at quotes existing correlations l = (Inr r, l')"
  obtains now s where "evaluated_at = Aware now" and "l' = cy_ledger s"
    and "cycle_id_of contexts = Inr (pr_cycle_id r)"
    and "run_cycle p contexts pre (pr_cycle_id r) now quotes existing correlations
           \<lparr>cy_ledger = l, cy_emitted = []\<rparr> = (Inr r, s)"
    and "pr_decisions r = cy_emitted s"
proof -
  obtain now cycle_id s where s: "evaluated_at = Aware now" "cycle_id_of contexts = Inr cycle_id"
      "run_cycle p contexts pre cycle_id now quotes existing correlations
           \<lparr>cy_ledger = l, cy_emitted = []\<rparr> = (Inr r, s)" "l' = cy_ledger s"
    using assms by (auto simp: run_def bind_r_def split: sum.splits prod.splits)
  have "pr_cycle_id r = cycle_id \<and> pr_decisions r = cy_emitted s"
    using s(3) unfolding run_cycle_def by (auto dest: result_of_Inr split: if_splits)
  then show ?thesis using that s by simp
qed

text \<open>The stages of a normal cycle.\<close>

lemma run_normal:
  assumes "run p contexts pre (Aware now) quotes existing correlations l = (Inr r, l')"
    and "precondition_mode pre = MODE_NORMAL"
  obtains cycle_id resolved allocs s1 s2 s3 s4 s5 s6 s7 where
    "generate p cycle_id now contexts s1 = (Inr (pr_candidates r), s2)"
    "score p cycle_id now (pr_candidates r) s2 = (Inr (pr_scored r), s3)"
    "resolve_conflicts cycle_id now (pr_scored r) s3 = (Inr resolved, s4)"
    "review p cycle_id now resolved s4 = (Inr (filter (\<lambda>i. \<not> vetoed p i) resolved), s5)"
    "allocate p cycle_id now existing correlations (filter (\<lambda>i. \<not> vetoed p i) resolved) s5 = (Inr allocs, s6)"
    "revalidate p cycle_id now quotes allocs s6 = (Inr (pr_allocations r), s7)"
    "pr_mode r = MODE_NORMAL"
proof -
  obtain s where c: "run_cycle p contexts pre (pr_cycle_id r) now quotes existing correlations
      \<lparr>cy_ledger = l, cy_emitted = []\<rparr> = (Inr r, s)"
    using run_Inr [OF assms(1)] by (metis datetime.inject(2))
  obtain cs scored resolved reviewed allocs valid s1 s2 s3 s4 s5 s6 s7 where
    "generate p (pr_cycle_id r) now contexts s1 = (Inr cs, s2)"
    "score p (pr_cycle_id r) now cs s2 = (Inr scored, s3)"
    "resolve_conflicts (pr_cycle_id r) now scored s3 = (Inr resolved, s4)"
    "review p (pr_cycle_id r) now resolved s4 = (Inr reviewed, s5)"
    "allocate p (pr_cycle_id r) now existing correlations reviewed s5 = (Inr allocs, s6)"
    "revalidate p (pr_cycle_id r) now quotes allocs s6 = (Inr valid, s7)"
    "result_of (pr_cycle_id r) MODE_NORMAL cs scored valid s7 = (Inr r, s)"
    using c assms(2) unfolding run_cycle_def by auto
  moreover from this have "pr_candidates r = cs" "pr_scored r = scored" "pr_allocations r = valid"
    "pr_mode r = MODE_NORMAL"
    by (auto dest: result_of_Inr)
  ultimately show ?thesis using that review_Inr by blast
qed

section \<open>Example data\<close>

definition ex_context :: strategy_context where
  "ex_context = \<lparr>sc_market = NSE, sc_symbol = ''TCS'', sc_sector = None, sc_timeframe = ''15m'',
     sc_trade_horizon = ''intraday'', sc_feature_set_version = 1, sc_event_time = Aware 0,
     sc_gold_snapshot_ids = [''gold-1''], sc_features = [], sc_settled = True, sc_complete = True,
     sc_adjusted = True, sc_fresh = True, sc_warm = True, sc_tradeable = True,
     sc_tradeability_reason = ''TRADEABLE'',
     sc_regime = \<lparr>re_market_fit = Fin 1, re_sector_fit = Fin 1, re_symbol_fit = Fin 1,
       re_mtf_alignment = Fin 1, re_symbol_regime_label = ''UNKNOWN''\<rparr>\<rparr>"

definition ex_signal :: strategy_signal where
  "ex_signal = \<lparr>sg_action = BUY, sg_confidence = Fin 1, sg_reference_price = Fin 100,
     sg_stop_price = Fin 90, sg_target_price = Fin 120, sg_estimated_cost_r = Fin 0,
     sg_historical_expectancy_r = Fin 0, sg_ml_tilt_r = Fin 0\<rparr>"

definition ex_candidate :: deterministic_candidate where
  "ex_candidate = \<lparr>dc_candidate_id = ''cand-1'', dc_identity = ex_identity, dc_approval_id = ''approval-1'',
     dc_symbol = ''TCS'', dc_sector = None, dc_event_time = Aware 0, dc_gold_snapshot_ids = [''gold-1''],
     dc_signal = ex_signal, dc_regime = sc_regime ex_context\<rparr>"

definition ex_allocation_policy :: allocation_policy where
  "ex_allocation_policy = \<lparr>ap_equity = Fin 1000, ap_risk_fraction_per_trade = Fin (1 / 2),
     ap_max_order_notional = Fin 1000, ap_max_total_new_notional = Fin 2000, ap_max_positions = 2,
     ap_max_sector_positions = 1, ap_max_pairwise_correlation = Fin (1 / 2),
     ap_minimum_expected_r = Fin 0, ap_maximum_entry_drift_fraction = Fin (1 / 2),
     ap_minimum_reward_risk = Fin 1\<rparr>"

definition ex_pipeline :: pipeline where
  "ex_pipeline = \<lparr>pl_registry = registry_init, pl_strategies = [], pl_policy = ex_allocation_policy,
     pl_llm_mode = LLM_OFF, pl_reviewer = None, pl_position_manager = None\<rparr>"

definition ex_cycle_state :: cycle_state where
  "ex_cycle_state = \<lparr>cy_ledger = ledger_init, cy_emitted = []\<rparr>"

definition ex_preconditions :: cycle_preconditions where
  "ex_preconditions = \<lparr>cp_entry_kill_switch_clear = False, cp_daily_loss_capacity = True,
     cp_entry_session_open = True, cp_capital_available = True\<rparr>"

text \<open>A first decision always finds an empty ledger.\<close>

lemma record_first: "record_decision d \<lparr>cy_ledger = ledger_init, cy_emitted = []\<rparr>
    = (Inr (), \<lparr>cy_ledger = ledger_init\<lparr>dl_decisions := [(dn_decision_id d, d)]\<rparr>, cy_emitted = [d]\<rparr>)"
  by (simp add: record_decision_def on_ledger_def push_emitted_def bind_st_def ledger_append_def
      ledger_init_def)

section \<open>Properties of a cycle\<close>

lemma emit_Inr:
  assumes "emit ctx cycle_id stage status reason now key s = (Inr u, s')"
  shows "\<exists>d. cy_emitted s' = cy_emitted s @ [d] \<and> dn_cycle_id d = cycle_id
      \<and> dn_market d = sc_market ctx \<and> dn_symbol d = sc_symbol ctx
      \<and> dn_timeframe d = Some (sc_timeframe ctx)
      \<and> dn_stage d = stage \<and> dn_status d = status \<and> dn_reason_code d = reason"
  using assms
  by (auto simp: emit_def decision_create_def elim!: record_decision_cases split: if_splits)

lemma emit_all_Inr:
  assumes "for_st (\<lambda>c. emit c cycle_id stage status reason now None) cs s = (Inr us, s')" and "c \<in> set cs"
  shows "\<exists>d \<in> set (cy_emitted s'). dn_market d = sc_market c \<and> dn_symbol d = sc_symbol c
      \<and> dn_stage d = stage \<and> dn_status d = status \<and> dn_reason_code d = reason"
  using assms
proof (induction cs arbitrary: s us)
  case (Cons x xs)
  obtain u s1 us' where e: "emit x cycle_id stage status reason now None s = (Inr u, s1)"
    "for_st (\<lambda>c. emit c cycle_id stage status reason now None) xs s1 = (Inr us', s')"
    using Cons.prems(1) by auto
  have "keeps (grown (cy_ledger s1) (cy_emitted s1))
      (for_st (\<lambda>c. emit c cycle_id stage status reason now None) xs)"
    by (intro keeps_intros growth.emit_keeps)
  moreover have "grown (cy_ledger s1) (cy_emitted s1) s1" by (simp add: grown_def)
  ultimately have "grown (cy_ledger s1) (cy_emitted s1) s'" using e(2) by (metis keeps_def snd_conv)
  then have "set (cy_emitted s1) \<subseteq> set (cy_emitted s')" by (auto simp: grown_def dest: set_mono_prefix)
  then show ?case using emit_Inr [OF e(1)] Cons.IH [OF e(2)] Cons.prems(2) by auto
qed simp

text \<open>
  When any entry precondition fails (kill switch, daily loss, session, capital), the
  cycle only manages exits: it returns no candidate, no score and no allocation, and every
  context has a rejection at the global stage, with the reason, in the ledger.
\<close>

theorem exits_only_allocates_nothing:
  assumes "run p contexts pre evaluated_at quotes existing correlations l = (Inr r, l')"
    and "\<not> (cp_entry_kill_switch_clear pre \<and> cp_daily_loss_capacity pre
           \<and> cp_entry_session_open pre \<and> cp_capital_available pre)"
  shows "pr_mode r = EXITS_ONLY \<and> pr_candidates r = [] \<and> pr_scored r = [] \<and> pr_allocations r = []
    \<and> (ctx \<in> set contexts \<longrightarrow> (\<exists>d. d \<in> set (pr_decisions r)
         \<and> map_of (dl_decisions l') (dn_decision_id d) = Some d
         \<and> dn_market d = sc_market ctx \<and> dn_symbol d = sc_symbol ctx \<and> dn_stage d = STAGE_GLOBAL
         \<and> dn_status d = REJECTED \<and> dn_reason_code d = precondition_reason pre))"
proof -
  obtain now s where s: "l' = cy_ledger s" "pr_decisions r = cy_emitted s"
    "run_cycle p contexts pre (pr_cycle_id r) now quotes existing correlations
       \<lparr>cy_ledger = l, cy_emitted = []\<rparr> = (Inr r, s)"
    by (rule run_Inr [OF assms(1)])
  have "precondition_mode pre = EXITS_ONLY" using assms(2) by (simp add: precondition_mode_def)
  then obtain s1 s2 us where e: "for_st (\<lambda>c. emit c (pr_cycle_id r) STAGE_GLOBAL REJECTED
        (precondition_reason pre) now None) contexts s1 = (Inr us, s2)"
    and res: "result_of (pr_cycle_id r) EXITS_ONLY [] [] [] s2 = (Inr r, s)"
    using s(3) unfolding run_cycle_def by auto
  have "audited s"
    using keepsD [OF audit.run_cycle_keeps _ s(3)] by (simp add: audited_def)
  then have "map_of (dl_decisions l') (dn_decision_id d) = Some d" if "d \<in> set (cy_emitted s)" for d
    using that s(1) by (auto simp: audited_def list_all_iff)
  then show ?thesis
    using emit_all_Inr [OF e, of ctx] result_of_Inr [OF res] s(2) by auto
qed

theorem exits_only_allocates_nothing_witness:
  "\<exists>r l' d. run ex_pipeline [ex_context] ex_preconditions (Aware 0) [] [] [] ledger_init = (Inr r, l')
     \<and> pr_allocations r = [] \<and> d \<in> set (pr_decisions r) \<and> dn_symbol d = ''TCS''
     \<and> dn_reason_code d = ''ENTRY_KILL_SWITCH_ACTIVE''"
proof -
  obtain cycle_id where c: "cycle_id_of [ex_context] = Inr cycle_id" "cycle_id \<noteq> []"
    by (simp add: cycle_id_of_def context_row_def ex_context_def)
  have "precondition_mode ex_preconditions = EXITS_ONLY"
    by (simp add: precondition_mode_def ex_preconditions_def)
  then have "\<exists>r l'. run ex_pipeline [ex_context] ex_preconditions (Aware 0) [] [] [] ledger_init = (Inr r, l')"
    using c by (simp add: run_def run_cycle_def manage_positions_def ex_pipeline_def emit_def
        decision_create_def st_defs record_first result_of_def ex_context_def precondition_reason_def
        ex_preconditions_def)
  then obtain r l' where r: "run ex_pipeline [ex_context] ex_preconditions (Aware 0) [] [] [] ledger_init = (Inr r, l')"
    by blast
  show ?thesis
    using exits_only_allocates_nothing [OF r, of ex_context] r
    by (auto simp: ex_preconditions_def precondition_reason_def) (auto simp: ex_context_def)
qed

lemma allocation_backed:
  assumes "run p contexts pre (Aware now) quotes existing correlations l = (Inr r, l')"
    and "precondition_mode pre = MODE_NORMAL" and "a \<in> set (pr_allocations r)"
  shows "sr_candidate (pa_candidate a) \<in> set (pr_candidates r)
    \<and> backed p now contexts (sr_candidate (pa_candidate a))
    \<and> ap_minimum_expected_r (pl_policy p) < expected_r (sr_candidate (pa_candidate a))
    \<and> \<not> vetoed p (pa_candidate a)"
proof -
  obtain cycle_id resolved allocs s1 s2 s3 s4 s5 s6 s7 where st:
    "generate p cycle_id now contexts s1 = (Inr (pr_candidates r), s2)"
    "score p cycle_id now (pr_candidates r) s2 = (Inr (pr_scored r), s3)"
    "resolve_conflicts cycle_id now (pr_scored r) s3 = (Inr resolved, s4)"
    "allocate p cycle_id now existing correlations (filter (\<lambda>i. \<not> vetoed p i) resolved) s5 = (Inr allocs, s6)"
    "revalidate p cycle_id now quotes allocs s6 = (Inr (pr_allocations r), s7)"
    by (rule run_normal [OF assms(1,2)])
  obtain b where b: "b \<in> set allocs" "pa_candidate a = pa_candidate b"
    using assms(3) unfolding revalidate_Inr [OF st(5)]
    by (auto simp: List.map_filter_def revalidated_def split: option.splits if_splits)
  then have i: "pa_candidate a \<in> set resolved" "\<not> vetoed p (pa_candidate a)"
    using allocate_Inr(2) [OF st(4)] by auto
  then have "pa_candidate a \<in> set (pr_scored r)"
    using resolved_item [OF st(3)] hd_symbol_items by metis
  then obtain c where "c \<in> set (pr_candidates r)" "worth_scoring p c" "pa_candidate a = scored_of c"
    unfolding score_Inr [OF st(2)] by auto
  then show ?thesis using generate_Inr [OF st(1)] i(2)
    by (auto simp: worth_scoring_def scored_of_def Let_def)
qed

text \<open>
  C7: Portfolio construction respects every limit of the policy: one allocation per symbol,
  none for a symbol already held, at most the configured number in all and per sector, no
  pair above the correlation limit, a running notional that never exceeds the batch
  capital, and every quantity the smaller of the risk-sized and the notional-capped one.
\<close>

theorem allocation_within_limits:
  assumes "allocate p cycle_id now existing correlations candidates s = (Inr as, s')"
  shows "within_limits (pl_policy p) existing correlations as
    \<and> set (map pa_candidate as) \<subseteq> set candidates"
  using allocate_Inr [OF assms] by blast

theorem allocation_within_limits_witness:
  "\<exists>as s'. allocate ex_pipeline ''c1'' 0 [] [] [scored_of ex_candidate] ex_cycle_state = (Inr as, s')
     \<and> as \<noteq> [] \<and> within_limits ex_allocation_policy [] [] as"
proof -
  have "\<exists>a s'. allocate ex_pipeline ''c1'' 0 [] [] [scored_of ex_candidate] ex_cycle_state = (Inr [a], s')"
    by (simp add: allocate_def allocate_item_def Let_def ex_pipeline_def ex_allocation_policy_def
        ex_candidate_def scored_of_def ex_signal_def order_quantity_def py_div_def py_min_def
        emit_candidate_def decision_create_def st_defs record_first ex_cycle_state_def score_metrics_def
        correlated_def sector_count_def minus_pyfloat_def zero_pyfloat_def)
  then obtain a s' where a:
    "allocate ex_pipeline ''c1'' 0 [] [] [scored_of ex_candidate] ex_cycle_state = (Inr [a], s')"
    by blast
  show ?thesis using allocation_within_limits [OF a] a by (auto simp: ex_pipeline_def)
qed

lemma allocation_revalidated:
  assumes "run p contexts pre (Aware now) quotes existing correlations l = (Inr r, l')"
    and "precondition_mode pre = MODE_NORMAL" and "a \<in> set (pr_allocations r)"
  shows "\<exists>quote. map_of quotes (item_symbol (pa_candidate a)) = Some quote
      \<and> pa_expected_entry_price a = quote
      \<and> entry_ok p (dc_signal (sr_candidate (pa_candidate a))) quote
      \<and> order_quantity (pl_policy p) (dc_signal (sr_candidate (pa_candidate a))) = Inr (pa_quantity a)"
proof -
  obtain cycle_id resolved allocs s5 s6 s7 where st:
    "allocate p cycle_id now existing correlations (filter (\<lambda>i. \<not> vetoed p i) resolved) s5 = (Inr allocs, s6)"
    "revalidate p cycle_id now quotes allocs s6 = (Inr (pr_allocations r), s7)"
    by (rule run_normal [OF assms(1,2)])
  obtain b where b: "b \<in> set allocs" "revalidated p quotes b = Some a"
    using assms(3) unfolding revalidate_Inr [OF st(2)]
    by (auto simp: List.map_filter_def)
  have "sized_from (pl_policy p) b"
    using allocate_Inr(1) [OF st(1)] b(1) by (simp add: within_limits_def list_all_iff)
  then show ?thesis using b(2)
    by (auto simp: revalidated_def sized_from_def Let_def split: option.splits if_splits)
qed

lemma allocation_unopposed:
  assumes "run p contexts pre (Aware now) quotes existing correlations l = (Inr r, l')"
    and "precondition_mode pre = MODE_NORMAL" and "a \<in> set (pr_allocations r)"
    and "j \<in> set (pr_scored r)" and "item_symbol j = item_symbol (pa_candidate a)"
  shows "item_action j = item_action (pa_candidate a) \<and> \<not> rank_lt j (pa_candidate a)"
proof -
  obtain cycle_id resolved allocs s2 s3 s4 s5 s6 s7 where st:
    "score p cycle_id now (pr_candidates r) s2 = (Inr (pr_scored r), s3)"
    "resolve_conflicts cycle_id now (pr_scored r) s3 = (Inr resolved, s4)"
    "allocate p cycle_id now existing correlations (filter (\<lambda>i. \<not> vetoed p i) resolved) s5 = (Inr allocs, s6)"
    "revalidate p cycle_id now quotes allocs s6 = (Inr (pr_allocations r), s7)"
    by (rule run_normal [OF assms(1,2)])
  obtain b where b: "b \<in> set allocs" "pa_candidate a = pa_candidate b"
    using assms(3) unfolding revalidate_Inr [OF st(4)]
    by (auto simp: List.map_filter_def revalidated_def split: option.splits if_splits)
  then have "pa_candidate a \<in> set resolved" using allocate_Inr(2) [OF st(3)] by auto
  then obtain k where k: "symbol_items (pr_scored r) k \<noteq> []"
    "pa_candidate a = hd (symbol_items (pr_scored r) k)" "agreeing (symbol_items (pr_scored r) k)"
    using resolved_item [OF st(2)] by metis
  have ok: "passed_items (pr_scored r)" unfolding score_Inr [OF st(1)] by (rule scored_not_NaN)
  then have "sorted_wrt (\<lambda>a b. \<not> rank_lt b a) (pr_scored r)"
    using sorted_py_sorted [OF strict_weak_mono [OF rank_lt_strict_weak]]
    unfolding score_Inr [OF st(1)] by (metis order_refl set_py_sorted)
  moreover have "item_symbol (pa_candidate a) = k" using k(1,2) hd_symbol_items by metis
  then have j: "j \<in> set (symbol_items (pr_scored r) k)"
    using assms(4,5) by (simp add: symbol_items_def)
  ultimately show ?thesis
    using hd_symbol_items_best [OF _ ok j] agreeing_iff k hd_in_set by metis
qed

lemma exits_only_empty:
  assumes "run p contexts pre evaluated_at quotes existing correlations l = (Inr r, l')"
    and "precondition_mode pre \<noteq> MODE_NORMAL"
  shows "pr_allocations r = []"
proof -
  obtain now s where "run_cycle p contexts pre (pr_cycle_id r) now quotes existing correlations
      \<lparr>cy_ledger = l, cy_emitted = []\<rparr> = (Inr r, s)"
    by (rule run_Inr [OF assms(1)])
  moreover have "precondition_mode pre = EXITS_ONLY" using assms(2) by (cases "precondition_mode pre") auto
  ultimately show ?thesis unfolding run_cycle_def by (auto dest: result_of_Inr)
qed

text \<open>A property of every allocation of a normal cycle is one of every allocation.\<close>

lemma run_allocations_rule:
  assumes "\<And>r l' a. run p contexts pre (Aware now) quotes existing correlations l = (Inr r, l')
      \<Longrightarrow> precondition_mode pre = MODE_NORMAL \<Longrightarrow> a \<in> set (pr_allocations r) \<Longrightarrow> Q r a"
  shows "case run p contexts pre (Aware now) quotes existing correlations l of
     (Inl err, l') \<Rightarrow> True | (Inr r, l') \<Rightarrow> list_all (Q r) (pr_allocations r)"
proof -
  have "list_all (Q r) (pr_allocations r)"
    if "run p contexts pre (Aware now) quotes existing correlations l = (Inr r, l')" for r l'
    using assms [OF that] exits_only_empty [OF that]
    by (cases "precondition_mode pre = MODE_NORMAL") (auto simp: list_all_iff)
  then show ?thesis by (auto split: prod.splits sum.splits)
qed

text \<open>
  C6: Every allocation of a cycle is backed.  Its candidate was generated in this cycle from
  one of the contexts, which was ready (settled, complete, adjusted, fresh, warm) and
  tradeable, by the plugin of a strategy that is eligible for exactly that market,
  timeframe, horizon and feature version, under the strategy's current approval, and its
  expected return net of costs exceeds the configured minimum.
\<close>

theorem allocations_are_backed:
  "case run p contexts pre (Aware now) quotes existing correlations l of
     (Inl err, l') \<Rightarrow> True
   | (Inr r, l') \<Rightarrow> list_all (\<lambda>a.
         sr_candidate (pa_candidate a) \<in> set (pr_candidates r)
       \<and> backed p now contexts (sr_candidate (pa_candidate a))
       \<and> ap_minimum_expected_r (pl_policy p) < expected_r (sr_candidate (pa_candidate a))
       \<and> \<not> vetoed p (pa_candidate a)) (pr_allocations r)"
  by (rule run_allocations_rule) (rule allocation_backed)

text \<open>
  C9: Every allocation a cycle returns was revalidated against the live quote: it enters at
  a finite positive quote, strictly between stop and target on the right sides for its
  direction, with a drift from the signal price no larger than allowed and a reward-to-risk
  ratio no smaller than required.
\<close>

theorem revalidated_entries:
  "case run p contexts pre (Aware now) quotes existing correlations l of
     (Inl err, l') \<Rightarrow> True
   | (Inr r, l') \<Rightarrow> list_all (\<lambda>a. \<exists>quote.
         map_of quotes (item_symbol (pa_candidate a)) = Some quote
       \<and> pa_expected_entry_price a = quote
       \<and> entry_ok p (dc_signal (sr_candidate (pa_candidate a))) quote
       \<and> order_quantity (pl_policy p) (dc_signal (sr_candidate (pa_candidate a))) = Inr (pa_quantity a))
       (pr_allocations r)"
  by (rule run_allocations_rule) (rule allocation_revalidated)

text \<open>
  C8: One direction per symbol.  No cycle allocates a symbol on which two scored candidates
  disagree: every scored candidate of an allocated symbol has the allocation's direction,
  and none of them outranks it.
\<close>

theorem no_conflicting_allocation:
  "case run p contexts pre (Aware now) quotes existing correlations l of
     (Inl err, l') \<Rightarrow> True
   | (Inr r, l') \<Rightarrow> list_all (\<lambda>a.
         list_all (\<lambda>j. item_action j = item_action (pa_candidate a) \<and> \<not> rank_lt j (pa_candidate a))
           (symbol_items (pr_scored r) (item_symbol (pa_candidate a)))) (pr_allocations r)"
  by (rule run_allocations_rule)
    (auto simp: list_all_iff symbol_items_def dest: allocation_unopposed)

text \<open>
  The language-model review can only remove candidates, and only by an explicit BLOCK
  verdict in the enforced mode: when it is off, in shadow mode, abstains, passes, raises or
  is unavailable, the candidates go on unchanged and in order.
\<close>

theorem review_only_vetoes:
  "case review p cycle_id now candidates s of
     (Inl err, s') \<Rightarrow> True
   | (Inr r, s') \<Rightarrow> r = filter (\<lambda>i. \<not> vetoed p i) candidates"
  by (auto split: prod.splits sum.splits dest: review_Inr)

subsection \<open>The audit trail\<close>

definition context_decision :: "strategy_context \<Rightarrow> decision \<Rightarrow> bool" where
  "context_decision ctx d \<longleftrightarrow> dn_market d = sc_market ctx \<and> dn_symbol d = sc_symbol ctx
     \<and> dn_timeframe d = Some (sc_timeframe ctx)"

text \<open>\<open>noted ctx\<close>: some emitted decision is about the context; no stage undoes that.\<close>

definition noted :: "strategy_context \<Rightarrow> cycle_state \<Rightarrow> bool" where
  "noted ctx s \<longleftrightarrow> list_ex (context_decision ctx) (cy_emitted s)"

interpretation mention: stage_invariant "noted ctx" for ctx
  by unfold_locales
    (auto simp: keeps_def noted_def record_decision_def record_candidate_def on_ledger_def
      push_emitted_def bind_st_def split: prod.splits sum.splits)

lemma emit_notes: "emit ctx cycle_id stage status reason now key s = (Inr u, s') \<Longrightarrow> noted ctx s'"
  by (drule emit_Inr) (auto simp: noted_def context_decision_def)

lemma generate_context_notes:
  assumes "generate_context p cycle_id now ctx cs s = (Inr r, s')"
  shows "noted ctx s'"
proof (cases "readiness_reason ctx")
  case (Some reason)
  then show ?thesis using assms by (auto simp: generate_context_def dest: emit_notes)
next
  case None
  obtain s1 where e: "emit ctx cycle_id DATA_READINESS PASSED ''DATA_READY'' now None s = (Inr (), s1)"
    using assms None by (auto simp: generate_context_def)
  have "keeps (noted ctx) (generate_strategy p cycle_id now ctx d cs)" for d cs
    by (rule mention.generate_strategy_keeps)
  then have "keeps (noted ctx) (fold_st (generate_strategy p cycle_id now ctx) ds cs)" for ds cs
    by (intro keeps_intros)
  then show ?thesis
    using assms None emit_notes [OF e] e
    by (auto simp: generate_context_def Let_def dest: emit_notes keepsD split: if_splits)
qed

lemma fold_notes:
  assumes "fold_st (generate_context p cycle_id now) contexts cs s = (Inr r, s')" and "ctx \<in> set contexts"
  shows "noted ctx s'"
  using assms
proof (induction contexts arbitrary: cs s)
  case (Cons c contexts)
  obtain cs1 s1 where g: "generate_context p cycle_id now c cs s = (Inr cs1, s1)"
    "fold_st (generate_context p cycle_id now) contexts cs1 s1 = (Inr r, s')"
    using Cons.prems(1) by auto
  have k: "keeps (noted c) (fold_st (generate_context p cycle_id now) contexts cs1)"
    by (intro keeps_intros mention.generate_context_keeps)
  show ?case
    using Cons.IH [OF g(2)] Cons.prems(2) keepsD [OF k generate_context_notes [OF g(1)] g(2)] by auto
qed simp

lemma for_notes:
  assumes "for_st (\<lambda>c. emit c cycle_id stage status reason now None) contexts s = (Inr us, s')"
    and "ctx \<in> set contexts"
  shows "noted ctx s'"
  using assms
proof (induction contexts arbitrary: s us)
  case (Cons c contexts)
  obtain u s1 us' where g: "emit c cycle_id stage status reason now None s = (Inr u, s1)"
    "for_st (\<lambda>c. emit c cycle_id stage status reason now None) contexts s1 = (Inr us', s')"
    using Cons.prems(1) by auto
  have k: "keeps (noted c) (for_st (\<lambda>c. emit c cycle_id stage status reason now None) contexts)"
    by (intro keeps_intros mention.emit_keeps)
  show ?case
    using Cons.IH [OF g(2)] Cons.prems(2) keepsD [OF k emit_notes [OF g(1)] g(2)] by auto
qed simp

lemma run_cycle_notes:
  assumes "run_cycle p contexts pre cycle_id now quotes existing correlations s = (Inr r, s')"
    and "ctx \<in> set contexts"
  shows "noted ctx s'"
proof (cases "precondition_mode pre = EXITS_ONLY")
  case True
  then show ?thesis
    using assms unfolding run_cycle_def by (auto dest: result_of_Inr(7) intro: for_notes)
next
  case False
  then obtain cs s1 s2 where g: "generate p cycle_id now contexts s1 = (Inr cs, s2)"
    and rest: "bind_st (score p cycle_id now cs) (\<lambda>scored.
       bind_st (resolve_conflicts cycle_id now scored) (\<lambda>resolved.
       bind_st (review p cycle_id now resolved) (\<lambda>reviewed.
       bind_st (allocate p cycle_id now existing correlations reviewed) (\<lambda>allocations.
       bind_st (revalidate p cycle_id now quotes allocations) (\<lambda>valid.
         result_of cycle_id MODE_NORMAL cs scored valid))))) s2 = (Inr r, s')"
    using assms(1) unfolding run_cycle_def by (auto simp: bind_st_Inr_iff)
  have k: "keeps (noted ctx) (bind_st (score p cycle_id now cs) (\<lambda>scored.
       bind_st (resolve_conflicts cycle_id now scored) (\<lambda>resolved.
       bind_st (review p cycle_id now resolved) (\<lambda>reviewed.
       bind_st (allocate p cycle_id now existing correlations reviewed) (\<lambda>allocations.
       bind_st (revalidate p cycle_id now quotes allocations) (\<lambda>valid.
         result_of cycle_id MODE_NORMAL cs scored valid))))))"
    by (intro keeps_intros mention.stage_keeps)
  show ?thesis by (rule keepsD [OF k fold_notes [OF g [unfolded generate_def] assms(2)] rest])
qed

text \<open>
  C10: The audit trail of a cycle is complete and durable.  Whether the cycle returns or
  raises, the ledger keeps every earlier decision, in order, and only grows; when it
  returns, every decision it reports is in the ledger as reported, and every context it was
  given has at least one of them.
\<close>

theorem run_audit_trail:
  "case run p contexts pre (Aware now) quotes existing correlations l of
     (Inl err, l') \<Rightarrow> prefix (dl_decisions l) (dl_decisions l')
   | (Inr r, l') \<Rightarrow> prefix (dl_decisions l) (dl_decisions l')
       \<and> list_all (\<lambda>d. map_of (dl_decisions l') (dn_decision_id d) = Some d) (pr_decisions r)
       \<and> list_all (\<lambda>ctx. list_ex (context_decision ctx) (pr_decisions r)) contexts"
proof -
  let ?s = "\<lparr>cy_ledger = l, cy_emitted = []\<rparr>"
  have grows: "prefix (dl_decisions l) (dl_decisions l')"
    if "run p contexts pre (Aware now) quotes existing correlations l = (x, l')" for x l'
  proof (cases "cycle_id_of contexts")
    case (Inr cycle_id)
    obtain y s where y: "run_cycle p contexts pre cycle_id now quotes existing correlations ?s = (y, s)"
      by fastforce
    then have s: "run_cycle p contexts pre cycle_id now quotes existing correlations ?s = (x, s)"
      "l' = cy_ledger s"
      using that Inr by (auto simp: run_def)
    have "grown l [] s" using keepsD [OF growth.run_cycle_keeps _ s(1)] by (simp add: grown_def)
    then show ?thesis using s(2) by (simp add: grown_def)
  qed (use that in \<open>auto simp: run_def\<close>)
  have returned: "list_all (\<lambda>d. map_of (dl_decisions l') (dn_decision_id d) = Some d) (pr_decisions r)
      \<and> list_all (\<lambda>ctx. list_ex (context_decision ctx) (pr_decisions r)) contexts"
    if r: "run p contexts pre (Aware now) quotes existing correlations l = (Inr r, l')" for r l'
  proof -
    obtain now' s where s: "l' = cy_ledger s" "pr_decisions r = cy_emitted s"
      "run_cycle p contexts pre (pr_cycle_id r) now' quotes existing correlations ?s = (Inr r, s)"
      by (rule run_Inr [OF r])
    have "audited s" using keepsD [OF audit.run_cycle_keeps _ s(3)] by (simp add: audited_def)
    then show ?thesis
      using run_cycle_notes [OF s(3)] s(1,2) by (auto simp: audited_def noted_def list_all_iff)
  qed
  show ?thesis using grows returned by (auto split: prod.splits sum.splits)
qed

subsection \<open>The cycle identifier\<close>

lemma map_r_uniform:
  assumes "\<And>x. x \<in> set xs \<Longrightarrow> f x = Inl e \<or> (\<exists>y. f x = Inr y)"
  shows "map_r f xs = (if \<forall>x \<in> set xs. f x \<noteq> Inl e then Inr (map (\<lambda>x. projr (f x)) xs) else Inl e)"
  using assms by (induction xs) (fastforce split: if_splits)+

text \<open>
  The identifier of a cycle does not depend on the order in which the contexts are
  given: permuted contexts give the same identifier (or the same exception).
\<close>

theorem cycle_id_order_independent:
  assumes "mset contexts = mset contexts'"
  shows "cycle_id_of contexts = cycle_id_of contexts'"
proof -
  obtain e where e: "context_row c = Inl e \<or> (\<exists>row. context_row c = Inr row)" for c
  proof
    show "context_row c = Inl (projl (utc (Naive 0) ''context.event_time''))
        \<or> (\<exists>row. context_row c = Inr row)" for c
      by (cases "sc_event_time c") (auto simp: context_row_def utc_def)
  qed
  have "mset (map (\<lambda>c. projr (context_row c)) contexts) = mset (map (\<lambda>c. projr (context_row c)) contexts')"
    using assms by simp
  then have "sort (map (\<lambda>c. projr (context_row c)) contexts) = sort (map (\<lambda>c. projr (context_row c)) contexts')"
    by (intro properties_for_sort) simp_all
  moreover have "set contexts = set contexts'" using assms by (metis set_mset_mset)
  ultimately show ?thesis
    unfolding cycle_id_of_def map_r_uniform [where f = context_row, OF e] py_sorted_linorder by simp
qed

theorem cycle_id_order_independent_witness:
  "cycle_id_of [ex_context, ex_context\<lparr>sc_symbol := ''INFY''\<rparr>]
     = cycle_id_of [ex_context\<lparr>sc_symbol := ''INFY''\<rparr>, ex_context]"
  by (rule cycle_id_order_independent) simp

end
