(* ===== verification/Risk.thy ===== *)
theory Risk
  imports Registry
begin

text \<open>
  The deterministic risk engine of src/src/nanodelta/risk/engine.py, the final authority
  over every paper order: trade intents, portfolio snapshots, limits, and the two
  evaluations, of an entry (\<open>evaluate\<close>) and of a protective exit (\<open>evaluate_exit\<close>).
  The fields of the dataclasses are record fields; \<open>__post_init__\<close> is a function that
  returns the record or the exception.  The entry gates are compared with a specification
  of their own: the holdings the account has after the order, in exact rational arithmetic.
\<close>

section \<open>Data\<close>

record trade_intent =
  ti_intent_id :: string
  ti_market :: market
  ti_account_id :: string
  ti_symbol :: string
  ti_action :: advisory_action
  ti_quantity :: pyfloat
  ti_reference_price :: pyfloat
  ti_event_time :: datetime
  ti_candidate_id :: string
  ti_approval_id :: string
  ti_identity :: strategy_identity
  ti_gold_snapshot_ids :: "string list"
  ti_agent_evidence_id :: "string option"

definition trade_intent_post_init :: "trade_intent \<Rightarrow> trade_intent result" where
  "trade_intent_post_init t =
     (if ti_action t = ABSTAIN then Inl (ValueError ''ABSTAIN cannot become a trade intent'')
      else if ti_market t \<noteq> si_market (ti_identity t)
        then Inl (ValueError ''trade intent market must match strategy identity'')
      else if ti_account_id t = [] \<or> ti_symbol t = [] \<or> ti_gold_snapshot_ids t = []
        then Inl (ValueError ''account_id, symbol, and Gold lineage are required'')
      else if \<not> isfinite (ti_quantity t) \<or> ti_quantity t \<le> 0
        then Inl (ValueError ''quantity must be finite and positive'')
      else if \<not> isfinite (ti_reference_price t) \<or> ti_reference_price t \<le> 0
        then Inl (ValueError ''reference_price must be finite and positive'')
      else bind_r (utc (ti_event_time t) ''event_time'') (\<lambda>_. Inr t))"

record portfolio_position =
  pp_market :: market
  pp_account_id :: string
  pp_symbol :: string
  pp_signed_quantity :: pyfloat
  pp_mark_price :: pyfloat

definition gross_notional :: "portfolio_position \<Rightarrow> pyfloat" where
  "gross_notional p = \<bar>pp_signed_quantity p * pp_mark_price p\<bar>"

record portfolio_snapshot =
  ps_snapshot_id :: string
  ps_account_id :: string
  ps_equity :: pyfloat
  ps_realized_pnl_today :: pyfloat
  ps_positions :: "portfolio_position list"
  ps_captured_at :: datetime

definition portfolio_snapshot_post_init :: "portfolio_snapshot \<Rightarrow> portfolio_snapshot result" where
  "portfolio_snapshot_post_init s =
     (if \<not> isfinite (ps_equity s) \<or> ps_equity s \<le> 0
        then Inl (ValueError ''equity must be finite and positive'')
      else if \<not> isfinite (ps_realized_pnl_today s)
        then Inl (ValueError ''realized_pnl_today must be finite'')
      else if \<exists>p \<in> set (ps_positions s). pp_account_id p \<noteq> ps_account_id s
        then Inl (ValueError ''portfolio positions must belong to the snapshot account'')
      else bind_r (utc (ps_captured_at s) ''captured_at'') (\<lambda>_. Inr s))"

record risk_limits =
  rl_max_order_notional :: pyfloat
  rl_max_position_notional :: pyfloat
  rl_max_market_gross_exposure :: pyfloat
  rl_max_total_gross_exposure :: pyfloat
  rl_max_daily_loss :: pyfloat
  rl_max_open_positions :: int
  rl_max_snapshot_age_seconds :: int

definition risk_limits_post_init :: "risk_limits \<Rightarrow> risk_limits result" where
  "risk_limits_post_init l =
     (if \<not> (\<forall>v \<in> set [rl_max_order_notional l, rl_max_position_notional l,
               rl_max_market_gross_exposure l, rl_max_total_gross_exposure l,
               rl_max_daily_loss l]. isfinite v \<and> 0 < v)
        then Inl (ValueError ''risk limits must be finite and positive'')
      else if rl_max_open_positions l < 1 \<or> rl_max_snapshot_age_seconds l < 0
        then Inl (ValueError ''position and freshness limits are invalid'')
      else Inr l)"

datatype risk_decision_state = RISK_APPROVED | RISK_REJECTED

record risk_decision =
  rd_decision_id :: string
  rd_intent :: trade_intent
  rd_portfolio_snapshot_id :: string
  rd_state :: risk_decision_state
  rd_rejection_reasons :: "string list"
  rd_evaluated_at :: instant
  rd_limits :: risk_limits

definition approved :: "risk_decision \<Rightarrow> bool" where
  "approved d \<longleftrightarrow> rd_state d = RISK_APPROVED"

section \<open>Evaluation\<close>

text \<open>
  \<open>total_seconds\<close> divides the microseconds by a million, rounded once; a float compares
  with an int by its exact value.
\<close>

definition total_seconds :: "int \<Rightarrow> pyfloat" where
  "total_seconds us = rnd64 (of_int us / 1000000)"

definition stale_reasons :: "risk_limits \<Rightarrow> instant \<Rightarrow> instant \<Rightarrow> string list" where
  "stale_reasons l now captured =
     (let age = total_seconds (now - captured)
      in if age < 0 \<or> Fin (of_int (rl_max_snapshot_age_seconds l)) < age
         then [''STALE_PORTFOLIO_SNAPSHOT''] else [])"

text \<open>The first position of the intent's market and symbol.\<close>

definition intent_target :: "trade_intent \<Rightarrow> portfolio_snapshot \<Rightarrow> portfolio_position option" where
  "intent_target t s =
     find (\<lambda>p. pp_market p = ti_market t \<and> pp_symbol p = ti_symbol t) (ps_positions s)"

definition intent_delta :: "trade_intent \<Rightarrow> pyfloat" where
  "intent_delta t = (if ti_action t = BUY then ti_quantity t else - ti_quantity t)"

definition current_signed :: "trade_intent \<Rightarrow> portfolio_snapshot \<Rightarrow> pyfloat" where
  "current_signed t s = (case intent_target t s of Some p \<Rightarrow> pp_signed_quantity p | None \<Rightarrow> 0)"

definition current_notional :: "trade_intent \<Rightarrow> portfolio_snapshot \<Rightarrow> pyfloat" where
  "current_notional t s = (case intent_target t s of Some p \<Rightarrow> gross_notional p | None \<Rightarrow> 0)"

definition order_notional :: "trade_intent \<Rightarrow> pyfloat" where
  "order_notional t = ti_quantity t * ti_reference_price t"

definition projected_signed :: "trade_intent \<Rightarrow> portfolio_snapshot \<Rightarrow> pyfloat" where
  "projected_signed t s = current_signed t s + intent_delta t"

definition projected_notional :: "trade_intent \<Rightarrow> portfolio_snapshot \<Rightarrow> pyfloat" where
  "projected_notional t s = \<bar>projected_signed t s * ti_reference_price t\<bar>"

definition projected_total :: "trade_intent \<Rightarrow> portfolio_snapshot \<Rightarrow> pyfloat" where
  "projected_total t s =
     py_sum (map gross_notional (ps_positions s)) - current_notional t s + projected_notional t s"

definition projected_market :: "trade_intent \<Rightarrow> portfolio_snapshot \<Rightarrow> pyfloat" where
  "projected_market t s =
     py_sum (map gross_notional (filter (\<lambda>p. pp_market p = ti_market t) (ps_positions s)))
       - current_notional t s + projected_notional t s"

definition opens_new :: "trade_intent \<Rightarrow> portfolio_snapshot \<Rightarrow> bool" where
  "opens_new t s \<longleftrightarrow> py_eq (current_signed t s) 0 \<and> \<not> py_eq (projected_signed t s) 0"

definition existing_open :: "portfolio_snapshot \<Rightarrow> int" where
  "existing_open s = int (length (filter (\<lambda>p. \<not> py_eq (pp_signed_quantity p) 0) (ps_positions s)))"

definition entry_reasons ::
  "risk_limits \<Rightarrow> trade_intent \<Rightarrow> strategy_approval \<Rightarrow> portfolio_snapshot \<Rightarrow> instant \<Rightarrow> instant
     \<Rightarrow> string list" where
  "entry_reasons l t a s now captured =
     (if sa_approval_id a \<noteq> ti_approval_id t \<or> sa_identity a \<noteq> ti_identity t
        then [''STRATEGY_APPROVAL_MISMATCH'']
      else if \<not> is_current a now then [''STRATEGY_APPROVAL_NOT_CURRENT''] else [])
   @ (if ps_account_id s \<noteq> ti_account_id t then [''ACCOUNT_MISMATCH''] else [])
   @ stale_reasons l now captured
   @ (if ps_realized_pnl_today s \<le> - rl_max_daily_loss l then [''DAILY_LOSS_LIMIT_REACHED''] else [])
   @ (if rl_max_order_notional l < order_notional t then [''ORDER_NOTIONAL_LIMIT_EXCEEDED''] else [])
   @ (if rl_max_position_notional l < projected_notional t s
        then [''POSITION_NOTIONAL_LIMIT_EXCEEDED''] else [])
   @ (if rl_max_total_gross_exposure l < projected_total t s
        then [''TOTAL_GROSS_EXPOSURE_LIMIT_EXCEEDED''] else [])
   @ (if rl_max_market_gross_exposure l < projected_market t s
        then [''MARKET_GROSS_EXPOSURE_LIMIT_EXCEEDED''] else [])
   @ (if opens_new t s \<and> rl_max_open_positions l \<le> existing_open s
        then [''OPEN_POSITION_LIMIT_REACHED''] else [])"

text \<open>\<open>str()\<close> of the limits, which enters the decision identifier.\<close>

definition str_of_limits :: "risk_limits \<Rightarrow> string" where
  "str_of_limits l =
     ''RiskLimits(max_order_notional='' @ str_of_float (rl_max_order_notional l)
     @ '', max_position_notional='' @ str_of_float (rl_max_position_notional l)
     @ '', max_market_gross_exposure='' @ str_of_float (rl_max_market_gross_exposure l)
     @ '', max_total_gross_exposure='' @ str_of_float (rl_max_total_gross_exposure l)
     @ '', max_daily_loss='' @ str_of_float (rl_max_daily_loss l)
     @ '', max_open_positions='' @ str_of_int (rl_max_open_positions l)
     @ '', max_snapshot_age_seconds='' @ str_of_int (rl_max_snapshot_age_seconds l) @ '')''"

definition decision_of_reasons ::
  "string \<Rightarrow> trade_intent \<Rightarrow> portfolio_snapshot \<Rightarrow> string list \<Rightarrow> instant \<Rightarrow> risk_limits
     \<Rightarrow> risk_decision" where
  "decision_of_reasons decision_id t s reasons now l =
     \<lparr>rd_decision_id = decision_id, rd_intent = t, rd_portfolio_snapshot_id = ps_snapshot_id s,
      rd_state = (if reasons \<noteq> [] then RISK_REJECTED else RISK_APPROVED),
      rd_rejection_reasons = reasons, rd_evaluated_at = now, rd_limits = l\<rparr>"

definition evaluate ::
  "risk_limits \<Rightarrow> trade_intent \<Rightarrow> strategy_approval \<Rightarrow> portfolio_snapshot \<Rightarrow> datetime
     \<Rightarrow> risk_decision result" where
  "evaluate l t a s evaluated_at =
     bind_r (utc evaluated_at ''evaluated_at'') (\<lambda>now.
     bind_r (utc (ps_captured_at s) ''captured_at'') (\<lambda>captured.
       Inr (decision_of_reasons
         (stable_id [ti_intent_id t, ps_snapshot_id s, isoformat now, str_of_limits l])
         t s (entry_reasons l t a s now captured) now l)))"

definition exit_reasons ::
  "risk_limits \<Rightarrow> trade_intent \<Rightarrow> portfolio_snapshot \<Rightarrow> instant \<Rightarrow> instant \<Rightarrow> string list" where
  "exit_reasons l t s now captured =
     (if ps_account_id s \<noteq> ti_account_id t then [''ACCOUNT_MISMATCH''] else [])
   @ stale_reasons l now captured
   @ (case intent_target t s of
        None \<Rightarrow> [''OPEN_POSITION_NOT_FOUND'']
      | Some p \<Rightarrow>
          if py_eq (pp_signed_quantity p) 0 then [''OPEN_POSITION_NOT_FOUND'']
          else if 0 \<le> pp_signed_quantity p * intent_delta t then [''EXIT_MUST_REDUCE_POSITION'']
          else if \<bar>pp_signed_quantity p\<bar> < \<bar>intent_delta t\<bar> then [''EXIT_CANNOT_REVERSE_POSITION'']
          else [])"

definition evaluate_exit ::
  "risk_limits \<Rightarrow> trade_intent \<Rightarrow> portfolio_snapshot \<Rightarrow> datetime \<Rightarrow> risk_decision result" where
  "evaluate_exit l t s evaluated_at =
     bind_r (utc evaluated_at ''evaluated_at'') (\<lambda>now.
     bind_r (utc (ps_captured_at s) ''captured_at'') (\<lambda>captured.
       Inr (decision_of_reasons
         (stable_id [''protective-exit'', ti_intent_id t, ps_snapshot_id s, isoformat now])
         t s (exit_reasons l t s now captured) now l)))"

section \<open>Lemmas\<close>

lemma decision_of_reasons_simps [simp]:
  "rd_decision_id (decision_of_reasons i t s rs now l) = i"
  "rd_intent (decision_of_reasons i t s rs now l) = t"
  "rd_rejection_reasons (decision_of_reasons i t s rs now l) = rs"
  "rd_evaluated_at (decision_of_reasons i t s rs now l) = now"
  "rd_limits (decision_of_reasons i t s rs now l) = l"
  "approved (decision_of_reasons i t s rs now l) \<longleftrightarrow> rs = []"
  by (simp_all add: decision_of_reasons_def approved_def)

lemma evaluate_Inr:
  assumes "evaluate l t a s evaluated_at = Inr d"
  obtains now captured where "evaluated_at = Aware now" and "ps_captured_at s = Aware captured"
    and "rd_intent d = t" and "approved d \<longleftrightarrow> entry_reasons l t a s now captured = []"
    and "rd_evaluated_at d = now" and "rd_rejection_reasons d = entry_reasons l t a s now captured"
  using assms by (auto simp: evaluate_def)

lemma evaluate_exit_Inr:
  assumes "evaluate_exit l t s evaluated_at = Inr d"
  obtains now captured where "evaluated_at = Aware now" and "ps_captured_at s = Aware captured"
    and "rd_intent d = t" and "approved d \<longleftrightarrow> exit_reasons l t s now captured = []"
    and "rd_evaluated_at d = now"
  using assms by (auto simp: evaluate_exit_def)

lemma trade_intent_ok:
  assumes "trade_intent_post_init t = Inr t'"
  shows "t' = t" and "ti_action t \<noteq> ABSTAIN"
    and "\<exists>q p. ti_quantity t = Fin q \<and> 0 < q \<and> ti_reference_price t = Fin p \<and> 0 < p"
  using assms by (auto simp: trade_intent_post_init_def isfinite_iff split: if_splits)

lemma risk_limits_ok:
  assumes "risk_limits_post_init l = Inr l'"
  shows "isfinite (rl_max_order_notional l)" "isfinite (rl_max_position_notional l)"
    "isfinite (rl_max_market_gross_exposure l)" "isfinite (rl_max_total_gross_exposure l)"
    "0 < rl_max_position_notional l" "0 < rl_max_daily_loss l"
  using assms by (auto simp: risk_limits_post_init_def split: if_splits)

text \<open>
  The target of an intent is a position of its market, and the first one of its symbol.
\<close>

lemma intent_target_Some:
  "intent_target t s = Some p \<Longrightarrow>
     p \<in> set (ps_positions s) \<and> pp_market p = ti_market t \<and> pp_symbol p = ti_symbol t"
  by (auto simp: intent_target_def find_Some_iff set_conv_nth)

text \<open>A sum of values none of which is negative or NaN is not NaN.\<close>

lemma plus_nonneg_float:
  assumes "0 \<le> x" and "0 \<le> (y :: pyfloat)"
  shows "0 \<le> x + y"
  using assms rnd64_nonneg by (cases x; cases y) (auto simp: zero_pyfloat_def)

lemma plus_Fin_not_NaN: "x \<noteq> NaN \<Longrightarrow> isfinite y \<Longrightarrow> x + y \<noteq> NaN"
  by (cases x; cases y) auto

lemma sum_loop_not_NaN: "0 \<le> acc \<Longrightarrow> (\<And>x. x \<in> set xs \<Longrightarrow> 0 \<le> x) \<Longrightarrow> sum_loop acc c xs \<noteq> NaN"
proof (induction xs arbitrary: acc c)
  case Nil
  then show ?case by (auto simp: float_le_not_NaN plus_Fin_not_NaN)
next
  case (Cons x xs)
  then show ?case by (simp add: Let_def plus_nonneg_float)
qed

lemma py_sum_not_NaN: "(\<And>x. x \<in> set xs \<Longrightarrow> 0 \<le> x) \<Longrightarrow> py_sum xs \<noteq> NaN"
proof (cases xs)
  case (Cons x ys)
  assume nn: "\<And>x. x \<in> set xs \<Longrightarrow> 0 \<le> x"
  have "0 \<le> 0 + x" by (rule plus_nonneg_float) (use nn Cons in \<open>auto simp: float_le_refl\<close>)
  then show ?thesis using nn Cons by (simp add: sum_loop_not_NaN)
qed simp

lemma abs_float_nonneg: "x \<noteq> NaN \<Longrightarrow> 0 \<le> \<bar>x :: pyfloat\<bar>"
  by (cases x) auto

lemma times_Fin_not_NaN: "isfinite x \<Longrightarrow> isfinite y \<Longrightarrow> x * y \<noteq> NaN"
  by (cases x; cases y) auto

text \<open>A NaN among the summands makes the sum NaN.\<close>

lemma NaN_plus [simp]: "NaN + x = NaN" "x + NaN = (NaN :: pyfloat)"
  by (cases x; simp)+

lemma sum_loop_NaN_acc: "sum_loop NaN c xs = NaN"
  by (induction xs arbitrary: c) (auto simp: Let_def)

lemma sum_loop_NaN: "NaN \<in> set xs \<Longrightarrow> sum_loop acc c xs = NaN"
  by (induction xs arbitrary: acc c) (auto simp: Let_def sum_loop_NaN_acc)

lemma py_sum_NaN: "NaN \<in> set xs \<Longrightarrow> py_sum xs = NaN"
  by (cases xs) (auto simp: sum_loop_NaN sum_loop_NaN_acc)

text \<open>
  \<open>finite_positions\<close>: quantities, marks and notionals of the snapshot are finite, as they
  are for every snapshot built from real fills and quotes.  Then no quantity the entry
  gates compare is NaN.
\<close>

definition finite_positions :: "portfolio_snapshot \<Rightarrow> bool" where
  "finite_positions s \<longleftrightarrow>
     list_all (\<lambda>p. isfinite (pp_signed_quantity p) \<and> isfinite (gross_notional p)) (ps_positions s)"

lemma finite_target:
  assumes "finite_positions s"
  shows "isfinite (current_signed t s)" and "isfinite (current_notional t s)"
  using assms intent_target_Some [of t s]
  by (auto simp: current_signed_def current_notional_def finite_positions_def list_all_iff
      zero_pyfloat_def split: option.splits)

lemma finite_gross_sum_not_NaN:
  assumes "finite_positions s"
  shows "py_sum (map gross_notional (filter P (ps_positions s))) \<noteq> NaN"
proof (rule py_sum_not_NaN)
  fix x
  assume "x \<in> set (map gross_notional (filter P (ps_positions s)))"
  then obtain p where p: "p \<in> set (ps_positions s)" and x: "x = gross_notional p" by auto
  have "isfinite x" using assms p x by (simp add: finite_positions_def list_all_iff)
  then show "0 \<le> x" unfolding x gross_notional_def
    by (intro abs_float_nonneg) (auto simp: isfinite_iff)
qed

lemma projected_notional_not_NaN:
  assumes "finite_positions s" and "trade_intent_post_init t = Inr t'"
  shows "projected_notional t s \<noteq> NaN" and "0 \<le> projected_notional t s"
proof -
  obtain q p where t: "ti_quantity t = Fin q" "ti_reference_price t = Fin p" "0 < p"
    using trade_intent_ok(3) [OF assms(2)] by auto
  obtain c where c: "current_signed t s = Fin c"
    using finite_target(1) [OF assms(1)] by (auto simp: isfinite_iff)
  have "projected_signed t s \<noteq> NaN"
    by (simp add: projected_signed_def c intent_delta_def t)
  then have "projected_signed t s * Fin p \<noteq> NaN"
    using t(3) by (cases "projected_signed t s") auto
  then have "projected_signed t s * ti_reference_price t \<noteq> NaN" by (simp add: t)
  then show "0 \<le> projected_notional t s" by (simp add: projected_notional_def abs_float_nonneg)
  then show "projected_notional t s \<noteq> NaN" using float_le_not_NaN by blast
qed

lemma minus_plus_not_NaN:
  "x \<noteq> NaN \<Longrightarrow> isfinite c \<Longrightarrow> isfinite y \<Longrightarrow> x - c + y \<noteq> (NaN :: pyfloat)"
  by (cases x; cases y; cases c) (auto simp: minus_pyfloat_def plus_Fin_not_NaN)

lemma float_between_isfinite: "0 \<le> x \<Longrightarrow> x \<le> y \<Longrightarrow> isfinite y \<Longrightarrow> isfinite x"
  by (cases x; cases y) auto

lemma order_notional_not_NaN: "trade_intent_post_init t = Inr t' \<Longrightarrow> order_notional t \<noteq> NaN"
  using trade_intent_ok(3) [of t t'] by (auto simp: order_notional_def)

lemma stale_reasons_Nil:
  "stale_reasons l now captured = [] \<longleftrightarrow>
     0 \<le> total_seconds (now - captured)
     \<and> total_seconds (now - captured) \<le> Fin (of_int (rl_max_snapshot_age_seconds l))"
  using float_not_less_iff [of "total_seconds (now - captured)" 0]
    float_not_less_iff [of "Fin (of_int (rl_max_snapshot_age_seconds l))" "total_seconds (now - captured)"]
  by (auto simp: stale_reasons_def Let_def total_seconds_def split: if_splits)

lemma entry_reasons_Nil:
  "entry_reasons l t a s now captured = [] \<longleftrightarrow>
     sa_approval_id a = ti_approval_id t \<and> sa_identity a = ti_identity t \<and> is_current a now
   \<and> ps_account_id s = ti_account_id t \<and> stale_reasons l now captured = []
   \<and> \<not> ps_realized_pnl_today s \<le> - rl_max_daily_loss l
   \<and> \<not> rl_max_order_notional l < order_notional t
   \<and> \<not> rl_max_position_notional l < projected_notional t s
   \<and> \<not> rl_max_total_gross_exposure l < projected_total t s
   \<and> \<not> rl_max_market_gross_exposure l < projected_market t s
   \<and> \<not> (opens_new t s \<and> rl_max_open_positions l \<le> existing_open s)"
proof -
  have if_Nil: "(if b then [x] else []) = [] \<longleftrightarrow> \<not> b" for b and x :: string by simp
  have if2_Nil: "(if b then [x] else if c then [y] else []) = [] \<longleftrightarrow> \<not> b \<and> \<not> c"
    for b c and x y :: string by simp
  show ?thesis by (simp only: entry_reasons_def append_is_Nil_conv if_Nil if2_Nil de_Morgan_disj not_not conj_assoc)
qed

text \<open>The exposure gates, once the position gate has passed.\<close>

lemma exposure_gates:
  assumes "finite_positions s" and "trade_intent_post_init t = Inr t'"
    and "risk_limits_post_init l = Inr l'"
    and "\<not> rl_max_position_notional l < projected_notional t s"
  shows "\<not> rl_max_total_gross_exposure l < projected_total t s
           \<longleftrightarrow> projected_total t s \<le> rl_max_total_gross_exposure l"
    and "\<not> rl_max_market_gross_exposure l < projected_market t s
           \<longleftrightarrow> projected_market t s \<le> rl_max_market_gross_exposure l"
proof -
  note lim = risk_limits_ok [OF assms(3)]
  have pn: "0 \<le> projected_notional t s" "projected_notional t s \<noteq> NaN"
    using projected_notional_not_NaN [OF assms(1,2)] by auto
  then have "projected_notional t s \<le> rl_max_position_notional l"
    using assms(4) lim(2) float_not_less_finite by blast
  then have fin: "isfinite (projected_notional t s)"
    using pn(1) lim(2) by (auto intro: float_between_isfinite)
  have sum: "py_sum (map gross_notional (ps_positions s)) \<noteq> NaN"
    using finite_gross_sum_not_NaN [OF assms(1), of "\<lambda>_. True"] by simp
  have "projected_total t s \<noteq> NaN" "projected_market t s \<noteq> NaN"
    unfolding projected_total_def projected_market_def
    using minus_plus_not_NaN fin finite_target(2) [OF assms(1)] sum finite_gross_sum_not_NaN [OF assms(1)]
    by auto
  then show "\<not> rl_max_total_gross_exposure l < projected_total t s
      \<longleftrightarrow> projected_total t s \<le> rl_max_total_gross_exposure l"
    "\<not> rl_max_market_gross_exposure l < projected_market t s
      \<longleftrightarrow> projected_market t s \<le> rl_max_market_gross_exposure l"
    using lim(3,4) float_not_less_finite by blast+
qed

section \<open>The account after an order\<close>

text \<open>
  The specification of the entry gates, in exact rational arithmetic and without the
  engine's projections: the account as a list of holdings, what the order makes of it, and
  what the account then exposes.  A buy adds the quantity to the first holding of the
  intent's market and symbol, a sell takes it away, and the holding is valued at the
  reference price; an order for a symbol the account does not hold appends a holding.
\<close>

record holding =
  hg_market :: market
  hg_symbol :: string
  hg_quantity :: rat
  hg_price :: rat

fun exact_of :: "pyfloat \<Rightarrow> rat" where
  "exact_of (Fin q) = q"
| "exact_of _ = 0"

definition holding_of :: "portfolio_position \<Rightarrow> holding" where
  "holding_of p = \<lparr>hg_market = pp_market p, hg_symbol = pp_symbol p,
     hg_quantity = exact_of (pp_signed_quantity p), hg_price = exact_of (pp_mark_price p)\<rparr>"

definition held_for :: "trade_intent \<Rightarrow> holding \<Rightarrow> bool" where
  "held_for t h \<longleftrightarrow> hg_market h = ti_market t \<and> hg_symbol h = ti_symbol t"

definition traded_quantity :: "trade_intent \<Rightarrow> rat" where
  "traded_quantity t = (case ti_action t of SELL \<Rightarrow> - exact_of (ti_quantity t) | _ \<Rightarrow> exact_of (ti_quantity t))"

fun after_order :: "trade_intent \<Rightarrow> holding list \<Rightarrow> holding list" where
  "after_order t [] = [\<lparr>hg_market = ti_market t, hg_symbol = ti_symbol t, hg_quantity = traded_quantity t,
     hg_price = exact_of (ti_reference_price t)\<rparr>]"
| "after_order t (h # hs) =
     (if held_for t h
      then h\<lparr>hg_quantity := hg_quantity h + traded_quantity t, hg_price := exact_of (ti_reference_price t)\<rparr> # hs
      else h # after_order t hs)"

definition holding_worth :: "holding \<Rightarrow> rat" where
  "holding_worth h = \<bar>hg_quantity h * hg_price h\<bar>"

definition gross_exposure :: "holding list \<Rightarrow> rat" where
  "gross_exposure hs = sum_list (map holding_worth hs)"

definition open_count :: "holding list \<Rightarrow> int" where
  "open_count hs = int (length (filter (\<lambda>h. hg_quantity h \<noteq> 0) hs))"

text \<open>
  Amounts for which binary64 arithmetic does not round: quantities are multiples of \<open>2 powi a\<close>
  and prices of \<open>2 powi b\<close> (whole shares and prices in sixteenths, say), and neither the
  quantities nor the exposures before and after the order need more than 53 bits of such units.
\<close>

definition exact_amounts :: "int \<Rightarrow> int \<Rightarrow> trade_intent \<Rightarrow> holding list \<Rightarrow> bool" where
  "exact_amounts a b t hs \<longleftrightarrow>
     a \<le> 0 \<and> b \<le> 0 \<and> - 1074 \<le> a + b
   \<and> list_all (\<lambda>h. grid a (hg_quantity h) \<and> grid b (hg_price h)) hs
   \<and> grid a (exact_of (ti_quantity t)) \<and> grid b (exact_of (ti_reference_price t))
   \<and> sum_list (map (\<lambda>h. \<bar>hg_quantity h\<bar>) hs) + \<bar>exact_of (ti_quantity t)\<bar> \<le> 2 powi (a + 53)
   \<and> gross_exposure hs \<le> 2 powi (a + b + 53) \<and> gross_exposure (after_order t hs) \<le> 2 powi (a + b + 53)
   \<and> \<bar>exact_of (ti_quantity t) * exact_of (ti_reference_price t)\<bar> \<le> 2 powi (a + b + 53)"

subsection \<open>Arithmetic that does not round\<close>

lemma grid_plus: "grid e x \<Longrightarrow> grid e y \<Longrightarrow> grid e (x + y)"
  unfolding grid_def by (metis distrib_right of_int_add)

lemma grid_diff: "grid e x \<Longrightarrow> grid e y \<Longrightarrow> grid e (x - y)"
  unfolding grid_def by (metis left_diff_distrib of_int_diff)

lemma grid_abs: "grid e x \<Longrightarrow> grid e \<bar>x\<bar>"
  by (cases "x < 0") (auto simp: grid_minus)

lemma grid_mult: "grid a x \<Longrightarrow> grid b y \<Longrightarrow> grid (a + b) (x * y)"
proof -
  assume "grid a x" and "grid b y"
  then obtain j k where "x = of_int j * 2 powi a" "y = of_int k * 2 powi b" by (auto simp: grid_def)
  then have "x * y = of_int (j * k) * 2 powi (a + b)" by (simp add: power_int_add)
  then show ?thesis unfolding grid_def by blast
qed

lemma grid_0 [simp]: "grid e 0"
  unfolding grid_def by (rule exI [of _ 0]) simp

lemma grid_sum_list: "list_all (grid e) xs \<Longrightarrow> grid e (sum_list xs)"
  by (induction xs) (auto intro: grid_plus)

lemma rnd64_grid:
  assumes "grid e x" and "\<bar>x\<bar> \<le> 2 powi (e + 53)" and "- 1074 \<le> e" and "e \<le> 0"
  shows "rnd64 x = Fin x"
proof -
  have "(2 powi (e + 53) :: rat) \<le> 2 powi 53" using assms(4) by (intro power_int_increasing) auto
  then have "\<bar>x\<bar> < f64_bound" using assms(2) f64_bound_gt by simp
  then show ?thesis
    using round_rat_small_grid [OF assms(1-3)] by (intro rnd64_f64) (simp add: is_f64_def)
qed

text \<open>
  The compensated sum of Python is exact on multiples of a common unit whose total fits in
  53 bits: every correction term is zero.
\<close>

lemma sum_loop_exact:
  assumes "list_all (\<lambda>x. grid e x \<and> 0 \<le> x) xs" and "grid e acc" and "0 \<le> acc"
    and "acc + sum_list xs \<le> 2 powi (e + 53)" and "- 1074 \<le> e" and "e \<le> 0"
  shows "sum_loop (Fin acc) 0 (map Fin xs) = Fin (acc + sum_list xs)"
  using assms(1-4)
proof (induction xs arbitrary: acc)
  case Nil
  then show ?case by simp
next
  case (Cons x xs)
  have "0 \<le> sum_list xs" using Cons.prems(1) by (intro sum_list_nonneg) (auto simp: list_all_iff)
  then have b: "acc + x \<le> 2 powi (e + 53)" "acc \<le> 2 powi (e + 53)" "x \<le> 2 powi (e + 53)"
    using Cons.prems by auto
  have t: "rnd64 (acc + x) = Fin (acc + x)"
    using rnd64_grid [OF grid_plus, of e acc x] Cons.prems b(1) assms(5,6) by simp
  have d: "Fin acc - Fin (acc + x) + Fin x = 0" "Fin x - Fin (acc + x) + Fin acc = 0"
    using rnd64_grid [OF grid_minus, of e x] rnd64_grid [OF grid_minus, of e acc]
      Cons.prems b(2,3) assms(5,6) by (simp_all add: minus_pyfloat_def)
  have "(0 :: pyfloat) + 0 = 0" by (simp add: zero_pyfloat_def)
  then have "sum_loop (Fin acc) 0 (map Fin (x # xs)) = sum_loop (Fin (acc + x)) 0 (map Fin xs)"
    using d by (simp add: Let_def t)
  then show ?case using Cons.IH [of "acc + x"] Cons.prems by (simp add: grid_plus add.assoc)
qed

lemma py_sum_exact:
  assumes "list_all (\<lambda>x. grid e x \<and> 0 \<le> x) xs" and "sum_list xs \<le> 2 powi (e + 53)"
    and "- 1074 \<le> e" and "e \<le> 0"
  shows "py_sum (map Fin xs) = Fin (sum_list xs)"
proof (cases xs)
  case Nil
  then show ?thesis by (simp add: zero_pyfloat_def)
next
  case (Cons x ys)
  have "0 \<le> sum_list ys" using assms(1) Cons by (intro sum_list_nonneg) (auto simp: list_all_iff)
  then have "x \<le> 2 powi (e + 53)" using assms(2) Cons by simp
  then have "0 + Fin x = Fin x"
    using rnd64_grid [of e x] assms Cons by (simp add: zero_pyfloat_def)
  then show ?thesis using sum_loop_exact [of e ys x] assms Cons by simp
qed


subsection \<open>The engine's projections are the account after the order\<close>

definition position_worth :: "trade_intent \<Rightarrow> holding list \<Rightarrow> rat" where
  "position_worth t hs = (case find (held_for t) hs of Some h \<Rightarrow> holding_worth h | None \<Rightarrow> 0)"

definition held_quantity :: "trade_intent \<Rightarrow> holding list \<Rightarrow> rat" where
  "held_quantity t hs = (case find (held_for t) hs of Some h \<Rightarrow> hg_quantity h | None \<Rightarrow> 0)"

lemma held_for_holding_of [simp]:
  "held_for t (holding_of p) \<longleftrightarrow> pp_market p = ti_market t \<and> pp_symbol p = ti_symbol t"
  by (simp add: held_for_def holding_of_def)

lemma holding_of_simps [simp]:
  "hg_market (holding_of p) = pp_market p" "hg_symbol (holding_of p) = pp_symbol p"
  "hg_quantity (holding_of p) = exact_of (pp_signed_quantity p)"
  "hg_price (holding_of p) = exact_of (pp_mark_price p)"
  by (simp_all add: holding_of_def)

lemma worth_nonneg [simp]: "0 \<le> holding_worth h"
  by (simp add: holding_worth_def)

lemma exposure_simps [simp]:
  "gross_exposure [] = 0" "gross_exposure (h # hs) = holding_worth h + gross_exposure hs"
  "gross_exposure (hs @ hs') = gross_exposure hs + gross_exposure hs'"
  by (simp_all add: gross_exposure_def)

lemma exposure_nonneg [simp]: "0 \<le> gross_exposure hs"
  by (induction hs) auto

lemma exposure_filter_map_le: "gross_exposure (map f (filter P xs)) \<le> gross_exposure (map f xs)"
  by (induction xs) (auto intro: add_increasing)

lemma exposure_filter_le: "gross_exposure (filter P hs) \<le> gross_exposure hs"
  using exposure_filter_map_le [of id] by simp

lemma worth_le_exposure: "h \<in> set hs \<Longrightarrow> holding_worth h \<le> gross_exposure hs"
  by (induction hs) (auto intro: add_increasing)

text \<open>The account and the engine's target, split at the holding the order moves.\<close>

lemma target_split:
  obtains (held) xs p ys where "ps_positions s = xs @ p # ys" and "intent_target t s = Some p"
      and "pp_market p = ti_market t" and "pp_symbol p = ti_symbol t"
      and "list_all (\<lambda>p. \<not> held_for t (holding_of p)) xs"
    | (free) "intent_target t s = None"
      and "list_all (\<lambda>p. \<not> held_for t (holding_of p)) (ps_positions s)"
proof (cases "intent_target t s")
  case None
  then show ?thesis using free by (simp add: intent_target_def find_None_iff list_all_iff)
next
  case (Some p)
  then obtain i where "i < length (ps_positions s)" "p = ps_positions s ! i"
    "pp_market p = ti_market t" "pp_symbol p = ti_symbol t"
    "\<And>j. j < i \<Longrightarrow> \<not> held_for t (holding_of (ps_positions s ! j))"
    by (auto simp: intent_target_def find_Some_iff)
  moreover from this have "list_all (\<lambda>p. \<not> held_for t (holding_of p)) (take i (ps_positions s))"
    by (auto simp: list_all_length)
  ultimately show ?thesis using held Some id_take_nth_drop by metis
qed

lemma after_order_skip:
  "list_all (\<lambda>h. \<not> held_for t h) hs \<Longrightarrow> after_order t (hs @ hs') = hs @ after_order t hs'"
  by (induction hs) auto

lemma find_in_set: "find P hs = Some h \<Longrightarrow> h \<in> set hs \<and> P h"
  by (auto simp: find_Some_iff)

lemma find_skip: "list_all (\<lambda>h. \<not> P h) hs \<Longrightarrow> find P (hs @ hs') = find P hs'"
  by (induction hs) auto

lemma finite_gross:
  assumes "isfinite (pp_signed_quantity p)" and "isfinite (gross_notional p)"
  obtains q m where "pp_signed_quantity p = Fin q" and "pp_mark_price p = Fin m"
proof -
  obtain q where q: "pp_signed_quantity p = Fin q" using assms(1) by (auto simp: isfinite_iff)
  have "isfinite (pp_mark_price p)"
    using assms(2) q by (cases "pp_mark_price p") (auto simp: gross_notional_def isfinite_iff split: if_splits)
  then show ?thesis using that q by (auto simp: isfinite_iff)
qed

abbreviation account_of :: "portfolio_snapshot \<Rightarrow> holding list" where
  "account_of s \<equiv> map holding_of (ps_positions s)"

lemma exact_amountsD:
  assumes "exact_amounts a b t hs"
  shows "a + b \<le> 0" "- 1074 \<le> a + b" "- 1074 \<le> a" "a \<le> 0"
    and "\<And>h. h \<in> set hs \<Longrightarrow> grid a (hg_quantity h) \<and> grid b (hg_price h)"
    and "grid a (exact_of (ti_quantity t))" "grid b (exact_of (ti_reference_price t))"
    and "gross_exposure hs \<le> 2 powi (a + b + 53)" "gross_exposure (after_order t hs) \<le> 2 powi (a + b + 53)"
    and "\<bar>exact_of (ti_quantity t) * exact_of (ti_reference_price t)\<bar> \<le> 2 powi (a + b + 53)"
    and "sum_list (map (\<lambda>h. \<bar>hg_quantity h\<bar>) hs) + \<bar>exact_of (ti_quantity t)\<bar> \<le> 2 powi (a + 53)"
  using assms by (auto simp: exact_amounts_def list_all_iff)

lemma gross_notional_exact:
  assumes "exact_amounts a b t (account_of s)" and "finite_positions s" and "p \<in> set (ps_positions s)"
  shows "gross_notional p = Fin (holding_worth (holding_of p))" and "grid (a + b) (holding_worth (holding_of p))"
proof -
  note ex = exact_amountsD [OF assms(1)]
  obtain q m where p: "pp_signed_quantity p = Fin q" "pp_mark_price p = Fin m"
    by (rule finite_gross [of p]) (use assms(2,3) in \<open>auto simp: finite_positions_def list_all_iff\<close>)
  have h: "holding_of p \<in> set (account_of s)" using assms(3) by simp
  have "grid a q" "grid b m" using ex(5) [OF h] p by auto
  then have g: "grid (a + b) (q * m)" by (rule grid_mult)
  then show "grid (a + b) (holding_worth (holding_of p))" by (simp add: holding_worth_def p grid_abs)
  have "\<bar>q * m\<bar> \<le> 2 powi (a + b + 53)"
    using worth_le_exposure [OF h] ex(8) by (simp add: holding_worth_def p)
  then show "gross_notional p = Fin (holding_worth (holding_of p))"
    using rnd64_grid [OF g] ex(1,2) by (simp add: gross_notional_def holding_worth_def p)
qed

lemma gross_sum_exact:
  assumes "exact_amounts a b t (account_of s)" and "finite_positions s"
  shows "py_sum (map gross_notional (filter P (ps_positions s)))
     = Fin (gross_exposure (map holding_of (filter P (ps_positions s))))"
proof -
  note ex = exact_amountsD [OF assms(1)]
  let ?ps = "filter P (ps_positions s)"
  have le: "gross_exposure (map holding_of ?ps) \<le> gross_exposure (account_of s)"
    using exposure_filter_map_le .
  have "map gross_notional ?ps = map Fin (map (\<lambda>p. holding_worth (holding_of p)) ?ps)"
    using gross_notional_exact(1) [OF assms] by simp
  moreover have "py_sum (map Fin (map (\<lambda>p. holding_worth (holding_of p)) ?ps))
      = Fin (sum_list (map (\<lambda>p. holding_worth (holding_of p)) ?ps))"
    by (rule py_sum_exact [of "a + b"])
      (use gross_notional_exact(2) [OF assms] ex(1,2,8) le in \<open>auto simp: list_all_iff gross_exposure_def comp_def\<close>)
  ultimately have "py_sum (map gross_notional ?ps) = Fin (sum_list (map (\<lambda>p. holding_worth (holding_of p)) ?ps))"
    by (simp only:)
  then show ?thesis by (simp add: gross_exposure_def comp_def)
qed

lemma intent_delta_exact:
  assumes "trade_intent_post_init t = Inr t'"
  shows "intent_delta t = Fin (traded_quantity t)"
  using trade_intent_ok(2,3) [OF assms]
  by (cases "ti_action t") (auto simp: intent_delta_def traded_quantity_def)

lemma current_exact:
  assumes "exact_amounts a b t (account_of s)" and "finite_positions s"
  shows "current_signed t s = Fin (held_quantity t (account_of s))"
    and "current_notional t s = Fin (position_worth t (account_of s))"
proof -
  have "current_signed t s = Fin (held_quantity t (account_of s))
     \<and> current_notional t s = Fin (position_worth t (account_of s))"
  proof (cases rule: target_split [of s t])
    case (held xs p ys)
    have "p \<in> set (ps_positions s)" using held(1) by simp
    moreover have "list_all (\<lambda>h. \<not> held_for t h) (map holding_of xs)"
      using held(5) by (simp add: list_all_iff)
    then have "find (held_for t) (account_of s) = Some (holding_of p)"
      using held(1,3,4) by (simp add: find_skip)
    moreover have "isfinite (pp_signed_quantity p)"
      using \<open>p \<in> set (ps_positions s)\<close> assms(2) by (simp add: finite_positions_def list_all_iff)
    ultimately show ?thesis using gross_notional_exact(1) [OF assms] held(2)
      by (auto simp: current_signed_def current_notional_def position_worth_def held_quantity_def isfinite_iff)
  next
    case free
    then have "find (held_for t) (account_of s) = None" by (auto simp: find_None_iff list_all_iff)
    then show ?thesis using free(1)
      by (simp add: current_signed_def current_notional_def position_worth_def held_quantity_def zero_pyfloat_def)
  qed
  then show "current_signed t s = Fin (held_quantity t (account_of s))"
    and "current_notional t s = Fin (position_worth t (account_of s))" by auto
qed

text \<open>What the order does to a list of holdings, and what that changes.\<close>

lemma after_order_effect:
  "position_worth t (after_order t hs) = \<bar>(held_quantity t hs + traded_quantity t) * exact_of (ti_reference_price t)\<bar>"
    "gross_exposure (after_order t hs)
      = gross_exposure hs - position_worth t hs + position_worth t (after_order t hs)"
    "gross_exposure (filter (\<lambda>h. hg_market h = ti_market t) (after_order t hs))
      = gross_exposure (filter (\<lambda>h. hg_market h = ti_market t) hs) - position_worth t hs
        + position_worth t (after_order t hs)"
    "open_count (after_order t hs)
      = open_count hs - (if held_quantity t hs = 0 then 0 else 1) + (if held_quantity t hs + traded_quantity t = 0 then 0 else 1)"
    "\<bar>held_quantity t hs\<bar> \<le> sum_list (map (\<lambda>h. \<bar>hg_quantity h\<bar>) hs)"
  by (induction hs)
    (auto simp: position_worth_def holding_worth_def held_quantity_def held_for_def open_count_def
      intro: add_increasing split: option.splits)

lemma projected_exact:
  assumes "exact_amounts a b t (account_of s)" and "finite_positions s" and "trade_intent_post_init t = Inr t'"
  shows "order_notional t = Fin (exact_of (ti_quantity t) * exact_of (ti_reference_price t))"
    and "projected_signed t s = Fin (held_quantity t (account_of s) + traded_quantity t)"
    and "projected_notional t s = Fin (position_worth t (after_order t (account_of s)))"
    and "projected_total t s = Fin (gross_exposure (after_order t (account_of s)))"
    and "projected_market t s
      = Fin (gross_exposure (filter (\<lambda>h. hg_market h = ti_market t) (after_order t (account_of s))))"
proof -
  note ex = exact_amountsD [OF assms(1)]
  let ?hs = "account_of s"
  let ?m = "\<lambda>hs. filter (\<lambda>h. hg_market h = ti_market t) hs"
  obtain q p where t: "ti_quantity t = Fin q" "0 < q" "ti_reference_price t = Fin p"
    using trade_intent_ok(3) [OF assms(3)] by auto
  show "order_notional t = Fin (exact_of (ti_quantity t) * exact_of (ti_reference_price t))"
    using rnd64_grid [OF grid_mult [OF ex(6,7)]] ex(1,2,10) by (simp add: order_notional_def t)
  have tr: "\<bar>traded_quantity t\<bar> = \<bar>exact_of (ti_quantity t)\<bar>" "grid a (traded_quantity t)"
    using ex(6) by (auto simp: traded_quantity_def grid_minus split: advisory_action.splits)
  have "grid a (held_quantity t ?hs)"
    using ex(5) by (auto simp del: set_map simp: held_quantity_def dest: find_in_set split: option.splits)
  then have g: "grid a (held_quantity t ?hs + traded_quantity t)" using tr(2) by (rule grid_plus)
  have "\<bar>held_quantity t ?hs + traded_quantity t\<bar> \<le> 2 powi (a + 53)"
    using after_order_effect(5) [of t ?hs] ex(11) tr(1) by linarith
  then show signed: "projected_signed t s = Fin (held_quantity t ?hs + traded_quantity t)"
    using rnd64_grid [OF g] ex(3,4)
    by (simp add: projected_signed_def current_exact [OF assms(1,2)] intent_delta_exact [OF assms(3)])
  have pw: "position_worth t (after_order t ?hs) \<le> gross_exposure (after_order t ?hs)"
    using worth_le_exposure
    by (auto simp: position_worth_def dest: find_in_set split: option.splits)
  then have "\<bar>(held_quantity t ?hs + traded_quantity t) * exact_of (ti_reference_price t)\<bar> \<le> 2 powi (a + b + 53)"
    using after_order_effect(1) [of t ?hs] ex(9) by linarith
  then show notional: "projected_notional t s = Fin (position_worth t (after_order t ?hs))"
    using rnd64_grid [OF grid_mult [OF g ex(7)]] ex(1,2)
    by (simp add: projected_notional_def signed t after_order_effect(1))
  have step: "Fin x - Fin y + Fin z = Fin (x - y + z)"
    if "grid (a + b) x" "grid (a + b) y" "grid (a + b) z" "0 \<le> y" "y \<le> x" "x \<le> 2 powi (a + b + 53)"
      "0 \<le> x - y + z" "x - y + z \<le> 2 powi (a + b + 53)" for x y z
    using rnd64_grid [OF grid_diff, of "a + b" x y] rnd64_grid [OF grid_plus [OF grid_diff], of "a + b" x y z]
      that ex(1,2) by (simp add: minus_pyfloat_def)
  have ge: "grid (a + b) (gross_exposure (map holding_of (filter P (ps_positions s))))" for P
    unfolding gross_exposure_def
    by (rule grid_sum_list) (use gross_notional_exact(2) [OF assms(1,2)] in \<open>auto simp: list_all_iff\<close>)
  have gw: "grid (a + b) (position_worth t ?hs)"
    using gross_notional_exact(2) [OF assms(1,2)]
    by (auto simp: position_worth_def dest!: find_in_set split: option.splits)
  have gp: "grid (a + b) (position_worth t (after_order t ?hs))"
    unfolding after_order_effect(1) by (intro grid_abs grid_mult g ex(7))
  have fm: "?m ?hs = map holding_of (filter (\<lambda>p. pp_market p = ti_market t) (ps_positions s))"
    by (simp add: filter_map comp_def)
  have le: "position_worth t ?hs \<le> gross_exposure (?m ?hs)" "gross_exposure (?m hs) \<le> gross_exposure hs" for hs
    by (auto simp del: set_map simp: position_worth_def exposure_filter_le held_for_def
        intro!: worth_le_exposure dest!: find_in_set split: option.splits)
  have nn: "0 \<le> position_worth t hs" for hs by (simp add: position_worth_def split: option.splits)
  have total: "Fin (gross_exposure ?hs) - Fin (position_worth t ?hs) + Fin (position_worth t (after_order t ?hs))
      = Fin (gross_exposure (after_order t ?hs))"
    unfolding after_order_effect(2)
    by (rule step) (use ge [of "\<lambda>_. True"] gw gp nn le ex(8,9) after_order_effect(2) [of t ?hs]
        order.trans [OF le(1) le(2)] in simp_all)
  have market: "Fin (gross_exposure (?m ?hs)) - Fin (position_worth t ?hs)
        + Fin (position_worth t (after_order t ?hs)) = Fin (gross_exposure (?m (after_order t ?hs)))"
    unfolding after_order_effect(3)
    by (rule step) (use ge gw gp nn le(1) order.trans [OF le(2) ex(8)] order.trans [OF le(2) ex(9)]
        after_order_effect(3) [of t ?hs] in \<open>simp_all add: fm\<close>)
  show "projected_total t s = Fin (gross_exposure (after_order t ?hs))"
    using gross_sum_exact [OF assms(1,2), of "\<lambda>_. True"] total
    by (simp add: projected_total_def current_exact [OF assms(1,2)] notional)
  show "projected_market t s = Fin (gross_exposure (?m (after_order t ?hs)))"
    using gross_sum_exact [OF assms(1,2)] market
    by (simp add: projected_market_def current_exact [OF assms(1,2)] notional fm)
qed

lemma opens_new_exact:
  assumes "exact_amounts a b t (account_of s)" and "finite_positions s" and "trade_intent_post_init t = Inr t'"
  shows "opens_new t s \<longleftrightarrow> open_count (account_of s) < open_count (after_order t (account_of s))"
    and "existing_open s = open_count (account_of s)"
proof -
  have "\<forall>p \<in> set (ps_positions s). isfinite (pp_signed_quantity p)"
    using assms(2) by (simp add: finite_positions_def list_all_iff)
  then show "existing_open s = open_count (account_of s)"
    unfolding existing_open_def open_count_def
    by (induction "ps_positions s") (auto simp: filter_map comp_def isfinite_iff zero_pyfloat_def
        intro!: filter_cong arg_cong [where f = length])
  show "opens_new t s \<longleftrightarrow> open_count (account_of s) < open_count (after_order t (account_of s))"
    unfolding opens_new_def current_exact [OF assms(1,2)] projected_exact [OF assms] after_order_effect(4)
    by (simp add: zero_pyfloat_def)
qed

text \<open>
  The gates of an entry, on finite positions: none of the compared floats is NaN, so each
  gate that does not reject has its quantity within the limit.
\<close>

lemma entry_gates:
  assumes "evaluate l t a s (Aware now) = Inr d" and "ps_captured_at s = Aware captured"
    and "trade_intent_post_init t = Inr t" and "risk_limits_post_init l = Inr l"
    and "portfolio_snapshot_post_init s = Inr s" and "finite_positions s"
  shows "approved d \<longleftrightarrow>
      sa_approval_id a = ti_approval_id t \<and> sa_identity a = ti_identity t \<and> is_current a now
    \<and> ps_account_id s = ti_account_id t
    \<and> 0 \<le> total_seconds (now - captured)
    \<and> total_seconds (now - captured) \<le> Fin (of_int (rl_max_snapshot_age_seconds l))
    \<and> - rl_max_daily_loss l < ps_realized_pnl_today s
    \<and> order_notional t \<le> rl_max_order_notional l
    \<and> projected_notional t s \<le> rl_max_position_notional l
    \<and> projected_total t s \<le> rl_max_total_gross_exposure l
    \<and> projected_market t s \<le> rl_max_market_gross_exposure l
    \<and> \<not> (opens_new t s \<and> rl_max_open_positions l \<le> existing_open s)"
proof -
  note lim = risk_limits_ok [OF assms(4)]
  have iff: "approved d \<longleftrightarrow> entry_reasons l t a s now captured = []"
    using evaluate_Inr [OF assms(1)] assms(2) by (metis datetime.inject(2))
  have pnl: "\<not> ps_realized_pnl_today s \<le> - rl_max_daily_loss l
      \<longleftrightarrow> - rl_max_daily_loss l < ps_realized_pnl_today s"
    using assms(4,5) by (auto simp: portfolio_snapshot_post_init_def risk_limits_post_init_def
        isfinite_iff split: if_splits)
  have ord: "\<not> rl_max_order_notional l < order_notional t \<longleftrightarrow> order_notional t \<le> rl_max_order_notional l"
    using order_notional_not_NaN [OF assms(3)] lim(1) by (intro float_not_less_finite)
  have pos: "\<not> rl_max_position_notional l < projected_notional t s
      \<longleftrightarrow> projected_notional t s \<le> rl_max_position_notional l"
    using projected_notional_not_NaN(1) [OF assms(6,3)] lim(2) by (intro float_not_less_finite)
  show ?thesis
  proof (cases "rl_max_position_notional l < projected_notional t s")
    case True
    then show ?thesis unfolding iff entry_reasons_Nil using pos by blast
  next
    case False
    show ?thesis
      unfolding iff entry_reasons_Nil stale_reasons_Nil pnl ord pos exposure_gates [OF assms(6,3,4) False]
      by blast
  qed
qed

section \<open>Example data\<close>

definition ex_intent :: trade_intent where
  "ex_intent = \<lparr>ti_intent_id = ''intent-1'', ti_market = NSE, ti_account_id = ''acc'',
     ti_symbol = ''RELIANCE'', ti_action = BUY, ti_quantity = Fin 2, ti_reference_price = Fin 100,
     ti_event_time = Aware 20, ti_candidate_id = ''cand-1'', ti_approval_id = ''approval-1'',
     ti_identity = ex_identity, ti_gold_snapshot_ids = [''gold-1''], ti_agent_evidence_id = None\<rparr>"

definition ex_limits :: risk_limits where
  "ex_limits = \<lparr>rl_max_order_notional = Fin 1000, rl_max_position_notional = Fin 1000,
     rl_max_market_gross_exposure = Fin 2000, rl_max_total_gross_exposure = Fin 3000,
     rl_max_daily_loss = Fin 50, rl_max_open_positions = 3, rl_max_snapshot_age_seconds = 30\<rparr>"

definition ex_position :: portfolio_position where
  "ex_position = \<lparr>pp_market = NSE, pp_account_id = ''acc'', pp_symbol = ''RELIANCE'',
     pp_signed_quantity = Fin 3, pp_mark_price = Fin 100\<rparr>"

definition ex_portfolio :: portfolio_snapshot where
  "ex_portfolio = \<lparr>ps_snapshot_id = ''snap-1'', ps_account_id = ''acc'', ps_equity = Fin 5000,
     ps_realized_pnl_today = Fin 0, ps_positions = [ex_position], ps_captured_at = Aware 20\<rparr>"

lemmas ex_risk_defs = ex_intent_def ex_limits_def ex_position_def ex_portfolio_def

lemma ex_intent_ok: "trade_intent_post_init ex_intent = Inr ex_intent"
  by (simp add: trade_intent_post_init_def ex_intent_def ex_identity_def)

lemma ex_limits_ok: "risk_limits_post_init ex_limits = Inr ex_limits"
  by (simp add: risk_limits_post_init_def ex_limits_def)

lemma ex_portfolio_finite: "finite_positions ex_portfolio"
  by (simp add: finite_positions_def ex_portfolio_def ex_position_def gross_notional_def)

section \<open>Properties\<close>

text \<open>
  C2: Entry decisions, against the account they lead to.  Take a constructed intent,
  constructed limits, a portfolio of finite positions, and amounts that need no rounding
  (\<open>exact_amounts\<close>: multiples of two fixed powers of two, 53 bits at most).  The engine
  approves exactly when the approval is the intent's own and current, the account matches,
  the snapshot is neither from the future nor too old, the daily loss limit is not reached,
  the order's value is within its limit, and the account after the order (the holding of
  its symbol moved up by a buy and down by a sell, and valued at the reference price) keeps
  every limit in exact arithmetic: the value of that holding, the gross exposure of the
  account, the gross exposure of the intent's market, and the number of open holdings
  unless the order opens none.
\<close>

theorem evaluate_approves_iff_within_limits:
  assumes "evaluate l t a s (Aware now) = Inr d" and "ps_captured_at s = Aware captured"
    and "trade_intent_post_init t = Inr t" and "risk_limits_post_init l = Inr l"
    and "portfolio_snapshot_post_init s = Inr s" and "finite_positions s"
    and "before = map holding_of (ps_positions s)" and "after = after_order t before"
    and "exact_amounts i j t before"
  shows "approved d \<longleftrightarrow>
      sa_approval_id a = ti_approval_id t \<and> sa_identity a = ti_identity t \<and> is_current a now
    \<and> ps_account_id s = ti_account_id t
    \<and> 0 \<le> total_seconds (now - captured)
    \<and> total_seconds (now - captured) \<le> Fin (of_int (rl_max_snapshot_age_seconds l))
    \<and> - rl_max_daily_loss l < ps_realized_pnl_today s
    \<and> Fin (exact_of (ti_quantity t) * exact_of (ti_reference_price t)) \<le> rl_max_order_notional l
    \<and> Fin (position_worth t after) \<le> rl_max_position_notional l
    \<and> Fin (gross_exposure after) \<le> rl_max_total_gross_exposure l
    \<and> Fin (gross_exposure (filter (\<lambda>h. hg_market h = ti_market t) after)) \<le> rl_max_market_gross_exposure l
    \<and> (open_count after \<le> open_count before \<or> open_count after \<le> rl_max_open_positions l)"
proof -
  note ex = assms(9) [unfolded assms(7)]
  have "opens_new t s \<longrightarrow> open_count after = existing_open s + 1"
    unfolding assms(7,8) opens_new_exact [OF ex assms(6,3)] after_order_effect(4) by simp
  then have n: "\<not> (opens_new t s \<and> rl_max_open_positions l \<le> existing_open s)
      \<longleftrightarrow> open_count after \<le> open_count before \<or> open_count after \<le> rl_max_open_positions l"
    using opens_new_exact [OF ex assms(6,3)] unfolding assms(7,8) by auto
  show ?thesis
    unfolding entry_gates [OF assms(1-6)] n projected_exact [OF ex assms(6,3)]
    by (simp only: assms(7,8))
qed

definition ex_coin :: portfolio_position where
  "ex_coin = \<lparr>pp_market = CRYPTO, pp_account_id = ''acc'', pp_symbol = ''BTC_USDT'',
     pp_signed_quantity = Fin (- 1), pp_mark_price = Fin 900\<rparr>"

definition ex_account :: portfolio_snapshot where
  "ex_account = ex_portfolio\<lparr>ps_positions := [ex_coin, ex_position]\<rparr>"

text \<open>
  Buying 2 shares at 100 on top of 3, beside a short coin worth 900: the market exposure
  becomes 500 and the total 1400.  The total limit 1400 approves, 1399 rejects.
\<close>

theorem evaluate_approves_iff_within_limits_witness:
  "(\<exists>d. evaluate (ex_limits\<lparr>rl_max_total_gross_exposure := Fin 1400\<rparr>) ex_intent ex_approval ex_account
       (Aware 20) = Inr d \<and> approved d)
   \<and> (\<exists>d. evaluate (ex_limits\<lparr>rl_max_total_gross_exposure := Fin 1399\<rparr>) ex_intent ex_approval ex_account
       (Aware 20) = Inr d \<and> \<not> approved d)"
proof -
  let ?l = "\<lambda>v. ex_limits\<lparr>rl_max_total_gross_exposure := Fin v\<rparr>"
  have c: "ps_captured_at ex_account = Aware 20" by (simp add: ex_account_def ex_portfolio_def)
  have ev: "\<exists>d. evaluate l ex_intent ex_approval ex_account (Aware 20) = Inr d" for l
    by (simp add: evaluate_def c)
  have s: "portfolio_snapshot_post_init ex_account = Inr ex_account"
    by (simp add: portfolio_snapshot_post_init_def ex_account_def ex_coin_def ex_risk_defs)
  have f: "finite_positions ex_account"
    by (simp add: finite_positions_def ex_account_def ex_coin_def ex_risk_defs gross_notional_def)
  have l: "risk_limits_post_init (?l v) = Inr (?l v)" if "0 < v" for v
    using that by (simp add: risk_limits_post_init_def ex_limits_def)
  have g: "grid 0 (of_int k)" for k unfolding grid_def by (rule exI [of _ k]) simp
  have x: "exact_amounts 0 0 ex_intent (map holding_of (ps_positions ex_account))"
    using g [of "- 1"] g [of 2] g [of 3] g [of 100] g [of 900]
    by (simp add: exact_amounts_def ex_account_def ex_coin_def ex_risk_defs holding_of_def held_for_def
        holding_worth_def traded_quantity_def)
  have iff: "approved d \<longleftrightarrow> 1400 \<le> v"
    if d: "evaluate (?l v) ex_intent ex_approval ex_account (Aware 20) = Inr d" and v: "0 < v" for d v
    unfolding evaluate_approves_iff_within_limits [OF d c ex_intent_ok l [OF v] s f refl refl x]
    by (simp add: ex_account_def ex_coin_def ex_risk_defs ex_approval_def is_current_def total_seconds_def
        holding_of_def held_for_def holding_worth_def traded_quantity_def position_worth_def open_count_def)
  show ?thesis using ev [of "?l 1400"] ev [of "?l 1399"] iff [of 1400] iff [of 1399] by auto
qed

text \<open>
  A NaN notional switches the exposure limits off.  When any position of the snapshot
  has a NaN notional (a NaN mark price is enough; the snapshot's own checks do not look at
  its positions), the total-exposure gate never rejects, whatever the other positions hold.
\<close>

theorem nan_notional_disables_total_limit:
  assumes "evaluate l t a s evaluated_at = Inr d" and "p \<in> set (ps_positions s)"
    and "pp_mark_price p = NaN"
  shows "''TOTAL_GROSS_EXPOSURE_LIMIT_EXCEEDED'' \<notin> set (rd_rejection_reasons d)"
proof -
  have "gross_notional p = NaN"
    using assms(3) by (cases "pp_signed_quantity p") (auto simp: gross_notional_def)
  then have "NaN \<in> set (map gross_notional (ps_positions s))" using assms(2) by force
  then have "projected_total t s = NaN"
    by (simp add: projected_total_def py_sum_NaN minus_pyfloat_def)
  then have "\<not> rl_max_total_gross_exposure l < projected_total t s"
    by (cases "rl_max_total_gross_exposure l") auto
  then have "''TOTAL_GROSS_EXPOSURE_LIMIT_EXCEEDED'' \<notin> set (entry_reasons l t a s now captured)"
    for now captured
    by (simp add: entry_reasons_def stale_reasons_def Let_def)
  then show ?thesis using evaluate_Inr [OF assms(1)] by metis
qed

definition ex_nan_portfolio :: portfolio_snapshot where
  "ex_nan_portfolio = ex_portfolio\<lparr>ps_positions :=
     [\<lparr>pp_market = FOREX, pp_account_id = ''acc'', pp_symbol = ''EUR_USD'',
       pp_signed_quantity = Fin 1, pp_mark_price = NaN\<rparr>,
      \<lparr>pp_market = CRYPTO, pp_account_id = ''acc'', pp_symbol = ''BTC_USDT'',
       pp_signed_quantity = Fin 1000000, pp_mark_price = Fin 1000000\<rparr>]\<rparr>"

theorem nan_notional_disables_total_limit_witness:
  "portfolio_snapshot_post_init ex_nan_portfolio = Inr ex_nan_portfolio
   \<and> (\<exists>d. evaluate ex_limits ex_intent ex_approval ex_nan_portfolio (Aware 20) = Inr d
        \<and> ''TOTAL_GROSS_EXPOSURE_LIMIT_EXCEEDED'' \<notin> set (rd_rejection_reasons d))"
proof
  show "portfolio_snapshot_post_init ex_nan_portfolio = Inr ex_nan_portfolio"
    by (simp add: portfolio_snapshot_post_init_def ex_nan_portfolio_def ex_portfolio_def)
  have "\<exists>d. evaluate ex_limits ex_intent ex_approval ex_nan_portfolio (Aware 20) = Inr d"
    by (simp add: evaluate_def ex_nan_portfolio_def ex_portfolio_def)
  then obtain d where d: "evaluate ex_limits ex_intent ex_approval ex_nan_portfolio (Aware 20) = Inr d" ..
  have "''TOTAL_GROSS_EXPOSURE_LIMIT_EXCEEDED'' \<notin> set (rd_rejection_reasons d)"
    by (rule nan_notional_disables_total_limit [OF d, of "hd (ps_positions ex_nan_portfolio)"])
      (simp_all add: ex_nan_portfolio_def)
  then show "\<exists>d. evaluate ex_limits ex_intent ex_approval ex_nan_portfolio (Aware 20) = Inr d
      \<and> ''TOTAL_GROSS_EXPOSURE_LIMIT_EXCEEDED'' \<notin> set (rd_rejection_reasons d)"
    using d by blast
qed

end
