(* ===== verification/Paper_Execution.thy ===== *)
theory Paper_Execution
  imports Risk
begin

text \<open>
  The in-memory paper ledger of src/src/nanodelta/paper/execution.py: immediate fills with
  slippage and fees, idempotent by key, signed positions, and atomic batches.  The engine's
  two dictionaries are one record; \<open>execute\<close> and \<open>execute_batch\<close> return the outcome and
  the engine after the call.
\<close>

section \<open>Data\<close>

datatype order_state = ORDER_FILLED

datatype position_state = POSITION_OPEN | POSITION_CLOSED

record execution_policy =
  xp_slippage_bps :: pyfloat
  xp_fee_bps :: pyfloat

definition execution_policy_post_init :: "execution_policy \<Rightarrow> execution_policy result" where
  "execution_policy_post_init p =
     (if \<not> (\<forall>v \<in> set [xp_slippage_bps p, xp_fee_bps p]. isfinite v \<and> 0 \<le> v)
        then Inl (ValueError ''slippage and fees must be finite and non-negative'')
      else Inr p)"

record paper_order =
  po_order_id :: string
  po_idempotency_key :: string
  po_decision_id :: string
  po_market :: market
  po_account_id :: string
  po_symbol :: string
  po_action :: advisory_action
  po_quantity :: pyfloat
  po_state :: order_state
  po_submitted_at :: instant

record paper_fill =
  pf_fill_id :: string
  pf_order_id :: string
  pf_quantity :: pyfloat
  pf_price :: pyfloat
  pf_fee :: pyfloat
  pf_filled_at :: instant

record paper_position =
  pn_position_id :: string
  pn_market :: market
  pn_account_id :: string
  pn_symbol :: string
  pn_signed_quantity :: pyfloat
  pn_average_entry_price :: pyfloat
  pn_realized_pnl :: pyfloat
  pn_total_fees :: pyfloat
  pn_opened_at :: instant
  pn_updated_at :: instant
  pn_closed_at :: "instant option"
  pn_state :: position_state
  pn_decision_ids :: "string list"
  pn_strategy_keys :: "string list"
  pn_approval_ids :: "string list"
  pn_gold_snapshot_ids :: "string list"
  pn_agent_evidence_ids :: "string list"

record execution_receipt =
  er_order :: paper_order
  er_fill :: paper_fill
  er_position :: paper_position

type_synonym position_key = "market \<times> string \<times> string"

record paper_engine =
  pe_policy :: execution_policy
  pe_receipts :: "(string, execution_receipt) dict"
  pe_positions :: "(position_key, paper_position) dict"

definition paper_engine_init :: "execution_policy \<Rightarrow> paper_engine" where
  "paper_engine_init policy = \<lparr>pe_policy = policy, pe_receipts = [], pe_positions = []\<rparr>"

section \<open>Applying a fill to a position\<close>

text \<open>\<open>(x,) if x else ()\<close> for an optional string: None and the empty string are falsy.\<close>

definition truthy_list :: "string option \<Rightarrow> string list" where
  "truthy_list x = (case x of None \<Rightarrow> [] | Some s \<Rightarrow> if s = [] then [] else [s])"

definition open_position :: "risk_decision \<Rightarrow> paper_fill \<Rightarrow> pyfloat \<Rightarrow> paper_position" where
  "open_position d f delta =
     (let t = rd_intent d in
      \<lparr>pn_position_id = stable_id [''paper-position'', market_value (ti_market t), ti_account_id t,
           ti_symbol t, pf_fill_id f],
       pn_market = ti_market t, pn_account_id = ti_account_id t, pn_symbol = ti_symbol t,
       pn_signed_quantity = delta, pn_average_entry_price = pf_price f, pn_realized_pnl = 0,
       pn_total_fees = pf_fee f, pn_opened_at = pf_filled_at f, pn_updated_at = pf_filled_at f,
       pn_closed_at = None, pn_state = POSITION_OPEN, pn_decision_ids = [rd_decision_id d],
       pn_strategy_keys = [identity_key (ti_identity t)], pn_approval_ids = [ti_approval_id t],
       pn_gold_snapshot_ids = ti_gold_snapshot_ids t,
       pn_agent_evidence_ids = truthy_list (ti_agent_evidence_id t)\<rparr>)"

text \<open>
  The average entry price and the realized profit after a fill of \<open>delta\<close> at \<open>price\<close> on an
  open position of quantity \<open>old\<close>.
\<close>

definition fill_accounting ::
  "pyfloat \<Rightarrow> pyfloat \<Rightarrow> pyfloat \<Rightarrow> pyfloat \<Rightarrow> pyfloat \<Rightarrow> (pyfloat \<times> pyfloat) result" where
  "fill_accounting old average realized delta price =
     (let new = old + delta in
      if 0 < old * delta then
        bind_r (py_div (\<bar>old\<bar> * average + \<bar>delta\<bar> * price) \<bar>new\<bar>) (\<lambda>a. Inr (a, realized))
      else
        (let closing = py_min \<bar>old\<bar> \<bar>delta\<bar>;
             realized' = realized
               + closing * (price - average) * (if 0 < old then Fin 1 else Fin (- 1));
             average' = (if py_eq new 0 then 0 else if old * new < 0 then price else average)
         in Inr (average', realized')))"

definition apply_fill ::
  "paper_position option \<Rightarrow> risk_decision \<Rightarrow> paper_fill \<Rightarrow> paper_position result" where
  "apply_fill current d f =
     (let t = rd_intent d;
          delta = (if ti_action t = BUY then pf_quantity f else - pf_quantity f)
      in case current of
           None \<Rightarrow> Inr (open_position d f delta)
         | Some c \<Rightarrow>
             if pn_state c = POSITION_CLOSED then Inr (open_position d f delta)
             else
               (let new = pn_signed_quantity c + delta in
                bind_r (fill_accounting (pn_signed_quantity c) (pn_average_entry_price c)
                          (pn_realized_pnl c) delta (pf_price f)) (\<lambda>(average, realized).
                Inr (c\<lparr>pn_signed_quantity := new,
                       pn_average_entry_price := average,
                       pn_realized_pnl := realized,
                       pn_total_fees := pn_total_fees c + pf_fee f,
                       pn_updated_at := pf_filled_at f,
                       pn_closed_at := (if py_eq new 0 then Some (pf_filled_at f) else None),
                       pn_state := (if py_eq new 0 then POSITION_CLOSED else POSITION_OPEN),
                       pn_decision_ids := pn_decision_ids c @ [rd_decision_id d],
                       pn_strategy_keys :=
                         dict_fromkeys (pn_strategy_keys c @ [identity_key (ti_identity t)]),
                       pn_approval_ids := dict_fromkeys (pn_approval_ids c @ [ti_approval_id t]),
                       pn_gold_snapshot_ids :=
                         dict_fromkeys (pn_gold_snapshot_ids c @ ti_gold_snapshot_ids t),
                       pn_agent_evidence_ids :=
                         dict_fromkeys (pn_agent_evidence_ids c
                           @ truthy_list (ti_agent_evidence_id t))\<rparr>))))"

section \<open>Execution\<close>

definition fill_price :: "execution_policy \<Rightarrow> trade_intent \<Rightarrow> pyfloat" where
  "fill_price p t =
     ti_reference_price t
       * (1 + fquot ((if ti_action t = BUY then Fin 1 else Fin (- 1)) * xp_slippage_bps p) (Fin 10000))"

definition fill_fee :: "execution_policy \<Rightarrow> trade_intent \<Rightarrow> pyfloat" where
  "fill_fee p t = fquot (ti_quantity t * fill_price p t * xp_fee_bps p) (Fin 10000)"

definition order_of :: "risk_decision \<Rightarrow> string \<Rightarrow> instant \<Rightarrow> paper_order" where
  "order_of d key now =
     (let t = rd_intent d in
      \<lparr>po_order_id = stable_id [''paper-order'', key, rd_decision_id d], po_idempotency_key = key,
       po_decision_id = rd_decision_id d, po_market = ti_market t, po_account_id = ti_account_id t,
       po_symbol = ti_symbol t, po_action = ti_action t, po_quantity = ti_quantity t,
       po_state = ORDER_FILLED, po_submitted_at = now\<rparr>)"

definition fill_of :: "execution_policy \<Rightarrow> risk_decision \<Rightarrow> string \<Rightarrow> instant \<Rightarrow> paper_fill" where
  "fill_of p d key now =
     (let t = rd_intent d; order_id = po_order_id (order_of d key now) in
      \<lparr>pf_fill_id = stable_id [''paper-fill'', order_id, isoformat now], pf_order_id = order_id,
       pf_quantity = ti_quantity t, pf_price = fill_price p t, pf_fee = fill_fee p t,
       pf_filled_at = now\<rparr>)"

definition position_key_of :: "trade_intent \<Rightarrow> position_key" where
  "position_key_of t = (ti_market t, ti_account_id t, ti_symbol t)"

definition execute :: "risk_decision \<Rightarrow> string \<Rightarrow> datetime \<Rightarrow> (paper_engine, execution_receipt) st" where
  "execute d key executed_at e =
     (if str_strip key = [] then (Inl (ValueError ''idempotency_key is required''), e)
      else case map_of (pe_receipts e) key of
        Some cached \<Rightarrow>
          if po_decision_id (er_order cached) \<noteq> rd_decision_id d
          then (Inl (ValueError ''idempotency key is already bound to another decision''), e)
          else (Inr cached, e)
      | None \<Rightarrow>
          if \<not> approved d
          then (Inl (PermissionError ''paper execution requires an approved risk decision''), e)
          else (case utc executed_at ''executed_at'' of
            Inl err \<Rightarrow> (Inl err, e)
          | Inr now \<Rightarrow>
              (let f = fill_of (pe_policy e) d key now;
                   pk = position_key_of (rd_intent d)
               in case apply_fill (map_of (pe_positions e) pk) d f of
                    Inl err \<Rightarrow> (Inl err, e)
                  | Inr position \<Rightarrow>
                      (let receipt = \<lparr>er_order = order_of d key now, er_fill = f,
                                      er_position = position\<rparr>
                       in (Inr receipt,
                           e\<lparr>pe_positions := AList.update pk position (pe_positions e),
                             pe_receipts := AList.update key receipt (pe_receipts e)\<rparr>)))))"

definition batch_key :: "string \<Rightarrow> risk_decision \<Rightarrow> string" where
  "batch_key batch_id d = batch_id @ '':'' @ rd_decision_id d"

definition execute_batch ::
  "risk_decision list \<Rightarrow> string \<Rightarrow> datetime \<Rightarrow> (paper_engine, execution_receipt list) st" where
  "execute_batch ds batch_id executed_at e =
     (if str_strip batch_id = [] then (Inl (ValueError ''batch_id is required''), e)
      else if \<exists>d \<in> set ds. \<not> approved d
        then (Inl (PermissionError ''every batch risk decision must be approved''), e)
      else if \<not> distinct (map (batch_key batch_id) ds)
        then (Inl (ValueError ''batch contains duplicate risk decisions''), e)
      else if \<exists>d \<in> set ds. (case map_of (pe_receipts e) (batch_key batch_id d) of
                None \<Rightarrow> False
              | Some cached \<Rightarrow> po_decision_id (er_order cached) \<noteq> rd_decision_id d)
        then (Inl (ValueError ''batch idempotency key is bound to another decision''), e)
      else case for_st (\<lambda>d. execute d (batch_key batch_id d) executed_at) ds e of
        (Inl err, e') \<Rightarrow>
          (Inl err, e'\<lparr>pe_receipts := pe_receipts e, pe_positions := pe_positions e\<rparr>)
      | (Inr receipts, e') \<Rightarrow> (Inr receipts, e'))"

definition engine_position :: "paper_engine \<Rightarrow> market \<Rightarrow> string \<Rightarrow> string \<Rightarrow> paper_position option" where
  "engine_position e m account symbol = map_of (pe_positions e) (m, account, symbol)"

section \<open>Outcomes of one execution\<close>

text \<open>
  \<open>execute\<close> raises and changes nothing, returns the receipt the key is bound to and
  changes nothing, or fills: it binds the key and replaces one position.
\<close>

definition filled :: "risk_decision \<Rightarrow> string \<Rightarrow> instant \<Rightarrow> paper_engine \<Rightarrow> execution_receipt
    \<Rightarrow> paper_engine \<Rightarrow> bool" where
  "filled d key now e r e' \<longleftrightarrow>
     map_of (pe_receipts e) key = None \<and> approved d
   \<and> er_order r = order_of d key now \<and> er_fill r = fill_of (pe_policy e) d key now
   \<and> apply_fill (map_of (pe_positions e) (position_key_of (rd_intent d))) d (er_fill r)
       = Inr (er_position r)
   \<and> e' = e\<lparr>pe_positions := AList.update (position_key_of (rd_intent d)) (er_position r) (pe_positions e),
            pe_receipts := AList.update key r (pe_receipts e)\<rparr>"

lemma execute_cases:
  assumes "execute d key executed_at e = (x, e')"
  obtains (raised) err where "x = Inl err" and "e' = e"
    | (replayed) r where "x = Inr r" and "e' = e" and "map_of (pe_receipts e) key = Some r"
        and "po_decision_id (er_order r) = rd_decision_id d" and "str_strip key \<noteq> []"
    | (fresh) r now where "x = Inr r" and "executed_at = Aware now" and "filled d key now e r e'"
        and "str_strip key \<noteq> []"
proof -
  note cases = assms [unfolded execute_def Let_def]
  show ?thesis
  proof (cases "str_strip key = []")
    case True
    then show ?thesis using cases raised by auto
  next
    case key: False
    show ?thesis
    proof (cases "map_of (pe_receipts e) key")
      case (Some r)
      then show ?thesis using cases key raised replayed by (auto split: if_splits)
    next
      case None
      then show ?thesis using cases key raised fresh
        by (fastforce simp: filled_def split: if_splits sum.splits)
    qed
  qed
qed

lemma order_of_simps [simp]:
  "po_decision_id (order_of d key now) = rd_decision_id d"
  "po_idempotency_key (order_of d key now) = key"
  "po_quantity (order_of d key now) = ti_quantity (rd_intent d)"
  "po_action (order_of d key now) = ti_action (rd_intent d)"
  by (simp_all add: order_of_def Let_def)

lemma fill_of_simps [simp]:
  "pf_quantity (fill_of p d key now) = ti_quantity (rd_intent d)"
  "pf_price (fill_of p d key now) = fill_price p (rd_intent d)"
  "pf_fee (fill_of p d key now) = fill_fee p (rd_intent d)"
  "pf_filled_at (fill_of p d key now) = now"
  "pf_order_id (fill_of p d key now) = po_order_id (order_of d key now)"
  by (simp_all add: fill_of_def Let_def)

lemma execute_Inr:
  assumes "execute d key executed_at e = (Inr r, e')"
  shows "map_of (pe_receipts e') key = Some r" and "po_decision_id (er_order r) = rd_decision_id d"
    and "str_strip key \<noteq> []"
  using assms by (cases rule: execute_cases; auto simp: filled_def)+

lemma execute_receipt_keeps: "keeps (\<lambda>e. map_of (pe_receipts e) k = Some r) (execute d key executed_at)"
  unfolding keeps_def
proof (intro allI impI)
  fix e :: paper_engine
  assume k: "map_of (pe_receipts e) k = Some r"
  obtain x e' where ex: "execute d key executed_at e = (x, e')" by fastforce
  then show "map_of (pe_receipts (snd (execute d key executed_at e))) k = Some r"
    using k by (cases rule: execute_cases [OF ex]) (auto simp: filled_def)
qed

lemma execute_policy_keeps: "keeps (\<lambda>e. pe_policy e = p) (execute d key executed_at)"
  unfolding keeps_def
proof (intro allI impI)
  fix e :: paper_engine
  assume "pe_policy e = p"
  moreover obtain x e' where ex: "execute d key executed_at e = (x, e')" by fastforce
  ultimately show "pe_policy (snd (execute d key executed_at e)) = p"
    by (cases rule: execute_cases [OF ex]) (auto simp: filled_def)
qed

section \<open>Batches and histories\<close>

abbreviation batch_loop ::
  "string \<Rightarrow> datetime \<Rightarrow> risk_decision list \<Rightarrow> (paper_engine, execution_receipt list) st" where
  "batch_loop batch_id executed_at \<equiv> for_st (\<lambda>d. execute d (batch_key batch_id d) executed_at)"

lemma execute_batch_cases:
  assumes "execute_batch ds batch_id executed_at e = (x, e')"
  obtains (raised) err where "x = Inl err" and "e' = e"
    | (completed) rs where "x = Inr rs" and "batch_loop batch_id executed_at ds e = (Inr rs, e')"
        and "list_all approved ds"
proof -
  have frame: "e1\<lparr>pe_receipts := pe_receipts e, pe_positions := pe_positions e\<rparr> = e"
    if "batch_loop batch_id executed_at ds e = (y, e1)" for y e1
  proof -
    have "keeps (\<lambda>e1. pe_policy e1 = pe_policy e) (batch_loop batch_id executed_at ds)"
      by (intro keeps_intros execute_policy_keeps)
    then have "pe_policy (snd (batch_loop batch_id executed_at ds e)) = pe_policy e"
      by (simp add: keeps_def)
    then show ?thesis using that by simp
  qed
  show ?thesis
    using assms frame raised completed
    by (auto simp: execute_batch_def list_all_iff split: if_splits prod.splits sum.splits)
qed

datatype engine_call =
    Execute risk_decision string datetime
  | Execute_Batch "risk_decision list" string datetime

fun engine_exec :: "engine_call \<Rightarrow> paper_engine \<Rightarrow> paper_engine" where
  "engine_exec (Execute d key t) e = snd (execute d key t e)"
| "engine_exec (Execute_Batch ds b t) e = snd (execute_batch ds b t e)"

fun engine_run :: "engine_call list \<Rightarrow> paper_engine \<Rightarrow> paper_engine" where
  "engine_run [] e = e"
| "engine_run (c # cs) e = engine_run cs (engine_exec c e)"

lemma engine_exec_invariant:
  assumes "\<And>d key t. d \<in> D \<Longrightarrow> keeps P (execute d key t)" and "P e"
    and "case c of Execute d _ _ \<Rightarrow> d \<in> D | Execute_Batch ds _ _ \<Rightarrow> set ds \<subseteq> D"
  shows "P (engine_exec c e)"
proof (cases c)
  case (Execute d key t)
  then show ?thesis using assms by (simp add: keeps_def)
next
  case (Execute_Batch ds b t)
  obtain x e' where x: "execute_batch ds b t e = (x, e')" by fastforce
  have "P e1" if "batch_loop b t ds' e0 = (y, e1)" "P e0" "set ds' \<subseteq> D" for ds' e0 y e1
    using that
  proof (induction ds' arbitrary: e0 y)
    case (Cons d ds')
    obtain z e2 where z: "execute d (batch_key b d) t e0 = (z, e2)" by fastforce
    have "P e2" using keepsD [OF assms(1) _ z] Cons.prems by simp
    then show ?case using Cons z
      by (auto simp: bind_st_def return_st_def split: sum.splits prod.splits)
  qed (simp add: return_st_def)
  then show ?thesis using x assms(2,3) Execute_Batch by (auto elim!: execute_batch_cases)
qed

lemma engine_run_keeps_receipt:
  "map_of (pe_receipts e) k = Some r \<Longrightarrow> map_of (pe_receipts (engine_run cs e)) k = Some r"
proof (induction cs arbitrary: e)
  case (Cons c cs)
  have "map_of (pe_receipts (engine_exec c e)) k = Some r"
    by (rule engine_exec_invariant [where D = UNIV])
      (auto intro: execute_receipt_keeps simp: Cons.prems split: engine_call.splits)
  then show ?case using Cons.IH by simp
qed simp

lemma batch_loop_receipts:
  assumes "batch_loop b t ds e = (Inr rs, e')"
  shows "length rs = length ds"
    and "i < length ds \<Longrightarrow> map_of (pe_receipts e') (batch_key b (ds ! i)) = Some (rs ! i)
           \<and> po_decision_id (er_order (rs ! i)) = rd_decision_id (ds ! i)"
proof -
  have "length rs = length ds \<and> (\<forall>i < length ds.
      map_of (pe_receipts e') (batch_key b (ds ! i)) = Some (rs ! i)
      \<and> po_decision_id (er_order (rs ! i)) = rd_decision_id (ds ! i))"
    using assms
  proof (induction ds arbitrary: e rs)
    case (Cons d ds)
    obtain r e1 rs' where s: "execute d (batch_key b d) t e = (Inr r, e1)"
      "batch_loop b t ds e1 = (Inr rs', e')" "rs = r # rs'"
      using Cons.prems by auto
    have "keeps (\<lambda>e. map_of (pe_receipts e) (batch_key b d) = Some r) (batch_loop b t ds)"
      by (intro keeps_intros execute_receipt_keeps)
    then have "map_of (pe_receipts (snd (batch_loop b t ds e1))) (batch_key b d) = Some r"
      using execute_Inr(1) [OF s(1)] by (simp add: keeps_def)
    then have "map_of (pe_receipts e') (batch_key b d) = Some r" using s(2) by simp
    then show ?case using Cons.IH [OF s(2)] execute_Inr(2) [OF s(1)] s(3)
      by (auto simp: nth_Cons split: nat.splits)
  qed simp
  then show "length rs = length ds"
    and "i < length ds \<Longrightarrow> map_of (pe_receipts e') (batch_key b (ds ! i)) = Some (rs ! i)
           \<and> po_decision_id (er_order (rs ! i)) = rd_decision_id (ds ! i)"
    by auto
qed


section \<open>Properties of execution\<close>

definition ex_execution_policy :: execution_policy where
  "ex_execution_policy = \<lparr>xp_slippage_bps = Fin 0, xp_fee_bps = Fin 0\<rparr>"

definition ex_decision :: "string \<Rightarrow> risk_decision" where
  "ex_decision i = \<lparr>rd_decision_id = i, rd_intent = ex_intent, rd_portfolio_snapshot_id = ''snap'',
     rd_state = RISK_APPROVED, rd_rejection_reasons = [], rd_evaluated_at = 20, rd_limits = ex_limits\<rparr>"

text \<open>
  C3: Execution is exactly-once per idempotency key.  After a call has returned a receipt
  for a key, and after any further calls, the same key with the same decision returns that
  receipt and leaves the ledger untouched, and the key with another decision is refused
  and leaves the ledger untouched.
\<close>

theorem execute_exactly_once:
  assumes "execute d key executed_at e = (Inr r, e')"
  shows "execute d key later (engine_run cs e') = (Inr r, engine_run cs e')
    \<and> (rd_decision_id d' \<noteq> rd_decision_id d \<longrightarrow>
         execute d' key later (engine_run cs e')
           = (Inl (ValueError ''idempotency key is already bound to another decision''),
              engine_run cs e'))"
  using engine_run_keeps_receipt [OF execute_Inr(1) [OF assms], of cs] execute_Inr(2,3) [OF assms]
  by (auto simp: execute_def)

lemma execute_fresh_returns:
  assumes "str_strip key \<noteq> []" and "map_of (pe_receipts e) key = None" and "approved d"
    and "map_of (pe_positions e) (position_key_of (rd_intent d)) = None"
  shows "\<exists>r e'. execute d key (Aware now) e = (Inr r, e')"
  using assms by (simp add: execute_def apply_fill_def Let_def)

theorem execute_exactly_once_witness:
  "\<exists>r e'. execute (ex_decision ''d1'') ''k'' (Aware 20) (paper_engine_init ex_execution_policy) = (Inr r, e')
     \<and> execute (ex_decision ''d1'') ''k'' (Aware 30) e' = (Inr r, e')"
proof -
  obtain r e' where
    ex: "execute (ex_decision ''d1'') ''k'' (Aware 20) (paper_engine_init ex_execution_policy) = (Inr r, e')"
    using execute_fresh_returns [of "''k''" "paper_engine_init ex_execution_policy" "ex_decision ''d1''" 20]
    by (auto simp: paper_engine_init_def ex_decision_def approved_def str_strip_def is_space_def)
  show ?thesis using execute_exactly_once [OF ex, of "Aware 30" "[]"] ex by auto
qed

text \<open>
  A decision that risk did not approve never changes the paper ledger, alone or in a
  batch with approved ones, and a batch that contains one is refused.
\<close>

theorem unapproved_never_executes:
  assumes "\<not> approved d" and "d \<in> set ds"
  shows "snd (execute d key executed_at e) = e
    \<and> snd (execute_batch ds batch_id executed_at e) = e
    \<and> (\<exists>err. fst (execute_batch ds batch_id executed_at e) = Inl err)"
proof -
  obtain x e' where ex: "execute d key executed_at e = (x, e')" by fastforce
  obtain y e'' where b: "execute_batch ds batch_id executed_at e = (y, e'')" by fastforce
  have "e' = e" using ex assms(1) by (cases rule: execute_cases [OF ex]) (auto simp: filled_def)
  moreover have "e'' = e \<and> (\<exists>err. y = Inl err)"
    using assms by (cases rule: execute_batch_cases [OF b]) (auto simp: list_all_iff)
  ultimately show ?thesis using ex b by simp
qed

theorem unapproved_never_executes_witness:
  "snd (execute ((ex_decision ''d1'')\<lparr>rd_state := RISK_REJECTED\<rparr>) ''k'' (Aware 20)
      (paper_engine_init ex_execution_policy)) = paper_engine_init ex_execution_policy"
  using unapproved_never_executes [of "(ex_decision ''d1'')\<lparr>rd_state := RISK_REJECTED\<rparr>"
      "[(ex_decision ''d1'')\<lparr>rd_state := RISK_REJECTED\<rparr>]"]
  by (simp add: approved_def)

lemma execute_batch_Inl:
  assumes "execute_batch ds batch_id executed_at e = (Inl err, e')"
  shows "e' = e"
  using assms by (cases rule: execute_batch_cases) auto

lemma execute_batch_Inr:
  assumes "execute_batch ds batch_id executed_at e = (Inr rs, e')"
  shows "list_all approved ds" and "length rs = length ds"
    and "map (\<lambda>r. po_decision_id (er_order r)) rs = map rd_decision_id ds"
    and "map (\<lambda>d. map_of (pe_receipts e') (batch_key batch_id d)) ds = map Some rs"
proof -
  have "batch_loop batch_id executed_at ds e = (Inr rs, e') \<and> list_all approved ds"
    using assms by (cases rule: execute_batch_cases) auto
  then show "list_all approved ds" and "length rs = length ds"
    and "map (\<lambda>r. po_decision_id (er_order r)) rs = map rd_decision_id ds"
    and "map (\<lambda>d. map_of (pe_receipts e') (batch_key batch_id d)) ds = map Some rs"
    using batch_loop_receipts by (auto simp: list_eq_iff_nth_eq)
qed

text \<open>
  A batch is all or nothing.  When \<open>execute_batch\<close> raises, the ledger is the one before
  the call, even if some fills were already applied; when it returns, every decision of the
  batch was approved and has its own receipt, in order, under the batch's key.
\<close>

theorem execute_batch_atomic:
  "case execute_batch ds batch_id executed_at e of
     (Inl err, e') \<Rightarrow> e' = e
   | (Inr rs, e') \<Rightarrow> list_all approved ds \<and> length rs = length ds
       \<and> map (\<lambda>r. po_decision_id (er_order r)) rs = map rd_decision_id ds
       \<and> map (\<lambda>d. map_of (pe_receipts e') (batch_key batch_id d)) ds = map Some rs"
  by (auto split: prod.splits sum.splits dest: execute_batch_Inl execute_batch_Inr)


section \<open>The position book\<close>

text \<open>
  \<open>position_ok k p\<close>: the position is filed under its own market, account and symbol, it is
  closed exactly when its quantity is zero, and exactly then has a closing time.
\<close>

definition position_ok :: "position_key \<Rightarrow> paper_position \<Rightarrow> bool" where
  "position_ok k p \<longleftrightarrow>
     k = (pn_market p, pn_account_id p, pn_symbol p)
   \<and> (pn_state p = POSITION_CLOSED \<longleftrightarrow> pn_signed_quantity p = 0)
   \<and> (pn_closed_at p = None \<longleftrightarrow> pn_state p = POSITION_OPEN)
   \<and> pn_decision_ids p \<noteq> [] \<and> distinct (pn_strategy_keys p) \<and> distinct (pn_approval_ids p)"

text \<open>
  \<open>replay_fills k rs\<close> is the reference for the position under \<open>k\<close>, computed from the orders and
  fills alone, never from the positions the receipts carry.  A fill adds its quantity when
  the order buys and takes it away when it sells.  A fill on a flat book starts a lot; later
  fills change the quantity, add their fee and are listed, until the quantity is zero again.
\<close>

record lot =
  lt_quantity :: pyfloat
  lt_fees :: pyfloat
  lt_opened :: instant
  lt_updated :: instant
  lt_decisions :: "string list"

definition order_key :: "execution_receipt \<Rightarrow> position_key" where
  "order_key r = (po_market (er_order r), po_account_id (er_order r), po_symbol (er_order r))"

definition signed_fill :: "execution_receipt \<Rightarrow> pyfloat" where
  "signed_fill r = (case po_action (er_order r) of
       SELL \<Rightarrow> - pf_quantity (er_fill r)
     | _ \<Rightarrow> pf_quantity (er_fill r))"

definition new_lot :: "execution_receipt \<Rightarrow> lot" where
  "new_lot r = \<lparr>lt_quantity = signed_fill r, lt_fees = pf_fee (er_fill r),
     lt_opened = pf_filled_at (er_fill r), lt_updated = pf_filled_at (er_fill r),
     lt_decisions = [po_decision_id (er_order r)]\<rparr>"

definition add_fill :: "lot option \<Rightarrow> execution_receipt \<Rightarrow> lot" where
  "add_fill x r = (case x of
       None \<Rightarrow> new_lot r
     | Some l \<Rightarrow>
         if lt_quantity l = 0 then new_lot r
         else l\<lparr>lt_quantity := lt_quantity l + signed_fill r, lt_fees := lt_fees l + pf_fee (er_fill r),
                lt_updated := pf_filled_at (er_fill r),
                lt_decisions := lt_decisions l @ [po_decision_id (er_order r)]\<rparr>)"

definition replay_fills :: "position_key \<Rightarrow> (string, execution_receipt) dict \<Rightarrow> lot option" where
  "replay_fills k rs = foldl (\<lambda>x (i, r). if order_key r = k then Some (add_fill x r) else x) None rs"

definition lot_of :: "paper_position \<Rightarrow> lot" where
  "lot_of p = \<lparr>lt_quantity = pn_signed_quantity p, lt_fees = pn_total_fees p, lt_opened = pn_opened_at p,
     lt_updated = pn_updated_at p, lt_decisions = pn_decision_ids p\<rparr>"

text \<open>What the orders of one side have filled under a key, in exact arithmetic.\<close>

definition quantity_filled ::
  "advisory_action \<Rightarrow> position_key \<Rightarrow> (string, execution_receipt) dict \<Rightarrow> rat" where
  "quantity_filled side k rs =
     sum_list (map (\<lambda>(i, r). exact_of (pf_quantity (er_fill r)))
       (filter (\<lambda>(i, r). order_key r = k \<and> po_action (er_order r) = side) rs))"

definition fill_ok :: "execution_receipt \<Rightarrow> bool" where
  "fill_ok r \<longleftrightarrow> po_action (er_order r) \<noteq> ABSTAIN
     \<and> isfinite (pf_quantity (er_fill r)) \<and> 0 < pf_quantity (er_fill r)"

definition receipt_ids :: "(string, execution_receipt) dict \<Rightarrow> string set" where
  "receipt_ids rs = (\<lambda>(k, r). po_decision_id (er_order r)) ` set rs"

definition book_inv :: "paper_engine \<Rightarrow> bool" where
  "book_inv e \<longleftrightarrow> dict_ok (pe_receipts e) \<and> dict_ok (pe_positions e)
     \<and> (\<forall>k. map_option lot_of (map_of (pe_positions e) k) = replay_fills k (pe_receipts e))
     \<and> (\<forall>(i, r) \<in> set (pe_receipts e). fill_ok r)
     \<and> (\<forall>(k, p) \<in> set (pe_positions e). position_ok k p
          \<and> set (pn_decision_ids p) \<subseteq> receipt_ids (pe_receipts e))"

lemma replay_fills_snoc:
  "replay_fills k (rs @ [(i, r)])
     = (if order_key r = k then Some (add_fill (replay_fills k rs) r) else replay_fills k rs)"
  by (simp add: replay_fills_def)

lemma quantity_filled_snoc:
  "quantity_filled side k (rs @ [(i, r)]) = quantity_filled side k rs
     + (if order_key r = k \<and> po_action (er_order r) = side then exact_of (pf_quantity (er_fill r)) else 0)"
  by (simp add: quantity_filled_def)

lemma quantity_filled_nonneg:
  "\<forall>(i, r) \<in> set rs. fill_ok r \<Longrightarrow> 0 \<le> quantity_filled side k rs"
  unfolding quantity_filled_def
  by (rule sum_list_nonneg) (auto simp: fill_ok_def isfinite_iff zero_pyfloat_def)

text \<open>
  When the quantities are multiples of a common power of two and their total needs at most 53
  bits, the replayed quantity is exactly what was bought less what was sold.
\<close>

lemma replay_quantity_exact:
  assumes "\<forall>(i, r) \<in> set rs. fill_ok r"
    and "\<forall>(i, r) \<in> set rs. order_key r = k \<longrightarrow> grid a (exact_of (pf_quantity (er_fill r)))"
    and "quantity_filled BUY k rs + quantity_filled SELL k rs \<le> 2 powi (a + 53)"
    and "- 1074 \<le> a" and "a \<le> 0"
  shows "(case replay_fills k rs of None \<Rightarrow> 0 | Some l \<Rightarrow> lt_quantity l)
      = Fin (quantity_filled BUY k rs - quantity_filled SELL k rs)
    \<and> grid a (quantity_filled BUY k rs - quantity_filled SELL k rs)"
  using assms(1-3)
proof (induction rs rule: rev_induct)
  case Nil
  show ?case by (simp add: replay_fills_def quantity_filled_def zero_pyfloat_def)
next
  case (snoc x rs)
  obtain i r where x: "x = (i, r)" by fastforce
  let ?n = "\<lambda>rs. quantity_filled BUY k rs - quantity_filled SELL k rs"
  have rs: "\<forall>(i, r) \<in> set rs. fill_ok r" using snoc.prems(1) by simp
  note nn = quantity_filled_nonneg [OF rs, of BUY k] quantity_filled_nonneg [OF rs, of SELL k]
  obtain q where r: "pf_quantity (er_fill r) = Fin q" "0 < q" "po_action (er_order r) \<noteq> ABSTAIN"
    using snoc.prems(1) x by (auto simp: fill_ok_def isfinite_iff zero_pyfloat_def)
  show ?case
  proof (cases "order_key r = k")
    case False
    then show ?thesis using snoc by (simp add: x replay_fills_snoc quantity_filled_snoc)
  next
    case True
    define dl where "dl = (if po_action (er_order r) = BUY then q else - q)"
    have sf: "signed_fill r = Fin dl"
      using r by (cases "po_action (er_order r)") (auto simp: signed_fill_def dl_def)
    have n: "?n (rs @ [x]) = ?n rs + dl"
      "quantity_filled BUY k (rs @ [x]) + quantity_filled SELL k (rs @ [x])
         = quantity_filled BUY k rs + quantity_filled SELL k rs + q"
      using r True by (cases "po_action (er_order r)"; simp add: x quantity_filled_snoc dl_def)+
    have IH: "(case replay_fills k rs of None \<Rightarrow> 0 | Some l \<Rightarrow> lt_quantity l) = Fin (?n rs)" "grid a (?n rs)"
      using snoc.IH [OF rs] snoc.prems(2,3) n(2) r(2) by auto
    have "grid a q" using snoc.prems(2) True r(1) by (simp add: x)
    then have "grid a dl" by (simp add: dl_def grid_minus)
    then have g: "grid a (?n rs + dl)" by (rule grid_plus [OF IH(2)])
    have "\<bar>?n rs + dl\<bar> \<le> 2 powi (a + 53)" using snoc.prems(3) n(2) nn r(2) by (auto simp: dl_def)
    then have sum: "Fin (?n rs) + Fin dl = Fin (?n rs + dl)" using rnd64_grid [OF g] assms(4,5) by simp
    have "lt_quantity (add_fill (replay_fills k rs) r) = Fin (?n rs + dl)"
    proof (cases "?n rs = 0")
      case True
      then show ?thesis using IH(1) sf
        by (auto simp: add_fill_def new_lot_def zero_pyfloat_def split: option.splits)
    next
      case False
      then show ?thesis using IH(1) sf sum
        by (auto simp: add_fill_def zero_pyfloat_def split: option.splits)
    qed
    then show ?thesis using g True n(1) by (simp add: x replay_fills_snoc)
  qed
qed

lemma receipt_ids_snoc: "receipt_ids (rs @ [(k, r)]) = insert (po_decision_id (er_order r)) (receipt_ids rs)"
  by (auto simp: receipt_ids_def)

text \<open>What one fill makes of a position, new or carried on.\<close>

lemma apply_fill_ok:
  assumes "apply_fill current d f = Inr p" and "pf_quantity f = ti_quantity (rd_intent d)"
    and "trade_intent_post_init (rd_intent d) = Inr t"
    and "\<And>c. current = Some c \<Longrightarrow> position_ok (position_key_of (rd_intent d)) c"
  shows "position_ok (position_key_of (rd_intent d)) p"
    and "set (pn_decision_ids p) \<subseteq>
      insert (rd_decision_id d) (case current of None \<Rightarrow> {} | Some c \<Rightarrow> set (pn_decision_ids c))"
proof -
  have q: "ti_quantity (rd_intent d) \<noteq> 0" using trade_intent_ok(3) [OF assms(3)] by auto
  have open_ok: "position_ok (position_key_of (rd_intent d)) (open_position d f delta)"
    if "delta \<noteq> 0" for delta
    using that by (simp add: position_ok_def open_position_def Let_def position_key_of_def)
  show "position_ok (position_key_of (rd_intent d)) p"
  proof (cases "current = None \<or> pn_state (the current) = POSITION_CLOSED")
    case True
    then show ?thesis using assms(1,2) q
      by (cases current) (auto simp: apply_fill_def Let_def split: if_splits intro!: open_ok)
  next
    case False
    then obtain c where "current = Some c" "pn_state c \<noteq> POSITION_CLOSED" by auto
    then show ?thesis using assms(1) assms(4) [of c]
      by (auto simp: apply_fill_def Let_def position_ok_def py_eq_iff split: if_splits)
  qed
  show "set (pn_decision_ids p) \<subseteq>
      insert (rd_decision_id d) (case current of None \<Rightarrow> {} | Some c \<Rightarrow> set (pn_decision_ids c))"
    using assms(1)
    by (auto simp: apply_fill_def Let_def open_position_def split: option.splits if_splits)
qed

lemma apply_fill_lot:
  assumes "apply_fill current d f = Inr p" and "ti_action (rd_intent d) \<noteq> ABSTAIN"
    and "\<And>c. current = Some c \<Longrightarrow> position_ok k c"
    and "po_action (er_order r) = ti_action (rd_intent d)"
    and "po_decision_id (er_order r) = rd_decision_id d" and "er_fill r = f"
  shows "lot_of p = add_fill (map_option lot_of current) r"
proof -
  have sf: "signed_fill r = (if ti_action (rd_intent d) = BUY then pf_quantity f else - pf_quantity f)"
    using assms(2,4,6) by (cases "ti_action (rd_intent d)") (auto simp: signed_fill_def)
  show ?thesis
    using assms(1) assms(3) [of "the current"] assms(5,6)
    by (cases current) (auto simp: apply_fill_def Let_def add_fill_def new_lot_def lot_of_def sf
        open_position_def position_ok_def split: if_splits)
qed

lemma replayed_bookD:
  assumes "book_inv e"
  shows "map_option lot_of (map_of (pe_positions e) k) = replay_fills k (pe_receipts e)"
    and "\<forall>(i, r) \<in> set (pe_receipts e). fill_ok r"
    and "map_of (pe_positions e) k = Some p \<Longrightarrow> position_ok k p"
  using assms map_of_SomeD [of "pe_positions e" k p] unfolding book_inv_def by (meson, meson, fast)

lemma filled_keeps_book:
  assumes "filled d key now e r e'" and "book_inv e" and "trade_intent_post_init (rd_intent d) = Inr t"
  shows "book_inv e'"
proof -
  let ?k = "position_key_of (rd_intent d)"
  note f = assms(1) [unfolded filled_def]
  note inv = assms(2) [unfolded book_inv_def]
  have cur: "position_ok ?k c" "set (pn_decision_ids c) \<subseteq> receipt_ids (pe_receipts e)"
    if "map_of (pe_positions e) ?k = Some c" for c
    using inv map_of_SomeD [OF that] by auto
  have "apply_fill (map_of (pe_positions e) ?k) d (er_fill r) = Inr (er_position r)"
    and "pf_quantity (er_fill r) = ti_quantity (rd_intent d)"
    using f by auto
  note ok = apply_fill_ok [OF this assms(3) cur(1)]
  have ids: "set (pn_decision_ids (er_position r)) \<subseteq> insert (rd_decision_id d) (receipt_ids (pe_receipts e))"
    using ok(2) cur(2) by (auto split: option.splits)
  note old = replayed_bookD(1) [OF assms(2)]
  have rk: "order_key r = ?k"
    using f by (simp add: order_key_def order_of_def Let_def position_key_of_def)
  have act: "ti_action (rd_intent d) \<noteq> ABSTAIN" using trade_intent_ok(2) [OF assms(3)] .
  have "lot_of (er_position r) = add_fill (map_option lot_of (map_of (pe_positions e) ?k)) r"
    by (rule apply_fill_lot [where k = ?k and d = d and f = "er_fill r"]) (use f act cur(1) in auto)
  then have lot: "lot_of (er_position r) = add_fill (replay_fills ?k (pe_receipts e)) r"
    using old [of ?k] by simp
  have "fill_ok r"
    using f act trade_intent_ok(3) [OF assms(3)] by (auto simp: fill_ok_def)
  have rs: "pe_receipts e' = pe_receipts e @ [(key, r)]" using f by (simp add: update_fresh)
  have ps: "pe_positions e' = AList.update ?k (er_position r) (pe_positions e)" using f by simp
  have "position_ok k p \<and> set (pn_decision_ids p) \<subseteq> receipt_ids (pe_receipts e')"
    if "(k, p) \<in> set (pe_positions e')" for k p
  proof -
    have "dict_ok (pe_positions e')" using inv by (simp add: ps)
    then have "map_of (pe_positions e') k = Some p" using that dict_ok_map_of by fast
    then have "k = ?k \<and> p = er_position r \<or> map_of (pe_positions e) k = Some p"
      by (auto simp: ps split: if_splits)
    moreover have "position_ok k p \<and> set (pn_decision_ids p) \<subseteq> receipt_ids (pe_receipts e)"
      if "map_of (pe_positions e) k = Some p" using inv map_of_SomeD [OF that] by auto
    moreover have "po_decision_id (er_order r) = rd_decision_id d" using f by simp
    ultimately show ?thesis using ok(1) ids unfolding rs receipt_ids_snoc by auto
  qed
  then have entries: "\<forall>(k, p) \<in> set (pe_positions e'). position_ok k p
      \<and> set (pn_decision_ids p) \<subseteq> receipt_ids (pe_receipts e')" by fast
  have "dict_ok (pe_receipts e')"
    using inv f dict_ok_update [of "pe_receipts e" key r] by (simp add: rs update_fresh)
  moreover have "dict_ok (pe_positions e')" using inv by (simp add: ps)
  moreover have "map_option lot_of (map_of (pe_positions e') k) = replay_fills k (pe_receipts e')" for k
    using old [of k] lot by (cases "k = ?k") (simp_all add: ps rs replay_fills_snoc rk)
  moreover have "\<forall>(i, r) \<in> set (pe_receipts e'). fill_ok r" using inv \<open>fill_ok r\<close> by (simp add: rs)
  ultimately show ?thesis using entries by (simp add: book_inv_def)
qed

definition valid_decision :: "risk_decision \<Rightarrow> bool" where
  "valid_decision d \<longleftrightarrow> trade_intent_post_init (rd_intent d) = Inr (rd_intent d)"

fun valid_call :: "engine_call \<Rightarrow> bool" where
  "valid_call (Execute d _ _) = valid_decision d"
| "valid_call (Execute_Batch ds _ _) = list_all valid_decision ds"

lemma execute_keeps_book: "valid_decision d \<Longrightarrow> keeps book_inv (execute d key executed_at)"
  unfolding keeps_def
proof (intro allI impI)
  fix e :: paper_engine
  assume "valid_decision d" and "book_inv e"
  obtain x e' where ex: "execute d key executed_at e = (x, e')" by fastforce
  have "book_inv e'"
    by (cases rule: execute_cases [OF ex])
      (use \<open>valid_decision d\<close> \<open>book_inv e\<close> in \<open>auto simp: valid_decision_def intro: filled_keeps_book\<close>)
  then show "book_inv (snd (execute d key executed_at e))" using ex by simp
qed

lemma engine_run_keeps_book: "list_all valid_call cs \<Longrightarrow> book_inv e \<Longrightarrow> book_inv (engine_run cs e)"
proof (induction cs arbitrary: e)
  case (Cons c cs)
  have "book_inv (engine_exec c e)"
    by (rule engine_exec_invariant [where D = "{d. valid_decision d}"])
      (use Cons.prems in \<open>auto intro: execute_keeps_book simp: list_all_iff split: engine_call.splits\<close>)
  then show ?case using Cons by simp
qed simp

text \<open>
  C4: The position book of the paper engine, after any history of single and batch
  executions, failing ones included.  The quantity, fees, opening and update times and
  decisions of the position under a key, and whether there is one, are what replaying the
  filled orders of that key gives: buys add, sells take away, a flat book starts anew.
  When the filled quantities are multiples of a power of two that need no rounding, the
  quantity is exactly what was bought less what was sold.  Every position is filed under its
  own key, is closed exactly when its quantity is zero and then has a closing time.
\<close>

theorem position_book_sound:
  assumes "list_all valid_call cs" and "e = engine_run cs (paper_engine_init policy)"
    and "k = (m, account, symbol)"
  shows "map_option lot_of (engine_position e m account symbol) = replay_fills k (pe_receipts e)
    \<and> (\<forall>p. engine_position e m account symbol = Some p \<longrightarrow> position_ok k p)
    \<and> (\<forall>p a. engine_position e m account symbol = Some p
         \<and> (\<forall>(i, r) \<in> set (pe_receipts e). order_key r = k \<longrightarrow> grid a (exact_of (pf_quantity (er_fill r))))
         \<and> quantity_filled BUY k (pe_receipts e) + quantity_filled SELL k (pe_receipts e) \<le> 2 powi (a + 53)
         \<and> - 1074 \<le> a \<and> a \<le> 0
         \<longrightarrow> pn_signed_quantity p
             = Fin (quantity_filled BUY k (pe_receipts e) - quantity_filled SELL k (pe_receipts e)))"
proof -
  have "book_inv (paper_engine_init policy)"
    by (simp add: book_inv_def paper_engine_init_def replay_fills_def)
  then have "book_inv e" using engine_run_keeps_book [OF assms(1)] assms(2) by simp
  note inv = replayed_bookD [OF this]
  have "pn_signed_quantity p
      = Fin (quantity_filled BUY k (pe_receipts e) - quantity_filled SELL k (pe_receipts e))"
    if "map_of (pe_positions e) k = Some p"
      "\<forall>(i, r) \<in> set (pe_receipts e). order_key r = k \<longrightarrow> grid a (exact_of (pf_quantity (er_fill r)))"
      "quantity_filled BUY k (pe_receipts e) + quantity_filled SELL k (pe_receipts e) \<le> 2 powi (a + 53)"
      "- 1074 \<le> a" "a \<le> 0" for p a
    using replay_quantity_exact [OF inv(2) that(2-5)] inv(1) [of k] that(1)
    by (auto simp: lot_of_def split: option.splits)
  then show ?thesis
    using inv(1) [of k] inv(3) [of k] unfolding engine_position_def assms(3) [symmetric] by blast
qed

definition ex_sell_decision :: risk_decision where
  "ex_sell_decision = (ex_decision ''d2'')\<lparr>rd_intent := ex_intent\<lparr>ti_action := SELL, ti_quantity := Fin 3\<rparr>\<rparr>"

definition ex_book :: paper_engine where
  "ex_book = engine_run [Execute (ex_decision ''d1'') ''k1'' (Aware 20), Execute ex_sell_decision ''k2'' (Aware 30)]
     (paper_engine_init ex_execution_policy)"

text \<open>Buying 2 and then selling 3 leaves a short position of 1.\<close>

theorem position_book_sound_witness:
  "map_option (\<lambda>p. (pn_signed_quantity p, pn_opened_at p, pn_updated_at p, pn_decision_ids p))
     (engine_position ex_book NSE ''acc'' ''RELIANCE'')
     = Some (Fin (- 1), 20, 30, [''d1'', ''d2''])"
proof -
  let ?k = "(NSE, ''acc'', ''RELIANCE'')"
  have v: "list_all valid_call [Execute (ex_decision ''d1'') ''k1'' (Aware 20), Execute ex_sell_decision ''k2'' (Aware 30)]"
    using ex_intent_ok by (simp add: valid_decision_def ex_decision_def ex_sell_decision_def
        trade_intent_post_init_def ex_intent_def ex_identity_def)
  have rs: "map (\<lambda>(k, r). (po_action (er_order r), pf_quantity (er_fill r), order_key r,
      pf_filled_at (er_fill r), po_decision_id (er_order r))) (pe_receipts ex_book)
      = [(BUY, Fin 2, ?k, 20, ''d1''), (SELL, Fin 3, ?k, 30, ''d2'')]"
    by (simp add: ex_book_def execute_def paper_engine_init_def ex_decision_def ex_sell_decision_def
        approved_def str_strip_def is_space_def apply_fill_def fill_accounting_def open_position_def Let_def
        ex_intent_def position_key_of_def order_key_def order_of_def fill_of_def)
  then obtain i1 r1 i2 r2 where r: "pe_receipts ex_book = [(i1, r1), (i2, r2)]"
    "po_action (er_order r1) = BUY" "pf_quantity (er_fill r1) = Fin 2" "order_key r1 = ?k"
    "pf_filled_at (er_fill r1) = 20" "po_decision_id (er_order r1) = ''d1''"
    "po_action (er_order r2) = SELL" "pf_quantity (er_fill r2) = Fin 3" "order_key r2 = ?k"
    "pf_filled_at (er_fill r2) = 30" "po_decision_id (er_order r2) = ''d2''"
    by (auto simp: map_eq_Cons_conv)
  have "map_option lot_of (engine_position ex_book NSE ''acc'' ''RELIANCE'') = replay_fills ?k (pe_receipts ex_book)"
    using position_book_sound [OF v ex_book_def refl] by blast
  moreover have "replay_fills ?k (pe_receipts ex_book) = Some \<lparr>lt_quantity = Fin (- 1),
      lt_fees = pf_fee (er_fill r1) + pf_fee (er_fill r2), lt_opened = 20, lt_updated = 30,
      lt_decisions = [''d1'', ''d2'']\<rparr>"
    by (simp add: replay_fills_def r add_fill_def new_lot_def signed_fill_def)
  ultimately show ?thesis by (auto simp: lot_of_def)
qed


section \<open>Fills\<close>

lemma apply_fill_open:
  assumes "apply_fill (Some c) d f = Inr p" and "pn_state c = POSITION_OPEN"
  shows "pn_signed_quantity p = pn_signed_quantity c
      + (if ti_action (rd_intent d) = BUY then pf_quantity f else - pf_quantity f)"
    and "pn_state p = POSITION_CLOSED \<longleftrightarrow> py_eq (pn_signed_quantity p) 0"
  using assms by (auto simp: apply_fill_def Let_def split: if_splits)

text \<open>
  C5: An approved protective exit only ever reduces.  When the risk engine approves an exit
  against a snapshot whose quantity is the ledger's, filling it leaves a position whose
  quantity lies between zero and the old one (the sign never flips, the size never grows),
  and it closes the position exactly when the order is for the whole quantity.
\<close>

theorem approved_exit_only_reduces:
  assumes "evaluate_exit l t s (Aware now) = Inr d" and "approved d"
    and "trade_intent_post_init t = Inr t" and "wf_float (ti_quantity t)"
    and "map_of (pe_positions e) (position_key_of t) = Some p" and "pn_state p = POSITION_OPEN"
    and "pn_signed_quantity p = Fin q" and "current_signed t s = Fin q" and "is_f64 q"
    and "map_of (pe_receipts e) key = None"
    and "execute d key executed_at e = (Inr r, e')"
  shows "\<exists>q'. pn_signed_quantity (er_position r) = Fin q'
      \<and> (0 < q \<longrightarrow> 0 \<le> q' \<and> q' \<le> q) \<and> (q < 0 \<longrightarrow> q \<le> q' \<and> q' \<le> 0)
      \<and> (pn_state (er_position r) = POSITION_CLOSED \<longleftrightarrow> ti_quantity t = Fin \<bar>q\<bar>)"
proof -
  obtain n captured where "rd_intent d = t" and reasons: "exit_reasons l t s n captured = []"
    using evaluate_exit_Inr [OF assms(1)] assms(2) by metis
  then obtain pp where target: "intent_target t s = Some pp"
    by (auto simp: exit_reasons_def split: option.splits)
  obtain v where v: "ti_quantity t = Fin v" "0 < v" "is_f64 v"
    using trade_intent_ok(3) [OF assms(3)] assms(4) by auto
  obtain dl where dl: "intent_delta t = Fin dl" "\<bar>dl\<bar> = v" "is_f64 dl"
    using v is_f64_minus [of v] by (cases "ti_action t = BUY") (auto simp: intent_delta_def)
  have ppq: "pp_signed_quantity pp = Fin q" using assms(8) target by (simp add: current_signed_def)
  then have signs: "\<not> 0 \<le> rnd64 (q * dl)" and size: "v \<le> \<bar>q\<bar>"
    using reasons target dl by (auto simp: exit_reasons_def split: if_splits)
  have opp: "q * dl < 0" using signs rnd64_nonneg [of "q * dl"] by (meson linorder_not_le)
  obtain m where f: "filled d key m e r e'"
    using assms(10,11) by (auto elim: execute_cases)
  then have pos: "apply_fill (Some p) d (er_fill r) = Inr (er_position r)"
    "pf_quantity (er_fill r) = ti_quantity t"
    using assms(5) \<open>rd_intent d = t\<close> by (auto simp: filled_def)
  have delta: "(if ti_action t = BUY then ti_quantity t else - ti_quantity t) = Fin dl"
    using dl(1) by (simp add: intent_delta_def)
  have new: "pn_signed_quantity (er_position r) = Fin q + Fin dl"
    "pn_state (er_position r) = POSITION_CLOSED \<longleftrightarrow> py_eq (Fin q + Fin dl) 0"
    using apply_fill_open [OF pos(1) assms(6)] pos(2) assms(7) delta \<open>rd_intent d = t\<close>
    by (simp_all split: if_splits)
  show ?thesis
  proof (cases "0 < q")
    case True
    then have "dl < 0" using opp by (simp add: mult_less_0_iff)
    obtain q' where "Fin q + Fin dl = Fin q'" "0 \<le> q'" "q' \<le> q" "q' = 0 \<longleftrightarrow> dl = - q"
      by (rule reduce_pos [OF assms(9) True dl(3) \<open>dl < 0\<close>]) (use size dl(2) True in auto)
    then show ?thesis using new True dl(2) v(1) \<open>dl < 0\<close> by (auto simp: zero_pyfloat_def)
  next
    case False
    then have "q < 0" "0 < dl" using opp by (auto simp: mult_less_0_iff)
    obtain q' where "Fin q + Fin dl = Fin q'" "q' \<le> 0" "q \<le> q'" "q' = 0 \<longleftrightarrow> dl = - q"
      by (rule reduce_neg [OF assms(9) \<open>q < 0\<close> dl(3) \<open>0 < dl\<close>]) (use size dl(2) \<open>q < 0\<close> in auto)
    then show ?thesis using new \<open>q < 0\<close> dl(2) v(1) \<open>0 < dl\<close> by (auto simp: zero_pyfloat_def)
  qed
qed

definition ex_exit_intent :: trade_intent where
  "ex_exit_intent = ex_intent\<lparr>ti_action := SELL, ti_quantity := Fin 3\<rparr>"

definition ex_open_engine :: paper_engine where
  "ex_open_engine = \<lparr>pe_policy = ex_execution_policy, pe_receipts = [],
     pe_positions = [(position_key_of ex_intent,
       open_position (ex_decision ''d0'') (fill_of ex_execution_policy (ex_decision ''d0'') ''k0'' 10) (Fin 3))]\<rparr>"

lemmas ex_exit_defs = ex_exit_intent_def ex_risk_defs ex_open_engine_def position_key_of_def

theorem approved_exit_only_reduces_witness:
  "\<exists>d r e'. evaluate_exit ex_limits ex_exit_intent ex_portfolio (Aware 20) = Inr d
     \<and> execute d ''k1'' (Aware 20) ex_open_engine = (Inr r, e')
     \<and> pn_state (er_position r) = POSITION_CLOSED"
proof -
  have "\<exists>d. evaluate_exit ex_limits ex_exit_intent ex_portfolio (Aware 20) = Inr d"
    by (simp add: evaluate_exit_def ex_portfolio_def)
  then obtain d where d: "evaluate_exit ex_limits ex_exit_intent ex_portfolio (Aware 20) = Inr d" ..
  have "exit_reasons ex_limits ex_exit_intent ex_portfolio 20 20 = []"
    by (simp add: exit_reasons_def stale_reasons_Nil ex_exit_defs intent_target_def intent_delta_def
        total_seconds_def zero_pyfloat_def)
  moreover have "ps_captured_at ex_portfolio = Aware 20" by (simp add: ex_portfolio_def)
  ultimately have "approved d" "rd_intent d = ex_exit_intent"
    using evaluate_exit_Inr [OF d] by (metis datetime.inject(2))+
  define p where "p = open_position (ex_decision ''d0'') (fill_of ex_execution_policy (ex_decision ''d0'') ''k0'' 10) (Fin 3)"
  have p: "map_of (pe_positions ex_open_engine) (position_key_of ex_exit_intent) = Some p"
    "pn_state p = POSITION_OPEN" "pn_signed_quantity p = Fin 3"
    by (simp_all add: ex_exit_defs p_def open_position_def Let_def)
  have f3: "is_f64 3" using is_f64_int [of 3] by simp
  have "fst (execute d ''k1'' (Aware 20) ex_open_engine) \<noteq> Inl err" for err
    using \<open>approved d\<close> p \<open>rd_intent d = ex_exit_intent\<close>
    by (simp add: execute_def apply_fill_def fill_accounting_def Let_def ex_open_engine_def
        ex_exit_intent_def ex_intent_def str_strip_def is_space_def)
  then obtain r e' where ex: "execute d ''k1'' (Aware 20) ex_open_engine = (Inr r, e')"
    by (metis prod.collapse sum.exhaust)
  have "pn_state (er_position r) = POSITION_CLOSED \<longleftrightarrow> ti_quantity ex_exit_intent = Fin \<bar>3\<bar>"
    using approved_exit_only_reduces [OF d \<open>approved d\<close> _ _ p _ f3 _ ex] ex_intent_ok f3
    by (auto simp: ex_exit_defs trade_intent_post_init_def current_signed_def intent_target_def
        ex_identity_def)
  then show ?thesis using d ex by (auto simp: ex_exit_intent_def)
qed

text \<open>Rounded sums, products and quotients stay on the right side of 0 and 1.\<close>

lemma rnd64_ge_f64: "is_f64 a \<Longrightarrow> a \<le> q \<Longrightarrow> Fin a \<le> rnd64 q"
  using rnd64_mono [of a q] by (simp add: rnd64_f64)

lemma rnd64_le_f64: "is_f64 b \<Longrightarrow> q \<le> b \<Longrightarrow> rnd64 q \<le> Fin b"
  using rnd64_mono [of q b] by (simp add: rnd64_f64)

lemma fquot_sign:
  "0 \<le> x \<Longrightarrow> 0 < b \<Longrightarrow> 0 \<le> fquot x (Fin b)"
  "x \<le> 0 \<Longrightarrow> 0 < b \<Longrightarrow> fquot x (Fin b) \<le> 0"
  by (cases x; simp add: rnd64_nonneg rnd64_nonpos divide_nonpos_pos)+

lemma one_plus_sign:
  "0 \<le> x \<Longrightarrow> 1 \<le> 1 + (x :: pyfloat)"
  "x \<le> 0 \<Longrightarrow> 1 + x \<le> (1 :: pyfloat)"
  using is_f64_int [of 1] by (cases x; simp add: one_pyfloat_def rnd64_ge_f64 rnd64_le_f64)+

lemma times_one_side:
  assumes "is_f64 a" and "0 < a"
  shows "1 \<le> y \<Longrightarrow> Fin a \<le> Fin a * y" and "y \<le> 1 \<Longrightarrow> Fin a * y \<le> Fin a"
  using assms by (cases y; simp add: one_pyfloat_def rnd64_ge_f64 rnd64_le_f64)+

definition not_negative :: "pyfloat \<Rightarrow> bool" where
  "not_negative x \<longleftrightarrow> \<not> x < 0"

lemma not_negative_times: "not_negative x \<Longrightarrow> not_negative y \<Longrightarrow> not_negative (x * y)"
  using rnd64_nonneg float_leD
  by (cases x; cases y) (auto simp: not_negative_def zero_pyfloat_def)

lemma not_negative_fquot: "not_negative x \<Longrightarrow> 0 < b \<Longrightarrow> not_negative (fquot x (Fin b))"
  using rnd64_nonneg float_leD
  by (cases x) (auto simp: not_negative_def zero_pyfloat_def)

text \<open>
  C11: Slippage is never in the trader's favour.  For a valid policy and intent, a buy fills
  at or above the reference price and a sell at or below it, after rounding; a buy's fee is
  never negative.
\<close>

theorem slippage_is_adverse:
  assumes "execution_policy_post_init policy = Inr policy" and "trade_intent_post_init t = Inr t"
    and "wf_float (ti_reference_price t)"
  shows "(ti_action t = BUY \<longrightarrow> ti_reference_price t \<le> fill_price policy t \<and> \<not> fill_fee policy t < 0)
    \<and> (ti_action t = SELL \<longrightarrow> fill_price policy t \<le> ti_reference_price t)"
proof -
  obtain s c where p: "xp_slippage_bps policy = Fin s" "0 \<le> s" "xp_fee_bps policy = Fin c" "0 \<le> c"
    using assms(1) by (auto simp: execution_policy_post_init_def isfinite_iff split: if_splits)
  obtain v x where t: "ti_quantity t = Fin v" "0 < v" "ti_reference_price t = Fin x" "0 < x" "is_f64 x"
    using trade_intent_ok(3) [OF assms(2)] assms(3) by auto
  have buy: "Fin x \<le> fill_price policy t" if "ti_action t = BUY"
  proof -
    have "0 \<le> Fin 1 * Fin s" using p(2) rnd64_nonneg by simp
    then have "1 \<le> 1 + fquot (Fin 1 * Fin s) (Fin 10000)" by (intro one_plus_sign fquot_sign) auto
    then show ?thesis using times_one_side(1) [OF t(5,4)] that p t by (simp add: fill_price_def)
  qed
  have sell: "fill_price policy t \<le> Fin x" if "ti_action t \<noteq> BUY"
  proof -
    have "Fin (- 1) * Fin s \<le> 0" using p(2) rnd64_nonpos by simp
    then have "1 + fquot (Fin (- 1) * Fin s) (Fin 10000) \<le> 1" by (intro one_plus_sign fquot_sign) auto
    then show ?thesis using times_one_side(2) [OF t(5,4)] that p t by (simp add: fill_price_def)
  qed
  have "not_negative (fill_fee policy t)" if "ti_action t = BUY"
  proof -
    have "0 \<le> fill_price policy t" using float_le_trans [OF _ buy [OF that], of 0] t(4) by simp
    then have "not_negative (fill_price policy t)" using float_leD by (simp add: not_negative_def)
    then show ?thesis unfolding fill_fee_def t p
      by (intro not_negative_fquot not_negative_times) (use t p in \<open>auto simp: not_negative_def\<close>)
  qed
  then show ?thesis using buy sell t(3) by (auto simp: not_negative_def)
qed

theorem slippage_is_adverse_witness:
  "ti_reference_price ex_intent \<le> fill_price \<lparr>xp_slippage_bps = Fin 5, xp_fee_bps = Fin 1\<rparr> ex_intent"
proof -
  have "wf_float (ti_reference_price ex_intent)"
    using is_f64_int [of 100] by (simp add: ex_intent_def)
  moreover have "ti_action ex_intent = BUY" by (simp add: ex_intent_def)
  ultimately show ?thesis
    using slippage_is_adverse [of "\<lparr>xp_slippage_bps = Fin 5, xp_fee_bps = Fin 1\<rparr>", OF _ ex_intent_ok]
    by (simp add: execution_policy_post_init_def)
qed

text \<open>Integer arithmetic within 53 bits is exact.\<close>

lemma int_float_arith:
  "\<bar>a + b\<bar> \<le> 2 ^ 53 \<Longrightarrow> Fin (of_int a) + Fin (of_int b) = Fin (of_int (a + b))"
  "\<bar>a - b\<bar> \<le> 2 ^ 53 \<Longrightarrow> Fin (of_int a) - Fin (of_int b) = Fin (of_int (a - b))"
  "\<bar>a * b\<bar> \<le> 2 ^ 53 \<Longrightarrow> Fin (of_int a) * Fin (of_int b) = Fin (of_int (a * b))"
  "\<bar>Fin (of_int a)\<bar> = Fin (of_int \<bar>a\<bar>)"
  "py_min (Fin (of_int a)) (Fin (of_int b)) = Fin (of_int (min a b))"
  using rnd64_f64 [OF is_f64_int [of "a + b"]] rnd64_f64 [OF is_f64_int [of "a - b"]]
    rnd64_f64 [OF is_f64_int [of "a * b"]]
  by (simp_all add: minus_pyfloat_def py_min_def)

lemma abs_mult_le: "\<bar>a\<bar> \<le> m \<Longrightarrow> \<bar>b\<bar> \<le> n \<Longrightarrow> \<bar>a * b\<bar> \<le> m * (n :: int)"
  by (simp add: abs_mult mult_mono)

text \<open>
  Closing and reversing fills account exactly.  On whole quantities and prices small
  enough that no intermediate result rounds, the average entry price and the realized
  profit after a fill against the position satisfy the cash identity: the book value minus
  the realized profit changes by exactly what the fill paid.
\<close>

theorem closing_fill_accounts_exactly:
  fixes old average realized delta price :: int
  assumes "old * delta < 0" and "\<bar>old\<bar> \<le> 2 ^ 20" and "\<bar>delta\<bar> \<le> 2 ^ 20"
    and "\<bar>average\<bar> \<le> 2 ^ 20" and "\<bar>price\<bar> \<le> 2 ^ 20" and "\<bar>realized\<bar> \<le> 2 ^ 52"
  shows "\<exists>a g. fill_accounting (Fin (of_int old)) (Fin (of_int average)) (Fin (of_int realized))
             (Fin (of_int delta)) (Fin (of_int price)) = Inr (Fin (of_int a), Fin (of_int g))
      \<and> (old + delta) * a - g = old * average - realized + delta * price"
proof -
  define c where "c = min \<bar>old\<bar> \<bar>delta\<bar>"
  define g where "g = (if 0 < old then 1 else - 1 :: int)"
  have c: "0 < c" "\<bar>c\<bar> \<le> 2 ^ 20" using assms(1-3) by (auto simp: c_def mult_less_0_iff)
  have "\<bar>old * delta\<bar> \<le> 2 ^ 20 * 2 ^ 20" by (rule abs_mult_le [OF assms(2,3)])
  then have same: "Fin (of_int old) * Fin (of_int delta) = Fin (of_int (old * delta))"
    by (intro int_float_arith) simp
  have new: "Fin (of_int old) + Fin (of_int delta) = Fin (of_int (old + delta))"
    using assms(2,3) by (intro int_float_arith) (auto simp: abs_le_iff)
  have "\<bar>old * (old + delta)\<bar> \<le> 2 ^ 20 * 2 ^ 21"
    using assms(2,3) by (intro abs_mult_le) (auto simp: abs_le_iff)
  then have flip: "Fin (of_int old) * Fin (of_int (old + delta)) = Fin (of_int (old * (old + delta)))"
    by (intro int_float_arith) simp
  have diff: "Fin (of_int price) - Fin (of_int average) = Fin (of_int (price - average))"
    using assms(4,5) by (intro int_float_arith) (auto simp: abs_le_iff)
  have m: "\<bar>c * (price - average)\<bar> \<le> 2 ^ 20 * 2 ^ 21"
    using assms(4,5) c(2) by (intro abs_mult_le) (auto simp: abs_le_iff)
  then have mg: "\<bar>c * (price - average) * g\<bar> \<le> 2 ^ 41" by (simp add: g_def)
  have gain: "Fin (of_int c) * Fin (of_int (price - average)) * Fin (of_int g)
      = Fin (of_int (c * (price - average) * g))"
  proof -
    have "Fin (of_int c) * Fin (of_int (price - average)) = Fin (of_int (c * (price - average)))"
      using m by (intro int_float_arith) simp
    moreover have "Fin (of_int (c * (price - average))) * Fin (of_int g)
        = Fin (of_int (c * (price - average) * g))"
      using mg by (intro int_float_arith) simp
    ultimately show ?thesis by metis
  qed
  have total: "Fin (of_int realized) + Fin (of_int (c * (price - average) * g))
      = Fin (of_int (realized + c * (price - average) * g))"
    using mg assms(6) by (intro int_float_arith) (auto simp: abs_le_iff)
  have least: "py_min \<bar>Fin (of_int old)\<bar> \<bar>Fin (of_int delta)\<bar> = Fin (of_int c)"
    by (simp only: int_float_arith(4,5) c_def)
  have sign: "(if 0 < Fin (of_int old) then Fin 1 else Fin (- 1)) = Fin (of_int g)"
    by (simp add: g_def)
  have tests: "0 < Fin (of_int (old * delta)) \<longleftrightarrow> False"
    "py_eq (Fin (of_int (old + delta))) 0 \<longleftrightarrow> old + delta = 0"
    "Fin (of_int (old * (old + delta))) < 0 \<longleftrightarrow> old * (old + delta) < 0"
    using assms(1) unfolding zero_pyfloat_def py_eq_Fin less_Fin
    by (metis of_int_0_less_iff not_less_iff_gr_or_eq of_int_eq_0_iff of_int_less_0_iff)+
  let ?a = "if old + delta = 0 then 0 else if old * (old + delta) < 0 then price else average"
  have "fill_accounting (Fin (of_int old)) (Fin (of_int average)) (Fin (of_int realized))
      (Fin (of_int delta)) (Fin (of_int price))
      = Inr (Fin (of_int ?a), Fin (of_int (realized + c * (price - average) * g)))"
    unfolding fill_accounting_def Let_def same new flip least sign diff gain total tests by simp
  moreover have "(old + delta) * ?a - (realized + c * (price - average) * g)
      = old * average - realized + delta * price"
  proof -
    have cg: "c * (price - average) * g = (if \<bar>delta\<bar> \<le> \<bar>old\<bar> then - delta else old) * (price - average)"
      using assms(1) by (auto simp: c_def g_def min_def mult_less_0_iff)
    have flips: "old * (old + delta) < 0 \<longleftrightarrow> \<bar>old\<bar> < \<bar>delta\<bar>"
      using assms(1) by (auto simp: mult_less_0_iff)
    show ?thesis
    proof (cases "old + delta = 0")
      case True
      then have "delta = - old" by simp
      then show ?thesis unfolding cg flips by (simp add: algebra_simps)
    next
      case False
      then show ?thesis unfolding cg flips by (simp add: algebra_simps)
    qed
  qed
  ultimately show ?thesis by blast
qed


theorem closing_fill_accounts_exactly_witness:
  "\<exists>a g. fill_accounting (Fin (of_int 3)) (Fin (of_int 100)) (Fin (of_int 0))
       (Fin (of_int (- 5))) (Fin (of_int 110)) = Inr (Fin (of_int a), Fin (of_int g))
     \<and> (3 + - 5) * a - g = 3 * 100 - 0 + - 5 * 110"
  by (rule closing_fill_accounts_exactly) simp_all

end
