(* ===== verification/Outcomes.thy ===== *)
theory Outcomes
  imports Paper_Execution
begin

text \<open>
  Closed-position attribution and the offline learner of
  src/src/nanodelta/outcomes/learning.py.
\<close>

section \<open>Recording outcomes\<close>

record outcome =
  oc_outcome_id :: string
  oc_position_id :: string
  oc_market :: market
  oc_account_id :: string
  oc_symbol :: string
  oc_opened_at :: instant
  oc_closed_at :: instant
  oc_gross_pnl :: pyfloat
  oc_total_fees :: pyfloat
  oc_net_pnl :: pyfloat
  oc_return_on_allocated_capital :: pyfloat
  oc_decision_ids :: "string list"
  oc_approval_ids :: "string list"
  oc_gold_snapshot_ids :: "string list"
  oc_agent_evidence_ids :: "string list"
  oc_strategy_identity :: strategy_identity
  oc_recorded_at :: instant

type_synonym outcome_recorder = "(string, outcome) dict"

text \<open>\<open>math.isclose(a, b, rel_tol=1e-12)\<close>\<close>

definition isclose :: "pyfloat \<Rightarrow> pyfloat \<Rightarrow> bool" where
  "isclose a b \<longleftrightarrow> py_eq a b
     \<or> (isfinite a \<and> isfinite b
        \<and> (let diff = \<bar>b - a\<bar>; tol = rnd64 (1 / 1000000000000)
           in diff \<le> \<bar>tol * b\<bar> \<or> diff \<le> \<bar>tol * a\<bar> \<or> diff \<le> 0))"

definition net_pnl_of :: "paper_position \<Rightarrow> pyfloat" where
  "net_pnl_of p = pn_realized_pnl p - pn_total_fees p"

definition outcome_record ::
  "paper_position \<Rightarrow> strategy_identity \<Rightarrow> pyfloat \<Rightarrow> datetime \<Rightarrow> (outcome_recorder, outcome) st" where
  "outcome_record p identity capital recorded_at r =
     (if \<not> isfinite capital \<or> capital \<le> 0
        then (Inl (ValueError ''allocated_capital must be finite and positive''), r)
      else case map_of r (pn_position_id p) of
        Some existing \<Rightarrow>
          if oc_strategy_identity existing \<noteq> identity
             \<or> \<not> isclose (oc_return_on_allocated_capital existing) (fquot (net_pnl_of p) capital)
          then (Inl (ValueError ''position outcome is already bound to different inputs''), r)
          else (Inr existing, r)
      | None \<Rightarrow>
          (case (pn_state p, pn_closed_at p) of
             (POSITION_CLOSED, Some closed_at) \<Rightarrow>
               if pn_market p \<noteq> si_market identity \<or> pn_strategy_keys p \<noteq> [identity_key identity]
               then (Inl (ValueError ''outcome requires one matching exact strategy identity''), r)
               else (case utc recorded_at ''recorded_at'' of
                 Inl e \<Rightarrow> (Inl e, r)
               | Inr now \<Rightarrow>
                   (let net = net_pnl_of p;
                        out = \<lparr>oc_outcome_id = stable_id [''outcome'', pn_position_id p],
                          oc_position_id = pn_position_id p, oc_market = pn_market p,
                          oc_account_id = pn_account_id p, oc_symbol = pn_symbol p,
                          oc_opened_at = pn_opened_at p, oc_closed_at = closed_at,
                          oc_gross_pnl = pn_realized_pnl p, oc_total_fees = pn_total_fees p,
                          oc_net_pnl = net, oc_return_on_allocated_capital = fquot net capital,
                          oc_decision_ids = pn_decision_ids p, oc_approval_ids = pn_approval_ids p,
                          oc_gold_snapshot_ids = pn_gold_snapshot_ids p,
                          oc_agent_evidence_ids = pn_agent_evidence_ids p,
                          oc_strategy_identity = identity, oc_recorded_at = now\<rparr>
                    in (Inr out, AList.update (pn_position_id p) out r)))
           | _ \<Rightarrow> (Inl (ValueError ''outcomes can be recorded only for closed positions''), r)))"

section \<open>The offline learner\<close>

datatype learning_disposition =
  INSUFFICIENT_DATA | RETAIN | DISPOSITION_REVIEW | SUSPENSION_REVIEW

record learning_assessment =
  la_assessment_id :: string
  la_identity :: strategy_identity
  la_outcome_ids :: "string list"
  la_sample_size :: nat
  la_win_rate :: pyfloat
  la_average_net_return :: pyfloat
  la_cumulative_net_pnl :: pyfloat
  la_disposition :: learning_disposition
  la_generated_at :: instant
  la_policy_version :: string

record offline_learner =
  ol_minimum_sample_size :: int
  ol_review_average_return :: pyfloat
  ol_suspension_average_return :: pyfloat
  ol_policy_version :: string

definition offline_learner_init :: "offline_learner \<Rightarrow> offline_learner result" where
  "offline_learner_init l =
     (if ol_minimum_sample_size l < 1 then Inl (ValueError ''minimum_sample_size must be positive'')
      else if ol_review_average_return l < ol_suspension_average_return l
        then Inl (ValueError ''suspension threshold must not exceed review threshold'')
      else Inr l)"

definition closed_order :: "outcome \<Rightarrow> outcome \<Rightarrow> bool" where
  "closed_order a b \<longleftrightarrow> (oc_closed_at a, oc_outcome_id a) < (oc_closed_at b, oc_outcome_id b)"

text \<open>A count divided by a count is rounded once; a float sum is divided by the converted count.\<close>

definition win_rate_of :: "outcome list \<Rightarrow> pyfloat" where
  "win_rate_of os =
     (if os = [] then 0
      else rnd64 (of_nat (length (filter (\<lambda>x. 0 < oc_net_pnl x) os)) / of_nat (length os)))"

definition average_return_of :: "outcome list \<Rightarrow> pyfloat" where
  "average_return_of os =
     (if os = [] then 0
      else fquot (py_sum (map oc_return_on_allocated_capital os)) (float_of_int (int (length os))))"

definition disposition_of :: "offline_learner \<Rightarrow> nat \<Rightarrow> pyfloat \<Rightarrow> learning_disposition" where
  "disposition_of l sample average =
     (if int sample < ol_minimum_sample_size l then INSUFFICIENT_DATA
      else if average \<le> ol_suspension_average_return l then SUSPENSION_REVIEW
      else if average \<le> ol_review_average_return l then DISPOSITION_REVIEW
      else RETAIN)"

definition assess ::
  "offline_learner \<Rightarrow> strategy_identity \<Rightarrow> outcome list \<Rightarrow> datetime \<Rightarrow> learning_assessment result" where
  "assess l identity outcomes generated_at =
     (if \<exists>x \<in> set outcomes. oc_strategy_identity x \<noteq> identity
        then Inl (ValueError ''learning inputs must share the exact strategy identity'')
      else
        (let ordered = py_sorted closed_order outcomes;
             sample = length ordered;
             average = average_return_of ordered;
             ids = map oc_outcome_id ordered
         in bind_r (utc generated_at ''generated_at'') (\<lambda>now.
              Inr \<lparr>la_assessment_id = stable_id ([identity_key identity] @ ids @ [ol_policy_version l]),
                   la_identity = identity, la_outcome_ids = ids, la_sample_size = sample,
                   la_win_rate = win_rate_of ordered, la_average_net_return = average,
                   la_cumulative_net_pnl = py_sum (map oc_net_pnl ordered),
                   la_disposition = disposition_of l sample average, la_generated_at = now,
                   la_policy_version = ol_policy_version l\<rparr>)))"

section \<open>Lemmas\<close>

text \<open>What recording does: it refuses, repeats, or stores the outcome of a closed position.\<close>

lemma outcome_record_cases:
  assumes "outcome_record p identity capital recorded_at r = (x, r')"
  obtains (refused) e where "x = Inl e" and "r' = r"
    | (known) out where "x = Inr out" and "r' = r" and "map_of r (pn_position_id p) = Some out"
        and "oc_strategy_identity out = identity"
    | (fresh) out where "x = Inr out" and "r' = AList.update (pn_position_id p) out r"
        and "map_of r (pn_position_id p) = None" and "pn_state p = POSITION_CLOSED"
        and "oc_position_id out = pn_position_id p" and "oc_net_pnl out = net_pnl_of p"
        and "oc_strategy_identity out = identity"
        and "oc_return_on_allocated_capital out = fquot (oc_net_pnl out) capital"
        and "pn_closed_at p = Some (oc_closed_at out)" and "pn_strategy_keys p = [identity_key identity]"
        and "oc_market out = pn_market p" and "pn_market p = si_market identity"
        and "oc_account_id out = pn_account_id p" and "oc_symbol out = pn_symbol p"
  using assms
  by (fastforce simp: outcome_record_def Let_def split: if_splits option.splits sum.splits
      position_state.splits)

definition recorder_ok :: "outcome_recorder \<Rightarrow> bool" where
  "recorder_ok r \<longleftrightarrow> dict_ok r \<and> list_all (\<lambda>(k, out). oc_position_id out = k) r"

lemma outcome_record_ok:
  assumes "outcome_record p identity capital recorded_at r = (x, r')" and "recorder_ok r"
  shows "recorder_ok r'" and "map_of r k = Some out \<Longrightarrow> map_of r' k = Some out"
  using assms(1)
  by (cases rule: outcome_record_cases; use assms(2) in \<open>auto simp: recorder_ok_def update_fresh
      dict_ok_def list_all_iff map_add_Some_iff dest: map_of_SomeD\<close>)+

section \<open>Properties\<close>

lemma closed_order_weak: "strict_weak A closed_order"
  by (auto simp: strict_weak_def closed_order_def less_prod_def)

lemma rnd64_unit: "0 \<le> q \<Longrightarrow> q \<le> 1 \<Longrightarrow> 0 \<le> rnd64 q \<and> rnd64 q \<le> 1"
  using rnd64_mono [of 0 q] rnd64_mono [of q 1] by simp

lemma win_rate_unit: "0 \<le> win_rate_of os \<and> win_rate_of os \<le> 1"
proof -
  have "of_nat (length (filter P os)) / of_nat (length os) \<le> (1 :: rat)" for P
  proof -
    have "(of_nat (length (filter P os)) :: rat) \<le> of_nat (length os)"
      by (simp only: of_nat_le_iff length_filter_le)
    then show ?thesis by (simp add: divide_le_eq_1)
  qed
  moreover have "(0 :: pyfloat) \<le> 1" by (simp add: zero_pyfloat_def one_pyfloat_def)
  ultimately show ?thesis by (auto simp: win_rate_of_def rnd64_unit)
qed

text \<open>
  The learner's assessment is a function of the set of outcomes: given in any order,
  distinct outcomes give the same assessment, identifier included (or the same exception),
  and its win rate lies between 0 and 1.
\<close>

theorem assessment_order_independent:
  assumes "mset os = mset os'" and "distinct (map oc_outcome_id os)"
  shows "assess l identity os generated_at = assess l identity os' generated_at
    \<and> (assess l identity os generated_at = Inr a \<longrightarrow>
         0 \<le> la_win_rate a \<and> la_win_rate a \<le> 1 \<and> la_sample_size a = length os)"
proof -
  have "py_sorted closed_order os = py_sorted closed_order os'"
  proof (rule py_sorted_unique [OF assms(1) closed_order_weak])
    fix x y
    assume xy: "x \<in> set os" "y \<in> set os" "\<not> closed_order x y" "\<not> closed_order y x"
    then have "oc_outcome_id x = oc_outcome_id y" by (auto simp: closed_order_def less_prod_def)
    then show "x = y" using assms(2) xy(1,2) by (auto simp: distinct_map inj_on_def)
  qed
  moreover have "set os = set os'" "length os' = length os"
    using assms(1) by (metis set_mset_mset, metis size_mset)
  ultimately show ?thesis using win_rate_unit by (auto simp: assess_def Let_def)
qed

definition ex_outcome :: "string \<Rightarrow> instant \<Rightarrow> pyfloat \<Rightarrow> outcome" where
  "ex_outcome i t net = \<lparr>oc_outcome_id = i, oc_position_id = ''p'', oc_market = NSE,
     oc_account_id = ''acc'', oc_symbol = ''TCS'', oc_opened_at = 0, oc_closed_at = t,
     oc_gross_pnl = net, oc_total_fees = Fin 0, oc_net_pnl = net, oc_return_on_allocated_capital = net,
     oc_decision_ids = [''d''], oc_approval_ids = [''a''], oc_gold_snapshot_ids = [''g''],
     oc_agent_evidence_ids = [], oc_strategy_identity = ex_identity, oc_recorded_at = t\<rparr>"

definition ex_learner :: offline_learner where
  "ex_learner = \<lparr>ol_minimum_sample_size = 2, ol_review_average_return = Fin 0,
     ol_suspension_average_return = Fin (- 1), ol_policy_version = ''1''\<rparr>"

theorem assessment_order_independent_witness:
  "assess ex_learner ex_identity [ex_outcome ''o1'' 5 (Fin 1), ex_outcome ''o2'' 3 (Fin (- 1))] (Aware 9)
     = assess ex_learner ex_identity [ex_outcome ''o2'' 3 (Fin (- 1)), ex_outcome ''o1'' 5 (Fin 1)] (Aware 9)"
  by (rule assessment_order_independent [THEN conjunct1]) (simp_all add: ex_outcome_def)

end
