(* ===== verification/Lifecycle.thy ===== *)
theory Lifecycle
  imports Outcomes Decision_Pipeline
begin

text \<open>
  Protective exits of src/src/nanodelta/paper/lifecycle.py: immutable exit plans, the
  stop/target trigger, and the management pass that turns a triggered plan into an exit
  order, a fill and an outcome.  The collaborators the class holds (store, execution
  engine, ledger, outcome recorder) are the fields of its state.
\<close>

section \<open>Plans and their store\<close>

datatype exit_reason = EXIT_STOP | EXIT_TARGET

fun exit_reason_value :: "exit_reason \<Rightarrow> string" where
  "exit_reason_value EXIT_STOP = ''STOP''"
| "exit_reason_value EXIT_TARGET = ''TARGET''"

record exit_plan =
  xl_position_id :: string
  xl_market :: market
  xl_account_id :: string
  xl_symbol :: string
  xl_entry_action :: advisory_action
  xl_quantity :: pyfloat
  xl_stop_price :: pyfloat
  xl_target_price :: pyfloat
  xl_allocated_capital :: pyfloat
  xl_candidate_id :: string
  xl_approval_id :: string
  xl_identity :: strategy_identity
  xl_gold_snapshot_ids :: "string list"
  xl_created_at :: instant

text \<open>\<open>==\<close> on plans: a NaN field makes two plans differ.\<close>

definition exit_plan_eq :: "exit_plan \<Rightarrow> exit_plan \<Rightarrow> bool" where
  "exit_plan_eq a b \<longleftrightarrow> a = b
     \<and> list_all (\<lambda>v. v \<noteq> NaN)
         [xl_quantity a, xl_stop_price a, xl_target_price a, xl_allocated_capital a]"

record lifecycle_store =
  ls_plans :: "(string, exit_plan) dict"
  ls_outcomes :: "(string, outcome) dict"
  ls_reasons :: "(string, exit_reason) dict"

definition lifecycle_store_init :: lifecycle_store where
  "lifecycle_store_init = \<lparr>ls_plans = [], ls_outcomes = [], ls_reasons = []\<rparr>"

definition save_plan :: "exit_plan \<Rightarrow> (lifecycle_store, unit) st" where
  "save_plan plan s =
     (case map_of (ls_plans s) (xl_position_id plan) of
        Some existing \<Rightarrow>
          if \<not> exit_plan_eq existing plan
          then (Inl (ValueError ''position exit plan is immutable''), s)
          else (Inr (), s\<lparr>ls_plans := AList.update (xl_position_id plan) plan (ls_plans s)\<rparr>)
      | None \<Rightarrow> (Inr (), s\<lparr>ls_plans := AList.update (xl_position_id plan) plan (ls_plans s)\<rparr>))"

definition active_plans :: "lifecycle_store \<Rightarrow> market \<Rightarrow> string \<Rightarrow> exit_plan list" where
  "active_plans s m account =
     map snd (filter (\<lambda>(i, plan). xl_market plan = m \<and> xl_account_id plan = account
                        \<and> map_of (ls_outcomes s) i = None) (ls_plans s))"

definition save_outcome :: "outcome \<Rightarrow> exit_reason \<Rightarrow> (lifecycle_store, unit) st" where
  "save_outcome out reason s =
     (case map_of (ls_outcomes s) (oc_position_id out) of
        Some existing \<Rightarrow>
          if existing \<noteq> out then (Inl (ValueError ''position outcome is immutable''), s)
          else (Inr (), s\<lparr>ls_outcomes := AList.update (oc_position_id out) out (ls_outcomes s),
                          ls_reasons := AList.update (oc_position_id out) reason (ls_reasons s)\<rparr>)
      | None \<Rightarrow> (Inr (), s\<lparr>ls_outcomes := AList.update (oc_position_id out) out (ls_outcomes s),
                           ls_reasons := AList.update (oc_position_id out) reason (ls_reasons s)\<rparr>))"

interpretation plans: immutable_store "\<lambda>s. map_of (ls_plans s)" save_plan xl_position_id
  by unfold_locales
    (auto simp: save_plan_def exit_plan_eq_def split: option.splits if_splits)

interpretation outcomes: immutable_store
  "\<lambda>s. map_of (ls_outcomes s)" "\<lambda>out. save_outcome out reason" oc_position_id for reason
  by unfold_locales
    (auto simp: save_outcome_def split: option.splits if_splits)

section \<open>The lifecycle\<close>

record lifecycle =
  lf_store :: lifecycle_store
  lf_engine :: paper_engine
  lf_ledger :: ledger
  lf_recorder :: outcome_recorder

abbreviation on_store :: "(lifecycle_store, 'a) st \<Rightarrow> (lifecycle, 'a) st" where
  "on_store \<equiv> zoom lf_store (\<lambda>x s. s\<lparr>lf_store := x\<rparr>)"

abbreviation on_engine :: "(paper_engine, 'a) st \<Rightarrow> (lifecycle, 'a) st" where
  "on_engine \<equiv> zoom lf_engine (\<lambda>x s. s\<lparr>lf_engine := x\<rparr>)"

abbreviation on_decisions :: "(ledger, 'a) st \<Rightarrow> (lifecycle, 'a) st" where
  "on_decisions \<equiv> zoom lf_ledger (\<lambda>x s. s\<lparr>lf_ledger := x\<rparr>)"

abbreviation on_recorder :: "(outcome_recorder, 'a) st \<Rightarrow> (lifecycle, 'a) st" where
  "on_recorder \<equiv> zoom lf_recorder (\<lambda>x s. s\<lparr>lf_recorder := x\<rparr>)"

definition exit_plan_of :: "portfolio_allocation \<Rightarrow> execution_receipt \<Rightarrow> exit_plan" where
  "exit_plan_of a r =
     (let c = sr_candidate (pa_candidate a); p = er_position r; f = er_fill r in
      \<lparr>xl_position_id = pn_position_id p, xl_market = pn_market p, xl_account_id = pn_account_id p,
       xl_symbol = pn_symbol p, xl_entry_action = sg_action (dc_signal c),
       xl_quantity = pf_quantity f, xl_stop_price = pa_stop_price a,
       xl_target_price = pa_target_price a,
       xl_allocated_capital = pf_quantity f * pf_price f + pf_fee f,
       xl_candidate_id = dc_candidate_id c, xl_approval_id = dc_approval_id c,
       xl_identity = dc_identity c, xl_gold_snapshot_ids = dc_gold_snapshot_ids c,
       xl_created_at = pf_filled_at f\<rparr>)"

text \<open>
  \<open>zip(allocations, receipts, strict=True)\<close>: the pairs are processed before a difference
  in length raises.
\<close>

definition lifecycle_register ::
  "portfolio_allocation list \<Rightarrow> execution_receipt list \<Rightarrow> (lifecycle, unit) st" where
  "lifecycle_register allocations receipts =
     bind_st (for_st (\<lambda>(a, r). on_store (save_plan (exit_plan_of a r))) (zip allocations receipts)) (\<lambda>_.
     if length allocations \<noteq> length receipts
     then raise_st (ValueError ''zip() arguments have different lengths'') else return_st ())"

definition trigger :: "exit_plan \<Rightarrow> pyfloat \<Rightarrow> exit_reason option" where
  "trigger plan mark =
     (if xl_entry_action plan = BUY then
        (if mark \<le> xl_stop_price plan then Some EXIT_STOP
         else if xl_target_price plan \<le> mark then Some EXIT_TARGET else None)
      else
        (if xl_stop_price plan \<le> mark then Some EXIT_STOP
         else if mark \<le> xl_target_price plan then Some EXIT_TARGET else None))"

definition exit_intent ::
  "exit_plan \<Rightarrow> exit_reason \<Rightarrow> pyfloat \<Rightarrow> instant \<Rightarrow> (string, string) dict \<Rightarrow> trade_intent" where
  "exit_intent plan reason mark now golds =
     \<lparr>ti_intent_id = stable_id [''protective-exit'', xl_position_id plan, exit_reason_value reason],
      ti_market = xl_market plan, ti_account_id = xl_account_id plan, ti_symbol = xl_symbol plan,
      ti_action = (if xl_entry_action plan = BUY then SELL else BUY), ti_quantity = xl_quantity plan,
      ti_reference_price = mark, ti_event_time = Aware now, ti_candidate_id = xl_candidate_id plan,
      ti_approval_id = xl_approval_id plan, ti_identity = xl_identity plan,
      ti_gold_snapshot_ids = filter (\<lambda>g. g \<noteq> [])
        (dict_fromkeys (xl_gold_snapshot_ids plan
           @ [case map_of golds (xl_symbol plan) of Some g \<Rightarrow> g | None \<Rightarrow> []])),
      ti_agent_evidence_id = None\<rparr>"

definition exit_decision ::
  "exit_plan \<Rightarrow> exit_reason \<Rightarrow> instant \<Rightarrow> decision_status \<Rightarrow> string \<Rightarrow> decision result" where
  "exit_decision plan reason now status code =
     decision_create (stable_id [''exit-cycle'', xl_position_id plan, exit_reason_value reason])
       (xl_market plan) (xl_symbol plan) (Some (si_timeframe (xl_identity plan))) POSITION_MANAGEMENT
       status code (Aware now) (Some (xl_candidate_id plan)) (Some (identity_key (xl_identity plan)))
       [] []"

definition record_exit ::
  "exit_plan \<Rightarrow> exit_reason \<Rightarrow> instant \<Rightarrow> decision_status \<Rightarrow> string \<Rightarrow> (lifecycle, unit) st" where
  "record_exit plan reason now status code =
     bind_st (lift_st (exit_decision plan reason now status code)) (\<lambda>d. on_decisions (ledger_append d))"

definition exit_key :: "exit_plan \<Rightarrow> exit_reason \<Rightarrow> string" where
  "exit_key plan reason = ''exit:'' @ xl_position_id plan @ '':'' @ exit_reason_value reason"

definition manage_plan ::
  "risk_limits \<Rightarrow> (string, pyfloat) dict \<Rightarrow> portfolio_snapshot \<Rightarrow> (string, string) dict \<Rightarrow> instant
     \<Rightarrow> exit_plan \<Rightarrow> outcome list \<Rightarrow> (lifecycle, outcome list) st" where
  "manage_plan limits marks portfolio golds now plan acc =
     (case map_of marks (xl_symbol plan) of
        None \<Rightarrow> return_st acc
      | Some mark \<Rightarrow> (case trigger plan mark of
          None \<Rightarrow> return_st acc
        | Some reason \<Rightarrow>
            bind_st (lift_st (trade_intent_post_init (exit_intent plan reason mark now golds))) (\<lambda>intent.
            bind_st (lift_st (evaluate_exit limits intent portfolio (Aware now))) (\<lambda>d.
            if \<not> approved d then
              bind_st (record_exit plan reason now REJECTED ''EXIT_RISK_REJECTED'') (\<lambda>_. return_st acc)
            else
              bind_st (on_engine (execute d (exit_key plan reason) (Aware now))) (\<lambda>receipt.
              bind_st (on_recorder (outcome_record (er_position receipt) (xl_identity plan)
                         (xl_allocated_capital plan) (Aware now))) (\<lambda>out.
              bind_st (on_store (save_outcome out reason)) (\<lambda>_.
              bind_st (record_exit plan reason now ORDERED (''PAPER_'' @ exit_reason_value reason @ ''_EXIT''))
                (\<lambda>_. return_st (acc @ [out])))))))))"

definition manage ::
  "risk_limits \<Rightarrow> market \<Rightarrow> string \<Rightarrow> (string, pyfloat) dict \<Rightarrow> portfolio_snapshot
     \<Rightarrow> (string, string) dict \<Rightarrow> datetime \<Rightarrow> (lifecycle, outcome list) st" where
  "manage limits m account marks portfolio golds evaluated_at s =
     (case utc evaluated_at ''evaluated_at'' of
        Inl e \<Rightarrow> (Inl e, s)
      | Inr now \<Rightarrow>
          fold_st (manage_plan limits marks portfolio golds now) (active_plans (lf_store s) m account) [] s)"

section \<open>Lemmas\<close>

text \<open>The store files every plan under its position, once.\<close>

definition plans_ok :: "lifecycle_store \<Rightarrow> bool" where
  "plans_ok s \<longleftrightarrow> dict_ok (ls_plans s) \<and> list_all (\<lambda>(i, plan). i = xl_position_id plan) (ls_plans s)"

lemma save_plan_ok:
  assumes "plans_ok s"
  shows "plans_ok (snd (save_plan plan s))"
proof -
  have "set (AList.update k v xs) \<subseteq> insert (k, v) (set xs)" for k v and xs :: "(string, exit_plan) dict"
    by (induction xs) auto
  then have "plans_ok (s\<lparr>ls_plans := AList.update (xl_position_id plan) plan (ls_plans s)\<rparr>)"
    using assms by (fastforce simp: plans_ok_def list_all_iff)
  then show ?thesis using assms by (simp add: save_plan_def split: option.splits)
qed

lemma active_plans_distinct:
  assumes "plans_ok s"
  shows "distinct (map xl_position_id (active_plans s m account))"
proof -
  have ids: "map xl_position_id (map snd ps) = map fst ps"
    if "list_all (\<lambda>(i, plan). i = xl_position_id plan) ps" for ps
    using that by (induction ps) auto
  let ?P = "\<lambda>(i, plan). xl_market plan = m \<and> xl_account_id plan = account \<and> map_of (ls_outcomes s) i = None"
  have "map xl_position_id (active_plans s m account) = map fst (filter ?P (ls_plans s))"
    unfolding active_plans_def
    by (rule ids) (use assms in \<open>auto simp: plans_ok_def list_all_iff\<close>)
  then show ?thesis using assms by (simp add: plans_ok_def dict_ok_def distinct_map_filter)
qed

text \<open>Two exits have the same key only if they are of one position and for one reason.\<close>

lemma exit_key_eq: "exit_key a r = exit_key b r' \<longleftrightarrow> xl_position_id a = xl_position_id b \<and> r = r'"
proof -
  have "x @ '':'' @ exit_reason_value r = y @ '':'' @ exit_reason_value r' \<longleftrightarrow> x = y \<and> r = r'" for x y
  proof (cases "r = r'")
    case False
    then have "last (exit_reason_value r) \<noteq> last (exit_reason_value r')"
      by (cases r; cases r') auto
    then have "last (x @ '':'' @ exit_reason_value r) \<noteq> last (y @ '':'' @ exit_reason_value r')"
      by (cases r; cases r') auto
    then show ?thesis using False by metis
  qed simp
  then show ?thesis by (simp add: exit_key_def)
qed

text \<open>
  When a plan's level is reached, written out for both directions: a long position is
  stopped at or below its stop and takes profit at or above its target, a short one the
  other way round.
\<close>

definition reached :: "exit_plan \<Rightarrow> pyfloat \<Rightarrow> exit_reason \<Rightarrow> bool" where
  "reached plan mark reason \<longleftrightarrow>
     (case (reason, xl_entry_action plan) of
        (EXIT_STOP, BUY) \<Rightarrow> mark \<le> xl_stop_price plan
      | (EXIT_STOP, _) \<Rightarrow> xl_stop_price plan \<le> mark
      | (EXIT_TARGET, BUY) \<Rightarrow> xl_target_price plan \<le> mark
      | (EXIT_TARGET, _) \<Rightarrow> mark \<le> xl_target_price plan)"

lemma trigger_reached:
  "trigger plan mark = Some reason \<Longrightarrow> reached plan mark reason"
  "trigger plan mark = None \<Longrightarrow> \<not> reached plan mark reason"
  by (cases reason; cases "xl_entry_action plan"; auto simp: trigger_def reached_def split: if_splits)+

text \<open>The position-management decision on a plan is in the decision ledger.\<close>

definition exit_noted ::
  "exit_plan \<Rightarrow> exit_reason \<Rightarrow> instant \<Rightarrow> decision_status \<Rightarrow> string \<Rightarrow> lifecycle \<Rightarrow> bool" where
  "exit_noted plan reason now status code s \<longleftrightarrow>
     (case exit_decision plan reason now status code of
        Inl e \<Rightarrow> False
      | Inr d \<Rightarrow> map_of (dl_decisions (lf_ledger s)) (dn_decision_id d) = Some d)"

lemma record_exit_Inr:
  assumes "record_exit plan reason now status code s = (Inr u, s')"
  shows "exit_noted plan reason now status code s'" and "lf_store s' = lf_store s"
    and "lf_engine s' = lf_engine s" and "lf_recorder s' = lf_recorder s"
  using assms decisions.put_stores
  by (auto simp: record_exit_def exit_noted_def zoom_iff bind_st_Inr_iff lift_st_def split: sum.splits)

text \<open>
  What one plan contributes when the pass goes on: nothing, because it has no mark, its
  levels are not reached or risk rejected the exit; or one outcome.
\<close>

lemma manage_plan_cases:
  assumes "manage_plan limits marks portfolio golds now plan acc s = (Inr r, s')"
  obtains (idle) "r = acc" and "s' = s" and "map_of marks (xl_symbol plan) = None"
    | (unreached) mark where "r = acc" and "s' = s" and "map_of marks (xl_symbol plan) = Some mark"
        and "trigger plan mark = None"
    | (rejected) mark reason d where "r = acc"
        and "map_of marks (xl_symbol plan) = Some mark" and "trigger plan mark = Some reason"
        and "evaluate_exit limits (exit_intent plan reason mark now golds) portfolio (Aware now) = Inr d"
        and "\<not> approved d" and "exit_noted plan reason now REJECTED ''EXIT_RISK_REJECTED'' s'"
        and "lf_store s' = lf_store s" and "lf_engine s' = lf_engine s" and "lf_recorder s' = lf_recorder s"
    | (exited) mark reason out d receipt where "r = acc @ [out]"
        and "map_of marks (xl_symbol plan) = Some mark" and "trigger plan mark = Some reason"
        and "evaluate_exit limits (exit_intent plan reason mark now golds) portfolio (Aware now) = Inr d"
        and "approved d"
        and "execute d (exit_key plan reason) (Aware now) (lf_engine s) = (Inr receipt, lf_engine s')"
        and "outcome_record (er_position receipt) (xl_identity plan) (xl_allocated_capital plan)
               (Aware now) (lf_recorder s) = (Inr out, lf_recorder s')"
        and "save_outcome out reason (lf_store s) = (Inr (), lf_store s')"
        and "exit_noted plan reason now ORDERED (''PAPER_'' @ exit_reason_value reason @ ''_EXIT'') s'"
proof (cases "map_of marks (xl_symbol plan)")
  case None
  then show ?thesis using assms idle by (simp add: manage_plan_def return_st_def)
next
  case mark: (Some mark)
  show ?thesis
  proof (cases "trigger plan mark")
    case None
    then show ?thesis using assms unreached mark by (simp add: manage_plan_def return_st_def)
  next
    case trig: (Some reason)
    let ?t = "exit_intent plan reason mark now golds"
    have t: "trade_intent_post_init ?t = Inr ?t"
    proof -
      obtain x where "trade_intent_post_init ?t = Inr x"
        using assms mark trig by (auto simp: manage_plan_def)
      then show ?thesis using trade_intent_ok(1) by metis
    qed
    then obtain d where d: "evaluate_exit limits ?t portfolio (Aware now) = Inr d"
      using assms mark trig by (auto simp: manage_plan_def)
    show ?thesis
    proof (cases "approved d")
      case False
      then obtain u where u: "record_exit plan reason now REJECTED ''EXIT_RISK_REJECTED'' s = (Inr u, s')"
        and r: "r = acc"
        using assms mark trig t d by (auto simp: manage_plan_def)
      then show ?thesis using rejected [OF r mark trig d False] record_exit_Inr [OF u] by simp
    next
      case True
      then obtain receipt s1 out s2 s3 u where
        s1: "on_engine (execute d (exit_key plan reason) (Aware now)) s = (Inr receipt, s1)"
        and s2: "on_recorder (outcome_record (er_position receipt) (xl_identity plan)
              (xl_allocated_capital plan) (Aware now)) s1 = (Inr out, s2)"
        and s3: "on_store (save_outcome out reason) s2 = (Inr (), s3)"
        and u: "record_exit plan reason now ORDERED (''PAPER_'' @ exit_reason_value reason @ ''_EXIT'') s3
            = (Inr u, s')" and r: "r = acc @ [out]"
        using assms mark trig t d by (auto simp: manage_plan_def)
      then show ?thesis using exited [OF r mark trig d True] record_exit_Inr [OF u]
        by (auto simp: zoom_iff)
    qed
  qed
qed

text \<open>Every pass keeps the saved outcomes, on both outcomes of the call.\<close>

lemma manage_plan_keeps_outcome:
  "keeps (\<lambda>s. map_of (ls_outcomes (lf_store s)) i = Some w)
     (manage_plan limits marks portfolio golds now plan acc)"
proof -
  have store: "map_of (ls_outcomes (snd (save_outcome out reason (lf_store s)))) i = Some w"
    if "map_of (ls_outcomes (lf_store s)) i = Some w" for out reason and s :: lifecycle
    using outcomes.put_keeps [of out reason "lf_store s"] that by (metis prod.collapse)
  have rec: "keeps (\<lambda>s. map_of (ls_outcomes (lf_store s)) i = Some w) (record_exit plan reason now status code)"
    for reason status code
    unfolding record_exit_def by (intro keeps_intros keeps_zoom) simp
  show ?thesis
    unfolding manage_plan_def
    by (auto intro!: keeps_intros rec store keeps_zoom split: option.splits)
qed

lemma manage_keeps_outcome:
  assumes "manage limits m account marks portfolio golds evaluated_at s = (x, s')"
    and "map_of (ls_outcomes (lf_store s)) i = Some w"
  shows "map_of (ls_outcomes (lf_store s')) i = Some w"
proof -
  have "keeps (\<lambda>s. map_of (ls_outcomes (lf_store s)) i = Some w)
      (fold_st (manage_plan limits marks portfolio golds now) plans [])" for now plans
    by (intro keeps_intros manage_plan_keeps_outcome)
  then show ?thesis using assms
    by (auto simp: manage_def keeps_def split: sum.splits) (metis snd_conv)
qed

section \<open>Properties\<close>

text \<open>
  \<open>exit_of\<close>: the plan's mark reached a level, the risk engine approved the exit intent of the
  plan, and the ledger holds a receipt of that decision under the plan's exit key.  The
  receipt was there before the pass (an exit retried after an interruption), or the pass
  filled it: an order of the plan's market, account and symbol, against the entry's side,
  for the plan's quantity.  The position of the receipt is closed and the outcome reports
  it, unless the recorder already had an outcome of that position, from before the pass
  or from an earlier plan of it.  The outcome is of the plan's strategy and is on file, and
  the decision ledger has the exit.
\<close>

definition reports :: "outcome \<Rightarrow> paper_position \<Rightarrow> bool" where
  "reports out p \<longleftrightarrow> pn_state p = POSITION_CLOSED \<and> pn_closed_at p = Some (oc_closed_at out)
     \<and> oc_position_id out = pn_position_id p \<and> oc_market out = pn_market p
     \<and> oc_account_id out = pn_account_id p \<and> oc_symbol out = pn_symbol p
     \<and> oc_net_pnl out = net_pnl_of p"

definition exit_order :: "exit_plan \<Rightarrow> execution_receipt \<Rightarrow> bool" where
  "exit_order plan r \<longleftrightarrow>
     order_key r = (xl_market plan, xl_account_id plan, xl_symbol plan)
   \<and> (pn_market (er_position r), pn_account_id (er_position r), pn_symbol (er_position r)) = order_key r
   \<and> po_action (er_order r) = (case xl_entry_action plan of BUY \<Rightarrow> SELL | _ \<Rightarrow> BUY)
   \<and> pf_quantity (er_fill r) = xl_quantity plan"

definition exit_of ::
  "risk_limits \<Rightarrow> (string, pyfloat) dict \<Rightarrow> portfolio_snapshot \<Rightarrow> (string, string) dict \<Rightarrow> instant
     \<Rightarrow> lifecycle \<Rightarrow> lifecycle \<Rightarrow> outcome list \<Rightarrow> exit_plan \<Rightarrow> outcome \<Rightarrow> bool" where
  "exit_of limits marks portfolio golds now s s' outs plan out \<longleftrightarrow>
     (\<exists>mark reason d r.
        map_of marks (xl_symbol plan) = Some mark \<and> reached plan mark reason
      \<and> evaluate_exit limits (exit_intent plan reason mark now golds) portfolio (Aware now) = Inr d
      \<and> approved d
      \<and> map_of (pe_receipts (lf_engine s')) (exit_key plan reason) = Some r
      \<and> po_decision_id (er_order r) = rd_decision_id d
      \<and> (case map_of (pe_receipts (lf_engine s)) (exit_key plan reason) of
           Some old \<Rightarrow> r = old | None \<Rightarrow> exit_order plan r)
      \<and> (reports out (er_position r)
         \<or> map_of (lf_recorder s) (pn_position_id (er_position r)) = Some out
         \<or> 2 \<le> count_list outs out)
      \<and> oc_strategy_identity out = xl_identity plan
      \<and> map_of (ls_outcomes (lf_store s')) (oc_position_id out) = Some out
      \<and> exit_noted plan reason now ORDERED (''PAPER_'' @ exit_reason_value reason @ ''_EXIT'') s')"

text \<open>
  \<open>left_open\<close>: a plan the pass does not exit has no mark, or neither level is reached, or
  risk rejected its exit and the decision ledger says so.
\<close>

definition left_open ::
  "risk_limits \<Rightarrow> (string, pyfloat) dict \<Rightarrow> portfolio_snapshot \<Rightarrow> (string, string) dict \<Rightarrow> instant
     \<Rightarrow> lifecycle \<Rightarrow> exit_plan \<Rightarrow> bool" where
  "left_open limits marks portfolio golds now s' plan \<longleftrightarrow>
     (case map_of marks (xl_symbol plan) of
        None \<Rightarrow> True
      | Some mark \<Rightarrow>
          \<not> reached plan mark EXIT_STOP \<and> \<not> reached plan mark EXIT_TARGET
        \<or> (\<exists>reason d. reached plan mark reason
             \<and> evaluate_exit limits (exit_intent plan reason mark now golds) portfolio (Aware now) = Inr d
             \<and> \<not> approved d \<and> exit_noted plan reason now REJECTED ''EXIT_RISK_REJECTED'' s'))"

text \<open>Positions are filed under their own market, account and symbol.\<close>

definition positions_filed :: "paper_engine \<Rightarrow> bool" where
  "positions_filed e \<longleftrightarrow>
     (\<forall>m a y p. map_of (pe_positions e) (m, a, y) = Some p \<longrightarrow>
        pn_market p = m \<and> pn_account_id p = a \<and> pn_symbol p = y)"

lemma apply_fill_key:
  assumes "apply_fill current d f = Inr p"
    and "\<And>c. current = Some c \<Longrightarrow> (pn_market c, pn_account_id c, pn_symbol c) = position_key_of (rd_intent d)"
  shows "(pn_market p, pn_account_id p, pn_symbol p) = position_key_of (rd_intent d)"
  using assms
  by (auto simp: apply_fill_def open_position_def Let_def position_key_of_def split: option.splits if_splits)

lemma filled_filed:
  assumes "filled d key now e r e'" and "positions_filed e"
  shows "positions_filed e'"
    and "(pn_market (er_position r), pn_account_id (er_position r), pn_symbol (er_position r))
      = position_key_of (rd_intent d)"
proof -
  let ?t = "rd_intent d"
  have "apply_fill (map_of (pe_positions e) (position_key_of ?t)) d (er_fill r) = Inr (er_position r)"
    using assms(1) unfolding filled_def by blast
  then show k: "(pn_market (er_position r), pn_account_id (er_position r), pn_symbol (er_position r))
      = position_key_of ?t"
    by (rule apply_fill_key) (use assms(2) in \<open>auto simp: positions_filed_def position_key_of_def\<close>)
  have "pe_positions e' = AList.update (position_key_of ?t) (er_position r) (pe_positions e)"
    using assms(1) by (simp add: filled_def)
  then show "positions_filed e'"
    using assms(2) k by (auto simp: positions_filed_def position_key_of_def)
qed

text \<open>An approved exit of a plan, seen from the engine before the pass.\<close>

lemma exit_executed:
  assumes "execute d (exit_key plan reason) (Aware now) e = (Inr r, e')" and "positions_filed e"
    and "rd_intent d = exit_intent plan reason mark now golds"
  shows "positions_filed e'" and "map_of (pe_receipts e') (exit_key plan reason) = Some r"
    and "po_decision_id (er_order r) = rd_decision_id d"
    and "case map_of (pe_receipts e) (exit_key plan reason) of Some old \<Rightarrow> r = old | None \<Rightarrow> exit_order plan r"
    and "k \<noteq> exit_key plan reason \<Longrightarrow> map_of (pe_receipts e') k = map_of (pe_receipts e) k"
proof -
  have "positions_filed e'
    \<and> (case map_of (pe_receipts e) (exit_key plan reason) of Some old \<Rightarrow> r = old | None \<Rightarrow> exit_order plan r)
    \<and> (k \<noteq> exit_key plan reason \<longrightarrow> map_of (pe_receipts e') k = map_of (pe_receipts e) k)"
    using assms(1)
  proof (cases rule: execute_cases)
    case (fresh r' t)
    have "r' = r" using fresh(1) by simp
    note f = fresh(3) [unfolded this]
    have "exit_order plan r"
      using f filled_filed(2) [OF f assms(2)] assms(3)
      by (cases "xl_entry_action plan")
        (auto simp: exit_order_def filled_def order_key_def order_of_def Let_def exit_intent_def position_key_of_def)
    then show ?thesis using f filled_filed(1) [OF f assms(2)] by (simp add: filled_def)
  qed (use assms(2) in auto)
  then show "positions_filed e'"
    and "case map_of (pe_receipts e) (exit_key plan reason) of Some old \<Rightarrow> r = old | None \<Rightarrow> exit_order plan r"
    and "k \<noteq> exit_key plan reason \<Longrightarrow> map_of (pe_receipts e') k = map_of (pe_receipts e) k"
    by blast+
qed (use execute_Inr [OF assms(1)] in auto)

text \<open>What the rest of the pass keeps: receipts, saved outcomes and recorded decisions.\<close>

lemma manage_plan_keeps_receipt:
  "keeps (\<lambda>s. map_of (pe_receipts (lf_engine s)) k = Some r)
     (manage_plan limits marks portfolio golds now plan acc)"
proof -
  have "map_of (pe_receipts (snd (execute d key t (lf_engine s)))) k = Some r"
    if "map_of (pe_receipts (lf_engine s)) k = Some r" for d key t and s :: lifecycle
    using execute_receipt_keeps that by (simp add: keeps_def)
  moreover have "keeps (\<lambda>s. map_of (pe_receipts (lf_engine s)) k = Some r) (record_exit plan reason now status code)"
    for reason status code
    unfolding record_exit_def by (intro keeps_intros keeps_zoom) simp
  ultimately show ?thesis
    unfolding manage_plan_def by (auto intro!: keeps_intros keeps_zoom split: option.splits)
qed

lemma manage_plan_keeps_noted:
  "keeps (exit_noted p reason t status code) (manage_plan limits marks portfolio golds now plan acc)"
proof -
  have led: "map_of (dl_decisions (snd (ledger_append d l))) i = Some x"
    if "map_of (dl_decisions l) i = Some x" for d l i x
    using decisions.puts_keep that by (simp add: keeps_def)
  have "keeps (exit_noted p reason t status code) (record_exit plan r now st c)" for r st c
    unfolding record_exit_def
    by (intro keeps_intros keeps_zoom) (auto simp: exit_noted_def led split: sum.splits)
  moreover have "exit_noted p reason t status code (s\<lparr>lf_engine := e\<rparr>) = exit_noted p reason t status code s"
    "exit_noted p reason t status code (s\<lparr>lf_recorder := x\<rparr>) = exit_noted p reason t status code s"
    "exit_noted p reason t status code (s\<lparr>lf_store := y\<rparr>) = exit_noted p reason t status code s" for s e x y
    by (simp_all add: exit_noted_def split: sum.split)
  ultimately show ?thesis
    unfolding manage_plan_def by (auto intro!: keeps_intros keeps_zoom split: option.splits)
qed

lemmas manage_rest_keeps =
  keepsD [OF keeps_fold [OF manage_plan_keeps_receipt]]
  keepsD [OF keeps_fold [OF manage_plan_keeps_outcome]]
  keepsD [OF keeps_fold [OF manage_plan_keeps_noted]]

lemma exit_of_later:
  assumes "fold_st (manage_plan limits marks portfolio golds now) plans acc t = (Inr r, s')"
    and "exit_of limits marks portfolio golds now s t outs plan out" and "outs' = outs @ rest"
  shows "exit_of limits marks portfolio golds now s s' outs' plan out"
proof -
  have "count_list outs out \<le> count_list outs' out" by (simp add: assms(3))
  then show ?thesis
    using assms(2) manage_rest_keeps [OF _ assms(1)] unfolding exit_of_def by (meson order.trans)
qed

lemma left_open_later:
  assumes "fold_st (manage_plan limits marks portfolio golds now) plans acc t = (Inr r, s')"
    and "left_open limits marks portfolio golds now t plan"
  shows "left_open limits marks portfolio golds now s' plan"
  using assms(2) manage_rest_keeps(3) [OF _ assms(1)] unfolding left_open_def
  by (auto split: option.splits)

text \<open>The recorder holds what it held before the pass, and outcomes of the pass.\<close>

definition recorded_in :: "lifecycle \<Rightarrow> outcome list \<Rightarrow> lifecycle \<Rightarrow> bool" where
  "recorded_in s acc t \<longleftrightarrow>
     (\<forall>i out. map_of (lf_recorder t) i = Some out \<longrightarrow> map_of (lf_recorder s) i = Some out \<or> out \<in> set acc)"

text \<open>\<open>unbound s plans t\<close>: the exit keys of the plans are bound in \<open>t\<close> as they were in \<open>s\<close>.\<close>

definition unbound :: "lifecycle \<Rightarrow> exit_plan list \<Rightarrow> lifecycle \<Rightarrow> bool" where
  "unbound s plans t \<longleftrightarrow>
     (\<forall>plan \<in> set plans. \<forall>reason. map_of (pe_receipts (lf_engine t)) (exit_key plan reason)
        = map_of (pe_receipts (lf_engine s)) (exit_key plan reason))"

definition handled ::
  "risk_limits \<Rightarrow> (string, pyfloat) dict \<Rightarrow> portfolio_snapshot \<Rightarrow> (string, string) dict \<Rightarrow> instant
     \<Rightarrow> lifecycle \<Rightarrow> lifecycle \<Rightarrow> outcome list \<Rightarrow> exit_plan \<Rightarrow> outcome option \<Rightarrow> bool" where
  "handled limits marks portfolio golds now s s' outs plan res \<longleftrightarrow>
     (case res of
        None \<Rightarrow> left_open limits marks portfolio golds now s' plan
      | Some out \<Rightarrow> exit_of limits marks portfolio golds now s s' outs plan out)"

lemma manage_plan_handled:
  assumes step: "manage_plan limits marks portfolio golds now plan acc t = (Inr acc', t')"
    and "positions_filed (lf_engine t)" and "recorded_in s acc t" and "unbound s (plan # plans) t"
    and "xl_position_id plan \<notin> xl_position_id ` set plans"
  shows "positions_filed (lf_engine t')" and "recorded_in s acc' t'" and "unbound s plans t'"
    and "acc' = acc \<and> left_open limits marks portfolio golds now t' plan
       \<or> (\<exists>out. acc' = acc @ [out] \<and> exit_of limits marks portfolio golds now s t' acc' plan out)"
proof -
  have "positions_filed (lf_engine t') \<and> recorded_in s acc' t' \<and> unbound s plans t'
    \<and> (acc' = acc \<and> left_open limits marks portfolio golds now t' plan
       \<or> (\<exists>out. acc' = acc @ [out] \<and> exit_of limits marks portfolio golds now s t' acc' plan out))"
    using step
  proof (cases rule: manage_plan_cases)
    case idle
    then show ?thesis using assms(2-4) by (simp add: left_open_def unbound_def)
  next
    case (unreached mark)
    then show ?thesis using assms(2-4) trigger_reached(2) by (simp add: left_open_def unbound_def)
  next
    case (rejected mark reason d)
    then have "left_open limits marks portfolio golds now t' plan"
      using trigger_reached(1) [OF rejected(3)] by (auto simp: left_open_def)
    then show ?thesis using assms(2-4) rejected by (simp add: unbound_def recorded_in_def)
  next
    case (exited mark reason out d r)
    have "rd_intent d = exit_intent plan reason mark now golds"
      using exited(4) by (elim evaluate_exit_Inr)
    note x = exit_executed [OF exited(6) assms(2) this]
    have rec: "recorded_in s acc' t'" "oc_strategy_identity out = xl_identity plan"
      "reports out (er_position r) \<or> map_of (lf_recorder s) (pn_position_id (er_position r)) = Some out
        \<or> out \<in> set acc"
      using exited(7) by (cases rule: outcome_record_cases;
        use assms(3) exited(1) in \<open>auto simp: recorded_in_def reports_def\<close>)+
    have "2 \<le> count_list acc' out" if "out \<in> set acc"
      using that exited(1) count_list_0_iff [of acc out] by simp
    then have "exit_of limits marks portfolio golds now s t' acc' plan out"
      unfolding exit_of_def
      using exited(2,4,5,9) trigger_reached(1) [OF exited(3)] x(2-4) rec(2,3) assms(4)
        outcomes.put_stores [OF exited(8)]
      by (intro exI [of _ mark] exI [of _ reason] exI [of _ d] exI [of _ r]) (auto simp: unbound_def)
    moreover have "unbound s plans t'"
      unfolding unbound_def
    proof (intro ballI allI)
      fix plan' reason'
      assume "plan' \<in> set plans"
      then have "exit_key plan' reason' \<noteq> exit_key plan reason"
        using assms(5) unfolding exit_key_eq by (metis imageI)
      then show "map_of (pe_receipts (lf_engine t')) (exit_key plan' reason')
          = map_of (pe_receipts (lf_engine s)) (exit_key plan' reason')"
        using x(5) assms(4) \<open>plan' \<in> set plans\<close> by (simp add: unbound_def)
    qed
    ultimately show ?thesis using exited(1) rec(1) x(1) by blast
  qed
  then show "positions_filed (lf_engine t')" and "recorded_in s acc' t'" and "unbound s plans t'"
    and "acc' = acc \<and> left_open limits marks portfolio golds now t' plan
       \<or> (\<exists>out. acc' = acc @ [out] \<and> exit_of limits marks portfolio golds now s t' acc' plan out)"
    by blast+
qed

lemma manage_fold_handled:
  assumes "fold_st (manage_plan limits marks portfolio golds now) plans acc t = (Inr outs, s')"
    and "positions_filed (lf_engine t)" and "recorded_in s acc t" and "unbound s plans t"
    and "distinct (map xl_position_id plans)"
  shows "\<exists>ress. outs = acc @ List.map_filter (\<lambda>x. x) ress
    \<and> list_all2 (handled limits marks portfolio golds now s s' outs) plans ress"
  using assms
proof (induction plans arbitrary: acc t)
  case Nil
  then show ?case by (simp add: return_st_def map_filter_simps)
next
  case (Cons plan plans)
  obtain acc1 t1 where step: "manage_plan limits marks portfolio golds now plan acc t = (Inr acc1, t1)"
    and rest: "fold_st (manage_plan limits marks portfolio golds now) plans acc1 t1 = (Inr outs, s')"
    using Cons.prems(1) by auto
  note p = manage_plan_handled [OF step Cons.prems(2,3,4)]
  obtain ress where ress: "outs = acc1 @ List.map_filter (\<lambda>x. x) ress"
    "list_all2 (handled limits marks portfolio golds now s s' outs) plans ress"
    using Cons.IH [OF rest p(1-3)] Cons.prems(5) by auto
  from p(4) Cons.prems(5) consider "acc1 = acc" "left_open limits marks portfolio golds now t1 plan"
    | out where "acc1 = acc @ [out]" "exit_of limits marks portfolio golds now s t1 acc1 plan out"
    by auto
  then show ?case
  proof cases
    case 1
    then have "handled limits marks portfolio golds now s s' outs plan None"
      using left_open_later [OF rest] by (simp add: handled_def)
    then show ?thesis using ress 1(1) by (intro exI [of _ "None # ress"]) (simp add: map_filter_simps)
  next
    case (2 out)
    then have "handled limits marks portfolio golds now s s' outs plan (Some out)"
      using exit_of_later [OF rest 2(2) ress(1)] by (simp add: handled_def)
    then show ?thesis using ress 2(1) by (intro exI [of _ "Some out # ress"]) (simp add: map_filter_simps)
  qed
qed

text \<open>
  C12: A management pass exits exactly what it should and never loses an outcome.  On
  return, every active plan of the market and account is accounted for, in order
  (\<open>handled\<close>): it gave one of the returned outcomes, after its stop or target was reached, the
  risk engine approved its exit and a receipt for it stands in the ledger, filled by this
  pass against the plan's position and quantity or bound to its key before, with the
  position closed and the outcome on file; or it gave none, because it has no mark, no level
  is reached, or risk rejected the exit.  And on return and on exception alike every
  outcome saved before is still there unchanged, so a closed position never becomes active
  again.  (The store files plans by position and the book files positions by key, which
  every operation on them keeps.)
\<close>

theorem manage_exits_sound:
  assumes "manage limits m account marks portfolio golds (Aware now) s = (x, s')"
    and "plans_ok (lf_store s)" and "positions_filed (lf_engine s)"
  shows "(map_of (ls_outcomes (lf_store s)) i = Some w \<longrightarrow>
            map_of (ls_outcomes (lf_store s')) i = Some w)
    \<and> (x = Inr outs \<longrightarrow>
         (\<exists>ress. outs = List.map_filter (\<lambda>x. x) ress
            \<and> list_all2 (handled limits marks portfolio golds now s s' outs)
                (active_plans (lf_store s) m account) ress))"
proof -
  have "\<exists>ress. outs = List.map_filter (\<lambda>x. x) ress
      \<and> list_all2 (handled limits marks portfolio golds now s s' outs) (active_plans (lf_store s) m account) ress"
    if x: "x = Inr outs"
  proof -
    have "fold_st (manage_plan limits marks portfolio golds now) (active_plans (lf_store s) m account) [] s
        = (Inr outs, s')"
      using assms(1) x by (simp add: manage_def)
    from manage_fold_handled [OF this assms(3), of s] active_plans_distinct [OF assms(2)]
    show ?thesis by (simp add: recorded_in_def unbound_def)
  qed
  then show ?thesis using manage_keeps_outcome [OF assms(1)] by blast
qed

definition ex_plan :: exit_plan where
  "ex_plan = \<lparr>xl_position_id = ''p'', xl_market = NSE, xl_account_id = ''acc'',
     xl_symbol = ''RELIANCE'', xl_entry_action = BUY, xl_quantity = Fin 3, xl_stop_price = Fin 90,
     xl_target_price = Fin 120, xl_allocated_capital = Fin 300, xl_candidate_id = ''cand-1'',
     xl_approval_id = ''approval-1'', xl_identity = ex_identity, xl_gold_snapshot_ids = [''gold-1''],
     xl_created_at = 10\<rparr>"

definition ex_lifecycle :: lifecycle where
  "ex_lifecycle = \<lparr>lf_store = lifecycle_store_init\<lparr>ls_plans := [(''p'', ex_plan)]\<rparr>,
     lf_engine = ex_open_engine, lf_ledger = ledger_init, lf_recorder = []\<rparr>"

text \<open>The example plan is exited in any fresh snapshot that holds its position.\<close>

lemma ex_manage_exits:
  assumes "ps_captured_at portfolio = Aware 20" and "ps_account_id portfolio = ''acc''"
    and "ps_positions portfolio = [ex_position\<lparr>pp_mark_price := mark\<rparr>]"
    and "golds = [] \<or> golds = [(''RELIANCE'', ''f1'')]"
  shows "\<exists>out s'. manage ex_limits NSE ''acc'' [(''RELIANCE'', Fin 80)] portfolio golds (Aware 20) ex_lifecycle
     = (Inr [out], s') \<and> oc_symbol out = ''RELIANCE''"
proof -
  let ?t = "exit_intent ex_plan EXIT_STOP (Fin 80) 20 golds"
  have plans: "active_plans (lf_store ex_lifecycle) NSE ''acc'' = [ex_plan]"
    by (simp add: active_plans_def ex_lifecycle_def lifecycle_store_init_def ex_plan_def)
  have trig: "trigger ex_plan (Fin 80) = Some EXIT_STOP" by (simp add: trigger_def ex_plan_def)
  have t: "trade_intent_post_init ?t = Inr ?t"
    using assms(4) by (auto simp: trade_intent_post_init_def exit_intent_def ex_plan_def dict_fromkeys_def ex_identity_def)
  have "exit_reasons ex_limits ?t portfolio 20 20 = []"
    using assms(2,3) by (simp add: exit_reasons_def stale_reasons_Nil exit_intent_def ex_plan_def ex_risk_defs
        intent_target_def intent_delta_def total_seconds_def)
  then obtain d where d: "evaluate_exit ex_limits ?t portfolio (Aware 20) = Inr d" "approved d"
    "rd_intent d = ?t"
    using assms(1) by (simp add: evaluate_exit_def)
  obtain r where r: "fst (execute d (exit_key ex_plan EXIT_STOP) (Aware 20) ex_open_engine) = Inr r"
    "pn_state (er_position r) = POSITION_CLOSED" "pn_closed_at (er_position r) = Some 20"
    "pn_strategy_keys (er_position r) = [identity_key ex_identity]" "pn_market (er_position r) = NSE"
    "pn_symbol (er_position r) = ''RELIANCE''"
    using d
    by (simp add: execute_def apply_fill_def fill_accounting_def Let_def ex_open_engine_def
        exit_intent_def ex_plan_def position_key_of_def ex_intent_def open_position_def
        ex_decision_def exit_key_def str_strip_def is_space_def dict_fromkeys_def)
  then obtain e' where e': "execute d (exit_key ex_plan EXIT_STOP) (Aware 20) ex_open_engine = (Inr r, e')"
    by (metis prod.collapse)
  have "\<exists>out. outcome_record (er_position r) ex_identity (Fin 300) (Aware 20) []
      = (Inr out, [(pn_position_id (er_position r), out)]) \<and> oc_symbol out = ''RELIANCE''"
    using r by (simp add: outcome_record_def Let_def ex_identity_def)
  then show ?thesis
    using plans trig t d e'
    by (auto simp: manage_def manage_plan_def st_defs zoom_def ex_lifecycle_def ex_plan_def
        lifecycle_store_init_def save_outcome_def record_exit_def exit_decision_def decision_create_def
        ledger_append_def ledger_init_def)
qed

lemma ex_manage_returns:
  "\<exists>out s'. manage ex_limits NSE ''acc'' [(''RELIANCE'', Fin 80)] ex_portfolio [] (Aware 20) ex_lifecycle
     = (Inr [out], s')"
  using ex_manage_exits [of ex_portfolio "Fin 100" "[]"] by (auto simp: ex_portfolio_def ex_position_def)

text \<open>
  A mark of 80 stops the example plan out: the pass sells the 3 shares under the plan's exit
  key, and its only outcome reports the closed position of RELIANCE.
\<close>

theorem manage_exits_sound_witness:
  "\<exists>out s' r. manage ex_limits NSE ''acc'' [(''RELIANCE'', Fin 80)] ex_portfolio [] (Aware 20) ex_lifecycle
       = (Inr [out], s')
     \<and> map_of (pe_receipts (lf_engine s')) (exit_key ex_plan EXIT_STOP) = Some r
     \<and> po_action (er_order r) = SELL \<and> pf_quantity (er_fill r) = Fin 3
     \<and> reports out (er_position r) \<and> oc_symbol out = ''RELIANCE''"
proof -
  obtain out s' where m: "manage ex_limits NSE ''acc'' [(''RELIANCE'', Fin 80)] ex_portfolio [] (Aware 20)
      ex_lifecycle = (Inr [out], s')"
    using ex_manage_returns by blast
  have plans: "active_plans (lf_store ex_lifecycle) NSE ''acc'' = [ex_plan]"
    by (simp add: active_plans_def ex_lifecycle_def lifecycle_store_init_def ex_plan_def)
  have p: "plans_ok (lf_store ex_lifecycle)"
    by (simp add: plans_ok_def ex_lifecycle_def lifecycle_store_init_def ex_plan_def dict_ok_def)
  have e: "positions_filed (lf_engine ex_lifecycle)"
    by (simp add: positions_filed_def ex_lifecycle_def ex_open_engine_def position_key_of_def
        open_position_def Let_def ex_decision_def ex_intent_def)
  obtain ress where ress: "[out] = List.map_filter (\<lambda>x. x) ress"
    "list_all2 (handled ex_limits [(''RELIANCE'', Fin 80)] ex_portfolio [] 20 ex_lifecycle s' [out]) [ex_plan] ress"
    using manage_exits_sound [OF m p e, of _ _ "[out]"] unfolding plans by blast
  then have "handled ex_limits [(''RELIANCE'', Fin 80)] ex_portfolio [] 20 ex_lifecycle s' [out] ex_plan (Some out)"
    by (auto simp: list_all2_Cons1 map_filter_simps split: option.splits)
  then obtain mark reason r where r: "map_of [(''RELIANCE'', Fin 80)] (xl_symbol ex_plan) = Some mark"
    "reached ex_plan mark reason" "map_of (pe_receipts (lf_engine s')) (exit_key ex_plan reason) = Some r"
    "case map_of (pe_receipts (lf_engine ex_lifecycle)) (exit_key ex_plan reason) of
       Some old \<Rightarrow> r = old | None \<Rightarrow> exit_order ex_plan r"
    "reports out (er_position r) \<or> map_of (lf_recorder ex_lifecycle) (pn_position_id (er_position r)) = Some out
       \<or> 2 \<le> count_list [out] out"
    unfolding handled_def exit_of_def by auto
  have "reason = EXIT_STOP" using r(1,2) by (cases reason) (auto simp: reached_def ex_plan_def)
  moreover have "exit_order ex_plan r" using r(4) by (simp add: ex_lifecycle_def ex_open_engine_def)
  moreover have "reports out (er_position r)" using r(5) by (simp add: ex_lifecycle_def)
  ultimately show ?thesis
    using m r(3) by (auto simp: exit_order_def reports_def ex_plan_def)
qed

text \<open>
  A protective exit that risk rejects twice, at two different times, ends the pass.  The
  second rejection has the identity of the first and another time, which the in-memory
  ledger refuses, so \<open>manage\<close> raises and none of the later plans is looked at.
\<close>

theorem repeated_exit_rejection_raises:
  assumes "active_plans (lf_store s) m account = plan # plans"
    and "map_of marks (xl_symbol plan) = Some mark" and "trigger plan mark = Some reason"
    and "trade_intent_post_init (exit_intent plan reason mark later golds)
           = Inr (exit_intent plan reason mark later golds)"
    and "evaluate_exit limits (exit_intent plan reason mark later golds) portfolio (Aware later) = Inr d"
    and "\<not> approved d"
    and "exit_decision plan reason earlier REJECTED ''EXIT_RISK_REJECTED'' = Inr first"
    and "map_of (dl_decisions (lf_ledger s)) (dn_decision_id first) = Some first"
    and "later \<noteq> earlier"
  shows "manage limits m account marks portfolio golds (Aware later) s
    = (Inl (ValueError ''decision identity is immutable''), s)"
proof -
  obtain second where second: "exit_decision plan reason later REJECTED ''EXIT_RISK_REJECTED'' = Inr second"
    "dn_decision_id second = dn_decision_id first" "second \<noteq> first"
    using assms(7,9) by (auto simp: exit_decision_def decision_create_def split: if_splits)
  have "ledger_append second (lf_ledger s)
      = (Inl (ValueError ''decision identity is immutable''), lf_ledger s)"
    using second assms(8) by (simp add: ledger_append_def decision_eq_def)
  then have "record_exit plan reason later REJECTED ''EXIT_RISK_REJECTED'' s
      = (Inl (ValueError ''decision identity is immutable''), s)"
    using second(1) by (simp add: record_exit_def st_defs zoom_def)
  then show ?thesis
    using assms(1-6) by (simp add: manage_def manage_plan_def st_defs)
qed

theorem repeated_exit_rejection_raises_witness:
  "\<exists>first. exit_decision ex_plan EXIT_STOP 20 REJECTED ''EXIT_RISK_REJECTED'' = Inr first
     \<and> manage ex_limits NSE ''acc'' [(''RELIANCE'', Fin 80)] (ex_portfolio\<lparr>ps_positions := []\<rparr>) [] (Aware 30)
         (ex_lifecycle\<lparr>lf_ledger := ledger_init\<lparr>dl_decisions := [(dn_decision_id first, first)]\<rparr>\<rparr>)
       = (Inl (ValueError ''decision identity is immutable''),
          ex_lifecycle\<lparr>lf_ledger := ledger_init\<lparr>dl_decisions := [(dn_decision_id first, first)]\<rparr>\<rparr>)"
proof -
  let ?t = "exit_intent ex_plan EXIT_STOP (Fin 80) 30 []"
  obtain first where f: "exit_decision ex_plan EXIT_STOP 20 REJECTED ''EXIT_RISK_REJECTED'' = Inr first"
    by (simp add: exit_decision_def decision_create_def ex_plan_def)
  have t: "trade_intent_post_init ?t = Inr ?t"
    by (simp add: trade_intent_post_init_def exit_intent_def ex_plan_def dict_fromkeys_def ex_identity_def)
  obtain d where d: "evaluate_exit ex_limits ?t (ex_portfolio\<lparr>ps_positions := []\<rparr>) (Aware 30) = Inr d"
    "\<not> approved d"
    by (simp add: evaluate_exit_def ex_portfolio_def exit_reasons_def intent_target_def)
  show ?thesis
    by (rule exI [of _ first], rule conjI [OF f],
        rule repeated_exit_rejection_raises [OF _ _ _ t d f, where plans = "[]"])
      (simp_all add: active_plans_def ex_lifecycle_def lifecycle_store_init_def ex_plan_def trigger_def)
qed

end
