(* ===== verification/Paper_Batch.thy ===== *)
theory Paper_Batch
  imports Decision_Pipeline Paper_Execution
begin

text \<open>
  The handoff from a constructed batch to risk and paper execution,
  src/src/nanodelta/orchestration/paper_batch.py.  The executor changes the decision ledger
  and the paper engine; the registry and the risk limits are read only.
\<close>

section \<open>Model\<close>

record batch_result =
  br_risk_decisions :: "risk_decision list"
  br_receipts :: "execution_receipt list"

record batch_state =
  bs_engine :: paper_engine
  bs_ledger :: ledger

definition batch_append ::
  "string \<Rightarrow> deterministic_candidate \<Rightarrow> decision_stage \<Rightarrow> decision_status \<Rightarrow> string \<Rightarrow> instant \<Rightarrow> string
     \<Rightarrow> (batch_state, unit) st" where
  "batch_append cycle_id c stage status reason now detail =
     bind_st (lift_st (decision_create cycle_id (si_market (dc_identity c)) (dc_symbol c)
        (Some (si_timeframe (dc_identity c))) stage status reason (Aware now)
        (Some (dc_candidate_id c)) (Some (identity_key (dc_identity c))) detail []))
       (\<lambda>d. zoom bs_ledger (\<lambda>l s. s\<lparr>bs_ledger := l\<rparr>) (ledger_append d))"

definition batch_intent ::
  "string \<Rightarrow> string \<Rightarrow> instant \<Rightarrow> string \<Rightarrow> portfolio_allocation \<Rightarrow> trade_intent" where
  "batch_intent cycle_id account_id now approval_id a =
     (let c = sr_candidate (pa_candidate a) in
      \<lparr>ti_intent_id = stable_id [''trade-intent'', cycle_id, dc_candidate_id c],
       ti_market = si_market (dc_identity c), ti_account_id = account_id, ti_symbol = dc_symbol c,
       ti_action = sg_action (dc_signal c), ti_quantity = pa_quantity a,
       ti_reference_price = pa_expected_entry_price a, ti_event_time = Aware now,
       ti_candidate_id = dc_candidate_id c, ti_approval_id = approval_id,
       ti_identity = dc_identity c, ti_gold_snapshot_ids = dc_gold_snapshot_ids c,
       ti_agent_evidence_id = None\<rparr>)"

text \<open>One allocation through risk; a rejected decision has at least one reason.\<close>

definition batch_risk ::
  "registry \<Rightarrow> risk_limits \<Rightarrow> string \<Rightarrow> string \<Rightarrow> portfolio_snapshot \<Rightarrow> instant \<Rightarrow> portfolio_allocation
     \<Rightarrow> (batch_state, risk_decision) st" where
  "batch_risk registry limits cycle_id account_id portfolio now a =
     (let c = sr_candidate (pa_candidate a) in
      bind_st (lift_st (require_approval registry (dc_identity c) now)) (\<lambda>approval.
      bind_st (lift_st (trade_intent_post_init
                 (batch_intent cycle_id account_id now (sa_approval_id approval) a))) (\<lambda>intent.
      bind_st (lift_st (evaluate limits intent approval portfolio (Aware now))) (\<lambda>d.
      bind_st (batch_append cycle_id c STAGE_RISK (if approved d then PASSED else REJECTED)
                 (if approved d then ''RISK_APPROVED'' else hd (rd_rejection_reasons d)) now [])
        (\<lambda>_. return_st d)))))"

definition batch_execute ::
  "registry \<Rightarrow> risk_limits \<Rightarrow> pipeline_result \<Rightarrow> string \<Rightarrow> portfolio_snapshot \<Rightarrow> datetime
     \<Rightarrow> (batch_state, batch_result) st" where
  "batch_execute registry limits result account_id portfolio evaluated_at =
     bind_st (lift_st (utc evaluated_at ''evaluated_at'')) (\<lambda>now.
     bind_st (for_st (batch_risk registry limits (pr_cycle_id result) account_id portfolio now)
                (pr_allocations result)) (\<lambda>ds.
     if \<exists>d \<in> set ds. \<not> approved d
     then return_st \<lparr>br_risk_decisions = ds, br_receipts = []\<rparr>
     else
       bind_st (zoom bs_engine (\<lambda>e s. s\<lparr>bs_engine := e\<rparr>)
                  (execute_batch ds (pr_cycle_id result) (Aware now))) (\<lambda>receipts.
       bind_st (for_st (\<lambda>(a, r). batch_append (pr_cycle_id result) (sr_candidate (pa_candidate a))
                          STAGE_EXECUTION ORDERED ''PAPER_ORDER_CREATED'' now (po_order_id (er_order r)))
                  (zip (pr_allocations result) receipts))
         (\<lambda>_. return_st \<lparr>br_risk_decisions = ds, br_receipts = receipts\<rparr>))))"

section \<open>Lemmas\<close>

lemma batch_append_frame: "keeps (\<lambda>s. bs_engine s = e) (batch_append cycle_id c stage status reason now detail)"
  unfolding batch_append_def by (intro keeps_intros keeps_zoom) simp

lemma batch_risk_frame: "keeps (\<lambda>s. bs_engine s = e) (batch_risk registry limits cid account portfolio now a)"
  unfolding batch_risk_def Let_def by (intro keeps_intros batch_append_frame)

lemma batch_risk_Inr:
  assumes "batch_risk registry limits cid account portfolio now a s = (Inr d, s')"
  shows "\<exists>approval. require_approval registry (dc_identity (sr_candidate (pa_candidate a))) now = Inr approval
      \<and> trade_intent_post_init (batch_intent cid account now (sa_approval_id approval) a)
          = Inr (batch_intent cid account now (sa_approval_id approval) a)
      \<and> evaluate limits (batch_intent cid account now (sa_approval_id approval) a) approval portfolio
          (Aware now) = Inr d"
proof -
  obtain approval x where "require_approval registry (dc_identity (sr_candidate (pa_candidate a))) now = Inr approval"
    "trade_intent_post_init (batch_intent cid account now (sa_approval_id approval) a) = Inr x"
    "evaluate limits x approval portfolio (Aware now) = Inr d"
    using assms by (auto simp: batch_risk_def Let_def)
  moreover have "x = batch_intent cid account now (sa_approval_id approval) a"
    using calculation(2) trade_intent_ok(1) by blast
  ultimately show ?thesis by auto
qed

lemma for_st_list_all2:
  "for_st f xs s = (Inr ys, s') \<Longrightarrow> (\<And>x y t t'. f x t = (Inr y, t') \<Longrightarrow> Q x y) \<Longrightarrow> list_all2 Q xs ys"
  by (induction xs arbitrary: s ys) auto

text \<open>\<open>risk_passed\<close>: the decision is the approval of exactly this allocation.\<close>

definition risk_passed ::
  "registry \<Rightarrow> risk_limits \<Rightarrow> string \<Rightarrow> string \<Rightarrow> portfolio_snapshot \<Rightarrow> instant
     \<Rightarrow> portfolio_allocation \<Rightarrow> risk_decision \<Rightarrow> bool" where
  "risk_passed registry limits cid account portfolio now a d \<longleftrightarrow>
     (case require_approval registry (dc_identity (sr_candidate (pa_candidate a))) now of
        Inl _ \<Rightarrow> False
      | Inr approval \<Rightarrow> evaluate limits (batch_intent cid account now (sa_approval_id approval) a)
                         approval portfolio (Aware now) = Inr d)"

text \<open>The last part of the hand-off: the fills of the whole batch, then their decisions.\<close>

definition batch_fill ::
  "risk_decision list \<Rightarrow> string \<Rightarrow> instant \<Rightarrow> (execution_receipt list \<Rightarrow> (batch_state, 'a) st)
     \<Rightarrow> (batch_state, batch_result) st" where
  "batch_fill ds cid now tail =
     bind_st (zoom bs_engine (\<lambda>e s. s\<lparr>bs_engine := e\<rparr>) (execute_batch ds cid (Aware now))) (\<lambda>receipts.
     bind_st (tail receipts) (\<lambda>_. return_st \<lparr>br_risk_decisions = ds, br_receipts = receipts\<rparr>))"

lemma batch_fill_all:
  assumes "batch_fill ds cid now tail s = (x, s')" and "\<And>e rs. keeps (\<lambda>s. bs_engine s = e) (tail rs)"
  shows "case x of
      Inl _ \<Rightarrow> bs_engine s' = bs_engine s
        \<or> (\<exists>rs. execute_batch ds cid (Aware now) (bs_engine s) = (Inr rs, bs_engine s'))
    | Inr r \<Rightarrow> br_risk_decisions r = ds
        \<and> map (\<lambda>x. po_decision_id (er_order x)) (br_receipts r) = map rd_decision_id ds"
proof -
  obtain z e2 where b: "execute_batch ds cid (Aware now) (bs_engine s) = (z, e2)" by fastforce
  show ?thesis
  proof (cases z)
    case (Inl err)
    then have "e2 = bs_engine s" using execute_batch_Inl b by metis
    then show ?thesis using assms(1) b Inl by (auto simp: batch_fill_def st_defs zoom_def)
  next
    case (Inr rs)
    then have ids: "map (\<lambda>x. po_decision_id (er_order x)) rs = map rd_decision_id ds"
      using execute_batch_Inr(3) b by metis
    obtain w s3 where tail: "tail rs (s\<lparr>bs_engine := e2\<rparr>) = (w, s3)" by fastforce
    from keeps_frame [OF assms(2), of rs "s\<lparr>bs_engine := e2\<rparr>"] have "bs_engine s3 = e2" using tail by simp
    then show ?thesis using assms(1) b Inr tail ids
      by (cases w) (auto simp: batch_fill_def st_defs zoom_def)
  qed
qed

section \<open>Properties\<close>

text \<open>
  C13: A batch is executed as a whole or not at all.  When the executor returns, there is one
  risk decision per allocation, each the evaluation of that allocation under its strategy's
  current approval; if any is a rejection nothing is filled and the paper ledger is
  untouched; otherwise every allocation has a receipt for its own decision.  When it raises
  before the batch has filled, the paper ledger is untouched too.
\<close>

theorem batch_all_or_nothing:
  assumes "batch_execute registry limits result account portfolio (Aware now) s = (x, s')"
  shows "case x of
      Inl err \<Rightarrow> bs_engine s' = bs_engine s
        \<or> (\<exists>ds rs. execute_batch ds (pr_cycle_id result) (Aware now) (bs_engine s) = (Inr rs, bs_engine s')
             \<and> length ds = length (pr_allocations result) \<and> list_all approved ds)
    | Inr r \<Rightarrow>
        list_all2 (risk_passed registry limits (pr_cycle_id result) account portfolio now)
          (pr_allocations result) (br_risk_decisions r)
      \<and> (if list_all approved (br_risk_decisions r)
         then map (\<lambda>x. po_decision_id (er_order x)) (br_receipts r) = map rd_decision_id (br_risk_decisions r)
         else br_receipts r = [] \<and> bs_engine s' = bs_engine s)"
proof -
  let ?risk = "for_st (batch_risk registry limits (pr_cycle_id result) account portfolio now) (pr_allocations result)"
  let ?tail = "\<lambda>rs. for_st (\<lambda>(a, r). batch_append (pr_cycle_id result) (sr_candidate (pa_candidate a))
      STAGE_EXECUTION ORDERED ''PAPER_ORDER_CREATED'' now (po_order_id (er_order r)))
      (zip (pr_allocations result) rs)"
  obtain y s1 where risk: "?risk s = (y, s1)" by fastforce
  have "keeps (\<lambda>s. bs_engine s = e) ?risk" for e by (intro keeps_intros batch_risk_frame)
  from keeps_frame [OF this, of s] have e1: "bs_engine s1 = bs_engine s" using risk by simp
  have tail: "keeps (\<lambda>s. bs_engine s = e) (?tail rs)" for e rs
    by (intro keeps_intros) (auto simp: split_beta intro: batch_append_frame)
  show ?thesis
  proof (cases y)
    case (Inl e)
    then show ?thesis using assms risk e1 by (auto simp: batch_execute_def st_defs)
  next
    case (Inr ds)
    have all: "list_all2 (risk_passed registry limits (pr_cycle_id result) account portfolio now)
        (pr_allocations result) ds"
      using risk Inr by (auto intro!: for_st_list_all2 dest!: batch_risk_Inr simp: risk_passed_def)
    show ?thesis
    proof (cases "list_all approved ds")
      case False
      then show ?thesis using assms risk e1 Inr all
        by (auto simp: batch_execute_def st_defs list_all_iff)
    next
      case True
      then have "batch_fill ds (pr_cycle_id result) now ?tail s1 = (x, s')"
        using assms risk Inr by (auto simp: batch_execute_def batch_fill_def st_defs list_all_iff)
      from batch_fill_all [OF this tail] show ?thesis
        using e1 all True list_all2_lengthD [OF all] by (cases x) auto
    qed
  qed
qed

text \<open>An allocation of two units of a symbol at price 100, and accounts to try it on.\<close>

definition ex_batch_allocation :: "string \<Rightarrow> portfolio_allocation" where
  "ex_batch_allocation symbol =
     (let s = \<lparr>sg_action = BUY, sg_confidence = Fin 1, sg_reference_price = Fin 100,
            sg_stop_price = Fin 90, sg_target_price = Fin 120, sg_estimated_cost_r = Fin 0,
            sg_historical_expectancy_r = Fin 0, sg_ml_tilt_r = Fin 0\<rparr>;
          c = \<lparr>dc_candidate_id = symbol, dc_identity = ex_identity, dc_approval_id = ''approval-1'',
            dc_symbol = symbol, dc_sector = None, dc_event_time = Aware 20,
            dc_gold_snapshot_ids = [''gold-1''], dc_signal = s,
            dc_regime = \<lparr>re_market_fit = Fin 1, re_sector_fit = Fin 1, re_symbol_fit = Fin 1,
              re_mtf_alignment = Fin 1, re_symbol_regime_label = ''UNKNOWN''\<rparr>\<rparr>
      in \<lparr>pa_candidate = scored_of c, pa_quantity = Fin 2, pa_expected_entry_price = Fin 100,
          pa_stop_price = Fin 90, pa_target_price = Fin 120\<rparr>)"

definition ex_batch :: "portfolio_allocation list \<Rightarrow> pipeline_result" where
  "ex_batch as = \<lparr>pr_cycle_id = ''cycle'', pr_mode = MODE_NORMAL, pr_candidates = [], pr_scored = [],
     pr_allocations = as, pr_decisions = []\<rparr>"

definition ex_flat :: portfolio_snapshot where
  "ex_flat = ex_portfolio\<lparr>ps_positions := []\<rparr>"

definition ex_batch_state :: batch_state where
  "ex_batch_state = \<lparr>bs_engine = ex_open_engine, bs_ledger = ledger_init\<rparr>"

lemmas ex_batch_defs = ex_batch_allocation_def scored_of_def batch_intent_def ex_flat_def ex_risk_defs

theorem batch_all_or_nothing_witness:
  "\<exists>r s'. batch_execute (registry_after ex_calls) ex_limits (ex_batch [ex_batch_allocation ''TCS''])
        ''other'' ex_flat (Aware 20) ex_batch_state = (Inr r, s')
     \<and> br_receipts r = [] \<and> bs_engine s' = ex_open_engine"
proof -
  let ?t = "batch_intent ''cycle'' ''other'' 20 ''approval-1'' (ex_batch_allocation ''TCS'')"
  have t: "trade_intent_post_init ?t = Inr ?t"
    by (simp add: trade_intent_post_init_def ex_batch_defs ex_identity_def Let_def)
  have reasons: "entry_reasons ex_limits ?t ex_approval ex_flat 20 20 = [''ACCOUNT_MISMATCH'']"
    by (simp add: entry_reasons_def stale_reasons_def ex_batch_defs Let_def ex_approval_def is_current_def
        total_seconds_def order_notional_def projected_notional_def projected_signed_def current_signed_def
        intent_target_def intent_delta_def projected_total_def projected_market_def current_notional_def
        opens_new_def existing_open_def zero_pyfloat_def minus_pyfloat_def)
  obtain d where d: "evaluate ex_limits ?t ex_approval ex_flat (Aware 20) = Inr d" "\<not> approved d"
    "rd_rejection_reasons d = [''ACCOUNT_MISMATCH'']"
    using reasons by (simp add: evaluate_def ex_flat_def ex_portfolio_def)
  have a: "require_approval (registry_after ex_calls) ex_identity 20 = Inr ex_approval"
    by (simp add: ex_require_approval)
  have id: "dc_identity (sr_candidate (pa_candidate (ex_batch_allocation ''TCS''))) = ex_identity"
    "dc_symbol (sr_candidate (pa_candidate (ex_batch_allocation ''TCS''))) = ''TCS''"
    by (simp_all add: ex_batch_allocation_def scored_of_def Let_def)
  have "\<exists>s1. batch_risk (registry_after ex_calls) ex_limits ''cycle'' ''other'' ex_flat 20
      (ex_batch_allocation ''TCS'') ex_batch_state = (Inr d, s1)"
    using t d a
    by (simp add: batch_risk_def Let_def id st_defs batch_append_def decision_create_def zoom_def
        ex_batch_state_def ledger_append_def ledger_init_def ex_approval_def)
  then obtain s1 where "batch_risk (registry_after ex_calls) ex_limits ''cycle'' ''other'' ex_flat 20
      (ex_batch_allocation ''TCS'') ex_batch_state = (Inr d, s1)" ..
  then have r: "batch_execute (registry_after ex_calls) ex_limits (ex_batch [ex_batch_allocation ''TCS''])
      ''other'' ex_flat (Aware 20) ex_batch_state = (Inr \<lparr>br_risk_decisions = [d], br_receipts = []\<rparr>, s1)"
    using d by (simp add: batch_execute_def ex_batch_def st_defs)
  then show ?thesis
    using batch_all_or_nothing [OF r] d(2) by (auto simp: ex_batch_state_def)
qed

text \<open>
  The orders of a batch are risk-checked one by one against the same snapshot, so their
  sum is not bounded by the limits: with a limit of one open position and an empty account,
  risk passes both orders of a batch that opens two positions.
\<close>

theorem batch_orders_checked_separately:
  "\<exists>d1 d2. list_all2 (risk_passed (registry_after ex_calls) (ex_limits\<lparr>rl_max_open_positions := 1\<rparr>)
                        ''cycle'' ''acc'' ex_flat 20)
             [ex_batch_allocation ''TCS'', ex_batch_allocation ''INFY''] [d1, d2]
     \<and> list_all approved [d1, d2] \<and> existing_open ex_flat = 0"
proof -
  let ?l = "ex_limits\<lparr>rl_max_open_positions := 1\<rparr>"
  have ok: "\<exists>d. risk_passed (registry_after ex_calls) ?l ''cycle'' ''acc'' ex_flat 20
      (ex_batch_allocation symbol) d \<and> approved d" for symbol
  proof -
    have "entry_reasons ?l (batch_intent ''cycle'' ''acc'' 20 ''approval-1'' (ex_batch_allocation symbol))
        ex_approval ex_flat 20 20 = []"
      by (simp add: entry_reasons_def stale_reasons_def ex_batch_defs Let_def ex_approval_def is_current_def
          total_seconds_def order_notional_def projected_notional_def projected_signed_def current_signed_def
          intent_target_def intent_delta_def projected_total_def projected_market_def current_notional_def
          opens_new_def existing_open_def zero_pyfloat_def minus_pyfloat_def)
    moreover have "dc_identity (sr_candidate (pa_candidate (ex_batch_allocation symbol))) = ex_identity"
      by (simp add: ex_batch_allocation_def scored_of_def Let_def)
    moreover have "sa_approval_id ex_approval = ''approval-1''" by (simp add: ex_approval_def)
    moreover have "ps_captured_at ex_flat = Aware 20" by (simp add: ex_flat_def ex_portfolio_def)
    ultimately show ?thesis by (simp add: risk_passed_def ex_require_approval evaluate_def)
  qed
  have "existing_open ex_flat = 0" by (simp add: existing_open_def ex_flat_def)
  then show ?thesis using ok [of "''TCS''"] ok [of "''INFY''"] by auto
qed

end
