(* ===== verification/FinOps.thy ===== *)
theory FinOps
  imports Contracts
begin

text \<open>
  The spend guard of src/src/nanodelta/finops/core.py: prices, budgets, reservations,
  usage records, alerts and the kill switch.  The guard and its ledger are two records;
  every method runs under the ledger's lock, so a call is one step on the ledger.
\<close>

section \<open>Decimals\<close>

text \<open>
  A \<open>Decimal\<close> is its value; arithmetic rounds to the 28 significant digits of the default
  context, ties to even.  Where the text of a decimal matters (the thresholds, which enter
  alert identifiers) it is kept beside the value.
\<close>

definition dec_round :: "rat \<Rightarrow> rat" where
  "dec_round q =
     (if q = 0 then 0
      else let u = 10 powi (dec_exp \<bar>q\<bar> - 27) in of_int (rne (q / u)) * u)"

definition dec_add :: "rat \<Rightarrow> rat \<Rightarrow> rat" where "dec_add x y = dec_round (x + y)"
definition dec_mul :: "rat \<Rightarrow> rat \<Rightarrow> rat" where "dec_mul x y = dec_round (x * y)"
definition dec_div :: "rat \<Rightarrow> rat \<Rightarrow> rat" where "dec_div x y = dec_round (x / y)"

definition dec_sum :: "rat list \<Rightarrow> rat" where
  "dec_sum xs = foldl dec_add 0 xs"

section \<open>Data\<close>

datatype billing_mode = PAYG | SUBSCRIPTION

record attribution =
  at_market :: "market option"
  at_component :: string
  at_reason :: string

definition attribution_post_init :: "attribution \<Rightarrow> attribution result" where
  "attribution_post_init a =
     (if str_strip (at_component a) = [] \<or> str_strip (at_reason a) = []
        then Inl (ValueError ''component and reason are required'') else Inr a)"

record token_usage =
  tu_input_tokens :: int
  tu_output_tokens :: int
  tu_cached_input_tokens :: int
  tu_reasoning_tokens :: int

definition token_usage_post_init :: "token_usage \<Rightarrow> token_usage result" where
  "token_usage_post_init u =
     (if \<exists>v \<in> set [tu_input_tokens u, tu_output_tokens u, tu_cached_input_tokens u,
                   tu_reasoning_tokens u]. v < 0
        then Inl (ValueError ''token counts cannot be negative'')
      else if tu_input_tokens u < tu_cached_input_tokens u
        then Inl (ValueError ''cached input cannot exceed total input'')
      else Inr u)"

definition total_tokens :: "token_usage \<Rightarrow> int" where
  "total_tokens u = tu_input_tokens u + tu_output_tokens u"

record price_tier =
  pt_model :: string
  pt_deployment_scope :: string
  pt_maximum_input_tokens :: int
  pt_input_usd_per_million :: rat
  pt_cached_input_usd_per_million :: rat
  pt_output_usd_per_million :: rat
  pt_catalog_version :: string

definition price_tier_post_init :: "price_tier \<Rightarrow> price_tier result" where
  "price_tier_post_init t =
     (if pt_maximum_input_tokens t < 1
        then Inl (ValueError ''price tier token ceiling must be positive'')
      else if \<exists>v \<in> set [pt_input_usd_per_million t, pt_cached_input_usd_per_million t,
                       pt_output_usd_per_million t]. v < 0
        then Inl (ValueError ''prices cannot be negative'')
      else Inr t)"

definition tier_cost :: "price_tier \<Rightarrow> token_usage \<Rightarrow> rat" where
  "tier_cost t u =
     dec_div (dec_add (dec_add
         (dec_mul (of_int (tu_input_tokens u - tu_cached_input_tokens u)) (pt_input_usd_per_million t))
         (dec_mul (of_int (tu_cached_input_tokens u)) (pt_cached_input_usd_per_million t)))
         (dec_mul (of_int (tu_output_tokens u)) (pt_output_usd_per_million t)))
       1000000"

type_synonym price_catalog = "price_tier list"

definition catalog_tier :: "price_catalog \<Rightarrow> string \<Rightarrow> string \<Rightarrow> int \<Rightarrow> price_tier result" where
  "catalog_tier tiers model scope input_tokens =
     (case py_sorted (\<lambda>a b. pt_maximum_input_tokens a < pt_maximum_input_tokens b)
             (filter (\<lambda>t. pt_model t = model \<and> pt_deployment_scope t = scope
                          \<and> input_tokens \<le> pt_maximum_input_tokens t) tiers) of
        [] \<Rightarrow> Inl (LookupError (''no price tier for '' @ model @ ''/'' @ scope @ ''/''
                     @ str_of_int input_tokens @ '' input tokens''))
      | t # _ \<Rightarrow> Inr t)"

record subscription_plan =
  sl_plan_id :: string
  sl_monthly_fee_usd :: rat
  sl_five_hour_request_limit :: "int option"
  sl_weekly_request_limit :: "int option"
  sl_monthly_request_limit :: "int option"

definition subscription_plan_post_init :: "subscription_plan \<Rightarrow> subscription_plan result" where
  "subscription_plan_post_init p =
     (if sl_monthly_fee_usd p < 0 then Inl (ValueError ''subscription fee cannot be negative'')
      else if \<exists>v \<in> set [sl_five_hour_request_limit p, sl_weekly_request_limit p,
                       sl_monthly_request_limit p]. (case v of None \<Rightarrow> False | Some n \<Rightarrow> n < 1)
        then Inl (ValueError ''subscription request limits must be positive'')
      else Inr p)"

record budget_policy =
  bp_daily_request_limit :: int
  bp_daily_token_limit :: int
  bp_daily_cost_limit_usd :: rat
  bp_alert_thresholds :: "(string \<times> rat) list"

definition budget_policy_post_init :: "budget_policy \<Rightarrow> budget_policy result" where
  "budget_policy_post_init p =
     (if bp_daily_request_limit p < 1 \<or> bp_daily_token_limit p < 1
        then Inl (ValueError ''daily request and token limits must be positive'')
      else if bp_daily_cost_limit_usd p < 0
        then Inl (ValueError ''daily cost limit cannot be negative'')
      else if \<exists>v \<in> set (map snd (bp_alert_thresholds p)). \<not> (0 < v \<and> v \<le> 1)
        then Inl (ValueError ''alert thresholds must be in (0, 1]'')
      else Inr p)"

record usage_record =
  ur_record_id :: string
  ur_provider_request_id :: string
  ur_model :: string
  ur_deployment_scope :: string
  ur_billing_mode :: billing_mode
  ur_attribution :: attribution
  ur_usage :: token_usage
  ur_marginal_cost_usd :: rat
  ur_catalog_version :: "string option"
  ur_occurred_at :: instant

record finops_alert =
  fa_alert_id :: string
  fa_alert_type :: string
  fa_threshold :: rat
  fa_observed :: rat
  fa_occurred_at :: instant

record reservation =
  rv_reservation_id :: string
  rv_estimated_tokens :: int
  rv_estimated_cost_usd :: rat
  rv_created_at :: instant

record daily_usage =
  du_requests :: int
  du_tokens :: int
  du_marginal_cost_usd :: rat

section \<open>The ledger\<close>

record finops_ledger =
  fl_records :: "(string, usage_record) dict"
  fl_reservations :: "(string, reservation) dict"
  fl_alerts :: "(string, finops_alert) dict"
  fl_kill_switch :: bool
  fl_kill_reason :: "string option"

definition finops_ledger_init :: finops_ledger where
  "finops_ledger_init = \<lparr>fl_records = [], fl_reservations = [], fl_alerts = [],
     fl_kill_switch = False, fl_kill_reason = None\<rparr>"

definition daily :: "finops_ledger \<Rightarrow> int \<Rightarrow> daily_usage" where
  "daily l day =
     (let rs = filter (\<lambda>r. date_of (ur_occurred_at r) = day) (map snd (fl_records l)) in
      \<lparr>du_requests = int (length rs), du_tokens = sum_list (map (\<lambda>r. total_tokens (ur_usage r)) rs),
       du_marginal_cost_usd = dec_sum (map ur_marginal_cost_usd rs)\<rparr>)"

definition requests_since :: "finops_ledger \<Rightarrow> instant \<Rightarrow> int" where
  "requests_since l since = int (length (filter (\<lambda>r. since \<le> ur_occurred_at r) (map snd (fl_records l))))"

definition reserved :: "finops_ledger \<Rightarrow> int \<times> int \<times> rat" where
  "reserved l =
     (let rs = map snd (fl_reservations l) in
      (int (length rs), sum_list (map rv_estimated_tokens rs), dec_sum (map rv_estimated_cost_usd rs)))"

section \<open>The guard\<close>

record finops_guard =
  fg_provider :: string
  fg_billing_mode :: billing_mode
  fg_policy :: budget_policy
  fg_price_catalog :: "price_catalog option"
  fg_subscription :: "subscription_plan option"

definition finops_guard_init :: "finops_guard \<Rightarrow> finops_guard result" where
  "finops_guard_init g =
     (if fg_billing_mode g = PAYG \<and> fg_price_catalog g = None
        then Inl (ValueError ''PAYG mode requires a price catalog'')
      else if fg_billing_mode g = SUBSCRIPTION \<and> fg_subscription g = None
        then Inl (ValueError ''subscription mode requires a subscription plan'')
      else Inr g)"

definition add_alert :: "string \<Rightarrow> string \<times> rat \<Rightarrow> rat \<Rightarrow> instant \<Rightarrow> finops_ledger \<Rightarrow> finops_ledger" where
  "add_alert alert_type threshold observed now l =
     (let i = stable_id [alert_type, fst threshold, date_isoformat (date_of now)] in
      case map_of (fl_alerts l) i of
        Some _ \<Rightarrow> l
      | None \<Rightarrow> l\<lparr>fl_alerts := AList.update i
          \<lparr>fa_alert_id = i, fa_alert_type = alert_type, fa_threshold = snd threshold,
           fa_observed = observed, fa_occurred_at = now\<rparr> (fl_alerts l)\<rparr>)"

definition kill :: "string \<Rightarrow> instant \<Rightarrow> finops_ledger \<Rightarrow> finops_ledger" where
  "kill reason now l =
     add_alert ''KILL_SWITCH'' (''1'', 1) 1 now (l\<lparr>fl_kill_switch := True, fl_kill_reason := Some reason\<rparr>)"

definition usage_cost ::
  "finops_guard \<Rightarrow> string \<Rightarrow> string \<Rightarrow> token_usage \<Rightarrow> (rat \<times> string option) result" where
  "usage_cost g model scope u =
     (if fg_billing_mode g = SUBSCRIPTION then Inr (0, None)
      else case fg_price_catalog g of
        None \<Rightarrow> Inl AssertionError
      | Some catalog \<Rightarrow> bind_r (catalog_tier catalog model scope (tu_input_tokens u)) (\<lambda>t.
          Inr (tier_cost t u, Some (pt_catalog_version t))))"

definition budget_reason :: "finops_guard \<Rightarrow> daily_usage \<Rightarrow> string option" where
  "budget_reason g u =
     (if bp_daily_request_limit (fg_policy g) < du_requests u
        then Some ''daily LLM request budget exceeded''
      else if bp_daily_token_limit (fg_policy g) < du_tokens u
        then Some ''daily LLM token budget exceeded''
      else if bp_daily_cost_limit_usd (fg_policy g) < du_marginal_cost_usd u
        then Some ''daily LLM marginal-cost budget exceeded''
      else None)"

definition quota_reached :: "finops_ledger \<Rightarrow> instant \<Rightarrow> int \<Rightarrow> int option \<Rightarrow> bool" where
  "quota_reached l now window limit =
     (case limit of
        None \<Rightarrow> False
      | Some n \<Rightarrow> n < requests_since l (now - window) + int (length (fl_reservations l)) + 1)"

definition enforce_subscription :: "finops_guard \<Rightarrow> instant \<Rightarrow> (finops_ledger, unit) st" where
  "enforce_subscription g now l =
     (case fg_subscription g of
        None \<Rightarrow> (Inr (), l)
      | Some p \<Rightarrow>
          (let refuse = (\<lambda>label. let reason = ''Qwen subscription '' @ label @ '' request quota reached''
                                in (Inl (PermissionError reason), kill reason now l))
           in if quota_reached l now (5 * 3600 * us_per_second) (sl_five_hour_request_limit p)
                then refuse ''5-hour''
              else if quota_reached l now (7 * us_per_day) (sl_weekly_request_limit p)
                then refuse ''weekly''
              else if quota_reached l now (31 * us_per_day) (sl_monthly_request_limit p)
                then refuse ''monthly''
              else (Inr (), l)))"

definition projected_usage :: "finops_ledger \<Rightarrow> instant \<Rightarrow> int \<Rightarrow> rat \<Rightarrow> daily_usage" where
  "projected_usage l now tokens cost =
     (let d = daily l (date_of now); (n, t, c) = reserved l in
      \<lparr>du_requests = du_requests d + n + 1, du_tokens = du_tokens d + t + tokens,
       du_marginal_cost_usd = dec_add (dec_add (du_marginal_cost_usd d) c) cost\<rparr>)"

definition authorize ::
  "finops_guard \<Rightarrow> string \<Rightarrow> string \<Rightarrow> int \<Rightarrow> int \<Rightarrow> datetime \<Rightarrow> (finops_ledger, reservation) st" where
  "authorize g model scope input_tokens output_tokens now_t l =
     (case utc now_t ''now'' of
        Inl e \<Rightarrow> (Inl e, l)
      | Inr now \<Rightarrow>
          if min input_tokens output_tokens < 0
            then (Inl (ValueError ''estimated token counts cannot be negative''), l)
          else if fl_kill_switch l
            then (Inl (PermissionError (''LLM spend kill-switch active: ''
                     @ str_of_opt (fl_kill_reason l))), l)
          else
            (let u = \<lparr>tu_input_tokens = input_tokens, tu_output_tokens = output_tokens,
                     tu_cached_input_tokens = 0, tu_reasoning_tokens = 0\<rparr>
             in case usage_cost g model scope u of
                  Inl e \<Rightarrow> (Inl e, l)
                | Inr (cost, _) \<Rightarrow>
                    (let projected = projected_usage l now (total_tokens u) cost in
                     case enforce_subscription g now l of
                       (Inl e, l') \<Rightarrow> (Inl e, l')
                     | (Inr _, l') \<Rightarrow>
                         (case budget_reason g projected of
                            Some reason \<Rightarrow> (Inl (PermissionError reason), kill reason now l')
                          | None \<Rightarrow>
                              (let r = \<lparr>rv_reservation_id = stable_id [model, scope, isoformat now,
                                          str_of_int (du_requests projected)],
                                        rv_estimated_tokens = total_tokens u,
                                        rv_estimated_cost_usd = cost, rv_created_at = now\<rparr>
                               in (Inr r, l'\<lparr>fl_reservations :=
                                     AList.update (rv_reservation_id r) r (fl_reservations l')\<rparr>))))))"

definition budget_ratios :: "finops_guard \<Rightarrow> daily_usage \<Rightarrow> (string \<times> rat) list" where
  "budget_ratios g d =
     (let p = fg_policy g in
      [(''REQUEST_BUDGET'', dec_div (of_int (du_requests d)) (of_int (bp_daily_request_limit p))),
       (''TOKEN_BUDGET'', dec_div (of_int (du_tokens d)) (of_int (bp_daily_token_limit p))),
       (''COST_BUDGET'', if 0 < bp_daily_cost_limit_usd p
          then dec_div (du_marginal_cost_usd d) (bp_daily_cost_limit_usd p) else 0)])"

definition alerts_and_postcheck :: "finops_guard \<Rightarrow> instant \<Rightarrow> finops_ledger \<Rightarrow> finops_ledger" where
  "alerts_and_postcheck g now l =
     (let d = daily l (date_of now);
          l1 = foldl (\<lambda>l (kind, ratio).
                 foldl (\<lambda>l threshold. if snd threshold \<le> ratio then add_alert kind threshold ratio now l else l)
                   l (bp_alert_thresholds (fg_policy g))) l (budget_ratios g d)
      in case budget_reason g d of None \<Rightarrow> l1 | Some reason \<Rightarrow> kill reason now l1)"

definition finops_record ::
  "finops_guard \<Rightarrow> reservation \<Rightarrow> string \<Rightarrow> string \<Rightarrow> string \<Rightarrow> attribution \<Rightarrow> token_usage \<Rightarrow> datetime
     \<Rightarrow> (finops_ledger, usage_record) st" where
  "finops_record g r request_id model scope attr u occurred_t l =
     (case utc occurred_t ''occurred_at'' of
        Inl e \<Rightarrow> (Inl e, l)
      | Inr now \<Rightarrow>
          if map_of (fl_reservations l) (rv_reservation_id r) = None
            then (Inl (ValueError ''unknown or already completed FinOps reservation''), l)
          else
            (let l1 = l\<lparr>fl_reservations := AList.delete (rv_reservation_id r) (fl_reservations l)\<rparr>
             in case usage_cost g model scope u of
                  Inl e \<Rightarrow> (Inl e, l1)
                | Inr (cost, version) \<Rightarrow>
                    (let rec = \<lparr>ur_record_id = stable_id [fg_provider g, request_id],
                           ur_provider_request_id = request_id, ur_model = model,
                           ur_deployment_scope = scope, ur_billing_mode = fg_billing_mode g,
                           ur_attribution = attr, ur_usage = u, ur_marginal_cost_usd = cost,
                           ur_catalog_version = version, ur_occurred_at = now\<rparr>
                     in case map_of (fl_records l1) (ur_record_id rec) of
                          Some existing \<Rightarrow>
                            if existing \<noteq> rec
                            then (Inl (ValueError ''provider request ID is bound to different usage''), l1)
                            else (Inr existing, l1)
                        | None \<Rightarrow>
                            (Inr rec, alerts_and_postcheck g now
                               (l1\<lparr>fl_records := AList.update (ur_record_id rec) rec (fl_records l1)\<rparr>)))))"

definition finops_cancel :: "reservation \<Rightarrow> finops_ledger \<Rightarrow> finops_ledger" where
  "finops_cancel r l = l\<lparr>fl_reservations := AList.delete (rv_reservation_id r) (fl_reservations l)\<rparr>"

definition set_kill_switch :: "bool \<Rightarrow> string \<Rightarrow> datetime \<Rightarrow> (finops_ledger, unit) st" where
  "set_kill_switch active reason now_t l =
     (let l1 = l\<lparr>fl_kill_switch := active, fl_kill_reason := (if active then Some reason else None)\<rparr>
      in if \<not> active then (Inr (), l1)
         else case utc now_t ''now'' of
           Inl e \<Rightarrow> (Inl e, l1)
         | Inr now \<Rightarrow> (Inr (), add_alert ''MANUAL_KILL_SWITCH'' (''1'', 1) 1 now l1))"


section \<open>The life of a ledger\<close>

text \<open>
  The calls a guard accepts, and the ledgers they lead to.  A call is one atomic step,
  because every method holds the ledger's lock; a failing call is a step as well.
\<close>

datatype finops_call =
    Authorize string string int int datetime
  | Record_usage reservation string string string attribution token_usage datetime
  | Cancel reservation
  | Set_kill_switch bool string datetime

fun finops_apply :: "finops_guard \<Rightarrow> finops_call \<Rightarrow> finops_ledger \<Rightarrow> finops_ledger" where
  "finops_apply g (Authorize model scope i out t) l = snd (authorize g model scope i out t l)"
| "finops_apply g (Record_usage r rq model scope a u t) l = snd (finops_record g r rq model scope a u t l)"
| "finops_apply g (Cancel r) l = finops_cancel r l"
| "finops_apply g (Set_kill_switch b reason t) l = snd (set_kill_switch b reason t l)"

inductive finops_reachable :: "finops_guard \<Rightarrow> finops_ledger \<Rightarrow> bool" for g where
  start: "finops_reachable g finops_ledger_init"
| step: "finops_reachable g l \<Longrightarrow> finops_reachable g (finops_apply g c l)"

text \<open>Alerts and the kill switch touch neither records nor reservations.\<close>

lemma add_alert_frame [simp]:
  "fl_records (add_alert k th ob now l) = fl_records l"
  "fl_reservations (add_alert k th ob now l) = fl_reservations l"
  "fl_kill_switch (add_alert k th ob now l) = fl_kill_switch l"
  by (simp_all add: add_alert_def Let_def split: option.splits)

lemma kill_frame [simp]:
  "fl_records (kill reason now l) = fl_records l"
  "fl_reservations (kill reason now l) = fl_reservations l"
  "fl_kill_switch (kill reason now l)"
  by (simp_all add: kill_def)

lemma foldl_frame: "(\<And>l x. f (h l x) = f l) \<Longrightarrow> f (foldl h l xs) = f l"
  by (induction xs arbitrary: l) simp_all

lemma alerts_frame [simp]:
  "fl_records (alerts_and_postcheck g now l) = fl_records l"
  "fl_reservations (alerts_and_postcheck g now l) = fl_reservations l"
  by (auto simp: alerts_and_postcheck_def Let_def foldl_frame split: option.splits prod.splits)

lemma alerts_kill_switch:
  "fl_kill_switch (alerts_and_postcheck g now l) \<longleftrightarrow>
     fl_kill_switch l \<or> budget_reason g (daily l (date_of now)) \<noteq> None"
  by (auto simp: alerts_and_postcheck_def Let_def foldl_frame [where f = fl_kill_switch]
      split: option.splits prod.splits)

lemma enforce_frame:
  assumes "enforce_subscription g now l = (r, l')"
  shows "fl_records l' = fl_records l" and "fl_reservations l' = fl_reservations l"
    and "fl_kill_switch l \<Longrightarrow> fl_kill_switch l'"
  using assms by (auto simp: enforce_subscription_def Let_def split: option.splits if_splits)

lemma enforce_Inr: "enforce_subscription g now l = (Inr x, l') \<Longrightarrow> l' = l"
  by (auto simp: enforce_subscription_def Let_def split: option.splits if_splits)

text \<open>What a returned reservation went through.\<close>

lemma authorize_InrE:
  assumes "authorize g model scope i out t l = (Inr r, l')"
  obtains now cost v where "utc t ''now'' = Inr now" and "0 \<le> i" and "0 \<le> out"
    and "\<not> fl_kill_switch l"
    and "usage_cost g model scope \<lparr>tu_input_tokens = i, tu_output_tokens = out,
           tu_cached_input_tokens = 0, tu_reasoning_tokens = 0\<rparr> = Inr (cost, v)"
    and "enforce_subscription g now l = (Inr (), l)"
    and "budget_reason g (projected_usage l now (i + out) cost) = None"
    and "rv_estimated_tokens r = i + out" and "rv_estimated_cost_usd r = cost"
    and "l' = l\<lparr>fl_reservations := AList.update (rv_reservation_id r) r (fl_reservations l)\<rparr>"
  using assms
  by (auto simp: authorize_def Let_def total_tokens_def
      split: sum.splits if_splits prod.splits option.splits) (frule enforce_Inr, auto)

lemma authorize_err_frame:
  assumes "authorize g model scope i out t l = (Inl e, l')"
  shows "fl_records l' = fl_records l" and "fl_reservations l' = fl_reservations l"
    and "fl_kill_switch l \<Longrightarrow> fl_kill_switch l'"
  using assms
  by (auto simp: authorize_def Let_def dest: enforce_frame
      split: sum.splits if_splits prod.splits option.splits)

text \<open>
  The well-formed ledgers: dictionaries with distinct keys, and reservations that hold no
  negative number of tokens.
\<close>

definition finops_ok :: "finops_ledger \<Rightarrow> bool" where
  "finops_ok l \<longleftrightarrow> dict_ok (fl_reservations l) \<and> dict_ok (fl_records l)
     \<and> (\<forall>(k, r) \<in> set (fl_reservations l). 0 \<le> rv_estimated_tokens r)"

lemma set_update_subset: "set (AList.update k v d) \<subseteq> insert (k, v) (set d)"
  by (induction d) auto

lemma set_delete_subset: "set (AList.delete k d) \<subseteq> set d"
  by (auto simp: AList.delete_eq)

lemma authorize_ok: "finops_ok l \<Longrightarrow> finops_ok (snd (authorize g model scope i out t l))"
proof (cases "authorize g model scope i out t l")
  case (Pair r l')
  assume ok: "finops_ok l"
  show ?thesis
  proof (cases r)
    case (Inl e)
    then show ?thesis using ok Pair authorize_err_frame [of g model scope i out t l e l']
      by (simp add: finops_ok_def)
  next
    case (Inr rv)
    then have a: "authorize g model scope i out t l = (Inr rv, l')" using Pair by simp
    obtain now cost v where "0 \<le> i" "0 \<le> out" "rv_estimated_tokens rv = i + out"
      "l' = l\<lparr>fl_reservations := AList.update (rv_reservation_id rv) rv (fl_reservations l)\<rparr>"
      using a by (rule authorize_InrE)
    then show ?thesis using ok Pair set_update_subset [of "rv_reservation_id rv" rv "fl_reservations l"]
      by (auto simp: finops_ok_def)
  qed
qed

lemma record_ok: "finops_ok l \<Longrightarrow> finops_ok (snd (finops_record g r rq model scope a u t l))"
  using set_delete_subset [of "rv_reservation_id r" "fl_reservations l"]
  by (auto simp: finops_record_def finops_ok_def Let_def split: sum.splits prod.splits option.splits)

lemma finops_apply_ok: "finops_ok l \<Longrightarrow> finops_ok (finops_apply g c l)"
proof (cases c)
  case (Cancel r)
  assume "finops_ok l"
  then show ?thesis using Cancel set_delete_subset [of "rv_reservation_id r" "fl_reservations l"]
    by (auto simp: finops_ok_def finops_cancel_def)
next
  case (Set_kill_switch b reason t)
  assume "finops_ok l"
  then show ?thesis using Set_kill_switch
    by (auto simp: finops_ok_def set_kill_switch_def Let_def split: sum.splits)
qed (auto simp: authorize_ok record_ok)

lemma finops_reachable_ok: "finops_reachable g l \<Longrightarrow> finops_ok l"
  by (induction rule: finops_reachable.induct)
    (auto simp: finops_apply_ok, simp add: finops_ok_def finops_ledger_init_def)

lemma sum_list_update_le:
  fixes f :: "'v \<Rightarrow> int"
  assumes "dict_ok d" and "\<forall>(k, v) \<in> set d. 0 \<le> f v"
  shows "sum_list (map f (map snd (AList.update k v d))) \<le> sum_list (map f (map snd d)) + f v"
  using assms by (induction d) (auto simp: dict_ok_def)

lemma length_update_le: "length (AList.update k v d) \<le> Suc (length d)"
  by (induction d) auto


section \<open>Budgets\<close>

text \<open>Room left in every window of a subscription, reservations included.\<close>

definition quota_respected :: "finops_guard \<Rightarrow> finops_ledger \<Rightarrow> instant \<Rightarrow> bool" where
  "quota_respected g l now \<longleftrightarrow>
     (case fg_subscription g of
        None \<Rightarrow> True
      | Some p \<Rightarrow> list_all (\<lambda>(window, limit). case limit of None \<Rightarrow> True
            | Some n \<Rightarrow> requests_since l (now - window) + int (length (fl_reservations l)) \<le> n)
          [(5 * 3600 * us_per_second, sl_five_hour_request_limit p),
           (7 * us_per_day, sl_weekly_request_limit p), (31 * us_per_day, sl_monthly_request_limit p)])"

lemma quota_not_reached:
  assumes "\<not> quota_reached l now w limit"
  shows "case limit of None \<Rightarrow> True
    | Some n \<Rightarrow> requests_since l (now - w) + int (length (fl_reservations l)) + 1 \<le> n"
  using assms by (auto simp: quota_reached_def split: option.splits)

lemma enforce_quota:
  assumes "enforce_subscription g now l = (Inr (), l)"
    and "fl_records l' = fl_records l" and "length (fl_reservations l') \<le> Suc (length (fl_reservations l))"
  shows "quota_respected g l' now"
proof (cases "fg_subscription g")
  case (Some p)
  then show ?thesis using assms
    by (auto simp: enforce_subscription_def quota_respected_def Let_def requests_since_def
        split: if_splits option.splits dest!: quota_not_reached)
qed (simp add: quota_respected_def)

text \<open>
  C18: Spending stays within budget.  In every ledger a guard can reach, a reservation that
  \<open>authorize\<close> returns leaves the day's recorded requests and tokens plus all outstanding
  reservations (this one included) within the daily limits, the projected cost within the
  cost limit, and every window of the subscription within its quota.
\<close>

theorem authorize_within_budget:
  assumes "finops_reachable g l" and "authorize g model scope i out t l = (Inr r, l')"
    and "utc t ''now'' = Inr now"
  shows "du_requests (daily l' (date_of now)) + int (length (fl_reservations l'))
           \<le> bp_daily_request_limit (fg_policy g)
    \<and> du_tokens (daily l' (date_of now)) + fst (snd (reserved l')) \<le> bp_daily_token_limit (fg_policy g)
    \<and> dec_add (dec_add (du_marginal_cost_usd (daily l (date_of now))) (snd (snd (reserved l))))
         (rv_estimated_cost_usd r) \<le> bp_daily_cost_limit_usd (fg_policy g)
    \<and> quota_respected g l' now
    \<and> map_of (fl_reservations l') (rv_reservation_id r) = Some r"
proof -
  obtain now' cost v where u: "utc t ''now'' = Inr now'" and e: "enforce_subscription g now' l = (Inr (), l)"
    and b: "budget_reason g (projected_usage l now' (i + out) cost) = None"
    and r: "rv_estimated_tokens r = i + out" "rv_estimated_cost_usd r = cost"
    and l': "l' = l\<lparr>fl_reservations := AList.update (rv_reservation_id r) r (fl_reservations l)\<rparr>"
    using assms(2) by (rule authorize_InrE)
  have now: "now' = now" using u assms(3) by simp
  have ok: "finops_ok l" by (rule finops_reachable_ok [OF assms(1)])
  have len: "length (fl_reservations l') \<le> Suc (length (fl_reservations l))"
    by (simp add: l' length_update_le)
  have day: "daily l' d = daily l d" for d by (simp add: l' daily_def)
  have tok: "fst (snd (reserved l')) \<le> fst (snd (reserved l)) + rv_estimated_tokens r"
    using sum_list_update_le [of "fl_reservations l" rv_estimated_tokens] ok
    by (simp add: l' reserved_def finops_ok_def)
  have q: "quota_respected g l' now" by (rule enforce_quota [OF e [unfolded now] _ len]) (simp add: l')
  have st: "map_of (fl_reservations l') (rv_reservation_id r) = Some r" by (simp add: l')
  show ?thesis using b len tok q st
    by (auto simp: budget_reason_def projected_usage_def Let_def now day r reserved_def split: if_splits)
qed

definition ex_finops_guard :: finops_guard where
  "ex_finops_guard = \<lparr>fg_provider = ''qwen'', fg_billing_mode = SUBSCRIPTION,
     fg_policy = \<lparr>bp_daily_request_limit = 2, bp_daily_token_limit = 100,
       bp_daily_cost_limit_usd = 1, bp_alert_thresholds = [(''0.8'', 4 / 5)]\<rparr>,
     fg_price_catalog = None,
     fg_subscription = Some \<lparr>sl_plan_id = ''pro'', sl_monthly_fee_usd = 50,
       sl_five_hour_request_limit = Some 2, sl_weekly_request_limit = None,
       sl_monthly_request_limit = None\<rparr>\<rparr>"

lemma dec_simps [simp]: "dec_add 0 0 = 0" "dec_round 0 = 0"
  by (simp_all add: dec_add_def dec_round_def)

lemmas finops_eval = ex_finops_guard_def finops_ledger_init_def authorize_def usage_cost_def
  enforce_subscription_def quota_reached_def requests_since_def budget_reason_def
  projected_usage_def daily_def reserved_def total_tokens_def dec_sum_def

theorem authorize_within_budget_witness:
  "\<exists>r l'. authorize ex_finops_guard ''qwen-max'' ''global'' 40 20 (Aware 0) finops_ledger_init = (Inr r, l')
    \<and> du_requests (daily l' (date_of 0)) + int (length (fl_reservations l')) \<le> 2
    \<and> du_tokens (daily l' (date_of 0)) + fst (snd (reserved l')) \<le> 100
    \<and> quota_respected ex_finops_guard l' 0"
proof -
  obtain r l' where a:
    "authorize ex_finops_guard ''qwen-max'' ''global'' 40 20 (Aware 0) finops_ledger_init = (Inr r, l')"
    by (simp add: finops_eval Let_def)
  show ?thesis
    using authorize_within_budget [OF finops_reachable.start a, of 0] a by (simp add: ex_finops_guard_def)
qed

section \<open>The kill switch\<close>

definition no_reset :: "finops_call \<Rightarrow> bool" where
  "no_reset c = (case c of Set_kill_switch b _ _ \<Rightarrow> b | _ \<Rightarrow> True)"

lemma record_frame:
  "fl_kill_switch l \<Longrightarrow> fl_kill_switch (snd (finops_record g r rq model scope a u t l))"
  "set (fl_reservations (snd (finops_record g r rq model scope a u t l))) \<subseteq> set (fl_reservations l)"
  using set_delete_subset [of "rv_reservation_id r" "fl_reservations l"]
  by (auto simp: finops_record_def Let_def alerts_kill_switch split: sum.splits prod.splits option.splits)

lemma authorize_killed:
  "fl_kill_switch l \<Longrightarrow> \<exists>e. authorize g model scope i out t l = (Inl e, l)"
  by (auto simp: authorize_def split: sum.splits)

lemma finops_apply_killed:
  assumes "fl_kill_switch l" and "no_reset c"
  shows "fl_kill_switch (finops_apply g c l)
    \<and> set (fl_reservations (finops_apply g c l)) \<subseteq> set (fl_reservations l)"
proof (cases c)
  case (Authorize m s i out t)
  then show ?thesis using assms authorize_killed [of l g m s i out t] by auto
next
  case (Record_usage r rq m s a u t)
  then show ?thesis using assms record_frame by simp
next
  case (Cancel r)
  then show ?thesis using assms set_delete_subset by (fastforce simp: finops_cancel_def)
next
  case (Set_kill_switch b reason t)
  then show ?thesis using assms
    by (auto simp: set_kill_switch_def no_reset_def Let_def split: sum.splits)
qed

lemma finops_run_killed:
  "fl_kill_switch l \<Longrightarrow> list_all no_reset cs \<Longrightarrow>
     fl_kill_switch (fold (finops_apply g) cs l)
     \<and> set (fl_reservations (fold (finops_apply g) cs l)) \<subseteq> set (fl_reservations l)"
proof (induction cs arbitrary: l)
  case (Cons c cs)
  then show ?case using finops_apply_killed [of l c g] by fastforce
qed simp

text \<open>
  C19: Overspending stops the models.  When the usage recorded for a call takes the day over
  any budget, the kill switch is set, and from then on, whatever calls follow short of an
  explicit reset, no reservation is handed out and the outstanding ones only shrink.
\<close>

theorem overspend_latches_kill_switch:
  assumes "finops_record g r rq model scope a u t l = (Inr rec, l1)"
    and "map_of (fl_records l) (ur_record_id rec) = None"
    and "budget_reason g (daily l1 (date_of (ur_occurred_at rec))) \<noteq> None"
    and "list_all no_reset cs"
  shows "fl_kill_switch (fold (finops_apply g) cs l1)
    \<and> set (fl_reservations (fold (finops_apply g) cs l1)) \<subseteq> set (fl_reservations l)
    \<and> (\<exists>e. authorize g model' scope' i out t' (fold (finops_apply g) cs l1)
             = (Inl e, fold (finops_apply g) cs l1))"
proof -
  have "fl_kill_switch l1" using assms(1,2,3)
    by (auto simp: finops_record_def Let_def alerts_kill_switch daily_def
        split: sum.splits prod.splits option.splits if_splits)
  then have "fl_kill_switch (fold (finops_apply g) cs l1)"
    "set (fl_reservations (fold (finops_apply g) cs l1)) \<subseteq> set (fl_reservations l1)"
    using finops_run_killed assms(4) by blast+
  moreover have "set (fl_reservations l1) \<subseteq> set (fl_reservations l)"
    using record_frame(2) [of g r rq model scope a u t l] assms(1) by simp
  ultimately show ?thesis using authorize_killed by blast
qed


definition ex_reservation :: reservation where
  "ex_reservation = \<lparr>rv_reservation_id = ''r1'', rv_estimated_tokens = 60, rv_estimated_cost_usd = 0,
     rv_created_at = 0\<rparr>"

definition ex_finops_ledger :: finops_ledger where
  "ex_finops_ledger = finops_ledger_init\<lparr>fl_reservations :=
     [(''r1'', ex_reservation), (''r2'', ex_reservation\<lparr>rv_reservation_id := ''r2''\<rparr>)]\<rparr>"

definition ex_attribution :: attribution where
  "ex_attribution = \<lparr>at_market = None, at_component = ''review'', at_reason = ''brief''\<rparr>"

definition ex_token_usage :: "int \<Rightarrow> token_usage" where
  "ex_token_usage n = \<lparr>tu_input_tokens = n, tu_output_tokens = 20, tu_cached_input_tokens = 0,
     tu_reasoning_tokens = 0\<rparr>"

lemmas finops_record_eval = finops_record_def ex_finops_ledger_def ex_reservation_def
  ex_token_usage_def ex_attribution_def

theorem overspend_latches_kill_switch_witness:
  "\<exists>rec l1. finops_record ex_finops_guard ex_reservation ''q1'' ''qwen-max'' ''global''
      ex_attribution (ex_token_usage 90) (Aware 0) ex_finops_ledger = (Inr rec, l1)
    \<and> fl_kill_switch (fold (finops_apply ex_finops_guard) [Cancel ex_reservation] l1)
    \<and> (\<exists>e. authorize ex_finops_guard ''qwen-max'' ''global'' 1 1 (Aware 1)
          (fold (finops_apply ex_finops_guard) [Cancel ex_reservation] l1)
        = (Inl e, fold (finops_apply ex_finops_guard) [Cancel ex_reservation] l1))"
proof -
  obtain rec l1 where a: "finops_record ex_finops_guard ex_reservation ''q1'' ''qwen-max'' ''global''
      ex_attribution (ex_token_usage 90) (Aware 0) ex_finops_ledger = (Inr rec, l1)"
    and d: "daily l1 (date_of (ur_occurred_at rec)) = \<lparr>du_requests = 1, du_tokens = 110, du_marginal_cost_usd = 0\<rparr>"
    by (simp add: finops_record_eval finops_eval Let_def)
  have "map_of (fl_records ex_finops_ledger) (ur_record_id rec) = None"
    by (simp add: ex_finops_ledger_def finops_ledger_init_def)
  moreover have "budget_reason ex_finops_guard (daily l1 (date_of (ur_occurred_at rec))) \<noteq> None"
    by (simp add: d budget_reason_def ex_finops_guard_def)
  ultimately show ?thesis
    using overspend_latches_kill_switch [OF a, of "[Cancel ex_reservation]"] a by (auto simp: no_reset_def)
qed

section \<open>Usage is accounted once\<close>

lemma record_InrE:
  assumes "finops_record g r rq model scope a u t l = (Inr rec, l1)"
  obtains now cost v where "utc t ''occurred_at'' = Inr now" and "usage_cost g model scope u = Inr (cost, v)"
    and "rec = \<lparr>ur_record_id = stable_id [fg_provider g, rq], ur_provider_request_id = rq,
      ur_model = model, ur_deployment_scope = scope, ur_billing_mode = fg_billing_mode g,
      ur_attribution = a, ur_usage = u, ur_marginal_cost_usd = cost, ur_catalog_version = v,
      ur_occurred_at = now\<rparr>"
    and "map_of (fl_records l1) (ur_record_id rec) = Some rec"
    and "fl_reservations l1 = AList.delete (rv_reservation_id r) (fl_reservations l)"
  using assms
  by (auto simp: finops_record_def Let_def split: sum.splits prod.splits option.splits if_splits)

text \<open>
  Usage is accounted once.  After a call has been recorded, recording anything for the
  same reservation again is refused without a change, and recording the same provider
  request for another outstanding reservation returns the record on file and only releases
  that reservation.
\<close>

theorem usage_accounted_once:
  assumes "finops_record g r rq model scope a u t l = (Inr rec, l1)"
    and "map_of (fl_reservations l1) (rv_reservation_id r2) \<noteq> None"
  shows "finops_record g r rq' model' scope' a' u' (Aware now) l1
           = (Inl (ValueError ''unknown or already completed FinOps reservation''), l1)
    \<and> finops_record g r2 rq model scope a u t l1 = (Inr rec, finops_cancel r2 l1)"
  using assms(1)
proof (rule record_InrE)
  fix n cost v
  assume "utc t ''occurred_at'' = Inr n" "usage_cost g model scope u = Inr (cost, v)"
    "rec = \<lparr>ur_record_id = stable_id [fg_provider g, rq], ur_provider_request_id = rq,
      ur_model = model, ur_deployment_scope = scope, ur_billing_mode = fg_billing_mode g,
      ur_attribution = a, ur_usage = u, ur_marginal_cost_usd = cost, ur_catalog_version = v,
      ur_occurred_at = n\<rparr>"
    "map_of (fl_records l1) (ur_record_id rec) = Some rec"
    "fl_reservations l1 = AList.delete (rv_reservation_id r) (fl_reservations l)"
  then show ?thesis using assms(2) by (auto simp: finops_record_def finops_cancel_def Let_def)
qed

theorem usage_accounted_once_witness:
  "\<exists>rec l1. finops_record ex_finops_guard ex_reservation ''q1'' ''qwen-max'' ''global''
      ex_attribution (ex_token_usage 10) (Aware 0) ex_finops_ledger = (Inr rec, l1)
    \<and> finops_record ex_finops_guard (ex_reservation\<lparr>rv_reservation_id := ''r2''\<rparr>) ''q1'' ''qwen-max'' ''global''
        ex_attribution (ex_token_usage 10) (Aware 0) l1
      = (Inr rec, finops_cancel (ex_reservation\<lparr>rv_reservation_id := ''r2''\<rparr>) l1)"
proof -
  obtain rec l1 where a: "finops_record ex_finops_guard ex_reservation ''q1'' ''qwen-max'' ''global''
      ex_attribution (ex_token_usage 10) (Aware 0) ex_finops_ledger = (Inr rec, l1)"
    by (simp add: finops_record_eval finops_eval Let_def)
  have "fl_reservations l1 = AList.delete ''r1'' (fl_reservations ex_finops_ledger)"
    using a by (rule record_InrE) (simp add: ex_reservation_def)
  then have "map_of (fl_reservations l1) (rv_reservation_id (ex_reservation\<lparr>rv_reservation_id := ''r2''\<rparr>)) \<noteq> None"
    by (simp add: ex_finops_ledger_def)
  from usage_accounted_once [OF a this] a show ?thesis by blast
qed

text \<open>
  Unpriced usage is lost.  When the actual prompt is larger than every price tier of the
  model, recording it raises after the reservation was dropped: the spend is in no record,
  no alert is raised, and a retry is refused.
\<close>

theorem unpriced_usage_is_lost:
  assumes "fg_billing_mode g = PAYG" and "fg_price_catalog g = Some tiers"
    and "\<forall>p \<in> set tiers. pt_model p = model \<and> pt_deployment_scope p = scope
           \<longrightarrow> pt_maximum_input_tokens p < tu_input_tokens u"
    and "map_of (fl_reservations l) (rv_reservation_id r) \<noteq> None"
  shows "finops_record g r rq model scope a u (Aware now) l =
       (Inl (LookupError (''no price tier for '' @ model @ ''/'' @ scope @ ''/''
               @ str_of_int (tu_input_tokens u) @ '' input tokens'')), finops_cancel r l)
    \<and> finops_record g r rq' model' scope' a' u' (Aware now') (finops_cancel r l) =
       (Inl (ValueError ''unknown or already completed FinOps reservation''), finops_cancel r l)"
proof -
  have "filter (\<lambda>t. pt_model t = model \<and> pt_deployment_scope t = scope
          \<and> tu_input_tokens u \<le> pt_maximum_input_tokens t) tiers = []"
    using assms(3) by (auto simp: filter_empty_conv)
  then show ?thesis using assms(1,2,4)
    by (auto simp: finops_record_def usage_cost_def catalog_tier_def finops_cancel_def)
qed

definition ex_price_tier :: price_tier where
  "ex_price_tier = \<lparr>pt_model = ''qwen-max'', pt_deployment_scope = ''global'',
     pt_maximum_input_tokens = 50, pt_input_usd_per_million = 2,
     pt_cached_input_usd_per_million = 1, pt_output_usd_per_million = 6, pt_catalog_version = ''v1''\<rparr>"

theorem unpriced_usage_is_lost_witness:
  "fst (finops_record (ex_finops_guard\<lparr>fg_billing_mode := PAYG, fg_price_catalog := Some [ex_price_tier]\<rparr>)
      ex_reservation ''q1'' ''qwen-max'' ''global'' ex_attribution (ex_token_usage 90) (Aware 0) ex_finops_ledger)
     = Inl (LookupError (''no price tier for qwen-max/global/'' @ str_of_int 90 @ '' input tokens''))"
  using unpriced_usage_is_lost [of "ex_finops_guard\<lparr>fg_billing_mode := PAYG, fg_price_catalog := Some [ex_price_tier]\<rparr>"
      "[ex_price_tier]" "''qwen-max''" "''global''" "ex_token_usage 90" ex_finops_ledger ex_reservation
      "''q1''" ex_attribution 0]
  by (simp add: ex_price_tier_def ex_token_usage_def ex_finops_ledger_def ex_reservation_def)

end
