(* ===== verification/Operations.thy ===== *)
theory Operations
  imports Contracts
begin

text \<open>
  The operator's command surface of src/src/nanodelta/operations/controller.py: an
  idempotent state machine per market whose every transition leaves an audit record.
  The worker objects the controller calls are a parameter: one stateful call per market
  and command, on a world of their own, that may raise.
\<close>

section \<open>Data\<close>

datatype worker_state = STOPPED | RUNNING | DRAINING

datatype command = START | STOP | DRAIN | REPAIR

fun command_value :: "command \<Rightarrow> string" where
  "command_value START = ''start''"
| "command_value STOP = ''stop''"
| "command_value DRAIN = ''drain''"
| "command_value REPAIR = ''repair''"

record actor =
  ac_actor_id :: string
  ac_role :: string

definition can_operate :: "actor \<Rightarrow> bool" where
  "can_operate a \<longleftrightarrow> ac_role a \<in> {''operator'', ''admin''}"

record audit_record =
  ar_audit_id :: string
  ar_idempotency_key :: string
  ar_market :: market
  ar_command :: command
  ar_actor_id :: string
  ar_previous_state :: worker_state
  ar_resulting_state :: worker_state
  ar_requested_at :: instant
  ar_detail :: string

text \<open>
  The store: the worker state of every market and the audit log by idempotency key.  Its
  seven read-model dictionaries are only filled and read by other components.
\<close>

record operational_store =
  os_workers :: "market \<Rightarrow> worker_state"
  os_audit :: "(string, audit_record) dict"

definition operational_store_init :: operational_store where
  "operational_store_init = \<lparr>os_workers = (\<lambda>_. STOPPED), os_audit = []\<rparr>"

definition set_worker_state :: "market \<Rightarrow> worker_state \<Rightarrow> operational_store \<Rightarrow> operational_store" where
  "set_worker_state m w s = s\<lparr>os_workers := (os_workers s)(m := w)\<rparr>"

definition audit_record_of :: "operational_store \<Rightarrow> string \<Rightarrow> audit_record option" where
  "audit_record_of s k = map_of (os_audit s) k"

definition save_audit :: "audit_record \<Rightarrow> operational_store \<Rightarrow> operational_store" where
  "save_audit r s = s\<lparr>os_audit := AList.update (ar_idempotency_key r) r (os_audit s)\<rparr>"

definition commit_transition :: "audit_record \<Rightarrow> operational_store \<Rightarrow> operational_store" where
  "commit_transition r s = save_audit r (set_worker_state (ar_market r) (ar_resulting_state r) s)"

definition commit_queued_command :: "audit_record \<Rightarrow> (operational_store, unit) st" where
  "commit_queued_command r = raise_st (RuntimeError ''durable runtime command mailbox is not configured'')"

section \<open>The controller\<close>

record 'w controller =
  ct_workers :: "market \<Rightarrow> (command \<Rightarrow> ('w, unit) st) option"
  ct_durable_commands :: bool

fun transition :: "worker_state \<Rightarrow> command \<Rightarrow> worker_state" where
  "transition previous START = RUNNING"
| "transition previous STOP = STOPPED"
| "transition previous DRAIN = DRAINING"
| "transition previous REPAIR = previous"

definition call_worker :: "'w controller \<Rightarrow> market \<Rightarrow> command \<Rightarrow> ('w, unit) st" where
  "call_worker c m cmd =
     (if cmd = REPAIR \<or> ct_durable_commands c then return_st ()
      else case ct_workers c m of
        None \<Rightarrow> raise_st (RuntimeError (market_value m @ '' worker is not configured''))
      | Some worker \<Rightarrow> worker cmd)"

definition audit_of ::
  "'w controller \<Rightarrow> market \<Rightarrow> command \<Rightarrow> actor \<Rightarrow> string \<Rightarrow> instant \<Rightarrow> string \<Rightarrow> worker_state \<Rightarrow> audit_record" where
  "audit_of c m cmd a key requested detail previous =
     \<lparr>ar_audit_id = stable_id [key, market_value m, command_value cmd], ar_idempotency_key = key,
      ar_market = m, ar_command = cmd, ar_actor_id = ac_actor_id a, ar_previous_state = previous,
      ar_resulting_state = (if ct_durable_commands c \<and> cmd \<noteq> REPAIR then previous else transition previous cmd),
      ar_requested_at = requested, ar_detail = detail\<rparr>"

definition controller_command ::
  "'w controller \<Rightarrow> market \<Rightarrow> command \<Rightarrow> actor \<Rightarrow> string \<Rightarrow> bool \<Rightarrow> datetime \<Rightarrow> string
     \<Rightarrow> (operational_store \<times> 'w, audit_record) st" where
  "controller_command c m cmd a key confirmed requested_t detail = (\<lambda>(s, w).
     if \<not> can_operate a then (Inl (PermissionError ''operator or admin role is required''), s, w)
     else if str_strip key = [] then (Inl (ValueError ''idempotency key is required''), s, w)
     else case audit_record_of s key of
       Some existing \<Rightarrow>
         if ar_market existing \<noteq> m \<or> ar_command existing \<noteq> cmd \<or> ar_detail existing \<noteq> detail
         then (Inl (ValueError ''idempotency key is bound to another command''), s, w)
         else (Inr existing, s, w)
     | None \<Rightarrow>
         if \<not> confirmed then (Inl (PermissionError ''explicit confirmation is required''), s, w)
         else if cmd = DRAIN \<and> os_workers s m \<noteq> RUNNING
           then (Inl (RuntimeError ''only a running worker can drain''), s, w)
         else case call_worker c m cmd w of
           (Inl e, w') \<Rightarrow> (Inl e, s, w')
         | (Inr _, w') \<Rightarrow>
             (case utc requested_t ''requested_at'' of
                Inl e \<Rightarrow> (Inl e, s, w')
              | Inr requested \<Rightarrow>
                  (let r = audit_of c m cmd a key requested detail (os_workers s m) in
                   if ct_durable_commands c \<and> cmd \<noteq> REPAIR
                   then (case commit_queued_command r s of (Inl e, s') \<Rightarrow> (Inl e, s', w')
                                                      | (Inr _, s') \<Rightarrow> (Inr r, s', w'))
                   else (Inr r, commit_transition r s, w'))))"

section \<open>The life of a controller\<close>

text \<open>A step is one call of \<open>command\<close>, whatever its arguments and its outcome.\<close>

inductive command_step :: "'w controller \<Rightarrow> operational_store \<times> 'w \<Rightarrow> operational_store \<times> 'w \<Rightarrow> bool" for c where
  call: "controller_command c m cmd a key confirmed t detail x = (r, x') \<Longrightarrow> command_step c x x'"

inductive_cases command_stepE: "command_step c x x'"

abbreviation command_reach :: "'w controller \<Rightarrow> operational_store \<times> 'w \<Rightarrow> operational_store \<times> 'w \<Rightarrow> bool" where
  "command_reach c \<equiv> (command_step c)\<^sup>*\<^sup>*"

text \<open>The two things a call does to the store: nothing, or one new audit record with its transition.\<close>

lemma command_cases:
  assumes "controller_command c m cmd a key confirmed t detail (s, w) = (r, s', w')"
  obtains (same) "s' = s" "\<And>rec. r = Inr rec \<Longrightarrow> audit_record_of s key = Some rec \<and> w' = w"
  | (commit) rec where "r = Inr rec" "s' = commit_transition rec s" "audit_record_of s (ar_idempotency_key rec) = None"
      "ar_idempotency_key rec = key" "ar_market rec = m" "ar_command rec = cmd" "ar_detail rec = detail"
      "ar_previous_state rec = os_workers s m" "ar_resulting_state rec = transition (os_workers s m) cmd"
      "cmd = DRAIN \<Longrightarrow> os_workers s m = RUNNING" "can_operate a" "confirmed"
      "call_worker c m cmd w = (Inr (), w')"
  using assms
  by (auto simp: controller_command_def Let_def audit_of_def commit_queued_command_def
      split: if_splits option.splits prod.splits sum.splits)

section \<open>The audit log explains the state\<close>

fun audit_chain :: "(market \<Rightarrow> worker_state) \<Rightarrow> audit_record list \<Rightarrow> bool" where
  "audit_chain f [] = True"
| "audit_chain f (r # rs) =
     (ar_previous_state r = f (ar_market r)
      \<and> ar_resulting_state r = transition (ar_previous_state r) (ar_command r)
      \<and> (ar_command r = DRAIN \<longrightarrow> ar_previous_state r = RUNNING)
      \<and> audit_chain (f(ar_market r := ar_resulting_state r)) rs)"

definition replay :: "audit_record list \<Rightarrow> market \<Rightarrow> worker_state" where
  "replay rs = fold (\<lambda>r f. f(ar_market r := ar_resulting_state r)) rs (\<lambda>_. STOPPED)"

lemma audit_chain_append:
  "audit_chain f (rs @ [r]) \<longleftrightarrow> audit_chain f rs
     \<and> (let g = fold (\<lambda>r f. f(ar_market r := ar_resulting_state r)) rs f in
        ar_previous_state r = g (ar_market r)
        \<and> ar_resulting_state r = transition (ar_previous_state r) (ar_command r)
        \<and> (ar_command r = DRAIN \<longrightarrow> ar_previous_state r = RUNNING))"
  by (induction rs arbitrary: f) (auto simp: Let_def)

lemma replay_append: "replay (rs @ [r]) = (replay rs)(ar_market r := ar_resulting_state r)"
  by (simp add: replay_def)

definition audited :: "operational_store \<Rightarrow> bool" where
  "audited s \<longleftrightarrow> audit_chain (\<lambda>_. STOPPED) (map snd (os_audit s))
     \<and> os_workers s = replay (map snd (os_audit s))"

lemma audited_step:
  assumes "command_step c (s, w) (s', w')" and "audited s"
  shows "audited s'"
proof -
  obtain m cmd a key confirmed t detail r
    where call: "controller_command c m cmd a key confirmed t detail (s, w) = (r, s', w')"
    using assms(1) by (auto elim: command_stepE)
  from call show ?thesis
  proof (cases rule: command_cases)
    case same
    then show ?thesis using assms(2) by simp
  next
    case (commit rec)
    then have "map snd (os_audit s') = map snd (os_audit s) @ [rec]"
      by (simp add: commit_transition_def save_audit_def set_worker_state_def audit_record_of_def update_fresh)
    then show ?thesis using assms(2) commit
      by (auto simp: audited_def audit_chain_append replay_append commit_transition_def save_audit_def
          set_worker_state_def Let_def simp flip: replay_def)
  qed
qed

lemma audited_reach:
  assumes "command_reach c x x'" and "audited (fst x)"
  shows "audited (fst x')"
  using assms by (induction rule: rtranclp_induct) (auto intro: audited_step)

text \<open>
  C20: The audit log explains the state.  After any history of commands, failed ones among
  them, the state of every market is the last resulting state the log holds for it
  (stopped when it holds none), every record starts where the previous one of its market
  ended and follows the transition table, and only a running worker was ever drained.
\<close>

theorem audit_explains_state:
  assumes "command_reach c (operational_store_init, w0) (s, w)"
  shows "os_workers s = replay (map snd (os_audit s))
    \<and> audit_chain (\<lambda>_. STOPPED) (map snd (os_audit s))"
proof -
  have "audited operational_store_init"
    by (simp add: audited_def operational_store_init_def replay_def)
  with audited_reach [OF assms] show ?thesis by (simp add: audited_def)
qed

definition ex_controller :: "(market \<times> command) list controller" where
  "ex_controller = \<lparr>ct_workers = (\<lambda>m. if m = NSE then Some (\<lambda>cmd w. (Inr (), w @ [(m, cmd)])) else None),
     ct_durable_commands = False\<rparr>"

definition ex_operator :: actor where
  "ex_operator = \<lparr>ac_actor_id = ''ops'', ac_role = ''operator''\<rparr>"

lemmas controller_eval = controller_command_def ex_controller_def ex_operator_def can_operate_def
  audit_record_of_def call_worker_def audit_of_def operational_store_init_def commit_transition_def
  save_audit_def set_worker_state_def

theorem audit_explains_state_witness:
  "\<exists>rec s w. controller_command ex_controller NSE START ex_operator ''k1'' True (Aware 0) '''' (operational_store_init, [])
      = (Inr rec, s, w) \<and> os_workers s NSE = RUNNING \<and> os_workers s = replay (map snd (os_audit s))
    \<and> audit_chain (\<lambda>_. STOPPED) (map snd (os_audit s))"
proof -
  obtain rec s w where a: "controller_command ex_controller NSE START ex_operator ''k1'' True (Aware 0) ''''
      (operational_store_init, []) = (Inr rec, s, w)" and r: "os_workers s NSE = RUNNING"
    by (simp add: controller_eval str_strip_def is_space_def Let_def)
  have "command_reach ex_controller (operational_store_init, []) (s, w)"
    using command_step.call [OF a] by (rule r_into_rtranclp)
  from audit_explains_state [OF this] a r show ?thesis by blast
qed

section \<open>A command takes effect once\<close>

lemma audit_kept_step:
  assumes "command_step c (s, w) (s', w')" and "audit_record_of s key = Some rec"
  shows "audit_record_of s' key = Some rec"
proof -
  obtain m cmd a k confirmed t detail r
    where call: "controller_command c m cmd a k confirmed t detail (s, w) = (r, s', w')"
    using assms(1) by (auto elim: command_stepE)
  from call show ?thesis
    by (cases rule: command_cases)
      (use assms(2) in \<open>auto simp: audit_record_of_def commit_transition_def save_audit_def set_worker_state_def\<close>)
qed

lemma audit_kept:
  assumes "command_reach c x x'" and "audit_record_of (fst x) key = Some rec"
  shows "audit_record_of (fst x') key = Some rec"
  using assms by (induction rule: rtranclp_induct) (auto intro: audit_kept_step)

lemma command_recorded:
  assumes "controller_command c m cmd a key confirmed t detail (s, w) = (Inr rec, s', w')"
  shows "audit_record_of s' key = Some rec \<and> ar_market rec = m \<and> ar_command rec = cmd \<and> ar_detail rec = detail
    \<and> str_strip key \<noteq> []"
proof -
  have "str_strip key \<noteq> []" using assms by (auto simp: controller_command_def split: if_splits)
  moreover have "audit_record_of s' key = Some rec \<and> ar_market rec = m \<and> ar_command rec = cmd \<and> ar_detail rec = detail"
    using assms
  proof (cases rule: command_cases)
    case same
    then show ?thesis using assms by (auto simp: controller_command_def split: if_splits)
  next
    case (commit rec')
    then show ?thesis
      by (auto simp: audit_record_of_def commit_transition_def save_audit_def set_worker_state_def)
  qed
  ultimately show ?thesis by blast
qed

text \<open>
  A command takes effect once.  After a command has returned, whatever commands follow,
  the same command under the same key returns the same record and touches neither the
  store nor a worker, whoever sends it, confirmed or not; any other command under that key
  is refused without effect.
\<close>

theorem command_exactly_once:
  assumes "controller_command c m cmd a key confirmed t detail x = (Inr rec, x1)"
    and "command_reach c x1 x2" and "can_operate a'"
  shows "controller_command c m cmd a' key confirmed' t' detail x2 = (Inr rec, x2)
    \<and> ((m', cmd', detail') \<noteq> (m, cmd, detail) \<longrightarrow>
        controller_command c m' cmd' a' key confirmed' t' detail' x2
          = (Inl (ValueError ''idempotency key is bound to another command''), x2))"
proof -
  obtain s w s1 w1 s2 w2 where x: "x = (s, w)" "x1 = (s1, w1)" "x2 = (s2, w2)"
    by (cases x, cases x1, cases x2)
  have r: "audit_record_of s1 key = Some rec \<and> ar_market rec = m \<and> ar_command rec = cmd \<and> ar_detail rec = detail
      \<and> str_strip key \<noteq> []"
    using assms(1) unfolding x by (rule command_recorded)
  then have "audit_record_of s2 key = Some rec" using audit_kept [OF assms(2)] by (simp add: x)
  then show ?thesis using r assms(3) by (auto simp: x controller_command_def)
qed

theorem command_exactly_once_witness:
  "\<exists>rec x1. controller_command ex_controller NSE START ex_operator ''k1'' True (Aware 0) '''' (operational_store_init, [])
      = (Inr rec, x1)
    \<and> controller_command ex_controller NSE START ex_operator ''k1'' False (Aware 9) '''' x1 = (Inr rec, x1)
    \<and> controller_command ex_controller NSE STOP ex_operator ''k1'' False (Aware 9) '''' x1
      = (Inl (ValueError ''idempotency key is bound to another command''), x1)"
proof -
  obtain rec x1 where a: "controller_command ex_controller NSE START ex_operator ''k1'' True (Aware 0) ''''
      (operational_store_init, []) = (Inr rec, x1)"
    by (simp add: controller_eval str_strip_def is_space_def Let_def)
  show ?thesis
    using command_exactly_once [OF a rtranclp.rtrancl_refl, of ex_operator False "Aware 9" NSE STOP "''''"] a
    by (auto simp: ex_operator_def can_operate_def)
qed

end
