(* ===== verification/Py_Parse.thy ===== *)
theory Py_Parse
  imports Py_Text
begin

text \<open>
  The text-to-value half of Python the program's inputs go through: \<open>int(text)\<close>,
  \<open>float(text)\<close>, JSON values with \<open>json.dumps\<close>, the truth value and \<open>str()\<close> of such
  values, and datetimes from POSIX timestamps.
\<close>

section \<open>Numbers from text\<close>

definition is_digit :: "char \<Rightarrow> bool" where
  "is_digit c \<longleftrightarrow> (let n = of_char c :: nat in 48 \<le> n \<and> n \<le> 57)"

definition digit_value :: "char \<Rightarrow> int" where
  "digit_value c = int (of_char c) - 48"

definition digits_value :: "string \<Rightarrow> int" where
  "digits_value s = foldl (\<lambda>n c. 10 * n + digit_value c) 0 s"

text \<open>An underscore is allowed between two digits only.\<close>

fun drop_underscores :: "bool \<Rightarrow> string \<Rightarrow> string option" where
  "drop_underscores after_digit [] = Some []"
| "drop_underscores after_digit (c # cs) =
     (if c = CHR ''_'' then
        (if after_digit \<and> cs \<noteq> [] \<and> is_digit (hd cs) then drop_underscores False cs else None)
      else map_option ((#) c) (drop_underscores (is_digit c) cs))"

fun split_sign :: "string \<Rightarrow> int \<times> string" where
  "split_sign (c # cs) =
     (if c = CHR ''-'' then (- 1, cs) else if c = CHR ''+'' then (1, cs) else (1, c # cs))"
| "split_sign [] = (1, [])"

definition py_int :: "string \<Rightarrow> int option" where
  "py_int s =
     (case drop_underscores False (str_strip s) of
        None \<Rightarrow> None
      | Some t \<Rightarrow> (let (sg, ds) = split_sign t in
          if ds \<noteq> [] \<and> list_all is_digit ds then Some (sg * digits_value ds) else None))"

definition lower_char :: "char \<Rightarrow> char" where
  "lower_char c = (let n = of_char c :: nat in if 65 \<le> n \<and> n \<le> 90 then char_of (n + 32) else c)"

definition upper_char :: "char \<Rightarrow> char" where
  "upper_char c = (let n = of_char c :: nat in if 97 \<le> n \<and> n \<le> 122 then char_of (n - 32) else c)"

definition str_lower :: "string \<Rightarrow> string" where "str_lower = map lower_char"
definition str_upper :: "string \<Rightarrow> string" where "str_upper = map upper_char"

text \<open>\<open>s.replace(old, new)\<close> for a single old character.\<close>

definition str_replace :: "char \<Rightarrow> string \<Rightarrow> string \<Rightarrow> string" where
  "str_replace old new s = concat (map (\<lambda>c. if c = old then new else [c]) s)"

definition parse_exponent :: "string \<Rightarrow> int option" where
  "parse_exponent s =
     (case s of
        [] \<Rightarrow> Some 0
      | c # cs \<Rightarrow> if lower_char c = CHR ''e'' then
            (let (sg, ds) = split_sign cs in
             if ds \<noteq> [] \<and> list_all is_digit ds then Some (sg * digits_value ds) else None)
          else None)"

text \<open>The digits, the point, the fraction, the exponent; at least one digit before the exponent.\<close>

definition parse_decimal :: "string \<Rightarrow> rat option" where
  "parse_decimal s =
     (let whole = takeWhile is_digit s; rest = dropWhile is_digit s;
          (frac, tail) = (case rest of
              c # cs \<Rightarrow> if c = CHR ''.'' then (takeWhile is_digit cs, dropWhile is_digit cs) else ([], rest)
            | [] \<Rightarrow> ([], []))
      in if whole @ frac = [] then None
         else map_option (\<lambda>e. of_int (digits_value (whole @ frac)) * 10 powi (e - int (length frac)))
                (parse_exponent tail))"

definition py_float :: "string \<Rightarrow> pyfloat option" where
  "py_float s =
     (case drop_underscores False (str_strip s) of
        None \<Rightarrow> None
      | Some t \<Rightarrow> (let (sg, body) = split_sign t; name = str_lower body in
          if name = ''inf'' \<or> name = ''infinity'' then Some (if sg < 0 then NInf else PInf)
          else if name = ''nan'' then Some NaN
          else map_option (\<lambda>q. rnd64 (of_int sg * q)) (parse_decimal body)))"

text \<open>\<open>float(n)\<close> of an int; beyond the range of floats it raises.\<close>

definition int_float :: "int \<Rightarrow> pyfloat result" where
  "int_float n = (let x = float_of_int n in
     if isfinite x then Inr x else Inl (OverflowError ''int too large to convert to float''))"

section \<open>Printing and reading numbers\<close>

lemma is_digit_char [simp]: "n < 10 \<Longrightarrow> is_digit (digit_char n)"
  by (simp add: is_digit_def digit_char_def of_char_of)

lemma digit_value_char [simp]: "n < 10 \<Longrightarrow> digit_value (digit_char n) = int n"
  by (simp add: digit_value_def digit_char_def of_char_of)

lemma digits_str_of_nat: "str_of_nat n \<noteq> [] \<and> list_all is_digit (str_of_nat n) \<and> digits_value (str_of_nat n) = int n"
proof (induction n rule: str_of_nat.induct)
  case (1 n)
  have "10 * int (n div 10) + int (n mod 10) = int n"
    by (metis mult_div_mod_eq of_nat_add of_nat_mult of_nat_numeral)
  with 1 show ?case
    by (cases "n < 10") (auto simp: str_of_nat.simps [of n] digits_value_def list_all_iff)
qed

lemma digit_not_special:
  "is_digit c \<Longrightarrow> \<not> is_space c \<and> c \<noteq> CHR ''_'' \<and> c \<noteq> CHR ''-'' \<and> c \<noteq> CHR ''+'' \<and> c \<noteq> CHR ''.'' \<and> c \<noteq> CHR ''Z''"
  by (auto simp: is_digit_def is_space_def Let_def)

lemma drop_underscores_digits: "list_all is_digit s \<Longrightarrow> drop_underscores b s = Some s"
  by (induction s arbitrary: b) (auto dest: digit_not_special)

lemma strip_digits: "list_all is_digit s \<Longrightarrow> str_strip s = s"
proof -
  have "dropWhile is_space t = t" if "list_all is_digit t" for t :: string
    using that by (cases t) (auto dest: digit_not_special)
  then show "list_all is_digit s \<Longrightarrow> str_strip s = s" by (simp add: str_strip_def)
qed

lemma split_sign_digits: "list_all is_digit s \<Longrightarrow> split_sign s = (1, s)"
  by (cases s) (auto dest: digit_not_special)

text \<open>The round trips of \<open>str\<close> with \<open>int\<close> and with \<open>float\<close>.\<close>

lemma py_int_str_of_nat: "py_int (str_of_nat n) = Some (int n)"
  using digits_str_of_nat [of n] by (simp add: py_int_def strip_digits drop_underscores_digits split_sign_digits)

lemma parse_decimal_digits: "s \<noteq> [] \<Longrightarrow> list_all is_digit s \<Longrightarrow> parse_decimal s = Some (of_int (digits_value s))"
  by (simp add: parse_decimal_def parse_exponent_def list_all_iff takeWhile_eq_all_conv [THEN iffD2] dropWhile_eq_Nil_conv [THEN iffD2])

lemma str_lower_digits: "list_all is_digit s \<Longrightarrow> str_lower s = s"
  by (induction s) (auto simp: str_lower_def lower_char_def is_digit_def Let_def)

lemma py_float_str_of_nat: "py_float (str_of_nat n) = Some (rnd64 (of_nat n))"
proof -
  note s = digits_str_of_nat [of n]
  then have "str_of_nat n \<notin> {''inf'', ''infinity'', ''nan''}" by (auto simp: is_digit_def)
  then show ?thesis using s
    by (simp add: py_float_def strip_digits drop_underscores_digits split_sign_digits str_lower_digits
        parse_decimal_digits)
qed

section \<open>JSON values\<close>

text \<open>
  What \<open>json.loads\<close> returns.  The items of an object are in the order of the dictionary.
\<close>

datatype json =
    JNull
  | JBool bool
  | JInt int
  | JFloat pyfloat
  | JStr string
  | JList "json list"
  | JObj "(string \<times> json) list"

text \<open>\<open>bool(value)\<close>\<close>

fun json_truth :: "json \<Rightarrow> bool" where
  "json_truth JNull = False"
| "json_truth (JBool b) = b"
| "json_truth (JInt i) = (i \<noteq> 0)"
| "json_truth (JFloat x) = (\<not> py_eq x 0)"
| "json_truth (JStr s) = (s \<noteq> [])"
| "json_truth (JList xs) = (xs \<noteq> [])"
| "json_truth (JObj d) = (d \<noteq> [])"

fun json_repr :: "json \<Rightarrow> string" where
  "json_repr JNull = ''None''"
| "json_repr (JBool b) = (if b then ''True'' else ''False'')"
| "json_repr (JInt i) = str_of_int i"
| "json_repr (JFloat x) = str_of_float x"
| "json_repr (JStr s) = repr_str s"
| "json_repr (JList xs) = ''['' @ str_join '', '' (map json_repr xs) @ '']''"
| "json_repr (JObj d) = ''{'' @ str_join '', '' (map (\<lambda>(k, v). repr_str k @ '': '' @ json_repr v) d) @ ''}''"

definition json_str :: "json \<Rightarrow> string" where
  "json_str v = (case v of JStr s \<Rightarrow> s | _ \<Rightarrow> json_repr v)"

definition type_name :: "json \<Rightarrow> string" where
  "type_name v = (case v of JNull \<Rightarrow> ''NoneType'' | JBool _ \<Rightarrow> ''bool'' | JInt _ \<Rightarrow> ''int''
     | JFloat _ \<Rightarrow> ''float'' | JStr _ \<Rightarrow> ''str'' | JList _ \<Rightarrow> ''list'' | JObj _ \<Rightarrow> ''dict'')"

text \<open>\<open>float(value)\<close>; an int beyond the range of floats raises.\<close>

definition json_float :: "json \<Rightarrow> pyfloat result" where
  "json_float v =
     (case v of
        JBool b \<Rightarrow> Inr (if b then 1 else 0)
      | JInt i \<Rightarrow> int_float i
      | JFloat x \<Rightarrow> Inr x
      | JStr s \<Rightarrow> (case py_float s of
            Some x \<Rightarrow> Inr x
          | None \<Rightarrow> Inl (ValueError (''could not convert string to float: '' @ repr_str s)))
      | _ \<Rightarrow> Inl (TypeError (''float() argument must be a string or a real number, not ''
              @ repr_str (type_name v))))"

lemma json_float_numeral: "(numeral n :: int) \<le> 2 ^ 53 \<Longrightarrow> json_float (JInt (numeral n)) = Inr (Fin (numeral n))"
  by (simp add: json_float_def int_float_def float_of_int_def rnd64_f64 is_f64_numeral)

lemma json_float_one: "json_float (JInt 1) = Inr (Fin 1)"
  by (simp add: json_float_def int_float_def float_of_int_def one_pyfloat_def)

text \<open>
  \<open>json.dumps(value, sort_keys=True, separators=(',', ':'))\<close>.  Characters outside the
  printable ASCII range are written as UTF-16 escapes.
\<close>

definition hex4 :: "nat \<Rightarrow> string" where
  "hex4 n = map hex_digit [n div 4096 mod 16, n div 256 mod 16, n div 16 mod 16, n mod 16]"

definition u_escape :: "nat \<Rightarrow> string" where
  "u_escape n = (if n < 65536 then char_of (92 :: nat) # ''u'' @ hex4 n
     else let v = n - 65536 in
       char_of (92 :: nat) # ''u'' @ hex4 (55296 + v div 1024)
         @ char_of (92 :: nat) # ''u'' @ hex4 (56320 + v mod 1024))"

definition json_char :: "nat \<Rightarrow> string" where
  "json_char n =
     (if n = 34 \<or> n = 92 then [char_of (92 :: nat), char_of n]
      else if n = 10 then [char_of (92 :: nat), CHR ''n'']
      else if n = 13 then [char_of (92 :: nat), CHR ''r'']
      else if n = 9 then [char_of (92 :: nat), CHR ''t'']
      else if n = 12 then [char_of (92 :: nat), CHR ''f'']
      else if n = 8 then [char_of (92 :: nat), CHR ''b'']
      else if 32 \<le> n \<and> n \<le> 126 then [char_of n] else u_escape n)"

text \<open>The code points of a UTF-8 byte sequence.\<close>

fun code_points :: "nat list \<Rightarrow> nat list" where
  "code_points [] = []"
| "code_points (a # bs) =
     (if a < 192 then a # code_points bs
      else if a < 224 then (case bs of b # cs \<Rightarrow> ((a - 192) * 64 + b mod 64) # code_points cs | [] \<Rightarrow> [a])
      else if a < 240 then (case bs of b # c # ds \<Rightarrow>
             ((a - 224) * 4096 + b mod 64 * 64 + c mod 64) # code_points ds | _ \<Rightarrow> [a])
      else (case bs of b # c # d # es \<Rightarrow>
             ((a - 240) * 262144 + b mod 64 * 4096 + c mod 64 * 64 + d mod 64) # code_points es | _ \<Rightarrow> [a]))"

definition json_string :: "string \<Rightarrow> string" where
  "json_string s = [char_of (34 :: nat)] @ concat (map json_char (code_points (map of_char s))) @ [char_of (34 :: nat)]"

definition key_lt :: "string \<times> 'a \<Rightarrow> string \<times> 'a \<Rightarrow> bool" where
  "key_lt p q \<longleftrightarrow> fst p < fst q"

fun json_sort :: "json \<Rightarrow> json" where
  "json_sort (JList xs) = JList (map json_sort xs)"
| "json_sort (JObj d) = JObj (py_sorted key_lt (map (\<lambda>(k, v). (k, json_sort v)) d))"
| "json_sort v = v"

fun json_encode :: "json \<Rightarrow> string" where
  "json_encode JNull = ''null''"
| "json_encode (JBool b) = (if b then ''true'' else ''false'')"
| "json_encode (JInt i) = str_of_int i"
| "json_encode (JFloat x) = (case x of NaN \<Rightarrow> ''NaN'' | PInf \<Rightarrow> ''Infinity'' | NInf \<Rightarrow> ''-Infinity''
     | Fin _ \<Rightarrow> str_of_float x)"
| "json_encode (JStr s) = json_string s"
| "json_encode (JList xs) = ''['' @ str_join '','' (map json_encode xs) @ '']''"
| "json_encode (JObj d) = ''{'' @ str_join '','' (map (\<lambda>(k, v). json_string k @ '':'' @ json_encode v) d) @ ''}''"

definition json_dumps :: "json \<Rightarrow> string" where
  "json_dumps v = json_encode (json_sort v)"

text \<open>Sorting the keys of a sorted value changes nothing, so encoding is stable.\<close>

lemma strict_weak_key_lt: "strict_weak A key_lt"
  by (auto simp: strict_weak_def key_lt_def)

lemma py_sorted_sorted: "sorted_wrt (\<lambda>a b. \<not> lt b a) xs \<Longrightarrow> py_sorted lt xs = xs"
  by (induction xs) (auto simp: insort_lt_sorted_head)

lemma insort_lt_map:
  "(\<And>x y. lt (f x) (f y) = lt' x y) \<Longrightarrow> insort_lt lt (f x) (map f xs) = map f (insort_lt lt' x xs)"
  by (induction xs) auto

lemma py_sorted_map:
  "(\<And>x y. lt (f x) (f y) = lt' x y) \<Longrightarrow> py_sorted lt (map f xs) = map f (py_sorted lt' xs)"
  by (induction xs) (auto simp: insort_lt_map)

lemma json_sort_idem [simp]: "json_sort (json_sort v) = json_sort v"
proof (induction v rule: json_sort.induct)
  case (2 d)
  have A: "map (\<lambda>(k, v). (k, json_sort v)) (py_sorted key_lt (map (\<lambda>(k, v). (k, json_sort v)) d))
      = py_sorted key_lt (map (\<lambda>(k, v). (k, json_sort v)) (map (\<lambda>(k, v). (k, json_sort v)) d))"
    by (rule py_sorted_map [symmetric]) (auto simp: key_lt_def)
  have B: "map (\<lambda>(k, v). (k, json_sort v)) (map (\<lambda>(k, v). (k, json_sort v)) d)
      = map (\<lambda>(k, v). (k, json_sort v)) d"
    using 2 by force
  have C: "py_sorted key_lt (py_sorted key_lt xs) = py_sorted key_lt xs" for xs :: "(string \<times> json) list"
    by (rule py_sorted_sorted [OF sorted_py_sorted [OF strict_weak_key_lt]])
  show ?case by (simp only: json_sort.simps A B C)
qed auto

section \<open>Datetimes from numbers\<close>

text \<open>
  The instants a \<open>datetime\<close> can hold: years 1 to 9999.  Adding a \<open>timedelta\<close> that leads
  out of them raises.
\<close>

definition dt_min :: instant where "dt_min = - 62135596800000000"
definition dt_max :: instant where "dt_max = 253402300799999999"

definition dt_add :: "instant \<Rightarrow> int \<Rightarrow> instant result" where
  "dt_add t d = (if dt_min \<le> t + d \<and> t + d \<le> dt_max then Inr (t + d) else Inl (OverflowError ''date value out of range''))"

lemma dt_add_Inr_iff: "dt_add t d = Inr u \<longleftrightarrow> u = t + d \<and> dt_min \<le> t + d \<and> t + d \<le> dt_max"
  by (auto simp: dt_add_def)

text \<open>
  \<open>datetime.fromtimestamp(x, UTC)\<close>: the fraction is multiplied as a float and rounded to
  the nearest microsecond, ties to even.
\<close>

definition truncate_rat :: "rat \<Rightarrow> int" where
  "truncate_rat q = (if 0 \<le> q then \<lfloor>q\<rfloor> else \<lceil>q\<rceil>)"

definition fromtimestamp :: "pyfloat \<Rightarrow> instant result" where
  "fromtimestamp x =
     (case x of
        NaN \<Rightarrow> Inl (ValueError ''cannot convert float NaN to integer'')
      | PInf \<Rightarrow> Inl (OverflowError ''cannot convert float infinity to integer'')
      | NInf \<Rightarrow> Inl (OverflowError ''cannot convert float infinity to integer'')
      | Fin q \<Rightarrow>
          (let whole = truncate_rat q;
               us = (case rnd64 ((q - of_int whole) * 1000000) of Fin f \<Rightarrow> rne f | _ \<Rightarrow> 0);
               t = whole * us_per_second + us; s = t div us_per_second;
               y = fst (civil_of_days (date_of t))
           in if s < - (2 ^ 63) \<or> 2 ^ 63 \<le> s then Inl (OverflowError ''timestamp out of range for platform time_t'')
              else if y - 1900 < - (2 ^ 31) \<or> 2 ^ 31 \<le> y - 1900 then Inl (OSError ''Value too large for defined data type'')
              else if t < dt_min \<or> dt_max < t then Inl (ValueError (''year '' @ str_of_int y @ '' is out of range''))
              else Inr t))"

lemma fromtimestamp_int: "fromtimestamp (Fin (of_int k)) = Inr t \<Longrightarrow> t = k * us_per_second"
  by (auto simp: fromtimestamp_def truncate_rat_def rne_def zero_pyfloat_def Let_def split: if_splits)

text \<open>\<open>int(value.timestamp())\<close>: the microseconds divided by a million, rounded, then cut off.\<close>

definition timestamp_int :: "instant \<Rightarrow> int" where
  "timestamp_int t = truncate_rat (round_rat (of_int t / 1000000))"

text \<open>
  Until the year 2242 (two to the power 33 seconds) a float holds enough digits to keep
  the microseconds apart from the next second, so cutting off gives the whole seconds.
\<close>

lemma timestamp_int_div:
  assumes "0 \<le> t" and "t < 2 ^ 33 * us_per_second"
  shows "timestamp_int t = t div us_per_second"
proof -
  define n where "n = t div us_per_second"
  define q :: rat where "q = of_int t / 1000000"
  have n: "0 \<le> n" "n < 2 ^ 33" "n * 1000000 \<le> t" "t \<le> n * 1000000 + 999999"
    using assms by (auto simp: n_def us_per_second_def)
  define r :: rat where "r = of_int (2 ^ 20 * (n + 1) - 1) * 2 powi (- 20)"
  have r: "r = of_int (n + 1) - 1 / 2 ^ 20"
    by (simp add: r_def power_int_minus field_simps)
  have lo: "of_int n \<le> q"
  proof -
    have "of_int (n * 1000000) \<le> (of_int t :: rat)" using n(3) by (simp only: of_int_le_iff)
    then show ?thesis by (simp add: q_def field_simps)
  qed
  have hi: "q \<le> r"
  proof -
    have "(of_int t :: rat) \<le> of_int (n * 1000000 + 999999)" using n(4) by (simp only: of_int_le_iff)
    then show ?thesis by (simp add: q_def r field_simps)
  qed
  have "round_rat r = r"
  proof (rule round_rat_small_grid [of "- 20"])
    show "grid (- 20) r" unfolding grid_def r_def by blast
    have "\<bar>r\<bar> = r" using n(1) by (simp add: r)
    also have "\<dots> \<le> of_int (2 ^ 33)"
    proof -
      have "(of_int (n + 1) :: rat) \<le> of_int (2 ^ 33)" using n(2) by (simp only: of_int_le_iff)
      then show ?thesis by (simp add: r)
    qed
    also have "\<dots> = 2 powi (- 20 + 53)" by simp
    finally show "\<bar>r\<bar> \<le> 2 powi (- 20 + 53)" .
  qed simp
  then have upper: "round_rat q \<le> r" using round_rat_mono [OF hi] by simp
  have lower: "of_int n \<le> round_rat q"
    using round_rat_mono [OF lo] round_rat_int [of n] n(1,2) by simp
  have "\<lfloor>round_rat q\<rfloor> = n" using lower upper by (simp add: floor_unique r)
  moreover have "0 \<le> round_rat q" using lower n(1) by (smt (verit) of_int_0_le_iff order_trans)
  ultimately show ?thesis by (simp add: timestamp_int_def truncate_rat_def n_def q_def)
qed

end
