(* ===== verification/Etl.thy ===== *)
theory Etl
  imports Contracts Py_Parse
begin

text \<open>
  The three-layer data path: the records of src/src/nanodelta/contracts.py, the file lake
  of storage.py, the provider adapters of markets/adapters.py, the feature rows of
  features.py and the orchestration of pipeline.py.  A provider payload is a JSON object;
  \<open>json.loads(json.dumps(payload, sort_keys=True))\<close> is the payload with its keys sorted.
  The interpreter's \<open>datetime.fromisoformat\<close>, whose grammar depends on the Python version,
  is the parameter \<open>parse_iso\<close>.
\<close>

section \<open>Records\<close>

record raw_record =
  rr_record_id :: string
  rr_market :: market
  rr_provider :: provider
  rr_event_type :: event_type
  rr_provider_symbol :: string
  rr_received_at :: instant
  rr_payload :: json
  rr_schema_version :: int

definition raw_record_id :: "market \<Rightarrow> provider \<Rightarrow> event_type \<Rightarrow> string \<Rightarrow> json \<Rightarrow> string" where
  "raw_record_id m p e psym payload =
     stable_id [market_value m, provider_value p, event_type_value e, psym, json_dumps payload]"

definition raw_record_create ::
  "market \<Rightarrow> provider \<Rightarrow> event_type \<Rightarrow> string \<Rightarrow> datetime \<Rightarrow> json \<Rightarrow> raw_record result" where
  "raw_record_create m p e psym received payload =
     bind_r (utc received ''received_at'') (\<lambda>t.
       Inr \<lparr>rr_record_id = raw_record_id m p e psym payload, rr_market = m, rr_provider = p,
            rr_event_type = e, rr_provider_symbol = psym, rr_received_at = t,
            rr_payload = json_sort payload, rr_schema_version = 1\<rparr>)"

definition raw_record_dict :: "raw_record \<Rightarrow> json" where
  "raw_record_dict r =
     JObj [(''record_id'', JStr (rr_record_id r)), (''market'', JStr (market_value (rr_market r))),
       (''provider'', JStr (provider_value (rr_provider r))),
       (''event_type'', JStr (event_type_value (rr_event_type r))),
       (''provider_symbol'', JStr (rr_provider_symbol r)),
       (''received_at'', JStr (isoformat (rr_received_at r))), (''payload'', rr_payload r),
       (''schema_version'', JInt (rr_schema_version r))]"

record canonical_candle =
  cc_record_id :: string
  cc_raw_record_id :: string
  cc_market :: market
  cc_provider :: provider
  cc_symbol :: string
  cc_timeframe :: string
  cc_open_time :: instant
  cc_open :: pyfloat
  cc_high :: pyfloat
  cc_low :: pyfloat
  cc_close :: pyfloat
  cc_volume :: pyfloat
  cc_is_settled :: bool
  cc_schema_version :: int

definition canonical_candle_post_init :: "canonical_candle \<Rightarrow> canonical_candle result" where
  "canonical_candle_post_init c =
     (if \<not> list_all isfinite [cc_open c, cc_high c, cc_low c, cc_close c, cc_volume c]
        then Inl (ValueError ''OHLCV values must be finite'')
      else if cc_volume c < 0 then Inl (ValueError ''volume cannot be negative'')
      else if py_min (cc_open c) (cc_close c) < cc_low c \<or> cc_high c < py_max (cc_open c) (cc_close c)
        then Inl (ValueError ''OHLC values are inconsistent'')
      else if cc_high c < cc_low c then Inl (ValueError ''low cannot exceed high'')
      else Inr c)"

definition canonical_candle_dict :: "canonical_candle \<Rightarrow> json" where
  "canonical_candle_dict c =
     JObj [(''record_id'', JStr (cc_record_id c)), (''raw_record_id'', JStr (cc_raw_record_id c)),
       (''market'', JStr (market_value (cc_market c))), (''provider'', JStr (provider_value (cc_provider c))),
       (''symbol'', JStr (cc_symbol c)), (''timeframe'', JStr (cc_timeframe c)),
       (''open_time'', JStr (isoformat (cc_open_time c))), (''open'', JFloat (cc_open c)),
       (''high'', JFloat (cc_high c)), (''low'', JFloat (cc_low c)), (''close'', JFloat (cc_close c)),
       (''volume'', JFloat (cc_volume c)), (''is_settled'', JBool (cc_is_settled c)),
       (''schema_version'', JInt (cc_schema_version c))]"

record feature_record =
  ft_record_id :: string
  ft_candle_record_id :: string
  ft_market :: market
  ft_symbol :: string
  ft_timeframe :: string
  ft_event_time :: instant
  ft_close :: pyfloat
  ft_return_1 :: pyfloat
  ft_range_pct :: pyfloat
  ft_body_pct :: pyfloat
  ft_volume_change :: "pyfloat option"
  ft_feature_version :: int

definition feature_record_dict :: "feature_record \<Rightarrow> json" where
  "feature_record_dict f =
     JObj [(''record_id'', JStr (ft_record_id f)), (''candle_record_id'', JStr (ft_candle_record_id f)),
       (''market'', JStr (market_value (ft_market f))), (''symbol'', JStr (ft_symbol f)),
       (''timeframe'', JStr (ft_timeframe f)), (''event_time'', JStr (isoformat (ft_event_time f))),
       (''close'', JFloat (ft_close f)), (''return_1'', JFloat (ft_return_1 f)),
       (''range_pct'', JFloat (ft_range_pct f)), (''body_pct'', JFloat (ft_body_pct f)),
       (''volume_change'', case ft_volume_change f of None \<Rightarrow> JNull | Some x \<Rightarrow> JFloat x),
       (''feature_version'', JInt (ft_feature_version f))]"

section \<open>The file lake\<close>

text \<open>
  The lake is the contents of its files by path below the root: market, layer, event date
  and record identifier.  A file is created exclusively: an existing one is left alone.
\<close>

type_synonym lake_path = "string \<times> string \<times> string \<times> string"
type_synonym lake = "(lake_path, string) dict"

definition lake_path_of :: "market \<Rightarrow> string \<Rightarrow> instant \<Rightarrow> string \<Rightarrow> lake_path" where
  "lake_path_of m layer event_time record_id =
     (market_value m, layer, ''event_date='' @ date_isoformat (date_of event_time), record_id @ ''.json'')"

definition lake_write ::
  "market \<Rightarrow> string \<Rightarrow> instant \<Rightarrow> string \<Rightarrow> json \<Rightarrow> (lake, bool) st" where
  "lake_write m layer event_time record_id record l =
     (if layer \<notin> {''bronze'', ''silver'', ''gold''}
        then (Inl (ValueError (''unsupported layer: '' @ layer)), l)
      else let target = lake_path_of m layer event_time record_id in
        case map_of l target of
          Some _ \<Rightarrow> (Inr False, l)
        | None \<Rightarrow> (Inr True, AList.update target (json_dumps record @ [char_of (10 :: nat)]) l))"

section \<open>Provider adapters\<close>

definition obj_get :: "json \<Rightarrow> string \<Rightarrow> json option" where
  "obj_get p k = (case p of JObj d \<Rightarrow> map_of d k | _ \<Rightarrow> None)"

lemma obj_get_sorted:
  assumes "distinct (map fst d)"
  shows "obj_get (json_sort (JObj d)) k = map_option json_sort (obj_get (JObj d) k)"
proof -
  let ?d = "map (\<lambda>(k, v). (k, json_sort v)) d"
  have k: "map fst ?d = map fst d" by (induction d) auto
  have "map_of (py_sorted key_lt ?d) = map_of ?d"
    using assms k by (subst map_of_inject_set) (simp_all only: distinct_map_py_sorted set_py_sorted)
  moreover have "map_of ?d k = map_option json_sort (map_of d k)" by (induction d) auto
  ultimately show ?thesis by (simp add: obj_get_def)
qed

definition obj_item :: "json \<Rightarrow> string \<Rightarrow> json result" where
  "obj_item p k = (case obj_get p k of None \<Rightarrow> Inl (KeyError k) | Some v \<Rightarrow> Inr v)"

definition obj_get_or :: "json \<Rightarrow> string \<Rightarrow> json \<Rightarrow> json" where
  "obj_get_or p k v = (case obj_get p k of None \<Rightarrow> v | Some w \<Rightarrow> w)"

definition float_field :: "json \<Rightarrow> string \<Rightarrow> pyfloat result" where
  "float_field p k =
     (case obj_get p k of
        None \<Rightarrow> Inl (ValueError (''missing required field: '' @ k))
      | Some v \<Rightarrow> if v = JNull \<or> v = JStr [] then Inl (ValueError (''missing required field: '' @ k))
                 else json_float v)"

definition timestamp_of :: "(string \<Rightarrow> datetime result) \<Rightarrow> json \<Rightarrow> instant result" where
  "timestamp_of parse_iso v =
     (if (case v of JBool _ \<Rightarrow> True | JInt _ \<Rightarrow> True | JFloat _ \<Rightarrow> True
                  | JStr s \<Rightarrow> s \<noteq> [] \<and> list_all is_digit s | _ \<Rightarrow> False)
      then bind_r (json_float v) (\<lambda>x.
             bind_r (if Fin 10000000000 < x then py_div x (Fin 1000) else Inr x) fromtimestamp)
      else bind_r (parse_iso (str_replace CHR ''Z'' ''+00:00'' (json_str v))) (\<lambda>t.
             case t of
               Naive _ \<Rightarrow> Inl (ValueError ''provider timestamp must include a timezone'')
             | Aware i \<Rightarrow> Inr i))"

definition candle_of ::
  "raw_record \<Rightarrow> string \<Rightarrow> string \<Rightarrow> instant \<Rightarrow> pyfloat \<Rightarrow> pyfloat \<Rightarrow> pyfloat \<Rightarrow> pyfloat \<Rightarrow> pyfloat \<Rightarrow> bool
     \<Rightarrow> canonical_candle result" where
  "candle_of raw symbol timeframe open_time op hi lo cl vol settled =
     canonical_candle_post_init
       \<lparr>cc_record_id = stable_id [market_value (rr_market raw), symbol, timeframe, isoformat open_time],
        cc_raw_record_id = rr_record_id raw, cc_market = rr_market raw, cc_provider = rr_provider raw,
        cc_symbol = symbol, cc_timeframe = timeframe, cc_open_time = open_time, cc_open = op,
        cc_high = hi, cc_low = lo, cc_close = cl, cc_volume = vol, cc_is_settled = settled,
        cc_schema_version = 1\<rparr>"

text \<open>
  The adapters evaluate the fields in the same order: timestamp, open, high, low, close,
  volume; \<open>prices\<close> is the object the four prices are read from.
\<close>

definition adapt ::
  "(string \<Rightarrow> datetime result) \<Rightarrow> raw_record \<Rightarrow> string \<Rightarrow> string \<Rightarrow> string \<Rightarrow> json \<Rightarrow> string list \<Rightarrow> string \<Rightarrow> bool
     \<Rightarrow> canonical_candle result" where
  "adapt parse_iso raw symbol timeframe time_key prices keys volume_key settled =
     bind_r (bind_r (obj_item (rr_payload raw) time_key) (timestamp_of parse_iso)) (\<lambda>t.
     bind_r (float_field prices (keys ! 0)) (\<lambda>op.
     bind_r (float_field prices (keys ! 1)) (\<lambda>hi.
     bind_r (float_field prices (keys ! 2)) (\<lambda>lo.
     bind_r (float_field prices (keys ! 3)) (\<lambda>cl.
     bind_r (float_field (rr_payload raw) volume_key) (\<lambda>vol.
       candle_of raw symbol timeframe t op hi lo cl vol settled))))))"

definition pair_symbol :: "raw_record \<Rightarrow> string" where
  "pair_symbol raw = str_replace CHR ''-'' ''_'' (str_upper (rr_provider_symbol raw))"

definition adapt_dhan :: "(string \<Rightarrow> datetime result) \<Rightarrow> raw_record \<Rightarrow> canonical_candle result" where
  "adapt_dhan parse_iso raw = (let p = rr_payload raw in
     adapt parse_iso raw (str_upper (rr_provider_symbol raw)) (json_str (obj_get_or p ''timeframe'' (JStr ''1m'')))
       ''timestamp'' p [''open'', ''high'', ''low'', ''close''] ''volume''
       (json_truth (obj_get_or p ''settled'' (JBool True))))"

definition adapt_truedata :: "(string \<Rightarrow> datetime result) \<Rightarrow> raw_record \<Rightarrow> canonical_candle result" where
  "adapt_truedata parse_iso raw = (let p = rr_payload raw in
     adapt parse_iso raw (str_upper (rr_provider_symbol raw)) (json_str (obj_get_or p ''interval'' (JStr ''1m'')))
       ''time'' p [''o'', ''h'', ''l'', ''c''] ''v''
       (json_truth (obj_get_or p ''complete'' (JBool True))))"

definition adapt_oanda :: "(string \<Rightarrow> datetime result) \<Rightarrow> raw_record \<Rightarrow> canonical_candle result" where
  "adapt_oanda parse_iso raw = (let p = rr_payload raw in
     case obj_get p ''mid'' of
       Some (JObj mid) \<Rightarrow>
         adapt parse_iso raw (pair_symbol raw) (json_str (obj_get_or p ''timeframe'' (JStr ''1m'')))
           ''time'' (JObj mid) [''o'', ''h'', ''l'', ''c''] ''volume''
           (json_truth (obj_get_or p ''complete'' (JBool False)))
     | _ \<Rightarrow> Inl (ValueError ''missing required field: mid''))"

definition adapt_okx :: "(string \<Rightarrow> datetime result) \<Rightarrow> raw_record \<Rightarrow> canonical_candle result" where
  "adapt_okx parse_iso raw = (let p = rr_payload raw in
     adapt parse_iso raw (pair_symbol raw) (json_str (obj_get_or p ''bar'' (JStr ''1m'')))
       ''ts'' p [''o'', ''h'', ''l'', ''c''] ''vol''
       (json_str (obj_get_or p ''confirm'' (JStr ''0'')) = ''1''))"

definition adapt_poloniex :: "(string \<Rightarrow> datetime result) \<Rightarrow> raw_record \<Rightarrow> canonical_candle result" where
  "adapt_poloniex parse_iso raw = (let p = rr_payload raw in
     adapt parse_iso raw (pair_symbol raw) (str_lower (json_str (obj_get_or p ''interval'' (JStr ''MINUTE_1''))))
       ''startTime'' p [''open'', ''high'', ''low'', ''close''] ''quantity''
       (json_truth (obj_get_or p ''settled'' (JBool True))))"

fun adapters ::
  "provider \<Rightarrow> market \<times> ((string \<Rightarrow> datetime result) \<Rightarrow> raw_record \<Rightarrow> canonical_candle result)" where
  "adapters DHAN = (NSE, adapt_dhan)"
| "adapters TRUEDATA = (NSE, adapt_truedata)"
| "adapters OANDA = (FOREX, adapt_oanda)"
| "adapters OKX = (CRYPTO, adapt_okx)"
| "adapters POLONIEX = (CRYPTO, adapt_poloniex)"

definition adapter_for ::
  "market \<Rightarrow> provider \<Rightarrow> ((string \<Rightarrow> datetime result) \<Rightarrow> raw_record \<Rightarrow> canonical_candle result) result" where
  "adapter_for m p =
     (if m \<noteq> fst (adapters p)
      then Inl (ValueError (provider_value p @ '' cannot ingest '' @ market_value m @ '' data''))
      else Inr (snd (adapters p)))"

section \<open>Features\<close>

text \<open>\<open>groups[key].append(item)\<close> on a \<open>defaultdict(list)\<close>.\<close>

definition group_append :: "('k, 'v list) dict \<Rightarrow> 'k \<Rightarrow> 'v \<Rightarrow> ('k, 'v list) dict" where
  "group_append d k x = AList.update k ((case map_of d k of None \<Rightarrow> [] | Some g \<Rightarrow> g) @ [x]) d"

definition candle_groups :: "canonical_candle list \<Rightarrow> (string \<times> string \<times> string, canonical_candle list) dict" where
  "candle_groups candles =
     foldl (\<lambda>d c. if cc_is_settled c
                  then group_append d (market_value (cc_market c), cc_symbol c, cc_timeframe c) c else d)
       [] candles"

definition feature_of :: "canonical_candle \<Rightarrow> canonical_candle \<Rightarrow> feature_record option" where
  "feature_of previous current =
     (if py_eq (cc_close previous) 0 \<or> py_eq (cc_open current) 0 then None
      else Some
        \<lparr>ft_record_id = stable_id [cc_record_id current, ''features'', ''1''],
         ft_candle_record_id = cc_record_id current, ft_market = cc_market current,
         ft_symbol = cc_symbol current, ft_timeframe = cc_timeframe current,
         ft_event_time = cc_open_time current, ft_close = cc_close current,
         ft_return_1 = fquot (cc_close current) (cc_close previous) - 1,
         ft_range_pct = fquot (cc_high current - cc_low current) (cc_open current),
         ft_body_pct = fquot (cc_close current - cc_open current) (cc_open current),
         ft_volume_change = (if 0 < cc_volume previous
            then Some (fquot (cc_volume current) (cc_volume previous) - 1) else None),
         ft_feature_version = 1\<rparr>)"

definition group_features :: "canonical_candle list \<Rightarrow> feature_record list" where
  "group_features cs =
     (let ordered = py_sorted (\<lambda>a b. cc_open_time a < cc_open_time b) cs in
      List.map_filter (\<lambda>(p, c). feature_of p c) (zip ordered (drop 1 ordered)))"

definition feature_key :: "feature_record \<Rightarrow> string \<times> string \<times> instant" where
  "feature_key f = (market_value (ft_market f), ft_symbol f, ft_event_time f)"

definition materialize_features :: "canonical_candle list \<Rightarrow> feature_record list" where
  "materialize_features candles =
     py_sorted (\<lambda>a b. feature_key a < feature_key b)
       (concat (map group_features (map snd (candle_groups candles))))"

section \<open>The pipeline\<close>

record ingestion_result =
  ig_raw :: raw_record
  ig_canonical :: "canonical_candle option"
  ig_bronze_created :: bool
  ig_silver_created :: bool
  ig_rejection_reason :: "string option"

text \<open>\<open>str(exc)\<close> of the exceptions \<open>ingest\<close> turns into a rejection; the others pass through.\<close>

fun rejection_of :: "py_error \<Rightarrow> string option" where
  "rejection_of (ValueError msg) = Some msg"
| "rejection_of (TypeError msg) = Some msg"
| "rejection_of (KeyError k) = Some (repr_str k)"
| "rejection_of _ = None"

definition canonicalize :: "(string \<Rightarrow> datetime result) \<Rightarrow> raw_record \<Rightarrow> canonical_candle result" where
  "canonicalize parse_iso raw = bind_r (adapter_for (rr_market raw) (rr_provider raw)) (\<lambda>adapter. adapter parse_iso raw)"

definition ingest_candle ::
  "(string \<Rightarrow> datetime result) \<Rightarrow> raw_record \<Rightarrow> bool \<Rightarrow> (lake, ingestion_result) st" where
  "ingest_candle parse_iso raw bronze l =
     (let result = (\<lambda>canonical silver reason.
            \<lparr>ig_raw = raw, ig_canonical = canonical, ig_bronze_created = bronze,
             ig_silver_created = silver, ig_rejection_reason = reason\<rparr>)
      in case canonicalize parse_iso raw of
           Inl e \<Rightarrow> (case rejection_of e of
               Some msg \<Rightarrow> (Inr (result None False (Some msg)), l)
             | None \<Rightarrow> (Inl e, l))
         | Inr c \<Rightarrow>
             if \<not> cc_is_settled c then (Inr (result (Some c) False (Some ''candle is not settled'')), l)
             else bind_st (lake_write (rr_market raw) ''silver'' (cc_open_time c) (cc_record_id c)
                    (canonical_candle_dict c)) (\<lambda>silver. return_st (result (Some c) silver None)) l)"

definition ingest ::
  "(string \<Rightarrow> datetime result) \<Rightarrow> market \<Rightarrow> provider \<Rightarrow> event_type \<Rightarrow> string \<Rightarrow> json \<Rightarrow> datetime
     \<Rightarrow> (lake, ingestion_result) st" where
  "ingest parse_iso m p e psym payload received =
     bind_st (lift_st (raw_record_create m p e psym received payload)) (\<lambda>raw.
     bind_st (lake_write m ''bronze'' (rr_received_at raw) (rr_record_id raw) (raw_record_dict raw)) (\<lambda>bronze.
       if e \<noteq> CANDLE
       then return_st \<lparr>ig_raw = raw, ig_canonical = None, ig_bronze_created = bronze,
              ig_silver_created = False, ig_rejection_reason = None\<rparr>
       else ingest_candle parse_iso raw bronze))"

definition build_gold :: "canonical_candle list \<Rightarrow> (lake, feature_record list) st" where
  "build_gold candles =
     (let features = materialize_features candles in
      bind_st (for_st (\<lambda>f. lake_write (ft_market f) ''gold'' (ft_event_time f) (ft_record_id f)
                  (feature_record_dict f)) features) (\<lambda>_. return_st features))"

section \<open>The lake as a store of immutable files\<close>

lemma lake_write_layers:
  assumes "layer \<in> {''bronze'', ''silver'', ''gold''}"
  shows "lake_write m layer t rid r l =
     (let target = lake_path_of m layer t rid in
      case map_of l target of
        Some _ \<Rightarrow> (Inr False, l)
      | None \<Rightarrow> (Inr True, l @ [(target, json_dumps r @ [char_of (10 :: nat)])]))"
  using assms by (auto simp: lake_write_def Let_def update_fresh split: option.splits)

lemma lake_write_total:
  "layer \<in> {''bronze'', ''silver'', ''gold''} \<Longrightarrow> \<exists>b l'. lake_write m layer t rid r l = (Inr b, l')"
  by (auto simp: lake_write_layers Let_def split: option.split)

lemma lake_write_keeps: "keeps (\<lambda>l. map_of l k = Some v) (lake_write m layer t rid r)"
  by (auto simp: keeps_def lake_write_def Let_def split: option.splits)

lemma lake_write_again:
  assumes "lake_write m layer t rid r l = (Inr b, l')"
  shows "lake_write m layer t' rid r' l' = (if date_of t' = date_of t then (Inr False, l') else lake_write m layer t' rid r' l')"
  using assms by (auto simp: lake_write_def lake_path_of_def Let_def split: if_splits option.splits)

lemma lake_write_file:
  assumes "lake_write m layer t rid r l = (Inr b, l')"
  shows "map_of l' (lake_path_of m layer t rid) \<noteq> None"
    and "map_of l' k = Some v \<Longrightarrow> map_of l k = Some v \<or>
      (k = lake_path_of m layer t rid \<and> v = json_dumps r @ [char_of (10 :: nat)])"
  using assms by (auto simp: lake_write_def Let_def split: if_splits option.splits)

text \<open>What a call of \<open>ingest\<close> leaves behind.\<close>

lemma adapters_ignore_receipt:
  "snd (adapters p) parse_iso (raw\<lparr>rr_received_at := t\<rparr>) = snd (adapters p) parse_iso raw"
  by (cases p) (simp_all add: adapt_dhan_def adapt_truedata_def adapt_oanda_def adapt_okx_def
      adapt_poloniex_def adapt_def candle_of_def pair_symbol_def cong: option.case_cong json.case_cong)

lemma canonicalize_ignores_receipt:
  "canonicalize parse_iso (raw\<lparr>rr_received_at := t\<rparr>) = canonicalize parse_iso raw"
  by (simp add: canonicalize_def adapter_for_def adapters_ignore_receipt)

lemma raw_record_create_Inr:
  assumes "raw_record_create m p e psym received payload = Inr raw"
  shows "received = Aware (rr_received_at raw)" and "rr_market raw = m" and "rr_provider raw = p"
    and "rr_record_id raw = raw_record_id m p e psym payload"
    and "raw_record_create m p e psym (Aware t) payload = Inr (raw\<lparr>rr_received_at := t\<rparr>)"
  using assms by (auto simp: raw_record_create_def)

definition candle_valid :: "canonical_candle \<Rightarrow> bool" where
  "candle_valid c \<longleftrightarrow> list_all isfinite [cc_open c, cc_high c, cc_low c, cc_close c, cc_volume c]
     \<and> 0 \<le> cc_volume c \<and> cc_low c \<le> cc_open c \<and> cc_low c \<le> cc_close c
     \<and> cc_open c \<le> cc_high c \<and> cc_close c \<le> cc_high c"

lemma canonical_candle_valid:
  assumes "canonical_candle_post_init c = Inr d"
  shows "d = c \<and> candle_valid c"
  using assms
  by (auto simp: canonical_candle_post_init_def candle_valid_def py_min_def py_max_def isfinite_iff zero_pyfloat_def
      split: if_splits)

lemma adapt_Inr:
  assumes "adapt parse_iso raw s tf k ps ks v b = Inr c"
  shows "candle_valid c \<and> cc_raw_record_id c = rr_record_id raw \<and> cc_market c = rr_market raw
    \<and> cc_provider c = rr_provider raw
    \<and> cc_record_id c = stable_id [market_value (cc_market c), cc_symbol c, cc_timeframe c, isoformat (cc_open_time c)]"
  using assms unfolding adapt_def candle_of_def by (auto dest!: canonical_candle_valid)

lemma canonicalize_Inr:
  assumes "canonicalize parse_iso raw = Inr c"
  shows "candle_valid c \<and> cc_raw_record_id c = rr_record_id raw \<and> cc_market c = rr_market raw
    \<and> cc_provider c = rr_provider raw
    \<and> cc_record_id c = stable_id [market_value (cc_market c), cc_symbol c, cc_timeframe c, isoformat (cc_open_time c)]"
    and "rr_market raw = fst (adapters (rr_provider raw))"
proof -
  have a: "snd (adapters (rr_provider raw)) parse_iso raw = Inr c"
    and "rr_market raw = fst (adapters (rr_provider raw))"
    using assms by (auto simp: canonicalize_def adapter_for_def split: if_splits)
  then show "rr_market raw = fst (adapters (rr_provider raw))" by simp
  show "candle_valid c \<and> cc_raw_record_id c = rr_record_id raw \<and> cc_market c = rr_market raw
    \<and> cc_provider c = rr_provider raw
    \<and> cc_record_id c = stable_id [market_value (cc_market c), cc_symbol c, cc_timeframe c, isoformat (cc_open_time c)]"
    using a
    by (cases "rr_provider raw")
      (auto simp: adapt_dhan_def adapt_truedata_def adapt_oanda_def adapt_okx_def adapt_poloniex_def Let_def
        split: option.splits json.splits dest: adapt_Inr)
qed

section \<open>The silver layer\<close>

type_synonym ingest_call = "market \<times> provider \<times> event_type \<times> string \<times> json \<times> datetime"

fun ingest_all :: "(string \<Rightarrow> datetime result) \<Rightarrow> ingest_call list \<Rightarrow> lake \<Rightarrow> lake" where
  "ingest_all parse_iso [] l = l"
| "ingest_all parse_iso ((m, p, e, s, payload, t) # calls) l =
     ingest_all parse_iso calls (snd (ingest parse_iso m p e s payload t l))"

text \<open>
  \<open>delivers call raw\<close>: the raw record is what the call delivered, its payload with sorted keys,
  and its identifier is the SHA-256 digest of market, provider, event type, symbol and payload.
\<close>

fun delivers :: "ingest_call \<Rightarrow> raw_record \<Rightarrow> bool" where
  "delivers (m, p, e, s, payload, t) raw \<longleftrightarrow>
     rr_market raw = m \<and> rr_provider raw = p \<and> rr_event_type raw = e \<and> rr_provider_symbol raw = s
   \<and> rr_payload raw = json_sort payload \<and> t = Aware (rr_received_at raw) \<and> rr_schema_version raw = 1
   \<and> rr_record_id raw = sha256_hex (market_value m @ ''|'' @ provider_value p @ ''|'' @ event_type_value e
        @ ''|'' @ s @ ''|'' @ json_dumps payload)"

declare delivers.simps [simp del]

text \<open>The content of a lake file that holds a JSON record: one line.\<close>

definition json_line :: "json \<Rightarrow> string" where
  "json_line j = json_dumps j @ [char_of (10 :: nat)]"

text \<open>
  A bronze file holds a raw record that was received.  A silver file holds a candle the
  adapter made from a raw candle record that was received, and the bronze file of that
  record's identifier and day holds a received raw record of the same identifier: the first
  one, since a repeated delivery leaves the file alone.
\<close>

definition bronze_backed :: "ingest_call set \<Rightarrow> lake_path \<Rightarrow> string \<Rightarrow> bool" where
  "bronze_backed calls k v \<longleftrightarrow>
     (\<exists>call \<in> calls. \<exists>raw. delivers call raw
        \<and> k = lake_path_of (rr_market raw) ''bronze'' (rr_received_at raw) (rr_record_id raw)
        \<and> v = json_line (raw_record_dict raw))"

definition silver_backed ::
  "(string \<Rightarrow> datetime result) \<Rightarrow> ingest_call set \<Rightarrow> lake \<Rightarrow> lake_path \<Rightarrow> string \<Rightarrow> bool" where
  "silver_backed parse_iso calls l k v \<longleftrightarrow>
     (\<exists>call \<in> calls. \<exists>raw c. delivers call raw \<and> rr_event_type raw = CANDLE
        \<and> canonicalize parse_iso raw = Inr c \<and> candle_valid c \<and> cc_is_settled c
        \<and> cc_raw_record_id c = rr_record_id raw \<and> cc_market c = rr_market raw \<and> cc_provider c = rr_provider raw
        \<and> rr_market raw = fst (adapters (rr_provider raw))
        \<and> k = lake_path_of (rr_market raw) ''silver'' (cc_open_time c) (cc_record_id c)
        \<and> v = json_line (canonical_candle_dict c)
        \<and> (\<exists>call0 \<in> calls. \<exists>raw0. delivers call0 raw0 \<and> rr_record_id raw0 = rr_record_id raw
             \<and> map_of l (lake_path_of (rr_market raw) ''bronze'' (rr_received_at raw) (rr_record_id raw))
                 = Some (json_line (raw_record_dict raw0))))"

definition layers_ok :: "(string \<Rightarrow> datetime result) \<Rightarrow> ingest_call set \<Rightarrow> lake \<Rightarrow> bool" where
  "layers_ok parse_iso calls l \<longleftrightarrow>
     (\<forall>m layer d f v. map_of l (m, layer, d, f) = Some v \<longrightarrow>
        (layer = ''bronze'' \<longrightarrow> bronze_backed calls (m, layer, d, f) v)
      \<and> (layer = ''silver'' \<longrightarrow> silver_backed parse_iso calls l (m, layer, d, f) v))"

lemma layers_okD:
  assumes "layers_ok parse_iso calls l" and "map_of l k = Some v"
  shows "fst (snd k) = ''bronze'' \<Longrightarrow> bronze_backed calls k v"
    and "fst (snd k) = ''silver'' \<Longrightarrow> silver_backed parse_iso calls l k v"
  using assms unfolding layers_ok_def by (cases k; simp)+

lemma silver_backed_mono:
  assumes "silver_backed parse_iso calls l k v" and "\<And>k v. map_of l k = Some v \<Longrightarrow> map_of l' k = Some v"
  shows "silver_backed parse_iso calls l' k v"
  using assms unfolding silver_backed_def by meson

text \<open>One write into a layer: what holds of the new file and was true of the old ones.\<close>

lemma lake_write_layers_ok:
  assumes "lake_write m layer t rid r l = (Inr b, l')" and "layers_ok parse_iso calls l"
    and "layer = ''bronze'' \<Longrightarrow> bronze_backed calls (lake_path_of m layer t rid) (json_line r)"
    and "layer = ''silver'' \<Longrightarrow> silver_backed parse_iso calls l (lake_path_of m layer t rid) (json_line r)"
  shows "layers_ok parse_iso calls l'"
proof -
  have kept: "map_of l k = Some v \<Longrightarrow> map_of l' k = Some v" for k v
    using lake_write_keeps [of k v] assms(1) unfolding keeps_def by (metis snd_conv)
  have "(fst (snd k) = ''bronze'' \<longrightarrow> bronze_backed calls k v)
      \<and> (fst (snd k) = ''silver'' \<longrightarrow> silver_backed parse_iso calls l' k v)"
    if k: "map_of l' k = Some v" for k v
    using lake_write_file(2) [OF assms(1) k]
  proof
    assume "map_of l k = Some v"
    then show ?thesis using layers_okD [OF assms(2)] silver_backed_mono kept by blast
  next
    assume "k = lake_path_of m layer t rid \<and> v = json_dumps r @ [char_of (10 :: nat)]"
    then have k: "k = lake_path_of m layer t rid" "v = json_line r" by (simp_all add: json_line_def)
    then have layer: "fst (snd k) = layer" by (simp add: lake_path_of_def)
    show ?thesis
    proof (intro conjI impI)
      show "bronze_backed calls k v" if "fst (snd k) = ''bronze''" using that assms(3) layer k by simp
      show "silver_backed parse_iso calls l' k v" if "fst (snd k) = ''silver''"
        using silver_backed_mono [OF assms(4) kept] that layer k by simp
    qed
  qed
  then show ?thesis unfolding layers_ok_def by fastforce
qed

lemma delivers_create:
  assumes "raw_record_create m p e s t payload = Inr raw"
  shows "delivers (m, p, e, s, payload, t) raw"
  using assms by (auto simp: delivers.simps raw_record_create_def raw_record_id_def stable_id_def)

lemma ingest_layers_ok:
  assumes "layers_ok parse_iso calls l" and "(m, p, e, s, payload, t) \<in> calls"
  shows "layers_ok parse_iso calls (snd (ingest parse_iso m p e s payload t l))"
proof (cases "raw_record_create m p e s t payload")
  case (Inl err)
  then show ?thesis using assms by (simp add: ingest_def bind_st_def lift_st_def)
next
  case (Inr raw)
  note raw = raw_record_create_Inr [OF Inr] and rec = delivers_create [OF Inr]
  have ev: "rr_event_type raw = e" using rec by (simp add: delivers.simps)
  let ?bronze = "lake_path_of m ''bronze'' (rr_received_at raw) (rr_record_id raw)"
  obtain b l1 where w: "lake_write m ''bronze'' (rr_received_at raw) (rr_record_id raw) (raw_record_dict raw) l = (Inr b, l1)"
    using lake_write_total [of "''bronze''"] by blast
  have l1: "layers_ok parse_iso calls l1"
    by (rule lake_write_layers_ok [OF w assms(1)]) (use rec assms(2) raw(2) in \<open>auto simp: bronze_backed_def\<close>)
  obtain v where v: "map_of l1 ?bronze = Some v" using lake_write_file(1) [OF w] by blast
  have "bronze_backed calls ?bronze v"
    by (rule layers_okD(1) [OF l1 v]) (simp add: lake_path_of_def)
  then obtain call0 raw0 where raw0: "call0 \<in> calls" "delivers call0 raw0" "rr_record_id raw0 = rr_record_id raw"
    "map_of l1 ?bronze = Some (json_line (raw_record_dict raw0))"
    using v by (auto simp: bronze_backed_def lake_path_of_def)
  show ?thesis
  proof (cases "e = CANDLE \<and> (\<exists>c. canonicalize parse_iso raw = Inr c \<and> cc_is_settled c)")
    case False
    then have "snd (ingest parse_iso m p e s payload t l) = l1"
      using Inr w by (auto simp: ingest_def bind_st_def lift_st_def return_st_def ingest_candle_def Let_def
          split: sum.splits option.splits)
    then show ?thesis using l1 by simp
  next
    case True
    then obtain c where e: "e = CANDLE" and c: "canonicalize parse_iso raw = Inr c" "cc_is_settled c" by blast
    obtain b' l2 where w2: "lake_write (rr_market raw) ''silver'' (cc_open_time c) (cc_record_id c)
        (canonical_candle_dict c) l1 = (Inr b', l2)"
      using lake_write_total [of "''silver''"] by blast
    then have "snd (ingest parse_iso m p e s payload t l) = l2"
      using Inr w e c by (simp add: ingest_def bind_st_def lift_st_def return_st_def ingest_candle_def Let_def)
    moreover have "silver_backed parse_iso calls l1
        (lake_path_of (rr_market raw) ''silver'' (cc_open_time c) (cc_record_id c)) (json_line (canonical_candle_dict c))"
      unfolding silver_backed_def
      by (rule bexI [OF _ assms(2)], rule exI [of _ raw], rule exI [of _ c])
        (use rec c canonicalize_Inr [OF c(1)] raw0 raw(2) e ev in auto)
    then have "layers_ok parse_iso calls l2" by (intro lake_write_layers_ok [OF w2 l1]) simp_all
    ultimately show ?thesis by simp
  qed
qed

lemma ingest_all_layers_ok:
  "layers_ok parse_iso C l \<Longrightarrow> set calls \<subseteq> C \<Longrightarrow> layers_ok parse_iso C (ingest_all parse_iso calls l)"
proof (induction calls arbitrary: l)
  case (Cons call calls)
  obtain m p e s payload t where call: "call = (m, p, e, s, payload, t)" by (cases call) auto
  have "layers_ok parse_iso C (snd (ingest parse_iso m p e s payload t l))"
    by (rule ingest_layers_ok) (use Cons.prems call in auto)
  then show ?case using Cons by (simp add: call)
qed simp

text \<open>
  C21: The silver layer is clean and traceable.  After any sequence of ingestions, of any
  payloads from any provider for any market, every file of the silver layer holds one
  settled candle with finite, consistent prices and non-negative volume, filed under its
  own market, date and identifier, that its provider's adapter produced from a raw candle
  record that was delivered, of the market that provider serves; the candle names the raw
  record's identifier, which is the digest of what was delivered; and the bronze file of
  that identifier and day holds a delivered raw record of the same identifier, payload
  included.
\<close>

theorem silver_clean_and_traceable:
  assumes "map_of (ingest_all parse_iso calls []) k = Some v" and "fst (snd k) = ''silver''"
  shows "silver_backed parse_iso (set calls) (ingest_all parse_iso calls []) k v"
proof -
  have "layers_ok parse_iso (set calls) []" by (simp add: layers_ok_def)
  then have "layers_ok parse_iso (set calls) (ingest_all parse_iso calls [])"
    by (rule ingest_all_layers_ok) simp
  then show ?thesis using assms by (intro layers_okD(2))
qed

definition ex_payload :: json where
  "ex_payload = JObj [(''ts'', JInt 0), (''o'', JInt 1), (''h'', JInt 3), (''l'', JInt 1), (''c'', JInt 2),
     (''vol'', JInt 5), (''bar'', JStr ''1m''), (''confirm'', JStr ''1'')]"

lemma ex_payload_sorted: "json_sort ex_payload = JObj [(''bar'', JStr ''1m''), (''c'', JInt 2),
  (''confirm'', JStr ''1''), (''h'', JInt 3), (''l'', JInt 1), (''o'', JInt 1), (''ts'', JInt 0), (''vol'', JInt 5)]"
  by (simp add: ex_payload_def key_lt_def less_list_code)

definition ex_raw :: raw_record where
  "ex_raw = \<lparr>rr_record_id = raw_record_id CRYPTO OKX CANDLE ''btc-usdt'' ex_payload, rr_market = CRYPTO,
     rr_provider = OKX, rr_event_type = CANDLE, rr_provider_symbol = ''btc-usdt'', rr_received_at = 60000000,
     rr_payload = json_sort ex_payload, rr_schema_version = 1\<rparr>"

lemma fromtimestamp_0: "fromtimestamp (Fin 0) = Inr 0"
  by code_simp

lemma timestamp_0: "timestamp_of parse_iso (JInt 0) = Inr 0"
  by (simp add: timestamp_of_def json_float_def int_float_def float_of_int_def zero_pyfloat_def fromtimestamp_0)

lemma ex_canonicalize:
  "\<exists>c. canonicalize parse_iso ex_raw = Inr c \<and> cc_is_settled c \<and> cc_symbol c = ''BTC_USDT''
    \<and> cc_timeframe c = ''1m'' \<and> cc_open_time c = 0"
proof -
  have "str_replace CHR ''-'' ''_'' (str_upper ''btc-usdt'') = ''BTC_USDT''" by code_simp
  then have "pair_symbol ex_raw = ''BTC_USDT''" by (simp add: pair_symbol_def ex_raw_def)
  moreover have "rr_payload ex_raw = json_sort ex_payload" "rr_market ex_raw = CRYPTO" "rr_provider ex_raw = OKX"
    by (simp_all add: ex_raw_def)
  ultimately show ?thesis
    by (simp add: canonicalize_def adapter_for_def adapt_okx_def adapt_def ex_payload_sorted obj_item_def
        obj_get_def obj_get_or_def float_field_def timestamp_0 json_float_numeral json_float_one candle_of_def
        canonical_candle_post_init_def py_min_def py_max_def json_str_def zero_pyfloat_def)
qed

text \<open>A parser for the examples: their timestamps are numbers, so it is never asked.\<close>

definition ex_parse_iso :: "string \<Rightarrow> datetime result" where
  "ex_parse_iso s = Inl (ValueError (''Invalid isoformat string: '' @ repr_str s))"

text \<open>
  One OKX candle: its silver file exists, and the bronze file of its record holds the raw
  record with the payload that was delivered.
\<close>

theorem silver_clean_and_traceable_witness:
  "\<exists>k v. map_of (ingest_all ex_parse_iso [(CRYPTO, OKX, CANDLE, ''btc-usdt'', ex_payload, Aware 60000000)] []) k = Some v
     \<and> fst (snd k) = ''silver''
     \<and> map_of (ingest_all ex_parse_iso [(CRYPTO, OKX, CANDLE, ''btc-usdt'', ex_payload, Aware 60000000)] [])
         (lake_path_of CRYPTO ''bronze'' 60000000 (rr_record_id ex_raw)) = Some (json_line (raw_record_dict ex_raw))"
proof -
  let ?calls = "[(CRYPTO, OKX, CANDLE, ''btc-usdt'', ex_payload, Aware 60000000)]"
  let ?l = "ingest_all ex_parse_iso ?calls []"
  obtain c where c: "canonicalize ex_parse_iso ex_raw = Inr c" "cc_is_settled c" using ex_canonicalize by blast
  have raw: "raw_record_create CRYPTO OKX CANDLE ''btc-usdt'' (Aware 60000000) ex_payload = Inr ex_raw"
    by (simp add: raw_record_create_def ex_raw_def)
  define k where "k = lake_path_of CRYPTO ''silver'' (cc_open_time c) (cc_record_id c)"
  have k: "map_of ?l k = Some (json_dumps (canonical_candle_dict c) @ [char_of (10 :: nat)])"
    using c raw by (simp add: ingest_def bind_st_def lift_st_def return_st_def ingest_candle_def lake_write_def
        ex_raw_def [THEN arg_cong, of rr_market] lake_path_of_def k_def)
  have silver: "fst (snd k) = ''silver''" by (simp add: k_def lake_path_of_def)
  have only: "r = ex_raw" if "delivers (CRYPTO, OKX, CANDLE, ''btc-usdt'', ex_payload, Aware 60000000) r" for r
    using that delivers_create [OF raw] by (cases r) (simp add: delivers.simps ex_raw_def)
  have "\<exists>raw raw0. delivers (CRYPTO, OKX, CANDLE, ''btc-usdt'', ex_payload, Aware 60000000) raw
      \<and> delivers (CRYPTO, OKX, CANDLE, ''btc-usdt'', ex_payload, Aware 60000000) raw0
      \<and> map_of ?l (lake_path_of (rr_market raw) ''bronze'' (rr_received_at raw) (rr_record_id raw))
          = Some (json_line (raw_record_dict raw0))"
    using silver_clean_and_traceable [OF k silver] unfolding silver_backed_def by auto
  then have "map_of ?l (lake_path_of (rr_market ex_raw) ''bronze'' (rr_received_at ex_raw) (rr_record_id ex_raw))
      = Some (json_line (raw_record_dict ex_raw))"
    using only by auto
  moreover have "rr_market ex_raw = CRYPTO" "rr_received_at ex_raw = 60000000" by (simp_all add: ex_raw_def)
  ultimately show ?thesis using k silver by metis
qed

section \<open>Repeated ingestion\<close>

lemma ingest_Inr:
  assumes "ingest parse_iso m p e s payload t l = (Inr r, l')"
  obtains raw b l1 where "raw_record_create m p e s t payload = Inr raw"
    and "lake_write m ''bronze'' (rr_received_at raw) (rr_record_id raw) (raw_record_dict raw) l = (Inr b, l1)"
    and "e \<noteq> CANDLE \<longrightarrow> l' = l1 \<and> r = \<lparr>ig_raw = raw, ig_canonical = None, ig_bronze_created = b,
              ig_silver_created = False, ig_rejection_reason = None\<rparr>"
    and "e = CANDLE \<longrightarrow> ingest_candle parse_iso raw b l1 = (Inr r, l')"
  using assms unfolding ingest_def by (auto split: if_splits)

text \<open>A repeated candle finds its file, whatever the other raw record says of its receipt.\<close>

lemma ingest_candle_again:
  assumes "ingest_candle parse_iso raw b l = (Inr r, l')"
  shows "ingest_candle parse_iso (raw\<lparr>rr_received_at := t\<rparr>) b' l' =
    (Inr \<lparr>ig_raw = raw\<lparr>rr_received_at := t\<rparr>, ig_canonical = ig_canonical r, ig_bronze_created = b',
      ig_silver_created = False, ig_rejection_reason = ig_rejection_reason r\<rparr>, l')"
proof (cases "canonicalize parse_iso raw")
  case (Inl e)
  then show ?thesis using assms
    by (auto simp: ingest_candle_def canonicalize_ignores_receipt Let_def split: option.splits)
next
  case (Inr c)
  show ?thesis
  proof (cases "cc_is_settled c")
    case False
    then show ?thesis using assms Inr by (auto simp: ingest_candle_def canonicalize_ignores_receipt Let_def)
  next
    case True
    then obtain silver where w: "lake_write (rr_market raw) ''silver'' (cc_open_time c) (cc_record_id c)
        (canonical_candle_dict c) l = (Inr silver, l')"
      and r: "r = \<lparr>ig_raw = raw, ig_canonical = Some c, ig_bronze_created = b, ig_silver_created = silver,
         ig_rejection_reason = None\<rparr>"
      using assms Inr by (auto simp: ingest_candle_def Let_def)
    have "lake_write (rr_market raw) ''silver'' (cc_open_time c) (cc_record_id c) (canonical_candle_dict c) l' = (Inr False, l')"
      using lake_write_again [OF w, of "cc_open_time c" "canonical_candle_dict c"] by simp
    then show ?thesis using True Inr r
      by (simp add: ingest_candle_def canonicalize_ignores_receipt Let_def bind_st_def return_st_def)
  qed
qed

lemma ingest_candle_keeps: "keeps (\<lambda>l. map_of l k = Some v) (ingest_candle parse_iso raw b)"
proof -
  have "map_of (snd (lake_write m layer t rid r l)) k = Some v" if "map_of l k = Some v" for m layer t rid r l
    using lake_write_keeps [of k v m layer t rid r] that by (simp add: keeps_def)
  then show ?thesis
    by (auto simp: keeps_def ingest_candle_def Let_def bind_st_def return_st_def
        split: sum.splits option.splits prod.splits) (metis snd_conv)+
qed

text \<open>
  Ingestion is idempotent within a day.  When a payload that was ingested is received
  again on the same UTC date, at whatever time, nothing is written in any layer, no
  creation is reported, and the candle or rejection reported is the same.
\<close>

theorem ingest_idempotent:
  assumes "ingest parse_iso m p e s payload (Aware t) l = (Inr r, l1)" and "date_of t' = date_of t"
  shows "\<exists>r'. ingest parse_iso m p e s payload (Aware t') l1 = (Inr r', l1)
    \<and> \<not> ig_bronze_created r' \<and> \<not> ig_silver_created r'
    \<and> ig_canonical r' = ig_canonical r \<and> ig_rejection_reason r' = ig_rejection_reason r"
proof -
  obtain raw b l0 where raw: "raw_record_create m p e s (Aware t) payload = Inr raw"
    and w: "lake_write m ''bronze'' (rr_received_at raw) (rr_record_id raw) (raw_record_dict raw) l = (Inr b, l0)"
    and other: "e \<noteq> CANDLE \<longrightarrow> l1 = l0 \<and> r = \<lparr>ig_raw = raw, ig_canonical = None, ig_bronze_created = b,
              ig_silver_created = False, ig_rejection_reason = None\<rparr>"
    and candle: "e = CANDLE \<longrightarrow> ingest_candle parse_iso raw b l0 = (Inr r, l1)"
    using assms(1) by (rule ingest_Inr)
  note rc = raw_record_create_Inr [OF raw]
  define path where "path = lake_path_of m ''bronze'' t' (rr_record_id raw)"
  have "path = lake_path_of m ''bronze'' (rr_received_at raw) (rr_record_id raw)"
    using rc(1) assms(2) by (simp add: path_def lake_path_of_def)
  then obtain v where "map_of l0 path = Some v" using lake_write_file(1) [OF w] by auto
  then have "map_of l1 path = Some v"
    using other candle ingest_candle_keeps [of path v parse_iso raw b] unfolding keeps_def by (metis snd_conv)
  then have w': "lake_write m ''bronze'' t' (rr_record_id raw) d l1 = (Inr False, l1)" for d
    by (simp add: lake_write_def path_def)
  show ?thesis
  proof (cases "e = CANDLE")
    case True
    then show ?thesis using rc(5) [of t'] w' ingest_candle_again [OF candle [rule_format, OF True], of t' False]
      by (simp add: ingest_def bind_st_def lift_st_def)
  next
    case False
    then show ?thesis using rc(5) [of t'] w' other by (simp add: ingest_def bind_st_def lift_st_def return_st_def)
  qed
qed

theorem ingest_idempotent_witness:
  "\<exists>r l1 r'. ingest ex_parse_iso CRYPTO OKX CANDLE ''btc-usdt'' ex_payload (Aware 60000000) [] = (Inr r, l1)
     \<and> ingest ex_parse_iso CRYPTO OKX CANDLE ''btc-usdt'' ex_payload (Aware 90000000) l1 = (Inr r', l1)
     \<and> \<not> ig_bronze_created r' \<and> \<not> ig_silver_created r'"
proof -
  obtain c where c: "canonicalize ex_parse_iso ex_raw = Inr c" "cc_is_settled c" using ex_canonicalize by blast
  have raw: "raw_record_create CRYPTO OKX CANDLE ''btc-usdt'' (Aware 60000000) ex_payload = Inr ex_raw"
    by (simp add: raw_record_create_def ex_raw_def)
  obtain r l1 where a: "ingest ex_parse_iso CRYPTO OKX CANDLE ''btc-usdt'' ex_payload (Aware 60000000) [] = (Inr r, l1)"
    using c raw by (simp add: ingest_def bind_st_def lift_st_def return_st_def ingest_candle_def lake_write_def
        lake_path_of_def)
  show ?thesis using ingest_idempotent [OF a, of 90000000] a by (auto simp: date_of_def us_per_day_def)
qed

section \<open>Features look back only\<close>

definition in_group :: "string \<times> string \<times> string \<Rightarrow> canonical_candle \<Rightarrow> bool" where
  "in_group k c \<longleftrightarrow> cc_is_settled c \<and> (market_value (cc_market c), cc_symbol c, cc_timeframe c) = k"

lemma candle_groups_snoc:
  "candle_groups (cs @ [c]) = (if cc_is_settled c
     then group_append (candle_groups cs) (market_value (cc_market c), cc_symbol c, cc_timeframe c) c
     else candle_groups cs)"
  by (simp add: candle_groups_def)

lemma candle_groups_lookup:
  "map_of (candle_groups cs) k = (if filter (in_group k) cs = [] then None else Some (filter (in_group k) cs))"
proof (induction cs rule: rev_induct)
  case Nil
  show ?case by (simp add: candle_groups_def)
next
  case (snoc c cs)
  have "in_group k c \<longleftrightarrow> cc_is_settled c \<and> k = (market_value (cc_market c), cc_symbol c, cc_timeframe c)"
    by (auto simp: in_group_def)
  then show ?case using snoc by (auto simp: candle_groups_snoc group_append_def simp del: filter_False)
qed

lemma candle_groups_ok: "dict_ok (candle_groups cs)"
  by (induction cs rule: rev_induct) (simp_all add: candle_groups_snoc group_append_def, simp add: candle_groups_def)

lemma set_materialize:
  "set (materialize_features cs) = (\<Union>k. set (group_features (filter (in_group k) cs)))"
proof -
  have e: "group_features [] = []" by (simp add: group_features_def map_filter_def)
  have "set (concat (map group_features (map snd (candle_groups cs))))
      = (\<Union>(k, g) \<in> set (candle_groups cs). set (group_features g))" by auto
  also have "\<dots> = (\<Union>k. set (group_features (filter (in_group k) cs)))"
  proof (intro equalityI subsetI)
    fix f assume "f \<in> (\<Union>(k, g) \<in> set (candle_groups cs). set (group_features g))"
    then obtain k g where "(k, g) \<in> set (candle_groups cs)" "f \<in> set (group_features g)" by auto
    moreover from this(1) have "g = filter (in_group k) cs"
      using dict_ok_map_of [OF candle_groups_ok, of cs k g] by (simp add: candle_groups_lookup split: if_splits)
    ultimately show "f \<in> (\<Union>k. set (group_features (filter (in_group k) cs)))" by blast
  next
    fix f assume "f \<in> (\<Union>k. set (group_features (filter (in_group k) cs)))"
    then obtain k where f: "f \<in> set (group_features (filter (in_group k) cs))" by auto
    then have "filter (in_group k) cs \<noteq> []" using e by (metis empty_iff empty_set)
    then have "(k, filter (in_group k) cs) \<in> set (candle_groups cs)"
      using dict_ok_map_of [OF candle_groups_ok, of cs k] by (auto simp: candle_groups_lookup)
    then show "f \<in> (\<Union>(k, g) \<in> set (candle_groups cs). set (group_features g))" using f by blast
  qed
  finally show ?thesis by (simp add: materialize_features_def)
qed

lemma adjacent_filter:
  assumes "sorted_wrt (\<lambda>a b. P b \<longrightarrow> P a) xs"
  shows "zip (filter P xs) (drop 1 (filter P xs)) = filter (\<lambda>(a, b). P b) (zip xs (drop 1 xs))"
  using assms
proof (induction xs)
  case (Cons x xs)
  show ?case
  proof (cases xs)
    case (Cons y ys)
    have none: "filter P ys = []" if "\<not> P y" using that Cons.prems Cons by (auto simp: filter_empty_conv)
    have empty: "filter (\<lambda>(a, b). P b) (zip xs (drop 1 xs)) = []" if "\<not> P y"
      using Cons.IH Cons.prems Cons none [OF that] that by simp
    have "P y \<Longrightarrow> P x" using Cons.prems Cons by auto
    then show ?thesis using Cons.IH Cons.prems Cons none empty by (cases "P y") auto
  qed auto
qed simp

lemma group_features_prefix:
  "group_features (filter (\<lambda>c. cc_open_time c \<le> T) cs) = filter (\<lambda>f. ft_event_time f \<le> T) (group_features cs)"
proof -
  let ?lt = "\<lambda>a b. cc_open_time a < cc_open_time b" and ?P = "\<lambda>c. cc_open_time c \<le> T"
  have sw: "strict_weak (set cs) ?lt" by (auto simp: strict_weak_def)
  have s: "sorted_wrt (\<lambda>a b. ?P b \<longrightarrow> ?P a) (py_sorted ?lt cs)"
    by (rule sorted_wrt_mono_rel [OF _ sorted_py_sorted [OF sw]]) auto
  have "filter (\<lambda>f. ft_event_time f \<le> T) (List.map_filter (\<lambda>(p, c). feature_of p c) ps)
      = List.map_filter (\<lambda>(p, c). feature_of p c) (filter (\<lambda>(a, b). ?P b) ps)" for ps
    by (induction ps) (auto simp: map_filter_simps feature_of_def)
  then show ?thesis unfolding group_features_def Let_def filter_py_sorted [OF sw, symmetric] adjacent_filter [OF s]
    by simp
qed

text \<open>
  Features look back only.  The feature rows up to a time are those computed from the
  candles up to that time: no later candle changes, adds or removes an earlier row.
\<close>

theorem features_no_lookahead:
  "set (materialize_features (filter (\<lambda>c. cc_open_time c \<le> T) cs))
     = {f \<in> set (materialize_features cs). ft_event_time f \<le> T}"
proof -
  have "group_features (filter (in_group k) (filter (\<lambda>c. cc_open_time c \<le> T) cs))
      = filter (\<lambda>f. ft_event_time f \<le> T) (group_features (filter (in_group k) cs))" for k
    unfolding group_features_prefix [symmetric] by (simp add: conj_commute)
  then have "set (group_features (filter (in_group k) (filter (\<lambda>c. cc_open_time c \<le> T) cs)))
      = {f \<in> set (group_features (filter (in_group k) cs)). ft_event_time f \<le> T}" for k
    by (simp only: set_filter)
  then show ?thesis unfolding set_materialize by blast
qed

lemma ex_ingest:
  "\<exists>r l' c. ingest parse_iso CRYPTO OKX CANDLE ''btc-usdt'' ex_payload (Aware t) l = (Inr r, l')
     \<and> ig_canonical r = Some c \<and> cc_is_settled c \<and> cc_symbol c = ''BTC_USDT'' \<and> cc_timeframe c = ''1m''
     \<and> cc_open_time c = 0"
proof -
  obtain c where c: "canonicalize parse_iso (ex_raw\<lparr>rr_received_at := t\<rparr>) = Inr c" "cc_is_settled c"
    "cc_symbol c = ''BTC_USDT''" "cc_timeframe c = ''1m''" "cc_open_time c = 0"
    using ex_canonicalize [of parse_iso] unfolding canonicalize_ignores_receipt by blast
  have raw: "raw_record_create CRYPTO OKX CANDLE ''btc-usdt'' (Aware t) ex_payload = Inr (ex_raw\<lparr>rr_received_at := t\<rparr>)"
    by (simp add: raw_record_create_def ex_raw_def)
  show ?thesis using c raw
    by (auto simp: ingest_def bind_st_def lift_st_def return_st_def ingest_candle_def lake_write_layers Let_def
        split: option.split)
qed

end
