(* ===== verification/Providers.thy ===== *)
theory Providers
  imports Etl
begin

text \<open>
  Which provider serves what (src/src/nanodelta/providers/registry.py), the historical
  request every client receives (providers/base.py), and the one computation the Dhan
  client does on its own rows, the resampling of 15-minute pairs to 30 minutes
  (providers/dhan.py).  The HTTP side of the clients is not modelled: a client is a
  stateful call on a world of its own.
\<close>

section \<open>Routes\<close>

datatype provider_capability = HISTORICAL_CANDLES | REALTIME_QUOTES | REALTIME_CANDLES | ORDER_BOOK_DEPTH

fun capability_value :: "provider_capability \<Rightarrow> string" where
  "capability_value HISTORICAL_CANDLES = ''historical_candles''"
| "capability_value REALTIME_QUOTES = ''realtime_quotes''"
| "capability_value REALTIME_CANDLES = ''realtime_candles''"
| "capability_value ORDER_BOOK_DEPTH = ''order_book''"

type_synonym provider_registry = "(market \<times> provider_capability, provider list) dict"

definition register_route ::
  "market \<Rightarrow> provider_capability \<Rightarrow> provider list \<Rightarrow> (provider_registry, unit) st" where
  "register_route m c ps reg =
     (if ps = [] \<or> card (set ps) \<noteq> length ps
        then (Inl (ValueError ''provider route must be non-empty and contain no duplicates''), reg)
      else (Inr (), AList.update (m, c) ps reg))"

definition route :: "provider_registry \<Rightarrow> market \<Rightarrow> provider_capability \<Rightarrow> provider list result" where
  "route reg m c =
     (case map_of reg (m, c) of
        None \<Rightarrow> Inl (LookupError (''no provider route for '' @ market_value m @ ''/'' @ capability_value c))
      | Some ps \<Rightarrow> Inr ps)"

definition default_routes :: "(market \<times> provider_capability \<times> provider list) list" where
  "default_routes =
     [(NSE, HISTORICAL_CANDLES, [DHAN, TRUEDATA]), (NSE, REALTIME_QUOTES, [TRUEDATA, DHAN]),
      (FOREX, HISTORICAL_CANDLES, [OANDA]), (FOREX, REALTIME_QUOTES, [OANDA]),
      (CRYPTO, HISTORICAL_CANDLES, [OKX, POLONIEX]), (CRYPTO, REALTIME_QUOTES, [OKX, POLONIEX]),
      (CRYPTO, ORDER_BOOK_DEPTH, [OKX, POLONIEX])]"

definition default_provider_registry :: "provider_registry result" where
  "default_provider_registry =
     (case for_st (\<lambda>(m, c, ps). register_route m c ps) default_routes [] of
        (Inl e, _) \<Rightarrow> Inl e | (Inr _, reg) \<Rightarrow> Inr reg)"

text \<open>Every default route leads to providers of its own market.\<close>

lemma default_routes_own_market:
  "\<exists>reg. default_provider_registry = Inr reg
     \<and> (\<forall>m c ps. route reg m c = Inr ps \<longrightarrow> ps \<noteq> [] \<and> distinct ps \<and> (\<forall>p \<in> set ps. fst (adapters p) = m))"
  by (auto simp: default_provider_registry_def default_routes_def register_route_def route_def
      bind_st_def return_st_def split: if_splits)

section \<open>Requests\<close>

record historical_request =
  hr_symbol :: string
  hr_timeframe :: string
  hr_start :: instant
  hr_end :: instant
  hr_limit :: int

definition historical_request_post_init :: "historical_request \<Rightarrow> historical_request result" where
  "historical_request_post_init r =
     (if hr_end r \<le> hr_start r then Inl (ValueError ''historical start must be before end'')
      else if str_strip (hr_symbol r) = [] \<or> str_strip (hr_timeframe r) = []
        then Inl (ValueError ''symbol and timeframe are required'')
      else if \<not> (1 \<le> hr_limit r \<and> hr_limit r \<le> 5000)
        then Inl (ValueError ''limit must be between 1 and 5000'')
      else Inr r)"

record 'w historical_client =
  hc_market :: market
  hc_provider :: provider
  hc_fetch_candles :: "historical_request \<Rightarrow> ('w, json list) st"

section \<open>Resampling to 30 minutes\<close>

text \<open>\<open>int(x)\<close> of a float.\<close>

definition int_of_float :: "pyfloat \<Rightarrow> int result" where
  "int_of_float x =
     (case x of
        Fin q \<Rightarrow> Inr (truncate_rat q)
      | NaN \<Rightarrow> Inl (ValueError ''cannot convert float NaN to integer'')
      | _ \<Rightarrow> Inl (OverflowError ''cannot convert float infinity to integer''))"

definition row_seconds :: "(string \<Rightarrow> datetime result) \<Rightarrow> json \<Rightarrow> int result" where
  "row_seconds parse_iso row =
     bind_r (obj_item row ''timestamp'') (\<lambda>raw.
       if (case raw of JBool _ \<Rightarrow> True | JInt _ \<Rightarrow> True | JFloat _ \<Rightarrow> True
             | _ \<Rightarrow> json_str raw \<noteq> [] \<and> list_all is_digit (json_str raw))
       then bind_r (json_float raw) (\<lambda>x. bind_r (int_of_float x) (\<lambda>t.
              Inr (if 10000000000 < t then t div 1000 else t)))
       else bind_r (parse_iso (str_replace CHR ''Z'' ''+00:00'' (json_str raw))) (\<lambda>t.
              case t of
                Naive _ \<Rightarrow> Inl (OtherError ''ProviderClientError'' ''Dhan timestamp must include timezone'')
              | Aware i \<Rightarrow> Inr (timestamp_int i)))"

definition session_anchor :: int where
  "session_anchor = 3 * 3600 + 45 * 60"

definition bucket_of :: "int \<Rightarrow> int" where
  "bucket_of timestamp = session_anchor + (timestamp - session_anchor) div 1800 * 1800"

definition resample_buckets ::
  "(string \<Rightarrow> datetime result) \<Rightarrow> json list \<Rightarrow> (int, (int \<times> json) list) dict result" where
  "resample_buckets parse_iso rows =
     bind_r (map_r (\<lambda>row. bind_r (row_seconds parse_iso row) (\<lambda>t. Inr (t, row))) rows) (\<lambda>stamped.
       Inr (foldl (\<lambda>d (t, row). group_append d (bucket_of t) (t, row)) [] stamped))"

text \<open>\<open>max\<close> and \<open>min\<close> of a non-empty list of floats: the first extreme one.\<close>

definition floats_max :: "pyfloat list \<Rightarrow> pyfloat" where
  "floats_max xs = foldl (\<lambda>m x. if m < x then x else m) (hd xs) (tl xs)"

definition floats_min :: "pyfloat list \<Rightarrow> pyfloat" where
  "floats_min xs = foldl (\<lambda>m x. if x < m then x else m) (hd xs) (tl xs)"

definition resample_pair :: "int \<Rightarrow> json list \<Rightarrow> json result" where
  "resample_pair opened ordered =
     bind_r (obj_item (hd ordered) ''open'') (\<lambda>op.
     bind_r (map_r (\<lambda>r. bind_r (obj_item r ''high'') json_float) ordered) (\<lambda>highs.
     bind_r (map_r (\<lambda>r. bind_r (obj_item r ''low'') json_float) ordered) (\<lambda>lows.
     bind_r (obj_item (last ordered) ''close'') (\<lambda>cl.
     bind_r (map_r (\<lambda>r. bind_r (obj_item r ''volume'') json_float) ordered) (\<lambda>volumes.
       Inr (JObj [(''timestamp'', JInt opened), (''open'', op), (''high'', JFloat (floats_max highs)),
         (''low'', JFloat (floats_min lows)), (''close'', cl), (''volume'', JFloat (py_sum volumes)),
         (''timeframe'', JStr ''30m''), (''settled'', JBool True)]))))))"

fun resample_groups :: "(int \<times> (int \<times> json) list) list \<Rightarrow> json list result" where
  "resample_groups [] = Inr []"
| "resample_groups ((opened, items) # rest) =
     (let ordered = map snd (py_sorted (\<lambda>a b. fst a < fst b) items) in
      if length ordered \<noteq> 2 then resample_groups rest
      else bind_r (resample_pair opened ordered) (\<lambda>row.
             bind_r (resample_groups rest) (\<lambda>rows. Inr (row # rows))))"

definition resample_30m :: "(string \<Rightarrow> datetime result) \<Rightarrow> json list \<Rightarrow> json list result" where
  "resample_30m parse_iso rows =
     bind_r (resample_buckets parse_iso rows) (\<lambda>buckets.
       resample_groups (py_sorted (\<lambda>a b. fst a < fst b) buckets))"

lemma bucket_of_mod: "bucket_of t mod 1800 = 900"
  by (simp add: bucket_of_def session_anchor_def)

lemma group_append_keys: "map fst (group_append d k x) = (if k \<in> fst ` set d then map fst d else map fst d @ [k])"
  by (simp add: group_append_def AList.update_keys)

lemma resample_buckets_keys:
  assumes "resample_buckets parse_iso rows = Inr d" and "k \<in> fst ` set d"
  shows "k mod 1800 = 900"
proof -
  obtain stamped where d: "d = foldl (\<lambda>d (t, row). group_append d (bucket_of t) (t, row)) [] stamped"
    using assms(1) by (auto simp: resample_buckets_def)
  have "\<forall>k \<in> set (map fst (foldl (\<lambda>d (t, row). group_append d (bucket_of t) (t, row)) [] stamped)). k mod 1800 = 900"
    by (induction stamped rule: rev_induct) (auto simp: group_append_keys bucket_of_mod simp del: set_map split: if_splits)
  then show ?thesis using assms(2) d by auto
qed

lemma resample_groups_rows:
  "resample_groups ps = Inr rows \<Longrightarrow> row \<in> set rows \<Longrightarrow>
     \<exists>k \<in> fst ` set ps. obj_get row ''timestamp'' = Some (JInt k)"
proof (induction ps arbitrary: rows)
  case (Cons p ps)
  then show ?case
    by (cases p) (auto simp: Let_def resample_pair_def obj_get_def split: if_splits)
qed simp

text \<open>Every resampled row opens on the half-hour grid of the NSE session, 15 minutes off the clock's.\<close>

lemma resample_30m_rows:
  assumes "resample_30m parse_iso rows = Inr out" and "row \<in> set out"
  shows "\<exists>k. obj_get row ''timestamp'' = Some (JInt k) \<and> k mod 1800 = 900"
proof -
  obtain d where d: "resample_buckets parse_iso rows = Inr d"
    and g: "resample_groups (py_sorted (\<lambda>a b. fst a < fst b) d) = Inr out"
    using assms(1) by (auto simp: resample_30m_def)
  then show ?thesis using resample_groups_rows [OF g assms(2)] resample_buckets_keys [OF d] by auto
qed

end
