(* ===== verification/Timeframes.thy ===== *)
theory Timeframes
  imports Contracts Py_Parse
begin

text \<open>
  Candle boundaries and market calendars of src/src/nanodelta/history/timeframes.py.  A
  \<open>timedelta\<close> is its number of microseconds.
\<close>

section \<open>Timeframes\<close>

fun unit_seconds :: "string \<Rightarrow> int option" where
  "unit_seconds u =
     (if u = ''m'' then Some 60 else if u = ''h'' then Some 3600 else if u = ''d'' then Some 86400 else None)"

definition timeframe_delta :: "string \<Rightarrow> int result" where
  "timeframe_delta tf =
     (let unsupported = Inl (ValueError (''unsupported timeframe: '' @ tf)) in
      case py_int (butlast tf) of
        None \<Rightarrow> unsupported
      | Some v \<Rightarrow>
          (case unit_seconds (drop (length tf - 1) tf) of
             None \<Rightarrow> unsupported
           | Some m \<Rightarrow>
               if v < 1 then unsupported
               else if 999999999 * 86400 + 86399 < v * m then Inl (OverflowError ''Python int too large to convert to C int'')
               else Inr (v * m * us_per_second)))"

definition last_settled_open :: "datetime \<Rightarrow> string \<Rightarrow> instant result" where
  "last_settled_open now_t tf =
     bind_r (utc now_t ''now'') (\<lambda>now.
     bind_r (timeframe_delta tf) (\<lambda>step.
       let epoch_seconds = timestamp_int now;
           boundary = epoch_seconds - epoch_seconds mod (step div us_per_second)
       in dt_add (boundary * us_per_second) (- step)))"

section \<open>Calendars\<close>

record market_calendar =
  mc_market :: market
  mc_holidays :: "string set"

definition weekday :: "instant \<Rightarrow> int" where
  "weekday t = (date_of t + 3) mod 7"

definition time_of_day :: "instant \<Rightarrow> int" where
  "time_of_day t = t mod us_per_day"

definition is_expected :: "market_calendar \<Rightarrow> instant \<Rightarrow> string \<Rightarrow> bool" where
  "is_expected c t tf =
     (if mc_market c = CRYPTO then True
      else if 5 \<le> weekday t then False
      else if date_isoformat (date_of t) \<in> mc_holidays c then False
      else if mc_market c = FOREX then True
      else if tf = ''1d'' then True
      else (3 * 3600 + 45 * 60) * us_per_second \<le> time_of_day t \<and> time_of_day t < 10 * 3600 * us_per_second)"

text \<open>
  The \<open>while\<close> loop of \<open>expected_opens\<close>: not returning is the value None, an exception of
  the step past the last representable datetime is \<open>Inl\<close>.
\<close>

partial_function (option) opens_loop ::
  "market_calendar \<Rightarrow> string \<Rightarrow> int \<Rightarrow> instant \<Rightarrow> instant \<Rightarrow> instant list result option" where
  "opens_loop c tf step stop cursor =
     (if stop < cursor then Some (Inr [])
      else case dt_add cursor step of
        Inl e \<Rightarrow> Some (Inl e)
      | Inr next \<Rightarrow>
          Option.bind (opens_loop c tf step stop next) (\<lambda>r.
            Some (bind_r r (\<lambda>rest. Inr (if is_expected c cursor tf then cursor # rest else rest)))))"

definition expected_opens ::
  "market_calendar \<Rightarrow> datetime \<Rightarrow> datetime \<Rightarrow> string \<Rightarrow> instant list result option" where
  "expected_opens c start_t end_t tf =
     (case bind_r (utc start_t ''start'') (\<lambda>a. bind_r (utc end_t ''end'') (\<lambda>b.
             bind_r (timeframe_delta tf) (\<lambda>step. Inr (a, b, step)))) of
        Inl e \<Rightarrow> Some (Inl e)
      | Inr (a, b, step) \<Rightarrow> opens_loop c tf step b a)"

section \<open>What a timeframe is\<close>

lemma timeframe_delta_pos: "timeframe_delta tf = Inr step \<Longrightarrow> 60 * us_per_second \<le> step \<and> step mod us_per_second = 0"
  by (auto simp: timeframe_delta_def us_per_second_def Let_def split: option.splits if_splits)

lemmas timeframe_delta_posD = timeframe_delta_pos [THEN conjunct1]

text \<open>
  C22: The last settled candle.  For the times a float can resolve (until 2242), the open
  time \<open>last_settled_open\<close> returns lies on the grid of the timeframe, its candle has closed
  at or before now, and the next candle of the grid has not closed yet.
\<close>

theorem last_settled_open_exact:
  assumes "last_settled_open (Aware now) tf = Inr t" and "timeframe_delta tf = Inr step"
    and "0 \<le> now" and "now < 2 ^ 33 * us_per_second"
  shows "t mod step = 0 \<and> t + step \<le> now \<and> now < t + 2 * step"
proof -
  define s where "s = step div us_per_second"
  have step: "step = s * us_per_second" "60 \<le> s"
    using timeframe_delta_pos [OF assms(2)] by (auto simp: s_def us_per_second_def)
  define n where "n = now div us_per_second"
  have n: "n * us_per_second \<le> now" "now < n * us_per_second + us_per_second"
    by (auto simp: n_def us_per_second_def)
  have t: "t = (n - n mod s) * us_per_second - step"
    using assms timestamp_int_div [OF assms(3,4)]
    by (auto simp: last_settled_open_def Let_def dt_add_Inr_iff s_def n_def)
  have b: "n - n mod s = (n div s) * s" by (simp add: minus_mod_eq_mult_div)
  have m: "0 \<le> n mod s" "n mod s < s" using step(2) by auto
  have 1: "t = (n div s - 1) * step" by (simp add: t b step(1) algebra_simps)
  have 2: "t + step \<le> now"
    using n(1) m(1) mult_right_mono [of "n - n mod s" n us_per_second] by (simp add: t us_per_second_def)
  have "now < (n + 1) * us_per_second" using n(2) by (simp add: algebra_simps)
  also have "\<dots> \<le> (n - n mod s + s) * us_per_second"
    using m(2) by (intro mult_right_mono) (auto simp: us_per_second_def)
  also have "\<dots> = t + 2 * step" by (simp add: t step(1) algebra_simps)
  finally show ?thesis using 1 2 by simp
qed

theorem last_settled_open_exact_witness:
  "\<exists>t. last_settled_open (Aware 1700000000123456) ''5m'' = Inr t
     \<and> t mod 300000000 = 0 \<and> t + 300000000 \<le> 1700000000123456 \<and> 1700000000123456 < t + 2 * 300000000"
proof -
  have step: "timeframe_delta ''5m'' = Inr 300000000"
    by (simp add: timeframe_delta_def py_int_def str_strip_def is_space_def is_digit_def digits_value_def
        digit_value_def us_per_second_def)
  have "last_settled_open (Aware 1700000000123456) ''5m'' = Inr 1699999500000000"
    using timestamp_int_div [of 1700000000123456]
    by (simp add: last_settled_open_def step us_per_second_def dt_add_def dt_min_def dt_max_def)
  then show ?thesis
    using last_settled_open_exact [OF _ step, of 1700000000123456] by (auto simp: us_per_second_def)
qed

section \<open>The expected opens\<close>

text \<open>
  The reference: the points of the grid from \<open>start\<close> to \<open>stop\<close>, filtered by the calendar.
\<close>

definition grid_points :: "instant \<Rightarrow> instant \<Rightarrow> int \<Rightarrow> instant list" where
  "grid_points start stop step = map (\<lambda>k. start + int k * step) [0 ..< nat ((stop - start) div step + 1)]"

lemma set_grid_points:
  assumes "0 < step"
  shows "t \<in> set (grid_points start stop step) \<longleftrightarrow> start \<le> t \<and> t \<le> stop \<and> (t - start) mod step = 0"
proof
  assume "t \<in> set (grid_points start stop step)"
  then obtain k where k: "k < nat ((stop - start) div step + 1)" "t = start + int k * step"
    by (auto simp: grid_points_def)
  then have "int k \<le> (stop - start) div step" by linarith
  then have "int k * step \<le> (stop - start) div step * step" using assms by (intro mult_right_mono) auto
  also have "\<dots> \<le> stop - start" using assms by (simp add: minus_mod_eq_div_mult [symmetric])
  finally have "int k * step \<le> stop - start" .
  then show "start \<le> t \<and> t \<le> stop \<and> (t - start) mod step = 0" using k assms by simp
next
  assume t: "start \<le> t \<and> t \<le> stop \<and> (t - start) mod step = 0"
  then have e: "t = start + (t - start) div step * step" by (metis add.commute diff_add_cancel div_mult_mod_eq add.right_neutral)
  have "(t - start) div step \<le> (stop - start) div step" using t assms by (simp add: zdiv_mono1)
  moreover have "0 \<le> (t - start) div step" using t assms by (simp add: pos_imp_zdiv_nonneg_iff)
  ultimately show "t \<in> set (grid_points start stop step)"
    using e by (auto simp: grid_points_def intro!: image_eqI [of _ _ "nat ((t - start) div step)"])
qed

lemma grid_points_empty: "0 < step \<Longrightarrow> stop < start \<Longrightarrow> grid_points start stop step = []"
  using div_neg_pos_less0 [of "stop - start" step] by (simp add: grid_points_def)

lemma grid_points_Cons:
  assumes "0 < step" and "start \<le> stop"
  shows "grid_points start stop step = start # grid_points (start + step) stop step"
proof -
  have "(stop - start) div step = (stop - (start + step) + step) div step" by simp
  also have "\<dots> = (stop - (start + step)) div step + 1" using assms(1) by (intro div_add_self2) simp
  finally have "(stop - (start + step)) div step = (stop - start) div step - 1" by simp
  moreover have "0 \<le> (stop - start) div step" using assms by (simp add: pos_imp_zdiv_nonneg_iff)
  ultimately have n: "nat ((stop - start) div step + 1) = Suc (nat ((stop - (start + step)) div step + 1))" by simp
  show ?thesis unfolding grid_points_def n upt_conv_Cons [OF zero_less_Suc] map_Suc_upt [symmetric]
    by (simp add: algebra_simps)
qed

lemma opens_loop_grid:
  assumes "0 < step" and "dt_min \<le> cursor" and "stop + step \<le> dt_max"
  shows "opens_loop c tf step stop cursor
    = Some (Inr (filter (\<lambda>t. is_expected c t tf) (grid_points cursor stop step)))"
  using assms(2)
proof (induction "nat (stop - cursor + 1)" arbitrary: cursor rule: less_induct)
  case less
  show ?case
  proof (cases "stop < cursor")
    case True
    then show ?thesis using grid_points_empty [OF assms(1)] by (subst opens_loop.simps) simp
  next
    case False
    then have "dt_add cursor step = Inr (cursor + step)" using assms less.prems by (simp add: dt_add_def)
    moreover have "opens_loop c tf step stop (cursor + step)
      = Some (Inr (filter (\<lambda>t. is_expected c t tf) (grid_points (cursor + step) stop step)))"
      using less.hyps [of "cursor + step"] False assms(1) less.prems by simp
    ultimately show ?thesis using False grid_points_Cons [OF assms(1), of cursor stop]
      by (subst opens_loop.simps) simp
  qed
qed

lemma opens_loop_total:
  assumes "0 < step"
  shows "\<exists>r. opens_loop c tf step stop cursor = Some r"
proof (induction "nat (stop - cursor + 1)" arbitrary: cursor rule: less_induct)
  case less
  show ?case
  proof (cases "stop < cursor \<or> (\<exists>e. dt_add cursor step = Inl e)")
    case True
    then show ?thesis by (subst opens_loop.simps) auto
  next
    case False
    then have n: "dt_add cursor step = Inr (cursor + step)" by (auto simp: dt_add_def split: if_splits)
    obtain r where "opens_loop c tf step stop (cursor + step) = Some r"
      using less [of "cursor + step"] False assms by auto
    then show ?thesis using n False by (subst opens_loop.simps) auto
  qed
qed

lemma expected_opens_total: "\<exists>r. expected_opens c s e tf = Some r"
  using opens_loop_total timeframe_delta_posD
  by (fastforce simp: expected_opens_def us_per_second_def bind_r_Inr_iff split: sum.splits)

lemma sorted_grid_points: "0 < step \<Longrightarrow> sorted_wrt (<) (grid_points a b step)"
  by (simp add: grid_points_def sorted_wrt_map sorted_wrt_iff_nth_less)

lemma expected_opens_grid:
  assumes "timeframe_delta tf = Inr step" and "dt_min \<le> a" and "b + step \<le> dt_max"
  shows "expected_opens c (Aware a) (Aware b) tf
    = Some (Inr (filter (\<lambda>t. is_expected c t tf) (grid_points a b step)))"
  using opens_loop_grid [of step a b c tf] assms timeframe_delta_posD [OF assms(1)]
  by (simp add: expected_opens_def us_per_second_def)

text \<open>
  C23: The expected candles.  The loop over a window always ends, and when the window ends a
  step before the last representable datetime it returns, in increasing order, exactly
  the points of the timeframe's grid counted from the start of the window that lie in it
  and fall in the market's trading hours.
\<close>

theorem expected_opens_exact:
  assumes "timeframe_delta tf = Inr step" and "dt_min \<le> a" and "b + step \<le> dt_max"
  shows "\<exists>ts. expected_opens c (Aware a) (Aware b) tf = Some (Inr ts) \<and> sorted_wrt (<) ts
    \<and> (\<forall>t. t \<in> set ts \<longleftrightarrow> a \<le> t \<and> t \<le> b \<and> (t - a) mod step = 0 \<and> is_expected c t tf)"
proof -
  have pos: "0 < step" using timeframe_delta_posD [OF assms(1)] by (simp add: us_per_second_def)
  then show ?thesis
    using expected_opens_grid [OF assms] sorted_grid_points [OF pos, of a b] set_grid_points [OF pos]
    by (auto simp: sorted_wrt_filter)
qed

theorem expected_opens_exact_witness:
  "\<exists>ts. expected_opens \<lparr>mc_market = NSE, mc_holidays = {}\<rparr> (Aware 0) (Aware 100000000000) ''1h'' = Some (Inr ts)
    \<and> 10800000000 \<notin> set ts \<and> 14400000000 \<in> set ts"
proof -
  have step: "timeframe_delta ''1h'' = Inr 3600000000"
    by (simp add: timeframe_delta_def py_int_def str_strip_def is_space_def is_digit_def digits_value_def
        digit_value_def us_per_second_def)
  obtain ts where "expected_opens \<lparr>mc_market = NSE, mc_holidays = {}\<rparr> (Aware 0) (Aware 100000000000) ''1h'' = Some (Inr ts)"
    and "\<forall>t. t \<in> set ts \<longleftrightarrow> 0 \<le> t \<and> t \<le> 100000000000 \<and> (t - 0) mod 3600000000 = 0
      \<and> is_expected \<lparr>mc_market = NSE, mc_holidays = {}\<rparr> t ''1h''"
    using expected_opens_exact [OF step, of 0 100000000000 "\<lparr>mc_market = NSE, mc_holidays = {}\<rparr>"]
    by (auto simp: dt_min_def dt_max_def)
  then show ?thesis
    by (simp add: is_expected_def weekday_def time_of_day_def date_of_def us_per_day_def us_per_second_def)
qed

end
