(* ===== verification/History.thy ===== *)
theory History
  imports Providers Timeframes
begin

text \<open>
  The backfill engine of src/src/nanodelta/history/engine.py: jobs, watermarks, covered
  opens and runs; \<open>sync\<close> with its provider fall-back and windowed fetch loop, \<open>status\<close>
  and \<open>repair\<close>.  The clients and the wall clock are parameters that act on a world of
  their own; the lake is the one of theory \<open>Etl\<close>.
\<close>

section \<open>Data\<close>

datatype history_run_state = RUN_RUNNING | RUN_SUCCEEDED | RUN_FAILED

datatype readiness_state = READY | BACKFILLING | INSUFFICIENT_HISTORY | STALE | HISTORY_FAILED

record history_job =
  hj_market :: market
  hj_symbol :: string
  hj_timeframe :: string
  hj_provider_symbols :: "(provider, string) dict"
  hj_target_days :: int
  hj_overlap_bars :: int
  hj_request_limit :: int
  hj_window_start :: "datetime option"
  hj_window_end :: "datetime option"

definition history_job_post_init :: "history_job \<Rightarrow> history_job result" where
  "history_job_post_init j =
     bind_r (timeframe_delta (hj_timeframe j)) (\<lambda>_.
       if hj_symbol j = [] \<or> hj_target_days j < 1 \<or> hj_overlap_bars j < 0
         then Inl (ValueError ''history job settings are invalid'')
       else case (hj_window_start j, hj_window_end j) of
         (None, None) \<Rightarrow> Inr j
       | (Some a, Some b) \<Rightarrow>
           bind_r (utc a ''window_start'') (\<lambda>s. bind_r (utc b ''window_end'') (\<lambda>e.
             if e \<le> s then Inl (ValueError ''history window start must be before end'') else Inr j))
       | _ \<Rightarrow> Inl (ValueError ''both history window overrides are required''))"

record watermark =
  wm_market :: market
  wm_provider :: provider
  wm_symbol :: string
  wm_timeframe :: string
  wm_event_time :: instant
  wm_updated_at :: instant

record history_run =
  hn_run_id :: string
  hn_market :: market
  hn_symbol :: string
  hn_timeframe :: string
  hn_state :: history_run_state
  hn_started_at :: instant
  hn_finished_at :: "instant option"
  hn_provider :: "provider option"
  hn_rows_received :: int
  hn_bronze_created :: int
  hn_silver_created :: int
  hn_error :: "string option"

record history_status =
  hx_market :: market
  hx_symbol :: string
  hx_timeframe :: string
  hx_state :: readiness_state
  hx_target_start :: instant
  hx_settled_end :: instant
  hx_first_open :: "instant option"
  hx_last_open :: "instant option"
  hx_expected_count :: nat
  hx_actual_count :: nat
  hx_gap_count :: nat
  hx_gaps :: "instant list"

section \<open>The state\<close>

record history_state =
  hs_watermarks :: "(market \<times> provider \<times> string \<times> string, watermark) dict"
  hs_coverage :: "(market \<times> string \<times> string, instant set) dict"
  hs_runs :: "(string, history_run) dict"

definition history_state_init :: history_state where
  "history_state_init = \<lparr>hs_watermarks = [], hs_coverage = [], hs_runs = []\<rparr>"

definition covered :: "history_state \<Rightarrow> market \<Rightarrow> string \<Rightarrow> string \<Rightarrow> instant set" where
  "covered s m sy tf = (case map_of (hs_coverage s) (m, sy, tf) of None \<Rightarrow> {} | Some x \<Rightarrow> x)"

definition record_open :: "market \<Rightarrow> string \<Rightarrow> string \<Rightarrow> instant \<Rightarrow> history_state \<Rightarrow> history_state" where
  "record_open m sy tf t s =
     s\<lparr>hs_coverage := AList.update (m, sy, tf) (insert t (covered s m sy tf)) (hs_coverage s)\<rparr>"

definition watermark_of :: "history_state \<Rightarrow> market \<Rightarrow> provider \<Rightarrow> string \<Rightarrow> string \<Rightarrow> watermark option" where
  "watermark_of s m p sy tf = map_of (hs_watermarks s) (m, p, sy, tf)"

definition commit_watermark :: "watermark \<Rightarrow> history_state \<Rightarrow> history_state" where
  "commit_watermark w s =
     (let key = (wm_market w, wm_provider w, wm_symbol w, wm_timeframe w) in
      case map_of (hs_watermarks s) key of
        Some current \<Rightarrow> if wm_event_time w < wm_event_time current then s
                       else s\<lparr>hs_watermarks := AList.update key w (hs_watermarks s)\<rparr>
      | None \<Rightarrow> s\<lparr>hs_watermarks := AList.update key w (hs_watermarks s)\<rparr>)"

definition save_run :: "history_run \<Rightarrow> history_state \<Rightarrow> history_state" where
  "save_run r s = s\<lparr>hs_runs := AList.update (hn_run_id r) r (hs_runs s)\<rparr>"

definition has_run_state :: "history_state \<Rightarrow> market \<Rightarrow> string \<Rightarrow> string \<Rightarrow> history_run_state \<Rightarrow> bool" where
  "has_run_state s m sy tf st \<longleftrightarrow>
     list_ex (\<lambda>r. hn_market r = m \<and> hn_symbol r = sy \<and> hn_timeframe r = tf \<and> hn_state r = st)
       (map snd (hs_runs s))"

section \<open>The engine\<close>

record 'w backfill_engine =
  be_parse_iso :: "string \<Rightarrow> datetime result"
  be_registry :: provider_registry
  be_clients :: "(provider, 'w historical_client) dict"
  be_calendars :: "(market, market_calendar) dict"
  be_wall_clock :: "'w \<Rightarrow> instant \<times> 'w"

record 'w history_world =
  hw_state :: history_state
  hw_lake :: lake
  hw_world :: 'w

definition on_state :: "(history_state \<Rightarrow> history_state) \<Rightarrow> ('w history_world, unit) st" where
  "on_state f w = (Inr (), w\<lparr>hw_state := f (hw_state w)\<rparr>)"

definition wall_clock :: "'w backfill_engine \<Rightarrow> ('w history_world, instant) st" where
  "wall_clock g w = (case be_wall_clock g (hw_world w) of (t, w') \<Rightarrow> (Inr t, w\<lparr>hw_world := w'\<rparr>))"

text \<open>\<open>type(exc).__name__\<close> and \<open>str(exc)\<close>.\<close>

fun error_name :: "py_error \<Rightarrow> string" where
  "error_name (ValueError _) = ''ValueError''"
| "error_name (PermissionError _) = ''PermissionError''"
| "error_name (LookupError _) = ''LookupError''"
| "error_name (KeyError _) = ''KeyError''"
| "error_name (RuntimeError _) = ''RuntimeError''"
| "error_name (TypeError _) = ''TypeError''"
| "error_name ZeroDivisionError = ''ZeroDivisionError''"
| "error_name (OverflowError _) = ''OverflowError''"
| "error_name (OSError _) = ''OSError''"
| "error_name (OtherError n _) = n"
| "error_name AssertionError = ''AssertionError''"

fun error_text :: "py_error \<Rightarrow> string" where
  "error_text (ValueError m) = m"
| "error_text (PermissionError m) = m"
| "error_text (LookupError m) = m"
| "error_text (KeyError k) = repr_str k"
| "error_text (RuntimeError m) = m"
| "error_text (TypeError m) = m"
| "error_text ZeroDivisionError = ''float division by zero''"
| "error_text (OverflowError m) = m"
| "error_text (OSError m) = m"
| "error_text (OtherError _ m) = m"
| "error_text AssertionError = ''''"

text \<open>What the fetch loop has counted so far.\<close>

record fetch_totals =
  fx_rows_received :: int
  fx_bronze :: int
  fx_silver :: int
  fx_settled_opens :: "instant list"

text \<open>A sync of one job with one provider: its fixed values.\<close>

record fetch_plan =
  fp_provider :: provider
  fp_provider_symbol :: string
  fp_now :: instant
  fp_step :: int
  fp_start :: instant
  fp_end :: instant

definition ingest_row ::
  "'w backfill_engine \<Rightarrow> history_job \<Rightarrow> fetch_plan \<Rightarrow> json \<Rightarrow> fetch_totals \<Rightarrow> ('w history_world, fetch_totals) st" where
  "ingest_row g j fp payload acc =
     bind_st (zoom hw_lake (\<lambda>l w. w\<lparr>hw_lake := l\<rparr>)
        (ingest (be_parse_iso g) (hj_market j) (fp_provider fp) CANDLE (fp_provider_symbol fp) payload
           (Aware (fp_now fp)))) (\<lambda>result.
       let acc' = acc\<lparr>fx_bronze := fx_bronze acc + (if ig_bronze_created result then 1 else 0),
                      fx_silver := fx_silver acc + (if ig_silver_created result then 1 else 0)\<rparr>
       in case ig_canonical result of
            None \<Rightarrow> return_st acc'
          | Some c \<Rightarrow>
              if cc_is_settled c \<and> cc_symbol c = hj_symbol j \<and> cc_timeframe c = hj_timeframe j
                 \<and> fp_start fp \<le> cc_open_time c \<and> cc_open_time c \<le> fp_end fp
              then bind_st (on_state (record_open (hj_market j) (hj_symbol j) (hj_timeframe j) (cc_open_time c))) (\<lambda>_.
                     return_st (acc'\<lparr>fx_settled_opens := fx_settled_opens acc' @ [cc_open_time c]\<rparr>))
              else return_st acc')"

text \<open>One iteration of \<open>while cursor <= end\<close>; it returns the next cursor.\<close>

definition fetch_window ::
  "'w backfill_engine \<Rightarrow> history_job \<Rightarrow> 'w historical_client \<Rightarrow> fetch_plan \<Rightarrow> instant \<Rightarrow> fetch_totals
     \<Rightarrow> ('w history_world, instant \<times> fetch_totals) st" where
  "fetch_window g j client fp cursor acc =
     bind_st (lift_st (dt_add (fp_end fp) (fp_step fp))) (\<lambda>a.
     bind_st (lift_st (dt_add cursor (fp_step fp * hj_request_limit j))) (\<lambda>b.
       let window_end = min a b in
     bind_st (lift_st (historical_request_post_init
        \<lparr>hr_symbol = fp_provider_symbol fp, hr_timeframe = hj_timeframe j, hr_start = cursor,
         hr_end = window_end, hr_limit = hj_request_limit j\<rparr>)) (\<lambda>request.
     bind_st (zoom hw_world (\<lambda>x w. w\<lparr>hw_world := x\<rparr>) (hc_fetch_candles client request)) (\<lambda>rows.
     bind_st (fold_st (ingest_row g j fp) rows
        (acc\<lparr>fx_rows_received := fx_rows_received acc + int (length rows)\<rparr>)) (\<lambda>acc'.
       return_st (window_end, acc'))))))"

text \<open>The request is refused unless the window ends after the cursor, so the cursor moves.\<close>

lemma fetch_window_advances:
  "fetch_window g j client fp cursor acc w = (Inr (next, acc'), w') \<Longrightarrow> cursor < next"
  by (auto simp: fetch_window_def Let_def historical_request_post_init_def split: if_splits)

function fetch_loop ::
  "'w backfill_engine \<Rightarrow> history_job \<Rightarrow> 'w historical_client \<Rightarrow> fetch_plan \<Rightarrow> instant \<Rightarrow> fetch_totals
     \<Rightarrow> 'w history_world \<Rightarrow> fetch_totals result \<times> 'w history_world" where
  "fetch_loop g j client fp cursor acc w =
     (if fp_end fp < cursor then (Inr acc, w)
      else case fetch_window g j client fp cursor acc w of
        (Inl e, w') \<Rightarrow> (Inl e, w')
      | (Inr (next, acc'), w') \<Rightarrow> fetch_loop g j client fp next acc' w')"
  by pat_completeness auto

termination
  by (relation "measure (\<lambda>(g, j, client, fp, cursor, acc, w). nat (fp_end fp + 1 - cursor))")
    (auto dest!: fetch_window_advances [OF sym])

declare fetch_loop.simps [simp del]

definition days_delta :: "int \<Rightarrow> int result" where
  "days_delta d = (if 999999999 < \<bar>d\<bar>
     then Inl (OverflowError (''days='' @ str_of_int d @ ''; must have magnitude <= 999999999''))
     else Inr (d * us_per_day))"

definition fetch_plan_of ::
  "history_state \<Rightarrow> history_job \<Rightarrow> provider \<Rightarrow> string \<Rightarrow> instant \<Rightarrow> instant \<Rightarrow> fetch_plan result" where
  "fetch_plan_of s j p provider_symbol now stop =
     bind_r (timeframe_delta (hj_timeframe j)) (\<lambda>step.
     bind_r (case hj_window_start j of
               Some a \<Rightarrow> utc a ''window_start''
             | None \<Rightarrow> bind_r (days_delta (hj_target_days j)) (\<lambda>d. dt_add stop (- d))) (\<lambda>target_start.
     bind_r (case (hj_window_start j, watermark_of s (hj_market j) p (hj_symbol j) (hj_timeframe j)) of
               (None, Some wm) \<Rightarrow> bind_r (dt_add (wm_event_time wm) (- (step * hj_overlap_bars j))) (\<lambda>t.
                  Inr (max target_start t))
             | _ \<Rightarrow> Inr target_start) (\<lambda>start.
       Inr \<lparr>fp_provider = p, fp_provider_symbol = provider_symbol, fp_now = now, fp_step = step,
            fp_start = start, fp_end = stop\<rparr>)))"

definition sync_body ::
  "'w backfill_engine \<Rightarrow> history_job \<Rightarrow> 'w historical_client \<Rightarrow> fetch_plan \<Rightarrow> history_run
     \<Rightarrow> ('w history_world, string + history_run) st" where
  "sync_body g j client fp run =
     bind_st (fetch_loop g j client fp (fp_start fp)
        \<lparr>fx_rows_received = 0, fx_bronze = 0, fx_silver = 0, fx_settled_opens = []\<rparr>) (\<lambda>tot.
       if fx_settled_opens tot = []
       then return_st (Inl (provider_value (fp_provider fp) @ '': no matching settled candles''))
       else bind_st (on_state (commit_watermark
           \<lparr>wm_market = hj_market j, wm_provider = fp_provider fp, wm_symbol = hj_symbol j,
            wm_timeframe = hj_timeframe j, wm_event_time = Max (set (fx_settled_opens tot)),
            wm_updated_at = fp_now fp\<rparr>)) (\<lambda>_.
         bind_st (wall_clock g) (\<lambda>finished.
           let run' = run\<lparr>hn_state := RUN_SUCCEEDED, hn_finished_at := Some finished,
                 hn_provider := Some (fp_provider fp), hn_rows_received := fx_rows_received tot,
                 hn_bronze_created := fx_bronze tot, hn_silver_created := fx_silver tot\<rparr>
           in bind_st (on_state (save_run run')) (\<lambda>_. return_st (Inr run')))))"

text \<open>\<open>try: ... except Exception as exc: errors.append(...)\<close>\<close>

definition catch_st :: "('s, 'a) st \<Rightarrow> (py_error \<Rightarrow> 'a) \<Rightarrow> ('s, 'a) st" where
  "catch_st m h s = (case m s of (Inl e, s') \<Rightarrow> (Inr (h e), s') | (Inr x, s') \<Rightarrow> (Inr x, s'))"

definition sync_provider ::
  "'w backfill_engine \<Rightarrow> history_job \<Rightarrow> instant \<Rightarrow> instant \<Rightarrow> history_run \<Rightarrow> provider
     \<Rightarrow> ('w history_world, string + history_run) st" where
  "sync_provider g j now stop run p w =
     (case (map_of (be_clients g) p, map_of (hj_provider_symbols j) p) of
        (Some client, Some provider_symbol) \<Rightarrow>
          if hc_market client \<noteq> hj_market j \<or> hc_provider client \<noteq> p
          then (Inr (Inl (provider_value p @ '': ownership mismatch'')), w)
          else (case fetch_plan_of (hw_state w) j p provider_symbol now stop of
              Inl e \<Rightarrow> (Inl e, w)
            | Inr fp \<Rightarrow> catch_st (sync_body g j client fp run)
                (\<lambda>e. Inl (provider_value p @ '': '' @ error_name e @ '': '' @ error_text e)) w)
      | _ \<Rightarrow> (Inr (Inl (provider_value p @ '': unavailable'')), w))"

fun sync_route ::
  "'w backfill_engine \<Rightarrow> history_job \<Rightarrow> instant \<Rightarrow> instant \<Rightarrow> history_run \<Rightarrow> provider list \<Rightarrow> string list
     \<Rightarrow> ('w history_world, history_run) st" where
  "sync_route g j now stop run [] errors =
     bind_st (wall_clock g) (\<lambda>finished.
       let run' = run\<lparr>hn_state := RUN_FAILED, hn_finished_at := Some finished,
             hn_error := Some (str_join ''; '' errors)\<rparr>
       in bind_st (on_state (save_run run')) (\<lambda>_. return_st run'))"
| "sync_route g j now stop run (p # ps) errors =
     bind_st (sync_provider g j now stop run p) (\<lambda>r.
       case r of Inr done_run \<Rightarrow> return_st done_run
               | Inl msg \<Rightarrow> sync_route g j now stop run ps (errors @ [msg]))"

definition sync_end :: "history_job \<Rightarrow> instant \<Rightarrow> instant result" where
  "sync_end j now =
     (case hj_window_end j of
        None \<Rightarrow> last_settled_open (Aware now) (hj_timeframe j)
      | Some b \<Rightarrow> bind_r (utc b ''window_end'') (\<lambda>e.
          bind_r (last_settled_open (Aware now) (hj_timeframe j)) (\<lambda>l. Inr (min e l))))"

definition new_run :: "history_job \<Rightarrow> instant \<Rightarrow> instant \<Rightarrow> history_run" where
  "new_run j now started =
     \<lparr>hn_run_id = stable_id [market_value (hj_market j), hj_symbol j, hj_timeframe j, isoformat now],
      hn_market = hj_market j, hn_symbol = hj_symbol j, hn_timeframe = hj_timeframe j,
      hn_state = RUN_RUNNING, hn_started_at = started, hn_finished_at = None, hn_provider = None,
      hn_rows_received = 0, hn_bronze_created = 0, hn_silver_created = 0, hn_error = None\<rparr>"

definition sync :: "'w backfill_engine \<Rightarrow> history_job \<Rightarrow> datetime \<Rightarrow> ('w history_world, history_run) st" where
  "sync g j now_t =
     bind_st (lift_st (utc now_t ''now'')) (\<lambda>now.
     bind_st (wall_clock g) (\<lambda>started.
     bind_st (lift_st (sync_end j now)) (\<lambda>stop.
     bind_st (lift_st (route (be_registry g) (hj_market j) HISTORICAL_CANDLES)) (\<lambda>providers.
       let run = new_run j now started in
     bind_st (on_state (save_run run)) (\<lambda>_.
       sync_route g j now stop run providers [])))))"

section \<open>Status\<close>

text \<open>Not returning is None; \<open>expected_opens_total\<close> excludes it.\<close>

definition readiness ::
  "history_state \<Rightarrow> history_job \<Rightarrow> instant \<Rightarrow> int \<Rightarrow> instant set \<Rightarrow> instant list \<Rightarrow> readiness_state" where
  "readiness s j stop step actual_all gaps =
     (if has_run_state s (hj_market j) (hj_symbol j) (hj_timeframe j) RUN_RUNNING then BACKFILLING
      else if gaps = [] then READY
      else if actual_all \<noteq> {} \<and> step < stop - Max actual_all then STALE
      else if has_run_state s (hj_market j) (hj_symbol j) (hj_timeframe j) RUN_FAILED then HISTORY_FAILED
      else INSUFFICIENT_HISTORY)"

definition status_of ::
  "history_state \<Rightarrow> history_job \<Rightarrow> instant \<Rightarrow> instant \<Rightarrow> int \<Rightarrow> instant list \<Rightarrow> history_status" where
  "status_of s j start stop step expected =
     (let actual_all = covered s (hj_market j) (hj_symbol j) (hj_timeframe j);
          actual = filter (\<lambda>t. t \<in> actual_all) expected;
          gaps = filter (\<lambda>t. t \<notin> actual_all) expected
      in \<lparr>hx_market = hj_market j, hx_symbol = hj_symbol j, hx_timeframe = hj_timeframe j,
          hx_state = readiness s j stop step actual_all gaps, hx_target_start = start, hx_settled_end = stop,
          hx_first_open = (if actual_all = {} then None else Some (Min actual_all)),
          hx_last_open = (if actual_all = {} then None else Some (Max actual_all)),
          hx_expected_count = length expected, hx_actual_count = length actual,
          hx_gap_count = length gaps, hx_gaps = gaps\<rparr>)"

definition status ::
  "'w backfill_engine \<Rightarrow> history_state \<Rightarrow> history_job \<Rightarrow> datetime \<Rightarrow> history_status result option" where
  "status g s j now_t =
     (case bind_r (last_settled_open now_t (hj_timeframe j)) (\<lambda>stop.
             bind_r (bind_r (days_delta (hj_target_days j)) (\<lambda>d. dt_add stop (- d))) (\<lambda>start.
             bind_r (timeframe_delta (hj_timeframe j)) (\<lambda>step.
               case map_of (be_calendars g) (hj_market j) of
                 None \<Rightarrow> Inl (KeyError (market_value (hj_market j)))
               | Some c \<Rightarrow> Inr (start, stop, step, c)))) of
        Inl e \<Rightarrow> Some (Inl e)
      | Inr (start, stop, step, c) \<Rightarrow>
          map_option (\<lambda>r. bind_r r (\<lambda>expected. Inr (status_of s j start stop step expected)))
            (expected_opens c (Aware start) (Aware stop) (hj_timeframe j)))"

section \<open>Repair\<close>

definition extend_groups :: "int \<Rightarrow> instant list list \<Rightarrow> instant \<Rightarrow> instant list list" where
  "extend_groups step groups gap =
     (if gap = last (last groups) + step then butlast groups @ [last groups @ [gap]] else groups @ [[gap]])"

definition gap_groups :: "int \<Rightarrow> instant list \<Rightarrow> instant list list" where
  "gap_groups step ordered = foldl (extend_groups step) [[hd ordered]] (tl ordered)"

fun shift_datetime :: "datetime \<Rightarrow> int \<Rightarrow> datetime result" where
  "shift_datetime (Aware t) d = bind_r (dt_add t d) (\<lambda>u. Inr (Aware u))"
| "shift_datetime (Naive t) d = bind_r (dt_add t d) (\<lambda>u. Inr (Naive u))"

definition repair_group ::
  "'w backfill_engine \<Rightarrow> history_job \<Rightarrow> datetime \<Rightarrow> int \<Rightarrow> nat \<times> instant list \<Rightarrow> ('w history_world, history_run) st" where
  "repair_group g j now_t step ig =
     (case ig of (i, gaps) \<Rightarrow>
     bind_st (lift_st (dt_add (last gaps) step)) (\<lambda>stop.
     bind_st (lift_st (history_job_post_init
        (j\<lparr>hj_window_start := Some (Aware (hd gaps)), hj_window_end := Some (Aware stop)\<rparr>))) (\<lambda>repair_job.
     bind_st (lift_st (shift_datetime now_t (int i))) (\<lambda>now.
     bind_st (sync g repair_job now) (\<lambda>run w.
       let remaining = filter (\<lambda>t. t \<notin> covered (hw_state w) (hj_market j) (hj_symbol j) (hj_timeframe j)) gaps in
       if remaining \<noteq> [] \<and> hn_state run = RUN_SUCCEEDED
       then (let run' = run\<lparr>hn_state := RUN_FAILED,
                   hn_error := Some (''targeted gaps remain: '' @ str_of_int (int (length remaining)))\<rparr>
             in bind_st (on_state (save_run run')) (\<lambda>_. return_st run') w)
       else (Inr run, w))))))"

definition repair ::
  "'w backfill_engine \<Rightarrow> history_job \<Rightarrow> datetime list \<Rightarrow> datetime \<Rightarrow> ('w history_world, history_run list) st" where
  "repair g j gaps now_t =
     (if gaps = [] then return_st []
      else bind_st (lift_st (map_r (\<lambda>t. utc t ''gap'') gaps)) (\<lambda>ts.
           bind_st (lift_st (timeframe_delta (hj_timeframe j))) (\<lambda>step.
             let groups = gap_groups step (py_sorted (<) (remdups ts)) in
             for_st (repair_group g j now_t step) (enumerate 0 groups))))"

section \<open>What a sync may change\<close>

text \<open>
  \<open>advanced j stop s0 s\<close>: no watermark went back, no covered open was lost, and every
  new one belongs to the job and opened by \<open>stop\<close>.
\<close>

definition advanced :: "history_job \<Rightarrow> instant \<Rightarrow> history_state \<Rightarrow> history_state \<Rightarrow> bool" where
  "advanced j stop s0 s \<longleftrightarrow>
     (\<forall>k wm. map_of (hs_watermarks s0) k = Some wm \<longrightarrow>
        (\<exists>wm'. map_of (hs_watermarks s) k = Some wm' \<and> wm_event_time wm \<le> wm_event_time wm'))
     \<and> (\<forall>m sy tf. covered s0 m sy tf \<subseteq> covered s m sy tf)
     \<and> (\<forall>m sy tf t. t \<in> covered s m sy tf \<longrightarrow> t \<notin> covered s0 m sy tf \<longrightarrow>
          m = hj_market j \<and> sy = hj_symbol j \<and> tf = hj_timeframe j \<and> t \<le> stop)"

lemma advanced_refl: "advanced j stop s s"
  by (auto simp: advanced_def)

lemma covered_simps [simp]:
  "covered (s\<lparr>hs_runs := r\<rparr>) m sy tf = covered s m sy tf"
  "covered (s\<lparr>hs_watermarks := ws\<rparr>) m sy tf = covered s m sy tf"
  by (simp_all add: covered_def)

lemma covered_record_open:
  "covered (record_open m' sy' tf' t s) m sy tf =
     (if (m, sy, tf) = (m', sy', tf') then insert t (covered s m sy tf) else covered s m sy tf)"
  by (auto simp: covered_def record_open_def)

lemma advanced_save_run: "advanced j stop s0 s \<Longrightarrow> advanced j stop s0 (save_run r s)"
  by (simp add: advanced_def save_run_def)

lemma advanced_record_open:
  assumes "advanced j stop s0 s" and "t \<le> stop"
  shows "advanced j stop s0 (record_open (hj_market j) (hj_symbol j) (hj_timeframe j) t s)"
proof -
  let ?s = "record_open (hj_market j) (hj_symbol j) (hj_timeframe j) t s"
  have w: "hs_watermarks ?s = hs_watermarks s" by (simp add: record_open_def)
  have grow: "covered s m sy tf \<subseteq> covered ?s m sy tf" for m sy tf by (auto simp: covered_record_open)
  have new: "u \<in> covered ?s m sy tf \<Longrightarrow> u \<in> covered s m sy tf \<or>
      (m = hj_market j \<and> sy = hj_symbol j \<and> tf = hj_timeframe j \<and> u = t)" for m sy tf u
    by (auto simp: covered_record_open split: if_splits)
  show ?thesis using assms grow new unfolding advanced_def w by blast
qed

lemma commit_watermark_le:
  assumes "map_of (hs_watermarks s) k = Some wm"
  shows "\<exists>wm'. map_of (hs_watermarks (commit_watermark w s)) k = Some wm' \<and> wm_event_time wm \<le> wm_event_time wm'"
  using assms by (auto simp: commit_watermark_def Let_def split: option.splits if_splits)

lemma commit_watermark_present:
  "k = (wm_market w, wm_provider w, wm_symbol w, wm_timeframe w) \<Longrightarrow>
     \<exists>y. map_of (hs_watermarks (commit_watermark w s)) k = Some y"
  by (auto simp: commit_watermark_def Let_def split: option.split)

lemma covered_commit [simp]: "covered (commit_watermark w s) m sy tf = covered s m sy tf"
  by (auto simp: commit_watermark_def Let_def split: option.splits)

lemma advanced_commit:
  assumes "advanced j stop s0 s"
  shows "advanced j stop s0 (commit_watermark w s)"
proof -
  have "\<exists>wm'. map_of (hs_watermarks (commit_watermark w s)) k = Some wm' \<and> wm_event_time wm \<le> wm_event_time wm'"
    if k: "map_of (hs_watermarks s0) k = Some wm" for k wm
  proof -
    obtain wm1 where "map_of (hs_watermarks s) k = Some wm1" "wm_event_time wm \<le> wm_event_time wm1"
      using assms k unfolding advanced_def by blast
    then show ?thesis using commit_watermark_le [of s k wm1 w] by force
  qed
  then show ?thesis using assms unfolding advanced_def covered_commit by blast
qed

lemma keeps_on_state: "(\<And>s. P s \<Longrightarrow> P (f s)) \<Longrightarrow> keeps (\<lambda>w. P (hw_state w)) (on_state f)"
  by (simp add: keeps_def on_state_def)

lemma keeps_wall_clock [keeps_intros]: "keeps (\<lambda>w. P (hw_state w)) (wall_clock g)"
  by (simp add: keeps_def wall_clock_def case_prod_beta)

lemma keeps_zoom_lake [keeps_intros]: "keeps (\<lambda>w. P (hw_state w)) (zoom hw_lake (\<lambda>l w. w\<lparr>hw_lake := l\<rparr>) m)"
  by (rule keeps_zoom) simp

lemma keeps_zoom_world [keeps_intros]: "keeps (\<lambda>w. P (hw_state w)) (zoom hw_world (\<lambda>x w. w\<lparr>hw_world := x\<rparr>) m)"
  by (rule keeps_zoom) simp

lemma keeps_catch [keeps_intros]: "keeps P m \<Longrightarrow> keeps P (catch_st m h)"
  by (fastforce simp: keeps_def catch_st_def split: prod.splits sum.splits)

lemma keeps_ingest_row:
  "keeps (\<lambda>w. advanced j (fp_end fp) s0 (hw_state w)) (ingest_row g j fp payload acc)"
  unfolding ingest_row_def Let_def
  by (auto intro!: keeps_intros keeps_on_state advanced_record_open split: option.split)

lemma keeps_fetch_window:
  "keeps (\<lambda>w. advanced j (fp_end fp) s0 (hw_state w)) (fetch_window g j client fp cursor acc)"
  unfolding fetch_window_def Let_def by (intro keeps_intros keeps_ingest_row)

lemma keeps_fetch_loop:
  "keeps (\<lambda>w. advanced j (fp_end fp) s0 (hw_state w)) (fetch_loop g j client fp cursor acc)"
proof -
  have "advanced j (fp_end fp) s0 (hw_state w) \<Longrightarrow>
      advanced j (fp_end fp) s0 (hw_state (snd (fetch_loop g j client fp cursor acc w)))" for w
  proof (induction g j client fp cursor acc w rule: fetch_loop.induct)
    case (1 g j client fp cursor acc w)
    have k: "advanced j (fp_end fp) s0 (hw_state (snd (fetch_window g j client fp cursor acc w)))"
      using keeps_fetch_window [of j fp s0 g client cursor acc] 1(2) by (simp add: keeps_def)
    show ?case
    proof (cases "fp_end fp < cursor")
      case True
      then show ?thesis using 1(2) by (simp add: fetch_loop.simps)
    next
      case False
      then show ?thesis using k 1(1) [OF False]
        by (subst fetch_loop.simps) (auto split: prod.splits sum.splits)
    qed
  qed
  then show ?thesis by (simp add: keeps_def)
qed

lemma keeps_sync_body:
  "keeps (\<lambda>w. advanced j (fp_end fp) s0 (hw_state w)) (sync_body g j client fp run)"
  unfolding sync_body_def Let_def
  by (intro keeps_intros keeps_fetch_loop keeps_on_state advanced_commit advanced_save_run)

lemma fetch_plan_end: "fetch_plan_of s j p ps now stop = Inr fp \<Longrightarrow> fp_end fp = stop \<and> fp_provider fp = p"
  by (auto simp: fetch_plan_of_def)

lemma keeps_sync_provider:
  "keeps (\<lambda>w. advanced j stop s0 (hw_state w)) (sync_provider g j now stop run p)"
proof -
  have "keeps (\<lambda>w. advanced j stop s0 (hw_state w)) (catch_st (sync_body g j client fp run) h)"
    if "fetch_plan_of s j p ps now stop = Inr fp" for client fp h s ps
    using keeps_sync_body [of j fp s0 g client run] fetch_plan_end [OF that] by (auto intro: keeps_intros)
  then show ?thesis unfolding keeps_def sync_provider_def
    by (auto split: option.splits sum.splits)
qed

lemma keeps_sync_route:
  "keeps (\<lambda>w. advanced j stop s0 (hw_state w)) (sync_route g j now stop run ps errors)"
proof (induction ps arbitrary: errors)
  case Nil
  show ?case by (auto simp: Let_def intro!: keeps_intros keeps_on_state advanced_save_run)
next
  case (Cons p ps)
  then show ?case by (auto intro!: keeps_intros keeps_sync_provider split: sum.split)
qed

text \<open>The run a sync returns is the one it saved, and it is over.\<close>

definition run_settled :: "history_job \<Rightarrow> provider list \<Rightarrow> history_run \<Rightarrow> history_state \<Rightarrow> bool" where
  "run_settled j ps run s \<longleftrightarrow>
     map_of (hs_runs s) (hn_run_id run) = Some run
     \<and> (hn_state run = RUN_FAILED \<or>
        hn_state run = RUN_SUCCEEDED \<and>
        (\<exists>p \<in> set ps. hn_provider run = Some p
           \<and> watermark_of s (hj_market j) p (hj_symbol j) (hj_timeframe j) \<noteq> None))"

lemma sync_body_run:
  assumes "sync_body g j client fp run w = (Inr (Inr r), w')"
  shows "run_settled j [fp_provider fp] r (hw_state w')"
  using assms
  by (auto intro!: commit_watermark_present simp: sync_body_def Let_def on_state_def run_settled_def save_run_def watermark_of_def wall_clock_def
      split: if_splits prod.splits)

lemma run_settled_mono: "run_settled j ps r s \<Longrightarrow> set ps \<subseteq> set qs \<Longrightarrow> run_settled j qs r s"
  unfolding run_settled_def by blast

lemma sync_provider_run:
  assumes "sync_provider g j now stop run p w = (Inr (Inr r), w')"
  shows "run_settled j [p] r (hw_state w')"
proof -
  obtain client psym fp where "fetch_plan_of (hw_state w) j p psym now stop = Inr fp"
    and c: "catch_st (sync_body g j client fp run)
        (\<lambda>e. Inl (provider_value p @ '': '' @ error_name e @ '': '' @ error_text e)) w = (Inr (Inr r), w')"
    using assms by (auto simp: sync_provider_def split: option.splits if_splits sum.splits)
  moreover have "sync_body g j client fp run w = (Inr (Inr r), w')"
    using c by (auto simp: catch_st_def split: prod.splits sum.splits)
  ultimately show ?thesis using sync_body_run fetch_plan_end by metis
qed

lemma sync_route_run:
  "sync_route g j now stop run ps errors w = (Inr r, w') \<Longrightarrow> run_settled j ps r (hw_state w')"
proof (induction ps arbitrary: errors w)
  case Nil
  then show ?case by (auto simp: Let_def on_state_def run_settled_def save_run_def wall_clock_def split: prod.splits)
next
  case (Cons p ps)
  then obtain x w1 where x: "sync_provider g j now stop run p w = (Inr x, w1)" by auto
  show ?case
  proof (cases x)
    case (Inl msg)
    then show ?thesis using Cons x run_settled_mono [of j ps r "hw_state w'" "p # ps"] by (auto simp: bind_st_def)
  next
    case (Inr r')
    then show ?thesis using Cons.prems x run_settled_mono [of j "[p]" r "hw_state w'" "p # ps"]
        sync_provider_run [of g j now stop run p w r' w1] by (auto simp: bind_st_def)
  qed
qed

text \<open>
  C24: A sync is safe and settles.  Whatever the providers answer and whether or not it
  raises, a sync moves no watermark back and forgets no covered candle, and covers new
  candles only of its own market, symbol and timeframe, none later than the end of its
  window.  The run it returns is recorded and over: failed, or succeeded with a provider
  of the market's route that has a watermark.
\<close>

theorem sync_safe_and_settled:
  assumes "sync g j (Aware now) w = (r, w')" and "sync_end j now = Inr stop"
  shows "advanced j stop (hw_state w) (hw_state w')
    \<and> (case r of Inl e \<Rightarrow> True
       | Inr run \<Rightarrow> \<exists>ps. route (be_registry g) (hj_market j) HISTORICAL_CANDLES = Inr ps
           \<and> run_settled j ps run (hw_state w'))"
proof (cases "route (be_registry g) (hj_market j) HISTORICAL_CANDLES")
  case (Inl e)
  then show ?thesis using assms advanced_refl
    by (auto simp: sync_def bind_st_def lift_st_def wall_clock_def split: prod.splits)
next
  case (Inr ps)
  obtain t x where clock: "be_wall_clock g (hw_world w) = (t, x)" by fastforce
  define w1 where "w1 = w\<lparr>hw_world := x, hw_state := save_run (new_run j now t) (hw_state w)\<rparr>"
  have s: "sync_route g j now stop (new_run j now t) ps [] w1 = (r, w')"
    using assms Inr clock by (simp add: sync_def bind_st_def lift_st_def wall_clock_def on_state_def w1_def Let_def)
  have a: "advanced j stop (hw_state w) (hw_state w1)"
    by (simp add: w1_def advanced_save_run advanced_refl)
  have "advanced j stop (hw_state w) (hw_state w')"
    using keeps_sync_route [of j stop "hw_state w" g now "new_run j now t" ps "[]"] s a
    unfolding keeps_def by (metis snd_conv)
  moreover have "\<exists>ps. route (be_registry g) (hj_market j) HISTORICAL_CANDLES = Inr ps \<and> run_settled j ps run (hw_state w')"
    if "r = Inr run" for run
    using Inr sync_route_run [OF s [unfolded that]] by blast
  ultimately show ?thesis by (simp split: sum.split)
qed

section \<open>Readiness\<close>

lemma opens_loop_returned:
  assumes "0 < step" and "opens_loop c tf step stop cursor = Some (Inr ts)"
  shows "ts = filter (\<lambda>t. is_expected c t tf) (grid_points cursor stop step)"
  using assms(2)
proof (induction "nat (stop - cursor + 1)" arbitrary: cursor ts rule: less_induct)
  case less
  show ?case
  proof (cases "stop < cursor")
    case True
    then show ?thesis using grid_points_empty [OF assms(1)] less.prems by (simp add: opens_loop.simps)
  next
    case False
    then obtain rest where n: "dt_add cursor step = Inr (cursor + step)"
      and r: "opens_loop c tf step stop (cursor + step) = Some (Inr rest)"
      and ts: "ts = (if is_expected c cursor tf then cursor # rest else rest)"
      using less.prems
      by (subst (asm) opens_loop.simps)
        (auto simp: dt_add_def bind_eq_Some_conv split: sum.splits if_splits)
    have "rest = filter (\<lambda>t. is_expected c t tf) (grid_points (cursor + step) stop step)"
      using less.hyps [OF _ r] False assms(1) by simp
    then show ?thesis using ts False grid_points_Cons [OF assms(1), of cursor stop] by simp
  qed
qed

lemma status_Inr:
  assumes "status g s j now_t = Some (Inr x)"
  obtains stop step start c d where "last_settled_open now_t (hj_timeframe j) = Inr stop"
    and "timeframe_delta (hj_timeframe j) = Inr step" and "start = stop - d * us_per_day"
    and "map_of (be_calendars g) (hj_market j) = Some c"
    and "x = status_of s j start stop step
      (filter (\<lambda>t. is_expected c t (hj_timeframe j)) (grid_points start stop step))"
proof -
  obtain stop start step c e where a: "last_settled_open now_t (hj_timeframe j) = Inr stop"
    "timeframe_delta (hj_timeframe j) = Inr step" "map_of (be_calendars g) (hj_market j) = Some c"
    "expected_opens c (Aware start) (Aware stop) (hj_timeframe j) = Some (Inr e)"
    "x = status_of s j start stop step e" "start = stop - hj_target_days j * us_per_day"
    using assms
    by (auto simp: status_def dt_add_Inr_iff days_delta_def bind_r_Inr_iff split: sum.splits option.splits if_splits)
  have "opens_loop c (hj_timeframe j) step stop start = Some (Inr e)"
    using a(2,4) by (simp add: expected_opens_def)
  then have "e = filter (\<lambda>t. is_expected c t (hj_timeframe j)) (grid_points start stop step)"
    using opens_loop_returned timeframe_delta_posD [OF a(2)] by (simp add: us_per_second_def)
  then show ?thesis using a that by blast
qed

lemma status_of_split:
  "hx_expected_count (status_of s j a b step e)
     = hx_actual_count (status_of s j a b step e) + hx_gap_count (status_of s j a b step e)"
  "hx_gap_count (status_of s j a b step e) = length (hx_gaps (status_of s j a b step e))"
  "hx_gaps (status_of s j a b step e)
     = filter (\<lambda>t. t \<notin> covered s (hj_market j) (hj_symbol j) (hj_timeframe j)) e"
  "hx_state (status_of s j a b step e) = READY \<Longrightarrow> hx_gaps (status_of s j a b step e) = []"
  "hx_target_start (status_of s j a b step e) = a" "hx_settled_end (status_of s j a b step e) = b"
  by (simp_all add: status_of_def Let_def readiness_def sum_length_filter_compl split: if_splits)

lemma status_total: "\<exists>r. status g s j now_t = Some r"
  using expected_opens_total by (fastforce simp: status_def split: sum.splits)

text \<open>
  Ready means complete.  A status splits the expected candles of its window into those
  covered and the gaps it lists, with the counts it reports; and when it says ready,
  every candle the market's calendar expects on the timeframe's grid from the start to
  the settled end of the window is covered.
\<close>

theorem ready_means_complete:
  assumes "status g s j now_t = Some (Inr x)" and "map_of (be_calendars g) (hj_market j) = Some c"
    and "timeframe_delta (hj_timeframe j) = Inr step"
  shows "hx_expected_count x = hx_actual_count x + hx_gap_count x \<and> hx_gap_count x = length (hx_gaps x)
    \<and> (\<forall>t. t \<in> set (hx_gaps x) \<longleftrightarrow> hx_target_start x \<le> t \<and> t \<le> hx_settled_end x
          \<and> (t - hx_target_start x) mod step = 0 \<and> is_expected c t (hj_timeframe j)
          \<and> t \<notin> covered s (hj_market j) (hj_symbol j) (hj_timeframe j))
    \<and> (hx_state x = READY \<longrightarrow> hx_gaps x = [])"
  using assms(1)
proof (rule status_Inr)
  fix stop step' start c' d
  assume a: "timeframe_delta (hj_timeframe j) = Inr step'" "map_of (be_calendars g) (hj_market j) = Some c'"
    "x = status_of s j start stop step'
      (filter (\<lambda>t. is_expected c' t (hj_timeframe j)) (grid_points start stop step'))"
  then have e: "step' = step" "c' = c" using assms by simp_all
  have "0 < step" using timeframe_delta_posD [OF assms(3)] by (simp add: us_per_second_def)
  then show ?thesis unfolding a(3) e status_of_split(5,6)
    by (intro conjI status_of_split(1,2) impI status_of_split(4)) (auto simp: status_of_split(3) set_grid_points)
qed

text \<open>A job, an engine with one client, and a sync that succeeds.\<close>

definition ex_history_job :: history_job where
  "ex_history_job = \<lparr>hj_market = CRYPTO, hj_symbol = ''BTC_USDT'', hj_timeframe = ''1m'',
     hj_provider_symbols = [(OKX, ''btc-usdt'')], hj_target_days = 1, hj_overlap_bars = 3,
     hj_request_limit = 1000, hj_window_start = Some (Aware 0), hj_window_end = Some (Aware 60000000)\<rparr>"

definition ex_backfill :: "unit backfill_engine" where
  "ex_backfill = \<lparr>be_parse_iso = ex_parse_iso, be_registry = [((CRYPTO, HISTORICAL_CANDLES), [OKX])],
     be_clients = [(OKX, \<lparr>hc_market = CRYPTO, hc_provider = OKX,
        hc_fetch_candles = (\<lambda>r w. (Inr [ex_payload], w))\<rparr>)],
     be_calendars = [(CRYPTO, \<lparr>mc_market = CRYPTO, mc_holidays = {}\<rparr>)], be_wall_clock = (\<lambda>w. (0, w))\<rparr>"

definition ex_history_world :: "unit history_world" where
  "ex_history_world = \<lparr>hw_state = history_state_init, hw_lake = [], hw_world = ()\<rparr>"

lemma ex_delta: "timeframe_delta ''1m'' = Inr 60000000"
  by (simp add: timeframe_delta_def py_int_def str_strip_def is_space_def is_digit_def digits_value_def
      digit_value_def us_per_second_def)

lemma ex_sync_end: "sync_end ex_history_job 120000000 = Inr 60000000"
  using timestamp_int_div [of 120000000]
  by (simp add: sync_end_def ex_history_job_def last_settled_open_def ex_delta us_per_second_def dt_add_def
      dt_min_def dt_max_def)

definition ex_fetch_plan :: fetch_plan where
  "ex_fetch_plan = \<lparr>fp_provider = OKX, fp_provider_symbol = ''btc-usdt'', fp_now = 120000000,
     fp_step = 60000000, fp_start = 0, fp_end = 60000000\<rparr>"

lemma ex_history_fields [simp]:
  "hj_market ex_history_job = CRYPTO" "hj_symbol ex_history_job = ''BTC_USDT''"
  "hj_timeframe ex_history_job = ''1m''" "hj_request_limit ex_history_job = 1000"
  "fp_provider ex_fetch_plan = OKX" "fp_provider_symbol ex_fetch_plan = ''btc-usdt''"
  "fp_now ex_fetch_plan = 120000000" "fp_step ex_fetch_plan = 60000000"
  "fp_start ex_fetch_plan = 0" "fp_end ex_fetch_plan = 60000000"
  by (simp_all add: ex_history_job_def ex_fetch_plan_def)

lemma ex_ingest_row:
  "\<exists>acc' w'. ingest_row ex_backfill ex_history_job ex_fetch_plan ex_payload acc w = (Inr acc', w')
     \<and> fx_settled_opens acc' = fx_settled_opens acc @ [0]"
proof -
  obtain r l c where "ingest ex_parse_iso CRYPTO OKX CANDLE ''btc-usdt'' ex_payload (Aware 120000000) (hw_lake w) = (Inr r, l)"
    "ig_canonical r = Some c" "cc_is_settled c" "cc_symbol c = ''BTC_USDT''" "cc_timeframe c = ''1m''" "cc_open_time c = 0"
    using ex_ingest by metis
  then show ?thesis
    by (simp add: ingest_row_def ex_backfill_def bind_st_def zoom_def
        return_st_def on_state_def Let_def)
qed

definition ex_client :: "unit historical_client" where
  "ex_client = \<lparr>hc_market = CRYPTO, hc_provider = OKX, hc_fetch_candles = (\<lambda>r w. (Inr [ex_payload], w))\<rparr>"

lemma ex_fetch_window:
  "\<exists>acc' w'. fetch_window ex_backfill ex_history_job ex_client ex_fetch_plan 0 acc w = (Inr (120000000, acc'), w')
     \<and> fx_settled_opens acc' = fx_settled_opens acc @ [0]"
proof -
  let ?acc = "acc\<lparr>fx_rows_received := fx_rows_received acc + 1\<rparr>"
  obtain acc' w' where "ingest_row ex_backfill ex_history_job ex_fetch_plan ex_payload ?acc (w\<lparr>hw_world := ()\<rparr>) = (Inr acc', w')"
    "fx_settled_opens acc' = fx_settled_opens ?acc @ [0]"
    using ex_ingest_row by blast
  then show ?thesis
    by (simp add: fetch_window_def ex_client_def dt_add_def dt_min_def dt_max_def
        historical_request_post_init_def bind_st_def lift_st_def zoom_def return_st_def Let_def str_strip_def is_space_def)
qed

lemma ex_fetch_loop:
  "\<exists>tot w'. fetch_loop ex_backfill ex_history_job ex_client ex_fetch_plan 0 acc w = (Inr tot, w')
     \<and> fx_settled_opens tot = fx_settled_opens acc @ [0]"
proof -
  obtain acc' w' where "fetch_window ex_backfill ex_history_job ex_client ex_fetch_plan 0 acc w = (Inr (120000000, acc'), w')"
    "fx_settled_opens acc' = fx_settled_opens acc @ [0]"
    using ex_fetch_window by blast
  moreover have "fetch_loop ex_backfill ex_history_job ex_client ex_fetch_plan 120000000 acc' w' = (Inr acc', w')"
    by (simp add: fetch_loop.simps)
  ultimately show ?thesis by (subst fetch_loop.simps) simp
qed

lemma ex_sync_body:
  "\<exists>r w'. sync_body ex_backfill ex_history_job ex_client ex_fetch_plan run w = (Inr (Inr r), w')
     \<and> hn_state r = RUN_SUCCEEDED"
proof -
  obtain tot w' where "fetch_loop ex_backfill ex_history_job ex_client ex_fetch_plan 0
      \<lparr>fx_rows_received = 0, fx_bronze = 0, fx_silver = 0, fx_settled_opens = []\<rparr> w = (Inr tot, w')"
    "fx_settled_opens tot = [0]"
    using ex_fetch_loop by (metis append_Nil fetch_totals.select_convs(4))
  then show ?thesis
    by (simp add: sync_body_def bind_st_def return_st_def on_state_def wall_clock_def ex_backfill_def Let_def)
qed

lemma ex_sync_provider:
  "\<exists>r w'. sync_provider ex_backfill ex_history_job 120000000 60000000 run OKX w = (Inr (Inr r), w')
     \<and> hn_state r = RUN_SUCCEEDED"
proof -
  have "fetch_plan_of s ex_history_job OKX ''btc-usdt'' 120000000 60000000 = Inr ex_fetch_plan" for s
    by (simp add: fetch_plan_of_def ex_history_job_def ex_delta ex_fetch_plan_def)
  moreover have "map_of (be_clients ex_backfill) OKX = Some ex_client"
    "map_of (hj_provider_symbols ex_history_job) OKX = Some ''btc-usdt''"
    "hc_market ex_client = hj_market ex_history_job" "hc_provider ex_client = OKX"
    by (simp_all add: ex_backfill_def ex_client_def ex_history_job_def)
  ultimately show ?thesis using ex_sync_body [of run w] by (auto simp: sync_provider_def catch_st_def)
qed

theorem sync_safe_and_settled_witness:
  "\<exists>run w'. sync ex_backfill ex_history_job (Aware 120000000) ex_history_world = (Inr run, w')
    \<and> hn_state run = RUN_SUCCEEDED \<and> run_settled ex_history_job [OKX] run (hw_state w')
    \<and> advanced ex_history_job 60000000 history_state_init (hw_state w')"
proof -
  have route: "route (be_registry ex_backfill) (hj_market ex_history_job) HISTORICAL_CANDLES = Inr [OKX]"
    by (simp add: route_def ex_backfill_def)
  have clock: "be_wall_clock ex_backfill x = (0, x)" for x by (simp add: ex_backfill_def)
  obtain run w' where s: "sync ex_backfill ex_history_job (Aware 120000000) ex_history_world = (Inr run, w')"
    and ok: "hn_state run = RUN_SUCCEEDED"
    using ex_sync_provider [of "new_run ex_history_job 120000000 0"
        "ex_history_world\<lparr>hw_state := save_run (new_run ex_history_job 120000000 0) history_state_init\<rparr>"]
    by (auto simp: sync_def bind_st_def lift_st_def return_st_def wall_clock_def on_state_def ex_sync_end
        route [simplified] clock ex_history_world_def Let_def)
  show ?thesis
    using sync_safe_and_settled [OF s ex_sync_end] s ok route by (auto simp: ex_history_world_def)
qed

theorem ready_means_complete_witness:
  "\<exists>x. status ex_backfill history_state_init ex_history_job (Aware 120000000) = Some (Inr x)
    \<and> 0 \<in> set (hx_gaps x) \<and> hx_state x \<noteq> READY"
proof -
  have stop: "last_settled_open (Aware 120000000) ''1m'' = Inr 60000000"
    using timestamp_int_div [of 120000000]
    by (simp add: last_settled_open_def ex_delta us_per_second_def dt_add_def dt_min_def dt_max_def)
  have cal: "map_of (be_calendars ex_backfill) (hj_market ex_history_job) = Some \<lparr>mc_market = CRYPTO, mc_holidays = {}\<rparr>"
    by (simp add: ex_backfill_def)
  have days: "hj_target_days ex_history_job = 1" by (simp add: ex_history_job_def)
  obtain x where x: "status ex_backfill history_state_init ex_history_job (Aware 120000000) = Some (Inr x)"
    and "hx_target_start x = - 86340000000" "hx_settled_end x = 60000000"
    using expected_opens_grid [OF ex_delta, of "- 86340000000" 60000000 "\<lparr>mc_market = CRYPTO, mc_holidays = {}\<rparr>"]
    by (auto simp: status_def stop ex_delta cal [simplified] days days_delta_def us_per_day_def dt_add_def dt_min_def
        dt_max_def status_of_split(5,6))
  then show ?thesis using ready_means_complete [OF x cal, simplified, OF ex_delta]
    by (auto simp: is_expected_def covered_def history_state_init_def)
qed

section \<open>Half-hour candles of the NSE\<close>

text \<open>
  \<open>half_hour_open parse_iso t\<close>: a candle that opens at \<open>t\<close> is what the Dhan adapter makes
  of a row the Dhan client resampled.
\<close>

definition half_hour_open :: "(string \<Rightarrow> datetime result) \<Rightarrow> instant \<Rightarrow> bool" where
  "half_hour_open parse_iso t \<longleftrightarrow>
     (\<exists>rows out row raw c k. resample_30m parse_iso rows = Inr out \<and> row \<in> set out
        \<and> obj_get row ''timestamp'' = Some (JInt k) \<and> 0 \<le> k \<and> k \<le> 10000000000
        \<and> rr_payload raw = json_sort row \<and> adapt_dhan parse_iso raw = Inr c \<and> cc_open_time c = t)"

lemma timestamp_of_int:
  assumes "timestamp_of parse_iso (JInt k) = Inr t" and "0 \<le> k" and "k \<le> 10000000000"
  shows "t = k * us_per_second"
proof -
  have f: "float_of_int k = Fin (of_int k)"
    using is_f64_int [of k] assms(2,3) by (simp add: float_of_int_def rnd64_f64)
  have "(of_int k :: rat) \<le> of_int 10000000000" using assms(3) by (simp only: of_int_le_iff)
  then have "\<not> Fin 10000000000 < float_of_int k" by (simp add: f)
  then have "fromtimestamp (Fin (of_int k)) = Inr t"
    using assms(1) by (simp add: timestamp_of_def json_float_def int_float_def f)
  then show ?thesis by (rule fromtimestamp_int)
qed

lemma resample_groups_distinct:
  "resample_groups ps = Inr rows \<Longrightarrow> row \<in> set rows \<Longrightarrow> \<exists>d. row = JObj d \<and> distinct (map fst d)"
proof (induction ps arbitrary: rows)
  case (Cons p ps)
  then show ?case by (cases p) (auto simp: Let_def resample_pair_def split: if_splits)
qed simp

lemma half_hour_open_mod:
  assumes "half_hour_open parse_iso t"
  shows "t mod (1800 * us_per_second) = 900 * us_per_second"
proof -
  obtain rows out row raw c k where r: "resample_30m parse_iso rows = Inr out" "row \<in> set out"
    "obj_get row ''timestamp'' = Some (JInt k)" "0 \<le> k" "k \<le> 10000000000"
    "rr_payload raw = json_sort row" "adapt_dhan parse_iso raw = Inr c" "cc_open_time c = t"
    using assms unfolding half_hour_open_def by blast
  obtain d where d: "row = JObj d" "distinct (map fst d)"
    using r(1,2) resample_groups_distinct unfolding resample_30m_def by blast
  have "obj_get (rr_payload raw) ''timestamp'' = Some (JInt k)"
    using obj_get_sorted [OF d(2), of "''timestamp''"] r(3,6) d(1) by simp
  then have "timestamp_of parse_iso (JInt k) = Inr t"
    using r(7,8) by (auto simp: adapt_dhan_def adapt_def obj_item_def candle_of_def Let_def
        dest!: canonical_candle_valid)
  then have "t = k * us_per_second" using r(4,5) by (rule timestamp_of_int)
  moreover have "k mod 1800 = 900" using resample_30m_rows [OF r(1,2)] r(3) by auto
  ultimately show ?thesis using mult_mod_left [of k 1800 us_per_second] by simp
qed

text \<open>
  C25: Half-hour NSE history is never ready.  The 30-minute candles resampled from Dhan open
  on the session's grid, 15 minutes past the half hours of the clock, while the status
  expects opens on the clock's grid: as long as the covered candles come from that
  resampling, none of them counts, every expected candle is a gap, and a window that
  expects any candle is never ready.
\<close>

theorem nse_half_hours_never_ready:
  assumes "status g s j (Aware now) = Some (Inr x)" and "hj_timeframe j = ''30m''"
    and "0 \<le> now" and "now < 2 ^ 33 * us_per_second"
    and "\<forall>t \<in> covered s (hj_market j) (hj_symbol j) ''30m''. half_hour_open parse_iso t"
  shows "hx_actual_count x = 0 \<and> hx_gap_count x = hx_expected_count x
    \<and> (hx_expected_count x \<noteq> 0 \<longrightarrow> hx_state x \<noteq> READY)"
  using assms(1)
proof (rule status_Inr)
  fix stop step start c d
  assume a: "last_settled_open (Aware now) (hj_timeframe j) = Inr stop"
    "timeframe_delta (hj_timeframe j) = Inr step" "start = stop - d * us_per_day"
    "x = status_of s j start stop step
      (filter (\<lambda>t. is_expected c t (hj_timeframe j)) (grid_points start stop step))"
  have step: "step = 1800 * us_per_second"
    using a(2) by (simp add: assms(2) timeframe_delta_def py_int_def str_strip_def is_space_def is_digit_def
        digits_value_def digit_value_def us_per_second_def)
  have "stop mod step = 0" using last_settled_open_exact [OF a(1,2) assms(3,4)] by simp
  moreover have "(d * us_per_day) mod step = 0" by (simp add: step us_per_day_def us_per_second_def mod_eq_0_iff_dvd)
  ultimately have start: "start mod step = 0" by (simp add: a(3) mod_diff_eq [symmetric])
  have "t \<notin> covered s (hj_market j) (hj_symbol j) (hj_timeframe j)" if "t \<in> set (grid_points start stop step)" for t
  proof
    assume "t \<in> covered s (hj_market j) (hj_symbol j) (hj_timeframe j)"
    then have "t mod step = 900 * us_per_second" using assms(2,5) half_hour_open_mod step by auto
    moreover have "(t - start) mod step = 0" using that set_grid_points [of step] step by (simp add: us_per_second_def)
    then have "t mod step = 0" using start by (metis add_cancel_right_right diff_add_cancel mod_add_eq mod_0)
    ultimately show False by (simp add: us_per_second_def)
  qed
  then have "hx_gaps x = filter (\<lambda>t. is_expected c t (hj_timeframe j)) (grid_points start stop step)"
    unfolding a(4) status_of_split(3) filter_filter by (auto intro: filter_cong)
  moreover have "hx_expected_count x = length (filter (\<lambda>t. is_expected c t (hj_timeframe j)) (grid_points start stop step))"
    by (simp add: a(4) status_of_def Let_def)
  moreover note status_of_split(1,2,4) [of s j start stop step
      "filter (\<lambda>t. is_expected c t (hj_timeframe j)) (grid_points start stop step)", folded a(4)]
  ultimately show ?thesis by auto
qed

definition ex_half_rows :: "json list" where
  "ex_half_rows = map (\<lambda>t. JObj [(''timestamp'', JInt t), (''open'', JInt 1), (''high'', JInt 1), (''low'', JInt 1),
     (''close'', JInt 1), (''volume'', JInt 1), (''timeframe'', JStr ''30m''), (''settled'', JBool True)]) [13500, 14400]"

definition ex_half_row :: json where
  "ex_half_row = JObj [(''timestamp'', JInt 13500), (''open'', JInt 1), (''high'', JFloat (Fin 1)), (''low'', JFloat (Fin 1)),
     (''close'', JInt 1), (''volume'', JFloat (py_sum [Fin 1, Fin 1])), (''timeframe'', JStr ''30m''),
     (''settled'', JBool True)]"

lemma ex_resample: "resample_30m ex_parse_iso ex_half_rows = Inr [ex_half_row]"
  by (simp add: resample_30m_def resample_buckets_def ex_half_rows_def ex_half_row_def row_seconds_def obj_item_def
      obj_get_def json_float_numeral json_float_one int_of_float_def truncate_rat_def bucket_of_def
      session_anchor_def group_append_def resample_pair_def floats_max_def floats_min_def)

lemma ex_sum: "py_sum [Fin 1, Fin 1] = Fin 2"
  by (simp add: zero_pyfloat_def one_pyfloat_def minus_pyfloat_def Let_def)

lemma ex_fromtimestamp: "fromtimestamp (Fin 13500) = Inr 13500000000"
  by code_simp

definition ex_half_raw :: raw_record where
  "ex_half_raw = \<lparr>rr_record_id = ''raw'', rr_market = NSE, rr_provider = DHAN, rr_event_type = CANDLE,
     rr_provider_symbol = ''INFY'', rr_received_at = 0, rr_payload = json_sort ex_half_row, rr_schema_version = 1\<rparr>"

lemma ex_half_get: "obj_get (rr_payload ex_half_raw) k = map_option json_sort (obj_get ex_half_row k)"
  using obj_get_sorted [where d = "[(''timestamp'', JInt 13500), (''open'', JInt 1), (''high'', JFloat (Fin 1)),
     (''low'', JFloat (Fin 1)), (''close'', JInt 1), (''volume'', JFloat (py_sum [Fin 1, Fin 1])),
     (''timeframe'', JStr ''30m''), (''settled'', JBool True)]"]
  by (simp add: ex_half_raw_def ex_half_row_def)

lemma ex_half_adapted: "\<exists>c. adapt_dhan ex_parse_iso ex_half_raw = Inr c \<and> cc_open_time c = 13500000000"
proof -
  have t: "timestamp_of ex_parse_iso (JInt 13500) = Inr 13500000000"
    by (simp add: timestamp_of_def json_float_numeral ex_fromtimestamp)
  have f: "float_field (rr_payload ex_half_raw) k = Inr (Fin 1)" if "k \<in> {''open'', ''high'', ''low'', ''close''}" for k
    using that by (auto simp: float_field_def ex_half_get) (simp_all add: ex_half_row_def obj_get_def json_float_one, simp_all add: json_float_def)
  have v: "float_field (rr_payload ex_half_raw) ''volume'' = Inr (Fin 2)"
    by (simp add: float_field_def ex_half_get)
      (simp add: ex_half_row_def obj_get_def json_float_def ex_sum del: py_sum.simps)
  have i: "obj_item (rr_payload ex_half_raw) ''timestamp'' = Inr (JInt 13500)"
    by (simp add: obj_item_def ex_half_get) (simp add: ex_half_row_def obj_get_def)
  show ?thesis
    by (simp add: adapt_dhan_def Let_def adapt_def i t f v candle_of_def canonical_candle_post_init_def py_min_def py_max_def
        zero_pyfloat_def)
qed

lemma ex_half_hour: "half_hour_open ex_parse_iso 13500000000"
proof -
  obtain c where c: "adapt_dhan ex_parse_iso ex_half_raw = Inr c" "cc_open_time c = 13500000000"
    using ex_half_adapted by blast
  show ?thesis unfolding half_hour_open_def
    by (rule exI [of _ ex_half_rows], rule exI [of _ "[ex_half_row]"], rule exI [of _ ex_half_row],
        rule exI [of _ ex_half_raw], rule exI [of _ c], rule exI [of _ 13500])
      (use c ex_resample in \<open>simp add: ex_half_raw_def\<close>, simp add: ex_half_row_def obj_get_def)
qed

definition ex_half_state :: history_state where
  "ex_half_state = history_state_init\<lparr>hs_coverage := [((NSE, ''INFY'', ''30m''), {13500000000})]\<rparr>"

definition ex_half_job :: history_job where
  "ex_half_job = ex_history_job\<lparr>hj_market := NSE, hj_symbol := ''INFY'', hj_timeframe := ''30m''\<rparr>"

definition ex_nse_backfill :: "unit backfill_engine" where
  "ex_nse_backfill = ex_backfill\<lparr>be_calendars := [(NSE, \<lparr>mc_market = NSE, mc_holidays = {}\<rparr>)]\<rparr>"

theorem nse_half_hours_never_ready_witness:
  "\<exists>x. status ex_nse_backfill ex_half_state ex_half_job (Aware 50000000000) = Some (Inr x) \<and> hx_actual_count x = 0"
proof -
  have delta: "timeframe_delta ''30m'' = Inr 1800000000"
    by (simp add: timeframe_delta_def py_int_def str_strip_def is_space_def is_digit_def digits_value_def
        digit_value_def us_per_second_def)
  have stop: "last_settled_open (Aware 50000000000) ''30m'' = Inr 46800000000"
    using timestamp_int_div [of 50000000000]
    by (simp add: last_settled_open_def delta us_per_second_def dt_add_def dt_min_def dt_max_def)
  have fields: "hj_timeframe ex_half_job = ''30m''" "hj_market ex_half_job = NSE" "hj_symbol ex_half_job = ''INFY''"
    "hj_target_days ex_half_job = 1"
    by (simp_all add: ex_half_job_def ex_history_job_def)
  have cal: "map_of (be_calendars ex_nse_backfill) NSE = Some \<lparr>mc_market = NSE, mc_holidays = {}\<rparr>"
    by (simp add: ex_nse_backfill_def)
  obtain x where x: "status ex_nse_backfill ex_half_state ex_half_job (Aware 50000000000) = Some (Inr x)"
    using expected_opens_grid [OF delta, of "- 39600000000" 46800000000 "\<lparr>mc_market = NSE, mc_holidays = {}\<rparr>"]
    by (auto simp: status_def stop delta cal fields days_delta_def us_per_day_def dt_add_def dt_min_def dt_max_def)
  have "\<forall>t \<in> covered ex_half_state (hj_market ex_half_job) (hj_symbol ex_half_job) ''30m''. half_hour_open ex_parse_iso t"
    by (simp add: covered_def ex_half_state_def fields ex_half_hour)
  then show ?thesis using nse_half_hours_never_ready [OF x fields(1)] x by (auto simp: us_per_second_def)
qed

section \<open>Gap groups\<close>

text \<open>Repair asks for every gap once, in order, one window per run of adjacent gaps.\<close>

definition groups_ok :: "int \<Rightarrow> instant list list \<Rightarrow> bool" where
  "groups_ok step gs \<longleftrightarrow> gs \<noteq> [] \<and> (\<forall>g \<in> set gs. g \<noteq> [] \<and> successively (\<lambda>a b. b = a + step) g)"

lemma extend_groups_ok:
  assumes "groups_ok step gs"
  shows "groups_ok step (extend_groups step gs gap) \<and> concat (extend_groups step gs gap) = concat gs @ [gap]"
proof -
  obtain xs g where gs: "gs = xs @ [g]" using assms by (auto simp: groups_ok_def neq_Nil_conv intro: rev_exhaust)
  then have g: "g \<noteq> []" "successively (\<lambda>a b. b = a + step) g" using assms by (auto simp: groups_ok_def)
  then show ?thesis using assms
    by (auto simp: gs extend_groups_def groups_ok_def successively_append_iff)
qed

lemma gap_groups_split:
  assumes "ordered \<noteq> []"
  shows "groups_ok step (gap_groups step ordered) \<and> concat (gap_groups step ordered) = ordered"
proof -
  have "groups_ok step (foldl (extend_groups step) gs xs) \<and> concat (foldl (extend_groups step) gs xs) = concat gs @ xs"
    if "groups_ok step gs" for gs xs
    using that extend_groups_ok by (induction xs arbitrary: gs) auto
  from this [of "[[hd ordered]]" "tl ordered"] show ?thesis using assms
    by (simp add: gap_groups_def groups_ok_def)
qed

end
