(* ===== verification/Evaluation.thy ===== *)
theory Evaluation
  imports Strategy_Runtime Py_Parse
begin

text \<open>
  The validation of a strategy against stored feature rows,
  src/src/nanodelta/strategies/evaluation.py: the sign test, the drawdown, the walk-forward
  windows and the metrics handed to the validation gate.  The rows come from the database
  in the order of symbol and event time; the evaluator is given the contexts made of them.
\<close>

section \<open>Statistics\<close>

definition one_sided_sign_test :: "int \<Rightarrow> int \<Rightarrow> pyfloat result" where
  "one_sided_sign_test wins sample =
     (if sample = 0 then Inr 1
      else let tail = sum_list (map (\<lambda>i. int (nat sample choose nat i)) [wins..sample]) in
        bind_r (int_float tail) (\<lambda>a.
        bind_r (int_float (2 ^ nat sample)) (\<lambda>b.
        bind_r (py_div a b) (\<lambda>q. Inr (py_min 1 q)))))"

record drawdown_state =
  ds_equity :: pyfloat
  ds_peak :: pyfloat
  ds_maximum :: pyfloat

definition drawdown_step :: "drawdown_state \<Rightarrow> pyfloat \<Rightarrow> drawdown_state result" where
  "drawdown_step d v =
     (let equity = ds_equity d * py_max 0 (1 + v); peak = py_max (ds_peak d) equity in
      bind_r (if py_eq peak 0 then Inr 0 else py_div (peak - equity) peak) (\<lambda>fall.
        Inr \<lparr>ds_equity = equity, ds_peak = peak, ds_maximum = py_max (ds_maximum d) fall\<rparr>))"

fun drawdown_loop :: "drawdown_state \<Rightarrow> pyfloat list \<Rightarrow> pyfloat result" where
  "drawdown_loop d [] = Inr (ds_maximum d)"
| "drawdown_loop d (v # vs) = bind_r (drawdown_step d v) (\<lambda>d'. drawdown_loop d' vs)"

definition maximum_drawdown :: "pyfloat list \<Rightarrow> pyfloat result" where
  "maximum_drawdown returns = drawdown_loop \<lparr>ds_equity = 1, ds_peak = 1, ds_maximum = 0\<rparr> returns"

section \<open>The evaluation loop\<close>

record evaluation_state =
  ev_trade_returns :: "pyfloat list"
  ev_window_returns :: "pyfloat list"
  ev_evaluated_index :: int

definition window_of :: "int \<Rightarrow> int \<Rightarrow> int \<Rightarrow> int" where
  "window_of windows contexts i = min (windows - 1) (i * windows div max 1 (contexts - 1))"

definition trade_return :: "strategy_signal \<Rightarrow> pyfloat \<Rightarrow> pyfloat result" where
  "trade_return s next_close =
     py_div ((if sg_action s = BUY then 1 else - 1) * (next_close - sg_reference_price s)) (sg_reference_price s)"

definition add_trade :: "int \<Rightarrow> pyfloat \<Rightarrow> pyfloat \<Rightarrow> evaluation_state \<Rightarrow> evaluation_state" where
  "add_trade contexts cost gross e =
     (let w = nat (window_of (int (length (ev_window_returns e))) contexts (ev_evaluated_index e)) in
      \<lparr>ev_trade_returns = ev_trade_returns e @ [gross],
       ev_window_returns = (ev_window_returns e)[w := ev_window_returns e ! w + (gross - cost)],
       ev_evaluated_index = ev_evaluated_index e + 1\<rparr>)"

definition evaluate_pair ::
  "strategy_plugin \<Rightarrow> int \<Rightarrow> pyfloat \<Rightarrow> strategy_context \<times> strategy_context \<Rightarrow> evaluation_state
     \<Rightarrow> evaluation_state result" where
  "evaluate_pair p contexts cost = (\<lambda>(c, nxt) e.
     if sc_symbol nxt \<noteq> sc_symbol c then Inr e
     else bind_r (sp_compatibility p c) (\<lambda>(compatible, _).
       bind_r (if compatible then sp_generate p c else Inr None) (\<lambda>signal.
         case signal of
           None \<Rightarrow> Inr e
         | Some s \<Rightarrow>
             (case map_of (sc_features nxt) ''close'' of
                None \<Rightarrow> Inl (KeyError ''close'')
              | Some next_close \<Rightarrow>
                  bind_r (trade_return s next_close) (\<lambda>gross. Inr (add_trade contexts cost gross e))))))"

fun evaluate_pairs ::
  "strategy_plugin \<Rightarrow> int \<Rightarrow> pyfloat \<Rightarrow> (strategy_context \<times> strategy_context) list \<Rightarrow> evaluation_state
     \<Rightarrow> evaluation_state result" where
  "evaluate_pairs p contexts cost [] e = Inr e"
| "evaluate_pairs p contexts cost (x # xs) e =
     bind_r (evaluate_pair p contexts cost x e) (\<lambda>e'. evaluate_pairs p contexts cost xs e')"

definition evaluation_start :: "validation_policy \<Rightarrow> evaluation_state" where
  "evaluation_start policy =
     \<lparr>ev_trade_returns = [], ev_window_returns = replicate (nat (vp_minimum_walk_forward_windows policy)) 0,
      ev_evaluated_index = 0\<rparr>"

definition metrics_of :: "pyfloat \<Rightarrow> int \<Rightarrow> evaluation_state \<Rightarrow> validation_metrics result" where
  "metrics_of cost hypotheses e =
     (let returns = ev_trade_returns e; count = length returns in
      bind_r (if count = 0 then Inr 0
              else bind_r (int_float (int count)) (\<lambda>n. py_div (py_sum returns) n)) (\<lambda>gross.
      bind_r (maximum_drawdown (map (\<lambda>v. v - cost) returns)) (\<lambda>drawdown.
      bind_r (one_sided_sign_test (int (length (filter (\<lambda>v. cost < v) returns))) (int count)) (\<lambda>p_value.
        Inr \<lparr>vm_trade_count = int count, vm_walk_forward_windows = int (length (ev_window_returns e)),
             vm_profitable_windows = int (length (filter (\<lambda>v. 0 < v) (ev_window_returns e))),
             vm_gross_expectancy = gross, vm_estimated_cost_per_trade = cost,
             vm_maximum_drawdown = drawdown, vm_p_value = p_value, vm_tested_hypotheses = hypotheses\<rparr>))))"

definition evaluate_metrics ::
  "strategy_plugin \<Rightarrow> validation_policy \<Rightarrow> pyfloat \<Rightarrow> int \<Rightarrow> strategy_context list \<Rightarrow> validation_metrics result" where
  "evaluate_metrics p policy cost hypotheses contexts =
     bind_r (evaluate_pairs p (int (length contexts)) cost (zip contexts (tl contexts)) (evaluation_start policy))
       (metrics_of cost hypotheses)"

definition evaluate_strategy ::
  "strategy_plugin \<Rightarrow> validation_policy \<Rightarrow> pyfloat \<Rightarrow> int \<Rightarrow> datetime \<Rightarrow> strategy_context list
     \<Rightarrow> (registry, validation_result) st" where
  "evaluate_strategy p policy cost hypotheses evaluated_at contexts =
     (if cost < 0 \<or> hypotheses < 1
        then raise_st (ValueError ''cost must be non-negative and hypotheses must be positive'')
      else bind_st (lift_st (evaluate_metrics p policy cost hypotheses contexts)) (\<lambda>metrics.
           bind_st (lift_st (validate_strategy (sd_identity (sp_definition p)) metrics policy evaluated_at)) (\<lambda>result.
           bind_st (record_validation result) (\<lambda>_. return_st result))))"

text \<open>
  The contexts are made of the rows of the Gold table that the query returns, which
  selects the timeframe and the feature version and orders by symbol and event time.  The
  regime is the default of the context: neutral fits and the label \<open>UNKNOWN\<close>.
\<close>

record gold_row =
  gr_record_id :: string
  gr_symbol :: string
  gr_timeframe :: string
  gr_event_time :: datetime
  gr_feature_version :: int
  gr_features :: "(string \<times> json) list"

definition default_regime :: regime_evidence where
  "default_regime = \<lparr>re_market_fit = 1, re_sector_fit = 1, re_symbol_fit = 1, re_mtf_alignment = 1,
     re_symbol_regime_label = ''UNKNOWN''\<rparr>"

definition evaluation_context :: "market \<Rightarrow> string \<Rightarrow> gold_row \<Rightarrow> strategy_context result" where
  "evaluation_context m horizon row =
     bind_r (map_r (\<lambda>(k, v). bind_r (json_float v) (\<lambda>x. Inr (k, x))) (gr_features row)) (\<lambda>features.
     strategy_context_post_init
       \<lparr>sc_market = m, sc_symbol = gr_symbol row, sc_sector = None, sc_timeframe = gr_timeframe row,
        sc_trade_horizon = horizon, sc_feature_set_version = gr_feature_version row,
        sc_event_time = gr_event_time row, sc_gold_snapshot_ids = [gr_record_id row],
        sc_features = features, sc_settled = True, sc_complete = True, sc_adjusted = True, sc_fresh = True,
        sc_warm = True, sc_tradeable = True, sc_tradeability_reason = ''TRADEABLE'',
        sc_regime = default_regime\<rparr>)"

definition load_contexts :: "strategy_plugin \<Rightarrow> gold_row list \<Rightarrow> strategy_context list result" where
  "load_contexts p rows =
     (let identity = sd_identity (sp_definition p)
      in map_r (evaluation_context (si_market identity) (si_trade_horizon identity)) rows)"

definition evaluate_plugin ::
  "strategy_plugin \<Rightarrow> validation_policy \<Rightarrow> pyfloat \<Rightarrow> int \<Rightarrow> datetime \<Rightarrow> gold_row list
     \<Rightarrow> (registry, validation_result) st" where
  "evaluate_plugin p policy cost hypotheses evaluated_at rows =
     (if cost < 0 \<or> hypotheses < 1
        then raise_st (ValueError ''cost must be non-negative and hypotheses must be positive'')
      else bind_st (lift_st (load_contexts p rows)) (\<lambda>contexts.
           evaluate_strategy p policy cost hypotheses evaluated_at contexts))"

section \<open>Windows fill from the front\<close>

definition windows_filled :: "nat \<Rightarrow> int \<Rightarrow> evaluation_state \<Rightarrow> bool" where
  "windows_filled n contexts e \<longleftrightarrow>
     length (ev_window_returns e) = n \<and> ev_evaluated_index e = int (length (ev_trade_returns e))
     \<and> (\<forall>w < n. ev_window_returns e ! w \<noteq> 0 \<longrightarrow>
          (\<exists>i. 0 \<le> i \<and> i < ev_evaluated_index e \<and> int w \<le> i * int n div max 1 (contexts - 1)))"

lemma windows_filled_start: "windows_filled (nat (vp_minimum_walk_forward_windows policy)) contexts (evaluation_start policy)"
  by (simp add: windows_filled_def evaluation_start_def)

lemma windows_filled_add:
  assumes "windows_filled n contexts e"
  shows "windows_filled n contexts (add_trade contexts cost gross e)"
proof -
  let ?i = "ev_evaluated_index e" and ?D = "max 1 (contexts - 1)"
  have e: "length (ev_window_returns e) = n" "?i = int (length (ev_trade_returns e))"
    and f: "\<And>w. w < n \<Longrightarrow> ev_window_returns e ! w \<noteq> 0 \<Longrightarrow> \<exists>i. 0 \<le> i \<and> i < ?i \<and> int w \<le> i * int n div ?D"
    using assms by (auto simp: windows_filled_def)
  have "\<exists>i. 0 \<le> i \<and> i < ?i + 1 \<and> int w \<le> i * int n div ?D"
    if w: "w < n" and nz: "ev_window_returns (add_trade contexts cost gross e) ! w \<noteq> 0" for w
  proof (cases "w = nat (window_of (int n) contexts ?i)")
    case True
    have "0 \<le> ?i * int n div ?D" by (simp add: e(2) pos_imp_zdiv_nonneg_iff)
    then have "int w \<le> ?i * int n div ?D" using True w by (simp add: window_of_def)
    then show ?thesis using e(2) by (intro exI [of _ ?i]) simp
  next
    case False
    then have "ev_window_returns e ! w \<noteq> 0" using nz e(1) by (simp add: add_trade_def Let_def)
    then show ?thesis using f [OF w] by force
  qed
  then show ?thesis using e by (simp add: windows_filled_def add_trade_def Let_def)
qed

lemma evaluate_pairs_filled:
  "evaluate_pairs p contexts cost ps e = Inr e' \<Longrightarrow> windows_filled n contexts e \<Longrightarrow> windows_filled n contexts e'"
proof (induction ps arbitrary: e)
  case (Cons x ps)
  then obtain e1 where e1: "evaluate_pair p contexts cost x e = Inr e1" "evaluate_pairs p contexts cost ps e1 = Inr e'"
    by auto
  have "e1 = e \<or> (\<exists>gross. e1 = add_trade contexts cost gross e)"
    using e1(1) by (auto simp: evaluate_pair_def split: prod.splits option.splits if_splits)
  then have "windows_filled n contexts e1" using Cons.prems(2) windows_filled_add by blast
  then show ?case using Cons.IH e1(2) by blast
qed simp

lemma filter_length_le_1:
  assumes "\<And>w. w < length xs \<Longrightarrow> P (xs ! w) \<Longrightarrow> w = 0"
  shows "length (filter P xs) \<le> 1"
proof -
  have "{w. w < length xs \<and> P (xs ! w)} \<subseteq> {0}" using assms by auto
  then have "card {w. w < length xs \<and> P (xs ! w)} \<le> card {0 :: nat}" by (intro card_mono) auto
  then show ?thesis by (simp add: length_filter_conv_card)
qed

lemma sparse_windows:
  assumes "evaluate_metrics p policy cost hypotheses contexts = Inr m"
    and "vm_trade_count m * vm_walk_forward_windows m < int (length contexts)"
  shows "vm_profitable_windows m \<le> 1"
proof -
  let ?n = "nat (vp_minimum_walk_forward_windows policy)" and ?c = "int (length contexts)"
  obtain e where e: "evaluate_pairs p ?c cost (zip contexts (tl contexts)) (evaluation_start policy) = Inr e"
    and m: "metrics_of cost hypotheses e = Inr m"
    using assms(1) by (auto simp: evaluate_metrics_def)
  have f: "windows_filled ?n ?c e" by (rule evaluate_pairs_filled [OF e windows_filled_start])
  have mm: "vm_trade_count m = ev_evaluated_index e" "vm_walk_forward_windows m = int ?n"
    "vm_profitable_windows m = int (length (filter (\<lambda>v. 0 < v) (ev_window_returns e)))"
    using m f by (auto simp: metrics_of_def windows_filled_def Let_def split: if_splits)
  have "w = 0" if w: "w < length (ev_window_returns e)" and pos: "0 < ev_window_returns e ! w" for w
  proof -
    have "ev_window_returns e ! w \<noteq> 0" using pos by auto
    then obtain i where i: "0 \<le> i" "i < ev_evaluated_index e" "int w \<le> i * int ?n div max 1 (?c - 1)"
      using f w by (auto simp: windows_filled_def)
    have n: "0 < ?n" using w f by (simp add: windows_filled_def)
    have "(i + 1) * int ?n \<le> ev_evaluated_index e * int ?n" using i(2) by (intro mult_right_mono) auto
    then have "i * int ?n < max 1 (?c - 1)" using assms(2) n by (simp add: mm algebra_simps)
    then have "i * int ?n div max 1 (?c - 1) = 0" using i(1) by (intro div_pos_pos_trivial) auto
    then show ?thesis using i(3) by simp
  qed
  then show ?thesis using filter_length_le_1 [of "ev_window_returns e" "\<lambda>v. 0 < v"] by (simp add: mm(3))
qed

text \<open>
  Sparse strategies cannot be validated.  Trades are put into walk-forward windows by
  their own count while the windows are cut by the number of feature rows, so a strategy
  with fewer trades than rows per window has all its trades in the first window: at most
  one window is profitable and, unless one window in \<open>n\<close> is enough for the policy, the
  validation is recorded as failed however profitable the strategy is.
\<close>

theorem sparse_strategy_never_validates:
  assumes "evaluate_strategy p policy cost hypotheses evaluated_at contexts reg = (Inr result, reg')"
    and "vm_trade_count (vr_metrics result) * vp_minimum_walk_forward_windows policy < int (length contexts)"
    and "rnd64 (1 / of_int (vp_minimum_walk_forward_windows policy)) < vp_minimum_profitable_window_ratio policy"
    and "1 \<le> vp_minimum_walk_forward_windows policy"
  shows "\<not> vr_passed result \<and> ''UNSTABLE_WALK_FORWARD_PERFORMANCE'' \<in> set (vr_rejection_reasons result)"
proof -
  obtain m where m: "evaluate_metrics p policy cost hypotheses contexts = Inr m"
    and v: "validate_strategy (sd_identity (sp_definition p)) m policy evaluated_at = Inr result"
    using assms(1) by (auto simp: evaluate_strategy_def split: if_splits)
  have r: "vr_metrics result = m" "vr_rejection_reasons result = validation_reasons m policy"
    "vr_passed result \<longleftrightarrow> validation_reasons m policy = []"
    using v by (auto simp: validate_strategy_def Let_def split: if_splits)
  have n: "vm_walk_forward_windows m = vp_minimum_walk_forward_windows policy"
    using m evaluate_pairs_filled [OF _ windows_filled_start] assms(4)
    by (auto simp: evaluate_metrics_def metrics_of_def windows_filled_def Let_def split: if_splits)
  have "vm_profitable_windows m \<le> 1" using sparse_windows [OF m] assms(2) r(1) n by simp
  then have "(of_int (vm_profitable_windows m) :: rat) / of_int (vm_walk_forward_windows m)
      \<le> 1 / of_int (vp_minimum_walk_forward_windows policy)"
    unfolding n using assms(4) by (intro divide_right_mono) auto
  then have "rnd64 (of_int (vm_profitable_windows m) / of_int (vm_walk_forward_windows m))
      < vp_minimum_profitable_window_ratio policy"
    using assms(3) rnd64_mono float_le_less_trans by blast
  then have "''UNSTABLE_WALK_FORWARD_PERFORMANCE'' \<in> set (validation_reasons m policy)"
    using n by (simp add: validation_reasons_def)
  then show ?thesis using r by auto
qed

section \<open>The sign test\<close>

lemma int_float_overflow: "1024 \<le> n \<Longrightarrow> int_float (2 ^ n) = Inl (OverflowError ''int too large to convert to float'')"
proof -
  assume n: "1024 \<le> n"
  have p: "(2 ^ n :: rat) = 2 powi int n" by simp
  have "grid (int n - 52) (2 powi int n)" using powi2_grid [of "int n - 52" "int n"] by (auto simp: grid_def)
  moreover have "\<bar>2 powi int n :: rat\<bar> \<le> 2 powi (int n - 52 + 53)"
    unfolding abs_of_pos [OF powi2_pos] powi2_le_iff by simp
  ultimately have "round_rat (2 ^ n) = 2 ^ n" unfolding p using n by (intro round_rat_small_grid) auto
  moreover have "f64_bound \<le> 2 ^ n" unfolding f64_bound_def using n by (rule power_increasing) simp
  ultimately show ?thesis by (simp add: int_float_def float_of_int_def rnd64_def)
qed

text \<open>
  The sign test raises from 1024 trades on, because two to the power of the sample has no
  float: with that many trades a strategy cannot be evaluated and nothing is recorded.
\<close>

lemma sign_test_overflow:
  assumes "1024 \<le> sample"
  shows "one_sided_sign_test wins sample = Inl (OverflowError ''int too large to convert to float'')"
proof -
  define tail where "tail = sum_list (map (\<lambda>i. int (nat sample choose nat i)) [wins..sample])"
  have "int_float tail = Inl (OverflowError ''int too large to convert to float'') \<or> (\<exists>x. int_float tail = Inr x)"
    by (auto simp: int_float_def Let_def)
  then show ?thesis using int_float_overflow [of "nat sample"] assms
    by (auto simp: one_sided_sign_test_def Let_def simp flip: tail_def)
qed

theorem many_trades_cannot_be_evaluated:
  assumes "evaluate_pairs p (int (length contexts)) cost (zip contexts (tl contexts)) (evaluation_start policy) = Inr e"
    and "1024 \<le> length (ev_trade_returns e)"
  shows "\<exists>err. evaluate_strategy p policy cost hypotheses evaluated_at contexts reg = (Inl err, reg)"
proof -
  have "\<exists>err. metrics_of cost hypotheses e = Inl err"
  proof (cases "metrics_of cost hypotheses e")
    case (Inr m)
    then obtain q where "one_sided_sign_test (int (length (filter (\<lambda>v. cost < v) (ev_trade_returns e))))
        (int (length (ev_trade_returns e))) = Inr q"
      by (auto simp: metrics_of_def Let_def)
    then show ?thesis using assms(2) by (simp add: sign_test_overflow)
  qed blast
  then show ?thesis using assms(1)
    by (auto simp: evaluate_strategy_def evaluate_metrics_def bind_st_def lift_st_def raise_st_def)
qed

section \<open>An evaluation\<close>

definition ex_rows :: "strategy_context list" where
  "ex_rows = map (\<lambda>(i, close). \<lparr>sc_market = NSE, sc_symbol = ''TCS'', sc_sector = None, sc_timeframe = ''5m'',
     sc_trade_horizon = ''intraday'', sc_feature_set_version = 2, sc_event_time = Aware i,
     sc_gold_snapshot_ids = [''g''], sc_features = [(''close'', close)], sc_settled = True, sc_complete = True,
     sc_adjusted = True, sc_fresh = True, sc_warm = True, sc_tradeable = True, sc_tradeability_reason = '''',
     sc_regime = \<lparr>re_market_fit = 1, re_sector_fit = 1, re_symbol_fit = 1, re_mtf_alignment = 1,
       re_symbol_regime_label = ''''\<rparr>\<rparr>) [(0, Fin 1), (1, Fin 2), (2, Fin 2), (3, Fin 2)]"

definition ex_plugin :: strategy_plugin where
  "ex_plugin = \<lparr>sp_object = 0, sp_definition = ex_definition, sp_compatibility = (\<lambda>c. Inr (True, '''')),
     sp_generate = (\<lambda>c. Inr (if sc_event_time c = Aware 0
       then Some \<lparr>sg_action = BUY, sg_confidence = 1, sg_reference_price = Fin 1, sg_stop_price = Fin (1 / 2),
         sg_target_price = Fin 2, sg_estimated_cost_r = 0, sg_historical_expectancy_r = 0, sg_ml_tilt_r = 0\<rparr>
       else None))\<rparr>"

definition ex_sparse_policy :: validation_policy where
  "ex_sparse_policy = \<lparr>vp_minimum_trades = 1, vp_minimum_walk_forward_windows = 2,
     vp_minimum_profitable_window_ratio = Fin 1, vp_minimum_net_expectancy = Fin 0,
     vp_maximum_drawdown = Fin 0, vp_family_wise_alpha = Fin (1 / 2)\<rparr>"

lemma ex_evaluate_pairs:
  "evaluate_pairs ex_plugin 4 0 (zip ex_rows (tl ex_rows)) (evaluation_start ex_sparse_policy)
     = Inr \<lparr>ev_trade_returns = [Fin 1], ev_window_returns = [Fin 1, 0], ev_evaluated_index = 1\<rparr>"
  by (simp add: ex_rows_def evaluate_pair_def ex_plugin_def evaluation_start_def ex_sparse_policy_def trade_return_def
      add_trade_def window_of_def py_div_def numeral_2_eq_2 minus_pyfloat_def one_pyfloat_def zero_pyfloat_def)

lemma ex_metrics_of:
  "\<exists>m. evaluate_metrics ex_plugin ex_sparse_policy 0 1 ex_rows = Inr m \<and> vm_trade_count m = 1
     \<and> vm_walk_forward_windows m = 2 \<and> vm_profitable_windows m = 1 \<and> vm_maximum_drawdown m = 0
     \<and> vm_estimated_cost_per_trade m = 0 \<and> vm_p_value m = Fin (1 / 2) \<and> vm_tested_hypotheses m = 1"
proof -
  have f: "int_float 1 = Inr (Fin 1)" "int_float 2 = Inr (Fin 2)"
    by (simp_all add: int_float_def float_of_int_def one_pyfloat_def)
  have d: "maximum_drawdown [Fin 1] = Inr 0"
    by (simp add: maximum_drawdown_def drawdown_step_def Let_def py_max_def py_div_def minus_pyfloat_def
        one_pyfloat_def zero_pyfloat_def)
  have s: "one_sided_sign_test 1 1 = Inr (Fin (1 / 2))"
    by (simp add: one_sided_sign_test_def f py_div_def py_min_def one_pyfloat_def zero_pyfloat_def)
  have p: "py_sum [Fin 1] = Fin 1" by (simp add: zero_pyfloat_def one_pyfloat_def)
  show ?thesis unfolding evaluate_metrics_def
    using ex_evaluate_pairs
    by (simp add: ex_rows_def metrics_of_def f d s p py_div_def minus_pyfloat_def one_pyfloat_def zero_pyfloat_def del: py_sum.simps)
qed

definition ex_empty_registry :: registry where
  "ex_empty_registry = \<lparr>rg_definitions = [(ex_identity, ex_definition)], rg_validations = [], rg_approvals = []\<rparr>"

theorem sparse_strategy_never_validates_witness:
  "\<exists>result reg'. evaluate_strategy ex_plugin ex_sparse_policy 0 1 (Aware 9) ex_rows ex_empty_registry = (Inr result, reg')
     \<and> vm_profitable_windows (vr_metrics result) = 1 \<and> \<not> vr_passed result"
proof -
  obtain m where m: "evaluate_metrics ex_plugin ex_sparse_policy 0 1 ex_rows = Inr m" "vm_trade_count m = 1"
    "vm_walk_forward_windows m = 2" "vm_profitable_windows m = 1" "vm_maximum_drawdown m = 0"
    "vm_estimated_cost_per_trade m = 0" "vm_p_value m = Fin (1 / 2)" "vm_tested_hypotheses m = 1"
    using ex_metrics_of by blast
  obtain result where v: "validate_strategy ex_identity m ex_sparse_policy (Aware 9) = Inr result"
    and r: "vr_metrics result = m" "vr_identity result = ex_identity"
    using m by (auto simp: validate_strategy_def Let_def one_pyfloat_def zero_pyfloat_def)
  obtain reg' where e: "evaluate_strategy ex_plugin ex_sparse_policy 0 1 (Aware 9) ex_rows ex_empty_registry = (Inr result, reg')"
    using m(1) v r(2)
    by (simp add: evaluate_strategy_def bind_st_def lift_st_def return_st_def record_validation_def ex_plugin_def
        ex_definition_def ex_empty_registry_def)
  show ?thesis
    using sparse_strategy_never_validates [OF e] e m(2,4) r(1)
    by (simp add: ex_sparse_policy_def ex_rows_def)
qed

end
