(* ===== verification/Technical.thy ===== *)
theory Technical
  imports Evaluation
begin

text \<open>
  The technical strategies of src/src/nanodelta/strategies/technical.py: the shared
  compatibility check and signal constructor, one record and one \<open>generate\<close> per strategy
  class, their union, and the list of strategies the program ships.  A feature is read by
  \<open>feature_at\<close>, which raises where the dictionary has no such key; every strategy reads
  only features its compatibility check has required, so the order of the reads is not
  observable.
\<close>

section \<open>Shared helpers\<close>

definition feature_at :: "strategy_context \<Rightarrow> string \<Rightarrow> pyfloat result" where
  "feature_at c k = (case map_of (sc_features c) k of None \<Rightarrow> Inl (KeyError k) | Some v \<Rightarrow> Inr v)"

definition technical_feature_version :: int where
  "technical_feature_version = 2"

definition compatibility_of ::
  "strategy_definition \<Rightarrow> string list \<Rightarrow> string list option \<Rightarrow> strategy_context \<Rightarrow> bool \<times> string" where
  "compatibility_of d required labels c =
     (let identity = sd_identity d in
      if sc_market c \<noteq> si_market identity then (False, ''MARKET_MISMATCH'')
      else if sc_timeframe c \<noteq> si_timeframe identity then (False, ''TIMEFRAME_MISMATCH'')
      else if sc_trade_horizon c \<noteq> si_trade_horizon identity then (False, ''TRADE_HORIZON_MISMATCH'')
      else if sc_feature_set_version c \<noteq> si_feature_set_version identity then (False, ''FEATURE_VERSION_MISMATCH'')
      else if \<not> set required \<subseteq> set (map fst (sc_features c)) then (False, ''REQUIRED_FEATURES_MISSING'')
      else if (case labels of None \<Rightarrow> False
               | Some ls \<Rightarrow> re_symbol_regime_label (sc_regime c) \<notin> set ls)
        then (False, ''REGIME_MISMATCH'')
      else (True, ''COMPATIBLE''))"

definition signal_of ::
  "advisory_action \<Rightarrow> pyfloat \<Rightarrow> pyfloat \<Rightarrow> pyfloat \<Rightarrow> pyfloat \<Rightarrow> pyfloat \<Rightarrow> strategy_signal result" where
  "signal_of action close atr stop_atr reward_risk confidence =
     (let distance = py_max (atr * stop_atr) (close * rnd64 (5 / 10000));
          stop = (if action = BUY then close - distance else close + distance);
          target = (if action = BUY then close + distance * reward_risk else close - distance * reward_risk)
      in strategy_signal_post_init
           \<lparr>sg_action = action, sg_confidence = py_max 0 (py_min confidence (rnd64 (95 / 100))),
            sg_reference_price = close, sg_stop_price = stop, sg_target_price = target,
            sg_estimated_cost_r = rnd64 (5 / 100), sg_historical_expectancy_r = 0, sg_ml_tilt_r = 0\<rparr>)"

text \<open>The end of every \<open>generate\<close>: no action, no signal.\<close>

definition signal_for ::
  "advisory_action option \<Rightarrow> (advisory_action \<Rightarrow> strategy_signal result) \<Rightarrow> strategy_signal option result" where
  "signal_for action mk =
     (case action of None \<Rightarrow> Inr None | Some a \<Rightarrow> bind_r (mk a) (\<lambda>s. Inr (Some s)))"

section \<open>The strategy classes\<close>

record vwap_pullback =
  vwap_definition :: strategy_definition
  vwap_pullback_tolerance :: pyfloat
  vwap_minimum_volume_ratio :: pyfloat
  vwap_stop_atr :: pyfloat
  vwap_reward_risk :: pyfloat

definition vwap_default :: "strategy_definition \<Rightarrow> vwap_pullback" where
  "vwap_default d =
     \<lparr>vwap_definition = d, vwap_pullback_tolerance = rnd64 (15 / 10000),
      vwap_minimum_volume_ratio = rnd64 (8 / 10), vwap_stop_atr = rnd64 (12 / 10),
      vwap_reward_risk = rnd64 (15 / 10)\<rparr>"

definition vwap_required :: "string list" where
  "vwap_required = [''close'', ''high'', ''low'', ''vwap'', ''ema_21'', ''atr_14'', ''volume_ratio_20'']"

definition vwap_compatibility :: "vwap_pullback \<Rightarrow> strategy_context \<Rightarrow> bool \<times> string" where
  "vwap_compatibility s = compatibility_of (vwap_definition s) vwap_required (Some [''TRENDING''])"

definition vwap_generate :: "vwap_pullback \<Rightarrow> strategy_context \<Rightarrow> strategy_signal option result" where
  "vwap_generate s c =
     (if \<not> fst (vwap_compatibility s c) then Inr None else
     bind_r (feature_at c ''close'') (\<lambda>close.
     bind_r (feature_at c ''vwap'') (\<lambda>vwap.
     bind_r (feature_at c ''ema_21'') (\<lambda>ema.
     bind_r (feature_at c ''volume_ratio_20'') (\<lambda>volume_ratio.
     bind_r (feature_at c ''low'') (\<lambda>low.
     bind_r (feature_at c ''high'') (\<lambda>high.
     bind_r (feature_at c ''atr_14'') (\<lambda>atr.
     if volume_ratio < vwap_minimum_volume_ratio s then Inr None
     else
       let touched_from_above = low \<le> vwap * (1 + vwap_pullback_tolerance s);
           touched_from_below = vwap * (1 - vwap_pullback_tolerance s) \<le> high
       in signal_for
            (if vwap < close \<and> ema < close \<and> touched_from_above then Some BUY
             else if close < vwap \<and> close < ema \<and> touched_from_below then Some SELL else None)
            (\<lambda>action. bind_r (py_div \<bar>close - vwap\<bar> close) (\<lambda>displacement.
               signal_of action close atr (vwap_stop_atr s) (vwap_reward_risk s)
                 (rnd64 (55 / 100) + py_min (displacement * Fin 20) (rnd64 (2 / 10)))))))))))))"

record ema_rsi_continuation =
  erc_definition :: strategy_definition
  erc_buy_rsi_minimum :: pyfloat
  erc_buy_rsi_maximum :: pyfloat
  erc_sell_rsi_minimum :: pyfloat
  erc_sell_rsi_maximum :: pyfloat
  erc_stop_atr :: pyfloat
  erc_reward_risk :: pyfloat

definition erc_default :: "strategy_definition \<Rightarrow> ema_rsi_continuation" where
  "erc_default d =
     \<lparr>erc_definition = d, erc_buy_rsi_minimum = Fin 52, erc_buy_rsi_maximum = Fin 70,
      erc_sell_rsi_minimum = Fin 30, erc_sell_rsi_maximum = Fin 48, erc_stop_atr = rnd64 (13 / 10),
      erc_reward_risk = rnd64 (18 / 10)\<rparr>"

definition erc_required :: "string list" where
  "erc_required = [''close'', ''ema_9'', ''ema_21'', ''rsi_14'', ''atr_14'', ''body_pct'']"

definition erc_compatibility :: "ema_rsi_continuation \<Rightarrow> strategy_context \<Rightarrow> bool \<times> string" where
  "erc_compatibility s = compatibility_of (erc_definition s) erc_required (Some [''TRENDING''])"

definition erc_generate :: "ema_rsi_continuation \<Rightarrow> strategy_context \<Rightarrow> strategy_signal option result" where
  "erc_generate s c =
     (if \<not> fst (erc_compatibility s c) then Inr None else
     bind_r (feature_at c ''rsi_14'') (\<lambda>rsi.
     bind_r (feature_at c ''ema_9'') (\<lambda>fast.
     bind_r (feature_at c ''ema_21'') (\<lambda>slow.
     bind_r (feature_at c ''body_pct'') (\<lambda>body.
     bind_r (feature_at c ''close'') (\<lambda>close.
     bind_r (feature_at c ''atr_14'') (\<lambda>atr.
     signal_for
       (if slow < fast \<and> (erc_buy_rsi_minimum s \<le> rsi \<and> rsi \<le> erc_buy_rsi_maximum s) \<and> 0 < body then Some BUY
        else if fast < slow \<and> (erc_sell_rsi_minimum s \<le> rsi \<and> rsi \<le> erc_sell_rsi_maximum s) \<and> body < 0 then Some SELL
        else None)
       (\<lambda>action. bind_r (py_div \<bar>fast - slow\<bar> close) (\<lambda>separation.
          signal_of action close atr (erc_stop_atr s) (erc_reward_risk s)
            (rnd64 (55 / 100) + py_min (separation * Fin 30) (rnd64 (2 / 10))))))))))))"

record supertrend_adx =
  sta_definition :: strategy_definition
  sta_minimum_adx :: pyfloat
  sta_stop_atr :: pyfloat
  sta_reward_risk :: pyfloat

definition sta_default :: "strategy_definition \<Rightarrow> supertrend_adx" where
  "sta_default d =
     \<lparr>sta_definition = d, sta_minimum_adx = Fin 25, sta_stop_atr = rnd64 (15 / 10),
      sta_reward_risk = Fin 2\<rparr>"

definition sta_required :: "string list" where
  "sta_required = [''close'', ''supertrend'', ''supertrend_direction'', ''adx_14'', ''atr_14'']"

definition sta_compatibility :: "supertrend_adx \<Rightarrow> strategy_context \<Rightarrow> bool \<times> string" where
  "sta_compatibility s = compatibility_of (sta_definition s) sta_required (Some [''TRENDING''])"

definition sta_generate :: "supertrend_adx \<Rightarrow> strategy_context \<Rightarrow> strategy_signal option result" where
  "sta_generate s c =
     (if \<not> fst (sta_compatibility s c) then Inr None else
     bind_r (feature_at c ''adx_14'') (\<lambda>adx.
     bind_r (feature_at c ''supertrend_direction'') (\<lambda>direction.
     bind_r (feature_at c ''close'') (\<lambda>close.
     bind_r (feature_at c ''supertrend'') (\<lambda>supertrend.
     bind_r (feature_at c ''atr_14'') (\<lambda>atr.
     if adx < sta_minimum_adx s then Inr None
     else signal_for
       (if 0 < direction \<and> supertrend < close then Some BUY
        else if direction < 0 \<and> close < supertrend then Some SELL else None)
       (\<lambda>action. bind_r (py_div (adx - sta_minimum_adx s) (Fin 100)) (\<lambda>excess.
          signal_of action close atr (sta_stop_atr s) (sta_reward_risk s)
            (rnd64 (55 / 100) + py_min excess (Fin (1 / 4)))))))))))"

record mean_reversion =
  mrv_definition :: strategy_definition
  mrv_oversold_rsi :: pyfloat
  mrv_overbought_rsi :: pyfloat
  mrv_minimum_stretch_atr :: pyfloat
  mrv_stop_atr :: pyfloat
  mrv_base_confidence :: pyfloat

definition mrv_default :: "strategy_definition \<Rightarrow> mean_reversion" where
  "mrv_default d =
     \<lparr>mrv_definition = d, mrv_oversold_rsi = Fin 30, mrv_overbought_rsi = Fin 70,
      mrv_minimum_stretch_atr = rnd64 (15 / 10), mrv_stop_atr = 1,
      mrv_base_confidence = rnd64 (55 / 100)\<rparr>"

definition mrv_required :: "string list" where
  "mrv_required = [''close'', ''rsi_14'', ''atr_14'', ''ema_21'']"

definition mrv_compatibility :: "mean_reversion \<Rightarrow> strategy_context \<Rightarrow> bool \<times> string" where
  "mrv_compatibility s = compatibility_of (mrv_definition s) mrv_required (Some [''RANGING''])"

definition mrv_generate :: "mean_reversion \<Rightarrow> strategy_context \<Rightarrow> strategy_signal option result" where
  "mrv_generate s c =
     (if \<not> fst (mrv_compatibility s c) then Inr None else
     bind_r (feature_at c ''close'') (\<lambda>close.
     bind_r (feature_at c ''rsi_14'') (\<lambda>rsi.
     bind_r (feature_at c ''atr_14'') (\<lambda>atr.
     bind_r (feature_at c ''ema_21'') (\<lambda>mean.
     if atr \<le> 0 then Inr None
     else bind_r (py_div (close - mean) atr) (\<lambda>stretch_atr.
       case (if rsi \<le> mrv_oversold_rsi s \<and> stretch_atr \<le> - mrv_minimum_stretch_atr s then Some BUY
             else if mrv_overbought_rsi s \<le> rsi \<and> mrv_minimum_stretch_atr s \<le> stretch_atr then Some SELL
             else None) of
         None \<Rightarrow> Inr None
       | Some action \<Rightarrow>
           (let stop_distance = py_max (mrv_stop_atr s * atr) (close * rnd64 (5 / 10000));
                stop = (if action = BUY then close - stop_distance else close + stop_distance);
                target = mean;
                confidence = mrv_base_confidence s + py_min (\<bar>stretch_atr\<bar> * rnd64 (5 / 100)) (rnd64 (2 / 10))
            in if action = BUY \<and> \<not> (stop < close \<and> close < target) then Inr None
               else if action = SELL \<and> \<not> (target < close \<and> close < stop) then Inr None
               else bind_r (strategy_signal_post_init
                      \<lparr>sg_action = action, sg_confidence = py_max 0 (py_min confidence (rnd64 (95 / 100))),
                       sg_reference_price = close, sg_stop_price = stop, sg_target_price = target,
                       sg_estimated_cost_r = rnd64 (5 / 100), sg_historical_expectancy_r = 0,
                       sg_ml_tilt_r = 0\<rparr>) (\<lambda>g. Inr (Some g)))))))))"

record range_reversal =
  rrv_definition :: strategy_definition
  rrv_touch_tolerance_pct :: pyfloat
  rrv_stop_atr :: pyfloat
  rrv_reward_risk :: pyfloat
  rrv_confidence :: pyfloat

definition rrv_default :: "strategy_definition \<Rightarrow> range_reversal" where
  "rrv_default d =
     \<lparr>rrv_definition = d, rrv_touch_tolerance_pct = rnd64 (2 / 1000), rrv_stop_atr = 1,
      rrv_reward_risk = rnd64 (15 / 10), rrv_confidence = rnd64 (55 / 100)\<rparr>"

definition rrv_required :: "string list" where
  "rrv_required = [''close'', ''high'', ''low'', ''range_high_20'', ''range_low_20'', ''atr_14'']"

definition rrv_compatibility :: "range_reversal \<Rightarrow> strategy_context \<Rightarrow> bool \<times> string" where
  "rrv_compatibility s = compatibility_of (rrv_definition s) rrv_required (Some [''RANGING''])"

definition rrv_generate :: "range_reversal \<Rightarrow> strategy_context \<Rightarrow> strategy_signal option result" where
  "rrv_generate s c =
     (if \<not> fst (rrv_compatibility s c) then Inr None else
     bind_r (feature_at c ''close'') (\<lambda>close.
     bind_r (feature_at c ''high'') (\<lambda>high.
     bind_r (feature_at c ''low'') (\<lambda>low.
     bind_r (feature_at c ''range_high_20'') (\<lambda>range_high.
     bind_r (feature_at c ''range_low_20'') (\<lambda>range_low.
     bind_r (feature_at c ''atr_14'') (\<lambda>atr.
     let touched_low = low \<le> range_low * (1 + rrv_touch_tolerance_pct s);
         touched_high = range_high * (1 - rrv_touch_tolerance_pct s) \<le> high
     in signal_for
          (if touched_low \<and> range_low < close then Some BUY
           else if touched_high \<and> close < range_high then Some SELL else None)
          (\<lambda>action. signal_of action close atr (rrv_stop_atr s) (rrv_reward_risk s) (rrv_confidence s)))))))))"

record support_reversal =
  srv_definition :: strategy_definition
  srv_touch_tolerance_pct :: pyfloat
  srv_minimum_volume_ratio :: pyfloat
  srv_stop_atr :: pyfloat
  srv_reward_risk :: pyfloat
  srv_confidence :: pyfloat

definition srv_default :: "strategy_definition \<Rightarrow> support_reversal" where
  "srv_default d =
     \<lparr>srv_definition = d, srv_touch_tolerance_pct = rnd64 (15 / 10000),
      srv_minimum_volume_ratio = rnd64 (12 / 10), srv_stop_atr = rnd64 (8 / 10),
      srv_reward_risk = rnd64 (13 / 10), srv_confidence = rnd64 (55 / 100)\<rparr>"

definition srv_required :: "string list" where
  "srv_required = [''close'', ''high'', ''low'', ''range_high_10'', ''range_low_10'', ''atr_14'', ''volume_ratio_20'']"

definition srv_compatibility :: "support_reversal \<Rightarrow> strategy_context \<Rightarrow> bool \<times> string" where
  "srv_compatibility s = compatibility_of (srv_definition s) srv_required (Some [''RANGING''])"

definition srv_generate :: "support_reversal \<Rightarrow> strategy_context \<Rightarrow> strategy_signal option result" where
  "srv_generate s c =
     (if \<not> fst (srv_compatibility s c) then Inr None else
     bind_r (feature_at c ''volume_ratio_20'') (\<lambda>volume_ratio.
     bind_r (feature_at c ''close'') (\<lambda>close.
     bind_r (feature_at c ''high'') (\<lambda>high.
     bind_r (feature_at c ''low'') (\<lambda>low.
     bind_r (feature_at c ''range_high_10'') (\<lambda>range_high.
     bind_r (feature_at c ''range_low_10'') (\<lambda>range_low.
     bind_r (feature_at c ''atr_14'') (\<lambda>atr.
     if volume_ratio < srv_minimum_volume_ratio s then Inr None
     else
     let touched_low = low \<le> range_low * (1 + srv_touch_tolerance_pct s);
         touched_high = range_high * (1 - srv_touch_tolerance_pct s) \<le> high
     in signal_for
          (if touched_low \<and> range_low < close then Some BUY
           else if touched_high \<and> close < range_high then Some SELL else None)
          (\<lambda>action. signal_of action close atr (srv_stop_atr s) (srv_reward_risk s) (srv_confidence s))))))))))"

record breakout =
  brk_definition :: strategy_definition
  brk_minimum_volume_ratio :: pyfloat
  brk_stop_atr :: pyfloat
  brk_reward_risk :: pyfloat
  brk_confidence :: pyfloat

definition brk_default :: "strategy_definition \<Rightarrow> breakout" where
  "brk_default d =
     \<lparr>brk_definition = d, brk_minimum_volume_ratio = rnd64 (13 / 10),
      brk_stop_atr = rnd64 (12 / 10), brk_reward_risk = Fin 2, brk_confidence = rnd64 (55 / 100)\<rparr>"

definition brk_required :: "string list" where
  "brk_required = [''close'', ''range_high_20'', ''range_low_20'', ''atr_14'', ''volume_ratio_20'']"

definition brk_compatibility :: "breakout \<Rightarrow> strategy_context \<Rightarrow> bool \<times> string" where
  "brk_compatibility s = compatibility_of (brk_definition s) brk_required (Some [''COMPRESSION''])"

definition brk_generate :: "breakout \<Rightarrow> strategy_context \<Rightarrow> strategy_signal option result" where
  "brk_generate s c =
     (if \<not> fst (brk_compatibility s c) then Inr None else
     bind_r (feature_at c ''volume_ratio_20'') (\<lambda>volume_ratio.
     bind_r (feature_at c ''close'') (\<lambda>close.
     bind_r (feature_at c ''range_high_20'') (\<lambda>range_high.
     bind_r (feature_at c ''range_low_20'') (\<lambda>range_low.
     bind_r (feature_at c ''atr_14'') (\<lambda>atr.
     if volume_ratio < brk_minimum_volume_ratio s then Inr None
     else
     signal_for
       (if range_high < close then Some BUY else if close < range_low then Some SELL else None)
       (\<lambda>action. signal_of action close atr (brk_stop_atr s) (brk_reward_risk s) (brk_confidence s))))))))"

record opening_range_breakout =
  orb_definition :: strategy_definition
  orb_stop_atr :: pyfloat
  orb_reward_risk :: pyfloat
  orb_confidence :: pyfloat

definition orb_default :: "strategy_definition \<Rightarrow> opening_range_breakout" where
  "orb_default d =
     \<lparr>orb_definition = d, orb_stop_atr = 1, orb_reward_risk = rnd64 (18 / 10),
      orb_confidence = rnd64 (6 / 10)\<rparr>"

definition orb_required :: "string list" where
  "orb_required = [''close'', ''opening_range_high'', ''opening_range_low'', ''atr_14'']"

definition orb_compatibility :: "opening_range_breakout \<Rightarrow> strategy_context \<Rightarrow> bool \<times> string" where
  "orb_compatibility s = compatibility_of (orb_definition s) orb_required (Some [''COMPRESSION''])"

definition orb_generate :: "opening_range_breakout \<Rightarrow> strategy_context \<Rightarrow> strategy_signal option result" where
  "orb_generate s c =
     (if \<not> fst (orb_compatibility s c) then Inr None else
     bind_r (feature_at c ''close'') (\<lambda>close.
     bind_r (feature_at c ''opening_range_high'') (\<lambda>range_high.
     bind_r (feature_at c ''opening_range_low'') (\<lambda>range_low.
     bind_r (feature_at c ''atr_14'') (\<lambda>atr.
     signal_for
       (if range_high < close then Some BUY else if close < range_low then Some SELL else None)
       (\<lambda>action. signal_of action close atr (orb_stop_atr s) (orb_reward_risk s) (orb_confidence s)))))))"

record volume_breakout =
  vbk_definition :: strategy_definition
  vbk_minimum_volume_ratio :: pyfloat
  vbk_stop_atr :: pyfloat
  vbk_reward_risk :: pyfloat
  vbk_confidence :: pyfloat

definition vbk_default :: "strategy_definition \<Rightarrow> volume_breakout" where
  "vbk_default d =
     \<lparr>vbk_definition = d, vbk_minimum_volume_ratio = Fin 2, vbk_stop_atr = 1,
      vbk_reward_risk = rnd64 (18 / 10), vbk_confidence = rnd64 (55 / 100)\<rparr>"

definition vbk_required :: "string list" where
  "vbk_required = [''close'', ''range_high_5'', ''range_low_5'', ''atr_14'', ''volume_ratio_20'']"

definition vbk_compatibility :: "volume_breakout \<Rightarrow> strategy_context \<Rightarrow> bool \<times> string" where
  "vbk_compatibility s = compatibility_of (vbk_definition s) vbk_required (Some [''COMPRESSION''])"

definition vbk_generate :: "volume_breakout \<Rightarrow> strategy_context \<Rightarrow> strategy_signal option result" where
  "vbk_generate s c =
     (if \<not> fst (vbk_compatibility s c) then Inr None else
     bind_r (feature_at c ''volume_ratio_20'') (\<lambda>volume_ratio.
     bind_r (feature_at c ''close'') (\<lambda>close.
     bind_r (feature_at c ''range_high_5'') (\<lambda>range_high.
     bind_r (feature_at c ''range_low_5'') (\<lambda>range_low.
     bind_r (feature_at c ''atr_14'') (\<lambda>atr.
     if volume_ratio < vbk_minimum_volume_ratio s then Inr None
     else
     signal_for
       (if range_high < close then Some BUY else if close < range_low then Some SELL else None)
       (\<lambda>action. signal_of action close atr (vbk_stop_atr s) (vbk_reward_risk s) (vbk_confidence s))))))))"

section \<open>The union and the shipped strategies\<close>

datatype technical_strategy =
    VwapPullback vwap_pullback
  | EmaRsiContinuation ema_rsi_continuation
  | SuperTrendAdx supertrend_adx
  | MeanReversion mean_reversion
  | RangeReversal range_reversal
  | SupportReversal support_reversal
  | Breakout breakout
  | OpeningRangeBreakout opening_range_breakout
  | VolumeBreakout volume_breakout

fun technical_definition :: "technical_strategy \<Rightarrow> strategy_definition" where
  "technical_definition (VwapPullback s) = vwap_definition s"
| "technical_definition (EmaRsiContinuation s) = erc_definition s"
| "technical_definition (SuperTrendAdx s) = sta_definition s"
| "technical_definition (MeanReversion s) = mrv_definition s"
| "technical_definition (RangeReversal s) = rrv_definition s"
| "technical_definition (SupportReversal s) = srv_definition s"
| "technical_definition (Breakout s) = brk_definition s"
| "technical_definition (OpeningRangeBreakout s) = orb_definition s"
| "technical_definition (VolumeBreakout s) = vbk_definition s"

fun technical_compatibility :: "technical_strategy \<Rightarrow> strategy_context \<Rightarrow> bool \<times> string" where
  "technical_compatibility (VwapPullback s) = vwap_compatibility s"
| "technical_compatibility (EmaRsiContinuation s) = erc_compatibility s"
| "technical_compatibility (SuperTrendAdx s) = sta_compatibility s"
| "technical_compatibility (MeanReversion s) = mrv_compatibility s"
| "technical_compatibility (RangeReversal s) = rrv_compatibility s"
| "technical_compatibility (SupportReversal s) = srv_compatibility s"
| "technical_compatibility (Breakout s) = brk_compatibility s"
| "technical_compatibility (OpeningRangeBreakout s) = orb_compatibility s"
| "technical_compatibility (VolumeBreakout s) = vbk_compatibility s"

fun technical_generate :: "technical_strategy \<Rightarrow> strategy_context \<Rightarrow> strategy_signal option result" where
  "technical_generate (VwapPullback s) = vwap_generate s"
| "technical_generate (EmaRsiContinuation s) = erc_generate s"
| "technical_generate (SuperTrendAdx s) = sta_generate s"
| "technical_generate (MeanReversion s) = mrv_generate s"
| "technical_generate (RangeReversal s) = rrv_generate s"
| "technical_generate (SupportReversal s) = srv_generate s"
| "technical_generate (Breakout s) = brk_generate s"
| "technical_generate (OpeningRangeBreakout s) = orb_generate s"
| "technical_generate (VolumeBreakout s) = vbk_generate s"

definition technical_plugin :: "nat \<Rightarrow> technical_strategy \<Rightarrow> strategy_plugin" where
  "technical_plugin object s =
     \<lparr>sp_object = object, sp_definition = technical_definition s,
      sp_compatibility = (\<lambda>c. Inr (technical_compatibility s c)), sp_generate = technical_generate s\<rparr>"

definition make_definition ::
  "market \<Rightarrow> string \<Rightarrow> string \<Rightarrow> string \<Rightarrow> (string \<times> string) list \<Rightarrow> string \<Rightarrow> strategy_definition result" where
  "make_definition m strategy_id timeframe family parameters implementation =
     bind_r (strategy_identity_post_init
       \<lparr>si_market = m, si_strategy_id = strategy_id, si_strategy_version = ''1.0.0'', si_timeframe = timeframe,
        si_trade_horizon = ''intraday'', si_feature_set_version = technical_feature_version\<rparr>) (\<lambda>identity.
     strategy_definition_post_init
       \<lparr>sd_identity = identity, sd_family = family, sd_parameters = parameters,
        sd_implementation_ref = implementation\<rparr>)"

definition technical_strategies :: "technical_strategy list result" where
  "technical_strategies =
     map_r (\<lambda>(build, d). bind_r d (\<lambda>d. Inr (build d)))
       (map (\<lambda>m. (\<lambda>d. VwapPullback (vwap_default d), make_definition m ''vwap_pullback'' ''5m'' ''mean_reversion''
             [(''pullback_tolerance'', ''0.0015''), (''minimum_volume_ratio'', ''0.8'')] ''nanodelta.strategies.technical:VwapPullbackStrategy''))
          [NSE, CRYPTO]
        @ map (\<lambda>m. (\<lambda>d. EmaRsiContinuation (erc_default d), make_definition m ''ema_rsi_continuation'' ''15m'' ''momentum''
             [(''ema_fast'', ''9''), (''ema_slow'', ''21''), (''rsi_period'', ''14'')] ''nanodelta.strategies.technical:EmaRsiContinuationStrategy''))
          all_markets
        @ map (\<lambda>(m, timeframe). (\<lambda>d. SuperTrendAdx (sta_default d), make_definition m ''supertrend_adx'' timeframe ''trend''
             [(''atr_period'', ''14''), (''atr_multiplier'', ''3''), (''adx_period'', ''14'')] ''nanodelta.strategies.technical:SuperTrendAdxStrategy''))
          [(NSE, ''15m''), (FOREX, ''1h''), (CRYPTO, ''15m'')]
        @ [(\<lambda>d. MeanReversion (mrv_default d), make_definition NSE ''mean_reversion_rsi'' ''15m'' ''mean_reversion_rsi''
             [(''oversold_rsi'', ''30''), (''overbought_rsi'', ''70'')] ''nanodelta.strategies.technical:MeanReversionStrategy''),
           (\<lambda>d. RangeReversal (rrv_default d), make_definition NSE ''range_reversal'' ''15m'' ''range_reversal''
             [(''range_period'', ''20''), (''touch_tolerance_pct'', ''0.002'')] ''nanodelta.strategies.technical:RangeReversalStrategy''),
           (\<lambda>d. SupportReversal (srv_default d), make_definition NSE ''support_reversal'' ''15m'' ''support_reversal''
             [(''range_period'', ''10''), (''minimum_volume_ratio'', ''1.2'')] ''nanodelta.strategies.technical:SupportReversalStrategy''),
           (\<lambda>d. Breakout (brk_default d), make_definition NSE ''breakout'' ''15m'' ''breakout''
             [(''range_period'', ''20''), (''minimum_volume_ratio'', ''1.3'')] ''nanodelta.strategies.technical:BreakoutStrategy''),
           (\<lambda>d. OpeningRangeBreakout (orb_default d), make_definition NSE ''opening_range_breakout'' ''15m'' ''orb''
             [(''opening_range_minutes'', ''15'')] ''nanodelta.strategies.technical:OpeningRangeBreakoutStrategy''),
           (\<lambda>d. VolumeBreakout (vbk_default d), make_definition NSE ''volume_breakout'' ''15m'' ''volume_breakout''
             [(''range_period'', ''5''), (''minimum_volume_ratio'', ''2.0'')] ''nanodelta.strategies.technical:VolumeBreakoutStrategy'')])"

section \<open>Every signal is sound\<close>

definition sound_signal :: "strategy_context \<Rightarrow> strategy_signal \<Rightarrow> bool" where
  "sound_signal c g \<longleftrightarrow> strategy_signal_post_init g = Inr g
     \<and> map_of (sc_features c) ''close'' = Some (sg_reference_price g)
     \<and> sg_confidence g \<le> rnd64 (95 / 100) \<and> sg_estimated_cost_r g = rnd64 (5 / 100)"

lemma feature_at_Inr: "feature_at c k = Inr v \<longleftrightarrow> map_of (sc_features c) k = Some v"
  by (auto simp: feature_at_def split: option.splits)

lemma post_init_signal_Inr: "strategy_signal_post_init s = Inr g \<Longrightarrow> g = s"
  by (auto simp: strategy_signal_post_init_def split: if_splits)

lemma confidence_cap: "\<exists>r. rnd64 (95 / 100) = Fin r \<and> 0 < r \<and> r \<le> 1"
  by (rule literal_between [of "- 1" "95 / 100"]) (auto simp: power_int_minus field_simps)

lemma clamp_confidence:
  "\<exists>r. py_max 0 (py_min x (rnd64 (95 / 100))) = Fin r \<and> 0 \<le> r \<and> r \<le> 1 \<and> Fin r \<le> rnd64 (95 / 100)"
proof -
  obtain u where u: "rnd64 (95 / 100) = Fin u" "0 < u" "u \<le> 1" using confidence_cap by auto
  show ?thesis unfolding u(1) using u(2,3) by (cases x) (auto simp: py_max_def py_min_def zero_pyfloat_def)
qed

lemma post_init_sound:
  assumes "strategy_signal_post_init s = Inr g" and "map_of (sc_features c) ''close'' = Some (sg_reference_price s)"
    and "sg_confidence s \<le> rnd64 (95 / 100)" and "sg_estimated_cost_r s = rnd64 (5 / 100)"
  shows "sound_signal c g"
  using assms post_init_signal_Inr [OF assms(1)] by (simp add: sound_signal_def)

lemma clamped_le: "py_max 0 (py_min x (rnd64 (95 / 100))) \<le> rnd64 (95 / 100)"
  using clamp_confidence [of x] by auto

lemma signal_of_sound:
  assumes "signal_of a close atr k rr x = Inr g" and "map_of (sc_features c) ''close'' = Some close"
  shows "sound_signal c g"
  using assms(2) clamped_le [of x] by (intro post_init_sound [OF assms(1) [unfolded signal_of_def Let_def]]) simp_all

lemma signal_for_sound:
  "signal_for a mk = Inr (Some g) \<Longrightarrow> (\<And>b. mk b = Inr g \<Longrightarrow> sound_signal c g) \<Longrightarrow> sound_signal c g"
  by (auto simp: signal_for_def split: option.splits)

lemma pullback_sound: "vwap_generate s c = Inr (Some g) \<Longrightarrow> sound_signal c g"
  by (auto simp: feature_at_Inr vwap_generate_def Let_def split: if_splits elim!: signal_for_sound signal_of_sound)

lemma continuation_sound: "erc_generate s c = Inr (Some g) \<Longrightarrow> sound_signal c g"
  by (auto simp: feature_at_Inr erc_generate_def split: if_splits elim!: signal_for_sound signal_of_sound)

lemma supertrend_sound: "sta_generate s c = Inr (Some g) \<Longrightarrow> sound_signal c g"
  by (auto simp: feature_at_Inr sta_generate_def split: if_splits elim!: signal_for_sound signal_of_sound)

lemma reversion_sound: "mrv_generate s c = Inr (Some g) \<Longrightarrow> sound_signal c g"
  using clamped_le
  by (auto simp: feature_at_Inr mrv_generate_def Let_def split: if_splits option.splits elim!: post_init_sound)

lemma range_reversal_sound: "rrv_generate s c = Inr (Some g) \<Longrightarrow> sound_signal c g"
  by (auto simp: feature_at_Inr rrv_generate_def Let_def split: if_splits elim!: signal_for_sound signal_of_sound)

lemma support_reversal_sound: "srv_generate s c = Inr (Some g) \<Longrightarrow> sound_signal c g"
  by (auto simp: feature_at_Inr srv_generate_def Let_def split: if_splits elim!: signal_for_sound signal_of_sound)

lemma breakout_sound: "brk_generate s c = Inr (Some g) \<Longrightarrow> sound_signal c g"
  by (auto simp: feature_at_Inr brk_generate_def split: if_splits elim!: signal_for_sound signal_of_sound)

lemma opening_range_sound: "orb_generate s c = Inr (Some g) \<Longrightarrow> sound_signal c g"
  by (auto simp: feature_at_Inr orb_generate_def split: if_splits elim!: signal_for_sound signal_of_sound)

lemma volume_breakout_sound: "vbk_generate s c = Inr (Some g) \<Longrightarrow> sound_signal c g"
  by (auto simp: feature_at_Inr vbk_generate_def split: if_splits elim!: signal_for_sound signal_of_sound)

lemmas generate_sound = pullback_sound continuation_sound supertrend_sound reversion_sound
  range_reversal_sound support_reversal_sound breakout_sound opening_range_sound volume_breakout_sound

lemma technical_generate_sound: "technical_generate s c = Inr (Some g) \<Longrightarrow> sound_signal c g"
  by (cases s) (auto dest: generate_sound)

end
