(* ===== verification/Technical_Total.thy ===== *)
theory Technical_Total
  imports Technical
begin

text \<open>
  The strategies as one family: the contract every strategy class fulfils, that no
  strategy raises on ordinary prices, the regime that routes to it, and the fate of the
  strategies in the evaluation of src/src/nanodelta/strategies/evaluation.py.
\<close>

section \<open>Signals are made without an error\<close>

text \<open>
  The range of values in which no price overflows or underflows: prices and features
  within 900 binary orders of magnitude.
\<close>

definition magnitude :: int where
  "magnitude = 900"

definition ordinary :: "rat \<Rightarrow> bool" where
  "ordinary x \<longleftrightarrow> is_f64 x \<and> \<bar>x\<bar> \<le> 2 powi magnitude"

lemma magnitude_bounds: "900 \<le> magnitude" "magnitude \<le> 900"
  by (simp_all add: magnitude_def)

lemma rnd64_bounded:
  assumes "\<bar>q\<bar> \<le> 2 powi k" and "- 1074 \<le> k" and "k < 1024"
  obtains r where "rnd64 q = Fin r" and "\<bar>r\<bar> \<le> 2 powi k" and "is_f64 r"
proof -
  obtain r where "rnd64 q = Fin r" "- (2 powi k) \<le> r" "r \<le> 2 powi k" "is_f64 r"
    by (rule rnd64_Fin_between [of "- (2 powi k)" "2 powi k" q])
      (use assms in \<open>auto intro!: is_f64_powi is_f64_minus simp: abs_le_iff\<close>)
  then show ?thesis by (intro that) (auto simp: abs_le_iff)
qed

lemma float_times_bounded:
  assumes "\<bar>x\<bar> \<le> 2 powi k" and "\<bar>y\<bar> \<le> 2" and "- 1074 \<le> k" and "k < 1023"
  obtains r where "Fin x * Fin y = Fin r" and "\<bar>r\<bar> \<le> 2 powi (k + 1)" and "is_f64 r" and "rnd64 (x * y) = Fin r"
proof -
  have "\<bar>x * y\<bar> \<le> 2 powi k * 2" unfolding abs_mult using assms(1,2) by (intro mult_mono) auto
  then have "\<bar>x * y\<bar> \<le> 2 powi (k + 1)" by (simp add: power_int_add)
  then obtain r where "rnd64 (x * y) = Fin r" "\<bar>r\<bar> \<le> 2 powi (k + 1)" "is_f64 r"
    by (rule rnd64_bounded) (use assms(3,4) in simp_all)
  then show ?thesis by (intro that) simp_all
qed

lemma rnd64_ge: "rnd64 q = Fin r \<Longrightarrow> is_f64 a \<Longrightarrow> a \<le> q \<Longrightarrow> a \<le> r"
  using rnd64_mono [of a q] by (simp add: rnd64_f64)

lemma rnd64_Fin_round: "rnd64 q = Fin r \<Longrightarrow> r = round_rat q"
  by (auto simp: rnd64_def Let_def split: if_splits)

text \<open>The stop distance of a signal: at least one part in 2048 of the price, and finite.\<close>

lemma stop_distance:
  assumes c: "ordinary c" "2 powi e \<le> c" "- magnitude \<le> e" and a: "ordinary a" and k: "\<bar>k\<bar> \<le> 2"
  obtains d where "py_max (Fin a * Fin k) (Fin c * rnd64 (5 / 10000)) = Fin d"
    and "2 powi (e - 11) \<le> d" and "d \<le> 2 powi (magnitude + 1)" and "is_f64 d"
proof -
  obtain v where v: "rnd64 (5 / 10000) = Fin v" "2 powi (- 11) \<le> v" "v \<le> 2 powi (- 11 + 1)"
    by (rule literal_between [of "- 11" "5 / 10000"]) (auto simp: power_int_minus field_simps)
  have v2: "\<bar>v\<bar> \<le> 2" "0 < v" using v(2,3) by (auto simp: power_int_minus field_simps)
  obtain x where x: "Fin c * Fin v = Fin x" "\<bar>x\<bar> \<le> 2 powi (magnitude + 1)" "is_f64 x" "rnd64 (c * v) = Fin x"
    by (rule float_times_bounded [of c magnitude v]) (use c(1) v2 magnitude_bounds in \<open>simp_all add: ordinary_def\<close>)
  obtain y where y: "Fin a * Fin k = Fin y" "\<bar>y\<bar> \<le> 2 powi (magnitude + 1)" "is_f64 y" "rnd64 (a * k) = Fin y"
    by (rule float_times_bounded [of a magnitude k]) (use a k magnitude_bounds in \<open>simp_all add: ordinary_def\<close>)
  have c0: "0 < c" using c(2) powi2_pos [of e] by linarith
  have "(2 powi e * 2 powi (- 11) :: rat) \<le> c * v"
    using c(2) v(2) powi2_pos [of e] c0 by (intro mult_mono) (auto simp: less_imp_le)
  then have cv: "2 powi (e - 11) \<le> c * v" using power_int_add [of "2 :: rat" e "- 11"] by simp
  have "(2 powi e :: rat) \<le> 2 powi magnitude" using c(1,2) unfolding ordinary_def by linarith
  then have "e \<le> magnitude" by (simp only: powi2_le_iff)
  then have "is_f64 (2 powi (e - 11))" using c(3) magnitude_bounds by (intro is_f64_powi) linarith+
  then have "2 powi (e - 11) \<le> x" using cv by (rule rnd64_ge [OF x(4)])
  then show ?thesis
    using that [of "max y x"] x y unfolding v(1) by (cases "y < x") (auto simp: py_max_def)
qed

lemma shifted_price:
  assumes c: "ordinary c" "2 powi e \<le> c" "c < 2 powi (e + 1)" "- magnitude \<le> e"
    and s: "2 powi (e - 52) \<le> s" "s \<le> 2 powi (magnitude + 2)"
  obtains h l where "Fin c + Fin s = Fin h" and "Fin c - Fin s = Fin l" and "l < c" and "c < h"
proof -
  have f: "is_f64 c" "\<bar>c\<bar> \<le> 2 powi magnitude" using c(1) by (auto simp: ordinary_def)
  have big: "(2 powi magnitude :: rat) + 2 powi (magnitude + 2) \<le> 2 powi (magnitude + 3)"
    using powi2_grid [of magnitude "magnitude + 2"] powi2_grid [of magnitude "magnitude + 3"] by simp
  have s0: "0 < s" using s(1) powi2_pos [of "e - 52"] by linarith
  have b: "\<bar>c + s\<bar> \<le> 2 powi (magnitude + 3)" "\<bar>c - s\<bar> \<le> 2 powi (magnitude + 3)"
    using f(2) s(2) s0 big by (auto simp: abs_le_iff)
  have m: "- 1074 \<le> magnitude + 3" "magnitude + 3 < 1024" using magnitude_bounds by linarith+
  obtain h where h: "rnd64 (c + s) = Fin h" by (rule rnd64_bounded [OF b(1) m])
  obtain l where l: "rnd64 (c - s) = Fin l" by (rule rnd64_bounded [OF b(2) m])
  have "c < round_rat (c + s)" "round_rat (c - s) < c"
    by (rule float_add_strict [OF f(1) c(2,3) _ s(1)], use c(4) magnitude_bounds in linarith)+
  then show ?thesis using h l by (intro that) (auto simp: minus_pyfloat_def dest: rnd64_Fin_round)
qed

lemma post_init_valid:
  assumes "a = BUY \<and> st < r \<and> r < tg \<or> a = SELL \<and> tg < r \<and> r < st" and "0 < r" and "0 \<le> cf" and "cf \<le> 1" and "0 \<le> q"
  shows "\<exists>g. strategy_signal_post_init \<lparr>sg_action = a, sg_confidence = Fin cf, sg_reference_price = Fin r,
    sg_stop_price = Fin st, sg_target_price = Fin tg, sg_estimated_cost_r = Fin q,
    sg_historical_expectancy_r = 0, sg_ml_tilt_r = 0\<rparr> = Inr g \<and> sg_action g = a"
  using assms by (cases a) (simp_all add: strategy_signal_post_init_def one_pyfloat_def zero_pyfloat_def)

lemma signal_of_total:
  assumes "ordinary c" "2 powi (- magnitude) \<le> c" "ordinary a" "\<bar>k\<bar> \<le> 2" "1 \<le> w" "w \<le> 2" "act \<noteq> ABSTAIN"
  shows "\<exists>g. signal_of act (Fin c) (Fin a) (Fin k) (Fin w) x = Inr g \<and> sg_action g = act"
proof -
  have c0: "0 < c" using assms(2) powi2_pos [of "- magnitude"] by linarith
  define e where "e = ilog2 c"
  have e: "2 powi e \<le> c" "c < 2 powi (e + 1)" unfolding e_def by (fact ilog2_bounds [OF c0])+
  have "(2 powi (- magnitude) :: rat) < 2 powi (e + 1)" using assms(2) e(2) by linarith
  then have em: "- magnitude \<le> e" by (simp only: powi2_less_iff)
  obtain d where d: "py_max (Fin a * Fin k) (Fin c * rnd64 (5 / 10000)) = Fin d"
    "2 powi (e - 11) \<le> d" "d \<le> 2 powi (magnitude + 1)" "is_f64 d"
    by (rule stop_distance [OF assms(1) e(1) em assms(3,4)])
  have d0: "0 < d" using d(2) powi2_pos [of "e - 11"] by linarith
  obtain t where t: "Fin d * Fin w = Fin t" "\<bar>t\<bar> \<le> 2 powi (magnitude + 1 + 1)" "is_f64 t" "rnd64 (d * w) = Fin t"
    by (rule float_times_bounded [of d "magnitude + 1" w]) (use d(3) d0 assms(5,6) magnitude_bounds in simp_all)
  have "d \<le> d * w" using mult_left_mono [OF assms(5), of d] d0 by simp
  then have td: "d \<le> t" using rnd64_ge [OF t(4) d(4)] by simp
  have u: "(2 powi (e - 52) :: rat) \<le> 2 powi (e - 11)" by (simp only: powi2_le_iff)
  have "(2 powi (magnitude + 1) :: rat) \<le> 2 powi (magnitude + 2)" by (simp only: powi2_le_iff)
  then have ds: "2 powi (e - 52) \<le> d" "d \<le> 2 powi (magnitude + 2)" "2 powi (e - 52) \<le> t" "t \<le> 2 powi (magnitude + 2)"
    using d(2,3) u td t(2) by (auto simp: add.commute [of 2])
  obtain hd ld where hd: "Fin c + Fin d = Fin hd" "Fin c - Fin d = Fin ld" "ld < c" "c < hd"
    by (rule shifted_price [OF assms(1) e em ds(1,2)])
  obtain ht lt where ht: "Fin c + Fin t = Fin ht" "Fin c - Fin t = Fin lt" "lt < c" "c < ht"
    by (rule shifted_price [OF assms(1) e em ds(3,4)])
  obtain r where r: "py_max 0 (py_min x (rnd64 (95 / 100))) = Fin r" "0 \<le> r" "r \<le> 1"
    using clamp_confidence by blast
  obtain q where q: "rnd64 (5 / 100) = Fin q" "2 powi (- 5) \<le> q"
    by (rule literal_between [of "- 5" "5 / 100"]) (auto simp: power_int_minus field_simps)
  have q0: "0 < q" using q(2) powi2_pos [of "- 5"] by linarith
  show ?thesis
    unfolding signal_of_def Let_def d(1) t(1) hd(1,2) ht(1,2) r(1) q(1)
    using r(2,3) q0 c0 hd(3,4) ht(3,4) assms(7) by (cases act) (auto intro!: post_init_valid)
qed
definition ordinary_context :: "strategy_context \<Rightarrow> bool" where
  "ordinary_context c \<longleftrightarrow> (\<forall>(k, v) \<in> set (sc_features c). \<exists>r. v = Fin r \<and> ordinary r
     \<and> (k = ''close'' \<longrightarrow> 2 powi (- magnitude) \<le> r))"

text \<open>A strategy's stop and target multiples, as every shipped strategy has them.\<close>

definition sane_multiples :: "pyfloat \<Rightarrow> pyfloat \<Rightarrow> bool" where
  "sane_multiples k w \<longleftrightarrow> (\<exists>k' w'. k = Fin k' \<and> \<bar>k'\<bar> \<le> 2 \<and> w = Fin w' \<and> 1 \<le> w' \<and> w' \<le> 2)"

lemma compatible_label:
  assumes "fst (compatibility_of d required (Some [label]) c)"
  shows "compatibility_of d required (Some [label]) c = (True, ''COMPATIBLE'')"
    and "re_symbol_regime_label (sc_regime c) = label"
  using assms by (auto simp: compatibility_of_def Let_def split: if_splits)

lemma compatible_features:
  assumes "fst (compatibility_of d required labels c)" and "k \<in> set required"
  obtains v where "map_of (sc_features c) k = Some v"
proof -
  have "set required \<subseteq> set (map fst (sc_features c))"
    using assms(1) by (simp add: compatibility_of_def Let_def split: if_splits)
  then have "map_of (sc_features c) k \<noteq> None" using assms(2) by (auto simp: map_of_eq_None_iff)
  then show ?thesis using that by blast
qed

lemma read_all:
  assumes "fst (compatibility_of d required labels c)" and "ordinary_context c" and "''close'' \<in> set required"
  obtains f where "\<forall>k \<in> set required. feature_at c k = Inr (Fin (f k)) \<and> ordinary (f k)"
    and "2 powi (- magnitude) \<le> f ''close''" and "f ''close'' \<noteq> 0"
proof -
  have read: "\<exists>r. feature_at c k = Inr (Fin r) \<and> ordinary r \<and> (k = ''close'' \<longrightarrow> 2 powi (- magnitude) \<le> r)"
    if k: "k \<in> set required" for k
  proof -
    obtain v where v: "map_of (sc_features c) k = Some v" by (rule compatible_features [OF assms(1) k])
    then have "(k, v) \<in> set (sc_features c)" by (rule map_of_SomeD)
    then show ?thesis using assms(2) v by (fastforce simp: ordinary_context_def feature_at_Inr)
  qed
  then obtain f where f: "\<forall>k \<in> set required. feature_at c k = Inr (Fin (f k)) \<and> ordinary (f k)
      \<and> (k = ''close'' \<longrightarrow> 2 powi (- magnitude) \<le> f k)" by metis
  moreover have "2 powi (- magnitude) \<le> f ''close''" using f assms(3) by blast
  moreover from this have "0 < f ''close''" using powi2_pos [of "- magnitude"] by linarith
  ultimately show ?thesis by (intro that) auto
qed

lemma signal_for_total:
  assumes "act \<noteq> Some ABSTAIN" and "\<And>a. a \<noteq> ABSTAIN \<Longrightarrow> \<exists>g. mk a = Inr g"
  shows "\<exists>x. signal_for act mk = Inr x"
proof (cases act)
  case (Some a)
  then obtain g where "mk a = Inr g" using assms by blast
  then show ?thesis by (simp add: signal_for_def Some)
qed (simp add: signal_for_def)

lemma signal_of_returns:
  assumes "ordinary c" "2 powi (- magnitude) \<le> c" "ordinary a" "sane_multiples k w" "act \<noteq> ABSTAIN"
  shows "\<exists>g. signal_of act (Fin c) (Fin a) k w x = Inr g"
proof -
  obtain k' w' where "k = Fin k'" "\<bar>k'\<bar> \<le> 2" "w = Fin w'" "1 \<le> w'" "w' \<le> 2"
    using assms(4) by (auto simp: sane_multiples_def)
  then show ?thesis using signal_of_total [OF assms(1-3) _ _ _ assms(5)] by blast
qed

text \<open>
  What every strategy class promises: it stays silent in a context it is not compatible
  with, its signals are sound, and where it can read its features it returns.
\<close>

locale routed_strategy =
  fixes d :: strategy_definition and required :: "string list" and label :: string
    and sane :: bool and generate :: "strategy_context \<Rightarrow> strategy_signal option result"
  assumes incompatible: "\<not> fst (compatibility_of d required (Some [label]) c) \<Longrightarrow> generate c = Inr None"
    and sound: "generate c = Inr (Some g) \<Longrightarrow> sound_signal c g"
    and returns: "\<lbrakk>fst (compatibility_of d required (Some [label]) c); sane;
         \<forall>k \<in> set required. feature_at c k = Inr (Fin (f k)) \<and> ordinary (f k);
         2 powi (- magnitude) \<le> f ''close''; f ''close'' \<noteq> 0\<rbrakk> \<Longrightarrow> \<exists>x. generate c = Inr x"
    and reads_close: "''close'' \<in> set required"
begin

lemma total:
  assumes "sane" and "ordinary_context c"
  shows "\<exists>x. generate c = Inr x"
proof (cases "fst (compatibility_of d required (Some [label]) c)")
  case True
  then show ?thesis using returns [OF True assms(1)] read_all [OF True assms(2) reads_close] by metis
qed (simp add: incompatible)

lemma routed:
  assumes "generate c = Inr (Some g)"
  shows "compatibility_of d required (Some [label]) c = (True, ''COMPATIBLE'')"
    and "re_symbol_regime_label (sc_regime c) = label"
  using assms incompatible [of c] compatible_label [of d required label c] by auto

end

interpretation vwap: routed_strategy "vwap_definition s" vwap_required "''TRENDING''"
  "sane_multiples (vwap_stop_atr s) (vwap_reward_risk s)" "vwap_generate s" for s
  by unfold_locales
    (erule pullback_sound | (auto simp: vwap_generate_def vwap_compatibility_def vwap_required_def Let_def py_div_def zero_pyfloat_def
      intro!: signal_for_total signal_of_returns)[1])+

interpretation erc: routed_strategy "erc_definition s" erc_required "''TRENDING''"
  "sane_multiples (erc_stop_atr s) (erc_reward_risk s)" "erc_generate s" for s
  by unfold_locales
    (erule continuation_sound | (auto simp: erc_generate_def erc_compatibility_def erc_required_def Let_def py_div_def zero_pyfloat_def
      intro!: signal_for_total signal_of_returns)[1])+

interpretation sta: routed_strategy "sta_definition s" sta_required "''TRENDING''"
  "sane_multiples (sta_stop_atr s) (sta_reward_risk s)" "sta_generate s" for s
  by unfold_locales
    (erule supertrend_sound | (auto simp: sta_generate_def sta_compatibility_def sta_required_def Let_def py_div_def zero_pyfloat_def
      intro!: signal_for_total signal_of_returns)[1])+

interpretation rrv: routed_strategy "rrv_definition s" rrv_required "''RANGING''"
  "sane_multiples (rrv_stop_atr s) (rrv_reward_risk s)" "rrv_generate s" for s
  by unfold_locales
    (erule range_reversal_sound | (auto simp: rrv_generate_def rrv_compatibility_def rrv_required_def Let_def py_div_def zero_pyfloat_def
      intro!: signal_for_total signal_of_returns)[1])+

interpretation srv: routed_strategy "srv_definition s" srv_required "''RANGING''"
  "sane_multiples (srv_stop_atr s) (srv_reward_risk s)" "srv_generate s" for s
  by unfold_locales
    (erule support_reversal_sound | (auto simp: srv_generate_def srv_compatibility_def srv_required_def Let_def py_div_def zero_pyfloat_def
      intro!: signal_for_total signal_of_returns)[1])+

interpretation brk: routed_strategy "brk_definition s" brk_required "''COMPRESSION''"
  "sane_multiples (brk_stop_atr s) (brk_reward_risk s)" "brk_generate s" for s
  by unfold_locales
    (erule breakout_sound | (auto simp: brk_generate_def brk_compatibility_def brk_required_def Let_def py_div_def zero_pyfloat_def
      intro!: signal_for_total signal_of_returns)[1])+

interpretation orb: routed_strategy "orb_definition s" orb_required "''COMPRESSION''"
  "sane_multiples (orb_stop_atr s) (orb_reward_risk s)" "orb_generate s" for s
  by unfold_locales
    (erule opening_range_sound | (auto simp: orb_generate_def orb_compatibility_def orb_required_def Let_def py_div_def zero_pyfloat_def
      intro!: signal_for_total signal_of_returns)[1])+

interpretation vbk: routed_strategy "vbk_definition s" vbk_required "''COMPRESSION''"
  "sane_multiples (vbk_stop_atr s) (vbk_reward_risk s)" "vbk_generate s" for s
  by unfold_locales
    (erule volume_breakout_sound | (auto simp: vbk_generate_def vbk_compatibility_def vbk_required_def Let_def py_div_def zero_pyfloat_def
      intro!: signal_for_total signal_of_returns)[1])+

lemma bind_returns: "\<exists>g. r = Inr g \<Longrightarrow> \<exists>x. bind_r r (\<lambda>g. Inr (f g)) = Inr x"
  by auto

text \<open>Mean reversion takes its target from the mean and checks the geometry itself.\<close>

lemma reversion_returns:
  assumes "fst (mrv_compatibility s c)" and k: "\<exists>k. mrv_stop_atr s = Fin k \<and> \<bar>k\<bar> \<le> 2"
    and f: "\<forall>k \<in> set mrv_required. feature_at c k = Inr (Fin (f k)) \<and> ordinary (f k)"
    and c: "2 powi (- magnitude) \<le> f ''close''"
  shows "\<exists>x. mrv_generate s c = Inr x"
proof -
  let ?c = "f ''close''" and ?a = "f ''atr_14''" and ?m = "f ''ema_21''"
  obtain k where k: "mrv_stop_atr s = Fin k" "\<bar>k\<bar> \<le> 2" using k by blast
  have o: "ordinary ?c" "ordinary ?a" using f by (auto simp: mrv_required_def)
  have c0: "0 < ?c" using c powi2_pos [of "- magnitude"] by linarith
  define e where "e = ilog2 ?c"
  have e: "2 powi e \<le> ?c" "?c < 2 powi (e + 1)" unfolding e_def by (fact ilog2_bounds [OF c0])+
  have "(2 powi (- magnitude) :: rat) < 2 powi (e + 1)" using c e(2) by linarith
  then have em: "- magnitude \<le> e" by (simp only: powi2_less_iff)
  obtain d where d: "py_max (Fin ?a * Fin k) (Fin ?c * rnd64 (5 / 10000)) = Fin d"
    "2 powi (e - 11) \<le> d" "d \<le> 2 powi (magnitude + 1)"
    by (rule stop_distance [OF o(1) e(1) em o(2) k(2)])
  have "(2 powi (e - 52) :: rat) \<le> 2 powi (e - 11)" "(2 powi (magnitude + 1) :: rat) \<le> 2 powi (magnitude + 2)"
    by (simp_all only: powi2_le_iff)
  then have ds: "2 powi (e - 52) \<le> d" "d \<le> 2 powi (magnitude + 2)" using d(2,3) by (auto intro: order.trans)
  obtain h l where hl: "Fin ?c + Fin d = Fin h" "Fin ?c - Fin d = Fin l" by (rule shifted_price [OF o(1) e em ds])
  have d': "py_max (Fin k * Fin ?a) (Fin ?c * rnd64 (5 / 10000)) = Fin d" using d(1) by (simp add: mult.commute)
  obtain q where q: "rnd64 (5 / 100) = Fin q" "2 powi (- 5) \<le> q"
    by (rule literal_between [of "- 5" "5 / 100"]) (auto simp: power_int_minus field_simps)
  have q0: "0 < q" using q(2) powi2_pos [of "- 5"] by linarith
  have s: "\<exists>g. strategy_signal_post_init \<lparr>sg_action = act, sg_confidence = py_max 0 (py_min x (rnd64 (95 / 100))),
        sg_reference_price = Fin ?c, sg_stop_price = Fin st, sg_target_price = Fin ?m, sg_estimated_cost_r = rnd64 (5 / 100),
        sg_historical_expectancy_r = 0, sg_ml_tilt_r = 0\<rparr> = Inr g"
    if "act = BUY \<and> st < ?c \<and> ?c < ?m \<or> act = SELL \<and> ?m < ?c \<and> ?c < st" for act st x
    using clamp_confidence [of x] post_init_valid [OF that c0, of _ q] q0 unfolding q(1) by fastforce
  have g: "feature_at c ''close'' = Inr (Fin ?c)" "feature_at c ''rsi_14'' = Inr (Fin (f ''rsi_14''))"
    "feature_at c ''atr_14'' = Inr (Fin ?a)" "feature_at c ''ema_21'' = Inr (Fin ?m)"
    using f by (simp_all add: mrv_required_def)
  show ?thesis
    using assms(1) unfolding mrv_generate_def g k(1) bind_r_simps d' hl Let_def
    by (simp add: py_div_def) (auto intro!: bind_returns s [simplified])
qed

interpretation mrv: routed_strategy "mrv_definition s" mrv_required "''RANGING''"
  "\<exists>k. mrv_stop_atr s = Fin k \<and> \<bar>k\<bar> \<le> 2" "mrv_generate s" for s
proof (unfold_locales, goal_cases)
  case (1 c)
  then show ?case by (simp add: mrv_generate_def mrv_compatibility_def)
next
  case (2 c g)
  then show ?case by (rule reversion_sound)
next
  case (3 c f)
  then show ?case by (intro reversion_returns [of s c f]) (simp_all add: mrv_compatibility_def)
qed (simp add: mrv_required_def)

section \<open>All technical strategies\<close>

text \<open>The regime a strategy is routed by.\<close>

fun technical_label :: "technical_strategy \<Rightarrow> string" where
  "technical_label (VwapPullback s) = ''TRENDING''"
| "technical_label (EmaRsiContinuation s) = ''TRENDING''"
| "technical_label (SuperTrendAdx s) = ''TRENDING''"
| "technical_label (MeanReversion s) = ''RANGING''"
| "technical_label (RangeReversal s) = ''RANGING''"
| "technical_label (SupportReversal s) = ''RANGING''"
| "technical_label (Breakout s) = ''COMPRESSION''"
| "technical_label (OpeningRangeBreakout s) = ''COMPRESSION''"
| "technical_label (VolumeBreakout s) = ''COMPRESSION''"

fun technical_required :: "technical_strategy \<Rightarrow> string list" where
  "technical_required (VwapPullback s) = vwap_required"
| "technical_required (EmaRsiContinuation s) = erc_required"
| "technical_required (SuperTrendAdx s) = sta_required"
| "technical_required (MeanReversion s) = mrv_required"
| "technical_required (RangeReversal s) = rrv_required"
| "technical_required (SupportReversal s) = srv_required"
| "technical_required (Breakout s) = brk_required"
| "technical_required (OpeningRangeBreakout s) = orb_required"
| "technical_required (VolumeBreakout s) = vbk_required"

fun technical_sane :: "technical_strategy \<Rightarrow> bool" where
  "technical_sane (VwapPullback s) = sane_multiples (vwap_stop_atr s) (vwap_reward_risk s)"
| "technical_sane (EmaRsiContinuation s) = sane_multiples (erc_stop_atr s) (erc_reward_risk s)"
| "technical_sane (SuperTrendAdx s) = sane_multiples (sta_stop_atr s) (sta_reward_risk s)"
| "technical_sane (MeanReversion s) = (\<exists>k. mrv_stop_atr s = Fin k \<and> \<bar>k\<bar> \<le> 2)"
| "technical_sane (RangeReversal s) = sane_multiples (rrv_stop_atr s) (rrv_reward_risk s)"
| "technical_sane (SupportReversal s) = sane_multiples (srv_stop_atr s) (srv_reward_risk s)"
| "technical_sane (Breakout s) = sane_multiples (brk_stop_atr s) (brk_reward_risk s)"
| "technical_sane (OpeningRangeBreakout s) = sane_multiples (orb_stop_atr s) (orb_reward_risk s)"
| "technical_sane (VolumeBreakout s) = sane_multiples (vbk_stop_atr s) (vbk_reward_risk s)"

lemmas compatibility_defs = vwap_compatibility_def erc_compatibility_def sta_compatibility_def
  mrv_compatibility_def rrv_compatibility_def srv_compatibility_def brk_compatibility_def
  orb_compatibility_def vbk_compatibility_def

lemma technical_compatibility_eq:
  "technical_compatibility s
     = compatibility_of (technical_definition s) (technical_required s) (Some [technical_label s])"
  by (cases s) (simp_all add: compatibility_defs)

interpretation tech: routed_strategy "technical_definition s" "technical_required s" "technical_label s"
  "technical_sane s" "technical_generate s" for s
  by (cases s) (simp_all add: vwap.routed_strategy_axioms erc.routed_strategy_axioms sta.routed_strategy_axioms
    mrv.routed_strategy_axioms rrv.routed_strategy_axioms srv.routed_strategy_axioms brk.routed_strategy_axioms
    orb.routed_strategy_axioms vbk.routed_strategy_axioms)

lemma technical_labels: "technical_label s \<in> {''TRENDING'', ''RANGING'', ''COMPRESSION''}"
  by (cases s) simp_all

lemma make_definition_intraday:
  assumes "make_definition m i t fam ps impl = Inr d"
  shows "sd_identity d = \<lparr>si_market = m, si_strategy_id = i, si_strategy_version = ''1.0.0'', si_timeframe = t,
    si_trade_horizon = ''intraday'', si_feature_set_version = 2\<rparr>"
  using assms by (auto simp: make_definition_def strategy_identity_post_init_def strategy_definition_post_init_def
      technical_feature_version_def split: if_splits)

lemma default_multiples:
  "sane_multiples (vwap_stop_atr (vwap_default d)) (vwap_reward_risk (vwap_default d))"
  "sane_multiples (erc_stop_atr (erc_default d)) (erc_reward_risk (erc_default d))"
  "sane_multiples (sta_stop_atr (sta_default d)) (sta_reward_risk (sta_default d))"
  "\<exists>k. mrv_stop_atr (mrv_default d) = Fin k \<and> \<bar>k\<bar> \<le> 2"
  "sane_multiples (rrv_stop_atr (rrv_default d)) (rrv_reward_risk (rrv_default d))"
  "sane_multiples (srv_stop_atr (srv_default d)) (srv_reward_risk (srv_default d))"
  "sane_multiples (brk_stop_atr (brk_default d)) (brk_reward_risk (brk_default d))"
  "sane_multiples (orb_stop_atr (orb_default d)) (orb_reward_risk (orb_default d))"
  "sane_multiples (vbk_stop_atr (vbk_default d)) (vbk_reward_risk (vbk_default d))"
proof -
  have two: "\<exists>r. rnd64 q = Fin r \<and> 1 \<le> r \<and> r \<le> 2 \<and> \<bar>r\<bar> \<le> 2" if "1 \<le> q" "q \<le> 2" for q
    by (rule literal_between [of 0 q]) (use that in auto)
  have "\<exists>r. rnd64 (8 / 10) = Fin r \<and> \<bar>r\<bar> \<le> 2"
    by (rule literal_between [of "- 1" "8 / 10"]) (auto simp: power_int_minus)
  then show
    "sane_multiples (vwap_stop_atr (vwap_default d)) (vwap_reward_risk (vwap_default d))"
    "sane_multiples (erc_stop_atr (erc_default d)) (erc_reward_risk (erc_default d))"
    "sane_multiples (sta_stop_atr (sta_default d)) (sta_reward_risk (sta_default d))"
    "\<exists>k. mrv_stop_atr (mrv_default d) = Fin k \<and> \<bar>k\<bar> \<le> 2"
    "sane_multiples (rrv_stop_atr (rrv_default d)) (rrv_reward_risk (rrv_default d))"
    "sane_multiples (srv_stop_atr (srv_default d)) (srv_reward_risk (srv_default d))"
    "sane_multiples (brk_stop_atr (brk_default d)) (brk_reward_risk (brk_default d))"
    "sane_multiples (orb_stop_atr (orb_default d)) (orb_reward_risk (orb_default d))"
    "sane_multiples (vbk_stop_atr (vbk_default d)) (vbk_reward_risk (vbk_default d))"
    using two [of "12 / 10"] two [of "15 / 10"] two [of "13 / 10"] two [of "18 / 10"]
    by (auto simp: sane_multiples_def vwap_default_def erc_default_def sta_default_def mrv_default_def
        rrv_default_def srv_default_def brk_default_def orb_default_def vbk_default_def one_pyfloat_def)
qed

lemma technical_strategies_sane:
  "technical_strategies = Inr ss \<Longrightarrow> s \<in> set ss \<Longrightarrow> technical_sane s"
  by (auto simp: technical_strategies_def all_markets_def default_multiples)

text \<open>
  C26: Technical strategies keep running.  On a context whose features are within 900 binary
  orders of magnitude and whose close is positive, every shipped strategy returns instead of
  raising, although it divides by prices and the constructor of a signal checks the geometry
  after rounding; and what it returns, if anything, is a signal at the close with a stop and
  a target on the right sides and a confidence of at most 0.95, in a context it declared
  itself compatible with.
\<close>

theorem technical_strategies_return:
  assumes "technical_strategies = Inr ss" and "s \<in> set ss" and "ordinary_context c"
  shows "\<exists>x. technical_generate s c = Inr x \<and> (\<forall>g. x = Some g \<longrightarrow>
     sound_signal c g \<and> technical_compatibility s c = (True, ''COMPATIBLE''))"
proof -
  obtain x where x: "technical_generate s c = Inr x"
    using tech.total [OF technical_strategies_sane [OF assms(1,2)] assms(3)] by blast
  then show ?thesis using tech.sound [of s c] tech.routed(1) [of s c] by (auto simp: technical_compatibility_eq)
qed

section \<open>Evaluation of the technical strategies\<close>

lemma evaluate_pairs_silent:
  assumes "\<And>c nxt. (c, nxt) \<in> set ps \<Longrightarrow> sp_compatibility p c = Inr (False, r c)"
  shows "evaluate_pairs p n cost ps e = Inr e"
  using assms
proof (induction ps)
  case (Cons x ps)
  then have "evaluate_pair p n cost x e = Inr e" 
    using Cons.prems [of "fst x" "snd x"] by (cases x) (simp add: evaluate_pair_def)
  then show ?case using Cons by auto
qed simp

lemma evaluation_context_label:
  "evaluation_context m h row = Inr c \<Longrightarrow> re_symbol_regime_label (sc_regime c) = ''UNKNOWN''"
  by (auto simp: evaluation_context_def strategy_context_post_init_def default_regime_def split: if_splits)

lemma unknown_regime_silent:
  assumes "re_symbol_regime_label (sc_regime c) = ''UNKNOWN''"
  shows "\<not> fst (technical_compatibility s c)"
  using assms technical_labels [of s] compatible_label(2) unfolding technical_compatibility_eq by force

text \<open>
  The evaluator of strategies/evaluation.py cannot validate a technical strategy.  It
  builds its contexts with the default regime, whose label is UNKNOWN, while every technical
  strategy requires a trending, ranging or compressed regime: whatever the rows are, no
  trade is simulated and the validation is recorded as failed for too few trades.
\<close>

theorem technical_never_validated:
  assumes "evaluate_plugin (technical_plugin n s) policy cost hypotheses evaluated_at rows reg = (Inr result, reg')"
    and "validation_policy_post_init policy = Inr policy"
  shows "vm_trade_count (vr_metrics result) = 0 \<and> \<not> vr_passed result
     \<and> ''INSUFFICIENT_TRADES'' \<in> set (vr_rejection_reasons result)"
proof -
  obtain contexts where contexts: "load_contexts (technical_plugin n s) rows = Inr contexts"
    and ev: "evaluate_strategy (technical_plugin n s) policy cost hypotheses evaluated_at contexts reg = (Inr result, reg')"
    using assms(1) by (auto simp: evaluate_plugin_def split: if_splits)
  have "re_symbol_regime_label (sc_regime c) = ''UNKNOWN''" if "c \<in> set contexts" for c
    using contexts that
    by (auto simp: load_contexts_def Let_def map_r_Inr_iff list_all2_conv_all_nth in_set_conv_nth dest: evaluation_context_label)
  then have "\<not> fst (technical_compatibility s c)" if "c \<in> set contexts" for c
    using that unknown_regime_silent by blast
  then have "sp_compatibility (technical_plugin n s) c = Inr (False, snd (technical_compatibility s c))"
    if "(c, nxt) \<in> set (zip contexts (tl contexts))" for c nxt
    using that by (auto simp: technical_plugin_def prod_eq_iff dest: set_zip_leftD)
  then have silent: "evaluate_pairs (technical_plugin n s) (int (length contexts)) cost (zip contexts (tl contexts))
      (evaluation_start policy) = Inr (evaluation_start policy)"
    by (rule evaluate_pairs_silent)
  obtain m where m: "evaluate_metrics (technical_plugin n s) policy cost hypotheses contexts = Inr m"
    and v: "validate_strategy (sd_identity (sp_definition (technical_plugin n s))) m policy evaluated_at = Inr result"
    using ev by (auto simp: evaluate_strategy_def split: if_splits)
  have "vm_trade_count m = 0"
    using m silent by (auto simp: evaluate_metrics_def metrics_of_def evaluation_start_def Let_def)
  moreover have "1 \<le> vp_minimum_trades policy"
    using assms(2) by (auto simp: validation_policy_post_init_def split: if_splits)
  ultimately show ?thesis using v
    by (auto simp: validate_strategy_def validation_reasons_def Let_def split: if_splits)
qed

section \<open>Examples\<close>

definition ex_breakout :: strategy_definition where
  "ex_breakout = \<lparr>sd_identity = \<lparr>si_market = NSE, si_strategy_id = ''breakout'', si_strategy_version = ''1.0.0'',
     si_timeframe = ''15m'', si_trade_horizon = ''intraday'', si_feature_set_version = 2\<rparr>, sd_family = ''breakout'',
     sd_parameters = [(''range_period'', ''20''), (''minimum_volume_ratio'', ''1.3'')],
     sd_implementation_ref = ''nanodelta.strategies.technical:BreakoutStrategy''\<rparr>"

lemma str_strip_Cons: "\<not> is_space c \<Longrightarrow> str_strip (c # s) \<noteq> []"
  by (auto simp: str_strip_def dropWhile_eq_Nil_conv)

lemma make_definition_Inr:
  assumes "str_strip i \<noteq> []" and "str_strip t \<noteq> []" and "str_strip fam \<noteq> []" and "str_strip impl \<noteq> []"
    and "distinct (map fst ps)"
  shows "make_definition m i t fam ps impl = Inr \<lparr>sd_identity = \<lparr>si_market = m, si_strategy_id = i,
     si_strategy_version = ''1.0.0'', si_timeframe = t, si_trade_horizon = ''intraday'', si_feature_set_version = 2\<rparr>,
     sd_family = fam, sd_parameters = ps, sd_implementation_ref = impl\<rparr>"
  using assms str_strip_Cons [of "CHR ''1''"] str_strip_Cons [of "CHR ''i''"]
  by (simp add: make_definition_def strategy_identity_post_init_def strategy_definition_post_init_def
      technical_feature_version_def is_space_def)

lemma shipped_strategies:
  "\<exists>ss. technical_strategies = Inr ss \<and> length ss = 14
     \<and> distinct (map (\<lambda>s. sd_identity (technical_definition s)) ss)
     \<and> Breakout (brk_default ex_breakout) \<in> set ss"
  by (simp add: technical_strategies_def all_markets_def make_definition_Inr str_strip_Cons is_space_def
    vwap_default_def erc_default_def sta_default_def mrv_default_def rrv_default_def srv_default_def brk_default_def
    orb_default_def vbk_default_def ex_breakout_def)

definition ex_compressed :: strategy_context where
  "ex_compressed = \<lparr>sc_market = NSE, sc_symbol = ''TCS'', sc_sector = None, sc_timeframe = ''15m'',
     sc_trade_horizon = ''intraday'', sc_feature_set_version = 2, sc_event_time = Aware 0,
     sc_gold_snapshot_ids = [''g''], sc_features = [(''close'', Fin 128), (''range_high_20'', Fin 120),
       (''range_low_20'', Fin 110), (''atr_14'', Fin 1), (''volume_ratio_20'', Fin 2)],
     sc_settled = True, sc_complete = True, sc_adjusted = True, sc_fresh = True, sc_warm = True,
     sc_tradeable = True, sc_tradeability_reason = ''TRADEABLE'',
     sc_regime = default_regime\<lparr>re_symbol_regime_label := ''COMPRESSION''\<rparr>\<rparr>"

lemma ordinary_numeral: "(numeral n :: int) \<le> 2 ^ 53 \<Longrightarrow> ordinary (numeral n)"
proof -
  assume n: "(numeral n :: int) \<le> 2 ^ 53"
  then have "(numeral n :: rat) \<le> 2 ^ 53" by (metis of_int_le_iff of_int_numeral of_int_power)
  also have "\<dots> \<le> 2 powi magnitude" using powi2_le_iff [of 53 magnitude] magnitude_bounds by simp
  finally show ?thesis using is_f64_numeral [OF n] by (simp add: ordinary_def)
qed

lemma ordinary_one: "ordinary 1"
  using is_f64_int [of 1] powi2_le_iff [of 0 magnitude] magnitude_bounds by (simp add: ordinary_def)

lemma ex_compressed_ordinary: "ordinary_context ex_compressed"
proof -
  have "(2 powi (- magnitude) :: rat) \<le> 2 powi 7" using magnitude_bounds by (simp only: powi2_le_iff)
  then show ?thesis by (simp add: ordinary_context_def ex_compressed_def ordinary_numeral ordinary_one)
qed

lemma ex_breakout_speaks: "technical_generate (Breakout (brk_default ex_breakout)) ex_compressed \<noteq> Inr None"
proof -
  obtain r where "rnd64 (13 / 10) = Fin r" "r \<le> 2"
    by (rule literal_between [of 0 "13 / 10"]) auto
  then show ?thesis
    by (auto simp: brk_generate_def brk_compatibility_def brk_required_def brk_default_def compatibility_of_def
        ex_compressed_def ex_breakout_def feature_at_def signal_for_def bind_r_def split: sum.splits)
qed

theorem technical_strategies_return_witness:
  "\<exists>g. technical_generate (Breakout (brk_default ex_breakout)) ex_compressed = Inr (Some g)
     \<and> sound_signal ex_compressed g"
proof -
  obtain ss where ss: "technical_strategies = Inr ss" "Breakout (brk_default ex_breakout) \<in> set ss"
    using shipped_strategies by blast
  then show ?thesis using technical_strategies_return [OF ss ex_compressed_ordinary] ex_breakout_speaks by auto
qed

definition ex_gold :: "gold_row list" where
  "ex_gold = [\<lparr>gr_record_id = ''g'', gr_symbol = ''TCS'', gr_timeframe = ''15m'', gr_event_time = Aware 0,
     gr_feature_version = 2, gr_features = [(''close'', JInt 2)]\<rparr>]"

lemma ex_gold_contexts: "\<exists>cs. load_contexts (technical_plugin 0 (Breakout (brk_default ex_breakout))) ex_gold = Inr cs
   \<and> length cs = 1"
  by (simp add: load_contexts_def ex_gold_def evaluation_context_def json_float_numeral strategy_context_post_init_def
      technical_plugin_def Let_def brk_default_def ex_breakout_def)

theorem technical_never_validated_witness:
  "\<exists>result reg'. evaluate_plugin (technical_plugin 0 (Breakout (brk_default ex_breakout))) ex_sparse_policy 0 1 (Aware 9) ex_gold
       \<lparr>rg_definitions = [(sd_identity ex_breakout, ex_breakout)], rg_validations = [], rg_approvals = []\<rparr> = (Inr result, reg')
     \<and> \<not> vr_passed result"
proof -
  let ?p = "technical_plugin 0 (Breakout (brk_default ex_breakout))"
  have d: "sp_definition ?p = ex_breakout" by (simp add: technical_plugin_def brk_default_def)
  obtain c where c: "load_contexts ?p ex_gold = Inr [c]" using ex_gold_contexts by (auto simp: length_Suc_conv)
  have m: "evaluate_metrics ?p ex_sparse_policy 0 1 [c] = Inr \<lparr>vm_trade_count = 0, vm_walk_forward_windows = 2,
      vm_profitable_windows = 0, vm_gross_expectancy = 0, vm_estimated_cost_per_trade = 0, vm_maximum_drawdown = 0,
      vm_p_value = 1, vm_tested_hypotheses = 1\<rparr>" (is "_ = Inr ?m")
    by (simp add: evaluate_metrics_def metrics_of_def evaluation_start_def ex_sparse_policy_def maximum_drawdown_def
        one_sided_sign_test_def numeral_2_eq_2 zero_pyfloat_def)
  obtain result where v: "validate_strategy (sd_identity ex_breakout) ?m ex_sparse_policy (Aware 9) = Inr result"
    and r: "vr_identity result = sd_identity ex_breakout"
    by (simp add: validate_strategy_def Let_def one_pyfloat_def zero_pyfloat_def)
  have "\<exists>reg'. evaluate_plugin ?p ex_sparse_policy 0 1 (Aware 9) ex_gold
       \<lparr>rg_definitions = [(sd_identity ex_breakout, ex_breakout)], rg_validations = [], rg_approvals = []\<rparr> = (Inr result, reg')"
    using m v r
    by (simp add: evaluate_plugin_def evaluate_strategy_def c bind_st_def lift_st_def return_st_def record_validation_def d)
  moreover have "validation_policy_post_init ex_sparse_policy = Inr ex_sparse_policy"
    by (simp add: validation_policy_post_init_def ex_sparse_policy_def one_pyfloat_def zero_pyfloat_def)
  ultimately show ?thesis using technical_never_validated by blast
qed

end
