(* ===== verification/Technical_Features.thy ===== *)
theory Technical_Features
  imports Strategy_Runtime
begin

text \<open>
  The technical indicators of src/src/nanodelta/strategies/technical_features.py: moving
  averages, RSI, ATR, ADX, SuperTrend, session VWAP, rolling and opening ranges, and the
  warm feature snapshots made of them.  A series is a list with one optional value per
  candle.  The timestamps are in UTC, as the stores return them, so the date of a candle is
  its UTC date.

  Every series is causal: its values up to a candle are the series of the candles up to
  there.  The locale \<open>causal\<close> states it, and the theorem on snapshots rests on its
  interpretations.
\<close>

section \<open>Candles and loops\<close>

record technical_candle =
  tc_event_time :: datetime
  tc_open :: pyfloat
  tc_high :: pyfloat
  tc_low :: pyfloat
  tc_close :: pyfloat
  tc_volume :: pyfloat
  tc_settled :: bool

definition technical_candle_post_init :: "technical_candle \<Rightarrow> technical_candle result" where
  "technical_candle_post_init c =
     (if (case tc_event_time c of Naive _ \<Rightarrow> True | Aware _ \<Rightarrow> False)
        then Inl (ValueError ''technical candle timestamp must be timezone-aware'')
      else if tc_open c \<le> 0 \<or> tc_close c \<le> 0 \<or> tc_low c \<le> 0 \<or> tc_high c < tc_low c
        then Inl (ValueError ''technical candle prices are invalid'')
      else if tc_high c < py_max (tc_open c) (tc_close c) \<or> py_min (tc_open c) (tc_close c) < tc_low c
        then Inl (ValueError ''technical candle OHLC is inconsistent'')
      else if tc_volume c < 0 then Inl (ValueError ''technical candle volume cannot be negative'')
      else Inr c)"

fun instant_of :: "datetime \<Rightarrow> instant" where
  "instant_of (Aware t) = t"
| "instant_of (Naive t) = t"

definition candle_time :: "technical_candle \<Rightarrow> instant" where
  "candle_time c = instant_of (tc_event_time c)"

text \<open>
  The loops of the module: a smoothing that starts from the mean of the first values
  (\<open>smoothed\<close>), a loop over the candles with a state (\<open>stateful\<close>), and a value computed at
  every index (\<open>indexed\<close>).
\<close>

fun scan :: "('b \<Rightarrow> 'a \<Rightarrow> 'b) \<Rightarrow> 'b \<Rightarrow> 'a list \<Rightarrow> 'b list" where
  "scan f current [] = [current]"
| "scan f current (v # vs) = current # scan f (f current v) vs"

definition smoothed :: "(pyfloat \<Rightarrow> pyfloat \<Rightarrow> pyfloat) \<Rightarrow> nat \<Rightarrow> pyfloat list \<Rightarrow> pyfloat option list" where
  "smoothed f period values =
     (if length values < period then replicate (length values) None
      else replicate (period - 1) None
         @ map Some (scan f (fquot (py_sum (take period values)) (float_of_int (int period))) (drop period values)))"

fun stateful :: "('s \<Rightarrow> 'a \<Rightarrow> 'b \<times> 's) \<Rightarrow> 's \<Rightarrow> 'a list \<Rightarrow> 'b list" where
  "stateful f s [] = []"
| "stateful f s (x # xs) = (let (y, s') = f s x in y # stateful f s' xs)"

definition indexed :: "('a list \<Rightarrow> nat \<Rightarrow> 'b) \<Rightarrow> 'a list \<Rightarrow> 'b list" where
  "indexed g xs = map (g xs) [0..<length xs]"

text \<open>\<open>max(...)\<close> and \<open>min(...)\<close> of a non-empty sequence.\<close>

definition max_of :: "pyfloat list \<Rightarrow> pyfloat" where
  "max_of xs = foldl py_max (hd xs) (tl xs)"

definition min_of :: "pyfloat list \<Rightarrow> pyfloat" where
  "min_of xs = foldl py_min (hd xs) (tl xs)"

section \<open>Indicators\<close>

definition ema :: "nat \<Rightarrow> pyfloat list \<Rightarrow> pyfloat option list" where
  "ema period = smoothed (\<lambda>current v. current + rnd64 (2 / of_nat (period + 1)) * (v - current)) period"

definition wilder_step :: "nat \<Rightarrow> pyfloat \<Rightarrow> pyfloat \<Rightarrow> pyfloat" where
  "wilder_step period current v =
     fquot (current * float_of_int (int period - 1) + v) (float_of_int (int period))"

definition wilder :: "nat \<Rightarrow> pyfloat list \<Rightarrow> pyfloat option list" where
  "wilder period = smoothed (wilder_step period) period"

definition rsi_value :: "pyfloat \<Rightarrow> pyfloat \<Rightarrow> pyfloat result" where
  "rsi_value gain loss =
     (if py_eq loss 0 then Inr (Fin 100)
      else bind_r (py_div gain loss) (\<lambda>q. bind_r (py_div (Fin 100) (1 + q)) (\<lambda>r. Inr (Fin 100 - r))))"

definition rsi_at :: "pyfloat option \<times> pyfloat option \<Rightarrow> pyfloat option result" where
  "rsi_at = (\<lambda>(gain, loss). case (gain, loss) of
     (Some g, Some l) \<Rightarrow> bind_r (rsi_value g l) (\<lambda>v. Inr (Some v))
   | _ \<Rightarrow> Inr None)"

definition changes :: "pyfloat list \<Rightarrow> pyfloat list" where
  "changes closes = map (\<lambda>(previous, current). current - previous) (zip closes (tl closes))"

definition rsi :: "nat \<Rightarrow> pyfloat list \<Rightarrow> pyfloat option list result" where
  "rsi period closes =
     (if closes = [] then Inr []
      else bind_r (map_r rsi_at (zip (wilder period (map (\<lambda>d. py_max d 0) (changes closes)))
                                     (wilder period (map (\<lambda>d. py_max (- d) 0) (changes closes)))))
             (\<lambda>rs. Inr (None # rs)))"

text \<open>The candle before each candle; the first one is its own predecessor.\<close>

definition with_previous :: "technical_candle list \<Rightarrow> (technical_candle \<times> technical_candle) list" where
  "with_previous cs = zip (hd cs # cs) cs"

definition true_range :: "technical_candle \<times> technical_candle \<Rightarrow> pyfloat" where
  "true_range = (\<lambda>(previous, c). py_max (py_max (tc_high c - tc_low c) \<bar>tc_high c - tc_close previous\<bar>)
     \<bar>tc_low c - tc_close previous\<bar>)"

definition directional :: "nat \<Rightarrow> technical_candle \<times> technical_candle \<Rightarrow> pyfloat \<times> pyfloat" where
  "directional i = (\<lambda>(previous, c).
     let up = tc_high c - tc_high previous; down = tc_low previous - tc_low c in
     (if i \<noteq> 0 \<and> down < up \<and> 0 < up then up else 0, if i \<noteq> 0 \<and> up < down \<and> 0 < down then down else 0))"

definition directionals :: "technical_candle list \<Rightarrow> (pyfloat \<times> pyfloat) list" where
  "directionals cs = indexed (\<lambda>ps i. directional i (ps ! i)) (with_previous cs)"

definition or_zero :: "pyfloat option \<Rightarrow> pyfloat" where
  "or_zero v = (case v of None \<Rightarrow> 0 | Some x \<Rightarrow> x)"

definition dx_at :: "pyfloat option \<times> pyfloat option \<times> pyfloat option \<Rightarrow> pyfloat option" where
  "dx_at = (\<lambda>(average_range, plus, minus). case average_range of
     None \<Rightarrow> None
   | Some a \<Rightarrow>
       if py_eq a 0 then None
       else (let plus_di = fquot (Fin 100 * or_zero plus) a; minus_di = fquot (Fin 100 * or_zero minus) a;
                 sum = plus_di + minus_di
             in Some (if py_eq sum 0 then 0 else fquot (Fin 100 * \<bar>plus_di - minus_di\<bar>) sum)))"

text \<open>The smoothed values of the available entries, put back at their positions.\<close>

definition available :: "'a option list \<Rightarrow> 'a list" where
  "available ds = map the (filter (\<lambda>d. d \<noteq> None) ds)"

fun spread :: "'a option list \<Rightarrow> 'b option list \<Rightarrow> 'b option list" where
  "spread (None # ds) rs = None # spread ds rs"
| "spread (Some _ # ds) (r # rs) = r # spread ds rs"
| "spread _ _ = []"

definition atr :: "nat \<Rightarrow> technical_candle list \<Rightarrow> pyfloat option list" where
  "atr period cs = wilder period (map true_range (with_previous cs))"

definition dx :: "nat \<Rightarrow> technical_candle list \<Rightarrow> pyfloat option list" where
  "dx period cs = map dx_at (zip (wilder period (map true_range (with_previous cs)))
     (zip (wilder period (map fst (directionals cs))) (wilder period (map snd (directionals cs)))))"

definition adx :: "nat \<Rightarrow> technical_candle list \<Rightarrow> pyfloat option list" where
  "adx period cs = spread (dx period cs) (wilder period (available (dx period cs)))"

record supertrend_state =
  ss_upper :: "pyfloat option"
  ss_lower :: "pyfloat option"
  ss_trend :: "pyfloat option"

definition supertrend_step ::
  "pyfloat \<Rightarrow> supertrend_state \<Rightarrow> (technical_candle \<times> technical_candle) \<times> pyfloat option
     \<Rightarrow> (pyfloat option \<times> pyfloat option) \<times> supertrend_state" where
  "supertrend_step multiplier s = (\<lambda>((previous, c), average_range). case average_range of
     None \<Rightarrow> ((None, None), s)
   | Some a \<Rightarrow>
       (let midpoint = fquot (tc_high c + tc_low c) (Fin 2);
            basic_upper = midpoint + multiplier * a;
            basic_lower = midpoint - multiplier * a;
            upper = (case ss_upper s of None \<Rightarrow> basic_upper
                     | Some u \<Rightarrow> if basic_upper < u \<or> u < tc_close previous then basic_upper else u);
            lower = (case ss_lower s of None \<Rightarrow> basic_lower
                     | Some l \<Rightarrow> if l < basic_lower \<or> tc_close previous < l then basic_lower else l);
            trend = (case ss_trend s of
                None \<Rightarrow> if midpoint \<le> tc_close c then lower else upper
              | Some t \<Rightarrow>
                  if (case ss_upper s of None \<Rightarrow> False | Some u \<Rightarrow> py_eq t u)
                  then (if upper < tc_close c then lower else upper)
                  else (if tc_close c < lower then upper else lower))
        in ((Some trend, Some (if trend < tc_close c then 1 else - 1)),
            \<lparr>ss_upper = Some upper, ss_lower = Some lower, ss_trend = Some trend\<rparr>)))"

definition supertrend ::
  "pyfloat \<Rightarrow> nat \<Rightarrow> technical_candle list \<Rightarrow> (pyfloat option \<times> pyfloat option) list" where
  "supertrend multiplier atr_period cs =
     stateful (supertrend_step multiplier) \<lparr>ss_upper = None, ss_lower = None, ss_trend = None\<rparr>
       (zip (with_previous cs) (atr atr_period cs))"

definition session_date :: "technical_candle \<Rightarrow> int" where
  "session_date c = candle_time c div us_per_day"

record vwap_state =
  vs_session :: "int option"
  vs_weighted :: pyfloat
  vs_volume :: pyfloat

definition vwap_step :: "vwap_state \<Rightarrow> technical_candle \<Rightarrow> pyfloat option \<times> vwap_state" where
  "vwap_step s c =
     (let s' = (if vs_session s = Some (session_date c) then s
                else \<lparr>vs_session = Some (session_date c), vs_weighted = 0, vs_volume = 0\<rparr>);
          typical = fquot (tc_high c + tc_low c + tc_close c) (Fin 3);
          weighted = vs_weighted s' + typical * tc_volume c;
          volume = vs_volume s' + tc_volume c
      in (if 0 < volume then Some (fquot weighted volume) else None,
          \<lparr>vs_session = Some (session_date c), vs_weighted = weighted, vs_volume = volume\<rparr>))"

definition vwap :: "technical_candle list \<Rightarrow> pyfloat option list" where
  "vwap = stateful vwap_step \<lparr>vs_session = None, vs_weighted = 0, vs_volume = 0\<rparr>"

definition volume_ratio_at :: "nat \<Rightarrow> technical_candle list \<Rightarrow> nat \<Rightarrow> pyfloat option" where
  "volume_ratio_at period cs i =
     (let window = drop (i + 1 - period) (take (i + 1) cs);
          average = fquot (py_sum (map tc_volume window)) (float_of_int (int (length window)))
      in if 0 < average then Some (fquot (tc_volume (cs ! i)) average) else None)"

definition rolling_range_at :: "nat \<Rightarrow> technical_candle list \<Rightarrow> nat \<Rightarrow> (pyfloat \<times> pyfloat) option" where
  "rolling_range_at period cs i =
     (if i < period then None
      else let window = take period (drop (i - period) cs)
           in Some (max_of (map tc_high window), min_of (map tc_low window)))"

definition opening_range_at :: "int \<Rightarrow> technical_candle list \<Rightarrow> nat \<Rightarrow> (pyfloat \<times> pyfloat) option" where
  "opening_range_at minutes cs i =
     (let c = cs ! i;
          session_open = session_date c * us_per_day + (3 * 3600 + 45 * 60) * us_per_second;
          window_end = session_open + minutes * 60 * us_per_second;
          window = filter (\<lambda>p. session_date p = session_date c \<and> session_open \<le> candle_time p
                               \<and> candle_time p < window_end) (take i cs)
      in if window \<noteq> [] \<and> window_end \<le> candle_time c
         then Some (max_of (map tc_high window), min_of (map tc_low window)) else None)"

section \<open>Snapshots\<close>

record technical_snapshot =
  ts_event_time :: datetime
  ts_values :: "(string, pyfloat) dict"
  ts_feature_set_version :: int

record indicator_row =
  ir_candle :: technical_candle
  ir_ema_9 :: "pyfloat option"
  ir_ema_21 :: "pyfloat option"
  ir_rsi :: "pyfloat option"
  ir_atr :: "pyfloat option"
  ir_adx :: "pyfloat option"
  ir_supertrend :: "pyfloat option \<times> pyfloat option"
  ir_vwap :: "pyfloat option"
  ir_volume_ratio :: "pyfloat option"
  ir_range_20 :: "(pyfloat \<times> pyfloat) option"
  ir_range_10 :: "(pyfloat \<times> pyfloat) option"
  ir_range_5 :: "(pyfloat \<times> pyfloat) option"
  ir_opening :: "(pyfloat \<times> pyfloat) option"

definition range_values :: "string \<Rightarrow> string \<Rightarrow> (pyfloat \<times> pyfloat) option \<Rightarrow> (string, pyfloat) dict" where
  "range_values high low r = (case r of None \<Rightarrow> [] | Some (h, l) \<Rightarrow> [(high, h), (low, l)])"

definition snapshot_of :: "indicator_row \<Rightarrow> technical_snapshot option result" where
  "snapshot_of r =
     (let c = ir_candle r in
      case (ir_ema_9 r, ir_ema_21 r, ir_rsi r, ir_atr r, ir_adx r, ir_supertrend r, ir_vwap r, ir_volume_ratio r) of
        (Some e9, Some e21, Some rs, Some a, Some x, (Some st, Some dr), Some vw, Some vr) \<Rightarrow>
          bind_r (py_div (tc_close c - tc_open c) (tc_open c)) (\<lambda>body.
          Inr (Some \<lparr>ts_event_time = tc_event_time c,
            ts_values = [(''close'', tc_close c), (''high'', tc_high c), (''low'', tc_low c), (''body_pct'', body),
              (''ema_9'', e9), (''ema_21'', e21), (''rsi_14'', rs), (''atr_14'', a), (''adx_14'', x),
              (''supertrend'', st), (''supertrend_direction'', dr), (''vwap'', vw), (''volume_ratio_20'', vr)]
              @ range_values ''range_high_20'' ''range_low_20'' (ir_range_20 r)
              @ range_values ''range_high_10'' ''range_low_10'' (ir_range_10 r)
              @ range_values ''range_high_5'' ''range_low_5'' (ir_range_5 r)
              @ range_values ''opening_range_high'' ''opening_range_low'' (ir_opening r),
            ts_feature_set_version = 2\<rparr>))
      | _ \<Rightarrow> Inr None)"

definition indicator_row_at ::
  "nat \<Rightarrow> nat \<Rightarrow> pyfloat \<Rightarrow> technical_candle list \<Rightarrow> pyfloat option list \<Rightarrow> nat \<Rightarrow> indicator_row" where
  "indicator_row_at atr_period adx_period multiplier cs rs i =
     (let closes = map tc_close cs in
      \<lparr>ir_candle = cs ! i, ir_ema_9 = ema 9 closes ! i, ir_ema_21 = ema 21 closes ! i, ir_rsi = rs ! i,
       ir_atr = atr atr_period cs ! i, ir_adx = adx adx_period cs ! i,
       ir_supertrend = supertrend multiplier atr_period cs ! i, ir_vwap = vwap cs ! i,
       ir_volume_ratio = volume_ratio_at 20 cs i, ir_range_20 = rolling_range_at 20 cs i,
       ir_range_10 = rolling_range_at 10 cs i, ir_range_5 = rolling_range_at 5 cs i,
       ir_opening = opening_range_at 15 cs i\<rparr>)"

definition candle_lt :: "technical_candle \<Rightarrow> technical_candle \<Rightarrow> bool" where
  "candle_lt a b \<longleftrightarrow> candle_time a < candle_time b"

definition materialize_technical_features ::
  "nat \<Rightarrow> nat \<Rightarrow> nat \<Rightarrow> pyfloat \<Rightarrow> technical_candle list \<Rightarrow> technical_snapshot list result" where
  "materialize_technical_features rsi_period atr_period adx_period multiplier candles =
     (if min rsi_period (min atr_period adx_period) < 2 \<or> multiplier \<le> 0
        then Inl (ValueError ''technical feature periods and multiplier are invalid'')
      else
        (let ordered = py_sorted candle_lt (filter tc_settled candles) in
         bind_r (rsi rsi_period (map tc_close ordered)) (\<lambda>rs.
         bind_r (map_r snapshot_of (map (indicator_row_at atr_period adx_period multiplier ordered rs) [0..<length ordered]))
           (\<lambda>snapshots. Inr (available snapshots)))))"

section \<open>Causality\<close>

locale causal =
  fixes f :: "'a list \<Rightarrow> 'b list"
  assumes length_series: "length (f xs) = length xs"
    and prefix: "f (take n xs) = take n (f xs)"
begin

lemma nth_prefix: "i < n \<Longrightarrow> i < length xs \<Longrightarrow> f (take n xs) ! i = f xs ! i"
  by (simp add: prefix)

lemma map_causal: "causal (\<lambda>xs. map g (f xs))"
  by unfold_locales (simp_all add: length_series prefix take_map)

end

lemma causal_comp: "causal f \<Longrightarrow> causal g \<Longrightarrow> causal (\<lambda>xs. g (f xs))"
  by (simp add: causal_def)

lemma causal_zip: "causal f \<Longrightarrow> causal g \<Longrightarrow> causal (\<lambda>xs. zip (f xs) (g xs))"
  by (simp add: causal_def take_zip)

lemma causal_map: "causal (map g)"
  by unfold_locales (simp_all add: take_map)

lemma length_scan: "length (scan f c vs) = Suc (length vs)"
  by (induction vs arbitrary: c) auto

lemma take_scan: "take (Suc n) (scan f c vs) = scan f c (take n vs)"
proof (induction vs arbitrary: c n)
  case (Cons v vs)
  then show ?case by (cases n) auto
qed simp

lemma causal_smoothed: "0 < period \<Longrightarrow> causal (smoothed f period)"
proof
  fix xs and n :: nat
  assume p: "0 < period"
  show "length (smoothed f period xs) = length xs" using p by (auto simp: smoothed_def length_scan)
  show "smoothed f period (take n xs) = take n (smoothed f period xs)"
  proof (cases "min n (length xs) < period")
    case True
    then show ?thesis using p by (auto simp: smoothed_def min_def take_replicate)
  next
    case False
    then have n: "n - (period - 1) = Suc (n - period)" using p by simp
    have "take n (smoothed f period xs) = replicate (period - 1) None @ map Some (take (Suc (n - period))
        (scan f (fquot (py_sum (take period xs)) (float_of_int (int period))) (drop period xs)))"
      using False n by (auto simp: smoothed_def take_map)
    also have "\<dots> = smoothed f period (take n xs)" using False
      by (auto simp: smoothed_def take_scan drop_take min_def split: if_splits)
    finally show ?thesis by simp
  qed
qed

lemma causal_stateful: "causal (stateful f s)"
proof
  fix xs n
  show "length (stateful f s xs) = length xs"
    by (induction xs arbitrary: s) (auto simp: Let_def split: prod.splits)
  show "stateful f s (take n xs) = take n (stateful f s xs)"
    by (induction xs arbitrary: s n) (auto simp: Let_def take_Cons split: prod.splits nat.splits)
qed

lemma causal_indexed:
  assumes "\<And>xs n i. i < n \<Longrightarrow> i < length xs \<Longrightarrow> g (take n xs) i = g xs i"
  shows "causal (indexed g)"
proof
  fix xs n
  show "length (indexed g xs) = length xs" by (simp add: indexed_def)
  show "indexed g (take n xs) = take n (indexed g xs)"
    by (rule nth_equalityI) (auto simp: indexed_def assms)
qed

interpretation ema9: causal "ema 9" unfolding ema_def by (rule causal_smoothed) simp
interpretation ema21: causal "ema 21" unfolding ema_def by (rule causal_smoothed) simp

lemma causal_wilder: "0 < period \<Longrightarrow> causal (wilder period)"
  unfolding wilder_def by (rule causal_smoothed)

lemma hd_take_if: "take n xs \<noteq> [] \<Longrightarrow> hd (take n xs) = hd xs"
  by (cases xs; cases n) auto

interpretation previous: causal with_previous
proof
  fix xs n
  show "length (with_previous xs) = length xs" by (simp add: with_previous_def)
  show "with_previous (take n xs) = take n (with_previous xs)"
    by (rule nth_equalityI) (auto simp: with_previous_def nth_Cons' hd_take_if)
qed

interpretation directionals: causal directionals
  unfolding directionals_def by (intro causal_comp [OF previous.causal_axioms] causal_indexed) simp

lemma causal_atr: "0 < period \<Longrightarrow> causal (atr period)"
  unfolding atr_def by (intro causal_comp [OF previous.map_causal] causal_wilder)

lemma causal_dx: "0 < period \<Longrightarrow> causal (dx period)"
  unfolding dx_def
  by (intro causal_comp [OF causal_zip causal_map] causal_zip
      causal_comp [OF previous.map_causal causal_wilder] causal_comp [OF directionals.map_causal causal_wilder])

lemma length_spread: "length rs = length (available ds) \<Longrightarrow> length (spread ds rs) = length ds"
  by (induction ds rs rule: spread.induct) (auto simp: available_def)

lemma take_spread:
  "length rs = length (available ds)
     \<Longrightarrow> take n (spread ds rs) = spread (take n ds) (take (length (available (take n ds))) rs)"
  by (induction ds rs arbitrary: n rule: spread.induct) (auto simp: available_def take_Cons split: nat.splits)

lemma available_take: "available (take n ds) = take (length (available (take n ds))) (available ds)"
proof -
  have "available ds = available (take n ds) @ available (drop n ds)"
    unfolding available_def by (metis append_take_drop_id filter_append map_append)
  then show ?thesis by simp
qed

lemma causal_adx:
  assumes "0 < period"
  shows "causal (adx period)"
proof
  fix xs n
  note d = causal_dx [OF assms] and w = causal_wilder [OF assms]
  have len: "length (wilder period ys) = length ys" for ys by (rule causal.length_series [OF w])
  show "length (adx period xs) = length xs"
    by (simp add: adx_def length_spread len causal.length_series [OF d])
  show "adx period (take n xs) = take n (adx period xs)"
    unfolding adx_def causal.prefix [OF d] take_spread [OF len]
    by (subst available_take) (simp add: causal.prefix [OF w])
qed

lemma causal_supertrend: "0 < period \<Longrightarrow> causal (supertrend multiplier period)"
  unfolding supertrend_def
  by (intro causal_comp [OF causal_zip causal_stateful] previous.causal_axioms causal_atr)

interpretation vwap: causal vwap
  unfolding vwap_def by (rule causal_stateful)

lemma volume_ratio_prefix: "i < n \<Longrightarrow> i < length cs \<Longrightarrow> volume_ratio_at period (take n cs) i = volume_ratio_at period cs i"
  by (simp add: volume_ratio_at_def min_def Let_def)

text \<open>A rolling or opening range reads candles before the current one only.\<close>

lemma rolling_range_prior: "i < length cs \<Longrightarrow> rolling_range_at period cs i = rolling_range_at period (take i cs) i"
  by (simp add: rolling_range_at_def take_drop)

lemma rolling_range_prefix:
  assumes "i < n" and "i < length cs"
  shows "rolling_range_at period (take n cs) i = rolling_range_at period cs i"
  using assms rolling_range_prior [of i "take n cs"] rolling_range_prior [of i cs] by (simp add: min_def)

lemma opening_range_prefix:
  "i < n \<Longrightarrow> i < length cs \<Longrightarrow> opening_range_at minutes (take n cs) i = opening_range_at minutes cs i"
  by (simp add: opening_range_at_def min_def)

lemma changes_take: "n \<noteq> 0 \<Longrightarrow> changes (take n closes) = take (n - 1) (changes closes)"
proof (cases closes)
  case (Cons a cs)
  assume "n \<noteq> 0"
  then obtain m where "n = Suc m" by (cases n) auto
  then show ?thesis unfolding changes_def Cons
    by (intro nth_equalityI) (auto simp: take_map nth_Cons')
qed (simp add: changes_def)

lemma length_changes: "length (changes closes) = length closes - 1"
  by (simp add: changes_def)

lemma map_r_take: "map_r f xs = Inr ys \<Longrightarrow> map_r f (take n xs) = Inr (take n ys)"
  by (simp add: map_r_Inr_iff list_all2_takeI)

lemma map_r_length: "map_r f xs = Inr ys \<Longrightarrow> length ys = length xs"
  by (simp add: map_r_Inr_iff list_all2_lengthD)

lemma rsi_prefix:
  assumes "rsi period closes = Inr rs" and "0 < period"
  shows "length rs = length closes" and "rsi period (take n closes) = Inr (take n rs)"
proof -
  note w = causal_wilder [OF assms(2)]
  have len: "length (wilder period ys) = length ys" for ys by (rule causal.length_series [OF w])
  show "length rs = length closes"
    using assms(1) by (auto simp: rsi_def len length_changes dest!: map_r_length split: if_splits)
  show "rsi period (take n closes) = Inr (take n rs)"
  proof (cases "n = 0 \<or> closes = []")
    case False
    then obtain m where n: "n = Suc m" by (cases n) auto
    obtain zs where zs: "map_r rsi_at (zip (wilder period (map (\<lambda>d. py_max d 0) (changes closes)))
        (wilder period (map (\<lambda>d. py_max (- d) 0) (changes closes)))) = Inr zs" "rs = None # zs"
      using assms(1) False by (auto simp: rsi_def)
    show ?thesis using map_r_take [OF zs(1), of m] False
      by (simp add: rsi_def n changes_take take_zip causal.prefix [OF w, symmetric] take_map zs(2))
  qed (use assms(1) in \<open>auto simp: rsi_def\<close>)
qed

lemma row_prefix:
  assumes "i < n" and "i < length cs" and "length rs = length cs" and "2 \<le> ap" and "2 \<le> dp"
  shows "indicator_row_at ap dp multiplier (take n cs) (take n rs) i = indicator_row_at ap dp multiplier cs rs i"
  using assms causal.nth_prefix [OF causal_atr, of ap i n cs] causal.nth_prefix [OF causal_adx, of dp i n cs]
    causal.nth_prefix [OF causal_supertrend, of ap i n cs] vwap.nth_prefix [of i n cs]
    ema9.nth_prefix [of i n "map tc_close cs"] ema21.nth_prefix [of i n "map tc_close cs"]
  by (simp add: indicator_row_at_def Let_def volume_ratio_prefix rolling_range_prefix opening_range_prefix take_map)

section \<open>No look-ahead\<close>

lemma candle_order: "strict_weak A candle_lt"
  by (auto simp: strict_weak_def candle_lt_def)

lemma sorted_take:
  assumes "sorted_wrt (\<lambda>a b. P b \<longrightarrow> P a) xs"
  shows "filter P xs = take (length (filter P xs)) xs"
  using assms
proof (induction xs)
  case (Cons x xs)
  then have "filter P xs = []" if "\<not> P x" using that by (auto simp: filter_empty_conv)
  then show ?case using Cons by auto
qed simp

lemma materialize_Inr:
  assumes "materialize_technical_features rp ap dp multiplier candles = Inr snaps"
  obtains rs ss where "2 \<le> rp" and "2 \<le> ap" and "2 \<le> dp"
    and "rsi rp (map tc_close (py_sorted candle_lt (filter tc_settled candles))) = Inr rs"
    and "map_r snapshot_of (map (indicator_row_at ap dp multiplier (py_sorted candle_lt (filter tc_settled candles)) rs)
      [0..<length (filter tc_settled candles)]) = Inr ss" and "snaps = available ss"
  using assms by (auto simp: materialize_technical_features_def Let_def split: if_splits)

lemma snapshot_time: "snapshot_of r = Inr (Some s) \<Longrightarrow> ts_event_time s = tc_event_time (ir_candle r)"
  by (auto simp: snapshot_of_def Let_def split: option.splits prod.splits)

lemma available_filter:
  assumes "\<And>s. Some s \<in> set (take n ss) \<Longrightarrow> Q s" and "\<And>s. Some s \<in> set (drop n ss) \<Longrightarrow> \<not> Q s"
  shows "available (take n ss) = filter Q (available ss)"
proof -
  have "available ss = available (take n ss) @ available (drop n ss)"
    unfolding available_def by (metis append_take_drop_id filter_append map_append)
  moreover have "filter Q (available (take n ss)) = available (take n ss)" "filter Q (available (drop n ss)) = []"
    using assms by (auto simp: available_def filter_id_conv filter_empty_conv)
  ultimately show ?thesis by simp
qed

lemma filter_take_split:
  assumes "filter P xs = take n xs"
  shows "\<forall>x \<in> set (take n xs). P x" and "\<forall>x \<in> set (drop n xs). \<not> P x"
proof -
  show "\<forall>x \<in> set (take n xs). P x" unfolding assms [symmetric] by simp
  then have "filter P (take n xs) = take n xs" by (simp add: filter_id_conv)
  moreover have "filter P xs = filter P (take n xs) @ filter P (drop n xs)" by (metis append_take_drop_id filter_append)
  ultimately have "filter P (drop n xs) = []" using assms by simp
  then show "\<forall>x \<in> set (drop n xs). \<not> P x" by (simp add: filter_empty_conv)
qed

lemma snapshots_prefix:
  assumes "rsi rp (map tc_close cs) = Inr rs" and "2 \<le> rp" "2 \<le> ap" "2 \<le> dp" and "n \<le> length cs"
    and ss: "map_r snapshot_of (map (indicator_row_at ap dp multiplier cs rs) [0..<length cs]) = Inr ss"
  shows "map_r snapshot_of (map (indicator_row_at ap dp multiplier (take n cs) (take n rs)) [0..<n]) = Inr (take n ss)"
proof -
  have len: "length rs = length cs" using rsi_prefix(1) [OF assms(1)] assms(2) by simp
  have "map (indicator_row_at ap dp multiplier (take n cs) (take n rs)) [0..<n]
      = take n (map (indicator_row_at ap dp multiplier cs rs) [0..<length cs])"
    using assms(3-5) len by (intro nth_equalityI) (auto simp: row_prefix)
  then show ?thesis using map_r_take [OF ss] by simp
qed

lemma snapshots_cut:
  assumes ss: "map_r snapshot_of (map (indicator_row_at ap dp multiplier cs rs) [0..<length cs]) = Inr ss"
    and cut: "filter (\<lambda>c. candle_time c \<le> t) cs = take n cs" and n: "n \<le> length cs"
  shows "available (take n ss) = filter (\<lambda>s. instant_of (ts_event_time s) \<le> t) (available ss)"
proof (rule available_filter)
  have time: "ts_event_time s = tc_event_time (cs ! i)" if "i < length cs" "ss ! i = Some s" for i s
    using ss that snapshot_time by (force simp: map_r_Inr_iff list_all2_conv_all_nth indicator_row_at_def Let_def)
  have lss: "length ss = length cs" using map_r_length [OF ss] by simp
  fix s
  show "instant_of (ts_event_time s) \<le> t" if mem: "Some s \<in> set (take n ss)"
  proof -
    obtain i where i: "i < n" "ss ! i = Some s" "i < length cs" using mem n lss by (auto simp: in_set_conv_nth)
    have "cs ! i \<in> set (take n cs)" using i n by (auto simp: in_set_conv_nth)
    then show ?thesis using filter_take_split(1) [OF cut] time [OF i(3,2)] by (auto simp: candle_time_def)
  qed
  show "\<not> instant_of (ts_event_time s) \<le> t" if mem: "Some s \<in> set (drop n ss)"
  proof -
    obtain i where i: "i < length cs - n" "ss ! (n + i) = Some s" using mem lss by (auto simp: in_set_conv_nth add.commute)
    then have "cs ! (n + i) \<in> set (drop n cs)" by (auto simp: in_set_conv_nth)
    then show ?thesis using filter_take_split(2) [OF cut] time [of "n + i"] i by (auto simp: candle_time_def)
  qed
qed

text \<open>
  C27: Technical features do not look ahead.  The snapshots up to a time are exactly the
  snapshots of the candles up to that time, for any order of the candles: no value of a
  snapshot, moving average, trend, session or range, depends on a later candle.
\<close>

theorem technical_features_no_lookahead:
  assumes "materialize_technical_features rp ap dp multiplier candles = Inr snaps"
  shows "materialize_technical_features rp ap dp multiplier (filter (\<lambda>c. candle_time c \<le> t) candles)
    = Inr (filter (\<lambda>s. instant_of (ts_event_time s) \<le> t) snaps)"
proof -
  let ?P = "\<lambda>c. candle_time c \<le> t"
  define cs where "cs = py_sorted candle_lt (filter tc_settled candles)"
  define n where "n = length (filter ?P cs)"
  obtain rs ss where p: "2 \<le> rp" "2 \<le> ap" "2 \<le> dp" and rs: "rsi rp (map tc_close cs) = Inr rs"
    and ss: "map_r snapshot_of (map (indicator_row_at ap dp multiplier cs rs) [0..<length cs]) = Inr ss"
    and snaps: "snaps = available ss"
    using assms by (rule materialize_Inr) (simp add: cs_def)
  have sorted: "sorted_wrt (\<lambda>a b. ?P b \<longrightarrow> ?P a) cs"
    using sorted_py_sorted [OF candle_order, of "filter tc_settled candles"]
    by (auto simp: cs_def candle_lt_def elim: sorted_wrt_mono_rel [rotated])
  note cut = sorted_take [OF sorted, folded n_def]
  have cs': "py_sorted candle_lt (filter tc_settled (filter ?P candles)) = take n cs"
    using cut filter_py_sorted [OF candle_order, of ?P "filter tc_settled candles"]
    by (simp add: cs_def conj_commute)
  have n: "n \<le> length cs" by (simp add: n_def)
  have "available (take n ss) = filter (\<lambda>s. instant_of (ts_event_time s) \<le> t) (available ss)"
    by (rule snapshots_cut [OF ss cut n])
  moreover have "multiplier \<le> 0 \<Longrightarrow> False" using assms by (simp add: materialize_technical_features_def)
  ultimately show ?thesis
    using p rsi_prefix(2) [OF rs, of n] snapshots_prefix [OF rs p n ss] snaps n
    unfolding materialize_technical_features_def Let_def cs' by (auto simp: take_map)
qed

section \<open>An example\<close>

definition ex_candles :: "technical_candle list" where
  "ex_candles = [\<lparr>tc_event_time = Aware 60000000, tc_open = Fin 1, tc_high = Fin 4, tc_low = Fin 1,
     tc_close = Fin 1, tc_volume = Fin 1, tc_settled = True\<rparr>,
     \<lparr>tc_event_time = Aware 0, tc_open = Fin 1, tc_high = Fin 2, tc_low = Fin 1, tc_close = Fin 2,
      tc_volume = Fin 1, tc_settled = True\<rparr>]"

lemma cold_snapshot: "ir_ema_21 r = None \<Longrightarrow> snapshot_of r = Inr None"
  by (auto simp: snapshot_of_def Let_def split: option.splits prod.splits)

lemma ex_materialized: "materialize_technical_features 14 14 14 (Fin 3) ex_candles = Inr []"
proof -
  have o: "py_sorted candle_lt (filter tc_settled ex_candles) = rev ex_candles"
    by (simp add: ex_candles_def candle_lt_def candle_time_def)
  have "rsi 14 (map tc_close (rev ex_candles)) = Inr [None, None]"
    by (simp add: rsi_def ex_candles_def changes_def wilder_def smoothed_def rsi_at_def)
  moreover have "ema 21 (map tc_close (rev ex_candles)) = [None, None]"
    by (simp add: ema_def smoothed_def ex_candles_def)
  ultimately show ?thesis
    unfolding materialize_technical_features_def Let_def o
    by (simp add: upt_rec ex_candles_def [THEN arg_cong [of _ _ length]] indicator_row_at_def cold_snapshot available_def
        less_Suc_eq)
qed

theorem technical_features_no_lookahead_witness:
  "materialize_technical_features 14 14 14 (Fin 3) (filter (\<lambda>c. candle_time c \<le> 5) ex_candles) = Inr []"
  using technical_features_no_lookahead [OF ex_materialized, of 5] by simp

end
