(* ===== verification/Screening.thy ===== *)
theory Screening
  imports Technical_Features Technical_Total
begin

text \<open>
  The screening of symbols before the strategies run: the regime of a symbol
  (src/src/nanodelta/strategies/symbol\_regime.py) and its tradeability
  (src/src/nanodelta/strategies/tradeability.py).
\<close>

section \<open>Symbol regime\<close>

record symbol_regime_limits =
  sy_adx_no_trend :: pyfloat
  sy_adx_strong_trend :: pyfloat
  sy_minimum_fit :: pyfloat
  sy_maximum_fit :: pyfloat
  sy_misaligned_penalty :: pyfloat
  sy_minimum_volume_ratio :: pyfloat
  sy_low_volume_penalty :: pyfloat
  sy_compression_range_pct :: pyfloat

definition symbol_regime_limits_post_init :: "symbol_regime_limits \<Rightarrow> symbol_regime_limits result" where
  "symbol_regime_limits_post_init l =
     (if sy_adx_no_trend l \<le> 0 \<or> sy_adx_strong_trend l \<le> sy_adx_no_trend l
        then Inl (ValueError ''adx_strong_trend must be above adx_no_trend, which must be positive'')
      else if sy_minimum_fit l \<le> 0 \<or> sy_maximum_fit l \<le> sy_minimum_fit l
        then Inl (ValueError ''maximum_fit must be above minimum_fit, which must be positive'')
      else if \<not> (0 < sy_misaligned_penalty l \<and> sy_misaligned_penalty l \<le> 1)
        then Inl (ValueError ''misaligned_penalty must be in (0, 1]'')
      else if sy_minimum_volume_ratio l \<le> 0 then Inl (ValueError ''minimum_volume_ratio must be positive'')
      else if \<not> (0 < sy_low_volume_penalty l \<and> sy_low_volume_penalty l \<le> 1)
        then Inl (ValueError ''low_volume_penalty must be in (0, 1]'')
      else if sy_compression_range_pct l \<le> 0 then Inl (ValueError ''compression_range_pct must be positive'')
      else Inr l)"

definition feature_item :: "(string, pyfloat) dict \<Rightarrow> string \<Rightarrow> pyfloat result" where
  "feature_item fs k = (case map_of fs k of None \<Rightarrow> Inl (KeyError k) | Some v \<Rightarrow> Inr v)"

definition trend_component :: "symbol_regime_limits \<Rightarrow> pyfloat \<Rightarrow> (pyfloat \<times> string) result" where
  "trend_component l x =
     (if x \<le> sy_adx_no_trend l then Inr (0, ''NO_TREND'')
      else if sy_adx_strong_trend l \<le> x then Inr (1, ''STRONG_TREND'')
      else bind_r (py_div (x - sy_adx_no_trend l) (sy_adx_strong_trend l - sy_adx_no_trend l)) (\<lambda>t.
             Inr (t, ''DEVELOPING_TREND'')))"

definition evaluate_symbol_regime ::
  "(string, pyfloat) dict \<Rightarrow> symbol_regime_limits \<Rightarrow> (pyfloat \<times> string) result" where
  "evaluate_symbol_regime fs l =
     bind_r (feature_item fs ''adx_14'') (\<lambda>adx.
     bind_r (trend_component l adx) (\<lambda>(component, label).
     bind_r (feature_item fs ''ema_9'') (\<lambda>e9.
     bind_r (feature_item fs ''ema_21'') (\<lambda>e21.
     bind_r (feature_item fs ''supertrend_direction'') (\<lambda>direction.
     bind_r (feature_item fs ''volume_ratio_20'') (\<lambda>volume_ratio.
       let aligned = (e21 < e9) = (0 < direction);
           fit = sy_minimum_fit l + (sy_maximum_fit l - sy_minimum_fit l) * component;
           (fit, label) = (if aligned then (fit, label)
                           else (fit * sy_misaligned_penalty l, label @ ''_MISALIGNED''))
       in Inr (if volume_ratio < sy_minimum_volume_ratio l
               then (fit * sy_low_volume_penalty l, label @ ''_LOW_VOLUME'') else (fit, label))))))))"

definition classify_regime_label :: "(string, pyfloat) dict \<Rightarrow> symbol_regime_limits \<Rightarrow> string result" where
  "classify_regime_label fs l =
     (case (map_of fs ''range_high_20'', map_of fs ''range_low_20'', map_of fs ''close'') of
        (Some h, Some lo, Some c) \<Rightarrow>
          if c \<noteq> 0 \<and> fquot (h - lo) c < sy_compression_range_pct l then Inr ''COMPRESSION''
          else bind_r (feature_item fs ''adx_14'') (\<lambda>x. Inr (if x < sy_adx_no_trend l then ''RANGING'' else ''TRENDING''))
      | _ \<Rightarrow> bind_r (feature_item fs ''adx_14'') (\<lambda>x. Inr (if x < sy_adx_no_trend l then ''RANGING'' else ''TRENDING'')))"

definition evaluate_mtf_alignment :: "bool option \<Rightarrow> pyfloat \<Rightarrow> pyfloat \<Rightarrow> pyfloat \<Rightarrow> pyfloat" where
  "evaluate_mtf_alignment aligned aligned_fit misaligned_fit unknown_fit =
     (case aligned of None \<Rightarrow> unknown_fit | Some b \<Rightarrow> if b then aligned_fit else misaligned_fit)"

section \<open>Tradeability\<close>

record tradeability_limits =
  tl_minimum_price :: pyfloat
  tl_minimum_average_volume :: pyfloat
  tl_minimum_average_traded_value :: pyfloat
  tl_minimum_atr_pct :: pyfloat
  tl_maximum_atr_pct :: pyfloat
  tl_maximum_gap_pct :: pyfloat
  tl_average_window :: int
  tl_maximum_bar_gap_multiple :: pyfloat
  tl_maximum_reprice_pct :: pyfloat
  tl_maximum_spread_pct :: pyfloat
  tl_circuit_proximity_pct :: pyfloat

definition tradeability_limits_post_init :: "tradeability_limits \<Rightarrow> tradeability_limits result" where
  "tradeability_limits_post_init l =
     (if \<exists>v \<in> set [tl_minimum_price l, tl_minimum_average_volume l, tl_minimum_average_traded_value l,
           tl_minimum_atr_pct l, tl_maximum_atr_pct l, tl_maximum_gap_pct l, tl_maximum_reprice_pct l,
           tl_maximum_spread_pct l, tl_circuit_proximity_pct l]. v \<le> 0
        then Inl (ValueError ''tradeability limits must be positive'')
      else if tl_maximum_atr_pct l \<le> tl_minimum_atr_pct l
        then Inl (ValueError ''minimum_atr_pct must be below maximum_atr_pct'')
      else if tl_average_window l < 2 then Inl (ValueError ''average_window must be at least 2'')
      else if tl_maximum_bar_gap_multiple l \<le> 1
        then Inl (ValueError ''maximum_bar_gap_multiple must be above 1'')
      else Inr l)"

definition bar_seconds :: "(string, int) dict" where
  "bar_seconds = [(''1m'', 60), (''5m'', 300), (''15m'', 900), (''30m'', 1800), (''1h'', 3600), (''4h'', 14400), (''1d'', 86400)]"

definition bar_missing :: "tradeability_limits \<Rightarrow> string option \<Rightarrow> technical_candle \<Rightarrow> technical_candle \<Rightarrow> bool" where
  "bar_missing l timeframe previous latest =
     (case timeframe of None \<Rightarrow> False
      | Some tf \<Rightarrow> (case map_of bar_seconds tf of None \<Rightarrow> False
          | Some expected \<Rightarrow> float_of_int expected * tl_maximum_bar_gap_multiple l
              < rnd64 (of_int (candle_time latest - candle_time previous) / 1000000)))"

definition mean_of :: "pyfloat list \<Rightarrow> pyfloat" where
  "mean_of xs = fquot (py_sum xs) (float_of_int (int (length xs)))"

text \<open>The gap, discontinuity, circuit and spread checks, in the order of the code.\<close>

definition gap_reasons :: "tradeability_limits \<Rightarrow> technical_candle \<Rightarrow> technical_candle \<Rightarrow> string list" where
  "gap_reasons l previous latest =
     (if 0 < tc_close previous \<and>
         tl_maximum_gap_pct l < fquot \<bar>tc_open latest - tc_close previous\<bar> (tc_close previous)
      then [''GAP_TOO_WIDE''] else [])"

definition reprice_reasons :: "tradeability_limits \<Rightarrow> technical_candle list \<Rightarrow> technical_candle \<Rightarrow> string list" where
  "reprice_reasons l prior latest =
     (if prior \<noteq> [] \<and> 0 < mean_of (map tc_close prior) \<and>
         tl_maximum_reprice_pct l
           < fquot \<bar>tc_close latest - mean_of (map tc_close prior)\<bar> (mean_of (map tc_close prior))
      then [''PRICE_DISCONTINUITY_SUSPECTED''] else [])"

definition circuit_reasons :: "tradeability_limits \<Rightarrow> (pyfloat \<times> pyfloat) option \<Rightarrow> technical_candle \<Rightarrow> string list" where
  "circuit_reasons l circuit latest =
     (case circuit of None \<Rightarrow> []
      | Some (lower, upper) \<Rightarrow>
          if 0 < lower \<and> lower < upper
          then (if tc_close latest - lower < (upper - lower) * tl_circuit_proximity_pct l then [''NEAR_LOWER_CIRCUIT'']
                else if upper - tc_close latest < (upper - lower) * tl_circuit_proximity_pct l
                then [''NEAR_UPPER_CIRCUIT''] else [])
          else [])"

definition spread_reasons :: "tradeability_limits \<Rightarrow> pyfloat option \<Rightarrow> pyfloat option \<Rightarrow> string list" where
  "spread_reasons l bid ask =
     (case (bid, ask) of
        (Some b, Some a) \<Rightarrow>
          if 0 < b \<and> b < a \<and> tl_maximum_spread_pct l < fquot (a - b) b then [''SPREAD_TOO_WIDE''] else []
      | _ \<Rightarrow> [])"

definition evaluate_tradeability ::
  "technical_candle list \<Rightarrow> pyfloat \<Rightarrow> tradeability_limits \<Rightarrow> string option \<Rightarrow> (pyfloat \<times> pyfloat) option
     \<Rightarrow> pyfloat option \<Rightarrow> pyfloat option \<Rightarrow> bool \<times> string" where
  "evaluate_tradeability candles atr_14 l timeframe circuit bid ask =
     (let settled = py_sorted candle_lt (filter tc_settled candles) in
      if length settled < 2 then (False, ''INSUFFICIENT_HISTORY'')
      else
        (let latest = last settled; previous = settled ! (length settled - 2);
             window = drop (length settled - nat (tl_average_window l)) settled in
         if bar_missing l timeframe previous latest then (False, ''MISSING_BAR_DETECTED'')
         else if tc_close latest \<le> 0 then (False, ''INVALID_PRICE'')
         else if tc_close latest < tl_minimum_price l then (False, ''BELOW_MINIMUM_PRICE'')
         else if mean_of (map tc_volume window) < tl_minimum_average_volume l then (False, ''BELOW_MINIMUM_VOLUME'')
         else if mean_of (map (\<lambda>c. tc_close c * tc_volume c) window) < tl_minimum_average_traded_value l
           then (False, ''BELOW_MINIMUM_TRADED_VALUE'')
         else if fquot atr_14 (tc_close latest) < tl_minimum_atr_pct l then (False, ''RANGE_TOO_TIGHT'')
         else if tl_maximum_atr_pct l < fquot atr_14 (tc_close latest) then (False, ''RANGE_TOO_WIDE'')
         else case gap_reasons l previous latest @ reprice_reasons l (butlast window) latest
                   @ circuit_reasons l circuit latest @ spread_reasons l bid ask of
                [] \<Rightarrow> (True, ''TRADEABLE'')
              | reason # _ \<Rightarrow> (False, reason)))"

section \<open>The order of the candles does not matter\<close>

text \<open>
  The verdict on a symbol does not depend on the order in which its candles are given, nor
  on candles that are still forming, as long as no two settled candles share a time.
\<close>

theorem tradeability_order_independent:
  assumes "mset (filter tc_settled candles) = mset (filter tc_settled candles')"
    and "distinct (map candle_time (filter tc_settled candles))"
  shows "evaluate_tradeability candles atr_14 l timeframe circuit bid ask
    = evaluate_tradeability candles' atr_14 l timeframe circuit bid ask"
proof -
  have "py_sorted candle_lt (filter tc_settled candles) = py_sorted candle_lt (filter tc_settled candles')"
    using assms by (intro py_sorted_unique candle_order) (auto simp: candle_lt_def distinct_map dest: inj_onD)
  then show ?thesis by (simp add: evaluate_tradeability_def)
qed

lemma tradeable_reasons:
  assumes "evaluate_tradeability candles atr_14 l timeframe circuit bid ask = (True, reason)"
  obtains latest where "latest \<in> set candles" and "tc_settled latest"
    and "\<forall>c \<in> set candles. tc_settled c \<longrightarrow> candle_time c \<le> candle_time latest"
    and "\<not> tc_close latest \<le> 0" and "\<not> tc_close latest < tl_minimum_price l"
    and "\<not> fquot atr_14 (tc_close latest) < tl_minimum_atr_pct l"
    and "\<not> tl_maximum_atr_pct l < fquot atr_14 (tc_close latest)"
    and "circuit_reasons l circuit latest = []" and "spread_reasons l bid ask = []"
proof -
  let ?s = "py_sorted candle_lt (filter tc_settled candles)"
  have e: "?s \<noteq> []" using assms by (auto simp: evaluate_tradeability_def)
  then have m: "last ?s \<in> set ?s" by (rule last_in_set)
  have "candle_time c \<le> candle_time (last ?s)" if "c \<in> set ?s" for c
  proof -
    have s: "butlast ?s @ [last ?s] = ?s" using e by (rule append_butlast_last_id)
    have "sorted_wrt (\<lambda>a b. \<not> candle_lt b a) (butlast ?s @ [last ?s])"
      unfolding s by (rule sorted_py_sorted [OF candle_order])
    moreover have "c \<in> set (butlast ?s @ [last ?s])" unfolding s using that .
    ultimately show ?thesis by (auto simp: sorted_wrt_append candle_lt_def simp del: set_py_sorted)
  qed
  moreover have "\<not> tc_close (last ?s) \<le> 0 \<and> \<not> tc_close (last ?s) < tl_minimum_price l
      \<and> \<not> fquot atr_14 (tc_close (last ?s)) < tl_minimum_atr_pct l
      \<and> \<not> tl_maximum_atr_pct l < fquot atr_14 (tc_close (last ?s))
      \<and> circuit_reasons l circuit (last ?s) = [] \<and> spread_reasons l bid ask = []"
    using assms by (simp add: evaluate_tradeability_def Let_def split: if_splits list.splits)
  ultimately show ?thesis using m by (intro that [of "last ?s"]) simp_all
qed

section \<open>The regime decides which strategies may speak\<close>

lemma classified_label: "classify_regime_label fs l = Inr label \<Longrightarrow> label \<in> {''COMPRESSION'', ''RANGING'', ''TRENDING''}"
  by (auto simp: classify_regime_label_def split: option.splits if_splits)

text \<open>
  In a context that carries the label the classifier gives to its features, a symbol whose
  20-bar range is narrower than the compression threshold is left to the breakout
  strategies, whatever its ADX: no trend-following and no range strategy makes a signal.
\<close>

theorem compression_routes_to_breakouts:
  assumes "classify_regime_label (sc_features c) l = Inr (re_symbol_regime_label (sc_regime c))"
    and "map_of (sc_features c) ''range_high_20'' = Some h" and "map_of (sc_features c) ''range_low_20'' = Some lo"
    and "map_of (sc_features c) ''close'' = Some cl" and "cl \<noteq> 0"
    and "fquot (h - lo) cl < sy_compression_range_pct l"
    and "technical_generate s c = Inr (Some g)"
  shows "(\<exists>x. s = Breakout x) \<or> (\<exists>x. s = OpeningRangeBreakout x) \<or> (\<exists>x. s = VolumeBreakout x)"
proof -
  have "re_symbol_regime_label (sc_regime c) = ''COMPRESSION''"
    using assms(1-6) by (simp add: classify_regime_label_def)
  then show ?thesis using tech.routed(2) [OF assms(7)] by (cases s) auto
qed

section \<open>The regime score is accepted\<close>

lemma rnd64_upto:
  assumes "0 \<le> q" and "q \<le> b" and "is_f64 b"
  obtains r where "rnd64 q = Fin r" and "0 \<le> r" and "r \<le> b" and "is_f64 r"
  by (rule rnd64_Fin_between [of 0 b q]) (use assms in auto)

lemma float_difference:
  assumes "ordinary a" and "ordinary b" and "b \<le> a"
  obtains d where "Fin a - Fin b = Fin d" and "rnd64 (a - b) = Fin d" and "0 \<le> d" and "d \<le> 2 powi (magnitude + 1)"
    and "is_f64 d"
proof -
  have "(2 powi magnitude :: rat) + 2 powi magnitude = 2 powi (magnitude + 1)" by (simp add: power_int_add)
  then have "a - b \<le> 2 powi (magnitude + 1)" using assms(1,2) by (auto simp: ordinary_def abs_le_iff)
  moreover have "is_f64 (2 powi (magnitude + 1))" using magnitude_bounds by (intro is_f64_powi) linarith+
  ultimately obtain d where "rnd64 (a - b) = Fin d" "0 \<le> d" "d \<le> 2 powi (magnitude + 1)" "is_f64 d"
    using assms(3) rnd64_upto [of "a - b"] by (metis diff_ge_0_iff_ge)
  then show ?thesis by (intro that) (simp_all add: minus_pyfloat_def)
qed

lemma trend_component_unit:
  assumes "sy_adx_no_trend l = Fin lo" "ordinary lo" "sy_adx_strong_trend l = Fin hi" "ordinary hi" "lo < hi" "ordinary x"
  obtains t label where "trend_component l (Fin x) = Inr (Fin t, label)" and "0 \<le> t" and "t \<le> 1"
proof -
  consider "x \<le> lo" | "hi \<le> x" "lo < x" | "lo < x" "x < hi" by linarith
  then show ?thesis
  proof cases
    case 3
    obtain d1 where d1: "Fin x - Fin lo = Fin d1" "rnd64 (x - lo) = Fin d1" "0 \<le> d1"
      by (rule float_difference [OF assms(6,2)]) (use 3 in simp)
    obtain d2 where d2: "Fin hi - Fin lo = Fin d2" "rnd64 (hi - lo) = Fin d2" "0 \<le> d2"
      by (rule float_difference [OF assms(4,2)]) (use assms(5) in simp)
    have "rnd64 (hi + - lo) \<noteq> 0"
      using rnd64_eq_0_sum [of hi "- lo"] assms(2,4,5) by (auto simp: ordinary_def is_f64_minus)
    then have nz: "d2 \<noteq> 0" using d2(2) by (auto simp: zero_pyfloat_def)
    have "d1 \<le> d2" using rnd64_mono [of "x - lo" "hi - lo"] 3(2) d1(2) d2(2) by simp
    then have "0 \<le> d1 / d2" "d1 / d2 \<le> 1" using d1(3) d2(3) nz by (auto simp: divide_le_eq)
    then obtain t where t: "rnd64 (d1 / d2) = Fin t" "0 \<le> t" "t \<le> 1"
      using rnd64_upto [of "d1 / d2" 1] is_f64_int [of 1] by (metis of_int_1 abs_one one_le_numeral one_le_power)
    show ?thesis using that [of t] 3 t d1(1) d2(1) nz assms(1,3)
      by (simp add: trend_component_def py_div_def)
  next
    case 1
    then show ?thesis using that [of 0] assms(1) by (simp add: trend_component_def zero_pyfloat_def)
  next
    case 2
    then show ?thesis using that [of 1] assms(1,3) by (simp add: trend_component_def one_pyfloat_def)
  qed
qed

lemma penalised:
  assumes "is_f64 x" and "0 \<le> x" and "0 \<le> p" and "p \<le> 1"
  obtains r where "Fin x * Fin p = Fin r" and "0 \<le> r" and "is_f64 r"
proof -
  have "0 \<le> x * p" "x * p \<le> x" using assms by (auto intro: mult_left_le)
  then obtain r where "rnd64 (x * p) = Fin r" "0 \<le> r" "is_f64 r" using rnd64_upto assms(1) by metis
  then show ?thesis by (intro that) simp_all
qed

lemma base_fit:
  assumes "ordinary mn" "ordinary mx" "0 < mn" "mn < mx" "0 \<le> t" "t \<le> 1"
  obtains r where "Fin mn + (Fin mx - Fin mn) * Fin t = Fin r" and "0 \<le> r" and "is_f64 r"
proof -
  obtain d where d: "Fin mx - Fin mn = Fin d" "0 \<le> d" "d \<le> 2 powi (magnitude + 1)" "is_f64 d"
    by (rule float_difference [OF assms(2,1)]) (use assms(4) in simp)
  obtain e where e: "rnd64 (d * t) = Fin e" "0 \<le> e" "e \<le> d"
    by (rule rnd64_upto [of "d * t" d]) (use d assms(5,6) in \<open>auto intro: mult_left_le\<close>)
  have "(2 powi magnitude :: rat) \<le> 2 powi (magnitude + 1)" by (simp only: powi2_le_iff)
  moreover have "(2 powi (magnitude + 1) :: rat) + 2 powi (magnitude + 1) = 2 powi (magnitude + 2)"
    by (simp add: power_int_add)
  ultimately have "mn + e \<le> 2 powi (magnitude + 2)" using assms(1) d(3) e(3) by (auto simp: ordinary_def)
  moreover have "is_f64 (2 powi (magnitude + 2))" using magnitude_bounds by (intro is_f64_powi) linarith+
  ultimately obtain r where "rnd64 (mn + e) = Fin r" "0 \<le> r" "is_f64 r"
    using rnd64_upto [of "mn + e" "2 powi (magnitude + 2)"] assms(3) e(2) by (metis add_nonneg_nonneg less_imp_le)
  then show ?thesis using d(1) e(1) by (intro that [of r]) simp_all
qed

text \<open>
  The regime score of a symbol is always usable.  With limits that passed their own check
  and ordinary features, scoring returns and the score is finite and not negative after
  rounding, so the evidence record built from it is accepted.
\<close>

theorem symbol_fit_accepted:
  assumes "symbol_regime_limits_post_init l = Inr l"
    and "\<forall>v \<in> set [sy_adx_no_trend l, sy_adx_strong_trend l, sy_minimum_fit l, sy_maximum_fit l,
           sy_misaligned_penalty l, sy_low_volume_penalty l]. \<exists>r. v = Fin r \<and> ordinary r"
    and "\<forall>k \<in> set [''adx_14'', ''ema_9'', ''ema_21'', ''supertrend_direction'', ''volume_ratio_20''].
           \<exists>r. map_of fs k = Some (Fin r) \<and> ordinary r"
  shows "\<exists>fit label. evaluate_symbol_regime fs l = Inr (fit, label)
     \<and> regime_evidence_post_init (default_regime\<lparr>re_symbol_fit := fit\<rparr>) = Inr (default_regime\<lparr>re_symbol_fit := fit\<rparr>)"
proof -
  obtain lo hi mn mx p q where l: "sy_adx_no_trend l = Fin lo" "ordinary lo" "sy_adx_strong_trend l = Fin hi" "ordinary hi"
    "sy_minimum_fit l = Fin mn" "ordinary mn" "sy_maximum_fit l = Fin mx" "ordinary mx"
    "sy_misaligned_penalty l = Fin p" "sy_low_volume_penalty l = Fin q"
    using assms(2) by auto
  have v: "lo < hi" "0 < mn" "mn < mx" "0 \<le> p" "p \<le> 1" "0 \<le> q" "q \<le> 1"
    using assms(1) l by (auto simp: symbol_regime_limits_post_init_def one_pyfloat_def split: if_splits)
  obtain x e9 e21 sd vr where f: "map_of fs ''adx_14'' = Some (Fin x)" "ordinary x" "map_of fs ''ema_9'' = Some e9"
    "map_of fs ''ema_21'' = Some e21" "map_of fs ''supertrend_direction'' = Some sd" "map_of fs ''volume_ratio_20'' = Some vr"
    using assms(3) by auto
  obtain t label where t: "trend_component l (Fin x) = Inr (Fin t, label)" "0 \<le> t" "t \<le> 1"
    by (rule trend_component_unit [OF l(1-4) v(1) f(2)])
  obtain r where r: "Fin mn + (Fin mx - Fin mn) * Fin t = Fin r" "0 \<le> r" "is_f64 r"
    by (rule base_fit [OF l(6,8) v(2,3) t(2,3)])
  obtain rp where rp: "Fin r * Fin p = Fin rp" "0 \<le> rp" "is_f64 rp" by (rule penalised [OF r(3,2) v(4,5)])
  obtain rq where rq: "Fin r * Fin q = Fin rq" "0 \<le> rq" by (rule penalised [OF r(3,2) v(6,7)])
  obtain rpq where rpq: "Fin rp * Fin q = Fin rpq" "0 \<le> rpq" by (rule penalised [OF rp(3,2) v(6,7)])
  have "\<exists>s label. evaluate_symbol_regime fs l = Inr (Fin s, label) \<and> 0 \<le> s"
    using r(2) rp(2) rq(2) rpq(2)
    by (simp add: evaluate_symbol_regime_def feature_item_def f t(1) l r(1) Let_def del: times_pyfloat.simps plus_pyfloat.simps)
      (simp add: rp(1) rq(1) rpq(1) del: times_pyfloat.simps)
  then obtain s label where "evaluate_symbol_regime fs l = Inr (Fin s, label)" "0 \<le> s" by blast
  then show ?thesis
    by (intro exI [of _ "Fin s"] exI [of _ label]) (auto simp: regime_evidence_post_init_def default_regime_def one_pyfloat_def)
qed

section \<open>Examples\<close>

definition ex_regime_limits :: symbol_regime_limits where
  "ex_regime_limits = \<lparr>sy_adx_no_trend = Fin 20, sy_adx_strong_trend = Fin 36, sy_minimum_fit = Fin (1 / 2),
     sy_maximum_fit = Fin 1, sy_misaligned_penalty = Fin (1 / 2), sy_minimum_volume_ratio = Fin (1 / 2),
     sy_low_volume_penalty = Fin (1 / 2), sy_compression_range_pct = Fin (1 / 8)\<rparr>"

definition ex_tradeability_limits :: tradeability_limits where
  "ex_tradeability_limits = \<lparr>tl_minimum_price = Fin 1, tl_minimum_average_volume = Fin 1,
     tl_minimum_average_traded_value = Fin 1, tl_minimum_atr_pct = Fin (1 / 2), tl_maximum_atr_pct = Fin 2,
     tl_maximum_gap_pct = Fin 1, tl_average_window = 2, tl_maximum_bar_gap_multiple = Fin 2,
     tl_maximum_reprice_pct = Fin 1, tl_maximum_spread_pct = Fin 1, tl_circuit_proximity_pct = Fin 1\<rparr>"

lemma ex_quotient: "rnd64 (5 / 64) = Fin (5 / 64)" "rnd64 (3 / 2) = Fin (3 / 2)"
  using rnd64_dyadic [of 5 6] rnd64_dyadic [of 3 1] by simp_all

theorem tradeability_order_independent_witness:
  "evaluate_tradeability ex_candles (Fin 1) ex_tradeability_limits (Some ''1m'') None None None = (True, ''TRADEABLE'')
   \<and> evaluate_tradeability (rev ex_candles) (Fin 1) ex_tradeability_limits (Some ''1m'') None None None = (True, ''TRADEABLE'')"
proof -
  have o: "py_sorted candle_lt (filter tc_settled ex_candles) = rev ex_candles"
    by (simp add: ex_candles_def candle_lt_def candle_time_def)
  have "evaluate_tradeability ex_candles (Fin 1) ex_tradeability_limits (Some ''1m'') None None None = (True, ''TRADEABLE'')"
    unfolding evaluate_tradeability_def o Let_def
    by (simp add: ex_candles_def ex_tradeability_limits_def bar_missing_def bar_seconds_def candle_time_def mean_of_def
        gap_reasons_def reprice_reasons_def circuit_reasons_def spread_reasons_def float_of_int_def minus_pyfloat_def
        one_pyfloat_def zero_pyfloat_def numeral_2_eq_2 ex_quotient)
  moreover have "evaluate_tradeability ex_candles (Fin 1) ex_tradeability_limits (Some ''1m'') None None None
      = evaluate_tradeability (rev ex_candles) (Fin 1) ex_tradeability_limits (Some ''1m'') None None None"
    by (rule tradeability_order_independent) (simp_all add: ex_candles_def candle_time_def)
  ultimately show ?thesis by simp
qed


lemma ordinary_half: "ordinary (1 / 2)"
proof -
  have "is_f64 (1 / 2)" using is_f64_powi [of "- 1"] by (simp add: power_int_minus)
  moreover have "(1 :: rat) \<le> 2 powi magnitude" using powi2_le_iff [of 0 magnitude] magnitude_bounds by simp
  then have "(1 / 2 :: rat) \<le> 2 powi magnitude" by linarith
  ultimately show ?thesis by (simp add: ordinary_def)
qed

theorem compression_routes_to_breakouts_witness:
  "technical_generate (Breakout (brk_default ex_breakout)) ex_compressed \<noteq> Inr None
   \<and> (\<forall>g. technical_generate (SuperTrendAdx (sta_default ex_breakout)) ex_compressed \<noteq> Inr (Some g))"
proof -
  have "classify_regime_label (sc_features ex_compressed) ex_regime_limits
      = Inr (re_symbol_regime_label (sc_regime ex_compressed))"
    "map_of (sc_features ex_compressed) ''range_high_20'' = Some (Fin 120)"
    "map_of (sc_features ex_compressed) ''range_low_20'' = Some (Fin 110)"
    "map_of (sc_features ex_compressed) ''close'' = Some (Fin 128)" "Fin 128 \<noteq> 0"
    "fquot (Fin 120 - Fin 110) (Fin 128) < sy_compression_range_pct ex_regime_limits"
    by (simp_all add: classify_regime_label_def ex_compressed_def ex_regime_limits_def minus_pyfloat_def ex_quotient)
  from compression_routes_to_breakouts [OF this] show ?thesis
    using ex_breakout_speaks by fastforce
qed

theorem symbol_fit_accepted_witness:
  "\<exists>fit label. evaluate_symbol_regime [(''adx_14'', Fin 28), (''ema_9'', Fin 2), (''ema_21'', Fin 3),
      (''supertrend_direction'', Fin 2), (''volume_ratio_20'', Fin 3)] ex_regime_limits = Inr (fit, label)
     \<and> regime_evidence_post_init (default_regime\<lparr>re_symbol_fit := fit\<rparr>) = Inr (default_regime\<lparr>re_symbol_fit := fit\<rparr>)"
proof (rule symbol_fit_accepted)
  show "symbol_regime_limits_post_init ex_regime_limits = Inr ex_regime_limits"
    by (simp add: symbol_regime_limits_post_init_def ex_regime_limits_def one_pyfloat_def)
qed (auto simp: ex_regime_limits_def ordinary_numeral ordinary_one intro: exI [of _ "1 / 2"] ordinary_half)

end
