(* ===== verification/Builtin.thy ===== *)
theory Builtin
  imports Technical_Total
begin

text \<open>
  The momentum strategy over version 1 features, src/src/nanodelta/strategies/builtin.py.  Its
  compatibility check asks for features only, so it is the one shipped strategy that the
  evaluator can run; its signals are sound.
\<close>

record momentum_continuation =
  mc_definition :: strategy_definition
  mc_minimum_return :: pyfloat
  mc_minimum_body :: pyfloat
  mc_stop_range_multiple :: pyfloat
  mc_reward_risk :: pyfloat

definition mc_default :: "strategy_definition \<Rightarrow> momentum_continuation" where
  "mc_default d = \<lparr>mc_definition = d, mc_minimum_return = rnd64 (1 / 1000), mc_minimum_body = rnd64 (5 / 10000),
     mc_stop_range_multiple = 1, mc_reward_risk = rnd64 (15 / 10)\<rparr>"

definition mc_compatibility :: "momentum_continuation \<Rightarrow> strategy_context \<Rightarrow> bool \<times> string" where
  "mc_compatibility s c =
     (if \<not> set [''close'', ''return_1'', ''range_pct'', ''body_pct''] \<subseteq> set (map fst (sc_features c))
      then (False, ''REQUIRED_FEATURES_MISSING'') else (True, ''COMPATIBLE''))"

definition mc_generate :: "momentum_continuation \<Rightarrow> strategy_context \<Rightarrow> strategy_signal option result" where
  "mc_generate s c =
     bind_r (feature_at c ''close'') (\<lambda>close.
     bind_r (feature_at c ''return_1'') (\<lambda>change.
     bind_r (feature_at c ''body_pct'') (\<lambda>body.
     if \<bar>change\<bar> < mc_minimum_return s \<or> \<bar>body\<bar> < mc_minimum_body s then Inr None
     else if change * body \<le> 0 then Inr None
     else
       bind_r (feature_at c ''range_pct'') (\<lambda>range_pct.
       let action = (if 0 < change then BUY else SELL);
           distance = close * py_max range_pct (rnd64 (5 / 10000)) * mc_stop_range_multiple s;
           stop = (if action = BUY then close - distance else close + distance);
           target = (if action = BUY then close + distance * mc_reward_risk s else close - distance * mc_reward_risk s);
           confidence = py_min (rnd64 (95 / 100)) (rnd64 (5 / 10) + \<bar>change\<bar> * Fin 20 + \<bar>body\<bar> * Fin 10)
       in bind_r (strategy_signal_post_init
            \<lparr>sg_action = action, sg_confidence = confidence, sg_reference_price = close, sg_stop_price = stop,
             sg_target_price = target, sg_estimated_cost_r = rnd64 (5 / 100), sg_historical_expectancy_r = 0,
             sg_ml_tilt_r = 0\<rparr>) (\<lambda>g. Inr (Some g))))))"

definition momentum_plugin :: "nat \<Rightarrow> momentum_continuation \<Rightarrow> strategy_plugin" where
  "momentum_plugin object s =
     \<lparr>sp_object = object, sp_definition = mc_definition s, sp_compatibility = (\<lambda>c. Inr (mc_compatibility s c)),
      sp_generate = mc_generate s\<rparr>"

definition builtin_definition :: "market \<Rightarrow> strategy_definition result" where
  "builtin_definition m =
     bind_r (strategy_identity_post_init
       \<lparr>si_market = m, si_strategy_id = ''momentum_continuation'', si_strategy_version = ''1.0.0'',
        si_timeframe = ''1m'', si_trade_horizon = ''intraday'', si_feature_set_version = 1\<rparr>) (\<lambda>identity.
     strategy_definition_post_init
       \<lparr>sd_identity = identity, sd_family = ''momentum'',
        sd_parameters = [(''minimum_return'', ''0.001''), (''minimum_body'', ''0.0005''),
          (''stop_range_multiple'', ''1.0''), (''reward_risk'', ''1.5'')],
        sd_implementation_ref = ''nanodelta.strategies.builtin:MomentumContinuationStrategy''\<rparr>)"

definition builtin_strategies :: "momentum_continuation list result" where
  "builtin_strategies = map_r (\<lambda>m. bind_r (builtin_definition m) (\<lambda>d. Inr (mc_default d))) all_markets"

text \<open>A signal follows the direction of the last return, and its body agrees.\<close>

lemma momentum_sound:
  assumes "mc_generate s c = Inr (Some g)"
  shows "strategy_signal_post_init g = Inr g" and "map_of (sc_features c) ''close'' = Some (sg_reference_price g)"
    and "\<exists>change. map_of (sc_features c) ''return_1'' = Some change \<and> (sg_action g = BUY \<longleftrightarrow> 0 < change)"
proof -
  obtain close change body rp conf stop target where r: "map_of (sc_features c) ''close'' = Some close"
    "map_of (sc_features c) ''return_1'' = Some change" and
    g: "strategy_signal_post_init \<lparr>sg_action = (if 0 < change then BUY else SELL), sg_confidence = conf,
      sg_reference_price = close, sg_stop_price = stop, sg_target_price = target, sg_estimated_cost_r = rnd64 (5 / 100),
      sg_historical_expectancy_r = 0, sg_ml_tilt_r = 0\<rparr> = Inr g"
    using assms by (auto simp: mc_generate_def feature_at_Inr Let_def split: if_splits)
  note e = post_init_signal_Inr [OF g]
  show "strategy_signal_post_init g = Inr g" using g e by simp
  show "map_of (sc_features c) ''close'' = Some (sg_reference_price g)" using r e by simp
  show "\<exists>change. map_of (sc_features c) ''return_1'' = Some change \<and> (sg_action g = BUY \<longleftrightarrow> 0 < change)"
    using r e by simp
qed

lemma builtin_shipped: "\<exists>ss. builtin_strategies = Inr ss \<and> map (\<lambda>s. si_market (sd_identity (mc_definition s))) ss = all_markets"
  by (simp add: builtin_strategies_def builtin_definition_def all_markets_def strategy_identity_post_init_def
      strategy_definition_post_init_def str_strip_Cons is_space_def mc_default_def)

end
