(* ===== verification/Supervisor.thy ===== *)
theory Supervisor
  imports Contracts
begin

text \<open>
  The market workers and their supervisor, src/src/nanodelta/runtime/supervisor.py.  A worker
  is an asyncio task that other tasks start, drain, stop and cancel; the task runs without
  interruption between two awaits that suspend, which are the cycle itself and the pause
  between cycles (saving a snapshot never suspends, in neither of the stores).  One
  \<open>worker_step\<close> is such an uninterrupted stretch of the task, of its heartbeat or of a call,
  with the times its clock gave; the interleavings are the runs of the relation.
\<close>

section \<open>Workers\<close>

datatype runtime_state = STARTING | RUNNING | DRAINING | STOPPED | FAILED

record worker_snapshot =
  ws_market :: market
  ws_instance_id :: string
  ws_state :: runtime_state
  ws_last_heartbeat :: instant
  ws_last_cycle_started :: "instant option"
  ws_last_cycle_finished :: "instant option"
  ws_last_error :: "string option"

text \<open>Where the task is suspended: not run yet, inside a cycle, between two cycles, or over.\<close>

datatype task_phase = Created | Cycling | Pausing | Finished

text \<open>\<open>wk_saves\<close> are the snapshots the store was given to save, in order: what \<open>_publish\<close> passed to it.\<close>

record worker =
  wk_snapshot :: worker_snapshot
  wk_store :: "(market, worker_snapshot) dict"
  wk_saves :: "worker_snapshot list"
  wk_stop :: bool
  wk_drain :: bool
  wk_task :: "task_phase option"
  wk_cancelling :: bool
  wk_heartbeat :: bool
  wk_cycles :: nat

definition worker_init ::
  "market \<Rightarrow> string \<Rightarrow> pyfloat \<Rightarrow> pyfloat \<Rightarrow> instant \<Rightarrow> (market, worker_snapshot) dict \<Rightarrow> worker result" where
  "worker_init m instance_id interval_seconds heartbeat_seconds now store =
     (if interval_seconds \<le> 0 \<or> heartbeat_seconds \<le> 0
        then Inl (ValueError ''worker intervals must be positive'')
      else Inr \<lparr>wk_snapshot = \<lparr>ws_market = m, ws_instance_id = instance_id, ws_state = STOPPED,
                  ws_last_heartbeat = now, ws_last_cycle_started = None, ws_last_cycle_finished = None,
                  ws_last_error = None\<rparr>,
                wk_store = store, wk_saves = [], wk_stop = False, wk_drain = False, wk_task = None,
                wk_cancelling = False, wk_heartbeat = False, wk_cycles = 0\<rparr>)"

text \<open>\<open>_publish\<close>: an argument \<open>None\<close> leaves the field as it is.\<close>

definition publish ::
  "runtime_state option \<Rightarrow> instant option option \<Rightarrow> instant option option \<Rightarrow> string option option \<Rightarrow> instant
     \<Rightarrow> worker \<Rightarrow> worker" where
  "publish state started finished err now w =
     (let c = wk_snapshot w;
          s = \<lparr>ws_market = ws_market c, ws_instance_id = ws_instance_id c,
               ws_state = (case state of None \<Rightarrow> ws_state c | Some x \<Rightarrow> x), ws_last_heartbeat = now,
               ws_last_cycle_started = (case started of None \<Rightarrow> ws_last_cycle_started c | Some x \<Rightarrow> x),
               ws_last_cycle_finished = (case finished of None \<Rightarrow> ws_last_cycle_finished c | Some x \<Rightarrow> x),
               ws_last_error = (case err of None \<Rightarrow> ws_last_error c | Some x \<Rightarrow> x)\<rparr>
      in w\<lparr>wk_snapshot := s, wk_store := AList.update (ws_market s) s (wk_store w), wk_saves := wk_saves w @ [s]\<rparr>)"

definition alive :: "worker \<Rightarrow> bool" where
  "alive w \<longleftrightarrow> wk_task w \<noteq> None \<and> wk_task w \<noteq> Some Finished"

definition worker_start :: "instant \<Rightarrow> worker \<Rightarrow> worker" where
  "worker_start now w =
     (if alive w then w
      else (publish (Some STARTING) None None (Some None) now (w\<lparr>wk_stop := False, wk_drain := False\<rparr>))
             \<lparr>wk_task := Some Created, wk_cancelling := False, wk_heartbeat := True\<rparr>)"

text \<open>Up to the point where \<open>drain\<close>, \<open>stop\<close> and \<open>cancel\<close> wait for the task.\<close>

definition worker_drain :: "instant \<Rightarrow> worker \<Rightarrow> worker" where
  "worker_drain now w =
     (if alive w then publish (Some DRAINING) None None None now (w\<lparr>wk_drain := True\<rparr>) else w)"

definition worker_stop :: "worker \<Rightarrow> worker" where
  "worker_stop w = w\<lparr>wk_stop := True\<rparr>"

definition worker_cancel :: "worker \<Rightarrow> worker" where
  "worker_cancel w = (if alive w then w\<lparr>wk_stop := True, wk_cancelling := True\<rparr> else w\<lparr>wk_stop := True\<rparr>)"

text \<open>
  A caller that waits for the task in \<open>drain\<close> or \<open>stop\<close> is cancelled itself, as the deadline of
  \<open>shutdown\<close> does to every \<open>drain\<close>: awaiting a task hands the cancellation on to it, and the
  stop event is not set.
\<close>

definition caller_cancelled :: "worker \<Rightarrow> worker" where
  "caller_cancelled w = (if alive w then w\<lparr>wk_cancelling := True\<rparr> else w)"

text \<open>After the task: \<open>_finish_heartbeat\<close>.\<close>

definition finish_heartbeat :: "worker \<Rightarrow> worker" where
  "finish_heartbeat w = w\<lparr>wk_heartbeat := False\<rparr>"

definition heartbeat :: "instant \<Rightarrow> worker \<Rightarrow> worker" where
  "heartbeat now w =
     (if \<not> wk_stop w \<and> ws_state (wk_snapshot w) \<noteq> STOPPED then publish None None None None now w
      else w\<lparr>wk_heartbeat := False\<rparr>)"

section \<open>The task\<close>

text \<open>The head of the loop: another cycle, or the end with its \<open>finally\<close>.\<close>

definition loop_head :: "instant \<Rightarrow> instant \<Rightarrow> worker \<Rightarrow> worker" where
  "loop_head started now w =
     (if \<not> wk_stop w \<and> \<not> wk_drain w
      then (publish None (Some (Some started)) None (Some None) now w)
             \<lparr>wk_task := Some Cycling, wk_cycles := wk_cycles w + 1\<rparr>
      else (publish (Some STOPPED) None None None now w)\<lparr>wk_task := Some Finished\<rparr>)"

definition cycle_end :: "string option \<Rightarrow> instant \<Rightarrow> instant \<Rightarrow> worker \<Rightarrow> worker" where
  "cycle_end err finished now w =
     (publish None None (Some (Some finished)) (Some err) now w)\<lparr>wk_task := Some Pausing\<rparr>"

definition task_cancelled :: "instant \<Rightarrow> instant \<Rightarrow> worker \<Rightarrow> worker" where
  "task_cancelled failed now w =
     (publish (Some STOPPED) None None None now
       (publish (Some FAILED) None None (Some (Some ''worker cancelled'')) failed w))\<lparr>wk_task := Some Finished\<rparr>"

text \<open>A task that is cancelled before it ran never enters \<open>_run\<close>: no clause of it sees the cancellation.\<close>

datatype worker_event = Start | Drain | Stop | Cancel | Caller_Cancelled | Settle | Beat
  | Task_Runs | Cycle_Returns | Cycle_Raises string | Task_Resumes | Task_Cancelled

inductive worker_step :: "worker \<Rightarrow> worker_event \<Rightarrow> worker \<Rightarrow> bool" where
  start: "worker_step w Start (worker_start now w)"
| drain: "worker_step w Drain (worker_drain now w)"
| stop: "worker_step w Stop (worker_stop w)"
| cancel: "worker_step w Cancel (worker_cancel w)"
| caller_cancelled: "wk_drain w \<or> wk_stop w \<Longrightarrow> worker_step w Caller_Cancelled (caller_cancelled w)"
| settle: "\<not> alive w \<Longrightarrow> worker_step w Settle (finish_heartbeat w)"
| beat: "wk_heartbeat w \<Longrightarrow> worker_step w Beat (heartbeat now w)"
| run: "wk_task w = Some Created \<Longrightarrow> \<not> wk_cancelling w \<Longrightarrow>
    worker_step w Task_Runs (loop_head started now (publish (Some RUNNING) None None None first w))"
| cycle_returns: "wk_task w = Some Cycling \<Longrightarrow> worker_step w Cycle_Returns (cycle_end None finished now w)"
| cycle_raises: "wk_task w = Some Cycling \<Longrightarrow> worker_step w (Cycle_Raises e) (cycle_end (Some e) finished now w)"
| resume: "wk_task w = Some Pausing \<Longrightarrow> worker_step w Task_Resumes (loop_head started now w)"
| cancelled_unrun: "wk_task w = Some Created \<Longrightarrow> wk_cancelling w \<Longrightarrow>
    worker_step w Task_Cancelled (w\<lparr>wk_task := Some Finished\<rparr>)"
| cancelled: "wk_task w = Some Cycling \<or> wk_task w = Some Pausing \<Longrightarrow> wk_cancelling w \<Longrightarrow>
    worker_step w Task_Cancelled (task_cancelled failed now w)"

inductive_cases worker_stepE: "worker_step w e w'"

inductive worker_run :: "worker \<Rightarrow> worker_event list \<Rightarrow> worker \<Rightarrow> bool" where
  none: "worker_run w [] w"
| more: "worker_step w e w' \<Longrightarrow> worker_run w' es w'' \<Longrightarrow> worker_run w (e # es) w''"

inductive_cases worker_run_ConsE: "worker_run w (e # es) w''"
inductive_cases worker_run_NilE: "worker_run w [] w'"

fun task_event :: "worker_event \<Rightarrow> bool" where
  "task_event Task_Runs = True"
| "task_event Cycle_Returns = True"
| "task_event (Cycle_Raises _) = True"
| "task_event Task_Resumes = True"
| "task_event Task_Cancelled = True"
| "task_event _ = False"

section \<open>The supervisor\<close>

definition repr_strings :: "string list \<Rightarrow> string" where
  "repr_strings xs = ''['' @ str_join '', '' (map repr_str xs) @ '']''"

definition supervisor_init :: "(market, 'w) dict \<Rightarrow> (market, 'w) dict result" where
  "supervisor_init workers =
     (if set (map fst workers) \<noteq> set all_markets
        then Inl (ValueError (''workers must cover all markets; missing=''
               @ repr_strings (sort (map market_value (filter (\<lambda>m. m \<notin> set (map fst workers)) all_markets)))
               @ '', extra='' @ repr_strings []))
      else Inr workers)"

definition supervisor_start :: "instant \<Rightarrow> (market, worker) dict \<Rightarrow> (market, worker) dict" where
  "supervisor_start now = map (\<lambda>(m, w). (m, worker_start now w))"

text \<open>
  \<open>shutdown\<close> up to the end of the drain, and what it does when the deadline passes: the
  time-out cancels the waiting drains, then every worker is cancelled.
\<close>

definition supervisor_shutdown :: "pyfloat \<Rightarrow> instant \<Rightarrow> (market, worker) dict \<Rightarrow> (market, worker) dict result" where
  "supervisor_shutdown drain_timeout_seconds now ws =
     (if drain_timeout_seconds \<le> 0 then Inl (ValueError ''drain timeout must be positive'')
      else Inr (map (\<lambda>(m, w). (m, worker_drain now w)) ws))"

definition supervisor_deadline :: "(market, worker) dict \<Rightarrow> (market, worker) dict" where
  "supervisor_deadline = map (\<lambda>(m, w). (m, worker_cancel (if wk_drain w then caller_cancelled w else w)))"

section \<open>What a step changes\<close>

lemma publish_simps [simp]:
  "wk_stop (publish st a f er t w) = wk_stop w"
  "wk_drain (publish st a f er t w) = wk_drain w"
  "wk_task (publish st a f er t w) = wk_task w"
  "wk_cancelling (publish st a f er t w) = wk_cancelling w"
  "wk_heartbeat (publish st a f er t w) = wk_heartbeat w"
  "wk_cycles (publish st a f er t w) = wk_cycles w"
  "wk_saves (publish st a f er t w) = wk_saves w @ [wk_snapshot (publish st a f er t w)]"
  "ws_market (wk_snapshot (publish st a f er t w)) = ws_market (wk_snapshot w)"
  "ws_state (wk_snapshot (publish st a f er t w)) = (case st of None \<Rightarrow> ws_state (wk_snapshot w) | Some x \<Rightarrow> x)"
  "ws_last_error (wk_snapshot (publish st a f er t w)) = (case er of None \<Rightarrow> ws_last_error (wk_snapshot w) | Some x \<Rightarrow> x)"
  "m = ws_market (wk_snapshot w) \<Longrightarrow> map_of (wk_store (publish st a f er t w)) m = Some (wk_snapshot (publish st a f er t w))"
  by (simp_all add: publish_def Let_def)

lemmas worker_ops = worker_start_def worker_drain_def worker_stop_def worker_cancel_def caller_cancelled_def finish_heartbeat_def
  heartbeat_def loop_head_def cycle_end_def task_cancelled_def

definition winding_down :: "worker \<Rightarrow> bool" where
  "winding_down w \<longleftrightarrow> wk_stop w \<or> wk_drain w"

lemma winding_down_step:
  assumes "worker_step w e w'" and "winding_down w" and "e \<noteq> Start"
  shows "winding_down w'" and "wk_cycles w' = wk_cycles w"
  using assms by (auto elim!: worker_stepE simp: worker_ops winding_down_def split: if_splits)

text \<open>How many more times a task that winds down is resumed.\<close>

fun resumptions :: "task_phase option \<Rightarrow> nat" where
  "resumptions (Some Created) = 1"
| "resumptions (Some Cycling) = 2"
| "resumptions (Some Pausing) = 1"
| "resumptions _ = 0"

lemma resumptions_step:
  assumes "worker_step w e w'" and "winding_down w" and "e \<noteq> Start"
  shows "resumptions (wk_task w') + (if task_event e then 1 else 0) \<le> resumptions (wk_task w)"
    and "\<not> task_event e \<Longrightarrow> wk_task w' = wk_task w"
  using assms by (auto elim!: worker_stepE simp: worker_ops winding_down_def split: if_splits)

lemma alive_resumptions: "alive w \<longleftrightarrow> 0 < resumptions (wk_task w)"
  by (cases "wk_task w" rule: resumptions.cases) (auto simp: alive_def)

lemma winding_down_run:
  assumes "worker_run w es w'" and "winding_down w" and "Start \<notin> set es"
  shows "wk_cycles w' = wk_cycles w
     \<and> resumptions (wk_task w') + length (filter task_event es) \<le> resumptions (wk_task w)"
  using assms
proof (induction rule: worker_run.induct)
  case (more w e w' es w'')
  then have e: "e \<noteq> Start" by auto
  note s = winding_down_step [OF more.hyps(1) more.prems(1) e]
  have "resumptions (wk_task w') + (if task_event e then 1 else 0) \<le> resumptions (wk_task w)"
    using resumptions_step(1) [OF more.hyps(1) more.prems(1) e] .
  moreover have "wk_cycles w'' = wk_cycles w'
     \<and> resumptions (wk_task w'') + length (filter task_event es) \<le> resumptions (wk_task w')"
    using more.IH s(1) more.prems(2) by simp
  ultimately show ?case using s(2) by (auto split: if_splits)
qed simp

lemma task_not_stuck: "alive w \<Longrightarrow> \<exists>e w'. task_event e \<and> worker_step w e w'"
proof -
  assume "alive w"
  then consider "wk_task w = Some Created" | "wk_task w = Some Cycling" | "wk_task w = Some Pausing"
    by (cases "wk_task w" rule: resumptions.cases) (auto simp: alive_def)
  then show ?thesis
  proof cases
    case 1
    then show ?thesis using worker_step.run [OF 1] worker_step.cancelled_unrun [OF 1] task_event.simps(1,5)
      by (cases "wk_cancelling w") blast+
  next
    case 2
    then show ?thesis using worker_step.cycle_returns [OF 2] task_event.simps(2) by blast
  next
    case 3
    then show ?thesis using worker_step.resume [OF 3] task_event.simps(4) by blast
  qed
qed

section \<open>Properties\<close>

text \<open>
  C28: A worker that is draining or stopping starts no further cycle: whatever else happens,
  short of a new start, the number of cycles stays.  The task is resumed at most twice more
  and then is over; and while it is not over it can always be resumed, so a drain that waits
  for the task comes to an end once the cycle in flight does.
\<close>

theorem drain_is_final:
  assumes "worker_run w es w'" and "winding_down w" and "Start \<notin> set es"
  shows "wk_cycles w' = wk_cycles w \<and> length (filter task_event es) \<le> 2
     \<and> (length (filter task_event es) = 2 \<longrightarrow> \<not> alive w')
     \<and> (alive w' \<longrightarrow> (\<exists>e w''. task_event e \<and> worker_step w' e w''))"
proof -
  have "resumptions (wk_task w) \<le> 2" by (cases "wk_task w" rule: resumptions.cases) auto
  then show ?thesis using winding_down_run [OF assms] task_not_stuck by (auto simp: alive_resumptions)
qed

section \<open>What a published state says\<close>

inductive_simps worker_run_simps: "worker_run w [] w'" "worker_run w (e # es) w''"

lemma worker_run_snoc: "worker_run w (es @ [e]) w'' \<longleftrightarrow> (\<exists>w'. worker_run w es w' \<and> worker_step w' e w'')"
  by (induction es arbitrary: w) (auto simp: worker_run_simps)

text \<open>The invariant of a worker: what its published state says of its task.\<close>

definition worker_ok :: "worker \<Rightarrow> bool" where
  "worker_ok w \<longleftrightarrow>
     (case wk_task w of
        None \<Rightarrow> ws_state (wk_snapshot w) = STOPPED
      | Some Created \<Rightarrow> ws_state (wk_snapshot w) = (if wk_drain w then DRAINING else STARTING)
      | Some Finished \<Rightarrow> ws_state (wk_snapshot w) \<in> {STOPPED, if wk_drain w then DRAINING else STARTING}
      | Some _ \<Rightarrow> ws_state (wk_snapshot w) = (if wk_drain w then DRAINING else RUNNING))"

lemma worker_ok_step: "worker_step w e w' \<Longrightarrow> worker_ok w \<Longrightarrow> worker_ok w'"
  by (erule worker_stepE) (auto simp: worker_ops worker_ok_def alive_def split: option.splits task_phase.splits if_splits)

lemma worker_ok_run: "worker_run w es w' \<Longrightarrow> worker_ok w \<Longrightarrow> worker_ok w'"
  by (induction rule: worker_run.induct) (auto dest: worker_ok_step)

text \<open>The store: its entry of the market is the last snapshot saved, and a failure saved is overwritten at once.\<close>

definition overwrites :: "worker_snapshot \<Rightarrow> worker_snapshot \<Rightarrow> bool" where
  "overwrites s s' \<longleftrightarrow>
     (ws_state s = FAILED \<longrightarrow> ws_state s' = STOPPED \<and> ws_last_error s' = ws_last_error s)"

definition saves_ok :: "(market, worker_snapshot) dict \<Rightarrow> worker \<Rightarrow> bool" where
  "saves_ok store w \<longleftrightarrow> successively overwrites (wk_saves w)
     \<and> (if wk_saves w = [] then wk_task w = None \<and> \<not> wk_heartbeat w \<and> wk_store w = store
        else last (wk_saves w) = wk_snapshot w
          \<and> map_of (wk_store w) (ws_market (wk_snapshot w)) = Some (wk_snapshot w))"

lemma worker_ok_not_failed: "worker_ok w \<Longrightarrow> ws_state (wk_snapshot w) \<noteq> FAILED"
  by (auto simp: worker_ok_def split: option.splits task_phase.splits if_splits)

lemma saves_ok_step:
  assumes "worker_step w e w'" and "worker_ok w" and "saves_ok store w"
  shows "saves_ok store w'"
  using assms(1,3) worker_ok_not_failed [OF assms(2)]
  by (cases rule: worker_step.cases)
    (auto simp: worker_ops saves_ok_def overwrites_def successively_append_iff alive_def split: if_splits)

lemma saves_ok_run: "worker_run w es w' \<Longrightarrow> worker_ok w \<Longrightarrow> saves_ok store w \<Longrightarrow> saves_ok store w'"
  by (induction rule: worker_run.induct) (auto dest: worker_ok_step saves_ok_step)

text \<open>A task that ended without being published as STOPPED was cancelled before it ran.\<close>

definition cancelled_unrun :: "worker \<Rightarrow> worker_event list \<Rightarrow> bool" where
  "cancelled_unrun w0 es \<longleftrightarrow>
     (\<exists>es1 w1 es2. es = es1 @ Task_Cancelled # es2 \<and> worker_run w0 es1 w1
        \<and> wk_task w1 = Some Created \<and> wk_cancelling w1
        \<and> Start \<notin> set es2 \<and> filter task_event es2 = [])"

lemma cancelled_unrunI:
  "worker_run w0 es1 w1 \<Longrightarrow> wk_task w1 = Some Created \<Longrightarrow> wk_cancelling w1 \<Longrightarrow>
     Start \<notin> set es2 \<Longrightarrow> filter task_event es2 = [] \<Longrightarrow> cancelled_unrun w0 (es1 @ Task_Cancelled # es2)"
  unfolding cancelled_unrun_def by blast

lemma cancelled_unrun_keep:
  assumes "cancelled_unrun w0 es" and "e \<noteq> Start" and "\<not> task_event e"
  shows "cancelled_unrun w0 (es @ [e])"
proof -
  obtain es1 w1 es2 where "es = es1 @ Task_Cancelled # es2" "worker_run w0 es1 w1" "wk_task w1 = Some Created"
    "wk_cancelling w1" "Start \<notin> set es2" "filter task_event es2 = []"
    using assms(1) by (auto simp: cancelled_unrun_def)
  then show ?thesis using assms(2,3) cancelled_unrunI [of w0 es1 w1 "es2 @ [e]"] by simp
qed

lemma unpublished_end_step:
  assumes "worker_step w e w'" and "wk_task w' = Some Finished" and "ws_state (wk_snapshot w') \<noteq> STOPPED"
  shows "e = Task_Cancelled \<and> wk_task w = Some Created \<and> wk_cancelling w
    \<or> e \<noteq> Start \<and> \<not> task_event e \<and> wk_task w = Some Finished \<and> ws_state (wk_snapshot w) \<noteq> STOPPED"
  using assms by (cases rule: worker_step.cases) (auto simp: worker_ops alive_def split: if_splits)

lemma unpublished_end:
  assumes "worker_run w0 es w" and "wk_task w0 = None"
    and "wk_task w = Some Finished" and "ws_state (wk_snapshot w) \<noteq> STOPPED"
  shows "cancelled_unrun w0 es"
  using assms
proof (induction es arbitrary: w rule: rev_induct)
  case Nil
  then show ?case by (auto simp: worker_run_simps)
next
  case (snoc e es)
  then obtain w1 where w1: "worker_run w0 es w1" "worker_step w1 e w" by (auto simp: worker_run_snoc)
  from unpublished_end_step [OF w1(2) snoc.prems(3,4)] show ?case
  proof (elim disjE conjE)
    assume "e = Task_Cancelled" "wk_task w1 = Some Created" "wk_cancelling w1"
    then show ?thesis using cancelled_unrunI [OF w1(1), of "[]"] by simp
  next
    assume "e \<noteq> Start" "\<not> task_event e" "wk_task w1 = Some Finished" "ws_state (wk_snapshot w1) \<noteq> STOPPED"
    then show ?thesis using snoc.IH [OF w1(1) snoc.prems(2)] cancelled_unrun_keep by blast
  qed
qed

text \<open>
  C29: What a published state says of the task, in every reachable moment.  RUNNING is
  published only while the task runs and is not asked to drain, and STOPPED only while no
  task is alive.  STARTING and DRAINING belong to a task that is alive, with one exception
  the code has: a task that was cancelled before it ever ran ends without publishing
  anything, so the state it was started or drained with stays until the next start.
  FAILED is saved when a running task is cancelled, but the save that follows in the same
  stretch is STOPPED with the same error, so FAILED is never the last state saved, and
  with a store whose \<open>save\<close> does not suspend no other task sees it.  The store's entry of
  the market is always the last snapshot saved, which is the worker's own.
\<close>

theorem published_state_truthful:
  assumes "worker_init m instance_id interval beat now store = Inr w0" and "worker_run w0 es w"
  shows "(ws_state (wk_snapshot w) = RUNNING \<longrightarrow> wk_task w \<in> {Some Cycling, Some Pausing} \<and> \<not> wk_drain w)
     \<and> (ws_state (wk_snapshot w) = STOPPED \<longrightarrow> \<not> alive w)
     \<and> (ws_state (wk_snapshot w) = STARTING \<longrightarrow> \<not> wk_drain w \<and> (wk_task w = Some Created \<or> cancelled_unrun w0 es))
     \<and> (ws_state (wk_snapshot w) = DRAINING \<longrightarrow> wk_drain w \<and> (alive w \<or> cancelled_unrun w0 es))
     \<and> ws_state (wk_snapshot w) \<noteq> FAILED
     \<and> successively (\<lambda>s s'. ws_state s = FAILED \<longrightarrow> ws_state s' = STOPPED \<and> ws_last_error s' = ws_last_error s)
         (wk_saves w)
     \<and> (if wk_saves w = [] then wk_task w = None \<and> wk_store w = store
        else last (wk_saves w) = wk_snapshot w
          \<and> map_of (wk_store w) (ws_market (wk_snapshot w)) = Some (wk_snapshot w))"
proof -
  have init: "worker_ok w0" "saves_ok store w0" "wk_task w0 = None"
    using assms(1) by (auto simp: worker_init_def worker_ok_def saves_ok_def split: if_splits)
  have ok: "worker_ok w" using worker_ok_run [OF assms(2) init(1)] .
  have "saves_ok store w" using saves_ok_run [OF assms(2) init(1,2)] .
  moreover have "wk_task w = Some Finished \<Longrightarrow> ws_state (wk_snapshot w) \<noteq> STOPPED \<Longrightarrow> cancelled_unrun w0 es"
    using unpublished_end [OF assms(2) init(3)] .
  ultimately show ?thesis using ok worker_ok_not_failed [OF ok]
    by (auto simp: worker_ok_def saves_ok_def alive_def overwrites_def [abs_def]
        split: option.splits task_phase.splits if_splits)
qed

section \<open>An example\<close>

definition ex_worker :: worker where
  "ex_worker = \<lparr>wk_snapshot = \<lparr>ws_market = NSE, ws_instance_id = ''i'', ws_state = STOPPED, ws_last_heartbeat = 0,
     ws_last_cycle_started = None, ws_last_cycle_finished = None, ws_last_error = None\<rparr>, wk_store = [], wk_saves = [],
     wk_stop = False, wk_drain = False, wk_task = None, wk_cancelling = False, wk_heartbeat = False, wk_cycles = 0\<rparr>"

definition ex_cycling :: worker where
  "ex_cycling = loop_head 2 3 (publish (Some RUNNING) None None None 1 (worker_start 0 ex_worker))"

lemma ex_cycling_phase: "wk_task ex_cycling = Some Cycling" "wk_cycles ex_cycling = 1"
  by (simp_all add: ex_cycling_def loop_head_def worker_start_def alive_def ex_worker_def)

lemma ex_cycling_run: "worker_run ex_worker [Start, Task_Runs] ex_cycling"
  unfolding ex_cycling_def
  by (rule worker_run.more [OF worker_step.start worker_run.more [OF worker_step.run worker_run.none]])
    (simp_all add: worker_start_def alive_def ex_worker_def)

theorem drain_is_final_witness:
  "\<exists>w'. worker_run (worker_drain 4 ex_cycling) [Cycle_Raises ''boom'', Task_Resumes] w'
     \<and> wk_cycles w' = 1 \<and> \<not> alive w'"
proof -
  let ?w = "worker_drain 4 ex_cycling" and ?c = "cycle_end (Some ''boom'') 5 6"
  have "worker_run ?w [Cycle_Raises ''boom'', Task_Resumes] (loop_head 7 8 (?c ?w))"
    by (rule worker_run.more [OF worker_step.cycle_raises worker_run.more [OF worker_step.resume worker_run.none]])
      (simp_all add: worker_drain_def cycle_end_def ex_cycling_phase alive_def)
  moreover have "winding_down ?w" "wk_cycles ?w = 1"
    by (simp_all add: winding_down_def worker_drain_def alive_def ex_cycling_phase)
  ultimately show ?thesis using drain_is_final [of ?w] by fastforce
qed

text \<open>A task cancelled in its cycle, and one cancelled before it ran.\<close>

definition ex_cancelled :: worker where
  "ex_cancelled = task_cancelled 4 5 (worker_cancel ex_cycling)"

definition ex_unrun :: worker where
  "ex_unrun = (worker_cancel (worker_drain 1 (worker_start 0 ex_worker)))\<lparr>wk_task := Some Finished\<rparr>"

lemma ex_cancelled_run: "worker_run ex_worker [Start, Task_Runs, Cancel, Task_Cancelled] ex_cancelled"
proof -
  have "worker_step (worker_cancel ex_cycling) Task_Cancelled ex_cancelled"
    unfolding ex_cancelled_def by (rule worker_step.cancelled) (simp_all add: worker_cancel_def alive_def ex_cycling_phase)
  then have "worker_run ex_cycling [Cancel, Task_Cancelled] ex_cancelled"
    by (intro worker_run.more [OF worker_step.cancel] worker_run.more [OF _ worker_run.none])
  then show ?thesis using ex_cycling_run by (auto simp: worker_run_simps)
qed

lemma ex_unrun_run: "worker_run ex_worker [Start, Drain, Cancel, Task_Cancelled] ex_unrun"
proof -
  have "worker_step (worker_cancel (worker_drain 1 (worker_start 0 ex_worker))) Task_Cancelled ex_unrun"
    unfolding ex_unrun_def by (rule worker_step.cancelled_unrun) (simp_all add: worker_ops alive_def ex_worker_def)
  then show ?thesis
    by (rule worker_run.more [OF worker_step.start worker_run.more [OF worker_step.drain
        worker_run.more [OF worker_step.cancel worker_run.more [OF _ worker_run.none]]]])
qed

theorem published_state_truthful_witness:
  "worker_init NSE ''i'' 1 1 0 [] = Inr ex_worker
   \<and> map ws_state (wk_saves ex_cancelled) = [STARTING, RUNNING, RUNNING, FAILED, STOPPED]
   \<and> map_of (wk_store ex_cancelled) NSE = Some (last (wk_saves ex_cancelled))
   \<and> \<not> alive ex_cancelled
   \<and> map ws_state (wk_saves ex_unrun) = [STARTING, DRAINING] \<and> \<not> alive ex_unrun
   \<and> cancelled_unrun ex_worker [Start, Drain, Cancel, Task_Cancelled]"
proof -
  have i: "worker_init NSE ''i'' 1 1 0 [] = Inr ex_worker"
    by (simp add: worker_init_def ex_worker_def one_pyfloat_def)
  have m: "ws_market (wk_snapshot ex_cancelled) = NSE" "ws_state (wk_snapshot ex_unrun) = DRAINING" "\<not> alive ex_unrun"
    "ws_state (wk_snapshot ex_cancelled) = STOPPED"
    and saves: "map ws_state (wk_saves ex_cancelled) = [STARTING, RUNNING, RUNNING, FAILED, STOPPED]"
    "map ws_state (wk_saves ex_unrun) = [STARTING, DRAINING]"
    by (simp_all add: ex_cancelled_def ex_unrun_def ex_cycling_def worker_ops alive_def ex_worker_def)
  then have "wk_saves ex_cancelled \<noteq> []" by auto
  then show ?thesis
    using published_state_truthful [OF i ex_cancelled_run] published_state_truthful [OF i ex_unrun_run] i m saves
    by simp
qed

end
