(* ===== verification/Nse_Session.thy ===== *)
theory Nse_Session
  imports Timeframes
begin

text \<open>
  The status of the NSE equity session, src/src/nanodelta/markets/nse\_session.py.  India
  keeps one offset, five and a half hours ahead of UTC, since 1945; the local time of an
  instant is the instant moved by it.  \<open>date.fromisoformat\<close> is the parameter \<open>parse_date\<close>,
  which gives the number of the day or nothing where Python raises.
\<close>

definition ist_offset :: int where
  "ist_offset = (5 * 3600 + 30 * 60) * us_per_second"

datatype nse_session_state = SESSION_OPEN | SESSION_CLOSED

record nse_session_snapshot =
  nx_state :: nse_session_state
  nx_as_of :: instant
  nx_local_date :: int
  nx_normal_open :: string
  nx_normal_close :: string
  nx_reason :: string
  nx_holiday_calendar_year :: "int option"
  nx_holiday_calendar_complete :: bool

fun split_on :: "char \<Rightarrow> string \<Rightarrow> string list" where
  "split_on sep [] = [[]]"
| "split_on sep (c # cs) =
     (if c = sep then [] # split_on sep cs
      else case split_on sep cs of [] \<Rightarrow> [[c]] | w # ws \<Rightarrow> (c # w) # ws)"

definition env_get :: "(string, string) dict \<Rightarrow> string \<Rightarrow> string" where
  "env_get env k = (case map_of env k of None \<Rightarrow> [] | Some v \<Rightarrow> v)"

definition nse_holidays :: "(string \<Rightarrow> int option) \<Rightarrow> (string, string) dict \<Rightarrow> int list result" where
  "nse_holidays parse_date env =
     map_r (\<lambda>v. case parse_date v of
              None \<Rightarrow> Inl (RuntimeError ''NANODELTA_NSE_HOLIDAYS must contain comma-separated ISO dates'')
            | Some d \<Rightarrow> Inr d)
       (filter (\<lambda>v. v \<noteq> []) (map str_strip (split_on CHR '','' (env_get env ''NANODELTA_NSE_HOLIDAYS''))))"

definition calendar_year :: "(string, string) dict \<Rightarrow> int option result" where
  "calendar_year env =
     (let raw = str_strip (env_get env ''NANODELTA_NSE_HOLIDAY_CALENDAR_YEAR'') in
      if raw = [] then Inr None
      else case py_int raw of
             None \<Rightarrow> Inl (RuntimeError ''NANODELTA_NSE_HOLIDAY_CALENDAR_YEAR must be a year'')
           | Some y \<Rightarrow> Inr (Some y))"

definition year_of :: "int \<Rightarrow> int" where
  "year_of day = fst (civil_of_days day)"

definition session_status :: "instant \<Rightarrow> int list \<Rightarrow> nse_session_state \<times> string" where
  "session_status local holidays =
     (if 5 \<le> weekday local then (SESSION_CLOSED, ''WEEKEND'')
      else if date_of local \<in> set holidays then (SESSION_CLOSED, ''CONFIGURED_TRADING_HOLIDAY'')
      else if time_of_day local < (9 * 3600 + 15 * 60) * us_per_second then (SESSION_CLOSED, ''BEFORE_NORMAL_MARKET'')
      else if (15 * 3600 + 30 * 60) * us_per_second \<le> time_of_day local then (SESSION_CLOSED, ''AFTER_NORMAL_MARKET'')
      else (SESSION_OPEN, ''NORMAL_MARKET_SESSION''))"

definition nse_equity_session ::
  "(string \<Rightarrow> int option) \<Rightarrow> datetime \<Rightarrow> (string, string) dict \<Rightarrow> nse_session_snapshot result" where
  "nse_equity_session parse_date at_t env =
     (case at_t of
        Naive _ \<Rightarrow> Inl (ValueError ''session timestamp must be timezone-aware'')
      | Aware t \<Rightarrow>
          bind_r (dt_add t ist_offset) (\<lambda>local.
           bind_r (calendar_year env) (\<lambda>year.
           bind_r (nse_holidays parse_date env) (\<lambda>holidays.
             Inr \<lparr>nx_state = fst (session_status local holidays), nx_as_of = t, nx_local_date = date_of local,
                  nx_normal_open = ''09:15'', nx_normal_close = ''15:30'',
                  nx_reason = snd (session_status local holidays), nx_holiday_calendar_year = year,
                  nx_holiday_calendar_complete = (year = Some (year_of (date_of local)) \<and> holidays \<noteq> [])\<rparr>))))"

section \<open>The session and the history calendar agree\<close>

lemma day_split:
  assumes "0 \<le> r" and "r < us_per_day"
  shows "(q * us_per_day + r) div us_per_day = q" and "(q * us_per_day + r) mod us_per_day = r"
  using assms by (simp_all add: us_per_day_def us_per_second_def)

text \<open>Inside the window of the session the local day is the UTC day.\<close>

lemma session_day:
  assumes "0 \<le> time_of_day t + d" and "time_of_day t + d < us_per_day"
  shows "date_of (t + d) = date_of t" and "time_of_day (t + d) = time_of_day t + d"
proof -
  have t: "t + d = date_of t * us_per_day + (time_of_day t + d)"
    by (simp add: date_of_def time_of_day_def)
  show "date_of (t + d) = date_of t" "time_of_day (t + d) = time_of_day t + d"
    unfolding date_of_def [of "t + d"] time_of_day_def [of "t + d"] unfolding t
    using day_split [OF assms] by simp_all
qed

lemma time_of_day_bounds: "0 \<le> time_of_day t" "time_of_day t < us_per_day"
  by (simp_all add: time_of_day_def us_per_day_def us_per_second_def)

text \<open>
  Outside the window the local time is outside the session: before it if the local day is
  still the UTC day, and already the small hours of the next day otherwise.
\<close>

lemma session_window:
  "(9 * 3600 + 15 * 60) * us_per_second \<le> time_of_day (t + ist_offset)
     \<and> time_of_day (t + ist_offset) < (15 * 3600 + 30 * 60) * us_per_second
   \<longleftrightarrow> (3 * 3600 + 45 * 60) * us_per_second \<le> time_of_day t \<and> time_of_day t < 10 * 3600 * us_per_second"
proof (cases "time_of_day t + ist_offset < us_per_day")
  case True
  have "0 \<le> time_of_day t + ist_offset"
    using time_of_day_bounds [of t] by (simp add: ist_offset_def us_per_second_def)
  from session_day(2) [OF this True] show ?thesis by (auto simp: ist_offset_def us_per_second_def)
next
  case False
  have "0 \<le> time_of_day t + (ist_offset - us_per_day)" "time_of_day t + (ist_offset - us_per_day) < us_per_day"
    using False time_of_day_bounds [of t] by (auto simp: ist_offset_def us_per_second_def us_per_day_def)
  moreover have "time_of_day (t + ist_offset) = time_of_day (t + (ist_offset - us_per_day))"
    using mod_add_self2 [of "t + (ist_offset - us_per_day)" us_per_day] by (simp add: time_of_day_def)
  ultimately have "time_of_day (t + ist_offset) = time_of_day t + (ist_offset - us_per_day)"
    using session_day(2) by simp
  then show ?thesis using time_of_day_bounds [of t] False
    by (auto simp: ist_offset_def us_per_second_def us_per_day_def)
qed

text \<open>
  C30: The two notions of a trading session agree.  The live session of markets/nse\_session.py,
  computed in Indian time, is open exactly at the instants at which the calendar of
  history/timeframes.py, computed in UTC, expects an intraday candle, provided both are given
  the same holidays.
\<close>

theorem session_agrees_with_calendar:
  assumes "nse_equity_session parse_date (Aware t) env = Inr x" and "nse_holidays parse_date env = Inr days"
    and "date_isoformat (date_of t) \<in> mc_holidays c \<longleftrightarrow> date_of t \<in> set days"
    and "mc_market c = NSE" and "tf \<noteq> ''1d''"
  shows "nx_state x = SESSION_OPEN \<longleftrightarrow> is_expected c t tf"
proof -
  let ?w = "(3 * 3600 + 45 * 60) * us_per_second \<le> time_of_day t \<and> time_of_day t < 10 * 3600 * us_per_second"
  have "dt_add t ist_offset = Inr l \<Longrightarrow> l = t + ist_offset" for l
    by (auto simp: dt_add_def split: if_splits)
  then have x: "nx_state x = fst (session_status (t + ist_offset) days)"
    using assms(1,2) by (auto simp: nse_equity_session_def)
  have day: "date_of (t + ist_offset) = date_of t" if ?w
    using that time_of_day_bounds [of t]
    by (intro session_day(1)) (auto simp: ist_offset_def us_per_second_def us_per_day_def)
  have "nx_state x = SESSION_OPEN \<longleftrightarrow> weekday (t + ist_offset) < 5 \<and> date_of (t + ist_offset) \<notin> set days \<and> ?w"
    unfolding x session_window [symmetric] by (auto simp: session_status_def)
  also have "\<dots> \<longleftrightarrow> weekday t < 5 \<and> date_of t \<notin> set days \<and> ?w" using day by (auto simp: weekday_def)
  also have "\<dots> \<longleftrightarrow> is_expected c t tf" using assms(3-5) by (auto simp: is_expected_def)
  finally show ?thesis .
qed

theorem session_agrees_with_calendar_witness:
  "\<exists>x. nse_equity_session (\<lambda>_. None) (Aware (4 * 3600 * us_per_second)) [] = Inr x \<and> nx_state x = SESSION_OPEN
     \<and> is_expected \<lparr>mc_market = NSE, mc_holidays = {}\<rparr> (4 * 3600 * us_per_second) ''15m''"
proof -
  have "\<exists>x. nse_equity_session (\<lambda>_. None) (Aware (4 * 3600 * us_per_second)) [] = Inr x"
    by (simp add: nse_equity_session_def calendar_year_def nse_holidays_def env_get_def str_strip_def dt_add_def
        dt_min_def dt_max_def ist_offset_def us_per_second_def)
  then obtain x where x: "nse_equity_session (\<lambda>_. None) (Aware (4 * 3600 * us_per_second)) [] = Inr x" by blast
  moreover have h: "nse_holidays (\<lambda>_. None) [] = Inr []" by (simp add: nse_holidays_def env_get_def str_strip_def)
  moreover have e: "is_expected \<lparr>mc_market = NSE, mc_holidays = {}\<rparr> (4 * 3600 * us_per_second) ''15m''"
    by (simp add: is_expected_def weekday_def date_of_def time_of_day_def us_per_day_def us_per_second_def)
  ultimately show ?thesis using session_agrees_with_calendar [OF x h, of "\<lparr>mc_market = NSE, mc_holidays = {}\<rparr>" "''15m''"]
    by simp
qed

end
