(* ===== verification/Paper_Session.thy ===== *)
theory Paper_Session
  imports Decision_Pipeline Etl
begin

text \<open>
  The continuous paper session of src/src/nanodelta/runtime/paper\_session.py: the cycle store
  with its leases (\<open>MemoryPaperSessionStore\<close>, which mirrors the contract of the database
  store of \<open>Postgres_Session\<close>) and the session that processes each set of features once and replays failures.
  The store a session uses, the decision processor and the clock are the fields of
  \<open>session_ops\<close>, the protocols of the source; \<open>uuid4\<close> is a parameter of the memory store.
  Reconciling exit plans is a method of the store in the source, but what it changes are the
  account's exit plans, not the cycles, so here it acts on the processor's world.  The locale
  \<open>cycle_store\<close> is what the session relies on of a store.
\<close>

section \<open>Data\<close>

datatype claim_state = CLAIMED | COMPLETED | BUSY

record decision_result =
  dr_market :: market
  dr_cycle_id :: string
  dr_mode :: cycle_mode
  dr_candidate_count :: int
  dr_allocation_count :: int
  dr_risk_decision_count :: int
  dr_order_count :: int
  dr_exit_count :: int

record session_claim =
  pc_state :: claim_state
  pc_session_cycle_id :: string
  pc_evaluated_at :: instant
  pc_claim_token :: "string option"
  pc_prior_result :: "decision_result option"

record session_run =
  sr_session_cycle_id :: string
  sr_state :: claim_state
  sr_decision :: "decision_result option"

record session_health =
  sh_processed :: int
  sh_replayed :: int
  sh_busy :: int
  sh_failed :: int
  sh_recovered_exit_plans :: int
  sh_last_session_cycle_id :: "string option"
  sh_last_completed_at :: "instant option"
  sh_last_error_type :: "string option"

definition session_health_init :: session_health where
  "session_health_init = \<lparr>sh_processed = 0, sh_replayed = 0, sh_busy = 0, sh_failed = 0,
     sh_recovered_exit_plans = 0, sh_last_session_cycle_id = None, sh_last_completed_at = None,
     sh_last_error_type = None\<rparr>"

section \<open>The memory store\<close>

record memory_cycle =
  cy_evaluated_at :: instant
  cy_state :: string
  cy_claim_token :: "string option"
  cy_locked_until :: "instant option"
  cy_result :: "decision_result option"

text \<open>\<open>ms_drawn\<close> counts the identifiers drawn from \<open>uuid4\<close>; the lease is in microseconds.\<close>

record memory_store =
  ms_lease :: int
  ms_cycles :: "(string, memory_cycle) dict"
  ms_drawn :: nat

definition memory_cycle_of :: "string \<Rightarrow> instant \<Rightarrow> memory_store \<Rightarrow> memory_cycle" where
  "memory_cycle_of i claimed_at s =
     (case map_of (ms_cycles s) i of
        Some cycle \<Rightarrow> cycle
      | None \<Rightarrow> \<lparr>cy_evaluated_at = claimed_at, cy_state = ''PENDING'', cy_claim_token = None,
                 cy_locked_until = None, cy_result = None\<rparr>)"

definition put_cycle :: "string \<Rightarrow> memory_cycle \<Rightarrow> memory_store \<Rightarrow> memory_store" where
  "put_cycle i c s = s\<lparr>ms_cycles := AList.update i c (ms_cycles s)\<rparr>"

definition lease_held :: "memory_cycle \<Rightarrow> instant \<Rightarrow> bool" where
  "lease_held c t \<longleftrightarrow> cy_state c = ''RUNNING'' \<and> (case cy_locked_until c of None \<Rightarrow> False | Some u \<Rightarrow> t < u)"

definition memory_claim :: "(nat \<Rightarrow> string) \<Rightarrow> string \<Rightarrow> instant \<Rightarrow> (memory_store, session_claim) st" where
  "memory_claim uuid4 i claimed_at s =
     (let cycle = memory_cycle_of i claimed_at s; s = put_cycle i cycle s;
          claim = (\<lambda>st token prior. \<lparr>pc_state = st, pc_session_cycle_id = i,
             pc_evaluated_at = cy_evaluated_at cycle, pc_claim_token = token, pc_prior_result = prior\<rparr>)
      in if cy_state cycle = ''COMPLETED'' then (Inr (claim COMPLETED None (cy_result cycle)), s)
         else if lease_held cycle claimed_at then (Inr (claim BUSY None None), s)
         else let token = uuid4 (ms_drawn s);
                  running = cycle\<lparr>cy_state := ''RUNNING'', cy_claim_token := Some token\<rparr>;
                  s = (put_cycle i running s)\<lparr>ms_drawn := ms_drawn s + 1\<rparr>
           in case dt_add claimed_at (ms_lease s) of
                Inl e \<Rightarrow> (Inl e, s)
              | Inr u \<Rightarrow> (Inr (claim CLAIMED (Some token) None),
                          put_cycle i (running\<lparr>cy_locked_until := Some u\<rparr>) s))"

definition memory_reconcile :: "string \<Rightarrow> ('w, int) st" where
  "memory_reconcile account_id = return_st 0"

definition memory_retryable :: "instant \<Rightarrow> (memory_store, feature_record list list) st" where
  "memory_retryable as_of = return_st []"

definition memory_complete :: "session_claim \<Rightarrow> decision_result \<Rightarrow> instant \<Rightarrow> (memory_store, unit) st" where
  "memory_complete claim result completed_at s =
     (case map_of (ms_cycles s) (pc_session_cycle_id claim) of
        None \<Rightarrow> (Inl (KeyError (pc_session_cycle_id claim)), s)
      | Some cycle \<Rightarrow>
          if cy_claim_token cycle \<noteq> pc_claim_token claim
          then (Inl (RuntimeError ''paper session claim was lost before completion''), s)
          else (Inr (), put_cycle (pc_session_cycle_id claim)
                  (cycle\<lparr>cy_state := ''COMPLETED'', cy_locked_until := None, cy_result := Some result\<rparr>) s))"

definition memory_fail :: "session_claim \<Rightarrow> instant \<Rightarrow> string \<Rightarrow> (memory_store, unit) st" where
  "memory_fail claim failed_at error_type s =
     (case map_of (ms_cycles s) (pc_session_cycle_id claim) of
        None \<Rightarrow> (Inl (KeyError (pc_session_cycle_id claim)), s)
      | Some cycle \<Rightarrow>
          (Inr (), if cy_claim_token cycle = pc_claim_token claim
                   then put_cycle (pc_session_cycle_id claim)
                          (cycle\<lparr>cy_state := ''FAILED'', cy_locked_until := None\<rparr>) s
                   else s))"

section \<open>The session\<close>

record ('s, 'w) session_ops =
  so_claim :: "string \<Rightarrow> string list \<Rightarrow> instant \<Rightarrow> instant \<Rightarrow> ('s, session_claim) st"
  so_reconcile :: "string \<Rightarrow> ('w, int) st"
  so_retryable :: "instant \<Rightarrow> ('s, feature_record list list) st"
  so_complete :: "session_claim \<Rightarrow> decision_result \<Rightarrow> instant \<Rightarrow> ('s, unit) st"
  so_fail :: "session_claim \<Rightarrow> instant \<Rightarrow> string \<Rightarrow> ('s, unit) st"
  so_process :: "feature_record list \<Rightarrow> instant \<Rightarrow> ('w, decision_result option) st"
  so_clock :: "'w \<Rightarrow> datetime \<times> 'w"

record ('s, 'w) session =
  sn_account_id :: string
  sn_health :: session_health
  sn_store :: 's
  sn_world :: 'w

definition session_init :: "string \<Rightarrow> 's \<Rightarrow> 'w \<Rightarrow> ('s, 'w) session result" where
  "session_init account_id store w =
     (if str_strip account_id = [] then Inl (ValueError ''paper session account_id is required'')
      else Inr \<lparr>sn_account_id = account_id, sn_health = session_health_init, sn_store = store, sn_world = w\<rparr>)"

definition on_store :: "('s, 'a) st \<Rightarrow> (('s, 'w) session, 'a) st" where
  "on_store = zoom sn_store (\<lambda>t s. s\<lparr>sn_store := t\<rparr>)"

definition on_world :: "('w, 'a) st \<Rightarrow> (('s, 'w) session, 'a) st" where
  "on_world = zoom sn_world (\<lambda>t s. s\<lparr>sn_world := t\<rparr>)"

definition session_clock :: "('s, 'w) session_ops \<Rightarrow> (('s, 'w) session, instant) st" where
  "session_clock ops = on_world (\<lambda>w. case so_clock ops w of (t, w') \<Rightarrow> (utc t ''clock'', w'))"

definition update_health :: "(session_health \<Rightarrow> session_health) \<Rightarrow> (('s, 'w) session, unit) st" where
  "update_health f s = (Inr (), s\<lparr>sn_health := f (sn_health s)\<rparr>)"

text \<open>\<open>type(exc).__name__\<close>\<close>

fun error_class :: "py_error \<Rightarrow> string" where
  "error_class (ValueError _) = ''ValueError''"
| "error_class (PermissionError _) = ''PermissionError''"
| "error_class (LookupError _) = ''LookupError''"
| "error_class (KeyError _) = ''KeyError''"
| "error_class (RuntimeError _) = ''RuntimeError''"
| "error_class (TypeError _) = ''TypeError''"
| "error_class ZeroDivisionError = ''ZeroDivisionError''"
| "error_class (OverflowError _) = ''OverflowError''"
| "error_class (OSError _) = ''OSError''"
| "error_class (OtherError c _) = c"
| "error_class AssertionError = ''AssertionError''"

definition record_ids_of :: "feature_record list \<Rightarrow> string list" where
  "record_ids_of features = py_sorted (<) (map ft_record_id features)"

definition session_cycle_id_of :: "string \<Rightarrow> feature_record list \<Rightarrow> string" where
  "session_cycle_id_of account_id features =
     stable_id [''continuous-nse-paper-session'', account_id,
       repr_tuple (map repr_str (record_ids_of features))]"

definition latest_event :: "feature_record list \<Rightarrow> instant result" where
  "latest_event features =
     (case map ft_event_time features of
        [] \<Rightarrow> Inl (ValueError ''max() iterable argument is empty'')
      | t # ts \<Rightarrow> Inr (foldl max t ts))"

definition run_claimed ::
  "('s, 'w) session_ops \<Rightarrow> feature_record list \<Rightarrow> session_claim \<Rightarrow> (('s, 'w) session, session_run) st" where
  "run_claimed ops features claim s =
     bind_st (on_world (so_reconcile ops (sn_account_id s))) (\<lambda>recovered.
     bind_st (on_world (so_process ops features (pc_evaluated_at claim))) (\<lambda>decision.
       case decision of
         None \<Rightarrow> raise_st (RuntimeError ''non-empty NSE features produced no paper decision result'')
       | Some d \<Rightarrow>
           bind_st (session_clock ops) (\<lambda>completed_at.
           bind_st (on_store (so_complete ops claim d completed_at)) (\<lambda>_.
           bind_st (update_health (\<lambda>h. h\<lparr>sh_processed := sh_processed h + 1,
                sh_recovered_exit_plans := sh_recovered_exit_plans h + recovered,
                sh_last_session_cycle_id := Some (pc_session_cycle_id claim),
                sh_last_completed_at := Some completed_at, sh_last_error_type := None\<rparr>)) (\<lambda>_.
             return_st \<lparr>sr_session_cycle_id = pc_session_cycle_id claim, sr_state = pc_state claim,
                        sr_decision = Some d\<rparr>))))) s"

text \<open>The \<open>except\<close> clause: the failure is stored and counted, then raised again.\<close>

definition record_failure ::
  "('s, 'w) session_ops \<Rightarrow> session_claim \<Rightarrow> py_error \<Rightarrow> (('s, 'w) session, 'a) st" where
  "record_failure ops claim e =
     bind_st (session_clock ops) (\<lambda>failed_at.
     bind_st (on_store (so_fail ops claim failed_at (error_class e))) (\<lambda>_.
     bind_st (update_health (\<lambda>h. h\<lparr>sh_failed := sh_failed h + 1,
          sh_last_session_cycle_id := Some (pc_session_cycle_id claim),
          sh_last_error_type := Some (error_class e)\<rparr>)) (\<lambda>_. raise_st e)))"

definition try_claimed ::
  "('s, 'w) session_ops \<Rightarrow> feature_record list \<Rightarrow> session_claim \<Rightarrow> (('s, 'w) session, session_run) st" where
  "try_claimed ops features claim s =
     (case run_claimed ops features claim s of
        (Inr r, s') \<Rightarrow> (Inr r, s')
      | (Inl e, s') \<Rightarrow> record_failure ops claim e s')"

text \<open>One set of features: the claim, and what follows from its state.\<close>

definition process_front :: "('s, 'w) session_ops \<Rightarrow> feature_record list \<Rightarrow> (('s, 'w) session, session_claim) st" where
  "process_front ops features s =
     bind_st (lift_st (latest_event features)) (\<lambda>event_time.
     bind_st (session_clock ops) (\<lambda>now.
       on_store (so_claim ops (session_cycle_id_of (sn_account_id s) features) (record_ids_of features) event_time now))) s"

definition process_back ::
  "('s, 'w) session_ops \<Rightarrow> feature_record list \<Rightarrow> string \<Rightarrow> session_claim \<Rightarrow> (('s, 'w) session, session_run) st" where
  "process_back ops features i claim =
     (case pc_state claim of
        COMPLETED \<Rightarrow>
          bind_st (update_health (\<lambda>h. h\<lparr>sh_replayed := sh_replayed h + 1, sh_last_session_cycle_id := Some i\<rparr>))
            (\<lambda>_. return_st \<lparr>sr_session_cycle_id = i, sr_state = COMPLETED, sr_decision = pc_prior_result claim\<rparr>)
      | BUSY \<Rightarrow>
          bind_st (update_health (\<lambda>h. h\<lparr>sh_busy := sh_busy h + 1, sh_last_session_cycle_id := Some i\<rparr>))
            (\<lambda>_. return_st \<lparr>sr_session_cycle_id = i, sr_state = BUSY, sr_decision = None\<rparr>)
      | CLAIMED \<Rightarrow> try_claimed ops features claim)"

definition process_one :: "('s, 'w) session_ops \<Rightarrow> feature_record list \<Rightarrow> (('s, 'w) session, session_run) st" where
  "process_one ops features s =
     bind_st (process_front ops features) (process_back ops features (session_cycle_id_of (sn_account_id s) features)) s"

text \<open>A retry that raises is passed over; its failure is in the store.\<close>

definition retry_one :: "('s, 'w) session_ops \<Rightarrow> string set \<Rightarrow> feature_record list \<Rightarrow> (('s, 'w) session, unit) st" where
  "retry_one ops current retry s =
     (if set (map ft_record_id retry) = current then (Inr (), s)
      else (Inr (), snd (process_one ops retry s)))"

definition session_process :: "('s, 'w) session_ops \<Rightarrow> feature_record list \<Rightarrow> (('s, 'w) session, session_run option) st" where
  "session_process ops features =
     (if features = [] then return_st None
      else if set (map ft_market features) \<noteq> {NSE}
        then raise_st (ValueError ''continuous NSE paper session only accepts NSE Gold features'')
      else bind_st (process_one ops features) (\<lambda>rn.
           bind_st (session_clock ops) (\<lambda>as_of.
           bind_st (on_store (so_retryable ops as_of)) (\<lambda>retries.
           bind_st (for_st (retry_one ops (set (map ft_record_id features))) retries) (\<lambda>_.
             return_st (Some rn))))))"

definition memory_ops ::
  "(nat \<Rightarrow> string) \<Rightarrow> (feature_record list \<Rightarrow> instant \<Rightarrow> ('w, decision_result option) st) \<Rightarrow> ('w \<Rightarrow> datetime \<times> 'w)
     \<Rightarrow> (memory_store, 'w) session_ops" where
  "memory_ops uuid4 processor clock =
     \<lparr>so_claim = (\<lambda>i ids event_time. memory_claim uuid4 i), so_reconcile = memory_reconcile,
      so_retryable = memory_retryable, so_complete = memory_complete, so_fail = memory_fail,
      so_process = processor, so_clock = clock\<rparr>"

lemma memory_ops_simps [simp]:
  "so_claim (memory_ops uuid4 processor clock) i ids event_time = memory_claim uuid4 i"
  "so_reconcile (memory_ops uuid4 processor clock) = memory_reconcile"
  "so_retryable (memory_ops uuid4 processor clock) = memory_retryable"
  "so_complete (memory_ops uuid4 processor clock) = memory_complete"
  "so_fail (memory_ops uuid4 processor clock) = memory_fail"
  "so_process (memory_ops uuid4 processor clock) = processor"
  "so_clock (memory_ops uuid4 processor clock) = clock"
  by (simp_all add: memory_ops_def)

section \<open>What a session relies on of its store\<close>

text \<open>
  \<open>result_of\<close> reads the result of a completed cycle, \<open>kept\<close> is what the store keeps of a result.
  A claim hands a completed cycle's result back and leaves the store alone; only the
  completion of a claim adds a result.
\<close>

locale cycle_store =
  fixes ops :: "('s, 'w) session_ops"
    and result_of :: "'s \<Rightarrow> string \<Rightarrow> decision_result option"
    and kept :: "decision_result \<Rightarrow> decision_result"
  assumes claim_completed: "result_of s i = Some r \<Longrightarrow>
      \<exists>c. so_claim ops i ids et now s = (Inr c, s) \<and> pc_state c = COMPLETED \<and> pc_prior_result c = Some r"
    and claim_results: "so_claim ops i ids et now s = (x, s') \<Longrightarrow> result_of s' = result_of s"
    and claim_claimed: "so_claim ops i ids et now s = (Inr c, s') \<Longrightarrow> pc_state c = CLAIMED \<Longrightarrow>
      pc_session_cycle_id c = i \<and> result_of s i = None"
    and claim_prior: "so_claim ops i ids et now s = (Inr c, s') \<Longrightarrow> pc_state c = COMPLETED \<Longrightarrow>
      pc_prior_result c = result_of s i"
    and result_kept: "result_of s i = Some r \<Longrightarrow> kept r = r"
    and retryable_results: "so_retryable ops now s = (z, s') \<Longrightarrow> result_of s' = result_of s"
    and complete_ok: "so_complete ops c d t s = (Inr u, s') \<Longrightarrow>
      result_of s' = (result_of s)(pc_session_cycle_id c \<mapsto> kept d)"
    and complete_err: "so_complete ops c d t s = (Inl e, s') \<Longrightarrow> result_of s' = result_of s"
    and fail_results: "so_fail ops c t err s = (v, s') \<Longrightarrow> result_of s (pc_session_cycle_id c) = None \<Longrightarrow>
      result_of s' = result_of s"
begin

abbreviation decided :: "('s, 'w) session \<Rightarrow> string \<Rightarrow> decision_result option" where
  "decided s \<equiv> result_of (sn_store s)"

lemma on_world_store: "on_world m s = (r, s') \<Longrightarrow> sn_store s' = sn_store s \<and> sn_account_id s' = sn_account_id s"
  by (auto simp: on_world_def zoom_iff)

lemma session_clock_store:
  "session_clock ops s = (r, s') \<Longrightarrow> sn_store s' = sn_store s \<and> sn_account_id s' = sn_account_id s"
  unfolding session_clock_def by (rule on_world_store)

lemma run_claimed_results:
  assumes "run_claimed ops fs c s = (r, s')" and "decided s (pc_session_cycle_id c) = None"
  shows "case r of Inl e \<Rightarrow> decided s' = decided s
     | Inr rn \<Rightarrow> \<exists>d. decided s' = (decided s)(pc_session_cycle_id c \<mapsto> kept d) \<and> sr_decision rn = Some d"
    and "sn_account_id s' = sn_account_id s"
  using assms
  by (auto simp: run_claimed_def bind_st_def on_store_def zoom_iff update_health_def
      split: prod.splits sum.splits option.splits
      dest!: on_world_store session_clock_store complete_ok complete_err)

lemma record_failure_results:
  assumes "record_failure ops c e s = (r, s')" and "decided s (pc_session_cycle_id c) = None"
  shows "decided s' = decided s \<and> sn_account_id s' = sn_account_id s \<and> isl r"
  using assms
  by (auto simp: record_failure_def bind_st_def on_store_def zoom_iff update_health_def
      split: prod.splits sum.splits dest!: session_clock_store fail_results)

lemma try_claimed_results:
  assumes "try_claimed ops fs c s = (r, s')" and "decided s (pc_session_cycle_id c) = None"
  shows "case r of Inl e \<Rightarrow> decided s' = decided s
     | Inr rn \<Rightarrow> \<exists>d. decided s' = (decided s)(pc_session_cycle_id c \<mapsto> kept d) \<and> sr_decision rn = Some d"
    and "sn_account_id s' = sn_account_id s"
proof -
  obtain r1 s1 where run: "run_claimed ops fs c s = (r1, s1)" by fastforce
  note claimed = run_claimed_results [OF run assms(2)]
  have f: "r1 = Inl e \<Longrightarrow> decided s' = decided s \<and> sn_account_id s' = sn_account_id s1 \<and> isl r" for e
    using assms claimed record_failure_results [of c e s1 r s'] run by (auto simp: try_claimed_def)
  show "case r of Inl e \<Rightarrow> decided s' = decided s
     | Inr rn \<Rightarrow> \<exists>d. decided s' = (decided s)(pc_session_cycle_id c \<mapsto> kept d) \<and> sr_decision rn = Some d"
    and "sn_account_id s' = sn_account_id s"
    using f assms(1) claimed run by (cases r1; auto simp: try_claimed_def split: sum.splits)+
qed

lemma process_one_front:
  "process_one ops fs s =
     (case process_front ops fs s of
        (Inl e, s') \<Rightarrow> (Inl e, s')
      | (Inr c, s') \<Rightarrow> process_back ops fs (session_cycle_id_of (sn_account_id s) fs) c s')"
  by (simp add: process_one_def bind_st_def)

lemma process_front_results:
  assumes "process_front ops fs s = (x, s')"
  shows "decided s' = decided s" and "sn_account_id s' = sn_account_id s"
    and "x = Inr c \<Longrightarrow>
      (pc_state c = CLAIMED \<longrightarrow> pc_session_cycle_id c = session_cycle_id_of (sn_account_id s) fs
         \<and> decided s (session_cycle_id_of (sn_account_id s) fs) = None)
      \<and> (pc_state c = COMPLETED \<longrightarrow> pc_prior_result c = decided s (session_cycle_id_of (sn_account_id s) fs))"
  using assms
  by (auto simp: process_front_def bind_st_def lift_st_def on_store_def zoom_iff
      split: prod.splits sum.splits dest!: session_clock_store dest: claim_results claim_claimed claim_prior)

text \<open>
  One call: what was decided stays decided, and a call that returns a decision leaves it as
  the result of its cycle.
\<close>

lemma process_one_results:
  assumes "process_one ops fs s = (r, s')"
  shows "decided s \<subseteq>\<^sub>m decided s'" and "sn_account_id s' = sn_account_id s"
    and "r = Inr rn \<Longrightarrow> sr_decision rn = Some d \<Longrightarrow>
      decided s' (session_cycle_id_of (sn_account_id s) fs) = Some (kept d)"
proof -
  let ?i = "session_cycle_id_of (sn_account_id s) fs"
  have step: "decided s \<subseteq>\<^sub>m decided s' \<and> sn_account_id s' = sn_account_id s
      \<and> (\<forall>rn d. r = Inr rn \<longrightarrow> sr_decision rn = Some d \<longrightarrow> decided s' ?i = Some (kept d))"
  proof (cases "process_front ops fs s")
    case (Pair x s2)
    note front = process_front_results [OF Pair]
    show ?thesis
    proof (cases x)
      case (Inl e)
      then show ?thesis using assms Pair front by (auto simp: process_one_front)
    next
      case (Inr c)
      note c = front(3) [OF Inr]
      have tail: "process_back ops fs ?i c s2 = (r, s')"
        using assms Pair Inr by (simp add: process_one_front)
      show ?thesis
      proof (cases "pc_state c = CLAIMED")
        case True
        then have "decided s2 (pc_session_cycle_id c) = None" "pc_session_cycle_id c = ?i" using c front(1) by auto
        with try_claimed_results [of fs c s2 r s'] tail True front show ?thesis
          by (cases r) (auto simp: process_back_def map_le_def)
      next
        case False
        then show ?thesis using tail front c result_kept [of "sn_store s" ?i]
          by (cases "pc_state c") (auto simp: process_back_def bind_st_def update_health_def return_st_def)
      qed
    qed
  qed
  then show "decided s \<subseteq>\<^sub>m decided s'" "sn_account_id s' = sn_account_id s" by simp_all
  show "decided s' ?i = Some (kept d)" if "r = Inr rn" "sr_decision rn = Some d" using step that by simp
qed

lemma process_one_keeps: "keeps (\<lambda>s. decided s i = Some d \<and> sn_account_id s = a) (process_one ops fs)"
  unfolding keeps_def
proof (intro allI impI)
  fix s assume "decided s i = Some d \<and> sn_account_id s = a"
  then show "decided (snd (process_one ops fs s)) i = Some d \<and> sn_account_id (snd (process_one ops fs s)) = a"
    using process_one_results(1,2) [of fs s "fst (process_one ops fs s)" "snd (process_one ops fs s)"]
    by (auto simp: map_le_def dom_def)
qed

lemma process_keeps: "keeps (\<lambda>s. decided s i = Some d \<and> sn_account_id s = a) (session_process ops fs)"
proof -
  have c: "keeps (\<lambda>s. decided s i = Some d \<and> sn_account_id s = a) (session_clock ops)"
    unfolding keeps_def using session_clock_store by (metis prod.collapse)
  have r: "keeps (\<lambda>s. decided s i = Some d \<and> sn_account_id s = a) (on_store (so_retryable ops t))" for t
    unfolding on_store_def using retryable_results by (intro keeps_zoom) (simp, metis prod.collapse)
  have o: "keeps (\<lambda>s. decided s i = Some d \<and> sn_account_id s = a) (retry_one ops cur fs')" for cur fs'
    using process_one_keeps [of i d a fs'] by (auto simp: keeps_def retry_one_def)
  show ?thesis unfolding session_process_def
    by (intro keeps_if keeps_bind keeps_for keeps_return keeps_raise process_one_keeps c r o)
qed

lemma processes_keep: "decided s i = Some d \<Longrightarrow> decided (foldl (\<lambda>s fs. snd (session_process ops fs s)) s calls) i = Some d
    \<and> sn_account_id (foldl (\<lambda>s fs. snd (session_process ops fs s)) s calls) = sn_account_id s"
proof (induction calls arbitrary: s)
  case (Cons fs calls)
  have "decided (snd (session_process ops fs s)) i = Some d \<and> sn_account_id (snd (session_process ops fs s)) = sn_account_id s"
    using process_keeps [of i d "sn_account_id s" fs] Cons.prems by (simp add: keeps_def)
  with Cons.IH [of "snd (session_process ops fs s)"] show ?case by simp
qed simp

text \<open>A set of features whose cycle is decided: the processor is not called.\<close>

lemma replayed:
  assumes "decided s (session_cycle_id_of (sn_account_id s) fs) = Some d" and "fs \<noteq> []"
    and "so_clock ops (sn_world s) = (Aware t, w)"
  shows "process_one ops fs s =
     (Inr \<lparr>sr_session_cycle_id = session_cycle_id_of (sn_account_id s) fs, sr_state = COMPLETED, sr_decision = Some d\<rparr>,
      s\<lparr>sn_world := w, sn_health := (sn_health s)\<lparr>sh_replayed := sh_replayed (sn_health s) + 1,
          sh_last_session_cycle_id := Some (session_cycle_id_of (sn_account_id s) fs)\<rparr>\<rparr>)"
proof -
  obtain et where et: "latest_event fs = Inr et" using assms(2) by (cases fs) (auto simp: latest_event_def)
  obtain c where "so_claim ops (session_cycle_id_of (sn_account_id s) fs) (record_ids_of fs) et t (sn_store s) = (Inr c, sn_store s)"
    and "pc_state c = COMPLETED" and "pc_prior_result c = Some d"
    using claim_completed [OF assms(1)] by blast
  then show ?thesis using et assms(3)
    by (simp add: process_one_front process_front_def process_back_def bind_st_def lift_st_def session_clock_def
        on_world_def on_store_def zoom_def update_health_def return_st_def)
qed

end

section \<open>Which features the processor sees\<close>

lemma for_st_total:
  assumes "\<And>x s. \<exists>y s'. f x s = (Inr y, s')"
  shows "\<exists>ys s'. for_st f xs s = (Inr ys, s')"
proof (induction xs arbitrary: s)
  case (Cons x xs)
  obtain y s1 where "f x s = (Inr y, s1)" using assms by blast
  moreover obtain ys s2 where "for_st f xs s1 = (Inr ys, s2)" using Cons.IH by blast
  ultimately show ?case by (simp add: bind_st_def return_st_def)
qed (simp add: return_st_def)

text \<open>
  A world that remembers for which features the processor was called (\<open>seen\<close>): the clock and
  reconciliation do not call it.
\<close>

definition cycle_id_of_ids :: "string \<Rightarrow> string list \<Rightarrow> string" where
  "cycle_id_of_ids account_id ids =
     stable_id [''continuous-nse-paper-session'', account_id, repr_tuple (map repr_str ids)]"

lemma session_cycle_id_of_ids: "session_cycle_id_of account_id fs = cycle_id_of_ids account_id (record_ids_of fs)"
  by (simp add: session_cycle_id_of_def cycle_id_of_ids_def)

locale watched_store = cycle_store ops result_of kept
  for ops :: "('s, 'w) session_ops" and result_of kept +
  fixes seen :: "'w \<Rightarrow> string list list"
  assumes process_seen: "so_process ops fs t w = (r, w') \<Longrightarrow> seen w' = seen w @ [record_ids_of fs]"
    and clock_seen: "so_clock ops w = (now, w') \<Longrightarrow> seen w' = seen w"
    and reconcile_seen: "so_reconcile ops a w = (y, w') \<Longrightarrow> seen w' = seen w"
begin

text \<open>\<open>spared i a l s\<close>: the session has the decision of cycle \<open>i\<close>, and has not called the processor
  for it since the calls in \<open>l\<close>.\<close>

definition spared :: "string \<Rightarrow> decision_result \<Rightarrow> string \<Rightarrow> string list list \<Rightarrow> ('s, 'w) session \<Rightarrow> bool" where
  "spared i d a l s \<longleftrightarrow> decided s i = Some d \<and> sn_account_id s = a
     \<and> (\<exists>new. seen (sn_world s) = l @ new \<and> list_all (\<lambda>ids. cycle_id_of_ids a ids \<noteq> i) new)"

lemma session_clock_seen: "session_clock ops s = (r, s') \<Longrightarrow> seen (sn_world s') = seen (sn_world s)"
  by (auto simp: session_clock_def on_world_def zoom_iff dest: clock_seen split: prod.splits)

lemma run_claimed_seen:
  assumes "run_claimed ops fs c s = (r, s')"
  shows "seen (sn_world s') = seen (sn_world s) \<or> seen (sn_world s') = seen (sn_world s) @ [record_ids_of fs]"
  using assms
  by (auto simp: run_claimed_def bind_st_def on_store_def on_world_def zoom_iff update_health_def return_st_def
      raise_st_def split: prod.splits sum.splits option.splits
      dest!: session_clock_seen reconcile_seen process_seen)

lemma record_failure_seen: "record_failure ops c e s = (r, s') \<Longrightarrow> seen (sn_world s') = seen (sn_world s)"
  by (auto simp: record_failure_def bind_st_def on_store_def zoom_iff update_health_def raise_st_def
      split: prod.splits sum.splits dest!: session_clock_seen)

lemma try_claimed_seen:
  assumes "try_claimed ops fs c s = (r, s')"
  shows "seen (sn_world s') = seen (sn_world s) \<or> seen (sn_world s') = seen (sn_world s) @ [record_ids_of fs]"
proof -
  obtain r1 s1 where run: "run_claimed ops fs c s = (r1, s1)" by fastforce
  then show ?thesis using assms run_claimed_seen [OF run] record_failure_seen [of c _ s1 r s']
    by (cases r1) (auto simp: try_claimed_def)
qed

lemma process_front_seen: "process_front ops fs s = (x, s') \<Longrightarrow> seen (sn_world s') = seen (sn_world s)"
  by (auto simp: process_front_def bind_st_def lift_st_def on_store_def zoom_iff
      split: prod.splits sum.splits dest!: session_clock_seen)

text \<open>The processor is called at most once, and only for features whose cycle is not decided.\<close>

lemma process_one_seen:
  assumes "process_one ops fs s = (r, s')"
  shows "seen (sn_world s') = seen (sn_world s)
    \<or> seen (sn_world s') = seen (sn_world s) @ [record_ids_of fs]
      \<and> decided s (session_cycle_id_of (sn_account_id s) fs) = None"
proof (cases "process_front ops fs s")
  case (Pair x s2)
  note front = process_front_results [OF Pair] process_front_seen [OF Pair]
  show ?thesis
  proof (cases x)
    case (Inl e)
    then show ?thesis using assms Pair front(4) by (simp add: process_one_front)
  next
    case (Inr c)
    have tail: "process_back ops fs (session_cycle_id_of (sn_account_id s) fs) c s2 = (r, s')"
      using assms Pair Inr by (simp add: process_one_front)
    show ?thesis
    proof (cases "pc_state c = CLAIMED")
      case True
      then show ?thesis using tail try_claimed_seen [of fs c s2 r s'] front(3) [OF Inr] front(4)
        by (auto simp: process_back_def)
    next
      case False
      then show ?thesis using tail front(4)
        by (cases "pc_state c") (auto simp: process_back_def bind_st_def update_health_def return_st_def)
    qed
  qed
qed

lemma process_one_spared: "keeps (spared i d a l) (process_one ops fs)"
  unfolding keeps_def
proof (intro allI impI)
  fix s assume s: "spared i d a l s"
  obtain r s' where p: "process_one ops fs s = (r, s')" by fastforce
  have "decided s' i = Some d \<and> sn_account_id s' = a"
    using s keepsD [OF process_one_keeps [of i d a] _ p] by (simp add: spared_def)
  moreover have "cycle_id_of_ids a (record_ids_of fs) \<noteq> i"
    if "decided s (session_cycle_id_of (sn_account_id s) fs) = None"
    using that s by (auto simp: spared_def session_cycle_id_of_ids)
  ultimately show "spared i d a l (snd (process_one ops fs s))"
    using s process_one_seen [OF p] p by (auto simp: spared_def)
qed

lemma process_spared: "keeps (spared i d a l) (session_process ops fs)"
proof -
  have c: "keeps (spared i d a l) (session_clock ops)"
    unfolding keeps_def spared_def using session_clock_store session_clock_seen by (metis prod.collapse)
  have r: "keeps (spared i d a l) (on_store (so_retryable ops t))" for t
    unfolding on_store_def spared_def using retryable_results by (intro keeps_zoom) (simp, metis prod.collapse)
  have o: "keeps (spared i d a l) (retry_one ops cur fs')" for cur fs'
    using process_one_spared [of i d a l fs'] by (auto simp: keeps_def retry_one_def)
  show ?thesis unfolding session_process_def
    by (intro keeps_if keeps_bind keeps_for keeps_return keeps_raise process_one_spared c r o)
qed

lemma processes_spared: "spared i d a l s \<Longrightarrow> spared i d a l (foldl (\<lambda>s fs. snd (session_process ops fs s)) s calls)"
proof (induction calls arbitrary: s)
  case (Cons fs calls)
  then show ?case using process_spared [of i d a l fs] by (simp add: keeps_def)
qed simp

text \<open>
  Once a call has returned a decision for a set of features, every later call with the same
  features returns what the store kept of it, and in none of the later calls, retries
  included, is the processor called for them again.
\<close>

lemma features_spared:
  assumes "session_process ops fs s = (Inr (Some rn), s1)" and "sr_decision rn = Some d"
    and "s2 = foldl (\<lambda>s fs. snd (session_process ops fs s)) s1 calls"
    and "mset (map ft_record_id fs') = mset (map ft_record_id fs)" and "set (map ft_market fs') = {NSE}"
    and "\<And>w. \<exists>t. fst (so_clock ops w) = Aware t" and "\<And>t st. \<exists>rs st'. so_retryable ops t st = (Inr rs, st')"
  shows "\<exists>s3 new. session_process ops fs' s2
        = (Inr (Some \<lparr>sr_session_cycle_id = session_cycle_id_of (sn_account_id s) fs, sr_state = COMPLETED,
                      sr_decision = Some (kept d)\<rparr>), s3)
      \<and> seen (sn_world s3) = seen (sn_world s1) @ new \<and> list_all (\<lambda>ids. ids \<noteq> record_ids_of fs) new"
proof -
  let ?i = "session_cycle_id_of (sn_account_id s) fs" and ?a = "sn_account_id s"
  obtain sp t sc rs st us where one: "process_one ops fs s = (Inr rn, sp)"
    and clock: "session_clock ops sp = (Inr t, sc)" and retry: "on_store (so_retryable ops t) sc = (Inr rs, st)"
    and rest: "for_st (retry_one ops (set (map ft_record_id fs))) rs st = (Inr us, s1)"
    using assms(1) unfolding session_process_def by (auto split: if_splits)
  have "decided sp ?i = Some (kept d) \<and> sn_account_id sp = ?a"
    using process_one_results [OF one] assms(2) by simp
  then have st: "decided st ?i = Some (kept d) \<and> sn_account_id st = ?a"
    using session_clock_store [OF clock] retry retryable_results by (auto simp: on_store_def zoom_iff)
  have "keeps (\<lambda>s. decided s ?i = Some (kept d) \<and> sn_account_id s = ?a)
      (for_st (retry_one ops (set (map ft_record_id fs))) rs)"
    using process_one_keeps [of ?i "kept d" ?a] by (intro keeps_for) (auto simp: keeps_def retry_one_def)
  from keepsD [OF this _ rest] st have "decided s1 ?i = Some (kept d) \<and> sn_account_id s1 = ?a" by simp
  then have "spared ?i (kept d) ?a (seen (sn_world s1)) s1" by (simp add: spared_def)
  then have s2: "spared ?i (kept d) ?a (seen (sn_world s1)) s2" unfolding assms(3) by (rule processes_spared)
  have "sort (map ft_record_id fs') = sort (map ft_record_id fs)"
    using assms(4) by (metis sorted_list_of_multiset_mset)
  then have i: "session_cycle_id_of (sn_account_id s2) fs' = ?i"
    using s2 by (simp add: spared_def session_cycle_id_of_def record_ids_of_def py_sorted_linorder)
  obtain u w1 where u: "so_clock ops (sn_world s2) = (Aware u, w1)"
    using assms(6) [of "sn_world s2"] by (cases "so_clock ops (sn_world s2)") auto
  have ne: "fs' \<noteq> []" using assms(5) by auto
  have "decided s2 (session_cycle_id_of (sn_account_id s2) fs') = Some (kept d)" using s2 i by (simp add: spared_def)
  from replayed [OF this ne u] obtain sq where q: "process_one ops fs' s2 =
      (Inr \<lparr>sr_session_cycle_id = ?i, sr_state = COMPLETED, sr_decision = Some (kept d)\<rparr>, sq)"
    unfolding i by blast
  obtain v sv where v: "session_clock ops sq = (Inr v, sv)"
    using assms(6) [of "sn_world sq"]
    by (cases "so_clock ops (sn_world sq)") (auto simp: session_clock_def on_world_def zoom_def)
  obtain retries sx where x: "on_store (so_retryable ops v) sv = (Inr retries, sx)"
    using assms(7) [of v "sn_store sv"] by (auto simp: on_store_def zoom_def)
  have "\<exists>ys sy. for_st (retry_one ops cur) xs sz = (Inr ys, sy)" for cur xs sz
    by (rule for_st_total) (simp add: retry_one_def)
  then obtain ys s3 where "for_st (retry_one ops (set (map ft_record_id fs'))) retries sx = (Inr ys, s3)" by blast
  then have p: "session_process ops fs' s2
      = (Inr (Some \<lparr>sr_session_cycle_id = ?i, sr_state = COMPLETED, sr_decision = Some (kept d)\<rparr>), s3)"
    using q v x ne assms(5) by (simp add: session_process_def bind_st_def return_st_def)
  have "spared ?i (kept d) ?a (seen (sn_world s1)) s3" using keepsD [OF process_spared s2 p] .
  then obtain new where "seen (sn_world s3) = seen (sn_world s1) @ new" "list_all (\<lambda>ids. cycle_id_of_ids ?a ids \<noteq> ?i) new"
    by (auto simp: spared_def)
  then show ?thesis using p by (auto simp: session_cycle_id_of_ids list_all_iff)
qed

end

section \<open>The memory store keeps the contract\<close>

definition memory_result_of :: "memory_store \<Rightarrow> string \<Rightarrow> decision_result option" where
  "memory_result_of s i =
     (case map_of (ms_cycles s) i of
        None \<Rightarrow> None | Some c \<Rightarrow> if cy_state c = ''COMPLETED'' then cy_result c else None)"

lemma put_cycle_simps [simp]:
  "ms_lease (put_cycle i c s) = ms_lease s" "ms_drawn (put_cycle i c s) = ms_drawn s"
  "ms_cycles (put_cycle i c s) = AList.update i c (ms_cycles s)"
  by (simp_all add: put_cycle_def)

lemma put_cycle_same: "map_of (ms_cycles s) i = Some c \<Longrightarrow> put_cycle i c s = s"
  by (simp add: put_cycle_def)

lemma memory_cycle_of_completed:
  "cy_state (memory_cycle_of i t s) = ''COMPLETED'' \<longleftrightarrow> (\<exists>c. map_of (ms_cycles s) i = Some c \<and> cy_state c = ''COMPLETED'')"
  by (auto simp: memory_cycle_of_def split: option.splits)

text \<open>The three outcomes of a claim.\<close>

lemma memory_claim_cases:
  assumes "memory_claim uuid4 i now s = (x, s')"
  obtains (completed) c where "map_of (ms_cycles s) i = Some c" "cy_state c = ''COMPLETED''" "s' = s"
      "x = Inr \<lparr>pc_state = COMPLETED, pc_session_cycle_id = i, pc_evaluated_at = cy_evaluated_at c,
             pc_claim_token = None, pc_prior_result = cy_result c\<rparr>"
    | (busy) c where "map_of (ms_cycles s) i = Some c" "lease_held c now" "s' = s"
      "x = Inr \<lparr>pc_state = BUSY, pc_session_cycle_id = i, pc_evaluated_at = cy_evaluated_at c,
             pc_claim_token = None, pc_prior_result = None\<rparr>"
    | (taken) c u where "c = memory_cycle_of i now s" "cy_state c \<noteq> ''COMPLETED''" "\<not> lease_held c now"
      "s' = (put_cycle i (c\<lparr>cy_state := ''RUNNING'', cy_claim_token := Some (uuid4 (ms_drawn s)), cy_locked_until := u\<rparr>) s)
              \<lparr>ms_drawn := ms_drawn s + 1\<rparr>"
      "(\<exists>e. x = Inl e) \<or> u = Some (now + ms_lease s) \<and> x = Inr \<lparr>pc_state = CLAIMED, pc_session_cycle_id = i,
         pc_evaluated_at = cy_evaluated_at c, pc_claim_token = Some (uuid4 (ms_drawn s)), pc_prior_result = None\<rparr>"
proof -
  define c where "c = memory_cycle_of i now s"
  consider "cy_state c = ''COMPLETED''" | "cy_state c \<noteq> ''COMPLETED''" "lease_held c now"
    | "cy_state c \<noteq> ''COMPLETED''" "\<not> lease_held c now" by blast
  then show ?thesis
  proof cases
    case 1
    then have "map_of (ms_cycles s) i = Some c" by (auto simp: c_def memory_cycle_of_def split: option.splits)
    with 1 show ?thesis using assms
      by (intro completed) (auto simp: memory_claim_def put_cycle_same simp flip: c_def)
  next
    case 2
    then have "map_of (ms_cycles s) i = Some c" by (auto simp: c_def memory_cycle_of_def lease_held_def split: option.splits)
    with 2 show ?thesis using assms
      by (intro busy) (auto simp: memory_claim_def put_cycle_same simp flip: c_def)
  next
    case 3
    let ?r = "c\<lparr>cy_state := ''RUNNING'', cy_claim_token := Some (uuid4 (ms_drawn s))\<rparr>"
    show ?thesis
    proof (cases "dt_add now (ms_lease s)")
      case (Inl e)
      then show ?thesis using assms 3 taken [OF c_def, of "cy_locked_until ?r"]
        by (auto simp: memory_claim_def put_cycle_def simp flip: c_def)
    next
      case (Inr u)
      moreover from Inr have "u = now + ms_lease s" by (simp add: dt_add_Inr_iff)
      ultimately show ?thesis using assms 3 taken [OF c_def, of "Some u"]
        by (auto simp: memory_claim_def put_cycle_def Let_def simp flip: c_def)
    qed
  qed
qed

lemma memory_claim_results: "memory_claim uuid4 i now s = (x, s') \<Longrightarrow> memory_result_of s' = memory_result_of s"
  by (erule memory_claim_cases) (auto simp: memory_result_of_def memory_cycle_of_def fun_eq_iff split: option.splits)

interpretation memory: cycle_store "memory_ops uuid4 processor clock" memory_result_of "\<lambda>d. d"
  for uuid4 :: "nat \<Rightarrow> string" and processor :: "feature_record list \<Rightarrow> instant \<Rightarrow> ('w, decision_result option) st"
    and clock :: "'w \<Rightarrow> datetime \<times> 'w"
proof
  show "\<exists>c. so_claim (memory_ops uuid4 processor clock) i ids et now s = (Inr c, s) \<and> pc_state c = COMPLETED \<and> pc_prior_result c = Some r"
    if "memory_result_of s i = Some r" for s i r ids et now
    using that by (auto simp: memory_claim_def memory_cycle_of_def memory_result_of_def put_cycle_same
        split: option.splits if_splits)
next
  show "memory_result_of s' = memory_result_of s"
    if "so_claim (memory_ops uuid4 processor clock) i ids et now s = (x, s')" for i ids et now s x s'
    using that memory_claim_results by simp
next
  fix i ids et now s c s'
  assume c: "so_claim (memory_ops uuid4 processor clock) i ids et now s = (Inr c, s')"
  then have m: "memory_claim uuid4 i now s = (Inr c, s')" by simp
  show "pc_session_cycle_id c = i \<and> memory_result_of s i = None" if "pc_state c = CLAIMED"
    using m that by (cases rule: memory_claim_cases) (auto simp: memory_result_of_def memory_cycle_of_def split: option.splits)
  show "pc_prior_result c = memory_result_of s i" if "pc_state c = COMPLETED"
    using m that by (cases rule: memory_claim_cases) (auto simp: memory_result_of_def)
qed (auto simp: memory_reconcile_def memory_retryable_def memory_complete_def memory_fail_def
    memory_result_of_def fun_eq_iff split: option.splits if_splits)

section \<open>Concurrent sessions\<close>

text \<open>
  Several processes share a store.  The second component lists the claims that were handed
  out and not yet given back; a process completes or fails its claim, or dies with it.
\<close>

inductive lease_step ::
  "(nat \<Rightarrow> string) \<Rightarrow> memory_store \<times> session_claim list \<Rightarrow> memory_store \<times> session_claim list \<Rightarrow> bool"
  for uuid4 where
  claimed: "memory_claim uuid4 i now s = (Inr c, s') \<Longrightarrow> pc_state c = CLAIMED \<Longrightarrow> lease_step uuid4 (s, cs) (s', c # cs)"
| refused: "memory_claim uuid4 i now s = (x, s') \<Longrightarrow> (\<forall>c. x = Inr c \<longrightarrow> pc_state c \<noteq> CLAIMED) \<Longrightarrow>
    lease_step uuid4 (s, cs) (s', cs)"
| finished: "c \<in> set cs \<Longrightarrow> memory_complete c d t s = (Inr (), s') \<Longrightarrow> lease_step uuid4 (s, cs) (s', remove1 c cs)"
| lost: "c \<in> set cs \<Longrightarrow> memory_complete c d t s = (Inl e, s') \<Longrightarrow> lease_step uuid4 (s, cs) (s', cs)"
| failed: "c \<in> set cs \<Longrightarrow> memory_fail c t err s = (y, s') \<Longrightarrow> lease_step uuid4 (s, cs) (s', remove1 c cs)"
| died: "lease_step uuid4 (s, cs) (s, remove1 c cs)"

inductive_cases lease_stepE: "lease_step uuid4 p q"

definition drawn_tokens :: "(nat \<Rightarrow> string) \<Rightarrow> memory_store \<Rightarrow> string set" where
  "drawn_tokens uuid4 s = uuid4 ` {..<ms_drawn s}"

text \<open>
  The invariant: every token in use was drawn, no two claims share one, no claim holds the
  token of a completed cycle, and a claim carries the evaluation time of its cycle.
\<close>

definition claim_ok :: "string set \<Rightarrow> (string \<rightharpoonup> memory_cycle) \<Rightarrow> session_claim \<Rightarrow> bool" where
  "claim_ok tokens cycles c \<longleftrightarrow> pc_claim_token c \<in> Some ` tokens
     \<and> (\<exists>cy. cycles (pc_session_cycle_id c) = Some cy \<and> cy_evaluated_at cy = pc_evaluated_at c
          \<and> (cy_state cy = ''COMPLETED'' \<longrightarrow> cy_claim_token cy \<noteq> pc_claim_token c))"

definition cycle_ok :: "string set \<Rightarrow> memory_cycle \<Rightarrow> bool" where
  "cycle_ok tokens cy \<longleftrightarrow> (cy_claim_token cy = None \<or> cy_claim_token cy \<in> Some ` tokens)
     \<and> (cy_state cy = ''COMPLETED'' \<longrightarrow> cy_result cy \<noteq> None)"

definition lease_ok :: "(nat \<Rightarrow> string) \<Rightarrow> memory_store \<times> session_claim list \<Rightarrow> bool" where
  "lease_ok uuid4 p \<longleftrightarrow> (case p of (s, cs) \<Rightarrow>
     distinct (map pc_claim_token cs)
     \<and> (\<forall>c \<in> set cs. claim_ok (drawn_tokens uuid4 s) (map_of (ms_cycles s)) c)
     \<and> (\<forall>cy \<in> ran (map_of (ms_cycles s)). cycle_ok (drawn_tokens uuid4 s) cy))"

text \<open>A cycle is replaced: what the invariant asks of the new one.\<close>

lemma claim_ok_update:
  assumes "claim_ok T cycles c" and "T \<subseteq> T'"
    and "\<And>cy. cycles i = Some cy \<Longrightarrow> cy_evaluated_at cy' = cy_evaluated_at cy"
    and "cy_state cy' = ''COMPLETED'' \<Longrightarrow> cy_claim_token cy' \<noteq> pc_claim_token c"
  shows "claim_ok T' (cycles(i \<mapsto> cy')) c"
  using assms by (auto simp: claim_ok_def)

lemma cycle_ok_update:
  assumes "\<forall>cy \<in> ran cycles. cycle_ok T cy" and "T \<subseteq> T'" and "cycle_ok T' cy'"
  shows "\<forall>cy \<in> ran (cycles(i \<mapsto> cy')). cycle_ok T' cy"
proof
  fix cy assume "cy \<in> ran (cycles(i \<mapsto> cy'))"
  then have "cy = cy' \<or> cy \<in> ran cycles" by (auto simp: ran_def split: if_splits)
  then show "cycle_ok T' cy" using assms by (auto simp: cycle_ok_def)
qed

lemma fresh_token: "inj uuid4 \<Longrightarrow> uuid4 (ms_drawn s) \<notin> drawn_tokens uuid4 s"
  by (auto simp: drawn_tokens_def dest: injD)

lemma lease_ok_drop: "lease_ok uuid4 (s, cs) \<Longrightarrow> lease_ok uuid4 (s, remove1 c cs)"
  by (auto simp: lease_ok_def distinct_map dest: inj_on_subset [OF _ set_remove1_subset] notin_set_remove1)

lemma drawn_Suc [simp]:
  "drawn_tokens uuid4 (s\<lparr>ms_drawn := Suc (ms_drawn s)\<rparr>) = insert (uuid4 (ms_drawn s)) (drawn_tokens uuid4 s)"
  by (simp add: drawn_tokens_def lessThan_Suc)

lemma drawn_cong: "ms_drawn s = ms_drawn s' \<Longrightarrow> drawn_tokens uuid4 s = drawn_tokens uuid4 s'"
  by (simp add: drawn_tokens_def)

lemma lease_ok_claim:
  assumes "memory_claim uuid4 i now s = (x, s')" and "inj uuid4" and "lease_ok uuid4 (s, cs)"
  shows "lease_ok uuid4 (s', cs)" and "x = Inr c \<Longrightarrow> pc_state c = CLAIMED \<Longrightarrow> lease_ok uuid4 (s', c # cs)"
proof -
  have "lease_ok uuid4 (s', cs) \<and> (\<forall>c. x = Inr c \<longrightarrow> pc_state c = CLAIMED \<longrightarrow> lease_ok uuid4 (s', c # cs))"
    using assms(1)
  proof (cases rule: memory_claim_cases)
    case (taken c u)
    have d: "drawn_tokens uuid4 s' = insert (uuid4 (ms_drawn s)) (drawn_tokens uuid4 s)"
      by (simp add: taken(4) drawn_tokens_def lessThan_Suc)
    have m: "map_of (ms_cycles s') = (map_of (ms_cycles s))(i \<mapsto>
        c\<lparr>cy_state := ''RUNNING'', cy_claim_token := Some (uuid4 (ms_drawn s)), cy_locked_until := u\<rparr>)"
      by (simp add: taken(4))
    have e: "map_of (ms_cycles s) i = Some cy \<Longrightarrow> cy_evaluated_at c = cy_evaluated_at cy" for cy
      by (simp add: taken(1) memory_cycle_of_def)
    let ?T = "insert (uuid4 (ms_drawn s)) (drawn_tokens uuid4 s)"
    have claims: "\<forall>c \<in> set cs. claim_ok ?T (map_of (ms_cycles s')) c"
      using assms(3) unfolding m lease_ok_def prod.case by (auto simp: e intro!: claim_ok_update [OF _ subset_insertI])
    have cycles: "\<forall>cy \<in> ran (map_of (ms_cycles s')). cycle_ok ?T cy" unfolding m
      using assms(3) by (intro cycle_ok_update [OF _ subset_insertI]) (auto simp: lease_ok_def cycle_ok_def)
    have new: "claim_ok ?T (map_of (ms_cycles s')) c' \<and> pc_claim_token c' = Some (uuid4 (ms_drawn s))"
      if "x = Inr c'" "pc_state c' = CLAIMED" for c'
      using taken(5) that unfolding m by (auto simp: claim_ok_def)
    have "Some (uuid4 (ms_drawn s)) \<notin> pc_claim_token ` set cs"
      using assms(3) fresh_token [OF assms(2), of s] by (fastforce simp: lease_ok_def claim_ok_def)
    with claims cycles new assms(3) show ?thesis unfolding lease_ok_def prod.case d by auto
  qed (use assms(3) in auto)
  then show "lease_ok uuid4 (s', cs)" and "x = Inr c \<Longrightarrow> pc_state c = CLAIMED \<Longrightarrow> lease_ok uuid4 (s', c # cs)"
    by auto
qed

lemma lease_ok_put:
  assumes "lease_ok uuid4 (s, cs)" and "map_of (ms_cycles s) i = Some cy"
    and "cy_evaluated_at cy' = cy_evaluated_at cy" and "cy_claim_token cy' = cy_claim_token cy"
    and "cy_state cy' = ''COMPLETED'' \<Longrightarrow> cy_result cy' \<noteq> None \<and> (\<forall>c \<in> set cs. pc_claim_token c \<noteq> cy_claim_token cy)"
  shows "lease_ok uuid4 (put_cycle i cy' s, cs)"
proof -
  have d: "drawn_tokens uuid4 (put_cycle i cy' s) = drawn_tokens uuid4 s" by (rule drawn_cong) simp
  have "cycle_ok (drawn_tokens uuid4 s) cy'"
    using assms ranI [of "map_of (ms_cycles s)" i cy] by (auto simp: lease_ok_def cycle_ok_def)
  then have "\<forall>cy \<in> ran ((map_of (ms_cycles s))(i \<mapsto> cy')). cycle_ok (drawn_tokens uuid4 s) cy"
    using assms(1) by (intro cycle_ok_update [OF _ subset_refl]) (auto simp: lease_ok_def)
  moreover have "\<forall>c \<in> set cs. claim_ok (drawn_tokens uuid4 s) ((map_of (ms_cycles s))(i \<mapsto> cy')) c"
    using assms by (auto simp: lease_ok_def intro!: claim_ok_update [OF _ subset_refl])
  ultimately show ?thesis using assms(1) by (simp add: lease_ok_def d)
qed

lemma lease_ok_complete:
  assumes "memory_complete c d t s = (Inr u, s')" and "lease_ok uuid4 (s, cs)" and "c \<in> set cs"
  shows "lease_ok uuid4 (s', remove1 c cs)"
proof -
  have "distinct cs" "inj_on pc_claim_token (set cs)" using assms(2) by (auto simp: lease_ok_def distinct_map)
  then have "\<forall>c' \<in> set (remove1 c cs). pc_claim_token c' \<noteq> pc_claim_token c"
    using assms(3) by (auto simp: inj_on_def)
  then show ?thesis using assms(1) lease_ok_drop [OF assms(2), of c]
    by (auto simp: memory_complete_def split: option.splits if_splits intro!: lease_ok_put)
qed

lemma lease_ok_fail:
  "memory_fail c t err s = (y, s') \<Longrightarrow> lease_ok uuid4 (s, cs) \<Longrightarrow> lease_ok uuid4 (s', cs)"
  by (auto simp: memory_fail_def split: option.splits if_splits intro!: lease_ok_put)

lemma lease_ok_step: "lease_step uuid4 p q \<Longrightarrow> inj uuid4 \<Longrightarrow> lease_ok uuid4 p \<Longrightarrow> lease_ok uuid4 q"
proof (induction rule: lease_step.induct)
  case (lost c cs d t s e s')
  then have "s' = s" by (auto simp: memory_complete_def split: option.splits if_splits)
  then show ?case using lost by simp
qed (auto intro: lease_ok_claim lease_ok_complete lease_ok_drop dest: lease_ok_fail)

section \<open>Properties\<close>

text \<open>
  A set of features is decided once.  When a session has returned a decision for it, then
  after any further calls of the session, failing ones among them, the same features in any
  order return that decision as a replay: the decision processor is not called again (the
  world has only been asked for the time) and the store is left alone.
\<close>

theorem features_decided_once:
  assumes "session_process (memory_ops uuid4 processor clock) fs s = (Inr (Some rn), s1)"
    and "sr_decision rn = Some d"
    and "s2 = foldl (\<lambda>s fs. snd (session_process (memory_ops uuid4 processor clock) fs s)) s1 calls"
    and "mset (map ft_record_id fs') = mset (map ft_record_id fs)" and "set (map ft_market fs') = {NSE}"
    and "\<And>w. \<exists>t. fst (clock w) = Aware t"
  shows "\<exists>s3. session_process (memory_ops uuid4 processor clock) fs' s2
        = (Inr (Some \<lparr>sr_session_cycle_id = session_cycle_id_of (sn_account_id s) fs, sr_state = COMPLETED,
                      sr_decision = Some d\<rparr>), s3)
      \<and> sn_world s3 = snd (clock (snd (clock (sn_world s2)))) \<and> sn_store s3 = sn_store s2"
proof -
  let ?ops = "memory_ops uuid4 processor clock" and ?i = "session_cycle_id_of (sn_account_id s) fs"
  obtain sp sc sr where one: "process_one ?ops fs s = (Inr rn, sp)" and clock: "session_clock ?ops sp = (Inr sc, sr)"
    and rest: "for_st (retry_one ?ops (set (map ft_record_id fs))) [] sr = (Inr [], s1)"
    using assms(1) by (auto simp: session_process_def memory_retryable_def on_store_def zoom_iff split: if_splits)
  have "memory_result_of (sn_store s1) ?i = Some d" "sn_account_id s1 = sn_account_id s"
    using memory.process_one_results [OF one] assms(2) memory.session_clock_store [OF clock] rest by auto
  then have s2: "memory_result_of (sn_store s2) ?i = Some d" "sn_account_id s2 = sn_account_id s"
    using memory.processes_keep [of s1 ?i d uuid4 processor clock calls] unfolding assms(3) by auto
  have "sort (map ft_record_id fs') = sort (map ft_record_id fs)"
    using assms(4) by (metis sorted_list_of_multiset_mset)
  then have i: "session_cycle_id_of (sn_account_id s2) fs' = ?i"
    using s2(2) by (simp add: session_cycle_id_of_def record_ids_of_def py_sorted_linorder)
  obtain t w1 where t: "clock (sn_world s2) = (Aware t, w1)" using assms(6) [of "sn_world s2"] by (metis prod.collapse)
  obtain u w2 where u: "clock w1 = (Aware u, w2)" using assms(6) [of w1] by (metis prod.collapse)
  have "fs' \<noteq> []" using assms(5) by auto
  note replay = memory.replayed [of s2 fs' d uuid4 processor clock, unfolded i, OF s2(1) this, of t w1]
  show ?thesis using replay t u \<open>fs' \<noteq> []\<close> assms(5)
    by (simp add: session_process_def bind_st_def session_clock_def on_world_def on_store_def zoom_def
        memory_retryable_def return_st_def)
qed

lemma lease_ok_steps: "(lease_step uuid4)\<^sup>*\<^sup>* p q \<Longrightarrow> inj uuid4 \<Longrightarrow> lease_ok uuid4 p \<Longrightarrow> lease_ok uuid4 q"
  by (induction rule: rtranclp_induct) (auto intro: lease_ok_step)

text \<open>A completed cycle is left as it is, and no cycle changes its evaluation time.\<close>

lemma completed_step:
  assumes "lease_step uuid4 p q" and "lease_ok uuid4 p"
    and "map_of (ms_cycles (fst p)) i = Some cy" and "cy_state cy = ''COMPLETED''"
  shows "map_of (ms_cycles (fst q)) i = Some cy"
  using assms
proof (induction rule: lease_step.induct)
  case (claimed j now s c s' cs)
  then show ?case by (auto elim!: memory_claim_cases simp: memory_cycle_of_def)
next
  case (refused j now s x s' cs)
  then show ?case by (auto elim!: memory_claim_cases simp: memory_cycle_of_def)
next
  case (finished c cs d t s s')
  then have "i = pc_session_cycle_id c \<Longrightarrow> cy_claim_token cy \<noteq> pc_claim_token c" by (auto simp: lease_ok_def claim_ok_def)
  then show ?case using finished by (auto simp: memory_complete_def split: option.splits if_splits)
next
  case (failed c cs t err s y s')
  then have "i = pc_session_cycle_id c \<Longrightarrow> cy_claim_token cy \<noteq> pc_claim_token c" by (auto simp: lease_ok_def claim_ok_def)
  then show ?case using failed by (auto simp: memory_fail_def split: option.splits if_splits)
qed (auto simp: memory_complete_def split: option.splits if_splits)

lemma evaluated_step:
  assumes "lease_step uuid4 p q" and "map_of (ms_cycles (fst p)) i = Some cy"
  shows "\<exists>cy'. map_of (ms_cycles (fst q)) i = Some cy' \<and> cy_evaluated_at cy' = cy_evaluated_at cy"
  using assms
  by (cases rule: lease_step.cases)
    (auto elim!: memory_claim_cases simp: memory_cycle_of_def memory_complete_def memory_fail_def
      split: option.splits if_splits)

lemma steps_keep:
  assumes "(lease_step uuid4)\<^sup>*\<^sup>* p q" and "inj uuid4" and "lease_ok uuid4 p" and "map_of (ms_cycles (fst p)) i = Some cy"
  shows "cy_state cy = ''COMPLETED'' \<Longrightarrow> map_of (ms_cycles (fst q)) i = Some cy"
    and "\<exists>cy'. map_of (ms_cycles (fst q)) i = Some cy' \<and> cy_evaluated_at cy' = cy_evaluated_at cy"
proof -
  have "(cy_state cy = ''COMPLETED'' \<longrightarrow> map_of (ms_cycles (fst q)) i = Some cy)
      \<and> (\<exists>cy'. map_of (ms_cycles (fst q)) i = Some cy' \<and> cy_evaluated_at cy' = cy_evaluated_at cy)"
    using assms(1)
  proof (induction rule: rtranclp_induct)
    case (step q r)
    have "lease_ok uuid4 q" using lease_ok_steps [OF step(1) assms(2,3)] .
    then show ?case using step completed_step [of uuid4 q r i cy] evaluated_step [of uuid4 q r i] by fastforce
  qed (simp add: assms(4))
  then show "cy_state cy = ''COMPLETED'' \<Longrightarrow> map_of (ms_cycles (fst q)) i = Some cy"
    and "\<exists>cy'. map_of (ms_cycles (fst q)) i = Some cy' \<and> cy_evaluated_at cy' = cy_evaluated_at cy" by auto
qed

definition memory_store_init :: "int \<Rightarrow> memory_store" where
  "memory_store_init lease = \<lparr>ms_lease = lease, ms_cycles = [], ms_drawn = 0\<rparr>"

text \<open>
  C31: Sessions that share a store cannot decide a cycle twice.  Whatever the interleaving of
  claims, completions, failures and deaths of processes, as long as \<open>uuid4\<close> does not repeat
  itself: a result once stored stays, a process that still holds a claim of that cycle is
  told that its claim was lost, and everyone who ever claims a cycle is given the same
  evaluation time, so a retry computes what the first attempt would have.
\<close>

theorem completed_cycle_final:
  assumes "inj uuid4" and "(lease_step uuid4)\<^sup>*\<^sup>* (memory_store_init lease, []) (s, cs)"
    and "(lease_step uuid4)\<^sup>*\<^sup>* (s, cs) (s', cs')"
  shows "(\<forall>d. memory_result_of s i = Some d \<longrightarrow> memory_result_of s' i = Some d
        \<and> (\<forall>c \<in> set cs'. pc_session_cycle_id c = i \<longrightarrow> memory_complete c d' t s'
             = (Inl (RuntimeError ''paper session claim was lost before completion''), s')))
     \<and> (\<forall>c \<in> set cs. \<forall>c' \<in> set cs'. pc_session_cycle_id c = pc_session_cycle_id c' \<longrightarrow> pc_evaluated_at c = pc_evaluated_at c')"
proof -
  have "lease_ok uuid4 (memory_store_init lease, [])" by (simp add: lease_ok_def memory_store_init_def)
  then have ok: "lease_ok uuid4 (s, cs)" by (rule lease_ok_steps [OF assms(2,1)])
  then have ok': "lease_ok uuid4 (s', cs')" by (rule lease_ok_steps [OF assms(3,1)])
  note keep = steps_keep [OF assms(3,1) ok]
  show ?thesis
  proof (intro conjI allI impI ballI)
    fix d assume "memory_result_of s i = Some d"
    then obtain cy where "map_of (ms_cycles s) i = Some cy" "cy_state cy = ''COMPLETED''" "cy_result cy = Some d"
      by (auto simp: memory_result_of_def split: option.splits if_splits)
    with keep have cy: "map_of (ms_cycles s') i = Some cy" "cy_state cy = ''COMPLETED''" "cy_result cy = Some d" by auto
    then show "memory_result_of s' i = Some d" by (simp add: memory_result_of_def)
    fix c assume "c \<in> set cs'" "pc_session_cycle_id c = i"
    then show "memory_complete c d' t s' = (Inl (RuntimeError ''paper session claim was lost before completion''), s')"
      using ok' cy by (auto simp: memory_complete_def lease_ok_def claim_ok_def)
  next
    fix c c' assume "c \<in> set cs" "c' \<in> set cs'" "pc_session_cycle_id c = pc_session_cycle_id c'"
    then show "pc_evaluated_at c = pc_evaluated_at c'"
      using ok ok' keep(2) by (fastforce simp: lease_ok_def claim_ok_def)
  qed
qed

section \<open>An example\<close>

definition ex_feature :: feature_record where
  "ex_feature = \<lparr>ft_record_id = ''f1'', ft_candle_record_id = ''c1'', ft_market = NSE, ft_symbol = ''TCS'',
     ft_timeframe = ''5m'', ft_event_time = 0, ft_close = Fin 100, ft_return_1 = 0, ft_range_pct = 0,
     ft_body_pct = 0, ft_volume_change = None, ft_feature_version = 1\<rparr>"

definition ex_decision :: decision_result where
  "ex_decision = \<lparr>dr_market = NSE, dr_cycle_id = ''d1'', dr_mode = MODE_NORMAL, dr_candidate_count = 1,
     dr_allocation_count = 1, dr_risk_decision_count = 1, dr_order_count = 1, dr_exit_count = 0\<rparr>"

text \<open>A processor that counts its calls, and tokens of growing length.\<close>

definition ex_uuid4 :: "nat \<Rightarrow> string" where
  "ex_uuid4 n = replicate n CHR ''t''"

definition ex_ops :: "(memory_store, nat) session_ops" where
  "ex_ops = memory_ops ex_uuid4 (\<lambda>fs now calls. (Inr (Some ex_decision), calls + 1)) (\<lambda>w. (Aware 0, w))"

definition ex_session :: "(memory_store, nat) session" where
  "ex_session = \<lparr>sn_account_id = ''paper'', sn_health = session_health_init,
     sn_store = memory_store_init 300000000, sn_world = 0\<rparr>"

lemma ex_first_call:
  "\<exists>s1. session_process ex_ops [ex_feature] ex_session
     = (Inr (Some \<lparr>sr_session_cycle_id = session_cycle_id_of ''paper'' [ex_feature], sr_state = CLAIMED,
                   sr_decision = Some ex_decision\<rparr>), s1) \<and> sn_world s1 = 1"
  by (simp add: session_process_def process_one_def process_front_def process_back_def try_claimed_def run_claimed_def
      bind_st_def return_st_def lift_st_def latest_event_def session_clock_def on_world_def on_store_def zoom_def
      update_health_def memory_claim_def memory_cycle_of_def memory_complete_def memory_reconcile_def memory_retryable_def
      memory_store_init_def lease_held_def dt_add_def dt_min_def dt_max_def put_cycle_def Let_def
      ex_ops_def ex_session_def ex_feature_def)

theorem features_decided_once_witness:
  "\<exists>s3. session_process ex_ops [ex_feature] (snd (session_process ex_ops [ex_feature] ex_session))
      = (Inr (Some \<lparr>sr_session_cycle_id = session_cycle_id_of ''paper'' [ex_feature], sr_state = COMPLETED,
                    sr_decision = Some ex_decision\<rparr>), s3) \<and> sn_world s3 = 1"
proof -
  obtain s1 where s1: "session_process ex_ops [ex_feature] ex_session
     = (Inr (Some \<lparr>sr_session_cycle_id = session_cycle_id_of ''paper'' [ex_feature], sr_state = CLAIMED,
                   sr_decision = Some ex_decision\<rparr>), s1)" "sn_world s1 = 1"
    using ex_first_call by blast
  let ?clock = "\<lambda>w :: nat. (Aware 0, w)"
  have "\<exists>s3. session_process ex_ops [ex_feature] s1
      = (Inr (Some \<lparr>sr_session_cycle_id = session_cycle_id_of (sn_account_id ex_session) [ex_feature], sr_state = COMPLETED,
                    sr_decision = Some ex_decision\<rparr>), s3)
      \<and> sn_world s3 = snd (?clock (snd (?clock (sn_world s1)))) \<and> sn_store s3 = sn_store s1"
    unfolding ex_ops_def
    by (rule features_decided_once [OF s1(1) [unfolded ex_ops_def], where calls = "[]"]) (simp_all add: ex_feature_def)
  then show ?thesis using s1 by (auto simp: ex_session_def)
qed

text \<open>One process completes the cycle x; another still holds a claim whose lease ran out.\<close>

definition ex_claim :: "string \<Rightarrow> session_claim" where
  "ex_claim token = \<lparr>pc_state = CLAIMED, pc_session_cycle_id = ''x'', pc_evaluated_at = 0,
     pc_claim_token = Some token, pc_prior_result = None\<rparr>"

definition ex_cycle :: "string \<Rightarrow> string \<Rightarrow> instant option \<Rightarrow> decision_result option \<Rightarrow> memory_cycle" where
  "ex_cycle st token locked r = \<lparr>cy_evaluated_at = 0, cy_state = st, cy_claim_token = Some token,
     cy_locked_until = locked, cy_result = r\<rparr>"

definition ex_store :: "memory_cycle \<Rightarrow> nat \<Rightarrow> memory_store" where
  "ex_store c n = \<lparr>ms_lease = 10, ms_cycles = [(''x'', c)], ms_drawn = n\<rparr>"

lemmas ex_store_defs = ex_claim_def ex_cycle_def ex_store_def ex_uuid4_def memory_store_init_def memory_claim_def
  memory_cycle_of_def memory_complete_def lease_held_def dt_add_def dt_min_def dt_max_def put_cycle_def Let_def

lemma ex_lease_run:
  "(lease_step ex_uuid4)\<^sup>*\<^sup>* (memory_store_init 10, [])
     (ex_store (ex_cycle ''COMPLETED'' ''t'' None (Some ex_decision)) 2, [ex_claim []])"
proof -
  let ?s1 = "ex_store (ex_cycle ''RUNNING'' [] (Some 10) None) 1"
    and ?s2 = "ex_store (ex_cycle ''RUNNING'' ''t'' (Some 30) None) 2"
  have "lease_step ex_uuid4 (memory_store_init 10, []) (?s1, [ex_claim []])"
    by (rule claimed [of _ "''x''" 0]) (simp_all add: ex_store_defs)
  moreover have "lease_step ex_uuid4 (?s1, [ex_claim []]) (?s2, [ex_claim ''t'', ex_claim []])"
    by (rule claimed [of _ "''x''" 20]) (simp_all add: ex_store_defs)
  moreover have "lease_step ex_uuid4 (?s2, [ex_claim ''t'', ex_claim []])
      (ex_store (ex_cycle ''COMPLETED'' ''t'' None (Some ex_decision)) 2, remove1 (ex_claim ''t'') [ex_claim ''t'', ex_claim []])"
    by (rule finished [of _ _ ex_decision 21]) (simp_all add: ex_store_defs)
  ultimately show ?thesis by (simp add: rtranclp.rtrancl_into_rtrancl)
qed

theorem completed_cycle_final_witness:
  "memory_complete (ex_claim []) ex_decision 22 (ex_store (ex_cycle ''COMPLETED'' ''t'' None (Some ex_decision)) 2)
     = (Inl (RuntimeError ''paper session claim was lost before completion''),
        ex_store (ex_cycle ''COMPLETED'' ''t'' None (Some ex_decision)) 2)"
proof -
  have "inj ex_uuid4" by (rule injI) (metis ex_uuid4_def length_replicate)
  then show ?thesis using completed_cycle_final [OF _ ex_lease_run rtranclp.rtrancl_refl, of "''x''" ex_decision 22]
    by (auto simp: memory_result_of_def ex_store_def ex_cycle_def ex_claim_def)
qed

end
