(* ===== verification/Quotes.thy ===== *)
theory Quotes
  imports Providers
begin

text \<open>
  The data side of src/src/nanodelta/runtime/realtime.py: normalising a provider's quote
  frames (\<open>normalize_quote\<close>), building candles from quotes (\<open>CandleBuilder\<close>) and writing a
  settled candle as the payload the provider's own adapter reads (\<open>_candle_payload\<close>).
  A payload is a JSON value; \<open>datetime.fromisoformat\<close> is the parameter \<open>parse_iso\<close>.
\<close>

section \<open>Quotes\<close>

record quote_event =
  qe_market :: market
  qe_provider :: provider
  qe_symbol :: string
  qe_event_time :: instant
  qe_price :: pyfloat
  qe_volume :: pyfloat
  qe_sequence :: "int option"

text \<open>\<open>float(str(value))\<close> and \<open>int(str(value))\<close>\<close>

definition float_of_str :: "json \<Rightarrow> pyfloat result" where
  "float_of_str v = json_float (JStr (json_str v))"

definition int_of_str :: "json \<Rightarrow> int result" where
  "int_of_str v =
     (case py_int (json_str v) of
        Some n \<Rightarrow> Inr n
      | None \<Rightarrow> Inl (ValueError (''invalid literal for int() with base 10: '' @ repr_str (json_str v))))"

definition quote_time :: "(string \<Rightarrow> datetime result) \<Rightarrow> json option \<Rightarrow> instant \<Rightarrow> instant result" where
  "quote_time parse_iso value fallback =
     (case value of
        None \<Rightarrow> Inr fallback
      | Some v \<Rightarrow>
          if (case v of JBool _ \<Rightarrow> True | JInt _ \<Rightarrow> True | JFloat _ \<Rightarrow> True
                | _ \<Rightarrow> json_str v \<noteq> [] \<and> list_all is_digit (json_str v))
          then bind_r (float_of_str v) (\<lambda>raw.
                 bind_r (if Fin 10000000000 < raw then py_div raw (Fin 1000) else Inr raw) fromtimestamp)
          else bind_r (parse_iso (str_replace CHR ''Z'' ''+00:00'' (json_str v))) (\<lambda>t.
                 case t of
                   Naive _ \<Rightarrow> Inl (ValueError ''provider event time must include a timezone'')
                 | Aware i \<Rightarrow> Inr i))"

text \<open>
  \<open>payload.get(key)\<close> gives \<open>None\<close> for a missing key and for a null; \<open>payload.get(key, default)\<close>
  gives the default for a missing key only.
\<close>

definition get_some :: "json \<Rightarrow> string \<Rightarrow> json option" where
  "get_some p k = (case obj_get p k of None \<Rightarrow> None | Some JNull \<Rightarrow> None | Some v \<Rightarrow> Some v)"

definition not_null :: "json \<Rightarrow> json option" where
  "not_null v = (if v = JNull then None else Some v)"

definition get_either :: "json \<Rightarrow> string \<Rightarrow> string \<Rightarrow> json option" where
  "get_either p k k' = (case obj_get p k of Some v \<Rightarrow> not_null v | None \<Rightarrow> get_some p k')"

text \<open>\<open>levels[0]["price"]\<close>\<close>

definition first_level :: "json \<Rightarrow> json result" where
  "first_level v =
     (case v of
        JList (x # _) \<Rightarrow> Inr x
      | JList [] \<Rightarrow> Inl (OtherError ''IndexError'' ''list index out of range'')
      | JStr (c # _) \<Rightarrow> Inr (JStr [c])
      | JStr [] \<Rightarrow> Inl (OtherError ''IndexError'' ''string index out of range'')
      | JObj _ \<Rightarrow> Inl (OtherError ''KeyError'' ''0'')
      | _ \<Rightarrow> Inl (TypeError (repr_str (type_name v) @ '' object is not subscriptable'')))"

definition level_price :: "json \<Rightarrow> json result" where
  "level_price v =
     (case v of
        JObj _ \<Rightarrow> obj_item v ''price''
      | JList _ \<Rightarrow> Inl (TypeError ''list indices must be integers or slices, not str'')
      | JStr _ \<Rightarrow> Inl (TypeError (''string indices must be integers, not '' @ repr_str ''str''))
      | _ \<Rightarrow> Inl (TypeError (repr_str (type_name v) @ '' object is not subscriptable'')))"

definition book_price :: "json \<Rightarrow> pyfloat result" where
  "book_price levels = bind_r (first_level levels) (\<lambda>l. bind_r (level_price l) json_float)"

text \<open>The fields a provider's frame carries: symbol, price, volume, event time, sequence.\<close>

record quote_fields =
  qf_symbol :: "json option"
  qf_price :: "json option"
  qf_volume :: json
  qf_event_time :: "json option"
  qf_sequence :: "json option"

definition mid_price :: "json \<Rightarrow> json option result" where
  "mid_price p =
     (let bids = obj_get_or p ''bids'' (JList []); asks = obj_get_or p ''asks'' (JList []) in
      if json_truth bids \<and> json_truth asks
      then bind_r (book_price bids) (\<lambda>b. bind_r (book_price asks) (\<lambda>a. Inr (Some (JFloat (fquot (b + a) (Fin 2))))))
      else Inr None)"

fun is_object :: "json \<Rightarrow> bool" where
  "is_object (JObj _) = True"
| "is_object _ = False"

definition okx_fields :: "json \<Rightarrow> quote_fields" where
  "okx_fields p =
     (let argument = obj_get_or p ''arg'' (JObj []); data = obj_get_or p ''data'' (JObj []) in
      \<lparr>qf_symbol = (if is_object argument then get_some argument ''instId'' else None),
       qf_price = (if is_object data then get_some data ''last'' else None),
       qf_volume = (if is_object data then obj_get_or data ''lastSz'' (JInt 0) else JInt 0),
       qf_event_time = (if is_object data then get_some data ''ts'' else None),
       qf_sequence = (if is_object data then get_some data ''seqId'' else None)\<rparr>)"

fun quote_fields_of :: "provider \<Rightarrow> json \<Rightarrow> quote_fields result" where
  "quote_fields_of DHAN p = Inr
     \<lparr>qf_symbol = get_some p ''security_id'', qf_price = get_some p ''ltp'',
      qf_volume = obj_get_or p ''last_trade_quantity'' (JInt 0), qf_event_time = get_some p ''last_trade_time'',
      qf_sequence = None\<rparr>"
| "quote_fields_of TRUEDATA p = Inr
     \<lparr>qf_symbol = get_either p ''symbol'' ''symbol_id'', qf_price = get_some p ''ltp'',
      qf_volume = obj_get_or p ''ltq'' (JInt 0), qf_event_time = get_some p ''ltt'', qf_sequence = None\<rparr>"
| "quote_fields_of OANDA p = bind_r (mid_price p) (\<lambda>price. Inr
     \<lparr>qf_symbol = get_some p ''instrument'', qf_price = price, qf_volume = JInt 0,
      qf_event_time = get_some p ''time'', qf_sequence = None\<rparr>)"
| "quote_fields_of OKX p = Inr (okx_fields p)"
| "quote_fields_of POLONIEX p = Inr
     \<lparr>qf_symbol = get_some p ''symbol'', qf_price = get_either p ''price'' ''close'',
      qf_volume = (case obj_get p ''quantity'' of Some v \<Rightarrow> v | None \<Rightarrow> obj_get_or p ''amount'' (JInt 0)),
      qf_event_time = get_either p ''ts'' ''time'', qf_sequence = get_either p ''id'' ''sequence''\<rparr>"

definition mapped_symbol :: "(string, string) dict \<Rightarrow> string \<Rightarrow> string" where
  "mapped_symbol symbols raw =
     (case map_of symbols raw of Some s \<Rightarrow> s | None \<Rightarrow> str_replace CHR ''-'' ''_'' raw)"

definition normalize_quote ::
  "(string \<Rightarrow> datetime result) \<Rightarrow> market \<Rightarrow> provider \<Rightarrow> json \<Rightarrow> instant \<Rightarrow> (string, string) dict
     \<Rightarrow> quote_event option result" where
  "normalize_quote parse_iso m p payload received_at symbols =
     bind_r (quote_fields_of p payload) (\<lambda>f.
       case (qf_symbol f, qf_price f) of
         (Some s, Some price) \<Rightarrow>
           bind_r (quote_time parse_iso (qf_event_time f) received_at) (\<lambda>t.
           bind_r (float_of_str price) (\<lambda>x.
           bind_r (float_of_str (qf_volume f)) (\<lambda>v.
           bind_r (case qf_sequence f of None \<Rightarrow> Inr None | Some n \<Rightarrow> bind_r (int_of_str n) (\<lambda>i. Inr (Some i))) (\<lambda>n.
             Inr (Some \<lparr>qe_market = m, qe_provider = p, qe_symbol = mapped_symbol symbols (json_str s),
                        qe_event_time = t, qe_price = x, qe_volume = v, qe_sequence = n\<rparr>)))))
       | _ \<Rightarrow> Inr None)"

section \<open>Candles\<close>

record settled_candle =
  sc_symbol :: string
  sc_timeframe :: string
  sc_open_time :: instant
  sc_open :: pyfloat
  sc_high :: pyfloat
  sc_low :: pyfloat
  sc_close :: pyfloat
  sc_volume :: pyfloat

record candle_builder =
  cb_seconds :: int
  cb_label :: string
  cb_forming :: "(string, settled_candle) dict"

definition candle_builder_init :: "int \<Rightarrow> string option \<Rightarrow> candle_builder result" where
  "candle_builder_init seconds label =
     (if seconds \<le> 0 then Inl (ValueError ''timeframe_seconds must be positive'')
      else if (case label of None \<Rightarrow> False | Some l \<Rightarrow> str_strip l = [])
        then Inl (ValueError ''timeframe label cannot be empty'')
      else Inr \<lparr>cb_seconds = seconds,
             cb_label = (case label of None \<Rightarrow> str_of_int (seconds div 60) @ ''m'' | Some l \<Rightarrow> l),
             cb_forming = []\<rparr>)"

text \<open>\<open>datetime.fromtimestamp(n, UTC)\<close> of an int is exact.\<close>

definition bar_open :: "candle_builder \<Rightarrow> quote_event \<Rightarrow> instant result" where
  "bar_open b q =
     (let timestamp = timestamp_int (qe_event_time q) in
      fromtimestamp (Fin (of_int (timestamp - timestamp mod cb_seconds b))))"

definition first_bar :: "candle_builder \<Rightarrow> instant \<Rightarrow> quote_event \<Rightarrow> settled_candle" where
  "first_bar b opened q = \<lparr>sc_symbol = qe_symbol q, sc_timeframe = cb_label b, sc_open_time = opened,
     sc_open = qe_price q, sc_high = qe_price q, sc_low = qe_price q, sc_close = qe_price q,
     sc_volume = qe_volume q\<rparr>"

definition extend_bar :: "settled_candle \<Rightarrow> quote_event \<Rightarrow> settled_candle" where
  "extend_bar c q = c\<lparr>sc_high := py_max (sc_high c) (qe_price q), sc_low := py_min (sc_low c) (qe_price q),
     sc_close := qe_price q, sc_volume := sc_volume c + qe_volume q\<rparr>"

definition builder_add :: "quote_event \<Rightarrow> (candle_builder, settled_candle option) st" where
  "builder_add q b =
     (case bar_open b q of
        Inl e \<Rightarrow> (Inl e, b)
      | Inr opened \<Rightarrow>
          (let current = map_of (cb_forming b) (qe_symbol q);
               forming = (\<lambda>c. b\<lparr>cb_forming := AList.update (qe_symbol q) c (cb_forming b)\<rparr>)
           in case current of
                None \<Rightarrow> (Inr None, forming (first_bar b opened q))
              | Some c \<Rightarrow>
                  if sc_open_time c < opened then (Inr (Some c), forming (first_bar b opened q))
                  else if opened < sc_open_time c then (Inr None, b)
                  else (Inr None, forming (extend_bar c q))))"

text \<open>\<open>str(int(open_time.timestamp() * 1000))\<close>\<close>

definition millis :: "instant \<Rightarrow> json" where
  "millis t = JStr (str_of_int (case rnd64 (round_rat (of_int t / 1000000) * 1000) of Fin q \<Rightarrow> truncate_rat q | _ \<Rightarrow> 0))"

fun candle_payload :: "provider \<Rightarrow> settled_candle \<Rightarrow> json" where
  "candle_payload DHAN c = JObj
     [(''open'', JFloat (sc_open c)), (''high'', JFloat (sc_high c)), (''low'', JFloat (sc_low c)),
      (''close'', JFloat (sc_close c)), (''timestamp'', JStr (isoformat (sc_open_time c))),
      (''volume'', JFloat (sc_volume c)), (''timeframe'', JStr (sc_timeframe c)), (''settled'', JBool True)]"
| "candle_payload TRUEDATA c = JObj
     [(''time'', JStr (isoformat (sc_open_time c))), (''o'', JFloat (sc_open c)), (''h'', JFloat (sc_high c)),
      (''l'', JFloat (sc_low c)), (''c'', JFloat (sc_close c)), (''v'', JFloat (sc_volume c)),
      (''interval'', JStr (sc_timeframe c)), (''complete'', JBool True)]"
| "candle_payload OANDA c = JObj
     [(''time'', JStr (isoformat (sc_open_time c))),
      (''mid'', JObj [(''o'', JFloat (sc_open c)), (''h'', JFloat (sc_high c)), (''l'', JFloat (sc_low c)),
                      (''c'', JFloat (sc_close c))]),
      (''volume'', JFloat (sc_volume c)), (''timeframe'', JStr (sc_timeframe c)), (''complete'', JBool True)]"
| "candle_payload OKX c = JObj
     [(''ts'', millis (sc_open_time c)), (''o'', JFloat (sc_open c)), (''h'', JFloat (sc_high c)),
      (''l'', JFloat (sc_low c)), (''c'', JFloat (sc_close c)), (''vol'', JFloat (sc_volume c)),
      (''bar'', JStr (sc_timeframe c)), (''confirm'', JStr ''1'')]"
| "candle_payload POLONIEX c = JObj
     [(''open'', JFloat (sc_open c)), (''high'', JFloat (sc_high c)), (''low'', JFloat (sc_low c)),
      (''close'', JFloat (sc_close c)), (''quantity'', JFloat (sc_volume c)), (''interval'', JStr (sc_timeframe c)),
      (''startTime'', millis (sc_open_time c)), (''settled'', JBool True)]"

section \<open>Reading back what was written\<close>

lemma set_str_of_int: "c \<in> set (str_of_int i) \<Longrightarrow> is_digit c \<or> c = CHR ''-''"
  using digits_str_of_nat by (auto simp: str_of_int_def list_all_iff split: if_splits)

lemma set_zfill: "c \<in> set (zfill w i) \<Longrightarrow> is_digit c \<or> c = CHR ''-''"
  using set_str_of_int is_digit_char [of 0] by (auto simp: zfill_def Let_def)

lemma no_Z_isoformat: "CHR ''Z'' \<notin> set (isoformat t)"
proof -
  have "CHR ''Z'' \<notin> set (zfill w i)" for w i using set_zfill digit_not_special by fastforce
  then show ?thesis by (auto simp: isoformat_def date_isoformat_def Let_def split: prod.splits if_splits)
qed

lemma str_replace_absent: "c \<notin> set s \<Longrightarrow> str_replace c n s = s"
  by (induction s) (auto simp: str_replace_def)

lemma not_digits_isoformat: "\<not> list_all is_digit (isoformat t)"
  by (auto simp: isoformat_def Let_def is_digit_def)

lemma timestamp_of_isoformat:
  "parse_iso (isoformat t) = Inr (Aware t) \<Longrightarrow> timestamp_of parse_iso (JStr (isoformat t)) = Inr t"
  by (simp add: timestamp_of_def not_digits_isoformat json_str_def str_replace_absent no_Z_isoformat)

lemma truncate_rat_of_int: "truncate_rat (of_int k) = k"
  by (simp add: truncate_rat_def)

text \<open>Whole seconds survive the floats: milliseconds below two to the power 53 are exact.\<close>

lemma millis_whole:
  assumes "0 \<le> k" and "k * 1000 \<le> 2 ^ 53"
  shows "millis (k * us_per_second) = JStr (str_of_nat (nat (k * 1000)))"
proof -
  have "round_rat (of_int (k * us_per_second) / 1000000) = of_int k"
    using round_rat_int [of k] assms by (simp add: us_per_second_def)
  moreover have "rnd64 (of_int k * 1000) = Fin (of_int (k * 1000))"
    using rnd64_f64 [OF is_f64_int [of "k * 1000"]] assms by simp
  moreover have "str_of_int (k * 1000) = str_of_nat (nat (k * 1000))" using assms by (simp add: str_of_int_def)
  ultimately show ?thesis by (simp add: millis_def truncate_rat_of_int del: of_int_mult)
qed

lemma civil_year_bounds:
  assumes "0 \<le> z" and "z \<le> 3000000"
  shows "0 \<le> fst (civil_of_days z)" and "fst (civil_of_days z) \<le> 20000"
proof -
  define doe where "doe = (z + 719468) mod 146097"
  define yoe where "yoe = (doe - doe div 1460 + doe div 36524 - doe div 146096) div 365"
  define era where "era = (z + 719468) div 146097"
  have doe: "0 \<le> doe" "doe < 146097" by (simp_all add: doe_def)
  have quot: "0 \<le> n div c" "n div c \<le> n" if "0 \<le> n" "0 < c" for n c :: int
    using that zdiv_mono2 [of n 1 c] by (simp_all add: pos_imp_zdiv_nonneg_iff)
  have "doe div 146096 \<le> 1" using zdiv_mono1 [of doe 146096 146096] doe by simp
  with quot [of doe 1460] quot [of doe 36524] doe
  have num: "- 365 \<le> doe - doe div 1460 + doe div 36524 - doe div 146096"
    "doe - doe div 1460 + doe div 36524 - doe div 146096 \<le> 300000" by linarith+
  have "- 1 \<le> yoe" "yoe \<le> 1000"
    using zdiv_mono1 [OF num(1), of 365] zdiv_mono1 [OF num(2), of 365] by (simp_all add: yoe_def)
  moreover have "4 \<le> era" "era \<le> 40"
    using zdiv_mono1 [of 719468 "z + 719468" 146097] zdiv_mono1 [of "z + 719468" 3719468 146097] assms
    by (simp_all add: era_def)
  moreover have "(if b then y + 1 else y) = y \<or> (if b then y + 1 else y) = y + 1" for b and y :: int by simp
  then have "fst (civil_of_days z) = yoe + era * 400 \<or> fst (civil_of_days z) = yoe + era * 400 + 1"
    unfolding civil_of_days_def Let_def fst_conv yoe_def era_def doe_def .
  ultimately show "0 \<le> fst (civil_of_days z)" and "fst (civil_of_days z) \<le> 20000" by linarith+
qed

lemma fromtimestamp_whole:
  assumes "0 \<le> k" and "k * us_per_second \<le> dt_max"
  shows "fromtimestamp (Fin (of_int k)) = Inr (k * us_per_second)"
proof -
  have "0 \<le> date_of (k * us_per_second)" "date_of (k * us_per_second) \<le> 3000000"
    using assms by (auto simp: date_of_def us_per_day_def us_per_second_def dt_max_def)
  note y = civil_year_bounds [OF this]
  have "k < 2 ^ 63" using assms by (simp add: dt_max_def us_per_second_def)
  moreover have "dt_min \<le> k * us_per_second" using assms by (simp add: dt_min_def us_per_second_def)
  ultimately show ?thesis using assms y
    by (simp add: fromtimestamp_def truncate_rat_of_int rne_def us_per_second_def zero_pyfloat_def Let_def)
qed

lemma timestamp_of_millis:
  assumes "10000000000 < k * 1000" and "k * us_per_second \<le> dt_max"
  shows "timestamp_of parse_iso (millis (k * us_per_second)) = Inr (k * us_per_second)"
proof -
  have k: "0 \<le> k" "k * 1000 \<le> 2 ^ 53" using assms by (simp_all add: dt_max_def us_per_second_def)
  have f: "rnd64 (of_int (k * 1000)) = Fin (of_int (k * 1000))"
    using k by (intro rnd64_f64 is_f64_int) simp
  have "py_div (Fin (of_int (k * 1000))) (Fin 1000) = Inr (Fin (of_int k))"
    using rnd64_f64 [OF is_f64_int [of k]] k by (simp add: py_div_def zero_pyfloat_def)
  moreover have "(10000000000 :: rat) < of_int (k * 1000)" using assms(1) by (metis of_int_less_iff of_int_numeral)
  ultimately show ?thesis
    using digits_str_of_nat [of "nat (k * 1000)"] fromtimestamp_whole [OF k(1) assms(2)]
    by (simp add: millis_whole [OF k] timestamp_of_def json_float_def py_float_str_of_nat f del: of_int_mult)
qed

definition candle_consistent :: "settled_candle \<Rightarrow> bool" where
  "candle_consistent c \<longleftrightarrow> list_all isfinite [sc_open c, sc_high c, sc_low c, sc_close c, sc_volume c]
     \<and> 0 \<le> sc_volume c \<and> sc_low c \<le> sc_open c \<and> sc_low c \<le> sc_close c
     \<and> sc_open c \<le> sc_high c \<and> sc_close c \<le> sc_high c"

text \<open>The symbol and timeframe under which the adapter of a provider files a candle.\<close>

fun filed_symbol :: "provider \<Rightarrow> string \<Rightarrow> string" where
  "filed_symbol DHAN s = str_upper s"
| "filed_symbol TRUEDATA s = str_upper s"
| "filed_symbol p s = str_replace CHR ''-'' ''_'' (str_upper s)"

definition filed_timeframe :: "provider \<Rightarrow> string \<Rightarrow> string" where
  "filed_timeframe p tf = (if p = POLONIEX then str_lower tf else tf)"

definition filed_candle :: "raw_record \<Rightarrow> settled_candle \<Rightarrow> canonical_candle" where
  "filed_candle raw c = (let s = filed_symbol (rr_provider raw) (rr_provider_symbol raw);
       tf = filed_timeframe (rr_provider raw) (sc_timeframe c) in
     \<lparr>cc_record_id = stable_id [market_value (rr_market raw), s, tf, isoformat (sc_open_time c)],
      cc_raw_record_id = rr_record_id raw, cc_market = rr_market raw, cc_provider = rr_provider raw,
      cc_symbol = s, cc_timeframe = tf, cc_open_time = sc_open_time c, cc_open = sc_open c, cc_high = sc_high c,
      cc_low = sc_low c, cc_close = sc_close c, cc_volume = sc_volume c, cc_is_settled = True,
      cc_schema_version = 1\<rparr>)"

lemma post_init_consistent:
  "candle_consistent c \<Longrightarrow> canonical_candle_post_init (filed_candle raw c) = Inr (filed_candle raw c)"
  by (auto simp: candle_consistent_def filed_candle_def canonical_candle_post_init_def Let_def isfinite_iff
      py_min_def py_max_def zero_pyfloat_def split: if_splits)

lemma float_field_float: "obj_get p k = Some (JFloat x) \<Longrightarrow> float_field p k = Inr x"
  by (simp add: float_field_def json_float_def)

lemma candle_payload_keys: "\<exists>d. candle_payload p c = JObj d \<and> distinct (map fst d)"
  by (cases p) simp_all

lemma payload_item:
  assumes "v = json_sort (candle_payload p c)"
  shows "obj_get v k = map_option json_sort (obj_get (candle_payload p c) k)"
  using candle_payload_keys [of p c] obj_get_sorted unfolding assms by metis

text \<open>The shared tail of the adapters, given the fields they read.\<close>

lemma adapt_fields:
  assumes "obj_get (rr_payload raw) time_key = Some v" and "timestamp_of parse_iso v = Inr (sc_open_time c)"
    and "obj_get prices k1 = Some (JFloat (sc_open c))" and "obj_get prices k2 = Some (JFloat (sc_high c))"
    and "obj_get prices k3 = Some (JFloat (sc_low c))" and "obj_get prices k4 = Some (JFloat (sc_close c))"
    and "obj_get (rr_payload raw) volume_key = Some (JFloat (sc_volume c))"
    and "s = filed_symbol (rr_provider raw) (rr_provider_symbol raw)"
    and "tf = filed_timeframe (rr_provider raw) (sc_timeframe c)" and "candle_consistent c" and settled
  shows "adapt parse_iso raw s tf time_key prices [k1, k2, k3, k4] volume_key settled = Inr (filed_candle raw c)"
  using assms post_init_consistent [of c raw]
  by (simp add: adapt_def obj_item_def float_field_float candle_of_def filed_candle_def Let_def)

lemma adapters_read_payload:
  assumes "rr_payload raw = json_sort (candle_payload (rr_provider raw) c)" and "candle_consistent c"
    and "parse_iso (isoformat (sc_open_time c)) = Inr (Aware (sc_open_time c))"
    and "sc_open_time c = k * us_per_second" and "10000000000 < k * 1000" and "k * us_per_second \<le> dt_max"
  shows "snd (adapters (rr_provider raw)) parse_iso raw = Inr (filed_candle raw c)"
proof -
  note t = timestamp_of_isoformat [of parse_iso, OF assms(3)] timestamp_of_millis [OF assms(5,6), of parse_iso, folded assms(4)]
  note item = payload_item [OF assms(1)] obj_get_or_def
  have sorted_millis: "json_sort (millis u) = millis u" for u by (simp add: millis_def)
  show ?thesis
  proof (cases "rr_provider raw")
    case OANDA
    let ?mid = "[(''o'', JFloat (sc_open c)), (''h'', JFloat (sc_high c)), (''l'', JFloat (sc_low c)), (''c'', JFloat (sc_close c))]"
    obtain mid where mid: "json_sort (JObj ?mid) = JObj mid" by simp
    have price: "obj_get (JObj mid) j = map_option json_sort (obj_get (JObj ?mid) j)" for j
      using obj_get_sorted [of ?mid j] mid by simp
    have "obj_get (rr_payload raw) ''mid'' = Some (JObj mid)" using item(1) OANDA mid by (simp add: obj_get_def)
    then show ?thesis unfolding OANDA using OANDA item t price assms(2)
      by (auto simp: adapt_oanda_def Let_def obj_get_def [of "JObj _"] pair_symbol_def filed_timeframe_def json_str_def
          intro!: adapt_fields)
  qed (use item t assms(2) in \<open>auto simp: adapt_dhan_def adapt_truedata_def adapt_okx_def adapt_poloniex_def Let_def
          obj_get_def [of "JObj _"] pair_symbol_def filed_timeframe_def json_str_def sorted_millis intro!: adapt_fields\<close>)
qed

text \<open>
  C32: A candle built from quotes survives its detour through a provider payload.  The cycle
  writes a settled candle as a frame of the provider the quotes came from and ingests it
  like any other; the adapter of that provider reads back the same open time, prices and
  volume, marks the candle as settled and files it under the quote's symbol and timeframe,
  for all five providers.  Open times are whole seconds after 1970-04-26, and the
  interpreter's \<open>fromisoformat\<close> reads what \<open>isoformat\<close> writes.
\<close>

theorem settled_candle_roundtrip:
  assumes "candle_consistent c" and "parse_iso (isoformat (sc_open_time c)) = Inr (Aware (sc_open_time c))"
    and "us_per_second dvd sc_open_time c" and "10000000000 < sc_open_time c div 1000" and "sc_open_time c \<le> dt_max"
    and "fst (adapters p) = m"
  shows "\<exists>r l' c'. ingest parse_iso m p CANDLE psym (candle_payload p c) (Aware now) l = (Inr r, l')
     \<and> ig_canonical r = Some c' \<and> ig_rejection_reason r = None \<and> cc_is_settled c'
     \<and> cc_symbol c' = filed_symbol p psym \<and> cc_timeframe c' = filed_timeframe p (sc_timeframe c)
     \<and> cc_open_time c' = sc_open_time c \<and> cc_open c' = sc_open c \<and> cc_high c' = sc_high c
     \<and> cc_low c' = sc_low c \<and> cc_close c' = sc_close c \<and> cc_volume c' = sc_volume c
     \<and> map_of l' (lake_path_of m ''silver'' (cc_open_time c') (cc_record_id c')) \<noteq> None"
proof -
  obtain k where k: "sc_open_time c = k * us_per_second" using assms(3) by (metis dvd_def mult.commute)
  have k': "10000000000 < k * 1000" "k * us_per_second \<le> dt_max" using assms(4,5) k by (simp_all add: us_per_second_def)
  obtain raw where raw: "raw_record_create m p CANDLE psym (Aware now) (candle_payload p c) = Inr raw"
    by (simp add: raw_record_create_def)
  then have r: "rr_market raw = m" "rr_provider raw = p" "rr_provider_symbol raw = psym"
    "rr_payload raw = json_sort (candle_payload (rr_provider raw) c)" by (auto simp: raw_record_create_def)
  have "canonicalize parse_iso raw = Inr (filed_candle raw c)"
    using adapters_read_payload [OF r(4) assms(1) _ k k'] assms(2,6) r by (simp add: canonicalize_def adapter_for_def)
  moreover obtain b l1 where "lake_write m ''bronze'' (rr_received_at raw) (rr_record_id raw) (raw_record_dict raw) l = (Inr b, l1)"
    using lake_write_total [of "''bronze''"] by blast
  moreover obtain b' l2 where w: "lake_write m ''silver'' (sc_open_time c) (cc_record_id (filed_candle raw c))
      (canonical_candle_dict (filed_candle raw c)) l1 = (Inr b', l2)"
    using lake_write_total [of "''silver''"] by blast
  moreover have f: "cc_open_time (filed_candle raw c) = sc_open_time c" "cc_is_settled (filed_candle raw c)"
    by (simp_all add: filed_candle_def Let_def)
  ultimately have "\<exists>r. ingest parse_iso m p CANDLE psym (candle_payload p c) (Aware now) l = (Inr r, l2)
      \<and> ig_canonical r = Some (filed_candle raw c) \<and> ig_rejection_reason r = None"
    using raw r(1) by (simp add: ingest_def ingest_candle_def bind_st_def lift_st_def return_st_def Let_def)
  then show ?thesis using lake_write_file(1) [OF w] r(2,3) f by (fastforce simp: filed_candle_def Let_def)
qed

section \<open>The candle builder against its specification\<close>

definition bar_time :: "int \<Rightarrow> quote_event \<Rightarrow> instant" where
  "bar_time seconds q = (let n = timestamp_int (qe_event_time q) in (n - n mod seconds) * us_per_second)"

text \<open>The candle of a list of quotes: first, largest, smallest and last price, and the volume.\<close>

definition bar_of :: "string \<Rightarrow> instant \<Rightarrow> quote_event list \<Rightarrow> settled_candle" where
  "bar_of label t qs = (let prices = map qe_price qs in
     \<lparr>sc_symbol = qe_symbol (hd qs), sc_timeframe = label, sc_open_time = t, sc_open = hd prices,
      sc_high = foldl py_max (hd prices) (tl prices), sc_low = foldl py_min (hd prices) (tl prices),
      sc_close = last prices, sc_volume = foldl (+) (qe_volume (hd qs)) (map qe_volume (tl qs))\<rparr>)"

definition forming_bar :: "int \<Rightarrow> string \<Rightarrow> quote_event list \<Rightarrow> settled_candle option" where
  "forming_bar seconds label qs =
     (if qs = [] then None
      else let t = Max (set (map (bar_time seconds) qs)) in
        Some (bar_of label t (filter (\<lambda>q. bar_time seconds q = t) qs)))"

lemma bar_open_Inr: "bar_open b q = Inr t \<Longrightarrow> t = bar_time (cb_seconds b) q"
  unfolding bar_open_def bar_time_def Let_def by (rule fromtimestamp_int)

lemma bar_of_single: "bar_of (cb_label b) t [q] = first_bar b t q"
  by (simp add: bar_of_def first_bar_def)

lemma bar_of_snoc: "qs \<noteq> [] \<Longrightarrow> bar_of label t (qs @ [q]) = extend_bar (bar_of label t qs) q"
  by (cases qs) (simp_all add: bar_of_def extend_bar_def)

lemma forming_bar_snoc:
  assumes "forming_bar s label qs = Some c" and "b = \<lparr>cb_seconds = s, cb_label = label, cb_forming = fs\<rparr>"
  shows "forming_bar s label (qs @ [q]) =
    Some (if sc_open_time c < bar_time s q then first_bar b (bar_time s q) q
          else if bar_time s q < sc_open_time c then c else extend_bar c q)"
proof -
  let ?T = "set (map (bar_time s) qs)" and ?M = "Max (set (map (bar_time s) qs))"
  have qs: "qs \<noteq> []" and c: "c = bar_of label ?M (filter (\<lambda>q. bar_time s q = ?M) qs)"
    using assms(1) by (auto simp: forming_bar_def Let_def split: if_splits)
  then have open_time: "sc_open_time c = ?M" by (simp add: bar_of_def Let_def)
  have max: "Max (insert (bar_time s q) (bar_time s ` set qs)) = max (bar_time s q) (Max (bar_time s ` set qs))"
    using qs by (simp add: Max_insert)
  have "?M \<in> ?T" using qs by (intro Max_in) auto
  then have some: "filter (\<lambda>q. bar_time s q = ?M) qs \<noteq> []" by (auto simp: filter_empty_conv)
  have none: "filter (\<lambda>p. bar_time s p = t) qs = []" if "?M < t" for t
    using that Max_ge [of ?T] by (fastforce simp: filter_empty_conv)
  consider "?M < bar_time s q" | "bar_time s q < ?M" | "bar_time s q = ?M" by linarith
  then show ?thesis
  proof cases
    case 1
    then show ?thesis using none [OF 1] bar_of_single [of b] assms(2) open_time
      by (simp add: forming_bar_def max max_def Let_def)
  next
    case 2
    then show ?thesis using c open_time by (simp add: forming_bar_def max max_def Let_def)
  next
    case 3
    then have "Max (insert (Max (bar_time s ` set qs)) (bar_time s ` set qs)) = Max (bar_time s ` set qs)" using max by simp
    then show ?thesis using 3 c open_time bar_of_snoc [OF some] by (simp add: forming_bar_def Let_def)
  qed
qed

lemma for_st_snoc:
  "for_st f (xs @ [x]) s = (Inr zs, s') \<longleftrightarrow>
     (\<exists>ys y s1. for_st f xs s = (Inr ys, s1) \<and> f x s1 = (Inr y, s') \<and> zs = ys @ [y])"
  by (induction xs arbitrary: s zs) (auto simp: bind_st_Inr_iff)

lemma builder_add_Inr:
  assumes "builder_add q b = (Inr out, b')"
  shows "cb_seconds b' = cb_seconds b \<and> cb_label b' = cb_label b \<and> bar_open b q = Inr (bar_time (cb_seconds b) q)"
  using assms by (auto simp: builder_add_def Let_def split: sum.splits option.splits if_splits dest: bar_open_Inr)

definition of_symbol :: "string \<Rightarrow> quote_event list \<Rightarrow> quote_event list" where
  "of_symbol s = filter (\<lambda>q. qe_symbol q = s)"

lemma builder_run:
  assumes "for_st builder_add qs b0 = (Inr outs, b)" and "cb_forming b0 = []"
  shows "cb_seconds b = cb_seconds b0 \<and> cb_label b = cb_label b0
     \<and> map_of (cb_forming b) = (\<lambda>s. forming_bar (cb_seconds b0) (cb_label b0) (of_symbol s qs))"
  using assms
proof (induction qs arbitrary: outs b rule: rev_induct)
  case Nil
  then show ?case by (simp add: forming_bar_def of_symbol_def fun_eq_iff)
next
  case (snoc q qs)
  then obtain os out b1 where run: "for_st builder_add qs b0 = (Inr os, b1)" and add: "builder_add q b1 = (Inr out, b)"
    by (auto simp: for_st_snoc)
  note ih = snoc.IH [OF run snoc.prems(2)]
  note b1 = builder_add_Inr [OF add]
  let ?f = "\<lambda>qs. forming_bar (cb_seconds b0) (cb_label b0) qs" and ?s = "qe_symbol q"
  have same: "of_symbol s (qs @ [q]) = (if s = ?s then of_symbol s qs @ [q] else of_symbol s qs)" for s
    by (simp add: of_symbol_def)
  have "map_of (cb_forming b) = (map_of (cb_forming b1))(?s := ?f (of_symbol ?s qs @ [q]))"
  proof (cases "?f (of_symbol ?s qs)")
    case None
    then have "of_symbol ?s qs = []" by (simp add: forming_bar_def Let_def split: if_splits)
    then show ?thesis using add b1 ih None bar_of_single [of b1]
      by (auto simp: builder_add_def Let_def forming_bar_def)
  next
    case (Some c)
    have "b1 = \<lparr>cb_seconds = cb_seconds b0, cb_label = cb_label b0, cb_forming = cb_forming b1\<rparr>" using ih by simp
    note step = forming_bar_snoc [OF Some this, of q]
    show ?thesis using add b1 ih Some step
      by (auto simp: builder_add_def Let_def fun_upd_idem split: if_splits)
  qed
  then show ?case using ih b1 by (auto simp: same fun_eq_iff)
qed

text \<open>
  C33: The incremental candle builder computes what a batch over all quotes would.  After any
  quotes that were accepted without an exception, the next one makes the builder hand out a
  candle exactly if it opens a later bar of its symbol than every quote of that symbol
  before it, and the candle is the one of all quotes of the last bar: first, largest,
  smallest and last price and the volume.  Quotes that arrive late change nothing.
\<close>

theorem candles_aggregate_quotes:
  assumes "candle_builder_init seconds label = Inr b0" and "for_st builder_add qs b0 = (Inr outs, b)"
    and "builder_add q b = (Inr out, b')"
  shows "out = (let prior = of_symbol (qe_symbol q) qs; t = Max (set (map (bar_time seconds) prior)) in
     if prior \<noteq> [] \<and> t < bar_time seconds q
     then Some (bar_of (cb_label b0) t (filter (\<lambda>p. bar_time seconds p = t) prior)) else None)"
proof -
  have b0: "cb_forming b0 = []" "cb_seconds b0 = seconds"
    using assms(1) by (auto simp: candle_builder_init_def split: if_splits)
  note run = builder_run [OF assms(2) b0(1)]
  note add = builder_add_Inr [OF assms(3)]
  show ?thesis using assms(3) run add b0(2)
    by (cases "of_symbol (qe_symbol q) qs = []")
      (auto simp: builder_add_def forming_bar_def bar_of_def Let_def split: if_splits)
qed

text \<open>Until the year 2242 no quote makes the builder raise.\<close>

lemma bar_open_total:
  assumes "0 \<le> qe_event_time q" and "qe_event_time q < 2 ^ 33 * us_per_second" and "0 < cb_seconds b"
  shows "bar_open b q = Inr (bar_time (cb_seconds b) q)"
    and "bar_time (cb_seconds b) q = qe_event_time q div us_per_second div cb_seconds b * cb_seconds b * us_per_second"
proof -
  let ?n = "qe_event_time q div us_per_second"
  have n: "timestamp_int (qe_event_time q) = ?n" by (rule timestamp_int_div [OF assms(1,2)])
  have k: "?n - ?n mod cb_seconds b = ?n div cb_seconds b * cb_seconds b" by (simp add: minus_mod_eq_div_mult)
  have "0 \<le> ?n" "?n < 2 ^ 33" using assms(1,2) by (auto simp: us_per_second_def)
  moreover have "?n div cb_seconds b * cb_seconds b \<le> ?n" using pos_mod_sign [OF assms(3), of ?n] k by linarith
  ultimately have "0 \<le> ?n div cb_seconds b * cb_seconds b"
    "?n div cb_seconds b * cb_seconds b * us_per_second \<le> dt_max"
    using assms(3) by (simp_all add: pos_imp_zdiv_nonneg_iff us_per_second_def dt_max_def)
  from fromtimestamp_whole [OF this] show "bar_open b q = Inr (bar_time (cb_seconds b) q)"
    unfolding bar_open_def bar_time_def Let_def n k .
  show "bar_time (cb_seconds b) q = ?n div cb_seconds b * cb_seconds b * us_per_second"
    by (simp add: bar_time_def n k)
qed

section \<open>Examples\<close>

definition ex_settled :: settled_candle where
  "ex_settled = \<lparr>sc_symbol = ''TCS'', sc_timeframe = ''5m'', sc_open_time = 1700000000000000, sc_open = Fin 100,
     sc_high = Fin 102, sc_low = Fin 99, sc_close = Fin 101, sc_volume = Fin 10\<rparr>"

theorem settled_candle_roundtrip_witness:
  "\<exists>r l' c'. ingest (\<lambda>s. Inr (Aware 1700000000000000)) CRYPTO OKX CANDLE ''btc-usdt'' (candle_payload OKX ex_settled)
       (Aware 0) [] = (Inr r, l') \<and> ig_canonical r = Some c' \<and> cc_symbol c' = ''BTC_USDT'' \<and> cc_close c' = Fin 101
     \<and> cc_open_time c' = 1700000000000000"
proof -
  have "candle_consistent ex_settled" by (simp add: candle_consistent_def ex_settled_def zero_pyfloat_def)
  from settled_candle_roundtrip [OF this, of "\<lambda>s. Inr (Aware 1700000000000000)" OKX CRYPTO "''btc-usdt''" 0 "[]"]
  obtain r l' c' where "ingest (\<lambda>s. Inr (Aware 1700000000000000)) CRYPTO OKX CANDLE ''btc-usdt''
       (candle_payload OKX ex_settled) (Aware 0) [] = (Inr r, l')" "ig_canonical r = Some c'"
    "cc_symbol c' = filed_symbol OKX ''btc-usdt''" "cc_open_time c' = sc_open_time ex_settled" "cc_close c' = sc_close ex_settled"
    by (auto simp: ex_settled_def us_per_second_def dt_max_def simp del: candle_payload.simps filed_symbol.simps)
  moreover have "filed_symbol OKX ''btc-usdt'' = ''BTC_USDT''" by code_simp
  ultimately show ?thesis by (auto simp: ex_settled_def simp del: candle_payload.simps)
qed

definition ex_quote :: "instant \<Rightarrow> pyfloat \<Rightarrow> quote_event" where
  "ex_quote t x = \<lparr>qe_market = NSE, qe_provider = DHAN, qe_symbol = ''TCS'', qe_event_time = t, qe_price = x,
     qe_volume = Fin 1, qe_sequence = None\<rparr>"

lemma ex_quote_simps [simp]: "qe_symbol (ex_quote t x) = ''TCS''"
  by (simp add: ex_quote_def)

theorem candles_aggregate_quotes_witness:
  "\<exists>b0 outs b b' c. candle_builder_init 60 None = Inr b0
     \<and> for_st builder_add [ex_quote 1000000 (Fin 5), ex_quote 2000000 (Fin 7)] b0 = (Inr outs, b)
     \<and> builder_add (ex_quote 61000000 (Fin 6)) b = (Inr (Some c), b') \<and> sc_close c = Fin 7 \<and> sc_volume c = Fin 2"
proof -
  have t: "cb_seconds b = 60 \<Longrightarrow> bar_open b (ex_quote 1000000 x) = Inr 0" "cb_seconds b = 60 \<Longrightarrow> bar_open b (ex_quote 2000000 x) = Inr 0"
    "cb_seconds b = 60 \<Longrightarrow> bar_open b (ex_quote 61000000 x) = Inr 60000000" for b x
    using bar_open_total [of "ex_quote 1000000 x" b] bar_open_total [of "ex_quote 2000000 x" b]
      bar_open_total [of "ex_quote 61000000 x" b] by (simp_all add: ex_quote_def us_per_second_def)
  obtain b0 where b0: "candle_builder_init 60 None = Inr b0" "cb_seconds b0 = 60" "cb_forming b0 = []"
    by (simp add: candle_builder_init_def)
  then obtain outs b where run: "for_st builder_add [ex_quote 1000000 (Fin 5), ex_quote 2000000 (Fin 7)] b0 = (Inr outs, b)"
    by (simp add: builder_add_def bind_st_def return_st_def Let_def t first_bar_def)
  then have s: "cb_seconds b = 60" using builder_run [OF run b0(3)] b0(2) by simp
  have "\<exists>out b'. builder_add (ex_quote 61000000 (Fin 6)) b = (Inr out, b')"
    by (simp add: builder_add_def Let_def t(3) [OF s] split: option.split)
  then obtain out b' where add: "builder_add (ex_quote 61000000 (Fin 6)) b = (Inr out, b')" by blast
  have bars: "bar_time 60 (ex_quote 1000000 (Fin 5)) = 0" "bar_time 60 (ex_quote 2000000 (Fin 7)) = 0"
    "bar_time 60 (ex_quote 61000000 (Fin 6)) = 60000000"
    using t(1,2,3) [OF b0(2)] bar_open_Inr [of b0] b0(2) by metis+
  have "out = Some (bar_of (cb_label b0) 0 [ex_quote 1000000 (Fin 5), ex_quote 2000000 (Fin 7)])"
    using candles_aggregate_quotes [OF b0(1) run add] bars by (simp add: of_symbol_def ex_quote_def Let_def)
  then show ?thesis using b0(1) run add by (auto simp: bar_of_def ex_quote_def)
qed

end
