(* ===== verification/Realtime.thy ===== *)
theory Realtime
  imports Quotes Risk
begin

text \<open>
  The realtime market cycle: provider failover and recovery, sequence gaps and persistence
  of quotes and candles (\<open>RealtimeMarketCycle\<close> of src/src/nanodelta/runtime/realtime.py), and
  the feed state it stores (runtime/feed\_state.py, whose two statements are upserts).  The
  provider clients, the clock, the loader of earlier candles and the feature handler are
  fields of \<open>feed_config\<close> that act on a world of their own; metrics are left out.  A call
  that awaits provider frames may not return, so such calls have the type \<open>option\<close>: \<open>None\<close> is
  a call that waits for ever.
\<close>

section \<open>Feed state and its store\<close>

datatype feed_state = HEALTHY | DEGRADED | FAILED_OVER

fun feed_state_value :: "feed_state \<Rightarrow> string" where
  "feed_state_value HEALTHY = ''HEALTHY''"
| "feed_state_value DEGRADED = ''DEGRADED''"
| "feed_state_value FAILED_OVER = ''FAILED_OVER''"

definition feed_state_of :: "string \<Rightarrow> feed_state result" where
  "feed_state_of s =
     (if s = ''HEALTHY'' then Inr HEALTHY else if s = ''DEGRADED'' then Inr DEGRADED
      else if s = ''FAILED_OVER'' then Inr FAILED_OVER
      else Inl (ValueError (repr_str s @ '' is not a valid FeedState'')))"

record stream_snapshot =
  sp_market :: market
  sp_active_provider :: provider
  sp_state :: feed_state
  sp_connected_at :: instant
  sp_last_event_at :: "instant option"
  sp_gap_count :: int
  sp_failover_count :: int
  sp_last_error :: "string option"
  sp_failed_over_at :: "instant option"
  sp_fallback_available :: bool
  sp_status_detail :: "string option"

record feed_state_record =
  fr_market :: market
  fr_active_provider :: provider
  fr_state :: string
  fr_connected_at :: instant
  fr_last_event_at :: "instant option"
  fr_gap_count :: int
  fr_failover_count :: int
  fr_last_error :: "string option"
  fr_failed_over_at :: "instant option"
  fr_fallback_available :: bool
  fr_status_detail :: "string option"

record feed_store =
  fs_rows :: "(market, feed_state_record) dict"
  fs_sequences :: "(market \<times> provider \<times> string, int \<times> int) dict"

definition feed_load :: "market \<Rightarrow> feed_store \<Rightarrow> feed_state_record option \<times> (provider \<times> string, int) dict" where
  "feed_load m st = (map_of (fs_rows st) m,
     map (\<lambda>((_, p, s), n, _). ((p, s), n)) (filter (\<lambda>((m', _, _), _, _). m' = m) (fs_sequences st)))"

definition feed_save :: "feed_state_record \<Rightarrow> feed_store \<Rightarrow> feed_store" where
  "feed_save r st = st\<lparr>fs_rows := AList.update (fr_market r) r (fs_rows st)\<rparr>"

definition feed_save_sequence :: "market \<Rightarrow> provider \<Rightarrow> string \<Rightarrow> int \<Rightarrow> int \<Rightarrow> feed_store \<Rightarrow> feed_store" where
  "feed_save_sequence m p s n gaps st =
     st\<lparr>fs_sequences := AList.update (m, p, s)
          (case map_of (fs_sequences st) (m, p, s) of
             None \<Rightarrow> (n, gaps) | Some (k, g) \<Rightarrow> (max k n, g + gaps)) (fs_sequences st)\<rparr>"

section \<open>The cycle\<close>

record 'w feed_config =
  fg_market :: market
  fg_route :: "provider list"
  fg_symbol_maps :: "(provider, (string, string) dict) dict"
  fg_max_events :: int
  fg_staleness :: pyfloat
  fg_recovery_successes :: int
  fg_recovery_cooldown :: int
  fg_parse_iso :: "string \<Rightarrow> datetime result"
  fg_clock :: "'w \<Rightarrow> instant \<times> 'w"
  fg_open :: "provider \<Rightarrow> ('w, unit) st"
  fg_next :: "provider \<Rightarrow> ('w, json) st"
  fg_close :: "provider \<Rightarrow> ('w, unit) st"
  fg_previous_loader :: "(canonical_candle \<Rightarrow> ('w, canonical_candle option) st) option"
  fg_on_features :: "(feature_record list \<Rightarrow> ('w, unit) st) option"

record 'w feed_cycle =
  fc_active_index :: nat
  fc_primary_successes :: int
  fc_failed_over_at :: "instant option"
  fc_snapshot :: stream_snapshot
  fc_sequences :: "(provider \<times> string, int) dict"
  fc_iterators :: "provider list"
  fc_builders :: "candle_builder list"
  fc_previous :: "(string \<times> string, canonical_candle) dict"
  fc_lake :: lake
  fc_store :: "feed_store option"
  fc_world :: 'w

definition feed_world :: "('w, 'a) st \<Rightarrow> ('w feed_cycle, 'a) st" where
  "feed_world = zoom fc_world (\<lambda>w s. s\<lparr>fc_world := w\<rparr>)"

definition feed_lake :: "(lake, 'a) st \<Rightarrow> ('w feed_cycle, 'a) st" where
  "feed_lake = zoom fc_lake (\<lambda>l s. s\<lparr>fc_lake := l\<rparr>)"

definition feed_clock :: "'w feed_config \<Rightarrow> ('w feed_cycle, instant) st" where
  "feed_clock cfg = feed_world (\<lambda>w. case fg_clock cfg w of (t, w') \<Rightarrow> (Inr t, w'))"

definition feed_record_of :: "stream_snapshot \<Rightarrow> feed_state_record" where
  "feed_record_of x = \<lparr>fr_market = sp_market x, fr_active_provider = sp_active_provider x,
     fr_state = feed_state_value (sp_state x), fr_connected_at = sp_connected_at x,
     fr_last_event_at = sp_last_event_at x, fr_gap_count = sp_gap_count x,
     fr_failover_count = sp_failover_count x, fr_last_error = sp_last_error x,
     fr_failed_over_at = sp_failed_over_at x, fr_fallback_available = sp_fallback_available x,
     fr_status_detail = sp_status_detail x\<rparr>"

definition save_snapshot :: "'w feed_cycle \<Rightarrow> 'w feed_cycle" where
  "save_snapshot s = s\<lparr>fc_store := map_option (feed_save (feed_record_of (fc_snapshot s))) (fc_store s)\<rparr>"

definition replace_snapshot :: "(stream_snapshot \<Rightarrow> stream_snapshot) \<Rightarrow> 'w feed_cycle \<Rightarrow> 'w feed_cycle" where
  "replace_snapshot f s = save_snapshot (s\<lparr>fc_snapshot := f (fc_snapshot s)\<rparr>)"

definition modify_st :: "('s \<Rightarrow> 's) \<Rightarrow> ('s, unit) st" where
  "modify_st f s = (Inr (), f s)"

text \<open>\<open>str(exc)\<close>\<close>

fun error_text :: "py_error \<Rightarrow> string" where
  "error_text (ValueError msg) = msg"
| "error_text (PermissionError msg) = msg"
| "error_text (LookupError msg) = msg"
| "error_text (KeyError k) = repr_str k"
| "error_text (RuntimeError msg) = msg"
| "error_text (TypeError msg) = msg"
| "error_text ZeroDivisionError = ''float division by zero''"
| "error_text (OverflowError msg) = msg"
| "error_text (OSError msg) = msg"
| "error_text (OtherError _ msg) = msg"
| "error_text AssertionError = []"

subsection \<open>Quotes\<close>

definition track_sequence :: "'w feed_config \<Rightarrow> quote_event \<Rightarrow> 'w feed_cycle \<Rightarrow> 'w feed_cycle" where
  "track_sequence cfg q s =
     (case qe_sequence q of
        None \<Rightarrow> s
      | Some n \<Rightarrow>
          (let key = (qe_provider q, qe_symbol q); previous = map_of (fc_sequences s) key;
               gap = (case previous of None \<Rightarrow> False | Some k \<Rightarrow> k + 1 < n);
               s1 = (if gap then s\<lparr>fc_snapshot := (fc_snapshot s)\<lparr>sp_gap_count := sp_gap_count (fc_snapshot s) + 1\<rparr>\<rparr>
                     else s);
               s2 = (if (case previous of None \<Rightarrow> True | Some k \<Rightarrow> k < n)
                     then s1\<lparr>fc_sequences := AList.update key n (fc_sequences s1),
                             fc_store := map_option (feed_save_sequence (fg_market cfg) (qe_provider q) (qe_symbol q) n
                               (if gap then 1 else 0)) (fc_store s1)\<rparr>
                     else s1)
           in save_snapshot s2))"

definition settled_features ::
  "'w feed_config \<Rightarrow> canonical_candle \<Rightarrow> canonical_candle \<Rightarrow> ('w feed_cycle, unit) st" where
  "settled_features cfg previous canonical =
     bind_st (feed_lake (build_gold [previous, canonical])) (\<lambda>features.
       case fg_on_features cfg of
         Some handler \<Rightarrow>
           if features = [] then return_st ()
           else (\<lambda>s. (Inr (), snd (feed_world (handler features) s)))
       | None \<Rightarrow> return_st ())"

definition load_previous ::
  "'w feed_config \<Rightarrow> canonical_candle \<Rightarrow> ('w feed_cycle, canonical_candle option) st" where
  "load_previous cfg canonical s =
     (case map_of (fc_previous s) (cc_symbol canonical, cc_timeframe canonical) of
        Some c \<Rightarrow> (Inr (Some c), s)
      | None \<Rightarrow> (case fg_previous_loader cfg of
            None \<Rightarrow> (Inr None, s) | Some loader \<Rightarrow> feed_world (loader canonical) s))"

definition persist_settled :: "'w feed_config \<Rightarrow> quote_event \<Rightarrow> settled_candle \<Rightarrow> ('w feed_cycle, unit) st" where
  "persist_settled cfg q candle =
     bind_st (feed_clock cfg) (\<lambda>now.
     bind_st (feed_lake (ingest (fg_parse_iso cfg) (qe_market q) (qe_provider q) CANDLE (qe_symbol q)
                (candle_payload (qe_provider q) candle) (Aware now))) (\<lambda>r.
       case ig_canonical r of
         None \<Rightarrow> return_st ()
       | Some canonical \<Rightarrow>
           if \<not> ig_silver_created r then return_st ()
           else bind_st (load_previous cfg canonical) (\<lambda>previous.
                bind_st (modify_st (\<lambda>s. s\<lparr>fc_previous :=
                    AList.update (cc_symbol canonical, cc_timeframe canonical) canonical (fc_previous s)\<rparr>)) (\<lambda>_.
                  case previous of None \<Rightarrow> return_st () | Some c \<Rightarrow> settled_features cfg c canonical))))"

definition add_to_builder :: "nat \<Rightarrow> quote_event \<Rightarrow> ('w feed_cycle, settled_candle option) st" where
  "add_to_builder i q s =
     (case builder_add q (fc_builders s ! i) of (r, b) \<Rightarrow> (r, s\<lparr>fc_builders := (fc_builders s)[i := b]\<rparr>))"

definition quote_payload :: "quote_event \<Rightarrow> json" where
  "quote_payload q = JObj
     [(''symbol'', JStr (qe_symbol q)), (''time'', JStr (isoformat (qe_event_time q))), (''price'', JFloat (qe_price q)),
      (''volume'', JFloat (qe_volume q)), (''sequence'', case qe_sequence q of None \<Rightarrow> JNull | Some n \<Rightarrow> JInt n)]"

definition persist_quote_and_settled :: "'w feed_config \<Rightarrow> quote_event \<Rightarrow> ('w feed_cycle, unit) st" where
  "persist_quote_and_settled cfg q s =
     bind_st (feed_clock cfg) (\<lambda>now.
     bind_st (feed_lake (ingest (fg_parse_iso cfg) (qe_market q) (qe_provider q) QUOTE (qe_symbol q)
                (quote_payload q) (Aware now))) (\<lambda>_.
     bind_st (for_st (\<lambda>i. bind_st (add_to_builder i q) (\<lambda>candle.
                case candle of None \<Rightarrow> return_st () | Some c \<Rightarrow> persist_settled cfg q c))
                [0 ..< length (fc_builders s)]) (\<lambda>_. return_st ()))) s"

subsection \<open>Streams\<close>

definition open_provider :: "'w feed_config \<Rightarrow> provider \<Rightarrow> ('w feed_cycle, unit) st" where
  "open_provider cfg p =
     bind_st (feed_world (fg_open cfg p)) (\<lambda>_.
     bind_st (modify_st (\<lambda>s. s\<lparr>fc_iterators := List.insert p (fc_iterators s)\<rparr>)) (\<lambda>_.
     bind_st (feed_clock cfg) (\<lambda>now. modify_st (replace_snapshot (\<lambda>x. x\<lparr>sp_connected_at := now\<rparr>)))))"

definition close_provider :: "'w feed_config \<Rightarrow> provider \<Rightarrow> ('w feed_cycle, unit) st" where
  "close_provider cfg p s =
     (if p \<in> set (fc_iterators s)
      then feed_world (fg_close cfg p) (s\<lparr>fc_iterators := removeAll p (fc_iterators s)\<rparr>)
      else (Inr (), s))"

definition aclose :: "'w feed_config \<Rightarrow> ('w feed_cycle, unit) st" where
  "aclose cfg s = bind_st (for_st (close_provider cfg) (fc_iterators s)) (\<lambda>_. return_st ()) s"

fun stream_ended :: "py_error \<Rightarrow> bool" where
  "stream_ended (OtherError c _) = (c = ''StopAsyncIteration'')"
| "stream_ended _ = False"

definition reconnect :: "'w feed_config \<Rightarrow> provider \<Rightarrow> nat \<Rightarrow> ('w feed_cycle, unit) st" where
  "reconnect cfg p clean_reconnects =
     bind_st (close_provider cfg p) (\<lambda>_.
       if 1 \<le> clean_reconnects
       then raise_st (OtherError ''ConnectionError'' (provider_value p @ '' realtime stream repeatedly ended''))
       else open_provider cfg p)"

text \<open>One frame: whether it was a quote.\<close>

definition take_frame :: "'w feed_config \<Rightarrow> provider \<Rightarrow> bool \<Rightarrow> bool \<Rightarrow> json \<Rightarrow> ('w feed_cycle, bool) st" where
  "take_frame cfg p persist observe payload =
     bind_st (feed_clock cfg) (\<lambda>now.
     bind_st (lift_st (normalize_quote (fg_parse_iso cfg) (fg_market cfg) p payload now
                (case map_of (fg_symbol_maps cfg) p of None \<Rightarrow> [] | Some d \<Rightarrow> d))) (\<lambda>quote.
       case quote of
         None \<Rightarrow> return_st False
       | Some q \<Rightarrow>
           bind_st (modify_st (if observe then track_sequence cfg q else id)) (\<lambda>_.
           bind_st (if persist then persist_quote_and_settled cfg q else return_st ()) (\<lambda>_.
           bind_st (modify_st (if observe
                then replace_snapshot (\<lambda>x. x\<lparr>sp_active_provider := p, sp_last_event_at := Some (qe_event_time q),
                                          sp_last_error := None\<rparr>)
                else id)) (\<lambda>_. return_st True)))))"

partial_function (option) consume_loop ::
  "'w feed_config \<Rightarrow> provider \<Rightarrow> int \<Rightarrow> bool \<Rightarrow> bool \<Rightarrow> nat \<Rightarrow> int \<Rightarrow> 'w feed_cycle \<Rightarrow> (int result \<times> 'w feed_cycle) option" where
  "consume_loop cfg p target persist observe clean_reconnects seen s =
     (if target \<le> seen then Some (Inr seen, s)
      else case feed_world (fg_next cfg p) s of
        (Inl e, s1) \<Rightarrow>
          if stream_ended e
          then (case reconnect cfg p clean_reconnects s1 of
                  (Inl e', s2) \<Rightarrow> Some (Inl e', s2)
                | (Inr _, s2) \<Rightarrow> consume_loop cfg p target persist observe (clean_reconnects + 1) seen s2)
          else Some (Inl e, s1)
      | (Inr payload, s1) \<Rightarrow>
          (case take_frame cfg p persist observe payload s1 of
             (Inl e, s2) \<Rightarrow> Some (Inl e, s2)
           | (Inr counted, s2) \<Rightarrow>
               consume_loop cfg p target persist observe clean_reconnects (if counted then seen + 1 else seen) s2))"

definition consume_end :: "'w feed_config \<Rightarrow> provider \<Rightarrow> instant \<Rightarrow> int result \<Rightarrow> ('w feed_cycle, int) st" where
  "consume_end cfg p started r =
     (case r of
        Inl e \<Rightarrow> bind_st (close_provider cfg p) (\<lambda>_. raise_st e)
      | Inr seen \<Rightarrow> bind_st (feed_clock cfg) (\<lambda>now.
          if seen = 0 \<or> fg_staleness cfg < total_seconds (now - started)
          then raise_st (OtherError ''TimeoutError'' (provider_value p @ '' realtime stream is stale''))
          else return_st seen))"

definition consume_start :: "'w feed_config \<Rightarrow> provider \<Rightarrow> ('w feed_cycle, instant) st" where
  "consume_start cfg p =
     bind_st (feed_clock cfg) (\<lambda>started s.
       bind_st (if p \<in> set (fc_iterators s) then return_st () else open_provider cfg p) (\<lambda>_. return_st started) s)"

definition consume ::
  "'w feed_config \<Rightarrow> provider \<Rightarrow> int option \<Rightarrow> bool \<Rightarrow> bool \<Rightarrow> 'w feed_cycle \<Rightarrow> (int result \<times> 'w feed_cycle) option" where
  "consume cfg p limit persist observe s =
     (case consume_start cfg p s of
        (Inl e, s1) \<Rightarrow> Some (Inl e, s1)
      | (Inr started, s1) \<Rightarrow>
          (case consume_loop cfg p (case limit of None \<Rightarrow> fg_max_events cfg | Some n \<Rightarrow> n) persist observe 0 0 s1 of
             None \<Rightarrow> None
           | Some (r, s2) \<Rightarrow> Some (consume_end cfg p started r s2)))"

subsection \<open>Failover and recovery\<close>

definition probe_primary :: "'w feed_config \<Rightarrow> 'w feed_cycle \<Rightarrow> (bool \<times> 'w feed_cycle) option" where
  "probe_primary cfg s =
     (case consume cfg (fg_route cfg ! 0) (Some 1) False False s of
        None \<Rightarrow> None
      | Some (r, s') \<Rightarrow> Some (r = Inr 1, s'))"

definition recovery_due :: "'w feed_config \<Rightarrow> ('w feed_cycle, bool) st" where
  "recovery_due cfg s =
     (case fc_failed_over_at s of
        None \<Rightarrow> (Inr False, s)
      | Some t \<Rightarrow> bind_st (feed_clock cfg) (\<lambda>now.
          bind_st (lift_st (dt_add t (fg_recovery_cooldown cfg))) (\<lambda>due. return_st (due \<le> now))) s)"

definition after_probe :: "'w feed_config \<Rightarrow> bool \<Rightarrow> ('w feed_cycle, unit) st" where
  "after_probe cfg ok s =
     (if \<not> ok then (Inr (), s\<lparr>fc_primary_successes := 0\<rparr>)
      else let s = s\<lparr>fc_primary_successes := fc_primary_successes s + 1\<rparr> in
        if fc_primary_successes s < fg_recovery_successes cfg then (Inr (), s)
        else bind_st (close_provider cfg (fg_route cfg ! fc_active_index s)) (\<lambda>_.
               modify_st (\<lambda>s. s\<lparr>fc_active_index := 0, fc_primary_successes := 0\<rparr>)) s)"

definition recover :: "'w feed_config \<Rightarrow> 'w feed_cycle \<Rightarrow> (unit result \<times> 'w feed_cycle) option" where
  "recover cfg s =
     (if fc_active_index s = 0 then Some (Inr (), s)
      else case recovery_due cfg s of
        (Inl e, s1) \<Rightarrow> Some (Inl e, s1)
      | (Inr False, s1) \<Rightarrow> Some (Inr (), s1)
      | (Inr True, s1) \<Rightarrow>
          (case probe_primary cfg s1 of
             None \<Rightarrow> None | Some (ok, s2) \<Rightarrow> Some (after_probe cfg ok s2)))"

definition delivered :: "nat \<Rightarrow> provider \<Rightarrow> 'w feed_cycle \<Rightarrow> 'w feed_cycle" where
  "delivered i p s = replace_snapshot (\<lambda>x. x\<lparr>sp_active_provider := p,
       sp_state := (if i = 0 then HEALTHY else FAILED_OVER)\<rparr>) (s\<lparr>fc_active_index := i\<rparr>)"

definition degraded :: "'w feed_config \<Rightarrow> py_error \<Rightarrow> 'w feed_cycle \<Rightarrow> 'w feed_cycle" where
  "degraded cfg e = replace_snapshot (\<lambda>x. x\<lparr>sp_state := DEGRADED, sp_last_error := Some (error_text e),
       sp_status_detail := (if length (fg_route cfg) = 1
         then Some ''NO_REALTIME_FALLBACK_CONFIGURED; operator action required'' else sp_status_detail x)\<rparr>)"

definition fail_over :: "'w feed_config \<Rightarrow> nat \<Rightarrow> provider \<Rightarrow> py_error \<Rightarrow> ('w feed_cycle, unit) st" where
  "fail_over cfg i fallback e s =
     bind_st (feed_clock cfg) (\<lambda>now. modify_st (\<lambda>s.
       replace_snapshot (\<lambda>x. x\<lparr>sp_active_provider := fallback, sp_state := FAILED_OVER,
           sp_failover_count := sp_failover_count x + 1, sp_last_error := Some (error_text e),
           sp_failed_over_at := Some now\<rparr>) (s\<lparr>fc_failed_over_at := Some now\<rparr>)))
       (s\<lparr>fc_active_index := i + 1\<rparr>)"

fun route_loop ::
  "'w feed_config \<Rightarrow> nat \<Rightarrow> provider list \<Rightarrow> 'w feed_cycle \<Rightarrow> (int result \<times> 'w feed_cycle) option" where
  "route_loop cfg i [] s = Some (Inr 0, s)"
| "route_loop cfg i (p # rest) s =
     (case consume cfg p None True True s of
        None \<Rightarrow> None
      | Some (Inr n, s1) \<Rightarrow> Some (Inr n, delivered i p s1)
      | Some (Inl e, s1) \<Rightarrow>
          (case rest of
             [] \<Rightarrow> Some (Inl e, degraded cfg e s1)
           | fallback # _ \<Rightarrow> route_loop cfg (i + 1) rest (snd (fail_over cfg i fallback e s1))))"

definition run_once :: "'w feed_config \<Rightarrow> 'w feed_cycle \<Rightarrow> (int result \<times> 'w feed_cycle) option" where
  "run_once cfg s =
     (case recover cfg s of
        None \<Rightarrow> None
      | Some (Inl e, s1) \<Rightarrow> Some (Inl e, s1)
      | Some (Inr _, s1) \<Rightarrow> route_loop cfg (fc_active_index s1) (drop (fc_active_index s1) (fg_route cfg)) s1)"

definition call_cycle :: "'w feed_config \<Rightarrow> market \<Rightarrow> 'w feed_cycle \<Rightarrow> (unit result \<times> 'w feed_cycle) option" where
  "call_cycle cfg m s =
     (if m \<noteq> fg_market cfg then Some (Inl (ValueError ''market worker called a mismatched realtime cycle''), s)
      else map_option (\<lambda>(r, s'). (bind_r r (\<lambda>_. Inr ()), s')) (run_once cfg s))"

subsection \<open>Construction\<close>

definition bar_builders :: "(string, int) dict \<Rightarrow> candle_builder list result" where
  "bar_builders bars =
     (let bars = (if bars = [] then [(''1m'', 60)] else bars) in
      if list_ex (\<lambda>(label, seconds). str_strip label = [] \<or> seconds \<le> 0) bars
        then Inl (ValueError ''realtime bar timeframes must be labelled and positive'')
      else if card (snd ` set bars) \<noteq> length bars
        then Inl (ValueError ''realtime bar durations must be unique'')
      else map_r (\<lambda>(label, seconds). candle_builder_init seconds (Some label))
             (py_sorted (\<lambda>a b. snd a < snd b) bars))"

fun index_of :: "'a list \<Rightarrow> 'a \<Rightarrow> nat" where
  "index_of [] x = 0"
| "index_of (y # ys) x = (if x = y then 0 else index_of ys x + 1)"

definition fallback_detail :: "provider list \<Rightarrow> string option" where
  "fallback_detail rt = (if 1 < length rt then None else Some ''NO_REALTIME_FALLBACK_CONFIGURED'')"

definition restored_snapshot :: "market \<Rightarrow> provider list \<Rightarrow> feed_state_record \<Rightarrow> stream_snapshot result" where
  "restored_snapshot m rt r = bind_r (feed_state_of (fr_state r)) (\<lambda>st. Inr
     \<lparr>sp_market = m, sp_active_provider = fr_active_provider r, sp_state = st,
      sp_connected_at = fr_connected_at r, sp_last_event_at = fr_last_event_at r, sp_gap_count = fr_gap_count r,
      sp_failover_count = fr_failover_count r, sp_last_error = fr_last_error r,
      sp_failed_over_at = fr_failed_over_at r, sp_fallback_available = 1 < length rt,
      sp_status_detail = fallback_detail rt\<rparr>)"

definition restore :: "market \<Rightarrow> provider list \<Rightarrow> 'w feed_cycle \<Rightarrow> 'w feed_cycle result" where
  "restore m rt s =
     (case fc_store s of
        None \<Rightarrow> Inr s
      | Some st \<Rightarrow>
          (case feed_load m st of (persisted, sequences) \<Rightarrow>
             bind_r (case persisted of
                 None \<Rightarrow> Inr s
               | Some r \<Rightarrow>
                   if fr_active_provider r \<notin> set rt then Inr s
                   else bind_r (restored_snapshot m rt r) (\<lambda>x. Inr (s\<lparr>fc_snapshot := x,
                          fc_active_index := index_of rt (fr_active_provider r),
                          fc_failed_over_at := fr_failed_over_at r\<rparr>))) (\<lambda>s.
             Inr (save_snapshot (s\<lparr>fc_sequences := sequences\<rparr>)))))"

definition cycle_init ::
  "provider_registry \<Rightarrow> provider list \<Rightarrow> (string, int) dict \<Rightarrow> 'w feed_config \<Rightarrow> lake \<Rightarrow> feed_store option \<Rightarrow> 'w
     \<Rightarrow> ('w feed_config \<times> 'w feed_cycle) result" where
  "cycle_init reg clients bars cfg lake store w =
     bind_r (route reg (fg_market cfg) REALTIME_QUOTES) (\<lambda>rt.
       if \<not> set rt \<subseteq> set clients then Inl (ValueError ''every routed realtime provider requires a client'')
       else if fg_max_events cfg \<le> 0 \<or> fg_staleness cfg \<le> 0 \<or> fg_recovery_successes cfg \<le> 0
         then Inl (ValueError ''realtime limits must be positive'')
       else bind_r (bar_builders bars) (\<lambda>builders.
         case fg_clock cfg w of (now, w') \<Rightarrow>
           bind_r (restore (fg_market cfg) rt
             \<lparr>fc_active_index = 0, fc_primary_successes = 0, fc_failed_over_at = None,
              fc_snapshot = \<lparr>sp_market = fg_market cfg, sp_active_provider = rt ! 0, sp_state = HEALTHY,
                 sp_connected_at = now, sp_last_event_at = None, sp_gap_count = 0, sp_failover_count = 0,
                 sp_last_error = None, sp_failed_over_at = None, sp_fallback_available = 1 < length rt,
                 sp_status_detail = fallback_detail rt\<rparr>,
              fc_sequences = [], fc_iterators = [], fc_builders = builders, fc_previous = [], fc_lake = lake,
              fc_store = store, fc_world = w'\<rparr>) (\<lambda>s. Inr (cfg\<lparr>fg_route := rt\<rparr>, s))))"

section \<open>What consuming a stream keeps\<close>

text \<open>
  The primitive changes a call of \<open>_consume\<close> makes; the last only if it observes.  A predicate
  closed under them survives the call, whatever the provider delivers.
\<close>

locale feed_invariant =
  fixes cfg :: "'w feed_config" and p :: provider and observe :: bool and P :: "'w feed_cycle \<Rightarrow> bool"
  assumes world: "P s \<Longrightarrow> P (s\<lparr>fc_world := w\<rparr>)"
    and lake: "P s \<Longrightarrow> P (s\<lparr>fc_lake := l\<rparr>)"
    and builders: "P s \<Longrightarrow> P (s\<lparr>fc_builders := bs\<rparr>)"
    and previous: "P s \<Longrightarrow> P (s\<lparr>fc_previous := d\<rparr>)"
    and iterators: "P s \<Longrightarrow> P (s\<lparr>fc_iterators := ps\<rparr>)"
    and connected: "P s \<Longrightarrow> P (replace_snapshot (\<lambda>x. x\<lparr>sp_connected_at := t\<rparr>) s)"
    and sequence: "observe \<Longrightarrow> P s \<Longrightarrow> P (track_sequence cfg q s)"
    and observed: "observe \<Longrightarrow> P s \<Longrightarrow>
      P (replace_snapshot (\<lambda>x. x\<lparr>sp_active_provider := p, sp_last_event_at := u, sp_last_error := None\<rparr>) s)"
begin

lemma keeps_world [keeps_intros]: "keeps P (feed_world m)"
  unfolding feed_world_def by (rule keeps_zoom) (rule world)

lemma keeps_lake [keeps_intros]: "keeps P (feed_lake m)"
  unfolding feed_lake_def by (rule keeps_zoom) (rule lake)

lemma keeps_clock [keeps_intros]: "keeps P (feed_clock cfg)"
  unfolding feed_clock_def by (rule keeps_world)

lemma keeps_modify [keeps_intros]: "(\<And>s. P s \<Longrightarrow> P (f s)) \<Longrightarrow> keeps P (modify_st f)"
  by (simp add: keeps_def modify_st_def)

lemma keeps_settled_features: "keeps P (settled_features cfg c d)"
proof -
  have "keeps P (\<lambda>s. (Inr (), snd (feed_world m s)))" for m :: "('w, unit) st"
    using keeps_world [of m] by (simp add: keeps_def)
  then show ?thesis unfolding settled_features_def
    by (cases "fg_on_features cfg") (auto intro!: keeps_bind keeps_lake keeps_return keeps_if)
qed

lemma keeps_load_previous: "keeps P (load_previous cfg c)"
  using keeps_world unfolding keeps_def load_previous_def by (auto split: option.splits)

lemma keeps_persist_settled: "keeps P (persist_settled cfg q c)"
  unfolding persist_settled_def
  by (auto intro!: keeps_bind keeps_clock keeps_lake keeps_return keeps_if keeps_load_previous keeps_modify
      keeps_settled_features previous split: option.split)

lemma keeps_add_to_builder: "keeps P (add_to_builder i q)"
  by (auto simp: keeps_def add_to_builder_def builders split: prod.split)

lemma keeps_persist_quote: "keeps P (persist_quote_and_settled cfg q)"
proof -
  have "keeps P (\<lambda>s. bind_st (feed_clock cfg) (\<lambda>now.
     bind_st (feed_lake (ingest (fg_parse_iso cfg) (qe_market q) (qe_provider q) QUOTE (qe_symbol q)
                (quote_payload q) (Aware now))) (\<lambda>_.
     bind_st (for_st (\<lambda>i. bind_st (add_to_builder i q) (\<lambda>candle.
                case candle of None \<Rightarrow> return_st () | Some c \<Rightarrow> persist_settled cfg q c))
                [0 ..< n]) (\<lambda>_. return_st ()))) s)" for n
    by (auto intro!: keeps_bind keeps_clock keeps_lake keeps_return keeps_for keeps_add_to_builder
        keeps_persist_settled split: option.split)
  then show ?thesis by (simp add: keeps_def persist_quote_and_settled_def)
qed

lemma keeps_open: "keeps P (open_provider cfg r)"
  unfolding open_provider_def by (intro keeps_bind keeps_world keeps_clock keeps_modify iterators connected)

lemma keeps_close: "keeps P (close_provider cfg r)"
  using keeps_world [of "fg_close cfg r"] by (simp add: keeps_def close_provider_def iterators)

lemma keeps_reconnect: "keeps P (reconnect cfg r n)"
  unfolding reconnect_def by (intro keeps_bind keeps_close keeps_if keeps_raise keeps_open)

lemma keeps_take_frame: "keeps P (take_frame cfg p persist observe v)"
  unfolding take_frame_def
  by (auto intro!: keeps_bind keeps_clock keeps_lift keeps_return keeps_modify keeps_if keeps_persist_quote
      sequence observed split: option.split)

lemma consume_loop_keeps:
  assumes "consume_loop cfg p target persist observe clean n s = Some y" and "P s"
  shows "P (snd y)"
proof -
  define Q where "Q cfg' p' target persist obs clean n s y \<longleftrightarrow> (cfg' = cfg \<longrightarrow> p' = p \<longrightarrow> obs = observe \<longrightarrow> P s \<longrightarrow> P (snd y))"
    for cfg' :: "'w feed_config" and p' :: provider and target :: int and persist obs :: bool and clean :: nat and n :: int and s :: "'w feed_cycle"
      and y :: "int result \<times> 'w feed_cycle"
  have "Q cfg p target persist observe clean n s y"
  proof (rule consume_loop.raw_induct [where P = Q, OF _ assms(1)], goal_cases)
    case (1 loop cfg' p' t per obs cl m s y)
    show ?case unfolding Q_def
    proof (intro impI)
      assume e: "cfg' = cfg" "p' = p" "obs = observe" and "P s"
      obtain r1 s1 where frame: "feed_world (fg_next cfg p) s = (r1, s1)" by fastforce
      have s1: "P s1" using keepsD [OF keeps_world \<open>P s\<close> frame] .
      have rec: "P (snd y)" if "loop cfg p t per observe cl' m' s2 = Some y" "P s2" for cl' m' s2
        using 1(1) [OF that(1)] that(2) by (simp add: Q_def)
      have r: "P s2" if "reconnect cfg p cl s1 = (r2, s2)" for r2 s2 using keepsD [OF keeps_reconnect s1 that] .
      have f: "P s2" if "take_frame cfg p per observe v s1 = (r2, s2)" for v r2 s2 using keepsD [OF keeps_take_frame s1 that] .
      show "P (snd y)"
        using 1(2) \<open>P s\<close> s1 unfolding e frame
        by (auto split: if_splits sum.splits prod.splits dest: rec r f)
    qed
  qed
  then show ?thesis using assms(2) by (simp add: Q_def)
qed

lemma keeps_consume_start: "keeps P (consume_start cfg r)"
  unfolding consume_start_def
proof (rule keeps_bind [OF keeps_clock])
  fix t
  show "keeps P (\<lambda>s. bind_st (if r \<in> set (fc_iterators s) then return_st () else open_provider cfg r) (\<lambda>_. return_st t) s)"
    using keeps_open [of r] by (auto simp: keeps_def bind_st_def return_st_def split: prod.splits sum.splits)
qed

lemma keeps_consume_end: "keeps P (consume_end cfg r t x)"
  unfolding consume_end_def by (cases x) (auto intro!: keeps_bind keeps_close keeps_clock keeps_raise keeps_if keeps_return)

lemma consume_keeps:
  assumes "consume cfg p limit persist observe s = Some (r, s')" and "P s"
  shows "P s'"
proof (cases "consume_start cfg p s")
  case (Pair x s1)
  note s1 = keepsD [OF keeps_consume_start assms(2) Pair]
  show ?thesis
  proof (cases x)
    case (Inl e)
    then show ?thesis using assms(1) Pair s1 by (simp add: consume_def)
  next
    case (Inr t)
    then obtain y where loop: "consume_loop cfg p (case limit of None \<Rightarrow> fg_max_events cfg | Some n \<Rightarrow> n) persist observe 0 0 s1 = Some y"
      and "consume_end cfg p t (fst y) (snd y) = (r, s')"
      using assms(1) Pair by (auto simp: consume_def split: option.splits)
    then show ?thesis using keepsD [OF keeps_consume_end consume_loop_keeps [OF loop s1]] by blast
  qed
qed

end

section \<open>The feed's invariant\<close>

text \<open>The stored row is the current snapshot, and the stored sequence numbers the current ones.\<close>

definition synced :: "'w feed_config \<Rightarrow> 'w feed_cycle \<Rightarrow> bool" where
  "synced cfg s \<longleftrightarrow>
     (case fc_store s of
        None \<Rightarrow> True
      | Some st \<Rightarrow> map_of (fs_rows st) (fg_market cfg) = Some (feed_record_of (fc_snapshot s))
          \<and> (\<forall>p sy. map_option fst (map_of (fs_sequences st) (fg_market cfg, p, sy)) = map_of (fc_sequences s) (p, sy)))"

text \<open>What a call of \<open>_consume\<close> leaves as it was, given the possible active providers.\<close>

definition steady :: "'w feed_config \<Rightarrow> provider set \<Rightarrow> 'w feed_cycle \<Rightarrow> 'w feed_cycle \<Rightarrow> bool" where
  "steady cfg A s0 s \<longleftrightarrow>
     fc_active_index s = fc_active_index s0 \<and> fc_failed_over_at s = fc_failed_over_at s0
     \<and> sp_state (fc_snapshot s) = sp_state (fc_snapshot s0)
     \<and> sp_failed_over_at (fc_snapshot s) = sp_failed_over_at (fc_snapshot s0)
     \<and> sp_fallback_available (fc_snapshot s) = sp_fallback_available (fc_snapshot s0)
     \<and> sp_status_detail (fc_snapshot s) = sp_status_detail (fc_snapshot s0)
     \<and> sp_market (fc_snapshot s) = fg_market cfg \<and> sp_active_provider (fc_snapshot s) \<in> A
     \<and> (case fc_store s0 of None \<Rightarrow> fc_store s = None | Some _ \<Rightarrow> fc_store s \<noteq> None) \<and> synced cfg s"

lemma save_snapshot_simps [simp]:
  "fc_active_index (save_snapshot s) = fc_active_index s" "fc_failed_over_at (save_snapshot s) = fc_failed_over_at s"
  "fc_snapshot (save_snapshot s) = fc_snapshot s" "fc_sequences (save_snapshot s) = fc_sequences s"
  "fc_store (save_snapshot s) = map_option (feed_save (feed_record_of (fc_snapshot s))) (fc_store s)"
  by (simp_all add: save_snapshot_def)

lemma replace_snapshot_simps [simp]:
  "fc_active_index (replace_snapshot f s) = fc_active_index s"
  "fc_failed_over_at (replace_snapshot f s) = fc_failed_over_at s"
  "fc_snapshot (replace_snapshot f s) = f (fc_snapshot s)" "fc_sequences (replace_snapshot f s) = fc_sequences s"
  "fc_store (replace_snapshot f s) = map_option (feed_save (feed_record_of (f (fc_snapshot s)))) (fc_store s)"
  by (simp_all add: replace_snapshot_def)

lemma feed_save_simps [simp]:
  "fs_sequences (feed_save r st) = fs_sequences st"
  "map_of (fs_rows (feed_save r st)) = (map_of (fs_rows st))(fr_market r \<mapsto> r)"
  by (simp_all add: feed_save_def)

lemma fr_market_feed_record [simp]: "fr_market (feed_record_of x) = sp_market x"
  by (simp add: feed_record_of_def)

lemma synced_update [simp]:
  "synced cfg (s\<lparr>fc_active_index := i\<rparr>) = synced cfg s" "synced cfg (s\<lparr>fc_failed_over_at := t\<rparr>) = synced cfg s"
  "synced cfg (s\<lparr>fc_primary_successes := n\<rparr>) = synced cfg s" "synced cfg (s\<lparr>fc_world := w\<rparr>) = synced cfg s"
  "synced cfg (s\<lparr>fc_iterators := ps\<rparr>) = synced cfg s" "synced cfg (s\<lparr>fc_lake := l\<rparr>) = synced cfg s"
  "synced cfg (s\<lparr>fc_builders := bs\<rparr>) = synced cfg s" "synced cfg (s\<lparr>fc_previous := d\<rparr>) = synced cfg s"
  by (simp_all add: synced_def cong: option.case_cong)

text \<open>Saving the snapshot makes the row current; the sequence numbers have to agree already.\<close>

lemma synced_save:
  assumes "sp_market (fc_snapshot s) = fg_market cfg"
    and "case fc_store s of None \<Rightarrow> True
      | Some st \<Rightarrow> \<forall>p sy. map_option fst (map_of (fs_sequences st) (fg_market cfg, p, sy)) = map_of (fc_sequences s) (p, sy)"
  shows "synced cfg (save_snapshot s)"
  using assms by (auto simp: synced_def split: option.splits)

lemma synced_replace:
  assumes "synced cfg s" and "sp_market (f (fc_snapshot s)) = fg_market cfg"
  shows "synced cfg (replace_snapshot f s)"
  using assms unfolding replace_snapshot_def
  by (intro synced_save) (auto simp: synced_def split: option.splits)

lemma synced_track:
  assumes "synced cfg s" and "sp_market (fc_snapshot s) = fg_market cfg"
  shows "synced cfg (track_sequence cfg q s)"
proof (cases "qe_sequence q")
  case None
  then show ?thesis using assms(1) by (simp add: track_sequence_def)
next
  case (Some n)
  have "map_of (fc_sequences s) (qe_provider q, qe_symbol q) = Some a"
    if "fc_store s = Some st" "map_of (fs_sequences st) (fg_market cfg, qe_provider q, qe_symbol q) = Some (a, b)" for st a b
  proof -
    have "map_option fst (map_of (fs_sequences st) (fg_market cfg, qe_provider q, qe_symbol q))
        = map_of (fc_sequences s) (qe_provider q, qe_symbol q)"
      using assms(1) that(1) by (simp add: synced_def)
    then show ?thesis using that(2) by simp
  qed
  then show ?thesis using assms Some unfolding track_sequence_def option.case Let_def
    by (auto intro!: synced_save simp: synced_def feed_save_sequence_def max_def split: option.splits if_splits)
qed

lemma track_sequence_simps [simp]:
  "fc_active_index (track_sequence cfg q s) = fc_active_index s"
  "fc_failed_over_at (track_sequence cfg q s) = fc_failed_over_at s"
  "sp_state (fc_snapshot (track_sequence cfg q s)) = sp_state (fc_snapshot s)"
  "sp_failed_over_at (fc_snapshot (track_sequence cfg q s)) = sp_failed_over_at (fc_snapshot s)"
  "sp_fallback_available (fc_snapshot (track_sequence cfg q s)) = sp_fallback_available (fc_snapshot s)"
  "sp_status_detail (fc_snapshot (track_sequence cfg q s)) = sp_status_detail (fc_snapshot s)"
  "sp_market (fc_snapshot (track_sequence cfg q s)) = sp_market (fc_snapshot s)"
  "sp_active_provider (fc_snapshot (track_sequence cfg q s)) = sp_active_provider (fc_snapshot s)"
  "fc_store (track_sequence cfg q s) = None \<longleftrightarrow> fc_store s = None"
  by (auto simp: track_sequence_def Let_def split: option.splits)

interpretation observing: feed_invariant cfg p True "steady cfg {a, p} s0" for cfg p a s0
proof
  show "steady cfg {a, p} s0 (track_sequence cfg q s)" if "steady cfg {a, p} s0 s" for q s
    using that by (auto simp: steady_def synced_track split: option.splits)
qed (auto simp: steady_def synced_replace split: option.splits)

interpretation probing: feed_invariant cfg p False "steady cfg {a} s0" for cfg p a s0
  by unfold_locales (auto simp: steady_def synced_replace split: option.splits)

definition feed_ok :: "'w feed_config \<Rightarrow> 'w feed_cycle \<Rightarrow> bool" where
  "feed_ok cfg s \<longleftrightarrow>
     fc_active_index s < length (fg_route cfg)
     \<and> sp_active_provider (fc_snapshot s) = fg_route cfg ! fc_active_index s
     \<and> (sp_state (fc_snapshot s) = HEALTHY \<longrightarrow> fc_active_index s = 0)
     \<and> (sp_state (fc_snapshot s) = FAILED_OVER \<longrightarrow> fc_active_index s \<noteq> 0)
     \<and> fc_failed_over_at s = sp_failed_over_at (fc_snapshot s) \<and> sp_market (fc_snapshot s) = fg_market cfg
     \<and> sp_fallback_available (fc_snapshot s) = (1 < length (fg_route cfg))
     \<and> (1 < length (fg_route cfg) \<longrightarrow> sp_status_detail (fc_snapshot s) = None) \<and> synced cfg s"

text \<open>Before the route is tried from the active index on, the provider and the state may be behind.\<close>

definition feed_pre :: "'w feed_config \<Rightarrow> 'w feed_cycle \<Rightarrow> bool" where
  "feed_pre cfg s \<longleftrightarrow>
     fc_active_index s < length (fg_route cfg)
     \<and> (sp_active_provider (fc_snapshot s) \<noteq> fg_route cfg ! fc_active_index s \<longrightarrow> fc_active_index s + 1 < length (fg_route cfg))
     \<and> fc_failed_over_at s = sp_failed_over_at (fc_snapshot s) \<and> sp_market (fc_snapshot s) = fg_market cfg
     \<and> sp_fallback_available (fc_snapshot s) = (1 < length (fg_route cfg))
     \<and> (1 < length (fg_route cfg) \<longrightarrow> sp_status_detail (fc_snapshot s) = None) \<and> synced cfg s"

lemma steady_self: "synced cfg s \<Longrightarrow> sp_market (fc_snapshot s) = fg_market cfg \<Longrightarrow> sp_active_provider (fc_snapshot s) \<in> A \<Longrightarrow> steady cfg A s s"
  by (simp add: steady_def split: option.split)

lemma consume_observing:
  assumes "consume cfg p None True True s = Some (r, s')" and "feed_pre cfg s"
  shows "steady cfg {sp_active_provider (fc_snapshot s), p} s s'"
  using observing.consume_keeps [OF assms(1) steady_self] assms(2) by (auto simp: feed_pre_def)

lemma consume_probing:
  assumes "consume cfg p limit False False s = Some (r, s')" and "feed_ok cfg s"
  shows "feed_ok cfg s'"
  using probing.consume_keeps [OF assms(1) steady_self, of "sp_active_provider (fc_snapshot s)"] assms(2)
  by (auto simp: feed_ok_def steady_def)

text \<open>The three ends of an attempt on one provider.\<close>

lemma delivered_ok:
  assumes "steady cfg A s s1" and "feed_pre cfg s" and "p = fg_route cfg ! fc_active_index s"
  shows "feed_ok cfg (delivered (fc_active_index s) p s1)"
    and "sp_state (fc_snapshot (delivered (fc_active_index s) p s1))
      = (if fc_active_index (delivered (fc_active_index s) p s1) = 0 then HEALTHY else FAILED_OVER)"
proof -
  have "synced cfg (delivered (fc_active_index s) p s1)" unfolding delivered_def
    using assms(1) by (intro synced_replace) (auto simp: steady_def)
  then show "feed_ok cfg (delivered (fc_active_index s) p s1)"
    using assms by (auto simp: feed_ok_def feed_pre_def steady_def delivered_def)
qed (simp add: delivered_def)

lemma degraded_ok:
  assumes "steady cfg {a, p} s s1" and "feed_pre cfg s" and "a = sp_active_provider (fc_snapshot s)"
    and "p = fg_route cfg ! fc_active_index s" and "\<not> fc_active_index s + 1 < length (fg_route cfg)"
  shows "feed_ok cfg (degraded cfg e s1)" and "sp_state (fc_snapshot (degraded cfg e s1)) = DEGRADED"
proof -
  have "synced cfg (degraded cfg e s1)" unfolding degraded_def
    using assms(1) by (intro synced_replace) (auto simp: steady_def)
  then show "feed_ok cfg (degraded cfg e s1)"
    using assms by (auto simp: feed_ok_def feed_pre_def steady_def degraded_def)
qed (simp add: degraded_def)

lemma fail_over_pre:
  assumes "steady cfg A s s1" and "feed_pre cfg s" and "i = fc_active_index s" and "i + 1 < length (fg_route cfg)"
  shows "feed_pre cfg (snd (fail_over cfg i (fg_route cfg ! (i + 1)) e s1))"
    and "fc_active_index (snd (fail_over cfg i q e s1)) = i + 1"
proof -
  obtain now w where clock: "fg_clock cfg (fc_world s1) = (now, w)" by fastforce
  let ?f = "\<lambda>q x. x\<lparr>sp_active_provider := q, sp_state := FAILED_OVER, sp_failover_count := sp_failover_count x + 1,
      sp_last_error := Some (error_text e), sp_failed_over_at := Some now\<rparr>"
  have s2: "snd (fail_over cfg i q e s1)
      = replace_snapshot (?f q) (s1\<lparr>fc_active_index := i + 1, fc_world := w, fc_failed_over_at := Some now\<rparr>)" for q
    by (simp add: fail_over_def bind_st_def feed_clock_def feed_world_def zoom_def modify_st_def clock)
  have "synced cfg (snd (fail_over cfg i q e s1))" for q unfolding s2
    using assms(1) by (intro synced_replace) (auto simp: steady_def)
  then show "feed_pre cfg (snd (fail_over cfg i (fg_route cfg ! (i + 1)) e s1))"
    using assms unfolding s2 by (auto simp: feed_pre_def steady_def)
  show "fc_active_index (snd (fail_over cfg i q e s1)) = i + 1" by (simp add: s2)
qed

lemma route_loop_ok:
  assumes "route_loop cfg i rest s = Some (r, s')" and "feed_pre cfg s" and "fc_active_index s = i"
    and "rest = drop i (fg_route cfg)"
  shows "feed_ok cfg s' \<and> sp_state (fc_snapshot s') =
     (if isl r then DEGRADED else if fc_active_index s' = 0 then HEALTHY else FAILED_OVER)"
  using assms
proof (induction cfg i rest s rule: route_loop.induct)
  case (1 cfg i s)
  then show ?case by (simp add: feed_pre_def)
next
  case (2 cfg i p rest s)
  note IH = 2(1) and run = 2(2) and pre = 2(3) and i = 2(4)
  from 2(5) have p: "p = fg_route cfg ! fc_active_index s" and rest: "rest = drop (i + 1) (fg_route cfg)"
    unfolding i by (metis nth_via_drop, metis Suc_eq_plus1 drop_Suc list.sel(3) tl_drop)
  obtain x s1 where c: "consume cfg p None True True s = Some (x, s1)" using run by (auto split: option.splits)
  note s1 = consume_observing [OF c pre]
  show ?case
  proof (cases x)
    case (Inr n)
    then show ?thesis using run c delivered_ok [OF s1 pre p] i by auto
  next
    case (Inl e)
    show ?thesis
    proof (cases rest)
      case Nil
      then have "\<not> fc_active_index s + 1 < length (fg_route cfg)" using rest i by auto
      then show ?thesis using run c Inl Nil degraded_ok [OF s1 pre refl p] by auto
    next
      case (Cons q qs)
      have l: "i + 1 < length (fg_route cfg)" and q: "q = fg_route cfg ! (i + 1)"
        using Cons rest by (metis drop_eq_Nil2 list.distinct(1) not_le, metis nth_via_drop)
      note s2 = fail_over_pre [OF s1 pre i [symmetric] l]
      have "route_loop cfg (i + 1) rest (snd (fail_over cfg i q e s1)) = Some (r, s')" using run c Inl Cons by simp
      from IH [OF c _ Inl Cons this] show ?thesis using s2 q rest by simp
    qed
  qed
qed

lemma feed_ok_pre: "feed_ok cfg s \<Longrightarrow> feed_pre cfg s"
  by (simp add: feed_ok_def feed_pre_def)

lemma feed_ok_update [simp]:
  "feed_ok cfg (s\<lparr>fc_world := w\<rparr>) = feed_ok cfg s" "feed_ok cfg (s\<lparr>fc_iterators := ps\<rparr>) = feed_ok cfg s"
  "feed_ok cfg (s\<lparr>fc_primary_successes := n\<rparr>) = feed_ok cfg s"
  by (simp_all add: feed_ok_def)

lemma recovery_due_ok: "recovery_due cfg s = (r, s') \<Longrightarrow> feed_ok cfg s \<Longrightarrow> feed_ok cfg s' \<and> fc_active_index s' = fc_active_index s"
  by (auto simp: recovery_due_def bind_st_def lift_st_def return_st_def feed_clock_def feed_world_def zoom_def
      split: option.splits prod.splits sum.splits)

text \<open>Recovery returns to the primary provider or leaves the feed as it was.\<close>

lemma after_probe_ok:
  assumes "after_probe cfg b s = (r, s')" and "feed_ok cfg s" and "fc_active_index s \<noteq> 0"
  shows "(isl r \<longrightarrow> feed_ok cfg s') \<and> feed_pre cfg s'"
proof -
  have close: "feed_ok cfg t' \<and> fc_active_index t' = fc_active_index t"
    if "close_provider cfg p t = (x, t')" "feed_ok cfg t" for p x t t'
    using that by (auto simp: close_provider_def feed_world_def zoom_def split: if_splits prod.splits)
  have zero: "feed_pre cfg (t\<lparr>fc_active_index := 0, fc_primary_successes := 0\<rparr>)" if "feed_ok cfg t" "fc_active_index t \<noteq> 0" for t
    using that by (auto simp: feed_ok_def feed_pre_def)
  show ?thesis using assms
    by (auto simp: after_probe_def Let_def bind_st_def modify_st_def feed_ok_pre zero split: if_splits prod.splits sum.splits
        dest!: close)
qed

lemma recover_ok:
  assumes "recover cfg s = Some (r, s')" and "feed_ok cfg s"
  shows "(isl r \<longrightarrow> feed_ok cfg s') \<and> feed_pre cfg s'"
proof (cases "fc_active_index s = 0")
  case True
  then show ?thesis using assms by (simp add: recover_def feed_ok_pre)
next
  case False
  obtain d s1 where due: "recovery_due cfg s = (d, s1)" by fastforce
  note s1 = recovery_due_ok [OF due assms(2)]
  show ?thesis
  proof (cases "d = Inr True")
    case True
    then obtain x s2 where c: "consume cfg (fg_route cfg ! 0) (Some 1) False False s1 = Some (x, s2)"
      and a: "after_probe cfg (x = Inr 1) s2 = (r, s')"
      using assms(1) False due by (auto simp: recover_def probe_primary_def split: option.splits)
    have "feed_ok cfg s2" "fc_active_index s2 \<noteq> 0"
      using consume_probing [OF c] probing.consume_keeps [OF c steady_self, of "sp_active_provider (fc_snapshot s1)"] s1 False
      by (auto simp: feed_ok_def steady_def)
    then show ?thesis using after_probe_ok [OF a] by simp
  next
    case False
    then show ?thesis using assms(1) due s1 \<open>fc_active_index s \<noteq> 0\<close>
      by (auto simp: recover_def feed_ok_pre split: sum.splits bool.splits)
  qed
qed

lemma run_once_ok:
  assumes "run_once cfg s = Some (r, s')" and "feed_ok cfg s"
  shows "feed_ok cfg s' \<and> (\<not> isl r \<longrightarrow> sp_state (fc_snapshot s') = (if fc_active_index s' = 0 then HEALTHY else FAILED_OVER))"
proof -
  obtain x s1 where rec: "recover cfg s = Some (x, s1)" using assms(1) by (auto simp: run_once_def split: option.splits)
  note s1 = recover_ok [OF rec assms(2)]
  show ?thesis
  proof (cases x)
    case (Inl e)
    then show ?thesis using assms(1) rec s1 by (auto simp: run_once_def)
  next
    case (Inr u)
    then have "route_loop cfg (fc_active_index s1) (drop (fc_active_index s1) (fg_route cfg)) s1 = Some (r, s')"
      using assms(1) rec by (simp add: run_once_def)
    from route_loop_ok [OF this] s1 show ?thesis by simp
  qed
qed

subsection \<open>Starting and restarting\<close>

lemma index_of_nth: "distinct xs \<Longrightarrow> i < length xs \<Longrightarrow> index_of xs (xs ! i) = i"
  by (induction xs arbitrary: i) (auto simp: nth_Cons split: nat.splits)

lemma feed_state_of_value [simp]: "feed_state_of (feed_state_value st) = Inr st"
  by (cases st) (simp_all add: feed_state_of_def)

lemma loaded_sequences:
  "map_of (snd (feed_load m st)) (p, sy) = map_option fst (map_of (fs_sequences st) (m, p, sy))"
proof -
  have "map_of (map (\<lambda>((_, p, s), n, _). ((p, s), n)) (filter (\<lambda>((m', _, _), _, _). m' = m) d)) (p, sy)
      = map_option fst (map_of d (m, p, sy))" for d :: "(market \<times> provider \<times> string, int \<times> int) dict"
    by (induction d) auto
  then show ?thesis by (simp add: feed_load_def)
qed

lemma restored_record:
  "restored_snapshot m rt (feed_record_of x)
     = Inr (x\<lparr>sp_market := m, sp_fallback_available := 1 < length rt, sp_status_detail := fallback_detail rt\<rparr>)"
  by (simp add: restored_snapshot_def feed_record_of_def)

lemma synced_restored:
  assumes "fc_store s = Some st" and "sp_market (fc_snapshot s) = fg_market cfg"
  shows "synced cfg (save_snapshot (s\<lparr>fc_sequences := snd (feed_load (fg_market cfg) st)\<rparr>))"
  using assms by (intro synced_save) (simp_all add: loaded_sequences)

lemma synced_route [simp]: "synced (cfg\<lparr>fg_route := rt\<rparr>) s = synced cfg s"
  by (simp add: synced_def cong: option.case_cong)

text \<open>A new cycle, over a store that has no row of the market, or has the row of a cycle before it.\<close>

lemma cycle_init_Inr:
  assumes "cycle_init reg clients bars cfg lake store w = Inr (cfg', s)" and "route reg (fg_market cfg) REALTIME_QUOTES = Inr rt"
    and "rt \<noteq> []"
  obtains s0 where "cfg' = cfg\<lparr>fg_route := rt\<rparr>" and "restore (fg_market cfg) rt s0 = Inr s" and "fc_store s0 = store"
    and "store = None \<Longrightarrow> feed_ok cfg' s0" and "feed_ok cfg' (s0\<lparr>fc_store := None\<rparr>)"
  using assms by (auto simp: cycle_init_def feed_ok_def fallback_detail_def synced_def split: if_splits prod.splits)

lemma cycle_init_new:
  assumes "cycle_init reg clients bars cfg lake store w = Inr (cfg', s)" and "route reg (fg_market cfg) REALTIME_QUOTES = Inr rt"
    and "rt \<noteq> []" and "\<And>st. store = Some st \<Longrightarrow> map_of (fs_rows st) (fg_market cfg) = None"
  shows "cfg' = cfg\<lparr>fg_route := rt\<rparr> \<and> feed_ok cfg' s"
proof -
  obtain s0 where s0: "cfg' = cfg\<lparr>fg_route := rt\<rparr>" "restore (fg_market cfg) rt s0 = Inr s" "fc_store s0 = store"
    "store = None \<Longrightarrow> feed_ok cfg' s0" "feed_ok cfg' (s0\<lparr>fc_store := None\<rparr>)"
    using cycle_init_Inr [OF assms(1-3)] by blast
  show ?thesis
  proof (cases store)
    case None
    then show ?thesis using s0 by (simp add: restore_def)
  next
    case (Some st)
    then have s: "s = save_snapshot (s0\<lparr>fc_sequences := snd (feed_load (fg_market cfg) st)\<rparr>)"
      using s0(2,3) assms(4) by (auto simp: restore_def feed_load_def)
    have "synced cfg s" using s0(1,5) Some s0(3) unfolding s by (intro synced_restored) (simp_all add: feed_ok_def)
    then show ?thesis using s0(1,5) by (simp add: feed_ok_def s)
  qed
qed

lemma cycle_init_again:
  assumes "cycle_init reg clients bars cfg lake (Some st) w = Inr (cfg', s')"
    and "route reg (fg_market cfg) REALTIME_QUOTES = Inr rt" and "distinct rt"
    and "feed_ok (cfg\<lparr>fg_route := rt\<rparr>) s" and "fc_store s = Some st"
  shows "cfg' = cfg\<lparr>fg_route := rt\<rparr>" and "feed_ok cfg' s'" and "fc_active_index s' = fc_active_index s"
    and "fc_failed_over_at s' = fc_failed_over_at s" and "map_of (fc_sequences s') = map_of (fc_sequences s)"
    and "fc_snapshot s' = (fc_snapshot s)\<lparr>sp_status_detail := fallback_detail rt\<rparr>"
proof -
  have i: "fc_active_index s < length rt" and p: "sp_active_provider (fc_snapshot s) = rt ! fc_active_index s"
    and m: "sp_market (fc_snapshot s) = fg_market cfg" and row: "map_of (fs_rows st) (fg_market cfg) = Some (feed_record_of (fc_snapshot s))"
    and seqs: "\<And>p sy. map_option fst (map_of (fs_sequences st) (fg_market cfg, p, sy)) = map_of (fc_sequences s) (p, sy)"
    using assms(4,5) by (auto simp: feed_ok_def synced_def)
  let ?x = "(fc_snapshot s)\<lparr>sp_status_detail := fallback_detail rt\<rparr>"
  obtain s0 where s0: "cfg' = cfg\<lparr>fg_route := rt\<rparr>" "restore (fg_market cfg) rt s0 = Inr s'" "fc_store s0 = Some st"
    using cycle_init_Inr [OF assms(1,2)] i by (metis length_0_conv not_less_zero)
  have x: "restored_snapshot (fg_market cfg) rt (feed_record_of (fc_snapshot s)) = Inr ?x"
    using m assms(4) by (simp add: restored_record feed_ok_def)
  define t where "t = s0\<lparr>fc_snapshot := ?x, fc_active_index := fc_active_index s, fc_failed_over_at := fc_failed_over_at s\<rparr>"
  have s': "s' = save_snapshot (t\<lparr>fc_sequences := snd (feed_load (fg_market cfg) st)\<rparr>)"
    using s0(2,3) x i p index_of_nth [OF assms(3) i] row assms(4)
    by (auto simp: restore_def feed_load_def feed_record_of_def t_def feed_ok_def)
  have "synced cfg s'" unfolding s' using s0(3) m by (intro synced_restored) (simp_all add: t_def)
  then show "feed_ok cfg' s'" using assms(4) s0(1) by (auto simp: s' t_def feed_ok_def fallback_detail_def)
  show "cfg' = cfg\<lparr>fg_route := rt\<rparr>" by (rule s0(1))
  show "fc_active_index s' = fc_active_index s" "fc_failed_over_at s' = fc_failed_over_at s" "fc_snapshot s' = ?x"
    by (simp_all add: s' t_def)
  show "map_of (fc_sequences s') = map_of (fc_sequences s)"
    using seqs loaded_sequences [of "fg_market cfg" st] by (auto simp: s' fun_eq_iff)
qed

section \<open>Properties\<close>

text \<open>
  The cycles of one configuration: a first one over a store without a row of the market,
  any number of slices whatever the providers do, and restarts over the store left behind.
\<close>

inductive feed_reach ::
  "provider_registry \<Rightarrow> provider list \<Rightarrow> (string, int) dict \<Rightarrow> 'w feed_config \<Rightarrow> 'w feed_config \<Rightarrow> 'w feed_cycle \<Rightarrow> bool"
  for reg clients bars cfg where
  start: "cycle_init reg clients bars cfg lake store w = Inr (cfg', s) \<Longrightarrow>
    (\<And>st. store = Some st \<Longrightarrow> map_of (fs_rows st) (fg_market cfg) = None) \<Longrightarrow> feed_reach reg clients bars cfg cfg' s"
| slice: "feed_reach reg clients bars cfg cfg' s \<Longrightarrow> run_once cfg' s = Some (r, s') \<Longrightarrow> feed_reach reg clients bars cfg cfg' s'"
| restart: "feed_reach reg clients bars cfg cfg' s \<Longrightarrow> fc_store s = Some st \<Longrightarrow>
    cycle_init reg clients bars cfg lake (Some st) w = Inr (cfg'', s') \<Longrightarrow> feed_reach reg clients bars cfg cfg'' s'"

lemma feed_reach_ok:
  assumes "feed_reach reg clients bars cfg cfg' s" and "route reg (fg_market cfg) REALTIME_QUOTES = Inr rt"
    and "rt \<noteq> []" and "distinct rt"
  shows "cfg' = cfg\<lparr>fg_route := rt\<rparr> \<and> feed_ok cfg' s"
  using assms(1)
proof induction
  case (start lake store w cfg' s)
  then show ?case using cycle_init_new [OF _ assms(2,3)] by blast
next
  case (slice cfg' s r s')
  then show ?case using run_once_ok by blast
next
  case (restart cfg' s st lake w cfg'' s')
  then show ?case using cycle_init_again(1,2) [OF restart(3) assms(2,4)] by blast
qed

text \<open>
  C34: The published feed state can be trusted.  After any slices and restarts, whatever the
  providers deliver or raise, the active provider is the one at the active place of the
  route, HEALTHY is published only on the primary provider and FAILED\_OVER only on another
  one, and the store has the current snapshot and sequence numbers.  A slice that returns
  ends in one of these two states, chosen by the provider that delivered.
\<close>

theorem feed_state_truthful:
  assumes "feed_reach reg clients bars cfg cfg' s" and "route reg (fg_market cfg) REALTIME_QUOTES = Inr rt"
    and "rt \<noteq> []" and "distinct rt"
  shows "sp_active_provider (fc_snapshot s) = rt ! fc_active_index s \<and> fc_active_index s < length rt
     \<and> (sp_state (fc_snapshot s) = HEALTHY \<longrightarrow> fc_active_index s = 0)
     \<and> (sp_state (fc_snapshot s) = FAILED_OVER \<longrightarrow> fc_active_index s \<noteq> 0)
     \<and> (\<forall>st. fc_store s = Some st \<longrightarrow> map_of (fs_rows st) (fg_market cfg) = Some (feed_record_of (fc_snapshot s)))
     \<and> (\<forall>n s'. run_once cfg' s = Some (Inr n, s') \<longrightarrow>
          sp_state (fc_snapshot s') = (if fc_active_index s' = 0 then HEALTHY else FAILED_OVER))"
proof -
  note ok = feed_reach_ok [OF assms]
  have "sp_state (fc_snapshot s') = (if fc_active_index s' = 0 then HEALTHY else FAILED_OVER)"
    if "run_once cfg' s = Some (Inr n, s')" for n s' using run_once_ok [OF that] ok by auto
  moreover have "map_of (fs_rows st) (fg_market cfg) = Some (feed_record_of (fc_snapshot s))" if "fc_store s = Some st" for st
    using ok that by (auto simp: feed_ok_def synced_def)
  ultimately show ?thesis using ok by (auto simp: feed_ok_def)
qed

text \<open>
  C35: A restart resumes the feed.  A cycle built over the store that any earlier one left
  behind is at the same place of the route, with the same failover time and sequence
  numbers and the same snapshot; only the operator's note of a route without a fallback is
  written anew.
\<close>

theorem restart_resumes_feed:
  assumes "feed_reach reg clients bars cfg cfg' s" and "fc_store s = Some st"
    and "cycle_init reg clients bars cfg lake (Some st) w = Inr (cfg'', s')"
    and "route reg (fg_market cfg) REALTIME_QUOTES = Inr rt" and "rt \<noteq> []" and "distinct rt"
  shows "cfg'' = cfg' \<and> fc_active_index s' = fc_active_index s \<and> fc_failed_over_at s' = fc_failed_over_at s
     \<and> map_of (fc_sequences s') = map_of (fc_sequences s)
     \<and> fc_snapshot s' = (if length rt = 1 then (fc_snapshot s)\<lparr>sp_status_detail := Some ''NO_REALTIME_FALLBACK_CONFIGURED''\<rparr>
                         else fc_snapshot s)"
proof -
  have cfg': "cfg' = cfg\<lparr>fg_route := rt\<rparr>" and ok: "feed_ok (cfg\<lparr>fg_route := rt\<rparr>) s"
    using feed_reach_ok [OF assms(1,4-6)] by auto
  note again = cycle_init_again [OF assms(3,4,6) ok assms(2)]
  have "fallback_detail rt = (if length rt = 1 then Some ''NO_REALTIME_FALLBACK_CONFIGURED'' else None)"
    using assms(5) by (cases rt) (auto simp: fallback_detail_def)
  then show ?thesis using again cfg' ok by (auto simp: feed_ok_def)
qed

text \<open>Frames that are no quotes neither count nor end the loop.\<close>

lemma take_frame_no_quote:
  assumes "\<And>now. normalize_quote (fg_parse_iso cfg) (fg_market cfg) p v now
      (case map_of (fg_symbol_maps cfg) p of None \<Rightarrow> [] | Some d \<Rightarrow> d) = Inr None"
  shows "\<exists>s'. take_frame cfg p persist observe v s = (Inr False, s')"
  using assms
  by (auto simp: take_frame_def bind_st_def lift_st_def return_st_def feed_clock_def feed_world_def zoom_def split: prod.split)

definition only_heartbeats :: "'w feed_config \<Rightarrow> provider \<Rightarrow> bool" where
  "only_heartbeats cfg p \<longleftrightarrow> (\<forall>w. \<exists>v w'. fg_next cfg p w = (Inr v, w')
     \<and> (\<forall>now. normalize_quote (fg_parse_iso cfg) (fg_market cfg) p v now
          (case map_of (fg_symbol_maps cfg) p of None \<Rightarrow> [] | Some d \<Rightarrow> d) = Inr None))"

lemma consume_loop_heartbeats:
  fixes cfg :: "'w feed_config"
  assumes "only_heartbeats cfg p" and "n < target"
  shows "consume_loop cfg p target persist observe clean n s = None"
proof (rule ccontr)
  define Q where "Q cfg' p' target persist obs clean n s y \<longleftrightarrow> (cfg' = cfg \<longrightarrow> p' = p \<longrightarrow> target \<le> n)"
    for cfg' :: "'w feed_config" and p' :: provider and target :: int and persist obs :: bool and clean :: nat and n :: int
      and s :: "'w feed_cycle" and y :: "int result \<times> 'w feed_cycle"
  assume "consume_loop cfg p target persist observe clean n s \<noteq> None"
  then obtain y where y: "consume_loop cfg p target persist observe clean n s = Some y" by blast
  have "Q cfg p target persist observe clean n s y"
  proof (rule consume_loop.raw_induct [where P = Q, OF _ y], goal_cases)
    case (1 loop cfg' p' t per obs cl m s y)
    show ?case unfolding Q_def
    proof (intro impI, rule ccontr)
      assume e: "cfg' = cfg" "p' = p" and "\<not> t \<le> m"
      obtain v w' where v: "fg_next cfg p (fc_world s) = (Inr v, w')"
        and none: "\<And>now. normalize_quote (fg_parse_iso cfg) (fg_market cfg) p v now
          (case map_of (fg_symbol_maps cfg) p of None \<Rightarrow> [] | Some d \<Rightarrow> d) = Inr None"
        using assms(1) unfolding only_heartbeats_def by blast
      obtain s2 where "take_frame cfg p per obs v (s\<lparr>fc_world := w'\<rparr>) = (Inr False, s2)"
        using take_frame_no_quote [OF none] by blast
      then have "loop cfg p t per obs cl m s2 = Some y"
        using 1(2) \<open>\<not> t \<le> m\<close> v unfolding e by (simp add: feed_world_def zoom_def)
      then show False using 1(1) \<open>\<not> t \<le> m\<close> by (fastforce simp: Q_def)
    qed
  qed
  then show False using assms(2) by (simp add: Q_def)
qed

text \<open>
  A provider that sends heartbeats but no quotes is never found stale.  The staleness limit
  bounds the wait for the next frame, not for the next quote: on such a stream a slice never
  returns, so neither the fallback provider nor the operator hears of it.
\<close>

theorem heartbeats_block_failover:
  assumes "only_heartbeats cfg (fg_route cfg ! 0)" and "fc_active_index s = 0" and "fg_route cfg \<noteq> []"
    and "0 < fg_max_events cfg" and "fg_route cfg ! 0 \<in> set (fc_iterators s)"
  shows "run_once cfg s = None"
proof -
  let ?p = "fg_route cfg ! 0"
  obtain t w where "fg_clock cfg (fc_world s) = (t, w)" by fastforce
  then have "consume_start cfg ?p s = (Inr t, s\<lparr>fc_world := w\<rparr>)"
    using assms(5) by (simp add: consume_start_def bind_st_def return_st_def feed_clock_def feed_world_def zoom_def)
  then have "consume cfg ?p None True True s = None"
    using consume_loop_heartbeats [OF assms(1,4)] by (simp add: consume_def)
  then show ?thesis using assms(2,3) by (cases "fg_route cfg") (simp_all add: run_once_def recover_def)
qed

section \<open>An example\<close>

text \<open>
  A single forex provider that refuses new connections and, on a stream that is open,
  sends nothing but heartbeats.
\<close>

definition ex_feed :: "unit feed_config" where
  "ex_feed = \<lparr>fg_market = FOREX, fg_route = [OANDA], fg_symbol_maps = [], fg_max_events = 1, fg_staleness = Fin 30,
     fg_recovery_successes = 3, fg_recovery_cooldown = 30000000, fg_parse_iso = (\<lambda>s. Inr (Aware 0)),
     fg_clock = (\<lambda>w. (0, w)), fg_open = (\<lambda>p w. (Inl (OtherError ''ConnectionError'' ''refused''), w)),
     fg_next = (\<lambda>p w. (Inr (JObj [(''type'', JStr ''HEARTBEAT'')]), w)), fg_close = (\<lambda>p w. (Inr (), w)),
     fg_previous_loader = None, fg_on_features = None\<rparr>"

definition ex_registry :: provider_registry where
  "ex_registry = [((FOREX, REALTIME_QUOTES), [OANDA])]"

definition ex_empty :: feed_store where
  "ex_empty = \<lparr>fs_rows = [], fs_sequences = []\<rparr>"

lemma ex_bar_builders: "\<exists>bs. bar_builders [] = Inr bs"
  by (simp add: bar_builders_def candle_builder_init_def str_strip_def is_space_def)

lemma ex_feed_start:
  "\<exists>s. cycle_init ex_registry [OANDA] [] ex_feed [] (Some ex_empty) () = Inr (ex_feed, s)
     \<and> fc_store s \<noteq> None \<and> fc_active_index s = 0 \<and> fc_iterators s = []"
proof -
  obtain bs where "bar_builders [] = Inr bs" using ex_bar_builders by blast
  then show ?thesis
    by (simp add: cycle_init_def ex_feed_def ex_registry_def ex_empty_def route_def restore_def feed_load_def
        zero_pyfloat_def save_snapshot_def)
qed

lemma ex_route: "route ex_registry (fg_market ex_feed) REALTIME_QUOTES = Inr [OANDA]"
  by (simp add: route_def ex_registry_def ex_feed_def)

text \<open>The only provider refuses the connection: the slice raises and the feed is degraded.\<close>

lemma ex_feed_slice:
  assumes "fc_active_index s = 0" and "fc_iterators s = []"
  shows "\<exists>e s'. run_once ex_feed s = Some (Inl e, s') \<and> sp_state (fc_snapshot s') = DEGRADED
     \<and> (fc_store s \<noteq> None \<longrightarrow> fc_store s' \<noteq> None)"
  using assms
  by (simp add: run_once_def recover_def consume_def consume_start_def open_provider_def bind_st_def return_st_def
      feed_clock_def feed_world_def zoom_def ex_feed_def degraded_def)

lemma ex_degraded:
  "\<exists>s s' e st. feed_reach ex_registry [OANDA] [] ex_feed ex_feed s' \<and> run_once ex_feed s = Some (Inl e, s')
     \<and> sp_state (fc_snapshot s') = DEGRADED \<and> fc_store s' = Some st"
proof -
  obtain s where i: "cycle_init ex_registry [OANDA] [] ex_feed [] (Some ex_empty) () = Inr (ex_feed, s)"
    and s: "fc_store s \<noteq> None" "fc_active_index s = 0" "fc_iterators s = []" using ex_feed_start by blast
  have r: "feed_reach ex_registry [OANDA] [] ex_feed ex_feed s"
    by (rule feed_reach.start [OF i]) (simp add: ex_empty_def)
  then show ?thesis using ex_feed_slice [OF s(2,3)] s(1) feed_reach.slice [OF r] by blast
qed

lemma ex_feed_restart:
  assumes "map_of (fs_rows st) FOREX = Some (feed_record_of x)" and "sp_active_provider x = OANDA"
  shows "\<exists>s. cycle_init ex_registry [OANDA] [] ex_feed [] (Some st) () = Inr (ex_feed, s)"
proof -
  obtain bs where "bar_builders [] = Inr bs" using ex_bar_builders by blast
  moreover have "fr_active_provider (feed_record_of x) = OANDA" using assms(2) by (simp add: feed_record_of_def)
  ultimately show ?thesis using assms
    by (simp add: cycle_init_def ex_feed_def ex_registry_def route_def restore_def feed_load_def zero_pyfloat_def
        restored_record)
qed

theorem feed_state_truthful_witness:
  "\<exists>s e s' st. run_once ex_feed s = Some (Inl e, s') \<and> sp_state (fc_snapshot s') = DEGRADED
     \<and> sp_active_provider (fc_snapshot s') = OANDA
     \<and> fc_store s' = Some st \<and> map_of (fs_rows st) FOREX = Some (feed_record_of (fc_snapshot s'))"
proof -
  obtain s s' e st where s: "feed_reach ex_registry [OANDA] [] ex_feed ex_feed s'" "run_once ex_feed s = Some (Inl e, s')"
    "sp_state (fc_snapshot s') = DEGRADED" "fc_store s' = Some st" using ex_degraded by blast
  have "fg_market ex_feed = FOREX" by (simp add: ex_feed_def)
  with feed_state_truthful [OF s(1) ex_route] s(4) have "sp_active_provider (fc_snapshot s') = OANDA"
    "map_of (fs_rows st) FOREX = Some (feed_record_of (fc_snapshot s'))" by auto
  then show ?thesis using s by blast
qed

theorem restart_resumes_feed_witness:
  "\<exists>s s' s'' e st. run_once ex_feed s = Some (Inl e, s') \<and> fc_store s' = Some st
     \<and> cycle_init ex_registry [OANDA] [] ex_feed [] (Some st) () = Inr (ex_feed, s'')
     \<and> sp_state (fc_snapshot s'') = DEGRADED"
proof -
  obtain s s' e st where s: "feed_reach ex_registry [OANDA] [] ex_feed ex_feed s'" "run_once ex_feed s = Some (Inl e, s')"
    "sp_state (fc_snapshot s') = DEGRADED" "fc_store s' = Some st" using ex_degraded by blast
  have "feed_ok ex_feed s'" using feed_reach_ok [OF s(1) ex_route] by simp
  then have "map_of (fs_rows st) FOREX = Some (feed_record_of (fc_snapshot s'))" "sp_active_provider (fc_snapshot s') = OANDA"
    using s(4) by (auto simp: feed_ok_def synced_def ex_feed_def)
  from ex_feed_restart [OF this] obtain s'' where i: "cycle_init ex_registry [OANDA] [] ex_feed [] (Some st) () = Inr (ex_feed, s'')"
    by blast
  moreover have "sp_state (fc_snapshot s'') = DEGRADED" using restart_resumes_feed [OF s(1,4) i ex_route] s(3) by simp
  ultimately show ?thesis using s(2,4) by blast
qed

theorem heartbeats_block_failover_witness:
  "\<exists>s :: unit feed_cycle. run_once ex_feed s = None"
proof -
  obtain s :: "unit feed_cycle" where s: "fc_active_index s = 0" using ex_feed_start by blast
  have "only_heartbeats ex_feed (fg_route ex_feed ! 0)"
    by (simp add: only_heartbeats_def ex_feed_def normalize_quote_def mid_price_def obj_get_or_def obj_get_def get_some_def)
  then have "run_once ex_feed (s\<lparr>fc_iterators := [OANDA]\<rparr>) = None"
    by (rule heartbeats_block_failover) (simp_all add: s ex_feed_def)
  then show ?thesis by blast
qed

end
