(* ===== verification/Qwen.thy ===== *)
theory Qwen
  imports FinOps Providers Decision_Pipeline "HOL-Library.Sublist"
begin

text \<open>
  The model gateway of src/src/nanodelta/finops/qwen.py and the candidate reviewer of
  src/src/nanodelta/runtime/llm_review.py on top of it.  The transport and the clock are
  parameters that act on a world \<open>'w\<close>; the state of a call is the spend ledger of \<open>FinOps\<close>
  with that world.  Awaiting the transport ends in a response, in an exception, or in the
  cancellation that \<open>asyncio.wait_for\<close> delivers on a timeout: \<open>CancelledError\<close> is no
  \<open>Exception\<close>, so it passes the handler that releases the reservation.
\<close>

section \<open>Text\<close>

text \<open>
  \<open>str.upper\<close>: the letters of ASCII, and the characters outside it whose upper case has
  ASCII letters.  The other characters are kept, which no test for an ASCII word sees.
\<close>

definition upper_table :: "(string \<times> string) list" where
  "upper_table =
     [([CHR 0xC3, CHR 0x9F], ''SS''), ([CHR 0xC4, CHR 0xB1], ''I''),
      ([CHR 0xC5, CHR 0x89], [CHR 0xCA, CHR 0xBC] @ ''N''), ([CHR 0xC5, CHR 0xBF], ''S''),
      ([CHR 0xC7, CHR 0xB0], ''J'' @ [CHR 0xCC, CHR 0x8C]),
      ([CHR 0xE1, CHR 0xBA, CHR 0x96], ''H'' @ [CHR 0xCC, CHR 0xB1]),
      ([CHR 0xE1, CHR 0xBA, CHR 0x97], ''T'' @ [CHR 0xCC, CHR 0x88]),
      ([CHR 0xE1, CHR 0xBA, CHR 0x98], ''W'' @ [CHR 0xCC, CHR 0x8A]),
      ([CHR 0xE1, CHR 0xBA, CHR 0x99], ''Y'' @ [CHR 0xCC, CHR 0x8A]),
      ([CHR 0xE1, CHR 0xBA, CHR 0x9A], ''A'' @ [CHR 0xCA, CHR 0xBE]),
      ([CHR 0xEF, CHR 0xAC, CHR 0x80], ''FF''), ([CHR 0xEF, CHR 0xAC, CHR 0x81], ''FI''),
      ([CHR 0xEF, CHR 0xAC, CHR 0x82], ''FL''), ([CHR 0xEF, CHR 0xAC, CHR 0x83], ''FFI''),
      ([CHR 0xEF, CHR 0xAC, CHR 0x84], ''FFL''), ([CHR 0xEF, CHR 0xAC, CHR 0x85], ''ST''),
      ([CHR 0xEF, CHR 0xAC, CHR 0x86], ''ST'')]"

fun py_upper :: "string \<Rightarrow> string" where
  "py_upper [] = []"
| "py_upper (c # s) =
     (case find (\<lambda>(k, _). take (length k) (c # s) = k) upper_table of
        Some (k, u) \<Rightarrow> u @ py_upper (drop (length k - 1) s)
      | None \<Rightarrow> upper_char c # py_upper s)"

text \<open>\<open>needle in s\<close>\<close>

fun str_contains :: "string \<Rightarrow> string \<Rightarrow> bool" where
  "str_contains needle [] = (needle = [])"
| "str_contains needle (c # s) =
     (take (length needle) (c # s) = needle \<or> str_contains needle s)"

text \<open>The format specifications \<open>.2f\<close> and \<open>.3f\<close>: the exact value rounded to \<open>d\<close> places, ties to even.\<close>

definition format_fixed :: "nat \<Rightarrow> pyfloat \<Rightarrow> string" where
  "format_fixed d x =
     (case x of
        Fin q \<Rightarrow>
          (let n = rne (\<bar>q\<bar> * 10 ^ d) in
           (if q < 0 then ''-'' else []) @ str_of_int (n div 10 ^ d) @ ''.'' @ zfill d (n mod 10 ^ d))
      | PInf \<Rightarrow> ''inf'' | NInf \<Rightarrow> ''-inf'' | NaN \<Rightarrow> ''nan'')"

text \<open>\<open>int(value)\<close> of a decoded value, and \<open>dict.get\<close> with a default.\<close>

type_synonym json_object = "(string \<times> json) list"

definition json_int :: "json \<Rightarrow> int result" where
  "json_int v =
     (case v of
        JBool b \<Rightarrow> Inr (if b then 1 else 0)
      | JInt i \<Rightarrow> Inr i
      | JFloat x \<Rightarrow> int_of_float x
      | JStr s \<Rightarrow> (case py_int s of
            Some i \<Rightarrow> Inr i
          | None \<Rightarrow> Inl (ValueError (''invalid literal for int() with base 10: '' @ repr_str s)))
      | _ \<Rightarrow> Inl (TypeError (''int() argument must be a string, a bytes-like object or a real number, not ''
               @ repr_str (type_name v))))"

definition dict_get :: "json_object \<Rightarrow> string \<Rightarrow> json \<Rightarrow> json" where
  "dict_get d k v = (case map_of d k of Some x \<Rightarrow> x | None \<Rightarrow> v)"

section \<open>The gateway\<close>

text \<open>How an \<open>await\<close> ends.\<close>

datatype 'a awaited = Finished "'a result" | Cancelled

text \<open>
  \<open>HttpxQwenTransport.complete\<close>: \<open>post\<close> is the HTTP exchange, which raises for an error
  status and otherwise decodes the body.
\<close>

definition httpx_complete ::
  "(string \<Rightarrow> json_object \<Rightarrow> json_object \<Rightarrow> 'w \<Rightarrow> json awaited \<times> 'w) \<Rightarrow> string
     \<Rightarrow> json_object \<Rightarrow> string \<Rightarrow> 'w \<Rightarrow> json_object awaited \<times> 'w" where
  "httpx_complete post endpoint body api_key w =
     (case post endpoint [(''Authorization'', JStr (''Bearer '' @ api_key)),
                          (''Content-Type'', JStr ''application/json'')] body w of
        (Cancelled, w') \<Rightarrow> (Cancelled, w')
      | (Finished (Inl e), w') \<Rightarrow> (Finished (Inl e), w')
      | (Finished (Inr (JObj d)), w') \<Rightarrow> (Finished (Inr d), w')
      | (Finished (Inr _), w') \<Rightarrow>
          (Finished (Inl (ValueError ''Qwen response must be a JSON object'')), w'))"

record 'w qwen_gateway =
  qw_guard :: finops_guard
  qw_transport :: "json_object \<Rightarrow> string \<Rightarrow> 'w \<Rightarrow> json_object awaited \<times> 'w"
  qw_api_key :: string
  qw_deployment_scope :: string
  qw_clock :: "'w \<Rightarrow> instant \<times> 'w"

definition details_count :: "json \<Rightarrow> string \<Rightarrow> int result" where
  "details_count details k =
     (case details of JObj d \<Rightarrow> json_int (dict_get d k (JInt 0)) | _ \<Rightarrow> Inr 0)"

definition qwen_usage :: "json_object \<Rightarrow> token_usage result" where
  "qwen_usage response =
     (case dict_get response ''usage'' JNull of
        JObj raw \<Rightarrow>
          bind_r (details_count (dict_get raw ''prompt_tokens_details'' JNull) ''cached_tokens'') (\<lambda>cached.
          bind_r (details_count (dict_get raw ''completion_tokens_details'' JNull) ''reasoning_tokens'') (\<lambda>reasoning.
          bind_r (json_int (dict_get raw ''prompt_tokens'' (JInt 0))) (\<lambda>prompt.
          bind_r (json_int (dict_get raw ''completion_tokens'' (JInt 0))) (\<lambda>completion.
          token_usage_post_init \<lparr>tu_input_tokens = prompt, tu_output_tokens = completion,
            tu_cached_input_tokens = cached, tu_reasoning_tokens = reasoning\<rparr>))))
      | _ \<Rightarrow> Inl (ValueError ''Qwen response is missing token usage''))"

text \<open>The checks of a request: the model and the ceiling of its output.\<close>

definition qwen_request :: "json_object \<Rightarrow> (string \<times> int) result" where
  "qwen_request body =
     (if map_of body ''stream'' = Some (JBool True)
        then Inl (ValueError ''streaming Qwen calls require a usage-aware stream adapter'')
      else let model = str_strip (json_str (dict_get body ''model'' (JStr []))) in
        if model = [] then Inl (ValueError ''Qwen model is required'')
        else bind_r (json_int (dict_get body ''max_completion_tokens'' (dict_get body ''max_tokens'' (JInt 0))))
          (\<lambda>maximum_output.
            if maximum_output < 1
              then Inl (ValueError ''max_completion_tokens is required for bounded Qwen FinOps authorization'')
            else Inr (model, maximum_output)))"

text \<open>What follows the transport, up to the return.\<close>

definition qwen_settle ::
  "'w qwen_gateway \<Rightarrow> reservation \<Rightarrow> string \<Rightarrow> attribution \<Rightarrow> json_object result
     \<Rightarrow> (finops_ledger \<times> 'w, json_object) st" where
  "qwen_settle q r model attr received =
     bind_st (lift_st received) (\<lambda>response.
     bind_st (lift_st (qwen_usage response)) (\<lambda>usage.
     let request_id = str_strip (json_str (dict_get response ''id'' (JStr []))) in
     if request_id = [] then raise_st (ValueError ''Qwen response is missing request ID'')
     else bind_st (\<lambda>(l, w). let (now, w') = qw_clock q w in (Inr now, (l, w'))) (\<lambda>now.
       bind_st (zoom fst (\<lambda>l s. (l, snd s))
           (finops_record (qw_guard q) r request_id model (qw_deployment_scope q) attr usage (Aware now)))
         (\<lambda>_. return_st response))))"

definition qwen_complete ::
  "'w qwen_gateway \<Rightarrow> json_object \<Rightarrow> attribution \<Rightarrow> int \<Rightarrow> finops_ledger \<times> 'w
     \<Rightarrow> json_object awaited \<times> finops_ledger \<times> 'w" where
  "qwen_complete q body attr estimated_input_tokens s =
     (case qwen_request body of
        Inl e \<Rightarrow> (Finished (Inl e), s)
      | Inr (model, maximum_output) \<Rightarrow>
          (let (now, w1) = qw_clock q (snd s) in
           case authorize (qw_guard q) model (qw_deployment_scope q) estimated_input_tokens
                  maximum_output (Aware now) (fst s) of
             (Inl e, l1) \<Rightarrow> (Finished (Inl e), (l1, w1))
           | (Inr r, l1) \<Rightarrow>
               (case qw_transport q body (qw_api_key q) w1 of
                  (Cancelled, w2) \<Rightarrow> (Cancelled, (l1, w2))
                | (Finished received, w2) \<Rightarrow>
                    (case qwen_settle q r model attr received (l1, w2) of
                       (Inl e, (l3, w3)) \<Rightarrow> (Finished (Inl e), (finops_cancel r l3, w3))
                     | (Inr response, s3) \<Rightarrow> (Finished (Inr response), s3)))))"

section \<open>The reviewer\<close>

record 'w qwen_reviewer =
  qr_gateway :: "'w qwen_gateway"
  qr_model :: string
  qr_max_output_tokens :: int
  qr_timeout :: pyfloat

definition review_prompt :: "scored_candidate \<Rightarrow> string" where
  "review_prompt item =
     (let c = sr_candidate item; signal = dc_signal c in
      ''NSE paper-trading candidate: symbol '' @ dc_symbol c @ '', '' @
      ''proposed '' @ action_value (sg_action signal) @ '' at '' @ str_of_float (sg_reference_price signal) @ '', '' @
      ''stop '' @ str_of_float (sg_stop_price signal) @ '', target '' @ str_of_float (sg_target_price signal) @ '', '' @
      ''strategy confidence '' @ format_fixed 2 (sg_confidence signal) @ '', '' @
      ''expected_r '' @ format_fixed 3 (sb_expected_r_net_of_costs (sr_score item)) @ ''. '' @
      ''Reply with exactly one word: PASS, BLOCK, or ABSTAIN.'')"

definition review_body :: "'w qwen_reviewer \<Rightarrow> scored_candidate \<Rightarrow> json_object" where
  "review_body v item =
     [(''model'', JStr (qr_model v)),
      (''messages'', JList [JObj [(''role'', JStr ''user''), (''content'', JStr (review_prompt item))]]),
      (''max_completion_tokens'', JInt (qr_max_output_tokens v))]"

definition review_verdict :: "json_object \<Rightarrow> llm_verdict result" where
  "review_verdict response =
     (case dict_get response ''choices'' JNull of
        JList (choice # _) \<Rightarrow>
          (case (case choice of JObj d \<Rightarrow> dict_get d ''message'' (JObj []) | _ \<Rightarrow> JObj []) of
             JObj message \<Rightarrow>
               (let content = py_upper (str_strip (json_str (dict_get message ''content'' (JStr [])))) in
                Inr (if str_contains ''BLOCK'' content then LLM_BLOCK
                     else if str_contains ''ABSTAIN'' content then LLM_ABSTAIN
                     else if str_contains ''PASS'' content then LLM_PASS
                     else LLM_UNAVAILABLE))
           | message \<Rightarrow> Inl (OtherError ''AttributeError''
               (repr_str (type_name message) @ '' object has no attribute '' @ repr_str ''get'')))
      | _ \<Rightarrow> Inr LLM_UNAVAILABLE)"

definition review_async ::
  "'w qwen_reviewer \<Rightarrow> scored_candidate \<Rightarrow> finops_ledger \<times> 'w \<Rightarrow> llm_verdict awaited \<times> finops_ledger \<times> 'w" where
  "review_async v item s =
     (case attribution_post_init \<lparr>at_market = Some (si_market (dc_identity (sr_candidate item))),
             at_component = ''paper-decision-review'', at_reason = ''shadow-review''\<rparr> of
        Inl e \<Rightarrow> (Finished (Inl e), s)
      | Inr attr \<Rightarrow>
          (case qwen_complete (qr_gateway v) (review_body v item) attr 200 s of
             (Cancelled, s') \<Rightarrow> (Cancelled, s')
           | (Finished (Inl e), s') \<Rightarrow> (Finished (Inl e), s')
           | (Finished (Inr response), s') \<Rightarrow> (Finished (review_verdict response), s')))"

text \<open>
  \<open>asyncio.wait_for\<close> turns the cancellation it delivered into \<open>TimeoutError\<close>, which is an
  \<open>Exception\<close> again; \<open>_run_sync\<close> hands the result of the coroutine over from its thread.
\<close>

definition wait_for :: "'a awaited \<Rightarrow> 'a result" where
  "wait_for x = (case x of Finished r \<Rightarrow> r | Cancelled \<Rightarrow> Inl (OtherError ''TimeoutError'' []))"

definition candidate_review ::
  "'w qwen_reviewer \<Rightarrow> scored_candidate \<Rightarrow> finops_ledger \<times> 'w \<Rightarrow> llm_verdict \<times> finops_ledger \<times> 'w" where
  "candidate_review v item s =
     (let (x, s') = review_async v item s in
      (case wait_for x of Inr verdict \<Rightarrow> verdict | Inl _ \<Rightarrow> LLM_UNAVAILABLE, s'))"

section \<open>Reservations are settled\<close>

lemma record_err_frame:
  assumes "finops_record g r rq model scope a u t l = (Inl e, l')"
  shows "fl_records l' = fl_records l"
  using assms by (auto simp: finops_record_def Let_def split: sum.splits prod.splits option.splits if_splits)

lemma delete_update_same: "AList.delete k (AList.update k v d) = AList.delete k d"
  by (induction d) (auto simp: AList.delete_eq)

text \<open>The settlement of a response: what a returned one went through, and what a failed one leaves.\<close>

lemma qwen_settle_InrE:
  assumes "qwen_settle q r model attr received (l, w) = (Inr response, (l', w'))"
  obtains u rec now where "received = Inr response" and "qwen_usage response = Inr u" and "qw_clock q w = (now, w')"
    and "str_strip (json_str (dict_get response ''id'' (JStr []))) \<noteq> []"
    and "finops_record (qw_guard q) r (str_strip (json_str (dict_get response ''id'' (JStr [])))) model
           (qw_deployment_scope q) attr u (Aware now) l = (Inr rec, l')"
  using assms
  by (auto simp: qwen_settle_def lift_st_def raise_st_def return_st_def zoom_def bind_st_def Let_def
      split: sum.splits prod.splits if_splits)

lemma qwen_settle_err:
  assumes "qwen_settle q r model attr received (l, w) = (Inl e, (l', w'))"
  shows "fl_records l' = fl_records l" and "set (fl_reservations l') \<subseteq> set (fl_reservations l)"
proof -
  have "l' = l \<or> (\<exists>rq u now e. finops_record (qw_guard q) r rq model (qw_deployment_scope q) attr u (Aware now) l
      = (Inl e, l'))"
    using assms
    by (auto simp: qwen_settle_def lift_st_def raise_st_def return_st_def zoom_def bind_st_def Let_def
        split: sum.splits prod.splits if_splits)
  then show "fl_records l' = fl_records l" and "set (fl_reservations l') \<subseteq> set (fl_reservations l)"
    using record_err_frame record_frame(2) by (fastforce, metis snd_conv subset_refl)
qed

text \<open>What a returned response went through: the request, the authorization, the exchange and the booking.\<close>

lemma qwen_complete_InrE:
  assumes "qwen_complete q body attr n (l, w) = (Finished (Inr response), (l', w'))"
  obtains model out now w1 r l1 w2 u t rec where "qwen_request body = Inr (model, out)"
    and "qw_clock q w = (now, w1)"
    and "authorize (qw_guard q) model (qw_deployment_scope q) n out (Aware now) l = (Inr r, l1)"
    and "qw_transport q body (qw_api_key q) w1 = (Finished (Inr response), w2)"
    and "qwen_usage response = Inr u" and "qw_clock q w2 = (t, w')"
    and "str_strip (json_str (dict_get response ''id'' (JStr []))) \<noteq> []"
    and "finops_record (qw_guard q) r (str_strip (json_str (dict_get response ''id'' (JStr [])))) model
           (qw_deployment_scope q) attr u (Aware t) l1 = (Inr rec, l')"
proof -
  from assms obtain model out now w1 r l1 w2 received where *: "qwen_request body = Inr (model, out)"
    "qw_clock q w = (now, w1)"
    "authorize (qw_guard q) model (qw_deployment_scope q) n out (Aware now) l = (Inr r, l1)"
    "qw_transport q body (qw_api_key q) w1 = (Finished received, w2)"
    "qwen_settle q r model attr received (l1, w2) = (Inr response, (l', w'))"
    by (auto simp: qwen_complete_def split: sum.splits prod.splits awaited.splits)
  from *(5) show thesis by (rule qwen_settle_InrE) (use * in \<open>auto intro!: that\<close>)
qed

text \<open>A call that ends in an exception books nothing and keeps no reservation.\<close>

lemma qwen_complete_err:
  assumes "qwen_complete q body attr n (l, w) = (Finished (Inl e), (l', w'))"
  shows "fl_records l' = fl_records l \<and> set (fl_reservations l') \<subseteq> set (fl_reservations l)"
proof -
  from assms consider "l' = l"
    | model out now e' where "authorize (qw_guard q) model (qw_deployment_scope q) n out (Aware now) l = (Inl e', l')"
    | model out now r l1 received w2 l3 w3 e' where
        "authorize (qw_guard q) model (qw_deployment_scope q) n out (Aware now) l = (Inr r, l1)"
        "qwen_settle q r model attr received (l1, w2) = (Inl e', (l3, w3))" "l' = finops_cancel r l3"
    by (auto simp: qwen_complete_def split: sum.splits prod.splits awaited.splits)
  then show ?thesis
  proof cases
    case 2
    then show ?thesis using authorize_err_frame(1,2) [OF 2] by simp
  next
    case 3
    have l1: "l1 = l\<lparr>fl_reservations := AList.update (rv_reservation_id r) r (fl_reservations l)\<rparr>"
      using 3(1) by (rule authorize_InrE)
    have "set (fl_reservations l') \<subseteq> set (AList.delete (rv_reservation_id r) (fl_reservations l1))"
      using qwen_settle_err(2) [OF 3(2)] 3(3) by (auto simp: finops_cancel_def AList.delete_eq)
    also have "\<dots> \<subseteq> set (fl_reservations l)"
      unfolding l1 by (simp add: delete_update_same) (rule set_delete_subset)
    finally show ?thesis using qwen_settle_err(1) [OF 3(2)] 3(3) by (simp add: finops_cancel_def l1)
  qed simp
qed

text \<open>Recording adds one entry or finds the same one; the other entries stay.\<close>

lemma record_books:
  assumes "finops_record g r rq model scope a u t l = (Inr rec, l1)"
  shows "map_of (fl_records l) (ur_record_id rec) \<in> {None, Some rec}"
    and "map_of (fl_records l1) = (map_of (fl_records l))(ur_record_id rec \<mapsto> rec)"
  using assms
  by (auto simp: finops_record_def Let_def update_conv' map_upd_triv
      split: sum.splits prod.splits option.splits if_splits)

section \<open>A verdict and what it cost\<close>

text \<open>The answer of a response: the text of the message of its first choice, and the word that decides.\<close>

definition replied :: "json_object \<Rightarrow> string \<Rightarrow> bool" where
  "replied response answer \<longleftrightarrow>
     (\<exists>choice choices message content. map_of response ''choices'' = Some (JList (JObj choice # choices))
        \<and> map_of choice ''message'' = Some (JObj message) \<and> map_of message ''content'' = Some content
        \<and> answer = py_upper (str_strip (json_str content)))"

fun spells :: "string \<Rightarrow> llm_verdict \<Rightarrow> bool" where
  "spells answer LLM_BLOCK \<longleftrightarrow> sublist ''BLOCK'' answer"
| "spells answer LLM_ABSTAIN \<longleftrightarrow> sublist ''ABSTAIN'' answer \<and> \<not> sublist ''BLOCK'' answer"
| "spells answer LLM_PASS \<longleftrightarrow>
     sublist ''PASS'' answer \<and> \<not> sublist ''ABSTAIN'' answer \<and> \<not> sublist ''BLOCK'' answer"
| "spells answer LLM_UNAVAILABLE \<longleftrightarrow>
     \<not> sublist ''PASS'' answer \<and> \<not> sublist ''ABSTAIN'' answer \<and> \<not> sublist ''BLOCK'' answer"

lemma str_contains_sublist: "str_contains needle s \<longleftrightarrow> sublist needle s"
proof (induction s)
  case (Cons c s)
  have "take (length needle) (c # s) = needle \<longleftrightarrow> prefix needle (c # s)"
    by (metis append_eq_conv_conj append_take_drop_id prefix_def)
  then show ?case using Cons by (simp add: sublist_Cons_right)
qed simp

lemma py_upper_Nil: "py_upper (str_strip []) = []"
  by (simp add: str_strip_def)

lemma review_verdict_replied:
  assumes "review_verdict response = Inr verdict" and "verdict \<noteq> LLM_UNAVAILABLE"
  shows "\<exists>answer. replied response answer \<and> spells answer verdict"
  using assms
  by (auto simp: review_verdict_def replied_def dict_get_def Let_def str_contains_sublist py_upper_Nil json_str_def
      split: json.splits list.splits option.splits if_splits)

text \<open>The tokens a response reports, count by count; a count that is not given is zero.\<close>

definition count_of :: "json_object \<Rightarrow> string \<Rightarrow> int \<Rightarrow> bool" where
  "count_of d k n \<longleftrightarrow> (case map_of d k of None \<Rightarrow> n = 0 | Some v \<Rightarrow> json_int v = Inr n)"

definition detail_of :: "json_object \<Rightarrow> string \<Rightarrow> string \<Rightarrow> int \<Rightarrow> bool" where
  "detail_of d k k' n \<longleftrightarrow>
     (case map_of d k of Some (JObj details) \<Rightarrow> count_of details k' n | _ \<Rightarrow> n = 0)"

definition reports_usage :: "json_object \<Rightarrow> token_usage \<Rightarrow> bool" where
  "reports_usage response u \<longleftrightarrow>
     (\<exists>raw. map_of response ''usage'' = Some (JObj raw)
        \<and> count_of raw ''prompt_tokens'' (tu_input_tokens u)
        \<and> count_of raw ''completion_tokens'' (tu_output_tokens u)
        \<and> detail_of raw ''prompt_tokens_details'' ''cached_tokens'' (tu_cached_input_tokens u)
        \<and> detail_of raw ''completion_tokens_details'' ''reasoning_tokens'' (tu_reasoning_tokens u))"

lemma count_ofI: "json_int (dict_get d k (JInt 0)) = Inr n \<Longrightarrow> count_of d k n"
  by (auto simp: count_of_def dict_get_def json_int_def split: option.splits)

lemma detail_ofI: "details_count (dict_get d k JNull) k' = Inr n \<Longrightarrow> detail_of d k k' n"
  by (auto simp: detail_of_def details_count_def dict_get_def intro: count_ofI [unfolded dict_get_def]
      split: option.splits json.splits)

lemma qwen_usage_reports: "qwen_usage response = Inr u \<Longrightarrow> reports_usage response u"
proof -
  assume a: "qwen_usage response = Inr u"
  then obtain raw where raw: "map_of response ''usage'' = Some (JObj raw)"
    by (auto simp: qwen_usage_def dict_get_def split: option.splits json.splits)
  with a show ?thesis
    by (auto simp: qwen_usage_def reports_usage_def dict_get_def [of response] bind_r_def token_usage_post_init_def
        intro: count_ofI detail_ofI split: sum.splits if_splits)
qed

text \<open>
  The entry that books a response of the review of \<open>item\<close>: under the request identifier of
  the response, for the model and the market of the call, with the usage and its price.
\<close>

definition books ::
  "'w qwen_reviewer \<Rightarrow> scored_candidate \<Rightarrow> json_object \<Rightarrow> token_usage \<Rightarrow> instant \<Rightarrow> usage_record \<Rightarrow> bool" where
  "books v item response u t rec \<longleftrightarrow>
     (\<exists>request_id. map_of response ''id'' = Some request_id \<and> str_strip (json_str request_id) \<noteq> []
        \<and> ur_provider_request_id rec = str_strip (json_str request_id)
        \<and> ur_record_id rec = stable_id [fg_provider (qw_guard (qr_gateway v)), ur_provider_request_id rec])
     \<and> ur_model rec = str_strip (qr_model v)
     \<and> ur_deployment_scope rec = qw_deployment_scope (qr_gateway v)
     \<and> ur_attribution rec = \<lparr>at_market = Some (si_market (dc_identity (sr_candidate item))),
         at_component = ''paper-decision-review'', at_reason = ''shadow-review''\<rparr>
     \<and> ur_usage rec = u \<and> ur_occurred_at rec = t
     \<and> usage_cost (qw_guard (qr_gateway v)) (ur_model rec) (ur_deployment_scope rec) u
         = Inr (ur_marginal_cost_usd rec, ur_catalog_version rec)"

lemma booked:
  assumes "finops_record (qw_guard (qr_gateway v)) r (str_strip (json_str (dict_get response ''id'' (JStr []))))
       (str_strip (qr_model v)) (qw_deployment_scope (qr_gateway v))
       \<lparr>at_market = Some (si_market (dc_identity (sr_candidate item))),
         at_component = ''paper-decision-review'', at_reason = ''shadow-review''\<rparr> u (Aware t) l = (Inr rec, l')"
    and "str_strip (json_str (dict_get response ''id'' (JStr []))) \<noteq> []"
  shows "books v item response u t rec"
proof -
  obtain k where k: "map_of response ''id'' = Some k"
    using assms(2) by (cases "map_of response ''id''") (auto simp: dict_get_def json_str_def str_strip_def)
  show ?thesis using assms(1) by (rule record_InrE) (use assms(2) k in \<open>auto simp: books_def dict_get_def utc_def\<close>)
qed

lemma review_request:
  "qwen_request (review_body v item) = Inr (model, out) \<Longrightarrow> model = str_strip (qr_model v) \<and> out = qr_max_output_tokens v"
  by (auto simp: qwen_request_def review_body_def dict_get_def json_str_def json_int_def Let_def bind_r_def
      split: if_splits)

text \<open>
  C37: A verdict is paid for, and it is the transport's.  When the reviewer answers anything
  but UNAVAILABLE, the guard had authorized the call at the instant the clock gave; the
  transport, called with the body of the review right after that, returned a response; the
  upper-cased text of its first choice has the word of the verdict and no word that goes
  first.  The ledger differs from the one before by one entry: it is filed under the request
  identifier of that response, with the tokens the response reports count by count, the
  model, scope and market of the call, the price of those tokens and the instant the clock
  gave after the exchange (an entry already there is this same one).  The reservation of
  the call is gone and the others are as before.  This holds of every transport, clock,
  guard and ledger.
\<close>

theorem verdict_is_accounted:
  assumes "candidate_review v item (l, w) = (verdict, (l', w'))" and "verdict \<noteq> LLM_UNAVAILABLE"
  shows "\<exists>now w1 r l1 response w2 t u rec.
      qw_clock (qr_gateway v) w = (now, w1)
    \<and> authorize (qw_guard (qr_gateway v)) (str_strip (qr_model v)) (qw_deployment_scope (qr_gateway v)) 200
        (qr_max_output_tokens v) (Aware now) l = (Inr r, l1)
    \<and> qw_transport (qr_gateway v) (review_body v item) (qw_api_key (qr_gateway v)) w1 = (Finished (Inr response), w2)
    \<and> (\<exists>answer. replied response answer \<and> spells answer verdict)
    \<and> qw_clock (qr_gateway v) w2 = (t, w')
    \<and> reports_usage response u \<and> books v item response u t rec
    \<and> map_of (fl_records l) (ur_record_id rec) \<in> {None, Some rec}
    \<and> map_of (fl_records l') = (map_of (fl_records l))(ur_record_id rec \<mapsto> rec)
    \<and> fl_reservations l' = AList.delete (rv_reservation_id r) (fl_reservations l)"
proof -
  let ?q = "qr_gateway v" and ?attr = "\<lparr>at_market = Some (si_market (dc_identity (sr_candidate item))),
    at_component = ''paper-decision-review'', at_reason = ''shadow-review''\<rparr>"
  obtain x s' where r: "review_async v item (l, w) = (x, s')" by (cases "review_async v item (l, w)")
  then have "x = Finished (Inr verdict)" "s' = (l', w')" using assms
    by (auto simp: candidate_review_def wait_for_def split: awaited.splits sum.splits)
  then obtain response where
    c: "qwen_complete ?q (review_body v item) ?attr 200 (l, w) = (Finished (Inr response), (l', w'))"
    and answer: "review_verdict response = Inr verdict"
    using r by (auto simp: review_async_def attribution_post_init_def str_strip_def is_space_def
        split: sum.splits prod.splits awaited.splits)
  from c obtain model out now w1 r l1 w2 u t rec where
    req: "qwen_request (review_body v item) = Inr (model, out)"
    and clock: "qw_clock ?q w = (now, w1)" "qw_clock ?q w2 = (t, w')"
    and au: "authorize (qw_guard ?q) model (qw_deployment_scope ?q) 200 out (Aware now) l = (Inr r, l1)"
    and tr: "qw_transport ?q (review_body v item) (qw_api_key ?q) w1 = (Finished (Inr response), w2)"
    and u: "qwen_usage response = Inr u"
    and named: "str_strip (json_str (dict_get response ''id'' (JStr []))) \<noteq> []"
    and rec: "finops_record (qw_guard ?q) r (str_strip (json_str (dict_get response ''id'' (JStr [])))) model
      (qw_deployment_scope ?q) ?attr u (Aware t) l1 = (Inr rec, l')"
    by (rule qwen_complete_InrE)
  note mo = review_request [OF req]
  have l1: "l1 = l\<lparr>fl_reservations := AList.update (rv_reservation_id r) r (fl_reservations l)\<rparr>"
    using au by (rule authorize_InrE)
  have gone: "fl_reservations l' = AList.delete (rv_reservation_id r) (fl_reservations l1)"
    using rec by (rule record_InrE)
  have "books v item response u t rec" using booked [OF rec [unfolded conjunct1 [OF mo]] named] .
  moreover have "fl_reservations l' = AList.delete (rv_reservation_id r) (fl_reservations l)"
    using gone by (simp add: l1 delete_update_same)
  ultimately show ?thesis
    using clock au tr mo record_books [OF rec] qwen_usage_reports [OF u] review_verdict_replied [OF answer assms(2)]
    by (intro exI [of _ now] exI [of _ w1] exI [of _ r] exI [of _ l1] exI [of _ response] exI [of _ w2]
        exI [of _ t] exI [of _ u] exI [of _ rec]) (simp add: l1)
qed

text \<open>A gateway whose transport always ends one way, at an instant that never changes.\<close>

definition ex_reviewer :: "json_object awaited \<Rightarrow> unit qwen_reviewer" where
  "ex_reviewer outcome =
     \<lparr>qr_gateway = \<lparr>qw_guard = ex_finops_guard\<lparr>fg_policy := \<lparr>bp_daily_request_limit = 1,
          bp_daily_token_limit = 1000, bp_daily_cost_limit_usd = 1, bp_alert_thresholds = []\<rparr>\<rparr>,
        qw_transport = (\<lambda>_ _ w. (outcome, w)), qw_api_key = ''key'', qw_deployment_scope = ''global'',
        qw_clock = (\<lambda>w. (0, w))\<rparr>,
      qr_model = ''qwen-max'', qr_max_output_tokens = 16, qr_timeout = Fin 8\<rparr>"

definition ex_response :: json_object where
  "ex_response = [(''id'', JStr ''q1''),
     (''choices'', JList [JObj [(''message'', JObj [(''content'', JStr ''pass'')])]]),
     (''usage'', JObj [(''prompt_tokens'', JInt 40), (''completion_tokens'', JInt 1)])]"

lemma ex_response_verdict: "review_verdict ex_response = Inr LLM_PASS"
  by (simp add: review_verdict_def ex_response_def dict_get_def json_str_def str_strip_def is_space_def
      upper_table_def upper_char_def, simp add: char_of_def bit_0)

lemma ex_response_usage:
  "qwen_usage ex_response = Inr \<lparr>tu_input_tokens = 40, tu_output_tokens = 1, tu_cached_input_tokens = 0,
     tu_reasoning_tokens = 0\<rparr>"
  by (simp add: qwen_usage_def ex_response_def dict_get_def details_count_def json_int_def
      token_usage_post_init_def)

lemma ex_response_id: "str_strip (json_str (dict_get ex_response ''id'' (JStr []))) = ''q1''"
  by (simp add: ex_response_def dict_get_def json_str_def str_strip_def is_space_def)

lemma ex_request: "qwen_request (review_body (ex_reviewer outcome) item) = Inr (''qwen-max'', 16)"
  by (simp add: qwen_request_def review_body_def ex_reviewer_def dict_get_def json_str_def json_int_def
      str_strip_def is_space_def)

lemma ex_authorize:
  "\<exists>r. authorize (qw_guard (qr_gateway (ex_reviewer outcome))) ''qwen-max'' ''global'' 200 16 (Aware 0)
       finops_ledger_init = (Inr r, finops_ledger_init\<lparr>fl_reservations := [(rv_reservation_id r, r)]\<rparr>)"
  by (simp add: finops_eval ex_reviewer_def Let_def)

lemma ex_review_passes:
  "\<exists>l'. candidate_review (ex_reviewer (Finished (Inr ex_response))) item (finops_ledger_init, ()) = (LLM_PASS, (l', ()))"
proof -
  obtain r where r: "authorize (qw_guard (qr_gateway (ex_reviewer (Finished (Inr ex_response))))) ''qwen-max'' ''global''
      200 16 (Aware 0) finops_ledger_init = (Inr r, finops_ledger_init\<lparr>fl_reservations := [(rv_reservation_id r, r)]\<rparr>)"
    (is "_ = (_, ?l)") using ex_authorize by blast
  have "\<exists>l' w'. qwen_settle (qr_gateway (ex_reviewer (Finished (Inr ex_response)))) r ''qwen-max'' attr
      (Inr ex_response) (?l, ()) = (Inr ex_response, (l', w'))" for attr
    by (simp add: qwen_settle_def lift_st_def return_st_def zoom_def bind_st_def Let_def ex_response_usage
        ex_response_id finops_record_def ex_reviewer_def usage_cost_def ex_finops_guard_def finops_ledger_init_def)
  then obtain l' w' where "qwen_settle (qr_gateway (ex_reviewer (Finished (Inr ex_response)))) r ''qwen-max''
      \<lparr>at_market = Some (si_market (dc_identity (sr_candidate item))),
       at_component = ''paper-decision-review'', at_reason = ''shadow-review''\<rparr>
      (Inr ex_response) (?l, ()) = (Inr ex_response, (l', w'))" by blast
  then show ?thesis using r ex_request [of "Finished (Inr ex_response)" item]
    by (simp add: candidate_review_def review_async_def qwen_complete_def wait_for_def
        attribution_post_init_def str_strip_def is_space_def ex_reviewer_def ex_response_verdict)
qed

theorem verdict_is_accounted_witness:
  "\<forall>item. \<exists>l' rec. candidate_review (ex_reviewer (Finished (Inr ex_response))) item (finops_ledger_init, ())
        = (LLM_PASS, (l', ()))
    \<and> map_of (fl_records l') = [stable_id [fg_provider ex_finops_guard, ''q1''] \<mapsto> rec]
    \<and> ur_provider_request_id rec = ''q1'' \<and> tu_input_tokens (ur_usage rec) = 40
    \<and> tu_output_tokens (ur_usage rec) = 1 \<and> fl_reservations l' = []"
proof
  fix item
  let ?v = "ex_reviewer (Finished (Inr ex_response))"
  obtain l' where r: "candidate_review ?v item (finops_ledger_init, ()) = (LLM_PASS, (l', ()))"
    using ex_review_passes by blast
  have tr: "qw_transport (qr_gateway ?v) b k w = (Finished (Inr ex_response), w)" for b k w
    by (simp add: ex_reviewer_def)
  from verdict_is_accounted [OF r] obtain u t rec where
    *: "reports_usage ex_response u" "books ?v item ex_response u t rec"
      "map_of (fl_records l') = (map_of (fl_records finops_ledger_init))(ur_record_id rec \<mapsto> rec)"
      "\<exists>k. fl_reservations l' = AList.delete k (fl_reservations finops_ledger_init)"
    by (fastforce simp: tr)
  have "tu_input_tokens u = 40 \<and> tu_output_tokens u = 1"
    using *(1) by (auto simp: reports_usage_def ex_response_def count_of_def json_int_def)
  moreover have "ur_provider_request_id rec = ''q1'' \<and> ur_usage rec = u
      \<and> ur_record_id rec = stable_id [fg_provider ex_finops_guard, ''q1'']"
    using *(2) ex_response_id by (auto simp: books_def ex_response_def dict_get_def ex_reviewer_def)
  ultimately show "\<exists>l' rec. candidate_review ?v item (finops_ledger_init, ()) = (LLM_PASS, (l', ()))
    \<and> map_of (fl_records l') = [stable_id [fg_provider ex_finops_guard, ''q1''] \<mapsto> rec]
    \<and> ur_provider_request_id rec = ''q1'' \<and> tu_input_tokens (ur_usage rec) = 40
    \<and> tu_output_tokens (ur_usage rec) = 1 \<and> fl_reservations l' = []"
    using r *(3,4) by (intro exI [of _ l'] exI [of _ rec]) (auto simp: finops_ledger_init_def)
qed

section \<open>Time-outs\<close>

text \<open>Reservations alone can use the day's requests up, whatever the day.\<close>

lemma authorize_exhausted:
  assumes "bp_daily_request_limit (fg_policy g) \<le> int (length (fl_reservations l))"
  shows "\<exists>e l'. authorize g model scope i out t l = (Inl e, l')"
proof (cases "authorize g model scope i out t l")
  case (Pair r l')
  have "\<not> (\<exists>rv. r = Inr rv)"
  proof
    assume "\<exists>rv. r = Inr rv"
    then obtain rv where "authorize g model scope i out t l = (Inr rv, l')" using Pair by blast
    then obtain now cost where "budget_reason g (projected_usage l now (i + out) cost) = None"
      by (rule authorize_InrE)
    then show False using assms
      by (auto simp: budget_reason_def projected_usage_def reserved_def daily_def Let_def split: if_splits)
  qed
  then show ?thesis using Pair by (cases r) auto
qed

text \<open>
  A time-out keeps the reservation.  A review that \<open>wait_for\<close> cancels while the transport
  runs answers UNAVAILABLE but leaves its reservation on the ledger, because the handler of
  the gateway catches \<open>Exception\<close> only; once the reservations left this way reach the daily
  request limit, every later review, on any day and with any transport, is refused before
  the transport is called.
\<close>

theorem timed_out_review_keeps_reservation:
  assumes "qwen_request (review_body v item) = Inr (model, out)"
    and "qw_clock (qr_gateway v) w = (now, w1)"
    and "authorize (qw_guard (qr_gateway v)) model (qw_deployment_scope (qr_gateway v)) 200 out (Aware now) l = (Inr r, l1)"
    and "qw_transport (qr_gateway v) (review_body v item) (qw_api_key (qr_gateway v)) w1 = (Cancelled, w2)"
  shows "candidate_review v item (l, w) = (LLM_UNAVAILABLE, (l1, w2))
    \<and> map_of (fl_reservations l1) (rv_reservation_id r) = Some r
    \<and> (bp_daily_request_limit (fg_policy (qw_guard (qr_gateway v))) \<le> int (length (fl_reservations l1))
       \<longrightarrow> (\<forall>item' w' transport. \<exists>l2.
             \<exists>w3 \<in> {w', snd (qw_clock (qr_gateway v) w')}.
             candidate_review (v\<lparr>qr_gateway := (qr_gateway v)\<lparr>qw_transport := transport\<rparr>\<rparr>) item' (l1, w')
               = (LLM_UNAVAILABLE, (l2, w3))))"
proof (intro conjI impI allI)
  show "candidate_review v item (l, w) = (LLM_UNAVAILABLE, (l1, w2))"
    using assms by (simp add: candidate_review_def review_async_def qwen_complete_def wait_for_def
        attribution_post_init_def str_strip_def is_space_def)
  show "map_of (fl_reservations l1) (rv_reservation_id r) = Some r"
    using assms(3) by (rule authorize_InrE) simp
next
  fix item' w' transport
  assume "bp_daily_request_limit (fg_policy (qw_guard (qr_gateway v))) \<le> int (length (fl_reservations l1))"
  then have a: "\<exists>e l2. authorize (qw_guard (qr_gateway v)) m sc i out' t l1 = (Inl e, l2)" for m sc i out' t
    by (rule authorize_exhausted)
  show "\<exists>l2. \<exists>w3 \<in> {w', snd (qw_clock (qr_gateway v) w')}.
      candidate_review (v\<lparr>qr_gateway := (qr_gateway v)\<lparr>qw_transport := transport\<rparr>\<rparr>) item' (l1, w')
        = (LLM_UNAVAILABLE, (l2, w3))"
  proof (cases "qwen_request (review_body (v\<lparr>qr_gateway := (qr_gateway v)\<lparr>qw_transport := transport\<rparr>\<rparr>) item')")
    case (Inl e)
    then show ?thesis by (simp add: candidate_review_def review_async_def qwen_complete_def wait_for_def
        attribution_post_init_def str_strip_def is_space_def)
  next
    case (Inr mo)
    obtain m out' where mo: "mo = (m, out')" by (cases mo)
    obtain t w3 where c: "qw_clock (qr_gateway v) w' = (t, w3)" by (cases "qw_clock (qr_gateway v) w'")
    obtain e l2 where "authorize (qw_guard (qr_gateway v)) m (qw_deployment_scope (qr_gateway v)) 200 out' (Aware t) l1
        = (Inl e, l2)" using a by blast
    then show ?thesis using Inr mo c by (simp add: candidate_review_def review_async_def qwen_complete_def
        wait_for_def attribution_post_init_def str_strip_def is_space_def)
  qed
qed

theorem timed_out_review_keeps_reservation_witness:
  "\<exists>l1. \<forall>item. candidate_review (ex_reviewer Cancelled) item (finops_ledger_init, ()) = (LLM_UNAVAILABLE, (l1, ()))
    \<and> length (fl_reservations l1) = 1
    \<and> (\<exists>l2. candidate_review ((ex_reviewer Cancelled)\<lparr>qr_gateway := (qr_gateway (ex_reviewer Cancelled))
           \<lparr>qw_transport := \<lambda>_ _ w. (Finished (Inr ex_response), w)\<rparr>\<rparr>) item (l1, ()) = (LLM_UNAVAILABLE, (l2, ())))"
proof -
  obtain r where r: "authorize (qw_guard (qr_gateway (ex_reviewer Cancelled))) ''qwen-max'' ''global''
      200 16 (Aware 0) finops_ledger_init = (Inr r, finops_ledger_init\<lparr>fl_reservations := [(rv_reservation_id r, r)]\<rparr>)"
    (is "_ = (_, ?l)") using ex_authorize by blast
  have f: "qw_clock (qr_gateway (ex_reviewer Cancelled)) () = (0, ())"
    "qw_deployment_scope (qr_gateway (ex_reviewer Cancelled)) = ''global''"
    "qw_transport (qr_gateway (ex_reviewer Cancelled)) b k () = (Cancelled, ())" for b k
    by (simp_all add: ex_reviewer_def)
  have "bp_daily_request_limit (fg_policy (qw_guard (qr_gateway (ex_reviewer Cancelled))))
      \<le> int (length (fl_reservations ?l))" by (simp add: ex_reviewer_def)
  then show ?thesis
    using timed_out_review_keeps_reservation [OF ex_request f(1) _ f(3), unfolded f(2), OF r]
    by (intro exI [of _ ?l]) simp
qed

end
