(* ===== verification/Nse_Validation.thy ===== *)
theory Nse_Validation
  imports Technical_Features Technical_Total Timeframes
begin

text \<open>
  The credentialed NSE research of src/src/nanodelta/validation: readiness of the candle
  history and the walk-forward evaluation of one plugin (nse.py), the service that records
  the evidence and promotes it to a paper approval (service.py), and the plugin selection
  of the runner (runner.py).  A candle's open time is checked to be aware and kept as it is;
  how Python shows such a datetime depends on the time zone object the database driver
  attached, so \<open>str\<close> and \<open>repr\<close> of a datetime are parameters.
\<close>

section \<open>Data\<close>

datatype research_state = STATE_RESEARCH | STATE_FAILED

record nse_cost_model =
  cm_brokerage_bps :: pyfloat
  cm_taxes_and_fees_bps :: pyfloat
  cm_slippage_bps :: pyfloat

definition nse_cost_model_post_init :: "nse_cost_model \<Rightarrow> nse_cost_model result" where
  "nse_cost_model_post_init m =
     (if \<exists>v \<in> set [cm_brokerage_bps m, cm_taxes_and_fees_bps m, cm_slippage_bps m]. \<not> isfinite v \<or> v < 0
        then Inl (ValueError ''cost assumptions must be finite and non-negative'') else Inr m)"

definition round_trip_fraction :: "nse_cost_model \<Rightarrow> pyfloat" where
  "round_trip_fraction m = fquot (cm_brokerage_bps m + cm_taxes_and_fees_bps m + cm_slippage_bps m) (Fin 10000)"

definition required_nse_timeframes :: "string list" where
  "required_nse_timeframes = [''5m'', ''15m'', ''30m'', ''1h'']"

definition minimum_bars_per_session :: "(string, int) dict" where
  "minimum_bars_per_session = [(''5m'', 75), (''15m'', 25), (''30m'', 12), (''1h'', 6)]"

record nse_config =
  nv_minimum_history_days :: int
  nv_required_timeframes :: "string list"
  nv_walk_forward_windows :: int
  nv_minimum_session_coverage :: pyfloat
  nv_maximum_last_bar_age :: int
  nv_tested_hypotheses :: int
  nv_cost_model :: nse_cost_model
  nv_policy :: validation_policy

definition nse_config_post_init :: "nse_config \<Rightarrow> nse_config result" where
  "nse_config_post_init c =
     (if nv_minimum_history_days c < 730
        then Inl (ValueError ''NSE credentialed validation requires at least 730 history days'')
      else if nv_walk_forward_windows c < 2 \<or> nv_tested_hypotheses c < 1
        then Inl (ValueError ''walk-forward windows and hypotheses are invalid'')
      else if \<not> (rnd64 (8 / 10) \<le> nv_minimum_session_coverage c \<and> nv_minimum_session_coverage c \<le> 1)
        then Inl (ValueError ''minimum_session_coverage must be in [0.8, 1]'')
      else if length (nv_required_timeframes c) \<noteq> length required_nse_timeframes
            \<or> set (nv_required_timeframes c) \<noteq> set required_nse_timeframes
        then Inl (ValueError ''NSE readiness must cover 5m, 15m, 30m, and 1h'')
      else if nv_maximum_last_bar_age c \<le> 0
        then Inl (ValueError ''maximum_last_bar_age must be positive'')
      else Inr c)"

record settled_candle_nse =
  sn_symbol :: string
  sn_timeframe :: string
  sn_open_time :: datetime
  sn_open :: pyfloat
  sn_high :: pyfloat
  sn_low :: pyfloat
  sn_close :: pyfloat
  sn_volume :: pyfloat
  sn_provider :: provider

definition settled_candle_nse_post_init :: "settled_candle_nse \<Rightarrow> settled_candle_nse result" where
  "settled_candle_nse_post_init k =
     (if str_strip (sn_symbol k) = [] \<or> str_strip (sn_timeframe k) = []
        then Inl (ValueError ''candle symbol and timeframe are required'')
      else bind_r (utc (sn_open_time k) ''open_time'') (\<lambda>_.
        if \<exists>v \<in> set [sn_open k, sn_high k, sn_low k, sn_close k, sn_volume k]. \<not> isfinite v
          then Inl (ValueError ''candle values must be finite'')
        else if min_of [sn_open k, sn_high k, sn_low k, sn_close k] \<le> 0 \<or> sn_volume k < 0
          then Inl (ValueError ''candle prices and volume are invalid'')
        else if py_min (sn_open k) (sn_close k) < sn_low k \<or> sn_high k < py_max (sn_open k) (sn_close k)
          then Inl (ValueError ''candle OHLC is inconsistent'')
        else Inr k))"

definition open_at :: "settled_candle_nse \<Rightarrow> instant" where
  "open_at k = instant_of (sn_open_time k)"

record readiness_evidence =
  rn_readiness_id :: string
  rn_campaign_id :: string
  rn_symbol :: string
  rn_timeframe :: string
  rn_first_open :: "datetime option"
  rn_last_open :: "datetime option"
  rn_settled_count :: int
  rn_minimum_settled_count :: int
  rn_history_days :: int
  rn_ready :: bool
  rn_reasons :: "string list"
  rn_source_fingerprint :: string

record walk_forward_window =
  wf_index :: int
  wf_started_at :: "datetime option"
  wf_ended_at :: "datetime option"
  wf_trade_count :: int
  wf_gross_expectancy :: pyfloat
  wf_net_expectancy :: pyfloat
  wf_profitable :: bool

record strategy_evidence =
  ne_evidence_id :: string
  ne_campaign_id :: string
  ne_validation :: validation_result
  ne_state :: research_state
  ne_data_fingerprint :: string
  ne_windows :: "walk_forward_window list"
  ne_cost_model :: nse_cost_model
  ne_stressed_net_expectancy :: pyfloat

record nse_campaign =
  ca_campaign_id :: string
  ca_evaluated_at :: instant
  ca_requested_start :: instant
  ca_requested_end :: instant
  ca_symbols :: "string list"
  ca_config :: nse_config
  ca_source_provider :: provider

text \<open>\<open>repr\<close> of the frozen dataclasses that enter identifiers.\<close>

definition repr_bool :: "bool \<Rightarrow> string" where
  "repr_bool b = (if b then ''True'' else ''False'')"

definition repr_timedelta :: "int \<Rightarrow> string" where
  "repr_timedelta d =
     (let days = d div us_per_day; seconds = d mod us_per_day div us_per_second; us = d mod us_per_second;
          parts = (if days = 0 then [] else [''days='' @ str_of_int days])
            @ (if seconds = 0 then [] else [''seconds='' @ str_of_int seconds])
            @ (if us = 0 then [] else [''microseconds='' @ str_of_int us])
      in ''datetime.timedelta('' @ (if parts = [] then ''0'' else str_join '', '' parts) @ '')'')"

definition repr_cost_model :: "nse_cost_model \<Rightarrow> string" where
  "repr_cost_model m =
     ''NseCostModel(brokerage_bps='' @ str_of_float (cm_brokerage_bps m)
     @ '', taxes_and_fees_bps='' @ str_of_float (cm_taxes_and_fees_bps m)
     @ '', slippage_bps='' @ str_of_float (cm_slippage_bps m) @ '')''"

definition repr_config :: "nse_config \<Rightarrow> string" where
  "repr_config c =
     ''NseValidationConfig(minimum_history_days='' @ str_of_int (nv_minimum_history_days c)
     @ '', required_timeframes='' @ repr_tuple (map repr_str (nv_required_timeframes c))
     @ '', walk_forward_windows='' @ str_of_int (nv_walk_forward_windows c)
     @ '', minimum_session_coverage='' @ str_of_float (nv_minimum_session_coverage c)
     @ '', maximum_last_bar_age='' @ repr_timedelta (nv_maximum_last_bar_age c)
     @ '', tested_hypotheses='' @ str_of_int (nv_tested_hypotheses c)
     @ '', cost_model='' @ repr_cost_model (nv_cost_model c)
     @ '', policy='' @ str_of_policy (nv_policy c) @ '')''"

definition repr_window :: "(datetime \<Rightarrow> string) \<Rightarrow> walk_forward_window \<Rightarrow> string" where
  "repr_window repr_dt w =
     (let opt = (\<lambda>t. case t of None \<Rightarrow> ''None'' | Some t \<Rightarrow> repr_dt t) in
      ''WalkForwardWindow(index='' @ str_of_int (wf_index w)
      @ '', started_at='' @ opt (wf_started_at w) @ '', ended_at='' @ opt (wf_ended_at w)
      @ '', trade_count='' @ str_of_int (wf_trade_count w)
      @ '', gross_expectancy='' @ str_of_float (wf_gross_expectancy w)
      @ '', net_expectancy='' @ str_of_float (wf_net_expectancy w)
      @ '', profitable='' @ repr_bool (wf_profitable w) @ '')'')"

text \<open>\<open>NseValidationCampaign.create\<close>\<close>

definition campaign_symbols :: "string list \<Rightarrow> string list" where
  "campaign_symbols symbols =
     py_sorted (<) (dict_fromkeys (map (\<lambda>s. str_upper (str_strip s)) (filter (\<lambda>s. str_strip s \<noteq> []) symbols)))"

definition campaign_create :: "datetime \<Rightarrow> string list \<Rightarrow> nse_config \<Rightarrow> nse_campaign result" where
  "campaign_create evaluated_at_t symbols config =
     bind_r (utc evaluated_at_t ''evaluated_at'') (\<lambda>evaluated_at.
     if campaign_symbols symbols = []
       then Inl (ValueError ''validation campaign requires at least one NSE symbol'')
     else bind_r (dt_add evaluated_at (- (nv_minimum_history_days config * us_per_day))) (\<lambda>requested_start.
       Inr \<lparr>ca_campaign_id = stable_id [''nse-validation'', isoformat evaluated_at,
              repr_tuple (map repr_str (campaign_symbols symbols)), repr_config config, provider_value DHAN],
            ca_evaluated_at = evaluated_at, ca_requested_start = requested_start,
            ca_requested_end = evaluated_at, ca_symbols = campaign_symbols symbols, ca_config = config,
            ca_source_provider = DHAN\<rparr>))"

section \<open>Readiness\<close>

definition candle_key_lt :: "settled_candle_nse \<Rightarrow> settled_candle_nse \<Rightarrow> bool" where
  "candle_key_lt a b \<longleftrightarrow> (sn_symbol a, sn_timeframe a, open_at a) < (sn_symbol b, sn_timeframe b, open_at b)"

definition open_lt :: "settled_candle_nse \<Rightarrow> settled_candle_nse \<Rightarrow> bool" where
  "open_lt a b \<longleftrightarrow> open_at a < open_at b"

definition fingerprint_line :: "settled_candle_nse \<Rightarrow> string" where
  "fingerprint_line k =
     json_encode (JList [JStr (sn_symbol k), JStr (sn_timeframe k), JStr (isoformat (open_at k)),
       JFloat (sn_open k), JFloat (sn_high k), JFloat (sn_low k), JFloat (sn_close k), JFloat (sn_volume k),
       JStr (provider_value (sn_provider k))]) @ [CHR 0x0A]"

definition fingerprint :: "settled_candle_nse list \<Rightarrow> string" where
  "fingerprint candles = sha256_hex (concat (map fingerprint_line (py_sorted candle_key_lt candles)))"

text \<open>The days of a range that are no weekend; stepping past the last representable date raises.\<close>

definition weekday_count :: "int \<Rightarrow> int \<Rightarrow> int result" where
  "weekday_count start_day end_day =
     (if start_day \<le> end_day \<and> date_of dt_max \<le> end_day then Inl (OverflowError ''date value out of range'')
      else Inr (int (length (filter (\<lambda>d. (d + 3) mod 7 < 5) [start_day..end_day]))))"

text \<open>\<open>math.floor\<close> of a float.\<close>

definition float_floor :: "pyfloat \<Rightarrow> int result" where
  "float_floor x =
     (case x of
        Fin q \<Rightarrow> Inr \<lfloor>q\<rfloor>
      | NaN \<Rightarrow> Inl (ValueError ''cannot convert float NaN to integer'')
      | _ \<Rightarrow> Inl (OverflowError ''cannot convert float infinity to integer''))"

definition readiness_rows :: "nse_campaign \<Rightarrow> settled_candle_nse list \<Rightarrow> string \<Rightarrow> string \<Rightarrow> settled_candle_nse list" where
  "readiness_rows c candles symbol timeframe =
     py_sorted open_lt
       (filter (\<lambda>k. sn_symbol k \<in> set (ca_symbols c) \<and> open_at k \<le> ca_requested_end c
                    \<and> sn_symbol k = symbol \<and> sn_timeframe k = timeframe) candles)"

definition coverage_rows :: "nse_campaign \<Rightarrow> settled_candle_nse list \<Rightarrow> settled_candle_nse list" where
  "coverage_rows c rows = filter (\<lambda>k. ca_requested_start c \<le> open_at k) rows"

definition minimum_count :: "nse_campaign \<Rightarrow> int \<Rightarrow> string \<Rightarrow> int result" where
  "minimum_count c expected_sessions timeframe =
     (case map_of minimum_bars_per_session timeframe of
        None \<Rightarrow> Inl (KeyError timeframe)
      | Some bars \<Rightarrow> bind_r (int_float (expected_sessions * bars)) (\<lambda>n.
          float_floor (n * nv_minimum_session_coverage (ca_config c))))"

definition readiness_reasons :: "nse_campaign \<Rightarrow> settled_candle_nse list \<Rightarrow> int \<Rightarrow> string list" where
  "readiness_reasons c rows needed =
     (if rows = [] then [''NO_SETTLED_DHAN_CANDLES''] else [])
   @ (if \<exists>k \<in> set rows. sn_provider k \<noteq> DHAN then [''NON_DHAN_SOURCE''] else [])
   @ (if rows = [] \<or> ca_requested_start c < open_at (hd rows) then [''LESS_THAN_TWO_YEARS_HISTORY''] else [])
   @ (if rows = [] \<or> nv_maximum_last_bar_age (ca_config c) < ca_requested_end c - open_at (last rows)
        then [''LATEST_CANDLE_STALE''] else [])
   @ (if int (length (coverage_rows c rows)) < needed then [''INSUFFICIENT_SETTLED_CANDLE_COVERAGE''] else [])"

definition readiness_item ::
  "nse_campaign \<Rightarrow> settled_candle_nse list \<Rightarrow> int \<Rightarrow> string \<times> string \<Rightarrow> readiness_evidence result" where
  "readiness_item c candles expected_sessions = (\<lambda>(symbol, timeframe).
     let rows = readiness_rows c candles symbol timeframe in
     bind_r (minimum_count c expected_sessions timeframe) (\<lambda>needed.
       let reasons = readiness_reasons c rows needed; mark = fingerprint rows in
       Inr \<lparr>rn_readiness_id = stable_id [ca_campaign_id c, symbol, timeframe, mark],
            rn_campaign_id = ca_campaign_id c, rn_symbol = symbol, rn_timeframe = timeframe,
            rn_first_open = (if rows = [] then None else Some (sn_open_time (hd rows))),
            rn_last_open = (if rows = [] then None else Some (sn_open_time (last rows))),
            rn_settled_count = int (length (coverage_rows c rows)), rn_minimum_settled_count = needed,
            rn_history_days = (if rows = [] then 0 else (open_at (last rows) - open_at (hd rows)) div us_per_day),
            rn_ready = (reasons = []), rn_reasons = reasons, rn_source_fingerprint = mark\<rparr>))"

definition expected_readiness :: "nse_campaign \<Rightarrow> (string \<times> string) list" where
  "expected_readiness c =
     concat (map (\<lambda>s. map (\<lambda>t. (s, t)) (nv_required_timeframes (ca_config c))) (ca_symbols c))"

definition evaluate_nse_readiness ::
  "nse_campaign \<Rightarrow> settled_candle_nse list \<Rightarrow> readiness_evidence list result" where
  "evaluate_nse_readiness c candles =
     bind_r (weekday_count (date_of (ca_requested_start c)) (date_of (ca_requested_end c))) (\<lambda>expected_sessions.
     map_r (readiness_item c candles expected_sessions) (expected_readiness c))"

section \<open>The evaluation of one plugin\<close>

text \<open>The candles of a symbol in the plugin's timeframe, symbols in order.\<close>

definition nse_series ::
  "nse_campaign \<Rightarrow> strategy_identity \<Rightarrow> settled_candle_nse list \<Rightarrow> (string \<times> settled_candle_nse list) list" where
  "nse_series c identity candles =
     (let kept = filter (\<lambda>k. sn_symbol k \<in> set (ca_symbols c) \<and> sn_timeframe k = si_timeframe identity
                     \<and> sn_provider k = DHAN \<and> open_at k \<le> ca_requested_end c) candles
      in map (\<lambda>s. (s, py_sorted open_lt (filter (\<lambda>k. sn_symbol k = s) kept)))
           (py_sorted (<) (dict_fromkeys (map sn_symbol kept))))"

definition technical_of :: "settled_candle_nse \<Rightarrow> technical_candle result" where
  "technical_of k =
     technical_candle_post_init \<lparr>tc_event_time = sn_open_time k, tc_open = sn_open k, tc_high = sn_high k,
       tc_low = sn_low k, tc_close = sn_close k, tc_volume = sn_volume k, tc_settled = True\<rparr>"

text \<open>Two dictionaries keyed by open time; the last entry of a key wins.\<close>

definition next_close :: "settled_candle_nse list \<Rightarrow> instant \<Rightarrow> pyfloat option" where
  "next_close rows =
     (let closes = map_of (rev (map (\<lambda>k. (open_at k, sn_close k)) rows)); times = map open_at rows
      in map_of (rev (map (\<lambda>(opened, following). (opened, the (closes following))) (zip times (tl times)))))"

type_synonym nse_trade = "datetime \<times> string \<times> pyfloat"

definition nse_context ::
  "(datetime \<Rightarrow> string) \<Rightarrow> strategy_identity \<Rightarrow> string \<Rightarrow> technical_snapshot \<Rightarrow> strategy_context result" where
  "nse_context str_dt identity symbol s =
     strategy_context_post_init
       \<lparr>sc_market = si_market identity, sc_symbol = symbol, sc_sector = None,
        sc_timeframe = si_timeframe identity, sc_trade_horizon = si_trade_horizon identity,
        sc_feature_set_version = si_feature_set_version identity, sc_event_time = ts_event_time s,
        sc_gold_snapshot_ids = [stable_id [symbol, si_timeframe identity, str_dt (ts_event_time s)]],
        sc_features = ts_values s, sc_settled = True, sc_complete = True, sc_adjusted = True, sc_fresh = True,
        sc_warm = True, sc_tradeable = True, sc_tradeability_reason = ''TRADEABLE'',
        sc_regime = default_regime\<rparr>"

definition snapshot_trades ::
  "(datetime \<Rightarrow> string) \<Rightarrow> nse_campaign \<Rightarrow> strategy_plugin \<Rightarrow> string \<Rightarrow> (instant \<Rightarrow> pyfloat option)
     \<Rightarrow> technical_snapshot \<Rightarrow> nse_trade list result" where
  "snapshot_trades str_dt c p symbol following_close s =
     (let t = instant_of (ts_event_time s) in
      if \<not> (ca_requested_start c \<le> t \<and> t \<le> ca_requested_end c) then Inr []
      else case following_close t of
        None \<Rightarrow> Inr []
      | Some following \<Rightarrow>
          bind_r (nse_context str_dt (sd_identity (sp_definition p)) symbol s) (\<lambda>context.
          bind_r (sp_compatibility p context) (\<lambda>(compatible, _).
          bind_r (if compatible then sp_generate p context else Inr None) (\<lambda>signal.
            case signal of
              None \<Rightarrow> Inr []
            | Some g \<Rightarrow> bind_r (trade_return g following) (\<lambda>gross. Inr [(ts_event_time s, symbol, gross)])))))"

definition series_trades ::
  "(datetime \<Rightarrow> string) \<Rightarrow> nse_campaign \<Rightarrow> strategy_plugin \<Rightarrow> string \<times> settled_candle_nse list \<Rightarrow> nse_trade list result" where
  "series_trades str_dt c p = (\<lambda>(symbol, rows).
     bind_r (map_r technical_of rows) (\<lambda>candles.
     bind_r (materialize_technical_features 14 14 14 (Fin 3) candles) (\<lambda>snapshots.
     bind_r (map_r (snapshot_trades str_dt c p symbol (next_close rows)) snapshots) (\<lambda>trades.
       Inr (concat trades)))))"

definition trade_lt :: "nse_trade \<Rightarrow> nse_trade \<Rightarrow> bool" where
  "trade_lt a b \<longleftrightarrow> (instant_of (fst a), fst (snd a)) < (instant_of (fst b), fst (snd b))"

definition ordered_trades ::
  "(datetime \<Rightarrow> string) \<Rightarrow> nse_campaign \<Rightarrow> strategy_plugin \<Rightarrow> settled_candle_nse list \<Rightarrow> nse_trade list result" where
  "ordered_trades str_dt c p candles =
     bind_r (map_r (series_trades str_dt c p) (nse_series c (sd_identity (sp_definition p)) candles)) (\<lambda>trades.
       Inr (py_sorted trade_lt (concat trades)))"

text \<open>The walk-forward folds: the trade of index \<open>i\<close> goes to one of \<open>n\<close> windows.\<close>

definition fold_slot :: "nat \<Rightarrow> nat \<Rightarrow> nat \<Rightarrow> nat" where
  "fold_slot n len i = min (n - 1) (i * n div max 1 len)"

definition window_rows :: "nat \<Rightarrow> 'a list \<Rightarrow> 'a list list" where
  "window_rows n xs =
     foldl (\<lambda>ws (i, x). let slot = fold_slot n (length xs) i in ws[slot := ws ! slot @ [x]])
       (replicate n []) (enumerate 0 xs)"

definition mean_return :: "pyfloat list \<Rightarrow> pyfloat result" where
  "mean_return returns =
     (if returns = [] then Inr 0
      else bind_r (int_float (int (length returns))) (\<lambda>n. py_div (py_sum returns) n))"

definition walk_window :: "pyfloat \<Rightarrow> nat \<times> nse_trade list \<Rightarrow> walk_forward_window result" where
  "walk_window cost = (\<lambda>(i, rows).
     bind_r (mean_return (map (\<lambda>(_, _, r). r) rows)) (\<lambda>gross.
       let net = (if rows = [] then 0 else gross - cost) in
       Inr \<lparr>wf_index = int i + 1, wf_started_at = (if rows = [] then None else Some (fst (hd rows))),
            wf_ended_at = (if rows = [] then None else Some (fst (last rows))),
            wf_trade_count = int (length rows), wf_gross_expectancy = gross, wf_net_expectancy = net,
            wf_profitable = (rows \<noteq> [] \<and> 0 < net)\<rparr>))"

definition walk_windows :: "nat \<Rightarrow> pyfloat \<Rightarrow> nse_trade list \<Rightarrow> walk_forward_window list result" where
  "walk_windows n cost trades = map_r (walk_window cost) (enumerate 0 (window_rows n trades))"

definition nse_metrics ::
  "nse_config \<Rightarrow> walk_forward_window list \<Rightarrow> nse_trade list \<Rightarrow> validation_metrics result" where
  "nse_metrics config windows trades =
     (let cost = round_trip_fraction (nv_cost_model config); returns = map (\<lambda>(_, _, r). r) trades in
      bind_r (mean_return returns) (\<lambda>gross.
      bind_r (maximum_drawdown (map (\<lambda>v. v - cost) returns)) (\<lambda>drawdown.
      bind_r (one_sided_sign_test (int (length (filter (\<lambda>v. cost < v) returns))) (int (length returns))) (\<lambda>p_value.
        Inr \<lparr>vm_trade_count = int (length returns), vm_walk_forward_windows = int (length windows),
             vm_profitable_windows = int (length (filter wf_profitable windows)),
             vm_gross_expectancy = gross, vm_estimated_cost_per_trade = cost,
             vm_maximum_drawdown = drawdown, vm_p_value = p_value,
             vm_tested_hypotheses = nv_tested_hypotheses config\<rparr>))))"

definition missing_readiness :: "nse_campaign \<Rightarrow> readiness_evidence list \<Rightarrow> string list" where
  "missing_readiness c readiness =
     (if (\<lambda>r. (rn_symbol r, rn_timeframe r)) ` set readiness \<noteq> set (expected_readiness c)
      then [''MISSING_READINESS_EVIDENCE''] else [])"

definition readiness_failures :: "nse_campaign \<Rightarrow> readiness_evidence list \<Rightarrow> string list" where
  "readiness_failures c readiness =
     py_sorted (<) (dict_fromkeys
       (concat (map (\<lambda>r. if rn_ready r then [] else ''DATA_NOT_READY'' # missing_readiness c readiness @ rn_reasons r)
          readiness) @ missing_readiness c readiness))"

definition apply_readiness :: "string list \<Rightarrow> validation_result \<Rightarrow> validation_result" where
  "apply_readiness failures v =
     (if failures = [] then v
      else v\<lparr>vr_passed := False, vr_rejection_reasons := dict_fromkeys (vr_rejection_reasons v @ failures)\<rparr>)"

definition evaluate_nse_strategy ::
  "(datetime \<Rightarrow> string) \<times> (datetime \<Rightarrow> string) \<Rightarrow> nse_campaign \<Rightarrow> strategy_plugin \<Rightarrow> settled_candle_nse list
     \<Rightarrow> readiness_evidence list \<Rightarrow> strategy_evidence result" where
  "evaluate_nse_strategy shows c p candles readiness =
     (let identity = sd_identity (sp_definition p); config = ca_config c;
          cost = round_trip_fraction (nv_cost_model config) in
      if si_market identity \<noteq> NSE then Inl (ValueError ''NSE validation accepts only NSE strategy identities'')
      else
        bind_r (ordered_trades (fst shows) c p candles) (\<lambda>trades.
        bind_r (walk_windows (nat (nv_walk_forward_windows config)) cost trades) (\<lambda>windows.
        bind_r (nse_metrics config windows trades) (\<lambda>metrics.
        bind_r (validate_strategy identity metrics (nv_policy config) (Aware (ca_evaluated_at c))) (\<lambda>raw.
          let v = apply_readiness (readiness_failures c readiness) raw;
              mark = fingerprint (concat (map snd (nse_series c identity candles))) in
          Inr \<lparr>ne_evidence_id = stable_id [ca_campaign_id c, vr_validation_run_id v, mark,
                 repr_tuple (map (repr_window (snd shows)) windows), repr_cost_model (nv_cost_model config)],
               ne_campaign_id = ca_campaign_id c, ne_validation = v,
               ne_state = (if vr_passed v then STATE_RESEARCH else STATE_FAILED),
               ne_data_fingerprint = mark, ne_windows = windows, ne_cost_model = nv_cost_model config,
               ne_stressed_net_expectancy = vm_gross_expectancy metrics - cost * Fin (3 / 2)\<rparr>)))))"

section \<open>The service\<close>

record promotion_target =
  pg_evidence_id :: string
  pg_validation_run_id :: string
  pg_identity :: strategy_identity
  pg_state :: research_state
  pg_passed :: bool

text \<open>What the service asks of the store of evidence, acting on the store's state \<open>'w\<close>.\<close>

record 'w nse_store =
  nt_load_candles :: "string list \<Rightarrow> string list \<Rightarrow> instant \<Rightarrow> instant \<Rightarrow> ('w, settled_candle_nse list) st"
  nt_record_campaign :: "nse_campaign \<Rightarrow> ('w, unit) st"
  nt_record_readiness :: "readiness_evidence list \<Rightarrow> ('w, unit) st"
  nt_record_strategy_evidence :: "strategy_evidence \<Rightarrow> ('w, unit) st"
  nt_promotion_target :: "string \<Rightarrow> ('w, promotion_target) st"
  nt_record_promotion :: "string \<Rightarrow> string \<Rightarrow> string \<Rightarrow> string \<Rightarrow> datetime \<Rightarrow> ('w, unit) st"

definition on_registry :: "(registry, 'a) st \<Rightarrow> (registry \<times> 'w, 'a) st" where
  "on_registry m = zoom fst (\<lambda>r s. (r, snd s)) m"

definition on_store :: "('w, 'a) st \<Rightarrow> (registry \<times> 'w, 'a) st" where
  "on_store m = zoom snd (\<lambda>w s. (fst s, w)) m"

definition validate_plugin ::
  "(datetime \<Rightarrow> string) \<times> (datetime \<Rightarrow> string) \<Rightarrow> 'w nse_store \<Rightarrow> nse_campaign \<Rightarrow> settled_candle_nse list
     \<Rightarrow> readiness_evidence list \<Rightarrow> strategy_plugin \<Rightarrow> (registry \<times> 'w, strategy_evidence) st" where
  "validate_plugin shows store c candles readiness p =
     bind_st (on_registry (registry_register (sp_definition p))) (\<lambda>_.
     bind_st (lift_st (evaluate_nse_strategy shows c p candles readiness)) (\<lambda>item.
     bind_st (on_registry (record_validation (ne_validation item))) (\<lambda>_.
     bind_st (on_store (nt_record_strategy_evidence store item)) (\<lambda>_. return_st item))))"

definition nse_validate ::
  "(datetime \<Rightarrow> string) \<times> (datetime \<Rightarrow> string) \<Rightarrow> 'w nse_store \<Rightarrow> nse_campaign \<Rightarrow> strategy_plugin list
     \<Rightarrow> (registry \<times> 'w, strategy_evidence list) st" where
  "nse_validate shows store c plugins =
     bind_st (lift_st (dt_add (ca_requested_start c) (- (30 * us_per_day)))) (\<lambda>start.
     bind_st (on_store (nt_load_candles store (ca_symbols c) (nv_required_timeframes (ca_config c)) start
                (ca_requested_end c))) (\<lambda>candles.
     bind_st (on_store (nt_record_campaign store c)) (\<lambda>_.
     bind_st (lift_st (evaluate_nse_readiness c candles)) (\<lambda>readiness.
     bind_st (on_store (nt_record_readiness store readiness)) (\<lambda>_.
     for_st (validate_plugin shows store c candles readiness) plugins)))))"

definition nse_promote ::
  "'w nse_store \<Rightarrow> string \<Rightarrow> string \<Rightarrow> string \<Rightarrow> datetime \<Rightarrow> datetime \<Rightarrow> (registry \<times> 'w, strategy_approval) st" where
  "nse_promote store evidence_id reviewed_by reason approved_at expires_at =
     (if str_strip reviewed_by = [] \<or> str_strip reason = []
        then raise_st (ValueError ''reviewed_by and reason are required'')
      else
        bind_st (on_store (nt_promotion_target store evidence_id)) (\<lambda>target.
        if pg_state target \<noteq> STATE_RESEARCH \<or> \<not> pg_passed target
          then raise_st (PermissionError ''only passing RESEARCH evidence can be paper-approved'')
        else
          bind_st (lift_st (approval_create (pg_identity target) (pg_validation_run_id target)
                      approved_at expires_at reviewed_by reason)) (\<lambda>approval.
          bind_st (on_registry (record_approval approval)) (\<lambda>_.
          bind_st (on_store (nt_record_promotion store evidence_id (sa_approval_id approval) reviewed_by reason
                     approved_at)) (\<lambda>_.
          return_st approval)))))"

section \<open>The plugins of the runner\<close>

definition nse_plugins :: "technical_strategy list result" where
  "nse_plugins =
     bind_r technical_strategies (\<lambda>all.
       let plugins = filter (\<lambda>s. si_market (sd_identity (technical_definition s)) = NSE) all in
       if (\<lambda>s. si_strategy_id (sd_identity (technical_definition s))) ` set plugins
            \<noteq> {''vwap_pullback'', ''ema_rsi_continuation'', ''supertrend_adx''}
       then Inl (RuntimeError ''the exact three NSE technical strategies were not found'')
       else Inr plugins)"

section \<open>The folds partition the trades in order\<close>

text \<open>Filling windows by a slot that never goes back: the windows one after the other are the input.\<close>

locale monotone_slots =
  fixes slot :: "nat \<Rightarrow> nat" and n :: nat
  assumes slot_less: "slot i < n"
    and slot_mono: "i \<le> j \<Longrightarrow> slot i \<le> slot j"
begin

lemma concat_append_at:
  assumes "s < length ws" and "\<And>w. s < w \<Longrightarrow> w < length ws \<Longrightarrow> ws ! w = []"
  shows "concat (ws[s := ws ! s @ [x]]) = concat ws @ [x]"
proof -
  have d: "concat (drop (Suc s) ws) = []"
    using assms(2) by (auto simp: in_set_conv_nth)
  have "concat ws = concat (take s ws @ ws ! s # drop (Suc s) ws)"
    using id_take_nth_drop [OF assms(1)] by simp
  then show ?thesis using assms(1) d by (simp add: upd_conv_take_nth_drop)
qed

lemma fill:
  "(let ws = foldl (\<lambda>ws (i, x). ws[slot i := ws ! slot i @ [x]]) (replicate n []) (enumerate 0 xs)
    in length ws = n \<and> concat ws = xs \<and> (\<forall>w < n. ws ! w \<noteq> [] \<longrightarrow> (\<exists>i < length xs. w = slot i)))"
proof (induction xs rule: rev_induct)
  case (snoc x xs)
  let ?f = "\<lambda>ws (i, x). ws[slot i := ws ! slot i @ [x]]"
  define ws where "ws = foldl ?f (replicate n []) (enumerate 0 xs)"
  have ws: "length ws = n" "concat ws = xs" "\<And>w. w < n \<Longrightarrow> ws ! w \<noteq> [] \<Longrightarrow> \<exists>i < length xs. w = slot i"
    using snoc by (auto simp: ws_def Let_def)
  have e: "foldl ?f (replicate n []) (enumerate 0 (xs @ [x]))
      = ws[slot (length xs) := ws ! slot (length xs) @ [x]]"
    by (simp add: enumerate_append_eq ws_def)
  have "ws ! w = []" if w: "slot (length xs) < w" "w < length ws" for w
  proof (rule ccontr)
    assume "ws ! w \<noteq> []"
    then obtain i where "i < length xs" "w = slot i" using ws(1,3) w(2) by blast
    then show False using slot_mono [of i "length xs"] w(1) by simp
  qed
  then have "concat (ws[slot (length xs) := ws ! slot (length xs) @ [x]]) = xs @ [x]"
    using concat_append_at [of "slot (length xs)" ws x] slot_less ws by simp
  moreover have "\<exists>i < length (xs @ [x]). w = slot i"
    if "w < n" "ws[slot (length xs) := ws ! slot (length xs) @ [x]] ! w \<noteq> []" for w
    using that ws(1) ws(3) [of w] by (cases "w = slot (length xs)") (auto intro: less_SucI)
  ultimately show ?case unfolding e Let_def using ws(1) by simp
qed (simp add: Let_def)

end

interpretation folds: monotone_slots "fold_slot (Suc m) len" "Suc m" for m len
proof
  show "fold_slot (Suc m) len i < Suc m" for i by (simp add: fold_slot_def)
  show "fold_slot (Suc m) len i \<le> fold_slot (Suc m) len j" if "i \<le> j" for i j
  proof -
    have "i * Suc m div max 1 len \<le> j * Suc m div max 1 len" using that by (intro div_le_mono mult_le_mono1)
    then show ?thesis by (simp add: fold_slot_def min.coboundedI2)
  qed
qed

lemma window_rows_concat: "0 < n \<Longrightarrow> length (window_rows n xs) = n \<and> concat (window_rows n xs) = xs"
  using folds.fill [of "n - 1" "length xs" xs] by (auto simp: window_rows_def Let_def)

lemma sum_lengths: "sum_list (map (\<lambda>rows. int (length rows)) ws) = int (length (concat ws))"
  by (induction ws) simp_all

lemma walk_window_count: "walk_window cost (i, rows) = Inr w \<Longrightarrow> wf_trade_count w = int (length rows)"
  by (auto simp: walk_window_def Let_def)

lemma strict_weak_trade_lt: "strict_weak A trade_lt"
  unfolding strict_weak_def trade_lt_def by (meson less_le_not_le not_le_imp_less order_le_less_trans less_trans linorder_not_less)

lemma trades_sorted: "sorted_wrt (\<lambda>a b. \<not> trade_lt b a) (py_sorted trade_lt ts)"
  by (rule sorted_py_sorted [OF strict_weak_trade_lt])

text \<open>
  C39: The walk-forward folds are chronological and disjoint.  Whatever trades were simulated
  (\<open>ordered_trades\<close> sorts them), the windows laid one after the other are exactly the sorted
  trades, none lost and none counted twice, no trade of a window is later than a trade of a
  later window, and the evidence has one entry per window with the number of its trades.
\<close>

theorem walk_forward_folds_chronological:
  assumes "trades = py_sorted trade_lt simulated" and "0 < n"
    and "walk_windows n cost trades = Inr windows"
  shows "concat (window_rows n trades) = trades
    \<and> map wf_trade_count windows = map (\<lambda>rows. int (length rows)) (window_rows n trades)
    \<and> sum_list (map wf_trade_count windows) = int (length trades)
    \<and> (\<forall>v w a b. v < w \<and> w < n \<and> a \<in> set (window_rows n trades ! v) \<and> b \<in> set (window_rows n trades ! w)
         \<longrightarrow> instant_of (fst a) \<le> instant_of (fst b))"
proof -
  let ?ws = "window_rows n trades"
  have ws: "length ?ws = n" "concat ?ws = trades" using window_rows_concat [OF assms(2)] by auto
  have l: "list_all2 (\<lambda>x y. walk_window cost x = Inr y) (enumerate 0 ?ws) windows"
    using assms(3) by (simp add: walk_windows_def map_r_Inr_iff)
  have counts: "map wf_trade_count windows = map (\<lambda>rows. int (length rows)) ?ws"
  proof (rule nth_equalityI)
    show "length (map wf_trade_count windows) = length (map (\<lambda>rows. int (length rows)) ?ws)"
      using list_all2_lengthD [OF l] by simp
    fix i assume "i < length (map wf_trade_count windows)"
    then have i: "i < length ?ws" "i < length windows" using list_all2_lengthD [OF l] by simp_all
    then have "walk_window cost (i, ?ws ! i) = Inr (windows ! i)"
      using list_all2_nthD [OF l, of i] by (simp add: nth_enumerate_eq)
    then show "map wf_trade_count windows ! i = map (\<lambda>rows. int (length rows)) ?ws ! i"
      using i walk_window_count by simp
  qed
  moreover have "sum_list (map (\<lambda>rows. int (length rows)) ?ws) = int (length trades)"
    by (simp add: sum_lengths ws(2))
  moreover have "instant_of (fst a) \<le> instant_of (fst b)"
    if "v < w" "w < n" "a \<in> set (?ws ! v)" "b \<in> set (?ws ! w)" for v w a b
  proof -
    have v: "v < length ?ws" and w: "w - Suc v < length (drop (Suc v) ?ws)" using that ws(1) by auto
    have "trades = concat (take v ?ws) @ ?ws ! v @ concat (drop (Suc v) ?ws)"
      using ws(2) id_take_nth_drop [OF v] by (metis concat.simps(2) concat_append)
    then have "sorted_wrt (\<lambda>a b. \<not> trade_lt b a) (concat (take v ?ws) @ ?ws ! v @ concat (drop (Suc v) ?ws))"
      using trades_sorted [of simulated] assms(1) by simp
    moreover have "b \<in> set (concat (drop (Suc v) ?ws))"
      using that(1,4) w nth_mem [OF w] by (auto simp: nth_drop)
    ultimately have "\<not> trade_lt b a" using that(3) unfolding sorted_wrt_append by blast
    then show ?thesis by (auto simp: trade_lt_def)
  qed
  ultimately show ?thesis using ws(2) by auto
qed

section \<open>Research evidence\<close>

lemma readiness_reasons_Nil:
  "readiness_reasons c rows needed = [] \<longleftrightarrow>
     rows \<noteq> [] \<and> (\<forall>k \<in> set rows. sn_provider k = DHAN) \<and> open_at (hd rows) \<le> ca_requested_start c
     \<and> ca_requested_end c - open_at (last rows) \<le> nv_maximum_last_bar_age (ca_config c)
     \<and> needed \<le> int (length (coverage_rows c rows))"
  by (auto simp: readiness_reasons_def)

lemma readiness_failures_Nil:
  "readiness_failures c readiness = [] \<longleftrightarrow>
     (\<lambda>r. (rn_symbol r, rn_timeframe r)) ` set readiness = set (expected_readiness c)
     \<and> (\<forall>r \<in> set readiness. rn_ready r)"
proof -
  have "dict_fromkeys xs = [] \<longleftrightarrow> xs = []" for xs :: "string list" by (metis set_dict_fromkeys set_empty)
  then show ?thesis by (auto simp: readiness_failures_def missing_readiness_def)
qed

lemma readiness_item_Inr:
  assumes "readiness_item c candles n (symbol, timeframe) = Inr r"
  obtains needed where "minimum_count c n timeframe = Inr needed" and "rn_symbol r = symbol"
    and "rn_timeframe r = timeframe" and "rn_minimum_settled_count r = needed"
    and "rn_ready r \<longleftrightarrow> readiness_reasons c (readiness_rows c candles symbol timeframe) needed = []"
  using assms by (auto simp: readiness_item_def Let_def)

lemma list_all2_mem: "list_all2 P xs ys \<Longrightarrow> x \<in> set xs \<Longrightarrow> \<exists>y \<in> set ys. P x y"
  by (induction rule: list_all2_induct) auto

text \<open>What returned evidence went through.\<close>

lemma evaluate_nse_InrE:
  assumes "evaluate_nse_strategy shows c p candles readiness = Inr ev"
  obtains trades windows metrics raw
  where "ordered_trades (fst shows) c p candles = Inr trades"
    and "walk_windows (nat (nv_walk_forward_windows (ca_config c))) (round_trip_fraction (nv_cost_model (ca_config c))) trades
           = Inr windows"
    and "nse_metrics (ca_config c) windows trades = Inr metrics"
    and "validate_strategy (sd_identity (sp_definition p)) metrics (nv_policy (ca_config c)) (Aware (ca_evaluated_at c))
           = Inr raw"
    and "ne_validation ev = apply_readiness (readiness_failures c readiness) raw"
    and "ne_state ev = (if vr_passed (ne_validation ev) then STATE_RESEARCH else STATE_FAILED)"
    and "ne_windows ev = windows"
  using assms by (auto simp: evaluate_nse_strategy_def Let_def split: if_splits)

lemma validate_Inr:
  "validate_strategy i m p t = Inr v \<Longrightarrow> vr_metrics v = m \<and> vr_policy v = p \<and> vr_identity v = i
     \<and> vr_rejection_reasons v = validation_reasons m p \<and> (vr_passed v \<longleftrightarrow> validation_reasons m p = [])"
  by (auto simp: validate_strategy_def Let_def split: if_splits)

text \<open>
  C38: Research evidence stands on complete data and on every gate.  When the evidence of a
  plugin, evaluated with the readiness of the same candles, is in the state RESEARCH, then
  for every symbol and every required timeframe of the campaign the candles go back to the
  requested start, all come from Dhan, end within the permitted age of the campaign's end
  and are at least as many as the coverage asks for, and the metrics pass every gate of the
  policy.
\<close>

theorem research_evidence_sound:
  assumes "evaluate_nse_readiness c candles = Inr readiness"
    and "evaluate_nse_strategy shows c p candles readiness = Inr ev"
    and "ne_state ev = STATE_RESEARCH"
  shows "validation_reasons (vr_metrics (ne_validation ev)) (nv_policy (ca_config c)) = []
    \<and> vr_identity (ne_validation ev) = sd_identity (sp_definition p)
    \<and> (\<forall>symbol \<in> set (ca_symbols c). \<forall>timeframe \<in> set (nv_required_timeframes (ca_config c)).
         let rows = readiness_rows c candles symbol timeframe in
         rows \<noteq> [] \<and> (\<forall>k \<in> set rows. sn_provider k = DHAN) \<and> open_at (hd rows) \<le> ca_requested_start c
         \<and> ca_requested_end c - open_at (last rows) \<le> nv_maximum_last_bar_age (ca_config c)
         \<and> (\<exists>sessions needed. weekday_count (date_of (ca_requested_start c)) (date_of (ca_requested_end c)) = Inr sessions
              \<and> minimum_count c sessions timeframe = Inr needed
              \<and> needed \<le> int (length (coverage_rows c rows))))"
proof -
  obtain trades windows m raw where
    v: "validate_strategy (sd_identity (sp_definition p)) m (nv_policy (ca_config c)) (Aware (ca_evaluated_at c)) = Inr raw"
    and ne: "ne_validation ev = apply_readiness (readiness_failures c readiness) raw"
    and st: "ne_state ev = (if vr_passed (ne_validation ev) then STATE_RESEARCH else STATE_FAILED)"
    using assms(2) by (rule evaluate_nse_InrE)
  have passed: "vr_passed (ne_validation ev)" using st assms(3) by (simp split: if_splits)
  then have f: "readiness_failures c readiness = []" and e: "ne_validation ev = raw"
    using ne by (auto simp: apply_readiness_def split: if_splits)
  obtain n where n: "weekday_count (date_of (ca_requested_start c)) (date_of (ca_requested_end c)) = Inr n"
    and l: "list_all2 (\<lambda>x y. readiness_item c candles n x = Inr y) (expected_readiness c) readiness"
    using assms(1) by (auto simp: evaluate_nse_readiness_def map_r_Inr_iff)
  have ready: "\<exists>needed. minimum_count c n timeframe = Inr needed
      \<and> readiness_reasons c (readiness_rows c candles symbol timeframe) needed = []"
    if s: "symbol \<in> set (ca_symbols c)" and t: "timeframe \<in> set (nv_required_timeframes (ca_config c))"
    for symbol timeframe
  proof -
    have "(symbol, timeframe) \<in> set (expected_readiness c)" using s t by (auto simp: expected_readiness_def)
    then obtain r where "r \<in> set readiness" "readiness_item c candles n (symbol, timeframe) = Inr r"
      using list_all2_mem [OF l] by blast
    moreover have "rn_ready r" using f \<open>r \<in> set readiness\<close> by (simp add: readiness_failures_Nil)
    ultimately show ?thesis by (auto elim: readiness_item_Inr)
  qed
  show ?thesis
  proof (intro conjI ballI)
    show "validation_reasons (vr_metrics (ne_validation ev)) (nv_policy (ca_config c)) = []"
      "vr_identity (ne_validation ev) = sd_identity (sp_definition p)"
      using validate_Inr [OF v] passed e by simp_all
  qed (use ready n in \<open>fastforce simp: Let_def readiness_reasons_Nil\<close>)
qed

section \<open>What the shipped strategies can reach\<close>

lemma nse_plugins_refused:
  "nse_plugins = Inl (RuntimeError ''the exact three NSE technical strategies were not found'')"
proof -
  let ?b = "Breakout (brk_default ex_breakout)" and ?id = "\<lambda>s. si_strategy_id (sd_identity (technical_definition s))"
  obtain ss where ss: "technical_strategies = Inr ss" "?b \<in> set ss" using shipped_strategies by blast
  let ?plugins = "filter (\<lambda>s. si_market (sd_identity (technical_definition s)) = NSE) ss"
  have "?id ?b \<in> ?id ` set ?plugins" using ss(2) by (intro imageI) (simp add: ex_breakout_def brk_default_def)
  moreover have "?id ?b \<notin> {''vwap_pullback'', ''ema_rsi_continuation'', ''supertrend_adx''}"
    by (simp add: ex_breakout_def brk_default_def)
  ultimately have "?id ` set ?plugins \<noteq> {''vwap_pullback'', ''ema_rsi_continuation'', ''supertrend_adx''}" by metis
  then show ?thesis unfolding nse_plugins_def ss(1) by (simp only: bind_r_simps Let_def if_True not_False_eq_True)
qed

lemma nse_context_label:
  "nse_context str_dt i symbol s = Inr c \<Longrightarrow> re_symbol_regime_label (sc_regime c) = ''UNKNOWN''"
  by (auto simp: nse_context_def strategy_context_post_init_def default_regime_def split: if_splits)

lemma technical_refuses: "nse_context str_dt i symbol snap = Inr c \<Longrightarrow> technical_compatibility s c \<noteq> (True, r)"
  using unknown_regime_silent [OF nse_context_label] by (metis fst_conv)

lemma technical_snapshot_silent:
  "snapshot_trades str_dt c (technical_plugin n s) symbol f snap = Inr ts \<Longrightarrow> ts = []"
  by (auto simp: snapshot_trades_def technical_plugin_def Let_def dest: technical_refuses
      split: if_splits option.splits prod.splits)

lemma map_r_all: "map_r f xs = Inr ys \<Longrightarrow> (\<And>x y. f x = Inr y \<Longrightarrow> P y) \<Longrightarrow> y \<in> set ys \<Longrightarrow> P y"
  by (induction xs arbitrary: ys) auto

lemma technical_trades_silent:
  assumes "ordered_trades str_dt c (technical_plugin n s) candles = Inr ts"
  shows "ts = []"
proof -
  have "xs = []" if "series_trades str_dt c (technical_plugin n s) x = Inr xs" for x xs
    using that map_r_all [of "snapshot_trades str_dt c (technical_plugin n s) (fst x) (next_close (snd x))" _ _ "\<lambda>ts. ts = []"]
    by (auto simp: series_trades_def technical_snapshot_silent split: prod.splits)
  then show ?thesis using assms map_r_all [of "series_trades str_dt c (technical_plugin n s)" _ _ "\<lambda>ts. ts = []"]
    by (auto simp: ordered_trades_def)
qed

text \<open>
  The NSE research cannot pass a shipped strategy, and its runner cannot start one.  The
  plugin selection of the runner expects three strategies while nine are registered for NSE,
  so it always raises; and the evaluation itself gives every technical strategy a context of
  the regime UNKNOWN, which none accepts, so its evidence is FAILED whatever the candles are.
\<close>

theorem nse_research_unreachable:
  assumes "evaluate_nse_strategy shows c (technical_plugin n s) candles readiness = Inr ev"
    and "validation_policy_post_init (nv_policy (ca_config c)) = Inr (nv_policy (ca_config c))"
  shows "nse_plugins = Inl (RuntimeError ''the exact three NSE technical strategies were not found'')
    \<and> ne_state ev = STATE_FAILED \<and> vm_trade_count (vr_metrics (ne_validation ev)) = 0
    \<and> ''INSUFFICIENT_TRADES'' \<in> set (vr_rejection_reasons (ne_validation ev))"
proof -
  obtain trades windows m raw where t: "ordered_trades (fst shows) c (technical_plugin n s) candles = Inr trades"
    and m: "nse_metrics (ca_config c) windows trades = Inr m"
    and v: "validate_strategy (sd_identity (sp_definition (technical_plugin n s))) m (nv_policy (ca_config c))
        (Aware (ca_evaluated_at c)) = Inr raw"
    and ne: "ne_validation ev = apply_readiness (readiness_failures c readiness) raw"
    and st: "ne_state ev = (if vr_passed (ne_validation ev) then STATE_RESEARCH else STATE_FAILED)"
    using assms(1) by (rule evaluate_nse_InrE)
  have "vm_trade_count m = 0" using m technical_trades_silent [OF t] by (auto simp: nse_metrics_def Let_def)
  moreover have "1 \<le> vp_minimum_trades (nv_policy (ca_config c))"
    using assms(2) by (auto simp: validation_policy_post_init_def split: if_splits)
  ultimately have "''INSUFFICIENT_TRADES'' \<in> set (validation_reasons m (nv_policy (ca_config c)))"
    by (simp add: validation_reasons_def)
  then show ?thesis using validate_Inr [OF v] ne st nse_plugins_refused \<open>vm_trade_count m = 0\<close>
    by (auto simp: apply_readiness_def)
qed

text \<open>From 1024 trades on the sign test has no float for its denominator, and nothing is evaluated.\<close>

lemma nse_many_trades_raise:
  assumes "ordered_trades (fst shows) c p candles = Inr trades" and "1024 \<le> length trades"
  shows "\<exists>e. evaluate_nse_strategy shows c p candles readiness = Inl e"
proof (cases "evaluate_nse_strategy shows c p candles readiness")
  case (Inr ev)
  then obtain ts windows m where "ordered_trades (fst shows) c p candles = Inr ts"
    "nse_metrics (ca_config c) windows ts = Inr m" by (rule evaluate_nse_InrE)
  then show ?thesis using assms by (auto simp: nse_metrics_def Let_def sign_test_overflow)
qed blast

section \<open>Validation and promotion\<close>

lemma keeps_on_store [keeps_intros]: "keeps (\<lambda>s. P (fst s)) (on_store m)"
  unfolding on_store_def by (rule keeps_zoom) simp

lemma keeps_on_registry: "keeps P m \<Longrightarrow> keeps (\<lambda>s. P (fst s)) (on_registry m)"
  unfolding on_registry_def by (rule keeps_zoom) (simp add: keeps_def)

lemma keeps_approvals:
  "keeps (\<lambda>r. rg_approvals r = A) (registry_register d)" "keeps (\<lambda>r. rg_approvals r = A) (record_validation v)"
  by (simp_all add: keeps_def registry_register_def record_validation_def split: option.splits)

lemma validate_keeps_approvals: "keeps (\<lambda>s. rg_approvals (fst s) = A) (nse_validate shows store c plugins)"
  unfolding nse_validate_def validate_plugin_def
  by (intro keeps_intros keeps_on_registry [where P = "\<lambda>r. rg_approvals r = A"] keeps_approvals)

lemma on_store_Inr: "on_store m s = (Inr x, s') \<Longrightarrow> m (snd s) = (Inr x, snd s') \<and> fst s' = fst s"
  by (auto simp: on_store_def zoom_iff)

lemma on_registry_Inr: "on_registry m s = (Inr x, s') \<Longrightarrow> m (fst s) = (Inr x, fst s') \<and> snd s' = snd s"
  by (auto simp: on_registry_def zoom_iff)

text \<open>
  C40: Only a reviewed promotion approves.  A validation run never adds or changes an
  approval, whatever its outcome and whatever the store does; and when a promotion returns
  an approval, a reviewer and a reason were named, the store held passing RESEARCH evidence,
  the registry holds a passed validation of exactly that identity under its run identifier,
  and the returned approval is on file for it.
\<close>

theorem only_promotion_approves:
  assumes "nse_validate shows store c plugins (reg, w) = (x, (reg1, w1))"
    and "nse_promote store evidence_id reviewed_by reason approved_at expires_at (reg1, w1) = (Inr a, (reg2, w2))"
  shows "rg_approvals reg1 = rg_approvals reg
    \<and> str_strip reviewed_by \<noteq> [] \<and> str_strip reason \<noteq> []
    \<and> (\<exists>target w'. nt_promotion_target store evidence_id w1 = (Inr target, w')
         \<and> pg_state target = STATE_RESEARCH \<and> pg_passed target \<and> sa_identity a = pg_identity target
         \<and> (\<exists>v. map_of (rg_validations reg1) (pg_validation_run_id target) = Some v \<and> vr_passed v
              \<and> vr_identity v = sa_identity a))
    \<and> map_of (rg_approvals reg2) (sa_approval_id a) = Some a \<and> sa_approved_by a = reviewed_by"
proof -
  have "rg_approvals reg1 = rg_approvals reg" using keepsD [OF validate_keeps_approvals _ assms(1)] by simp
  moreover obtain target s1 s2 where n: "str_strip reviewed_by \<noteq> []" "str_strip reason \<noteq> []"
    and t: "on_store (nt_promotion_target store evidence_id) (reg1, w1) = (Inr target, s1)"
    and ok: "pg_state target = STATE_RESEARCH" "pg_passed target"
    and a: "approval_create (pg_identity target) (pg_validation_run_id target) approved_at expires_at reviewed_by reason = Inr a"
    and r: "on_registry (record_approval a) s1 = (Inr (), s2)"
    and p: "on_store (nt_record_promotion store evidence_id (sa_approval_id a) reviewed_by reason approved_at) s2
      = (Inr (), (reg2, w2))"
    using assms(2) by (auto simp: nse_promote_def split: if_splits)
  have e: "fst s2 = reg2" using on_store_Inr [OF p] by simp
  have t': "nt_promotion_target store evidence_id w1 = (Inr target, snd s1)" and s1: "fst s1 = reg1"
    using on_store_Inr [OF t] by simp_all
  have r': "record_approval a reg1 = (Inr (), reg2)" using on_registry_Inr [OF r] s1 e by simp
  have f: "sa_identity a = pg_identity target" "sa_validation_run_id a = pg_validation_run_id target"
    "sa_approved_by a = reviewed_by"
    using a by (auto simp: approval_create_def split: if_splits)
  have "\<exists>v. map_of (rg_validations reg1) (pg_validation_run_id target) = Some v \<and> vr_passed v
      \<and> vr_identity v = sa_identity a" and "map_of (rg_approvals reg2) (sa_approval_id a) = Some a"
    using r' f by (auto simp: record_approval_def split: if_splits option.splits)
  ultimately show ?thesis using n t' ok f by blast
qed

section \<open>Examples\<close>

lemma int_floats: "int_float 1 = Inr (Fin 1)" "int_float 2 = Inr (Fin 2)" "int_float 75 = Inr (Fin 75)"
  by (simp_all add: int_float_def float_of_int_def one_pyfloat_def)

definition ex_trades :: "nse_trade list" where
  "ex_trades = [(Aware 30, ''TCS'', Fin 1), (Aware 10, ''TCS'', Fin 2), (Aware 20, ''INFY'', Fin 3)]"

lemma ex_trades_sorted: "py_sorted trade_lt ex_trades =
    [(Aware 10, ''TCS'', Fin 2), (Aware 20, ''INFY'', Fin 3), (Aware 30, ''TCS'', Fin 1)]"
  by (simp add: ex_trades_def trade_lt_def)

lemma ex_windows: "window_rows 2 (py_sorted trade_lt ex_trades) =
    [[(Aware 10, ''TCS'', Fin 2), (Aware 20, ''INFY'', Fin 3)], [(Aware 30, ''TCS'', Fin 1)]]"
  by (simp add: ex_trades_sorted window_rows_def fold_slot_def numeral_2_eq_2 Let_def)

theorem walk_forward_folds_chronological_witness:
  "\<exists>windows. walk_windows 2 0 (py_sorted trade_lt ex_trades) = Inr windows
    \<and> map wf_trade_count windows = [2, 1] \<and> sum_list (map wf_trade_count windows) = 3"
proof -
  have "\<exists>windows. walk_windows 2 0 (py_sorted trade_lt ex_trades) = Inr windows"
    unfolding walk_windows_def ex_windows
    by (simp add: walk_window_def mean_return_def int_floats py_div_def zero_pyfloat_def Let_def del: py_sum.simps)
  then obtain windows where w: "walk_windows 2 0 (py_sorted trade_lt ex_trades) = Inr windows" by blast
  then show ?thesis using walk_forward_folds_chronological [OF refl _ w]
    by (simp add: ex_windows)
qed

text \<open>A campaign of one day over one symbol and one timeframe, whose policy accepts an idle plugin.\<close>

definition ex_nse_policy :: validation_policy where
  "ex_nse_policy = \<lparr>vp_minimum_trades = 0, vp_minimum_walk_forward_windows = 1,
     vp_minimum_profitable_window_ratio = Fin 0, vp_minimum_net_expectancy = Fin (- 1),
     vp_maximum_drawdown = Fin 1, vp_family_wise_alpha = Fin 1\<rparr>"

definition ex_campaign :: "validation_policy \<Rightarrow> nse_campaign" where
  "ex_campaign policy = \<lparr>ca_campaign_id = ''campaign'', ca_evaluated_at = 0, ca_requested_start = 0,
     ca_requested_end = 0, ca_symbols = [''TCS''],
     ca_config = \<lparr>nv_minimum_history_days = 730, nv_required_timeframes = [''5m''], nv_walk_forward_windows = 2,
       nv_minimum_session_coverage = Fin 0, nv_maximum_last_bar_age = 1, nv_tested_hypotheses = 1,
       nv_cost_model = \<lparr>cm_brokerage_bps = Fin 0, cm_taxes_and_fees_bps = Fin 0, cm_slippage_bps = Fin 0\<rparr>,
       nv_policy = policy\<rparr>,
     ca_source_provider = DHAN\<rparr>"

definition ex_bar :: settled_candle_nse where
  "ex_bar = \<lparr>sn_symbol = ''TCS'', sn_timeframe = ''5m'', sn_open_time = Aware 0, sn_open = Fin 1, sn_high = Fin 1,
     sn_low = Fin 1, sn_close = Fin 1, sn_volume = Fin 1, sn_provider = DHAN\<rparr>"

lemma ex_needed: "minimum_count (ex_campaign policy) 1 ''5m'' = Inr 0"
  by (simp add: minimum_count_def minimum_bars_per_session_def int_floats float_floor_def ex_campaign_def zero_pyfloat_def)

lemma ex_readiness:
  "\<exists>r. evaluate_nse_readiness (ex_campaign policy) [ex_bar] = Inr [r] \<and> rn_ready r \<and> rn_symbol r = ''TCS''
     \<and> rn_timeframe r = ''5m''"
proof -
  have d: "weekday_count (date_of (ca_requested_start (ex_campaign policy))) (date_of (ca_requested_end (ex_campaign policy)))
      = Inr 1"
    by (simp add: weekday_count_def ex_campaign_def date_of_def us_per_day_def dt_max_def)
  have e: "expected_readiness (ex_campaign policy) = [(''TCS'', ''5m'')]"
    by (simp add: expected_readiness_def ex_campaign_def)
  have rows: "readiness_rows (ex_campaign policy) [ex_bar] ''TCS'' ''5m'' = [ex_bar]"
    by (simp add: readiness_rows_def ex_campaign_def ex_bar_def open_at_def)
  have "readiness_reasons (ex_campaign policy) [ex_bar] 0 = []"
    by (simp add: readiness_reasons_def ex_campaign_def ex_bar_def open_at_def)
  then show ?thesis by (simp add: evaluate_nse_readiness_def d e readiness_item_def rows ex_needed Let_def)
qed

lemma ex_cost: "round_trip_fraction (nv_cost_model (ca_config (ex_campaign policy))) = Fin 0"
  by (simp add: round_trip_fraction_def ex_campaign_def zero_pyfloat_def)

text \<open>An evaluation in which the plugin trades nothing.\<close>

lemma idle_evaluation:
  assumes "ordered_trades (fst shows) (ex_campaign policy) p candles = Inr []"
    and "si_market (sd_identity (sp_definition p)) = NSE"
  shows "\<exists>ev. evaluate_nse_strategy shows (ex_campaign policy) p candles readiness = Inr ev"
proof -
  have w: "window_rows 2 [] = [[], []]" by (simp add: window_rows_def numeral_2_eq_2)
  have n: "nat (nv_walk_forward_windows (ca_config (ex_campaign policy))) = 2" by (simp add: ex_campaign_def)
  obtain windows where ws: "walk_windows 2 (Fin 0) [] = Inr windows"
    by (simp add: walk_windows_def w walk_window_def mean_return_def)
  have "length windows = 2" using ws by (simp add: walk_windows_def w walk_window_def mean_return_def Let_def) auto
  moreover have "int (length (filter wf_profitable windows)) \<le> int (length windows)" by simp
  ultimately show ?thesis using assms ws
    by (simp add: evaluate_nse_strategy_def n ex_cost nse_metrics_def mean_return_def maximum_drawdown_def
        one_sided_sign_test_def validate_strategy_def Let_def)
      (auto simp: ex_campaign_def zero_pyfloat_def one_pyfloat_def)
qed

definition ex_shows :: "(datetime \<Rightarrow> string) \<times> (datetime \<Rightarrow> string)" where
  "ex_shows = ((\<lambda>_. []), (\<lambda>_. []))"

definition ex_idle :: strategy_plugin where
  "ex_idle = technical_plugin 0 (Breakout (brk_default ex_breakout))"

lemma ex_idle_trades: "ordered_trades str_dt (ex_campaign policy) ex_idle [ex_bar] = Inr []"
  by (simp add: ordered_trades_def nse_series_def ex_idle_def technical_plugin_def ex_breakout_def brk_default_def
      ex_bar_def ex_campaign_def dict_fromkeys_def)

lemma ex_idle_market: "si_market (sd_identity (sp_definition ex_idle)) = NSE"
  by (simp add: ex_idle_def technical_plugin_def ex_breakout_def brk_default_def)

lemma ex_idle_research:
  assumes "evaluate_nse_strategy shows (ex_campaign ex_nse_policy) ex_idle [ex_bar] readiness = Inr ev"
    and "readiness_failures (ex_campaign ex_nse_policy) readiness = []"
  shows "ne_state ev = STATE_RESEARCH"
proof -
  obtain trades windows m raw where t: "ordered_trades (fst shows) (ex_campaign ex_nse_policy) ex_idle [ex_bar] = Inr trades"
    and w: "walk_windows (nat (nv_walk_forward_windows (ca_config (ex_campaign ex_nse_policy))))
      (round_trip_fraction (nv_cost_model (ca_config (ex_campaign ex_nse_policy)))) trades = Inr windows"
    and m: "nse_metrics (ca_config (ex_campaign ex_nse_policy)) windows trades = Inr m"
    and v: "validate_strategy (sd_identity (sp_definition ex_idle)) m (nv_policy (ca_config (ex_campaign ex_nse_policy)))
        (Aware (ca_evaluated_at (ex_campaign ex_nse_policy))) = Inr raw"
    and ne: "ne_validation ev = apply_readiness (readiness_failures (ex_campaign ex_nse_policy) readiness) raw"
    and st: "ne_state ev = (if vr_passed (ne_validation ev) then STATE_RESEARCH else STATE_FAILED)"
    using assms(1) by (rule evaluate_nse_InrE)
  have n: "nat (nv_walk_forward_windows (ca_config (ex_campaign ex_nse_policy))) = 2"
    "nv_tested_hypotheses (ca_config (ex_campaign ex_nse_policy)) = 1"
    "nv_policy (ca_config (ex_campaign ex_nse_policy)) = ex_nse_policy" by (simp_all add: ex_campaign_def)
  have tr: "trades = []" using t ex_idle_trades by simp
  have "length windows = 2" using w window_rows_concat [of 2 "[] :: nse_trade list"]
    by (auto simp: n tr walk_windows_def map_r_Inr_iff dest: list_all2_lengthD)
  then have m': "vm_trade_count m = 0" "vm_walk_forward_windows m = 2" "0 \<le> vm_profitable_windows m"
    "vm_gross_expectancy m = 0" "vm_estimated_cost_per_trade m = Fin 0" "vm_maximum_drawdown m = 0" "vm_p_value m = 1"
    "vm_tested_hypotheses m = 1"
    using m tr by (auto simp: nse_metrics_def n ex_cost mean_return_def maximum_drawdown_def one_sided_sign_test_def Let_def)
  have "\<not> rnd64 (of_int (vm_profitable_windows m) / 2) < Fin 0"
    using m'(3) rnd64_mono [of 0 "of_int (vm_profitable_windows m) / 2"]
    by (cases "rnd64 (of_int (vm_profitable_windows m) / 2)") (auto simp: zero_pyfloat_def)
  then have "validation_reasons m ex_nse_policy = []"
    by (simp add: validation_reasons_def m' ex_nse_policy_def net_expectancy_def zero_pyfloat_def one_pyfloat_def
        minus_pyfloat_def float_of_int_def)
  then show ?thesis using validate_Inr [OF v] ne st assms(2) by (simp add: n apply_readiness_def)
qed

theorem research_evidence_sound_witness:
  "\<exists>readiness ev. evaluate_nse_readiness (ex_campaign ex_nse_policy) [ex_bar] = Inr readiness
    \<and> evaluate_nse_strategy ex_shows (ex_campaign ex_nse_policy) ex_idle [ex_bar] readiness = Inr ev
    \<and> ne_state ev = STATE_RESEARCH
    \<and> (\<forall>k \<in> set (readiness_rows (ex_campaign ex_nse_policy) [ex_bar] ''TCS'' ''5m''). sn_provider k = DHAN)"
proof -
  obtain r where r: "evaluate_nse_readiness (ex_campaign ex_nse_policy) [ex_bar] = Inr [r]" "rn_ready r"
    "rn_symbol r = ''TCS''" "rn_timeframe r = ''5m''" using ex_readiness by blast
  obtain ev where ev: "evaluate_nse_strategy ex_shows (ex_campaign ex_nse_policy) ex_idle [ex_bar] [r] = Inr ev"
    using idle_evaluation [OF ex_idle_trades ex_idle_market] by blast
  have "readiness_failures (ex_campaign ex_nse_policy) [r] = []"
    using r by (simp add: readiness_failures_Nil expected_readiness_def ex_campaign_def)
  then have st: "ne_state ev = STATE_RESEARCH" by (rule ex_idle_research [OF ev])
  from research_evidence_sound [OF r(1) ev st] r(1) ev st show ?thesis
    by (auto simp: ex_campaign_def Let_def)
qed

theorem nse_research_unreachable_witness:
  "\<exists>ev. evaluate_nse_strategy ex_shows (ex_campaign (ex_nse_policy\<lparr>vp_minimum_trades := 30,
        vp_minimum_profitable_window_ratio := 1, vp_family_wise_alpha := Fin (1 / 2)\<rparr>)) ex_idle [ex_bar] [] = Inr ev
    \<and> ne_state ev = STATE_FAILED"
proof -
  let ?p = "ex_nse_policy\<lparr>vp_minimum_trades := 30, vp_minimum_profitable_window_ratio := 1,
        vp_family_wise_alpha := Fin (1 / 2)\<rparr>"
  obtain ev where ev: "evaluate_nse_strategy ex_shows (ex_campaign ?p) ex_idle [ex_bar] [] = Inr ev"
    using idle_evaluation [OF ex_idle_trades ex_idle_market] by blast
  have "validation_policy_post_init (nv_policy (ca_config (ex_campaign ?p))) = Inr (nv_policy (ca_config (ex_campaign ?p)))"
    by (simp add: ex_campaign_def ex_nse_policy_def validation_policy_post_init_def zero_pyfloat_def one_pyfloat_def)
  then show ?thesis using nse_research_unreachable [OF ev [unfolded ex_idle_def]] ev by blast
qed

definition ex_store :: "unit nse_store" where
  "ex_store = \<lparr>nt_load_candles = (\<lambda>_ _ _ _. return_st []), nt_record_campaign = (\<lambda>_. return_st ()),
     nt_record_readiness = (\<lambda>_. return_st ()), nt_record_strategy_evidence = (\<lambda>_. return_st ()),
     nt_promotion_target = (\<lambda>i. return_st \<lparr>pg_evidence_id = i, pg_validation_run_id = ''run-1'',
        pg_identity = ex_identity, pg_state = STATE_RESEARCH, pg_passed = True\<rparr>),
     nt_record_promotion = (\<lambda>_ _ _ _ _. return_st ())\<rparr>"

definition ex_validated :: registry where
  "ex_validated = \<lparr>rg_definitions = [(ex_identity, ex_definition)], rg_validations = [(''run-1'', ex_validation)],
     rg_approvals = []\<rparr>"

theorem only_promotion_approves_witness:
  "\<exists>x a reg2. nse_validate ex_shows ex_store (ex_campaign ex_nse_policy) [] (ex_validated, ())
        = (x, (ex_validated, ()))
    \<and> nse_promote ex_store ''e1'' ''ops'' ''reviewed'' (Aware 0) (Aware 1) (ex_validated, ()) = (Inr a, (reg2, ()))
    \<and> map_of (rg_approvals reg2) (sa_approval_id a) = Some a"
proof -
  obtain x reg1 where v: "nse_validate ex_shows ex_store (ex_campaign ex_nse_policy) [] (ex_validated, ())
      = (x, (reg1, ()))"
    by (cases "nse_validate ex_shows ex_store (ex_campaign ex_nse_policy) [] (ex_validated, ())") auto
  have reg1: "reg1 = ex_validated" using v
    by (auto simp: nse_validate_def bind_st_def lift_st_def on_store_def zoom_def ex_store_def return_st_def
        split: sum.splits)
  obtain a reg2 where p: "nse_promote ex_store ''e1'' ''ops'' ''reviewed'' (Aware 0) (Aware 1) (reg1, ()) = (Inr a, (reg2, ()))"
    by (simp add: reg1 nse_promote_def bind_st_def lift_st_def on_store_def on_registry_def zoom_def ex_store_def
        return_st_def str_strip_def is_space_def approval_create_def record_approval_def ex_validated_def ex_validation_def)
  from only_promotion_approves [OF v p] v p reg1 show ?thesis by blast
qed

end
