(* ===== verification/Market_Context.thy ===== *)
theory Market_Context
  imports Screening Risk Py_Parse
begin

text \<open>
  What a decision cycle reads of the market and of the account before it decides: the
  settled candles and their indicators (runtime/technical_context.py), the market and sector
  regime (runtime/regime.py, runtime/index_feed.py, universe/sectors.py), the correlation of
  daily returns (runtime/correlation.py) and the portfolio snapshot
  (runtime/portfolio_snapshot.py), all under src/src/nanodelta.  A query is an operation of
  a database that is a parameter and acts on a world \<open>'w\<close>; the operation returns the rows
  of the statement that the function executes.  A Python set has no order that a program
  may rely on, so the order in which one is iterated is a parameter as well.
\<close>

section \<open>The queries\<close>

record candle_row =
  cw_open_time :: datetime
  cw_open :: pyfloat
  cw_high :: pyfloat
  cw_low :: pyfloat
  cw_close :: pyfloat
  cw_volume :: pyfloat

record 'w database =
  db_candles :: "market \<Rightarrow> string \<Rightarrow> string \<Rightarrow> ('w, candle_row list) st"
  db_universe :: "market \<Rightarrow> string \<Rightarrow> ('w, string list) st"
  db_marks :: "market \<Rightarrow> ('w, (string \<times> pyfloat) list) st"
  db_daily_closes :: "market \<Rightarrow> string list \<Rightarrow> ('w, (string \<times> pyfloat) list) st"
  db_positions :: "market \<Rightarrow> string \<Rightarrow> ('w, (string \<times> pyfloat) list) st"
  db_realized :: "market \<Rightarrow> string \<Rightarrow> instant \<Rightarrow> instant \<Rightarrow> ('w, pyfloat option) st"

section \<open>Technical context\<close>

definition fetch_settled_candles ::
  "'w database \<Rightarrow> market \<Rightarrow> string \<Rightarrow> string \<Rightarrow> ('w, technical_candle list) st" where
  "fetch_settled_candles db m symbol timeframe =
     bind_st (db_candles db m symbol timeframe) (\<lambda>rows.
     lift_st (map_r (\<lambda>r. technical_candle_post_init
       \<lparr>tc_event_time = cw_open_time r, tc_open = cw_open r, tc_high = cw_high r, tc_low = cw_low r,
        tc_close = cw_close r, tc_volume = cw_volume r, tc_settled = True\<rparr>) rows))"

type_synonym indicators = "(string, pyfloat) dict"

definition latest_technical_snapshot ::
  "'w database \<Rightarrow> market \<Rightarrow> string \<Rightarrow> string \<Rightarrow> ('w, (indicators \<times> technical_candle list) option) st" where
  "latest_technical_snapshot db m symbol timeframe =
     bind_st (fetch_settled_candles db m symbol timeframe) (\<lambda>candles.
     if candles = [] then return_st None
     else bind_st (lift_st (materialize_technical_features 14 14 14 (Fin 3) candles)) (\<lambda>snapshots.
       return_st (if snapshots = [] then None else Some (ts_values (last snapshots), candles))))"

definition latest_technical_features ::
  "'w database \<Rightarrow> market \<Rightarrow> string \<Rightarrow> string \<Rightarrow> ('w, indicators option) st" where
  "latest_technical_features db m symbol timeframe =
     bind_st (fetch_settled_candles db m symbol timeframe) (\<lambda>candles.
     if candles = [] then return_st None
     else bind_st (lift_st (materialize_technical_features 14 14 14 (Fin 3) candles)) (\<lambda>snapshots.
       return_st (if snapshots = [] then None else Some (ts_values (last snapshots)))))"

section \<open>Sectors and indices\<close>

definition sectors :: "(string \<times> string list) list" where
  "sectors =
     [(''BANKING'', [''AUBANK'', ''AXISBANK'', ''BANDHANBNK'', ''BANKBARODA'', ''BANKINDIA'', ''CANBK'',
         ''CUB'', ''FEDERALBNK'', ''HDFCBANK'', ''ICICIBANK'', ''IDFCFIRSTB'', ''INDIANB'', ''IOB'',
         ''KARURVYSYA'', ''KOTAKBANK'', ''MAHABANK'', ''PNB'', ''SBIN'', ''UCOBANK'', ''UNIONBANK'']),
      (''FINANCIAL_SERVICES'', [''AADHARHFC'', ''AAVAS'', ''ABCAPITAL'', ''BAJAJFINSV'', ''BAJAJHFL'',
         ''BAJFINANCE'', ''BSE'', ''CAMS'', ''CANFINHOME'', ''CDSL'', ''CHOLAFIN'', ''GICRE'', ''GODIGIT'',
         ''HDBFS'', ''HDFCAMC'', ''HDFCLIFE'', ''HOMEFIRST'', ''HUDCO'', ''ICICIAMC'', ''ICICIGI'',
         ''ICICIPRULI'', ''INDIASHLTR'', ''IRFC'', ''JIOFIN'', ''LICHSGFIN'', ''LICI'', ''M&MFIN'',
         ''MANAPPURAM'', ''MFSL'', ''MOTILALOFS'', ''MUTHOOTFIN'', ''NIACL'', ''PFC'', ''PNBHOUSING'',
         ''POONAWALLA'', ''RECLTD'', ''REPCOHOME'', ''SBILIFE'', ''SHRIRAMFIN'', ''STARHEALTH'',
         ''SUNDARMFIN'', ''TATACAP'', ''APTUS'']),
      (''IT'', [''COFORGE'', ''HCLTECH'', ''INFOBEAN'', ''INFY'', ''KELLTONTEC'', ''KPITTECH'', ''LTM'',
         ''LTTS'', ''MOSCHIP'', ''NEWGEN'', ''NUCLEUS'', ''OFSS'', ''PERSISTENT'', ''TATAELXSI'', ''TCS'',
         ''TECHM'', ''WIPRO'', ''BHARTIHEXA'']),
      (''PHARMA'', [''AUROPHARMA'', ''CIPLA'', ''DIVISLAB'', ''DRREDDY'', ''GLENMARK'', ''LAURUSLABS'',
         ''LUPIN'', ''MANKIND'', ''SENORES'', ''SUNPHARMA'', ''SYNGENE'', ''TORNTPHARM'', ''ZYDUSLIFE'']),
      (''HEALTHCARE_SERVICES'', [''APOLLOHOSP'', ''ASTERDM'', ''FORTIS'', ''KIMS'', ''MAXHEALTH'',
         ''MEDANTA'', ''MEDPLUS'', ''NH'', ''RAINBOW'', ''YATHARTH'']),
      (''AUTO'', [''BAJAJ-AUTO'', ''BHARATFORG'', ''BOSCHLTD'', ''ENDURANCE'', ''HYUNDAI'', ''M&M'',
         ''MARUTI'', ''MOTHERSON'', ''SONACOMS'', ''TVSMOTOR'', ''UNOMINDA'', ''TMCV'', ''TMPV'']),
      (''FMCG'', [''BRITANNIA'', ''DABUR'', ''ETERNAL'', ''GODREJCP'', ''HINDUNILVR'', ''ITC'', ''MARICO'',
         ''NESTLEIND'', ''PATANJALI'', ''TATACONSUM'', ''VBL'', ''CELLO'', ''THANGAMAYL'']),
      (''METALS'', [''HINDALCO'', ''HINDCOPPER'', ''HINDZINC'', ''JSL'', ''JSWSTEEL'', ''NATIONALUM'',
         ''SHYAMMETL'', ''TATASTEEL'', ''VEDL'', ''GRAVITA'']),
      (''ENERGY'', [''ADANIENSOL'', ''ADANIGREEN'', ''ADANIPOWER'', ''ATGL'', ''BPCL'', ''GAIL'',
         ''HINDPETRO'', ''IOC'', ''JSWENERGY'', ''KPIGREEN'', ''NTPC'', ''OIL'', ''ONGC'', ''PETRONET'',
         ''POWERGRID'', ''POWERINDIA'', ''RELIANCE'', ''SOLARINDS'', ''SUZLON'', ''TATAPOWER'',
         ''TORNTPOWER'', ''WAAREEENER'', ''OLECTRA'']),
      (''CEMENT'', [''ACC'', ''AMBUJACEM'', ''DALBHARAT'', ''JKCEMENT'', ''JSWCEMENT'', ''NUVOCO'',
         ''RAMCOCEM'', ''SHREECEM'', ''STARCEMENT'', ''ULTRACEMCO'']),
      (''REALTY'', [''BRIGADE'', ''DLF'', ''GODREJPROP'', ''LODHA'', ''MAHLIFE'', ''NBCC'', ''OBEROIRLTY'',
         ''PHOENIXLTD'', ''PRESTIGE'', ''SIGNATURE'', ''ANANTRAJ'']),
      (''INFRA_CONSTRUCTION'', [''AFCONS'', ''GVPIL'', ''GVT&D'', ''HGINFRA'', ''IRCTC'', ''KEC'', ''KPIL'',
         ''LT'', ''NCC'', ''RVNL'', ''WABAG'', ''CEIGALL'', ''HINDCON'', ''HINDCOMPOS'', ''NCLIND'']),
      (''CONSUMER_DURABLES'', [''AMBER'', ''BLUESTARCO'', ''CROMPTON'', ''DIXON'', ''HAVELLS'', ''POLYCAB'',
         ''TITAN'', ''VGUARD'', ''VOLTAS'', ''WHIRLPOOL'', ''KAYNES'', ''NETWEB'', ''KEI'']),
      (''CHEMICALS'', [''AARTIIND'', ''APARINDS'', ''CLEAN'', ''COROMANDEL'', ''DEEPAKNTR'', ''FINEORG'',
         ''GRASIM'', ''NAVINFLUOR'', ''PIDILITIND'', ''PIIND'', ''SRF'', ''VINATIORGA'', ''AEGISLOG'']),
      (''TELECOM'', [''BHARTIARTL'', ''RAILTEL'']),
      (''MEDIA_ENTERTAINMENT'', [''PVRINOX'', ''NAZARA'']),
      (''RETAIL'', [''DMART'', ''TRENT'', ''V2RETAIL'', ''VMART'', ''KALYANKJIL'']),
      (''LOGISTICS'', [''BLUEDART'', ''CONCOR'', ''DELHIVERY'', ''GATEWAY'', ''GESHIP'', ''TCI'', ''TCIEXP'',
         ''MAHLOG'', ''LLOYDSME'', ''SWIGGY'']),
      (''CAPITAL_GOODS'', [''ABB'', ''BEML'', ''CGPOWER'', ''CUMMINSIND'', ''HBLENGINE'', ''HONDAPOWER'',
         ''SIEMENS'', ''TARIL'', ''APLAPOLLO'', ''EMIL'', ''JLHL'']),
      (''DEFENSE'', [''BEL'', ''GRSE'', ''HAL'', ''MAZDOCK'']),
      (''AVIATION_TRAVEL'', [''INDHOTEL'', ''INDIGO'']),
      (''DIVERSIFIED'', [''AFFLE'', ''ADANIENT'', ''ADANIPORTS'', ''KAPSTON'', ''LGEINDIA'', ''NAUKRI'',
         ''PNGJL'', ''TVSSCS'', ''ARE&M'', ''VTL''])]"

definition sector_by_symbol :: "(string, string) dict" where
  "sector_by_symbol = concat (map (\<lambda>(sector, symbols). map (\<lambda>s. (s, sector)) symbols) sectors)"

definition sector_for :: "string \<Rightarrow> string option" where
  "sector_for symbol = map_of sector_by_symbol (str_upper (str_strip symbol))"

definition market_index_symbol :: string where "market_index_symbol = ''NIFTY''"

definition vix_symbol :: string where "vix_symbol = ''INDIA_VIX''"

definition sector_index_symbol :: "(string, string) dict" where
  "sector_index_symbol =
     [(''BANKING'', ''BANKNIFTY''), (''AUTO'', ''NIFTY_AUTO''), (''FMCG'', ''NIFTY_FMCG''), (''IT'', ''NIFTY_IT''),
      (''MEDIA_ENTERTAINMENT'', ''NIFTY_MEDIA''), (''METALS'', ''NIFTY_METAL''), (''PHARMA'', ''NIFTY_PHARMA''),
      (''REALTY'', ''NIFTY_REALTY''), (''ENERGY'', ''NIFTY_ENERGY''), (''HEALTHCARE_SERVICES'', ''NIFTY_HEALTHCARE''),
      (''FINANCIAL_SERVICES'', ''NIFTY_FINSRV'')]"

section \<open>Regimes\<close>

record regime_breadth =
  rb_label :: string
  rb_fit :: pyfloat

definition bullish :: "indicators \<Rightarrow> bool result" where
  "bullish values =
     bind_r (feature_item values ''ema_9'') (\<lambda>fast.
     bind_r (feature_item values ''ema_21'') (\<lambda>slow. Inr (slow < fast)))"

definition breadth_input :: "string \<Rightarrow> indicators \<Rightarrow> (string \<times> pyfloat \<times> bool) result" where
  "breadth_input symbol values =
     bind_r (feature_item values ''adx_14'') (\<lambda>adx. bind_r (bullish values) (\<lambda>b. Inr (symbol, adx, b)))"

text \<open>One entry per warm symbol; the two dictionaries of the source have the same keys.\<close>

definition fetch_breadth_inputs ::
  "'w database \<Rightarrow> market \<Rightarrow> string list \<Rightarrow> string \<Rightarrow> ('w, (string, pyfloat \<times> bool) dict) st" where
  "fetch_breadth_inputs db m symbols timeframe =
     fold_st (\<lambda>symbol acc.
       bind_st (latest_technical_features db m symbol timeframe) (\<lambda>values.
         case values of
           None \<Rightarrow> return_st acc
         | Some v \<Rightarrow> bind_st (lift_st (breadth_input symbol v)) (\<lambda>(s, x). return_st (AList.update s x acc))))
       symbols []"

definition fetch_index_snapshot :: "'w database \<Rightarrow> string \<Rightarrow> string \<Rightarrow> ('w, indicators option) st" where
  "fetch_index_snapshot db index_symbol timeframe = latest_technical_features db NSE index_symbol timeframe"

definition classify_index_regime :: "indicators \<Rightarrow> regime_breadth result" where
  "classify_index_regime values =
     bind_r (feature_item values ''close'') (\<lambda>close.
     bind_r (if 0 < close then bind_r (feature_item values ''atr_14'') (\<lambda>a. py_div a close) else Inr 0) (\<lambda>atr_pct.
     if rnd64 (12 / 1000) < atr_pct then Inr \<lparr>rb_label = ''VOLATILE'', rb_fit = rnd64 (6 / 10)\<rparr>
     else bind_r (feature_item values ''adx_14'') (\<lambda>adx.
       if adx < Fin 22 then Inr \<lparr>rb_label = ''RANGING'', rb_fit = rnd64 (7 / 10)\<rparr>
       else bind_r (bullish values) (\<lambda>up.
              Inr \<lparr>rb_label = (if up then ''TRENDING_UP'' else ''TRENDING_DOWN''), rb_fit = rnd64 (115 / 100)\<rparr>))))"

definition classify_risk_off :: "pyfloat \<Rightarrow> regime_breadth" where
  "classify_risk_off vix_close =
     (if Fin 25 \<le> vix_close then \<lparr>rb_label = ''RISK_OFF'', rb_fit = Fin (1 / 2)\<rparr>
      else if Fin 20 \<le> vix_close then \<lparr>rb_label = ''ELEVATED_VOLATILITY'', rb_fit = Fin (3 / 4)\<rparr>
      else \<lparr>rb_label = ''NORMAL'', rb_fit = 1\<rparr>)"

definition classify_breadth ::
  "(string list \<Rightarrow> string list) \<Rightarrow> int \<Rightarrow> (string, pyfloat \<times> bool) dict \<Rightarrow> regime_breadth result" where
  "classify_breadth iterate minimum_symbols inputs =
     (let symbols = iterate (map fst inputs); n = int (length symbols) in
      if n < minimum_symbols then Inr \<lparr>rb_label = ''INSUFFICIENT_BREADTH'', rb_fit = 1\<rparr>
      else
        bind_r (int_float n) (\<lambda>count.
        bind_r (py_div (py_sum (map (\<lambda>s. fst (the (map_of inputs s))) symbols)) count) (\<lambda>average_adx.
        let rising = length (filter (\<lambda>s. snd (the (map_of inputs s))) symbols);
            fraction = rnd64 (of_nat rising / of_int n) in
        if average_adx < Fin 22 then Inr \<lparr>rb_label = ''RANGING'', rb_fit = rnd64 (7 / 10)\<rparr>
        else if rnd64 (6 / 10) \<le> fraction then Inr \<lparr>rb_label = ''TRENDING_UP'', rb_fit = rnd64 (115 / 100)\<rparr>
        else if fraction \<le> rnd64 (4 / 10) then Inr \<lparr>rb_label = ''TRENDING_DOWN'', rb_fit = rnd64 (115 / 100)\<rparr>
        else Inr \<lparr>rb_label = ''VOLATILE'', rb_fit = rnd64 (6 / 10)\<rparr>)))"

section \<open>Correlation of daily returns\<close>

text \<open>\<open>math.sqrt\<close>: the root of the value to 64 further bits, a sticky bit below them, rounded.\<close>

fun isqrt :: "nat \<Rightarrow> nat" where
  "isqrt n = (if n = 0 then 0
     else let r = 2 * isqrt (n div 4) in if (r + 1) * (r + 1) \<le> n then r + 1 else r)"

declare isqrt.simps [simp del]

definition float_sqrt :: "pyfloat \<Rightarrow> pyfloat result" where
  "float_sqrt x =
     (case x of
        Fin q \<Rightarrow>
          if q < 0 then Inl (ValueError ''math domain error'')
          else
            (let (n, d) = quotient_of q; m = nat (n * d) * 4 ^ 64; s = isqrt m;
                 sticky = (if s * s = m then 0 else 1)
             in Inr (rnd64 (of_nat (2 * s + sticky) / (2 * 2 ^ 64 * of_int d))))
      | NInf \<Rightarrow> Inl (ValueError ''math domain error'')
      | _ \<Rightarrow> Inr x)"

text \<open>\<open>x ** 2\<close>: a finite base whose square is too large raises.\<close>

definition float_square :: "pyfloat \<Rightarrow> pyfloat result" where
  "float_square x =
     (if isfinite x \<and> \<not> isfinite (x * x) then Inl (OverflowError ''(34, Numerical result out of range)'')
      else Inr (x * x))"

definition daily_closes :: "(string \<times> pyfloat) list \<Rightarrow> (string, pyfloat list) dict" where
  "daily_closes rows =
     map (\<lambda>s. (s, rev (take 90 (map snd (filter (\<lambda>r. fst r = s) rows))))) (dict_fromkeys (map fst rows))"

definition pearson :: "pyfloat list \<Rightarrow> pyfloat list \<Rightarrow> pyfloat option result" where
  "pearson x y =
     bind_r (int_float (int (length x))) (\<lambda>n.
     bind_r (py_div (py_sum x) n) (\<lambda>mean_x.
     bind_r (py_div (py_sum y) n) (\<lambda>mean_y.
     let covariance = py_sum (map (\<lambda>(a, b). (a - mean_x) * (b - mean_y)) (zip x y)) in
     bind_r (map_r (\<lambda>a. float_square (a - mean_x)) x) (\<lambda>xs.
     bind_r (map_r (\<lambda>b. float_square (b - mean_y)) y) (\<lambda>ys.
     bind_r (float_sqrt (py_sum xs * py_sum ys)) (\<lambda>denominator.
       if py_eq denominator 0 then Inr None
       else bind_r (py_div covariance denominator) (\<lambda>c. Inr (Some c))))))))"

definition simple_returns :: "pyfloat list \<Rightarrow> pyfloat list result" where
  "simple_returns closes =
     map_r (\<lambda>(previous, current). py_div (current - previous) previous)
       (filter (\<lambda>(previous, _). 0 < previous) (zip closes (tl closes)))"

definition take_last :: "nat \<Rightarrow> 'a list \<Rightarrow> 'a list" where
  "take_last n xs = drop (length xs - n) xs"

fun pairs_of :: "'a list \<Rightarrow> ('a \<times> 'a) list" where
  "pairs_of [] = []"
| "pairs_of (x # xs) = map (\<lambda>y. (x, y)) xs @ pairs_of xs"

definition pairwise_correlation ::
  "nat \<Rightarrow> (string, pyfloat list) dict \<Rightarrow> string \<times> string \<Rightarrow> ((string \<times> string) \<times> pyfloat) list result" where
  "pairwise_correlation minimum_overlap returns = (\<lambda>(first, second).
     let a = the (map_of returns first); b = the (map_of returns second); overlap = min (length a) (length b) in
     if overlap < minimum_overlap then Inr []
     else bind_r (pearson (take_last overlap a) (take_last overlap b)) (\<lambda>c.
       Inr (case c of None \<Rightarrow> [] | Some v \<Rightarrow> [((first, second), v)])))"

definition compute_return_correlations ::
  "nat \<Rightarrow> (string, pyfloat list) dict \<Rightarrow> (string \<times> string, pyfloat) dict result" where
  "compute_return_correlations minimum_overlap closes =
     bind_r (map_r (\<lambda>(s, cs). bind_r (simple_returns cs) (\<lambda>rs. Inr (s, rs))) closes) (\<lambda>returns.
     bind_r (map_r (pairwise_correlation minimum_overlap returns) (pairs_of (py_sorted (<) (map fst returns)))) (\<lambda>parts.
       Inr (concat parts)))"

definition fetch_return_correlations ::
  "'w database \<Rightarrow> market \<Rightarrow> string list \<Rightarrow> ('w, (string \<times> string, pyfloat) dict) st" where
  "fetch_return_correlations db m symbols =
     (if symbols = [] then return_st []
      else bind_st (db_daily_closes db m symbols) (\<lambda>rows.
        lift_st (compute_return_correlations 20 (daily_closes rows))))"

section \<open>The portfolio snapshot\<close>

definition load_open_position ::
  "market \<Rightarrow> string \<Rightarrow> (string, pyfloat) dict \<Rightarrow> string \<times> pyfloat \<Rightarrow> portfolio_position result" where
  "load_open_position m account marks = (\<lambda>(symbol, quantity).
     case map_of marks symbol of
       None \<Rightarrow> Inl (RuntimeError (''no mark price supplied for open position '' @ market_value m @ '':'' @ symbol
                 @ ''; refusing to build a risk snapshot that silently omits its exposure''))
     | Some mark \<Rightarrow>
         if \<not> isfinite mark \<or> mark \<le> 0
         then Inl (ValueError (''mark price for open position '' @ market_value m @ '':'' @ symbol
                @ '' must be finite and positive''))
         else Inr \<lparr>pp_market = m, pp_account_id = account, pp_symbol = symbol, pp_signed_quantity = quantity,
                   pp_mark_price = mark\<rparr>)"

text \<open>Tuples compare at the first component that differs.\<close>

definition position_lt :: "portfolio_position \<Rightarrow> portfolio_position \<Rightarrow> bool" where
  "position_lt a b \<longleftrightarrow>
     (let ka = (market_value (pp_market a), pp_account_id a, pp_symbol a);
          kb = (market_value (pp_market b), pp_account_id b, pp_symbol b) in
      if ka \<noteq> kb then ka < kb
      else if \<not> py_eq (pp_signed_quantity a) (pp_signed_quantity b) then pp_signed_quantity a < pp_signed_quantity b
      else pp_mark_price a < pp_mark_price b)"

definition repr_position :: "portfolio_position \<Rightarrow> string" where
  "repr_position p =
     repr_tuple [repr_str (market_value (pp_market p)), repr_str (pp_account_id p), repr_str (pp_symbol p),
       str_of_float (pp_signed_quantity p), str_of_float (pp_mark_price p)]"

definition portfolio_of ::
  "market \<Rightarrow> string \<Rightarrow> pyfloat \<Rightarrow> instant \<Rightarrow> portfolio_position list \<Rightarrow> pyfloat \<Rightarrow> portfolio_snapshot result" where
  "portfolio_of m account equity now positions realized =
     portfolio_snapshot_post_init
       \<lparr>ps_snapshot_id = stable_id [''portfolio-snapshot'', market_value m, account, str_of_float equity,
          str_of_float realized, repr_tuple (map repr_position (py_sorted position_lt positions)), isoformat now],
        ps_account_id = account, ps_equity = equity, ps_realized_pnl_today = realized, ps_positions = positions,
        ps_captured_at = Aware now\<rparr>"

definition build_portfolio_snapshot ::
  "'w database \<Rightarrow> market \<Rightarrow> string \<Rightarrow> pyfloat \<Rightarrow> (string, pyfloat) dict \<Rightarrow> instant \<Rightarrow> ('w, portfolio_snapshot) st" where
  "build_portfolio_snapshot db m account equity marks now =
     bind_st (db_positions db m account) (\<lambda>rows.
     bind_st (lift_st (map_r (load_open_position m account marks) rows)) (\<lambda>positions.
     bind_st (lift_st (dt_add (date_of now * us_per_day) us_per_day)) (\<lambda>day_end.
     bind_st (db_realized db m account (date_of now * us_per_day) day_end) (\<lambda>realized.
     lift_st (portfolio_of m account equity now positions (case realized of None \<Rightarrow> 0 | Some v \<Rightarrow> v))))))"

section \<open>The integer square root\<close>

lemma isqrt_bounds: "isqrt n * isqrt n \<le> n \<and> n < (isqrt n + 1) * (isqrt n + 1)"
proof (induction n rule: isqrt.induct)
  case (1 n)
  show ?case
  proof (cases "n = 0")
    case True
    then show ?thesis by (simp add: isqrt.simps)
  next
    case False
    define q where "q = isqrt (n div 4)"
    have q: "q * q \<le> n div 4" "n div 4 < (q + 1) * (q + 1)" using 1 [OF False] by (simp_all add: q_def)
    have low: "2 * q * (2 * q) \<le> n" using q(1) by simp
    have "n < 4 * ((q + 1) * (q + 1))" using q(2) by linarith
    then have high: "n < (2 * q + 2) * (2 * q + 2)" by (simp add: algebra_simps)
    have e: "isqrt n = (if (2 * q + 1) * (2 * q + 1) \<le> n then 2 * q + 1 else 2 * q)"
      using False by (subst isqrt.simps) (simp add: q_def Let_def)
    show ?thesis using low high unfolding e by (auto simp: algebra_simps)
  qed
qed

lemma isqrt_square: "isqrt (k * k) = k"
proof -
  have b: "isqrt (k * k) * isqrt (k * k) \<le> k * k" "k * k < (isqrt (k * k) + 1) * (isqrt (k * k) + 1)"
    using isqrt_bounds [of "k * k"] by auto
  have "isqrt (k * k) \<le> k" using b(1) by (auto simp flip: power2_eq_square intro: power2_le_imp_le)
  moreover have "k < isqrt (k * k) + 1" using b(2) by (auto simp flip: power2_eq_square intro: power2_less_imp_less)
  ultimately show ?thesis by simp
qed

section \<open>Every regime fit is one the evidence accepts\<close>

definition fit_between :: "rat \<Rightarrow> rat \<Rightarrow> pyfloat \<Rightarrow> bool" where
  "fit_between lo hi x = (case x of Fin r \<Rightarrow> lo \<le> r \<and> r \<le> hi | _ \<Rightarrow> False)"

lemma fit_literals:
  "fit_between (1 / 2) 2 1" "fit_between (1 / 2) 2 (Fin (1 / 2))" "fit_between (1 / 2) 2 (Fin (3 / 4))"
  "fit_between (1 / 2) 2 (rnd64 (3 / 5))" "fit_between (1 / 2) 2 (rnd64 (7 / 10))"
  "fit_between (1 / 2) 2 (rnd64 (23 / 20))"
proof -
  show "fit_between (1 / 2) 2 1" "fit_between (1 / 2) 2 (Fin (1 / 2))" "fit_between (1 / 2) 2 (Fin (3 / 4))"
    by (simp_all add: fit_between_def one_pyfloat_def)
  show "fit_between (1 / 2) 2 (rnd64 (3 / 5))"
    by (rule literal_between [of "- 1" "3 / 5"]) (auto simp: fit_between_def power_int_minus field_simps)
  show "fit_between (1 / 2) 2 (rnd64 (7 / 10))"
    by (rule literal_between [of "- 1" "7 / 10"]) (auto simp: fit_between_def power_int_minus field_simps)
  show "fit_between (1 / 2) 2 (rnd64 (23 / 20))"
    by (rule literal_between [of 0 "23 / 20"]) (auto simp: fit_between_def)
qed

lemma fit_product:
  assumes "fit_between (1 / 2) 2 x" and "fit_between (1 / 2) 2 y"
  shows "fit_between (1 / 4) 4 (x * y)"
proof -
  obtain a b where ab: "x = Fin a" "1 / 2 \<le> a" "a \<le> 2" "y = Fin b" "1 / 2 \<le> b" "b \<le> 2"
    using assms by (cases x; cases y) (auto simp: fit_between_def)
  have lo: "2 powi (- 2) \<le> a * b" using mult_mono [of "1 / 2" a "1 / 2" b] ab by (simp add: power_int_minus)
  have hi: "a * b \<le> 2 powi 2" using mult_mono [of a 2 b 2] ab by simp
  have f: "is_f64 (2 powi (- 2))" "is_f64 (2 powi 2)" by (rule is_f64_powi; simp)+
  obtain r where "rnd64 (a * b) = Fin r" "2 powi (- 2) \<le> r" "r \<le> 2 powi 2"
    by (rule rnd64_Fin_between [OF f lo hi])
  then show ?thesis using ab by (simp add: fit_between_def power_int_minus)
qed

lemma fit_weaken: "fit_between (1 / 2) 2 x \<Longrightarrow> fit_between (1 / 4) 4 x"
  by (cases x) (auto simp: fit_between_def)

lemma index_regime_ok: "classify_index_regime values = Inr b \<Longrightarrow> fit_between (1 / 2) 2 (rb_fit b)"
  by (auto simp: classify_index_regime_def fit_literals split: if_splits)

lemma breadth_ok: "classify_breadth iterate n inputs = Inr b \<Longrightarrow> fit_between (1 / 2) 2 (rb_fit b)"
  by (auto simp: classify_breadth_def fit_literals Let_def split: if_splits)

lemma risk_off_ok: "fit_between (1 / 2) 2 (rb_fit (classify_risk_off vix))"
  by (simp add: classify_risk_off_def fit_literals)

section \<open>No position is left out of a snapshot\<close>

lemma load_open_position_Inr:
  "load_open_position m account marks (symbol, quantity) = Inr p \<longleftrightarrow>
     (\<exists>mark. map_of marks symbol = Some mark \<and> isfinite mark \<and> 0 < mark
        \<and> p = \<lparr>pp_market = m, pp_account_id = account, pp_symbol = symbol, pp_signed_quantity = quantity,
                pp_mark_price = mark\<rparr>)"
proof -
  have "\<not> mark \<le> 0 \<longleftrightarrow> 0 < mark" if "isfinite mark" for mark :: pyfloat
    using that by (cases mark) (auto simp: zero_pyfloat_def)
  then show ?thesis by (auto simp: load_open_position_def split: option.splits if_splits)
qed


lemma build_portfolio_snapshot_Inr:
  assumes "build_portfolio_snapshot db m account equity marks now w = (Inr p, w')"
  obtains rows w1 where "db_positions db m account w = (Inr rows, w1)"
    and "map_r (load_open_position m account marks) rows = Inr (ps_positions p)"
    and "ps_account_id p = account" and "ps_equity p = equity" and "ps_captured_at p = Aware now"
  using assms unfolding build_portfolio_snapshot_def
  by (auto simp: portfolio_of_def portfolio_snapshot_post_init_def split: if_splits)

text \<open>
  C17: A snapshot of the account omits nothing.  When one is built, its positions are exactly
  the open positions that the paper tables hold, in their order and with their quantities,
  each at the mark that was supplied for its symbol, which is finite and positive; so an
  open position without such a mark makes the construction raise.
\<close>

theorem portfolio_snapshot_omits_nothing:
  assumes "db_positions db m account w = (Inr rows, w1)"
    and "build_portfolio_snapshot db m account equity marks now w = (Inr p, w')"
  shows "ps_account_id p = account \<and> ps_equity p = equity \<and> ps_captured_at p = Aware now
    \<and> list_all2 (\<lambda>(symbol, quantity) q. pp_market q = m \<and> pp_account_id q = account \<and> pp_symbol q = symbol
          \<and> pp_signed_quantity q = quantity \<and> map_of marks symbol = Some (pp_mark_price q)
          \<and> isfinite (pp_mark_price q) \<and> 0 < pp_mark_price q) rows (ps_positions p)"
proof -
  have "map_r (load_open_position m account marks) rows = Inr (ps_positions p)"
    "ps_account_id p = account" "ps_equity p = equity" "ps_captured_at p = Aware now"
    using assms by (auto elim: build_portfolio_snapshot_Inr)
  then show ?thesis
    by (auto simp: map_r_Inr_iff load_open_position_Inr elim!: list_all2_mono)
qed

text \<open>A database that knows one open position and has no candles.\<close>

definition ex_database :: "unit database" where
  "ex_database =
     \<lparr>db_candles = (\<lambda>_ _ _. return_st []), db_universe = (\<lambda>_ _. return_st []), db_marks = (\<lambda>_. return_st []),
      db_daily_closes = (\<lambda>_ _. return_st []), db_positions = (\<lambda>_ _. return_st [(''RELIANCE'', Fin 3)]),
      db_realized = (\<lambda>_ _ _ _. return_st None)\<rparr>"

lemma ex_snapshot:
  "\<exists>p. build_portfolio_snapshot ex_database NSE ''acc'' (Fin 5000) [(''RELIANCE'', Fin 80)] 20 () = (Inr p, ())
     \<and> ps_captured_at p = Aware 20 \<and> ps_account_id p = ''acc''
     \<and> ps_positions p = [ex_position\<lparr>pp_mark_price := Fin 80\<rparr>]"
  by (simp add: build_portfolio_snapshot_def ex_database_def st_defs load_open_position_def portfolio_of_def
      portfolio_snapshot_post_init_def ex_position_def dt_add_def date_of_def us_per_day_def dt_min_def dt_max_def
      zero_pyfloat_def)

theorem portfolio_snapshot_omits_nothing_witness:
  "\<exists>p q. build_portfolio_snapshot ex_database NSE ''acc'' (Fin 5000) [(''RELIANCE'', Fin 80)] 20 () = (Inr p, ())
     \<and> ps_positions p = [q] \<and> pp_signed_quantity q = Fin 3 \<and> pp_mark_price q = Fin 80"
proof -
  obtain p where p: "build_portfolio_snapshot ex_database NSE ''acc'' (Fin 5000) [(''RELIANCE'', Fin 80)] 20 () = (Inr p, ())"
    using ex_snapshot by blast
  have "db_positions ex_database NSE ''acc'' () = (Inr [(''RELIANCE'', Fin 3)], ())"
    by (simp add: ex_database_def return_st_def)
  from portfolio_snapshot_omits_nothing [OF this p] p show ?thesis by (auto simp: list_all2_Cons1)
qed

end
