(* ===== verification/Postgres_Session.thy ===== *)
theory Postgres_Session
  imports Paper_Session
begin

text \<open>
  The database store of src/src/nanodelta/runtime/paper\_session.py
  (\<open>PostgresPaperSessionStore\<close>), the one the deployment uses.  The table
  \<open>control.paper_session_cycles\<close> is a dictionary of rows by its primary key, and each method is
  one transaction: what its statements do to the rows, or nothing when it raises, since the
  \<open>except\<close> clause rolls back.  The Gold feature table that \<open>retryable_features\<close> joins and the SQL
  that recovers exit plans are parameters; connections and locks are left out, a method being
  one step here.
\<close>

section \<open>The table\<close>

record pg_cycle =
  pg_feature_record_ids :: "string list"
  pg_event_time :: instant
  pg_evaluated_at :: instant
  pg_state :: string
  pg_claim_token :: "string option"
  pg_locked_until :: "instant option"
  pg_attempt_count :: int
  pg_decision_cycle_id :: "string option"
  pg_cycle_mode :: "string option"
  pg_candidate_count :: int
  pg_allocation_count :: int
  pg_risk_decision_count :: int
  pg_order_count :: int
  pg_exit_count :: int
  pg_last_error_type :: "string option"
  pg_finished_at :: "instant option"
  pg_updated_at :: "instant option"

text \<open>\<open>pg_drawn\<close> counts the identifiers drawn from \<open>uuid4\<close>; the lease is in microseconds.\<close>

record pg_store =
  pg_lease :: int
  pg_cycles :: "(string, pg_cycle) dict"
  pg_drawn :: nat

definition pg_store_init :: "int \<Rightarrow> pg_store result" where
  "pg_store_init lease =
     (if lease \<le> 0 then Inl (ValueError ''paper session lease must be positive'')
      else Inr \<lparr>pg_lease = lease, pg_cycles = [], pg_drawn = 0\<rparr>)"

definition set_row :: "string \<Rightarrow> pg_cycle \<Rightarrow> pg_store \<Rightarrow> pg_store" where
  "set_row i row s = s\<lparr>pg_cycles := AList.update i row (pg_cycles s)\<rparr>"

text \<open>
  The row an \<open>INSERT\<close> creates: the columns it names, the table's defaults for the others.  The
  market column is always NSE and is left out; \<open>pg_updated_at\<close> is set by the methods only, the
  default being the database's own clock, which none of them reads.
\<close>

definition new_row :: "string list \<Rightarrow> instant \<Rightarrow> instant \<Rightarrow> pg_cycle" where
  "new_row ids event_time claimed_at =
     \<lparr>pg_feature_record_ids = ids, pg_event_time = event_time, pg_evaluated_at = claimed_at,
      pg_state = ''PENDING'', pg_claim_token = None, pg_locked_until = None, pg_attempt_count = 0,
      pg_decision_cycle_id = None, pg_cycle_mode = None, pg_candidate_count = 0, pg_allocation_count = 0,
      pg_risk_decision_count = 0, pg_order_count = 0, pg_exit_count = 0, pg_last_error_type = None,
      pg_finished_at = None, pg_updated_at = None\<rparr>"

fun cycle_mode_value :: "cycle_mode \<Rightarrow> string" where
  "cycle_mode_value MODE_NORMAL = ''NORMAL''"
| "cycle_mode_value EXITS_ONLY = ''EXITS_ONLY''"

definition cycle_mode_of :: "string \<Rightarrow> cycle_mode result" where
  "cycle_mode_of v =
     (if v = ''NORMAL'' then Inr MODE_NORMAL
      else if v = ''EXITS_ONLY'' then Inr EXITS_ONLY
      else Inl (ValueError (repr_str v @ '' is not a valid CycleMode'')))"

text \<open>\<open>str()\<close> of a column that is NULL is the string None.\<close>

definition result_from_row :: "pg_cycle \<Rightarrow> decision_result option result" where
  "result_from_row row =
     (case pg_decision_cycle_id row of
        None \<Rightarrow> Inr None
      | Some cycle_id \<Rightarrow>
          bind_r (cycle_mode_of (case pg_cycle_mode row of Some v \<Rightarrow> v | None \<Rightarrow> ''None'')) (\<lambda>mode.
          Inr (Some \<lparr>dr_market = NSE, dr_cycle_id = cycle_id, dr_mode = mode,
             dr_candidate_count = pg_candidate_count row, dr_allocation_count = pg_allocation_count row,
             dr_risk_decision_count = pg_risk_decision_count row, dr_order_count = pg_order_count row,
             dr_exit_count = pg_exit_count row\<rparr>)))"

section \<open>The methods\<close>

definition pg_claim ::
  "(nat \<Rightarrow> string) \<Rightarrow> string \<Rightarrow> string list \<Rightarrow> instant \<Rightarrow> instant \<Rightarrow> (pg_store, session_claim) st" where
  "pg_claim uuid4 i ids event_time claimed_at s =
     (let row = (case map_of (pg_cycles s) i of Some row \<Rightarrow> row | None \<Rightarrow> new_row ids event_time claimed_at);
          inserted = set_row i row s;
          claim = (\<lambda>st token prior. \<lparr>pc_state = st, pc_session_cycle_id = i,
             pc_evaluated_at = pg_evaluated_at row, pc_claim_token = token, pc_prior_result = prior\<rparr>)
      in if pg_state row = ''COMPLETED'' then
           (case result_from_row row of
              Inl e \<Rightarrow> (Inl e, s)
            | Inr prior \<Rightarrow> (Inr (claim COMPLETED None prior), inserted))
         else if pg_state row = ''RUNNING''
             \<and> (case pg_locked_until row of None \<Rightarrow> False | Some u \<Rightarrow> claimed_at < u)
           then (Inr (claim BUSY None None), inserted)
         else
           (let token = uuid4 (pg_drawn s); drawn = s\<lparr>pg_drawn := pg_drawn s + 1\<rparr>
            in case dt_add claimed_at (pg_lease s) of
                 Inl e \<Rightarrow> (Inl e, drawn)
               | Inr u \<Rightarrow>
                   (Inr (claim CLAIMED (Some token) None),
                    set_row i (row\<lparr>pg_state := ''RUNNING'', pg_claim_token := Some token,
                                   pg_locked_until := Some u, pg_attempt_count := pg_attempt_count row + 1,
                                   pg_last_error_type := None, pg_updated_at := Some claimed_at\<rparr>) drawn)))"

definition retry_due :: "instant \<Rightarrow> pg_cycle \<Rightarrow> bool" where
  "retry_due as_of row \<longleftrightarrow> pg_state row = ''FAILED''
     \<or> pg_state row = ''RUNNING'' \<and> (case pg_locked_until row of None \<Rightarrow> False | Some u \<Rightarrow> u \<le> as_of)"

text \<open>
  The due cycles by event time and identifier, at most \<open>limit\<close> of them, each with the Gold
  features its row names, by identifier; a cycle none of whose features is in Gold yields no
  row of the join and so no group.
\<close>

definition pg_retryable ::
  "(string \<Rightarrow> feature_record option) \<Rightarrow> nat \<Rightarrow> instant \<Rightarrow> (pg_store, feature_record list list) st" where
  "pg_retryable gold limit as_of s =
     (if limit = 0 then (Inl (ValueError ''paper session retry limit must be positive''), s)
      else
        (let due = filter (\<lambda>(i, row). retry_due as_of row) (pg_cycles s);
             first = take limit (py_sorted (\<lambda>(i, r) (j, q). (pg_event_time r, i) < (pg_event_time q, j)) due)
         in (Inr (filter (\<lambda>fs. fs \<noteq> [])
                (map (\<lambda>(i, row). List.map_filter gold (py_sorted (<) (pg_feature_record_ids row))) first)), s)))"

definition held_row :: "session_claim \<Rightarrow> pg_store \<Rightarrow> pg_cycle option" where
  "held_row claim s =
     (case map_of (pg_cycles s) (pc_session_cycle_id claim) of
        None \<Rightarrow> None
      | Some row \<Rightarrow>
          if pg_state row = ''RUNNING'' \<and> pg_claim_token row \<noteq> None \<and> pg_claim_token row = pc_claim_token claim
          then Some row else None)"

definition pg_complete :: "session_claim \<Rightarrow> decision_result \<Rightarrow> instant \<Rightarrow> (pg_store, unit) st" where
  "pg_complete claim result completed_at s =
     (case held_row claim s of
        None \<Rightarrow> (Inl (RuntimeError ''paper session claim was lost before completion''), s)
      | Some row \<Rightarrow>
          (Inr (), set_row (pc_session_cycle_id claim)
             (row\<lparr>pg_state := ''COMPLETED'', pg_locked_until := None,
                  pg_decision_cycle_id := Some (dr_cycle_id result),
                  pg_cycle_mode := Some (cycle_mode_value (dr_mode result)),
                  pg_candidate_count := dr_candidate_count result,
                  pg_allocation_count := dr_allocation_count result,
                  pg_risk_decision_count := dr_risk_decision_count result,
                  pg_order_count := dr_order_count result, pg_exit_count := dr_exit_count result,
                  pg_finished_at := Some completed_at, pg_updated_at := Some completed_at\<rparr>) s))"

definition pg_fail :: "session_claim \<Rightarrow> instant \<Rightarrow> string \<Rightarrow> (pg_store, unit) st" where
  "pg_fail claim failed_at error_type s =
     (Inr (), case held_row claim s of
        None \<Rightarrow> s
      | Some row \<Rightarrow> set_row (pc_session_cycle_id claim)
          (row\<lparr>pg_state := ''FAILED'', pg_locked_until := None,
               pg_last_error_type := Some (take 200 error_type), pg_updated_at := Some failed_at\<rparr>) s)"

text \<open>
  A session over this store.  \<open>recover\<close> is the statement of \<open>reconcile_exit_plans\<close>, which reads
  positions, decisions and candidates and inserts the exit plans that are missing.
\<close>

definition pg_ops ::
  "(nat \<Rightarrow> string) \<Rightarrow> (string \<Rightarrow> feature_record option) \<Rightarrow> (string \<Rightarrow> ('w, int) st)
     \<Rightarrow> (feature_record list \<Rightarrow> instant \<Rightarrow> ('w, decision_result option) st) \<Rightarrow> ('w \<Rightarrow> datetime \<times> 'w)
     \<Rightarrow> (pg_store, 'w) session_ops" where
  "pg_ops uuid4 gold recover processor clock =
     \<lparr>so_claim = pg_claim uuid4, so_reconcile = recover, so_retryable = pg_retryable gold 10,
      so_complete = pg_complete, so_fail = pg_fail, so_process = processor, so_clock = clock\<rparr>"

section \<open>The database store keeps the contract\<close>

definition pg_result_of :: "pg_store \<Rightarrow> string \<Rightarrow> decision_result option" where
  "pg_result_of s i =
     (case map_of (pg_cycles s) i of
        None \<Rightarrow> None
      | Some row \<Rightarrow>
          if pg_state row = ''COMPLETED''
          then (case result_from_row row of Inl _ \<Rightarrow> None | Inr prior \<Rightarrow> prior) else None)"

text \<open>The table has no market column for results: they come back as NSE.\<close>

abbreviation pg_kept :: "decision_result \<Rightarrow> decision_result" where
  "pg_kept d \<equiv> d\<lparr>dr_market := NSE\<rparr>"

lemma cycle_mode_roundtrip [simp]: "cycle_mode_of (cycle_mode_value mode) = Inr mode"
  by (cases mode) (auto simp: cycle_mode_of_def)

lemma set_row_simps [simp]:
  "pg_lease (set_row i row s) = pg_lease s" "pg_drawn (set_row i row s) = pg_drawn s"
  "pg_cycles (set_row i row s) = AList.update i row (pg_cycles s)"
  by (simp_all add: set_row_def)

lemma set_row_same: "map_of (pg_cycles s) i = Some row \<Longrightarrow> set_row i row s = s"
  by (simp add: set_row_def)

lemma pg_result_of_set:
  "pg_result_of (set_row i row s) = (pg_result_of s)(i :=
     (if pg_state row = ''COMPLETED'' then (case result_from_row row of Inl _ \<Rightarrow> None | Inr prior \<Rightarrow> prior) else None))"
  by (auto simp: pg_result_of_def fun_eq_iff)

lemma pg_result_of_drawn [simp]: "pg_result_of (s\<lparr>pg_drawn := n\<rparr>) = pg_result_of s"
  by (simp add: pg_result_of_def fun_eq_iff)

lemma pg_claim_results:
  assumes "pg_claim uuid4 i ids et now s = (x, s')"
  shows "pg_result_of s' = pg_result_of s"
proof -
  define row where "row = (case map_of (pg_cycles s) i of Some row \<Rightarrow> row | None \<Rightarrow> new_row ids et now)"
  have same: "pg_result_of (set_row i row s) = pg_result_of s"
    by (auto simp: pg_result_of_set pg_result_of_def row_def new_row_def fun_eq_iff split: option.splits)
  have none: "pg_result_of s i = None" if "pg_state row \<noteq> ''COMPLETED''"
    using that by (auto simp: pg_result_of_def row_def split: option.splits)
  have run: "pg_result_of (set_row i (row\<lparr>pg_state := ''RUNNING'', pg_claim_token := a, pg_locked_until := b,
        pg_attempt_count := c, pg_last_error_type := d, pg_updated_at := e\<rparr>) (s\<lparr>pg_drawn := n\<rparr>)) = pg_result_of s"
    if "pg_state row \<noteq> ''COMPLETED''" for a b c d e n
    using none [OF that] by (auto simp: pg_result_of_set fun_eq_iff)
  show ?thesis using assms same run
    by (auto simp: pg_claim_def Let_def simp flip: row_def split: sum.splits if_splits)
qed

lemma pg_claim_cases:
  assumes "pg_claim uuid4 i ids et now s = (Inr c, s')"
  shows "pc_session_cycle_id c = i"
    and "pc_state c = CLAIMED \<Longrightarrow> pg_result_of s i = None"
    and "pc_state c = COMPLETED \<Longrightarrow> pc_prior_result c = pg_result_of s i"
  using assms
  by (auto simp: pg_claim_def pg_result_of_def new_row_def Let_def split: option.splits sum.splits if_splits)

lemma pg_claim_completed:
  assumes "pg_result_of s i = Some r"
  shows "\<exists>c. pg_claim uuid4 i ids et now s = (Inr c, s) \<and> pc_state c = COMPLETED \<and> pc_prior_result c = Some r"
  using assms
  by (auto simp: pg_claim_def pg_result_of_def Let_def set_row_same split: option.splits sum.splits if_splits)

interpretation pg: cycle_store "pg_ops uuid4 gold recover processor clock" pg_result_of pg_kept
  for uuid4 gold recover processor clock
proof
  show "pg_kept r = r" if "pg_result_of s i = Some r" for s i r
    using that by (auto simp: pg_result_of_def result_from_row_def split: option.splits if_splits sum.splits)
qed (auto simp: pg_ops_def pg_claim_completed pg_claim_results pg_claim_cases pg_retryable_def
    pg_complete_def pg_fail_def pg_result_of_set result_from_row_def fun_eq_iff
    split: option.splits if_splits dest: pg_claim_results pg_claim_cases)

section \<open>Watching the processor\<close>

text \<open>
  \<open>watch\<close> instruments a session: its world also lists, in order, the sorted record identifiers
  of the features the processor was called with.  Nothing else changes (\<open>watch_erased\<close>): erasing
  the list gives the calls of the session itself.
\<close>

definition unseen :: "('w \<Rightarrow> 'a \<times> 'w) \<Rightarrow> (string list list \<times> 'w) \<Rightarrow> 'a \<times> (string list list \<times> 'w)" where
  "unseen m w = (case m (snd w) of (r, w') \<Rightarrow> (r, (fst w, w')))"

definition logged ::
  "(feature_record list \<Rightarrow> instant \<Rightarrow> ('w, 'a) st) \<Rightarrow> feature_record list \<Rightarrow> instant \<Rightarrow> (string list list \<times> 'w, 'a) st" where
  "logged processor fs t w =
     (case processor fs t (snd w) of (r, w') \<Rightarrow> (r, (fst w @ [record_ids_of fs], w')))"

definition watch :: "('s, 'w) session_ops \<Rightarrow> ('s, string list list \<times> 'w) session_ops" where
  "watch ops =
     \<lparr>so_claim = so_claim ops, so_reconcile = (\<lambda>a. unseen (so_reconcile ops a)), so_retryable = so_retryable ops,
      so_complete = so_complete ops, so_fail = so_fail ops, so_process = logged (so_process ops),
      so_clock = unseen (so_clock ops)\<rparr>"

lemma watch_pg:
  "watch (pg_ops uuid4 gold recover processor clock)
     = pg_ops uuid4 gold (\<lambda>a. unseen (recover a)) (logged processor) (unseen clock)"
  by (simp add: watch_def pg_ops_def)

interpretation watched: watched_store "watch (pg_ops uuid4 gold recover processor clock)" pg_result_of pg_kept fst
  for uuid4 gold recover processor clock
proof -
  have c: "cycle_store (watch (pg_ops uuid4 gold recover processor clock)) pg_result_of pg_kept"
    unfolding watch_pg by (rule pg.cycle_store_axioms)
  have "watched_store_axioms (watch (pg_ops uuid4 gold recover processor clock)) fst"
    by unfold_locales (auto simp: watch_def pg_ops_def unseen_def logged_def split: prod.splits)
  with c show "watched_store (watch (pg_ops uuid4 gold recover processor clock)) pg_result_of pg_kept fst"
    by (rule watched_store.intro)
qed

definition erased :: "('s, string list list \<times> 'w) session \<Rightarrow> ('s, 'w) session" where
  "erased s = \<lparr>sn_account_id = sn_account_id s, sn_health = sn_health s, sn_store = sn_store s, sn_world = snd (sn_world s)\<rparr>"

definition erases :: "(('s, string list list \<times> 'w) session, 'a) st \<Rightarrow> (('s, 'w) session, 'a) st \<Rightarrow> bool" where
  "erases m m' \<longleftrightarrow> (\<forall>s. map_prod id erased (m s) = m' (erased s))"

lemma erases_bind:
  assumes "erases m m'" and "\<And>x. erases (f x) (f' x)"
  shows "erases (bind_st m f) (bind_st m' f')"
  unfolding erases_def
proof
  fix s
  have m: "m' (erased s) = map_prod id erased (m s)" using assms(1) by (simp add: erases_def)
  show "map_prod id erased (bind_st m f s) = bind_st m' f' (erased s)"
  proof (cases "m s")
    case (Pair x s1)
    then show ?thesis using m assms(2) by (cases x) (auto simp: bind_st_def erases_def)
  qed
qed

lemma erases_return: "erases (return_st x) (return_st x)"
  by (simp add: erases_def return_st_def)

lemma erases_for: "(\<And>x. erases (f x) (f' x)) \<Longrightarrow> erases (for_st f xs) (for_st f' xs)"
  by (induction xs) (simp_all add: erases_bind erases_return)

lemma erases_if: "erases m m' \<Longrightarrow> erases n n' \<Longrightarrow> erases (if b then m else n) (if b then m' else n')"
  by simp

lemma erases_simple:
  "erases (raise_st e) (raise_st e)" "erases (lift_st r) (lift_st r)"
  "erases (on_store m) (on_store m)" "erases (update_health h) (update_health h)"
  "erases (on_world (unseen k)) (on_world k)" "erases (on_world (logged p fs t)) (on_world (p fs t))"
  by (auto simp: erases_def return_st_def raise_st_def lift_st_def on_store_def on_world_def zoom_def erased_def
      update_health_def unseen_def logged_def split: prod.splits sum.splits)

lemmas erases_intros = erases_bind erases_return erases_for erases_if erases_simple

lemma erases_clock: "erases (session_clock (watch ops)) (session_clock ops)"
  by (auto simp: erases_def session_clock_def watch_def on_world_def zoom_def unseen_def erased_def split: prod.splits)

lemma erases_at: "(\<And>a. erases (f a) (f' a)) \<Longrightarrow> erases (\<lambda>s. f (sn_account_id s) s) (\<lambda>s. f' (sn_account_id s) s)"
  by (auto simp: erases_def erased_def)

lemma erases_case_option: "erases m m' \<Longrightarrow> (\<And>x. erases (f x) (f' x)) \<Longrightarrow>
    erases (case x of None \<Rightarrow> m | Some y \<Rightarrow> f y) (case x of None \<Rightarrow> m' | Some y \<Rightarrow> f' y)"
  by (cases x) auto

lemma erases_run: "erases (run_claimed (watch ops) fs c) (run_claimed ops fs c)"
proof -
  have ops: "so_reconcile (watch ops) = (\<lambda>a. unseen (so_reconcile ops a))" "so_process (watch ops) = logged (so_process ops)"
    "so_complete (watch ops) = so_complete ops" by (simp_all add: watch_def)
  show ?thesis unfolding run_claimed_def ops
    by (rule erases_at) (intro erases_intros erases_case_option erases_clock)
qed

lemma erases_try: "erases (try_claimed (watch ops) fs c) (try_claimed ops fs c)"
proof -
  have f: "erases (record_failure (watch ops) c e) (record_failure ops c e :: (_, session_run) st)" for e
  proof -
    have "so_fail (watch ops) = so_fail ops" by (simp add: watch_def)
    then show ?thesis unfolding record_failure_def by (simp only:) (intro erases_intros erases_clock)
  qed
  have r: "run_claimed ops fs c (erased s) = map_prod id erased (run_claimed (watch ops) fs c s)" for s
    using erases_run [of ops fs c] by (simp add: erases_def)
  show ?thesis unfolding erases_def try_claimed_def r
  proof
    fix s
    show "map_prod id erased (case run_claimed (watch ops) fs c s of (Inr r, s') \<Rightarrow> (Inr r, s')
        | (Inl e, s') \<Rightarrow> record_failure (watch ops) c e s')
      = (case map_prod id erased (run_claimed (watch ops) fs c s) of (Inr r, s') \<Rightarrow> (Inr r, s')
        | (Inl e, s') \<Rightarrow> record_failure ops c e s')"
    proof (cases "run_claimed (watch ops) fs c s")
      case (Pair x s1)
      then show ?thesis using f by (cases x) (auto simp: erases_def)
    qed
  qed
qed

lemma erases_one: "erases (process_one (watch ops) fs) (process_one ops fs)"
proof -
  have "so_claim (watch ops) = so_claim ops" by (simp add: watch_def)
  then have front: "erases (process_front (watch ops) fs) (process_front ops fs)"
    unfolding process_front_def
    by (simp only:) (rule erases_at, intro erases_intros erases_clock)
  have tail: "erases (process_back (watch ops) fs i c) (process_back ops fs i c)" for i c
    unfolding process_back_def by (cases "pc_state c") (auto intro!: erases_intros erases_try)
  show ?thesis unfolding process_one_def by (rule erases_at) (intro erases_bind front tail)
qed

lemma watch_erased: "erases (session_process (watch ops) fs) (session_process ops fs)"
proof -
  have "so_retryable (watch ops) = so_retryable ops" by (simp add: watch_def)
  moreover have "erases (retry_one (watch ops) cur r) (retry_one ops cur r)" for cur r
  proof -
    have "erased (snd (process_one (watch ops) r s)) = snd (process_one ops r (erased s))" for s
      using erases_one [of ops r] unfolding erases_def by (metis snd_map_prod)
    then show ?thesis by (simp add: erases_def retry_one_def)
  qed
  ultimately show ?thesis unfolding session_process_def
    by (simp only:) (intro erases_intros erases_clock erases_one)
qed

end
