(* ===== verification/Decision_Service.thy ===== *)
theory Decision_Service
  imports Market_Context Pipeline_Properties Lifecycle Paper_Batch Postgres_Session Technical
begin

text \<open>
  The service of src/src/nanodelta/runtime/paper_decision.py, which composes a whole paper
  cycle: it values the account, manages protective exits, builds the contexts of the new
  feature rows from cached quotes and regimes, runs the decision pipeline and hands its
  allocations to risk and execution.  As in the deployment (runtime/realtime_config.py) the
  exits and the batch share one execution engine and one decision ledger, which are held in
  the state of \<open>Lifecycle\<close>; opening and closing connections and observing metrics are left
  out.
\<close>

section \<open>State\<close>

record quote_snapshot =
  qs_upper_circuit_limit :: pyfloat
  qs_lower_circuit_limit :: pyfloat
  qs_best_bid :: "pyfloat option"
  qs_best_ask :: "pyfloat option"

record 'w decision_service =
  sv_db :: "'w database"
  sv_pipeline :: pipeline
  sv_limits :: risk_limits
  sv_account_id :: string
  sv_equity :: pyfloat
  sv_tradeability :: tradeability_limits
  sv_symbol_regime :: symbol_regime_limits
  sv_max_age :: pyfloat
  sv_clock :: "'w \<Rightarrow> datetime \<times> 'w"
  sv_manages_exits :: bool
  sv_entry_session_open :: "market \<Rightarrow> instant \<Rightarrow> bool result"
  sv_quote_client :: "(string list \<Rightarrow> ('w, (string, quote_snapshot) dict) st) option"
  sv_iterate :: "string list \<Rightarrow> string list"

record 'w service_state =
  ss_lifecycle :: lifecycle
  ss_quote_cache :: "(string, quote_snapshot) dict"
  ss_quote_cache_at :: "(string, instant) dict"
  ss_market_regime_cache :: "regime_breadth option"
  ss_market_regime_cache_at :: "instant option"
  ss_sector_regime_cache :: "(string, regime_breadth) dict"
  ss_sector_regime_cache_at :: "(string, instant) dict"
  ss_world :: 'w

definition decision_service_init :: "'w decision_service \<Rightarrow> 'w decision_service result" where
  "decision_service_init sv =
     (if str_strip (sv_account_id sv) = [] \<or> sv_equity sv \<le> 0 \<or> sv_max_age sv \<le> 0
        then Inl (ValueError ''paper account, equity and feature age must be positive'')
      else bind_r (pipeline_init (sv_pipeline sv)) (\<lambda>_. Inr sv))"

definition service_state_init :: "lifecycle \<Rightarrow> 'w \<Rightarrow> 'w service_state" where
  "service_state_init l w =
     \<lparr>ss_lifecycle = l, ss_quote_cache = [], ss_quote_cache_at = [], ss_market_regime_cache = None,
      ss_market_regime_cache_at = None, ss_sector_regime_cache = [], ss_sector_regime_cache_at = [], ss_world = w\<rparr>"

definition in_world :: "('w, 'a) st \<Rightarrow> ('w service_state, 'a) st" where
  "in_world = zoom ss_world (\<lambda>w s. s\<lparr>ss_world := w\<rparr>)"

definition in_lifecycle :: "(lifecycle, 'a) st \<Rightarrow> ('w service_state, 'a) st" where
  "in_lifecycle = zoom ss_lifecycle (\<lambda>l s. s\<lparr>ss_lifecycle := l\<rparr>)"

definition in_ledger :: "(ledger, 'a) st \<Rightarrow> ('w service_state, 'a) st" where
  "in_ledger m = in_lifecycle (zoom lf_ledger (\<lambda>d l. l\<lparr>lf_ledger := d\<rparr>) m)"

definition in_batch :: "(batch_state, 'a) st \<Rightarrow> ('w service_state, 'a) st" where
  "in_batch m = in_lifecycle (zoom (\<lambda>l. \<lparr>bs_engine = lf_engine l, bs_ledger = lf_ledger l\<rparr>)
     (\<lambda>b l. l\<lparr>lf_engine := bs_engine b, lf_ledger := bs_ledger b\<rparr>) m)"

definition update_state :: "('w service_state \<Rightarrow> 'w service_state) \<Rightarrow> ('w service_state, unit) st" where
  "update_state f s = (Inr (), f s)"

definition get_state :: "('w service_state \<Rightarrow> 'a) \<Rightarrow> ('w service_state, 'a) st" where
  "get_state f s = (Inr (f s), s)"

section \<open>Cached quotes and regimes\<close>

definition regime_timeframe :: string where "regime_timeframe = ''15m''"

definition quote_stale :: "instant \<Rightarrow> 'w service_state \<Rightarrow> string \<Rightarrow> bool" where
  "quote_stale now s symbol \<longleftrightarrow>
     (case map_of (ss_quote_cache_at s) symbol of
        None \<Rightarrow> True
      | Some cached_at \<Rightarrow> Fin 30 \<le> total_seconds (now - cached_at))"

definition cache_quote ::
  "instant \<Rightarrow> (string, quote_snapshot) dict \<Rightarrow> string \<Rightarrow> 'w service_state \<Rightarrow> 'w service_state" where
  "cache_quote now fetched symbol s =
     (let s' = (case map_of fetched symbol of
                  None \<Rightarrow> s
                | Some q \<Rightarrow> s\<lparr>ss_quote_cache := AList.update symbol q (ss_quote_cache s)\<rparr>)
      in s'\<lparr>ss_quote_cache_at := AList.update symbol now (ss_quote_cache_at s')\<rparr>)"

definition refresh_quotes :: "'w decision_service \<Rightarrow> string list \<Rightarrow> instant \<Rightarrow> ('w service_state, unit) st" where
  "refresh_quotes sv symbols now s =
     (case sv_quote_client sv of
        None \<Rightarrow> (Inr (), s)
      | Some fetch \<Rightarrow>
          (let stale = py_sorted (<) (dict_fromkeys (filter (quote_stale now s) symbols)) in
           if stale = [] then (Inr (), s)
           else case in_world (fetch stale) s of
             (Inl _, s') \<Rightarrow> (Inr (), s')
           | (Inr fetched, s') \<Rightarrow> (Inr (), fold (cache_quote now fetched) stale s')))"

text \<open>A regime that is younger than a minute is reused.\<close>

definition regime_fresh :: "instant \<Rightarrow> instant option \<Rightarrow> bool" where
  "regime_fresh now cached_at =
     (case cached_at of None \<Rightarrow> False | Some t \<Rightarrow> total_seconds (now - t) < Fin 60)"

definition breadth_regime ::
  "'w decision_service \<Rightarrow> market \<Rightarrow> int \<Rightarrow> (string \<Rightarrow> bool) \<Rightarrow> ('w, regime_breadth) st" where
  "breadth_regime sv m minimum_symbols wanted =
     bind_st (db_universe (sv_db sv) m regime_timeframe) (\<lambda>symbols.
     bind_st (fetch_breadth_inputs (sv_db sv) m (filter wanted symbols) regime_timeframe) (\<lambda>inputs.
     lift_st (classify_breadth (sv_iterate sv) minimum_symbols inputs)))"

definition with_risk_off :: "indicators option \<Rightarrow> regime_breadth \<Rightarrow> regime_breadth result" where
  "with_risk_off vix breadth =
     (case vix of
        None \<Rightarrow> Inr breadth
      | Some values \<Rightarrow> bind_r (feature_item values ''close'') (\<lambda>close.
          let risk_off = classify_risk_off close in
          Inr \<lparr>rb_label = rb_label breadth @ ''_'' @ rb_label risk_off, rb_fit = rb_fit breadth * rb_fit risk_off\<rparr>))"

definition compute_market_regime :: "'w decision_service \<Rightarrow> market \<Rightarrow> ('w, regime_breadth) st" where
  "compute_market_regime sv m =
     bind_st (if m = NSE then fetch_index_snapshot (sv_db sv) market_index_symbol regime_timeframe
              else return_st None) (\<lambda>index.
     case index of
       Some values \<Rightarrow>
         bind_st (lift_st (classify_index_regime values)) (\<lambda>breadth.
         bind_st (fetch_index_snapshot (sv_db sv) vix_symbol regime_timeframe) (\<lambda>vix.
         lift_st (with_risk_off vix breadth)))
     | None \<Rightarrow> breadth_regime sv m 5 (\<lambda>_. True))"

definition market_regime :: "'w decision_service \<Rightarrow> market \<Rightarrow> instant \<Rightarrow> ('w service_state, regime_breadth) st" where
  "market_regime sv m now s =
     (case ss_market_regime_cache s of
        Some cached \<Rightarrow>
          if regime_fresh now (ss_market_regime_cache_at s) then (Inr cached, s)
          else bind_st (in_world (compute_market_regime sv m)) (\<lambda>breadth.
                 bind_st (update_state (\<lambda>s. s\<lparr>ss_market_regime_cache := Some breadth,
                                             ss_market_regime_cache_at := Some now\<rparr>))
                   (\<lambda>_. return_st breadth)) s
      | None \<Rightarrow>
          bind_st (in_world (compute_market_regime sv m)) (\<lambda>breadth.
          bind_st (update_state (\<lambda>s. s\<lparr>ss_market_regime_cache := Some breadth,
                                      ss_market_regime_cache_at := Some now\<rparr>))
            (\<lambda>_. return_st breadth)) s)"

definition compute_sector_regime :: "'w decision_service \<Rightarrow> market \<Rightarrow> string \<Rightarrow> ('w, regime_breadth) st" where
  "compute_sector_regime sv m sector =
     bind_st (case (if m = NSE then map_of sector_index_symbol sector else None) of
                None \<Rightarrow> return_st None
              | Some index \<Rightarrow> fetch_index_snapshot (sv_db sv) index regime_timeframe) (\<lambda>values.
     case values of
       Some v \<Rightarrow> lift_st (classify_index_regime v)
     | None \<Rightarrow> breadth_regime sv m 3 (\<lambda>s. sector_for s = Some sector))"

definition sector_regime ::
  "'w decision_service \<Rightarrow> market \<Rightarrow> string \<Rightarrow> instant \<Rightarrow> ('w service_state, regime_breadth) st" where
  "sector_regime sv m sector now s =
     (case (map_of (ss_sector_regime_cache s) sector, regime_fresh now (map_of (ss_sector_regime_cache_at s) sector)) of
        (Some cached, True) \<Rightarrow> (Inr cached, s)
      | _ \<Rightarrow>
          bind_st (in_world (compute_sector_regime sv m sector)) (\<lambda>breadth.
          bind_st (update_state (\<lambda>s. s\<lparr>
              ss_sector_regime_cache := AList.update sector breadth (ss_sector_regime_cache s),
              ss_sector_regime_cache_at := AList.update sector now (ss_sector_regime_cache_at s)\<rparr>))
            (\<lambda>_. return_st breadth)) s)"

definition market_sector_fit ::
  "'w decision_service \<Rightarrow> market \<Rightarrow> string option \<Rightarrow> instant \<Rightarrow> ('w service_state, pyfloat \<times> pyfloat) st" where
  "market_sector_fit sv m sector now =
     bind_st (market_regime sv m now) (\<lambda>market_breadth.
     case sector of
       None \<Rightarrow> return_st (rb_fit market_breadth, 1)
     | Some name \<Rightarrow> bind_st (sector_regime sv m name now) (\<lambda>b. return_st (rb_fit market_breadth, rb_fit b)))"

section \<open>Contexts\<close>

definition feature_fresh :: "'w decision_service \<Rightarrow> feature_record \<Rightarrow> instant \<Rightarrow> bool" where
  "feature_fresh sv f now \<longleftrightarrow>
     (let age = total_seconds (now - ft_event_time f) in 0 \<le> age \<and> age \<le> sv_max_age sv)"

definition feature_context ::
  "'w decision_service \<Rightarrow> feature_record \<Rightarrow> instant \<Rightarrow> int \<Rightarrow> indicators \<Rightarrow> bool \<Rightarrow> string \<Rightarrow> regime_evidence
     \<Rightarrow> strategy_context result" where
  "feature_context sv f now version values tradeable reason regime =
     bind_r (regime_evidence_post_init regime) (\<lambda>evidence.
     strategy_context_post_init
       \<lparr>sc_market = ft_market f, sc_symbol = ft_symbol f, sc_sector = sector_for (ft_symbol f),
        sc_timeframe = ft_timeframe f, sc_trade_horizon = ''intraday'', sc_feature_set_version = version,
        sc_event_time = Aware (ft_event_time f), sc_gold_snapshot_ids = [ft_record_id f], sc_features = values,
        sc_settled = True, sc_complete = True, sc_adjusted = True, sc_fresh = feature_fresh sv f now,
        sc_warm = True, sc_tradeable = tradeable, sc_tradeability_reason = reason,
        sc_regime = evidence\<rparr>)"

definition basic_context :: "'w decision_service \<Rightarrow> instant \<Rightarrow> feature_record \<Rightarrow> ('w service_state, strategy_context) st" where
  "basic_context sv now f =
     bind_st (market_sector_fit sv (ft_market f) (sector_for (ft_symbol f)) now) (\<lambda>(market_fit, sector_fit).
     lift_st (feature_context sv f now (ft_feature_version f)
       ([(''close'', ft_close f), (''return_1'', ft_return_1 f), (''range_pct'', ft_range_pct f),
         (''body_pct'', ft_body_pct f)]
        @ (case ft_volume_change f of None \<Rightarrow> [] | Some v \<Rightarrow> [(''volume_change'', v)]))
       True ''TRADEABLE''
       \<lparr>re_market_fit = market_fit, re_sector_fit = sector_fit, re_symbol_fit = 1, re_mtf_alignment = 1,
        re_symbol_regime_label = ''UNKNOWN''\<rparr>))"

definition higher_timeframe :: "(string, string) dict" where
  "higher_timeframe = [(''1m'', ''5m''), (''5m'', ''15m''), (''15m'', ''1h''), (''30m'', ''1h''), (''1h'', ''1d'')]"

definition mtf_fit :: "bool option \<Rightarrow> pyfloat" where
  "mtf_fit aligned = evaluate_mtf_alignment aligned (rnd64 (115 / 100)) (Fin (3 / 4)) 1"

definition mtf_alignment ::
  "'w decision_service \<Rightarrow> feature_record \<Rightarrow> indicators \<Rightarrow> ('w service_state, pyfloat) st" where
  "mtf_alignment sv f values =
     (case map_of higher_timeframe (ft_timeframe f) of
        None \<Rightarrow> return_st (mtf_fit None)
      | Some higher \<Rightarrow>
          bind_st (in_world (latest_technical_features (sv_db sv) (ft_market f) (ft_symbol f) higher)) (\<lambda>found.
          case found of
            None \<Rightarrow> return_st (mtf_fit None)
          | Some hv \<Rightarrow>
              bind_st (lift_st (bullish values)) (\<lambda>current.
              bind_st (lift_st (bullish hv)) (\<lambda>higher_bullish.
              return_st (mtf_fit (Some (current = higher_bullish)))))))"

definition technical_context ::
  "'w decision_service \<Rightarrow> instant \<Rightarrow> feature_record \<Rightarrow> ('w service_state, strategy_context option) st" where
  "technical_context sv now f =
     bind_st (in_world (latest_technical_snapshot (sv_db sv) (ft_market f) (ft_symbol f) (ft_timeframe f))) (\<lambda>found.
     case found of
       None \<Rightarrow> return_st None
     | Some (values, candles) \<Rightarrow>
         bind_st (get_state (\<lambda>s. map_of (ss_quote_cache s) (ft_symbol f))) (\<lambda>quote.
         bind_st (lift_st (feature_item values ''atr_14'')) (\<lambda>atr_14.
         let (tradeable, reason) = evaluate_tradeability candles atr_14 (sv_tradeability sv) (Some (ft_timeframe f))
               (map_option (\<lambda>q. (qs_lower_circuit_limit q, qs_upper_circuit_limit q)) quote)
               (Option.bind quote qs_best_bid) (Option.bind quote qs_best_ask) in
         bind_st (lift_st (evaluate_symbol_regime values (sv_symbol_regime sv))) (\<lambda>(symbol_fit, _).
         bind_st (lift_st (classify_regime_label values (sv_symbol_regime sv))) (\<lambda>label.
         bind_st (market_sector_fit sv (ft_market f) (sector_for (ft_symbol f)) now) (\<lambda>(market_fit, sector_fit).
         bind_st (mtf_alignment sv f values) (\<lambda>alignment.
         bind_st (lift_st (feature_context sv f now technical_feature_version values tradeable reason
           \<lparr>re_market_fit = market_fit, re_sector_fit = sector_fit, re_symbol_fit = symbol_fit,
            re_mtf_alignment = alignment, re_symbol_regime_label = label\<rparr>)) (\<lambda>c.
         return_st (Some c)))))))))"

section \<open>The cycle\<close>

definition marks_with :: "(string \<times> pyfloat) list \<Rightarrow> feature_record list \<Rightarrow> (string, pyfloat) dict" where
  "marks_with rows features =
     fold (\<lambda>(s, x). AList.update s x) (rows @ map (\<lambda>f. (ft_symbol f, ft_close f)) features) []"

definition golds_of :: "feature_record list \<Rightarrow> (string, string) dict" where
  "golds_of features = fold (\<lambda>f. AList.update (ft_symbol f) (ft_record_id f)) features []"

definition live_quotes_of :: "feature_record list \<Rightarrow> (market \<times> string, pyfloat) dict" where
  "live_quotes_of features = fold (\<lambda>f. AList.update (ft_market f, ft_symbol f) (ft_close f)) features []"

definition service_portfolio ::
  "'w decision_service \<Rightarrow> market \<Rightarrow> (string, pyfloat) dict \<Rightarrow> instant \<Rightarrow> ('w service_state, portfolio_snapshot) st" where
  "service_portfolio sv m marks now =
     in_world (build_portfolio_snapshot (sv_db sv) m (sv_account_id sv) (sv_equity sv) marks now)"

definition correlations_of ::
  "'w decision_service \<Rightarrow> market \<Rightarrow> string list \<Rightarrow> ('w service_state, (string \<times> string, pyfloat) dict) st" where
  "correlations_of sv m symbols =
     (let distinct_symbols = py_sorted (<) (dict_fromkeys symbols) in
      if length distinct_symbols < 2 then return_st []
      else in_world (fetch_return_correlations (sv_db sv) m distinct_symbols))"

text \<open>The exits, and the portfolio after them.\<close>

definition manage_exits ::
  "'w decision_service \<Rightarrow> market \<Rightarrow> (string, pyfloat) dict \<Rightarrow> feature_record list \<Rightarrow> instant
     \<Rightarrow> ('w service_state, portfolio_snapshot \<times> string list) st" where
  "manage_exits sv m marks features now =
     bind_st (service_portfolio sv m marks now) (\<lambda>portfolio.
     if \<not> sv_manages_exits sv then return_st (portfolio, [])
     else
       bind_st (in_lifecycle (manage (sv_limits sv) m (sv_account_id sv) marks portfolio (golds_of features) (Aware now)))
         (\<lambda>outcomes.
       let exited = dict_fromkeys (map oc_symbol outcomes) in
       if outcomes = [] then return_st (portfolio, exited)
       else bind_st (service_portfolio sv m marks now) (\<lambda>p. return_st (p, exited))))"

text \<open>The contexts of the features whose symbol was not exited.\<close>

definition cycle_contexts ::
  "'w decision_service \<Rightarrow> instant \<Rightarrow> feature_record list \<Rightarrow> ('w service_state, strategy_context list) st" where
  "cycle_contexts sv now eligible_features =
     bind_st (refresh_quotes sv (map ft_symbol eligible_features) now) (\<lambda>_.
     bind_st (for_st (basic_context sv now) eligible_features) (\<lambda>basic.
     bind_st (for_st (technical_context sv now) eligible_features) (\<lambda>technical.
     return_st (basic @ List.map_filter id technical))))"

definition decide_and_execute ::
  "'w decision_service \<Rightarrow> market \<Rightarrow> feature_record list \<Rightarrow> feature_record list \<Rightarrow> portfolio_snapshot \<Rightarrow> instant
     \<Rightarrow> strategy_context list \<Rightarrow> ('w service_state, pipeline_result \<times> batch_result) st" where
  "decide_and_execute sv m features eligible_features portfolio now contexts =
     bind_st (lift_st (sv_entry_session_open sv m now)) (\<lambda>session_open.
     bind_st (correlations_of sv m (map ft_symbol eligible_features)) (\<lambda>correlations.
     bind_st (in_ledger (run (sv_pipeline sv) contexts
         \<lparr>cp_entry_kill_switch_clear = True, cp_daily_loss_capacity = True, cp_entry_session_open = session_open,
          cp_capital_available = True\<rparr> (Aware now) (live_quotes_of features)
         (map (\<lambda>p. (pp_market p, pp_symbol p)) (ps_positions portfolio)) correlations)) (\<lambda>result.
     bind_st (in_batch (batch_execute (pl_registry (sv_pipeline sv)) (sv_limits sv) result (sv_account_id sv) portfolio
         (Aware now))) (\<lambda>batch.
     bind_st (if sv_manages_exits sv \<and> br_receipts batch \<noteq> []
              then in_lifecycle (lifecycle_register (pr_allocations result) (br_receipts batch)) else return_st ()) (\<lambda>_.
     return_st (result, batch))))))"

definition exit_only_result ::
  "'w decision_service \<Rightarrow> market \<Rightarrow> feature_record list \<Rightarrow> string list \<Rightarrow> decision_result" where
  "exit_only_result sv m features exited =
     \<lparr>dr_market = m,
      dr_cycle_id = stable_id [''paper-exit-only-cycle'', market_value m, sv_account_id sv,
        repr_tuple (map repr_str (py_sorted (<) (map ft_record_id features)))],
      dr_mode = EXITS_ONLY, dr_candidate_count = 0, dr_allocation_count = 0, dr_risk_decision_count = 0,
      dr_order_count = 0, dr_exit_count = int (length exited)\<rparr>"

definition cycle_result :: "market \<Rightarrow> string list \<Rightarrow> pipeline_result \<Rightarrow> batch_result \<Rightarrow> decision_result" where
  "cycle_result m exited result batch =
     \<lparr>dr_market = m, dr_cycle_id = pr_cycle_id result, dr_mode = pr_mode result,
      dr_candidate_count = int (length (pr_candidates result)),
      dr_allocation_count = int (length (pr_allocations result)),
      dr_risk_decision_count = int (length (br_risk_decisions batch)),
      dr_order_count = int (length (br_receipts batch)), dr_exit_count = int (length exited)\<rparr>"

definition service_process ::
  "'w decision_service \<Rightarrow> feature_record list \<Rightarrow> datetime option \<Rightarrow> ('w service_state, decision_result option) st" where
  "service_process sv features evaluated_at =
     (if features = [] then return_st None
      else
        bind_st (case evaluated_at of Some t \<Rightarrow> return_st t
                 | None \<Rightarrow> in_world (\<lambda>w. let (t, w') = sv_clock sv w in (Inr t, w'))) (\<lambda>t.
        bind_st (lift_st (utc t ''evaluated_at'')) (\<lambda>now.
        let m = ft_market (hd features) in
        if \<exists>f \<in> set features. ft_market f \<noteq> m
        then raise_st (ValueError ''one paper decision cycle cannot mix markets'')
        else
          bind_st (in_world (db_marks (sv_db sv) m)) (\<lambda>rows.
          let marks = marks_with rows features in
          bind_st (manage_exits sv m marks features now) (\<lambda>(portfolio, exited).
          let eligible_features = filter (\<lambda>f. ft_symbol f \<notin> set exited) features in
          bind_st (cycle_contexts sv now eligible_features) (\<lambda>contexts.
          if contexts = [] then return_st (Some (exit_only_result sv m features exited))
          else
            bind_st (decide_and_execute sv m features eligible_features portfolio now contexts) (\<lambda>(result, batch).
            return_st (Some (cycle_result m exited result batch)))))))))"


text \<open>Any history of cycles of one service, failing ones among them.\<close>

definition service_after ::
  "'w decision_service \<Rightarrow> (feature_record list \<times> datetime option) list \<Rightarrow> 'w service_state \<Rightarrow> 'w service_state" where
  "service_after sv calls s = foldl (\<lambda>s (features, evaluated_at). snd (service_process sv features evaluated_at s)) s calls"

section \<open>The cached regimes\<close>

definition bounded_regime :: "regime_breadth \<Rightarrow> bool" where
  "bounded_regime b \<longleftrightarrow> fit_between (1 / 4) 4 (rb_fit b)"

definition regimes_bounded :: "'w service_state \<Rightarrow> bool" where
  "regimes_bounded s \<longleftrightarrow> pred_option bounded_regime (ss_market_regime_cache s)
     \<and> list_all (\<lambda>(_, b). bounded_regime b) (ss_sector_regime_cache s)"

lemma breadth_regime_bounded:
  "breadth_regime sv m n wanted w = (Inr b, w') \<Longrightarrow> bounded_regime b"
  by (auto simp: breadth_regime_def bounded_regime_def dest!: breadth_ok intro: fit_weaken)

lemma with_risk_off_bounded:
  assumes "with_risk_off vix b = Inr b'" and "fit_between (1 / 2) 2 (rb_fit b)"
  shows "bounded_regime b'"
  using assms fit_product [OF assms(2) risk_off_ok]
  by (auto simp: with_risk_off_def bounded_regime_def Let_def fit_weaken split: option.splits)

lemma compute_market_regime_bounded:
  assumes "compute_market_regime sv m w = (Inr b, w')"
  shows "bounded_regime b"
  using assms unfolding compute_market_regime_def
  by (auto split: option.splits dest!: breadth_regime_bounded index_regime_ok with_risk_off_bounded)

lemma compute_sector_regime_bounded:
  assumes "compute_sector_regime sv m sector w = (Inr b, w')"
  shows "bounded_regime b"
  using assms unfolding compute_sector_regime_def
  by (auto split: option.splits dest!: breadth_regime_bounded index_regime_ok simp: bounded_regime_def fit_weaken)

lemma list_all_update:
  "list_all (\<lambda>(_, b). P b) d \<Longrightarrow> P v \<Longrightarrow> list_all (\<lambda>(_, b). P b) (AList.update k v d)"
  by (induction d) auto

lemma list_all_map_of: "list_all (\<lambda>(_, b). P b) d \<Longrightarrow> map_of d k = Some v \<Longrightarrow> P v"
  by (auto simp: list_all_iff dest!: map_of_SomeD)

lemma in_world_iff:
  "in_world m s = (x, s') \<longleftrightarrow> (\<exists>w. m (ss_world s) = (x, w) \<and> s' = s\<lparr>ss_world := w\<rparr>)"
  by (simp add: in_world_def zoom_iff)

lemma market_regime_bounded:
  assumes "market_regime sv m now s = (x, s')" and "regimes_bounded s"
  shows "regimes_bounded s' \<and> (\<forall>b. x = Inr b \<longrightarrow> bounded_regime b)"
  using assms compute_market_regime_bounded [of sv m "ss_world s"]
  by (auto simp: market_regime_def bind_st_def in_world_def zoom_def update_state_def return_st_def
      regimes_bounded_def split: option.splits if_splits prod.splits sum.splits)

lemma sector_regime_bounded:
  assumes "sector_regime sv m sector now s = (x, s')" and "regimes_bounded s"
  shows "regimes_bounded s' \<and> (\<forall>b. x = Inr b \<longrightarrow> bounded_regime b)"
  using assms compute_sector_regime_bounded [of sv m sector "ss_world s"]
  by (auto simp: sector_regime_def bind_st_def in_world_def zoom_def update_state_def return_st_def
      regimes_bounded_def list_all_update dest: list_all_map_of
      split: option.splits bool.splits prod.splits sum.splits)


lemma market_sector_fit_bounded:
  assumes "market_sector_fit sv m sector now s = (x, s')" and "regimes_bounded s"
  shows "regimes_bounded s'
    \<and> (\<forall>a b. x = Inr (a, b) \<longrightarrow> fit_between (1 / 4) 4 a \<and> fit_between (1 / 4) 4 b)"
proof -
  obtain y s1 where m: "market_regime sv m now s = (y, s1)" by fastforce
  note b1 = market_regime_bounded [OF m assms(2)]
  have one: "fit_between (1 / 4) 4 1" by (rule fit_weaken [OF fit_literals(1)])
  show ?thesis
  proof (cases "y"; cases sector)
    fix b name assume y: "y = Inr b" "sector = Some name"
    obtain z s2 where z: "sector_regime sv m name now s1 = (z, s2)" by fastforce
    then have "regimes_bounded s2 \<and> (\<forall>b. z = Inr b \<longrightarrow> bounded_regime b)"
      using sector_regime_bounded b1 by blast
    then show ?thesis using assms(1) m y z b1
      by (cases z) (auto simp: market_sector_fit_def bind_st_def return_st_def bounded_regime_def)
  qed (use assms(1) m b1 one in \<open>auto simp: market_sector_fit_def bind_st_def return_st_def bounded_regime_def\<close>)
qed

text \<open>
  Building the contexts changes the world, the quotes and the regime caches only: what those
  three keep is kept.
\<close>

lemma keeps_case_option [keeps_intros]:
  "keeps P m \<Longrightarrow> (\<And>x. keeps P (f x)) \<Longrightarrow> keeps P (case opt of None \<Rightarrow> m | Some x \<Rightarrow> f x)"
  by (cases opt) auto

lemma keeps_case_prod [keeps_intros]: "(\<And>x y. keeps P (f x y)) \<Longrightarrow> keeps P (case p of (x, y) \<Rightarrow> f x y)"
  by (cases p) auto

lemma keeps_get_state: "keeps P (get_state g)"
  by (simp add: keeps_def get_state_def)

locale context_invariant =
  fixes sv :: "'w decision_service" and P :: "'w service_state \<Rightarrow> bool"
  assumes world_keeps: "P s \<Longrightarrow> P (s\<lparr>ss_world := w\<rparr>)"
    and quote_keeps: "P s \<Longrightarrow> P (cache_quote now fetched symbol s)"
    and market_regime_keeps: "keeps P (market_regime sv m now)"
    and sector_regime_keeps: "keeps P (sector_regime sv m sector now)"
begin

lemma in_world_keeps: "keeps P (in_world m)"
  by (auto simp: in_world_def intro!: keeps_zoom world_keeps)

lemma refresh_keeps: "keeps P (refresh_quotes sv symbols now)"
proof -
  have "P s \<Longrightarrow> P (fold (cache_quote now fetched) stale s)" for fetched stale s
    by (induction stale arbitrary: s) (auto intro: quote_keeps)
  then show ?thesis
    by (auto simp: keeps_def refresh_quotes_def Let_def in_world_def zoom_def world_keeps
        split: option.split sum.split prod.split)
qed

lemma fit_keeps: "keeps P (market_sector_fit sv m sector now)"
  unfolding market_sector_fit_def by (intro keeps_intros market_regime_keeps sector_regime_keeps)

lemma basic_keeps: "keeps P (basic_context sv now f)"
  unfolding basic_context_def by (intro keeps_intros fit_keeps)

lemma technical_keeps: "keeps P (technical_context sv now f)"
  unfolding technical_context_def mtf_alignment_def Let_def
  by (intro keeps_intros in_world_keeps fit_keeps keeps_get_state)

lemma contexts_keep: "keeps P (cycle_contexts sv now fs)"
  unfolding cycle_contexts_def by (intro keeps_intros refresh_keeps basic_keeps technical_keeps)

end

interpretation regimes: context_invariant sv regimes_bounded for sv
proof
  show "regimes_bounded s \<Longrightarrow> regimes_bounded (s\<lparr>ss_world := w\<rparr>)" for s w by (simp add: regimes_bounded_def)
  show "regimes_bounded s \<Longrightarrow> regimes_bounded (cache_quote now fetched symbol s)" for s now fetched symbol
    by (simp add: cache_quote_def regimes_bounded_def Let_def split: option.split)
  show "keeps regimes_bounded (market_regime sv m now)" for m now
    unfolding keeps_def using market_regime_bounded by (metis prod.collapse)
  show "keeps regimes_bounded (sector_regime sv m sector now)" for m sector now
    unfolding keeps_def using sector_regime_bounded by (metis prod.collapse)
qed

lemma regime_caches_local:
  "keeps (\<lambda>s. ss_lifecycle s = l) (market_regime sv m now)"
  "keeps (\<lambda>s. ss_lifecycle s = l) (sector_regime sv m sector now)"
  by (auto simp: keeps_def market_regime_def sector_regime_def bind_st_def in_world_def zoom_def update_state_def
      return_st_def split: option.splits bool.splits prod.splits sum.splits)

interpretation account: context_invariant sv "\<lambda>s. ss_lifecycle s = l" for sv l
  by unfold_locales (auto simp: cache_quote_def Let_def regime_caches_local split: option.split)

lemma keeps_in_lifecycle: "keeps regimes_bounded (in_lifecycle l)"
  by (auto simp: in_lifecycle_def regimes_bounded_def intro!: keeps_zoom)

lemmas service_keeps = regimes.in_world_keeps keeps_in_lifecycle regimes.contexts_keep

lemma keeps_manage_exits: "keeps regimes_bounded (manage_exits sv m marks features now)"
  unfolding manage_exits_def service_portfolio_def Let_def by (intro keeps_intros service_keeps)

lemma keeps_service_process: "keeps regimes_bounded (service_process sv features evaluated_at)"
  unfolding service_process_def decide_and_execute_def correlations_of_def in_ledger_def in_batch_def Let_def
  by (intro keeps_intros service_keeps keeps_manage_exits)

lemma service_after_bounded:
  "regimes_bounded s \<Longrightarrow> regimes_bounded (service_after sv calls s)"
proof (induction calls arbitrary: s)
  case (Cons c calls)
  from keeps_service_process [of sv "fst c" "snd c"] Cons show ?case
    by (auto simp: keeps_def service_after_def split_beta)
qed (simp add: service_after_def)


section \<open>What a context is built from\<close>

text \<open>A context of the cycle stands for one of its features, with bounded regime fits.\<close>

definition context_for :: "'w decision_service \<Rightarrow> instant \<Rightarrow> feature_record \<Rightarrow> strategy_context \<Rightarrow> bool" where
  "context_for sv now f c \<longleftrightarrow>
     sc_symbol c = ft_symbol f \<and> sc_market c = ft_market f \<and> sc_timeframe c = ft_timeframe f
   \<and> sc_gold_snapshot_ids c = [ft_record_id f] \<and> sc_fresh c = feature_fresh sv f now
   \<and> fit_between (1 / 4) 4 (re_market_fit (sc_regime c)) \<and> fit_between (1 / 4) 4 (re_sector_fit (sc_regime c))"

lemma feature_context_Inr:
  assumes "feature_context sv f now version values tradeable reason regime = Inr c"
    and "fit_between (1 / 4) 4 (re_market_fit regime)" and "fit_between (1 / 4) 4 (re_sector_fit regime)"
  shows "context_for sv now f c"
  using assms by (auto simp: feature_context_def regime_evidence_post_init_def strategy_context_post_init_def
      context_for_def split: if_splits)

lemma for_st_rule:
  assumes "for_st f xs s = (Inr ys, s')" and "P s"
    and "\<And>x y t t'. P t \<Longrightarrow> f x t = (Inr y, t') \<Longrightarrow> P t' \<and> Q x y"
  shows "P s' \<and> list_all2 Q xs ys"
  using assms(1,2)
proof (induction xs arbitrary: s ys)
  case (Cons x xs)
  then obtain y s1 zs where "f x s = (Inr y, s1)" "for_st f xs s1 = (Inr zs, s')" "ys = y # zs" by auto
  then show ?case using Cons.IH Cons.prems(2) assms(3) by blast
qed simp

lemma basic_context_Inr:
  assumes "regimes_bounded s" and "basic_context sv now f s = (Inr c, s')"
  shows "regimes_bounded s' \<and> context_for sv now f c"
proof -
  obtain a b where m: "market_sector_fit sv (ft_market f) (sector_for (ft_symbol f)) now s = (Inr (a, b), s')"
    and c: "feature_context sv f now (ft_feature_version f)
       ([(''close'', ft_close f), (''return_1'', ft_return_1 f), (''range_pct'', ft_range_pct f),
         (''body_pct'', ft_body_pct f)]
        @ (case ft_volume_change f of None \<Rightarrow> [] | Some v \<Rightarrow> [(''volume_change'', v)]))
       True ''TRADEABLE''
       \<lparr>re_market_fit = a, re_sector_fit = b, re_symbol_fit = 1, re_mtf_alignment = 1,
        re_symbol_regime_label = ''UNKNOWN''\<rparr> = Inr c"
    using assms(2) unfolding basic_context_def by auto
  show ?thesis using market_sector_fit_bounded [OF m assms(1)] feature_context_Inr [OF c] by simp
qed

lemma technical_context_Inr:
  assumes "regimes_bounded s" and "technical_context sv now f s = (Inr r, s')"
  shows "regimes_bounded s' \<and> pred_option (context_for sv now f) r"
proof -
  have k: "regimes_bounded s'" by (rule keepsD [OF regimes.technical_keeps assms])
  have "context_for sv now f c" if r: "r = Some c" for c
  proof -
    obtain found s1 where found:
      "in_world (latest_technical_snapshot (sv_db sv) (ft_market f) (ft_symbol f) (ft_timeframe f)) s = (Inr found, s1)"
      using assms(2) unfolding technical_context_def by auto
    then have b1: "regimes_bounded s1" using keepsD [OF regimes.in_world_keeps assms(1)] by blast
    obtain a b s2 version vals tradeable reason x y z where m:
      "market_sector_fit sv (ft_market f) (sector_for (ft_symbol f)) now s1 = (Inr (a, b), s2)"
      and c: "feature_context sv f now version vals tradeable reason
        \<lparr>re_market_fit = a, re_sector_fit = b, re_symbol_fit = x, re_mtf_alignment = y, re_symbol_regime_label = z\<rparr> = Inr c"
      using assms(2) found r unfolding technical_context_def Let_def
      by (cases found) (auto simp: get_state_def split: prod.splits)
    show ?thesis using market_sector_fit_bounded [OF m b1] feature_context_Inr [OF c] by simp
  qed
  then show ?thesis using k by (cases r) auto
qed

lemma cycle_contexts_Inr:
  assumes "cycle_contexts sv now fs s = (Inr cs, s')" and "regimes_bounded s" and "c \<in> set cs"
  shows "\<exists>f \<in> set fs. context_for sv now f c"
proof -
  obtain basic technical u s1 s2 where
    q: "refresh_quotes sv (map ft_symbol fs) now s = (Inr u, s1)"
    and b: "for_st (basic_context sv now) fs s1 = (Inr basic, s2)"
    and t: "for_st (technical_context sv now) fs s2 = (Inr technical, s')"
    and cs: "cs = basic @ List.map_filter id technical"
    using assms(1) unfolding cycle_contexts_def by auto
  have s1: "regimes_bounded s1" using keepsD [OF regimes.refresh_keeps assms(2) q] .
  have b': "regimes_bounded s2 \<and> list_all2 (context_for sv now) fs basic"
    by (rule for_st_rule [where P = regimes_bounded, OF b s1]) (rule basic_context_Inr)
  have t': "regimes_bounded s' \<and> list_all2 (\<lambda>f r. pred_option (context_for sv now f) r) fs technical"
    by (rule for_st_rule [where P = regimes_bounded, OF t conjunct1 [OF b']]) (rule technical_context_Inr)
  show ?thesis
  proof (cases "c \<in> set basic")
    case True
    then show ?thesis using b' unfolding list_all2_conv_all_nth in_set_conv_nth by (metis nth_mem)
  next
    case False
    then have "Some c \<in> set technical" using assms(3) cs by (auto simp: List.map_filter_def)
    then show ?thesis using t' unfolding list_all2_conv_all_nth in_set_conv_nth by (metis nth_mem option.pred_inject(2))
  qed
qed


section \<open>What a cycle enters\<close>

text \<open>
  An entry of the cycle: it stands for a feature of the cycle that is neither from the
  future nor older than the configured age, at the close of a feature of its own symbol,
  and its symbol is neither exited in this cycle nor held.  \<open>order_for\<close>: the receipt is of an
  order for exactly that entry.
\<close>

definition cycle_entry ::
  "'w decision_service \<Rightarrow> instant \<Rightarrow> feature_record list \<Rightarrow> string list \<Rightarrow> portfolio_snapshot
     \<Rightarrow> portfolio_allocation \<Rightarrow> bool" where
  "cycle_entry sv now features exited portfolio a \<longleftrightarrow>
     (let c = sr_candidate (pa_candidate a) in
      (\<exists>f \<in> set features. ft_symbol f = dc_symbol c \<and> dc_gold_snapshot_ids c = [ft_record_id f]
         \<and> 0 \<le> total_seconds (now - ft_event_time f) \<and> total_seconds (now - ft_event_time f) \<le> sv_max_age sv)
    \<and> (\<exists>f \<in> set features. (ft_market f, ft_symbol f) = item_symbol (pa_candidate a)
         \<and> pa_expected_entry_price a = ft_close f)
    \<and> fit_between (1 / 4) 4 (re_market_fit (dc_regime c)) \<and> fit_between (1 / 4) 4 (re_sector_fit (dc_regime c))
    \<and> dc_symbol c \<notin> set exited
    \<and> list_all (\<lambda>p. (pp_market p, pp_symbol p) \<noteq> item_symbol (pa_candidate a)) (ps_positions portfolio))"

definition order_for :: "string \<Rightarrow> portfolio_allocation \<Rightarrow> execution_receipt \<Rightarrow> bool" where
  "order_for account_id a x \<longleftrightarrow>
     (po_market (er_order x), po_symbol (er_order x)) = item_symbol (pa_candidate a)
   \<and> po_account_id (er_order x) = account_id
   \<and> po_action (er_order x) = sg_action (dc_signal (sr_candidate (pa_candidate a)))
   \<and> po_quantity (er_order x) = pa_quantity a \<and> pf_quantity (er_fill x) = pa_quantity a"

lemma allocation_not_held:
  assumes "run p contexts pre (Aware now) quotes existing correlations l = (Inr r, l')"
    and "precondition_mode pre = MODE_NORMAL" and "a \<in> set (pr_allocations r)"
  shows "item_symbol (pa_candidate a) \<notin> set existing"
proof -
  obtain cycle_id resolved allocs s5 s6 s7 where st:
    "allocate p cycle_id now existing correlations (filter (\<lambda>i. \<not> vetoed p i) resolved) s5 = (Inr allocs, s6)"
    "revalidate p cycle_id now quotes allocs s6 = (Inr (pr_allocations r), s7)"
    by (rule run_normal [OF assms(1,2)])
  obtain b where b: "b \<in> set allocs" "pa_candidate a = pa_candidate b"
    using assms(3) unfolding revalidate_Inr [OF st(2)]
    by (auto simp: List.map_filter_def revalidated_def split: option.splits if_splits)
  then show ?thesis using allocate_Inr(1) [OF st(1)] by (auto simp: within_limits_def list_all_iff)
qed

lemma live_quotes_of_Some:
  "map_of (live_quotes_of features) k = Some q \<Longrightarrow> \<exists>f \<in> set features. (ft_market f, ft_symbol f) = k \<and> q = ft_close f"
proof -
  have "map_of (fold (\<lambda>f. AList.update (ft_market f, ft_symbol f) (ft_close f)) features d) k = Some q
    \<Longrightarrow> map_of d k = Some q \<or> (\<exists>f \<in> set features. (ft_market f, ft_symbol f) = k \<and> q = ft_close f)" for d
  proof (induction features arbitrary: d)
    case (Cons f features)
    then show ?case using Cons.IH [of "AList.update (ft_market f, ft_symbol f) (ft_close f) d"]
      by (simp add: update_conv' del: split_paired_Ex split_paired_All split: if_splits) blast+
  qed simp
  from this [of "[]"] show "map_of (live_quotes_of features) k = Some q \<Longrightarrow> ?thesis"
    by (simp add: live_quotes_of_def)
qed

lemma cycle_allocation:
  assumes "run p contexts pre (Aware now) (live_quotes_of features)
      (map (\<lambda>p. (pp_market p, pp_symbol p)) (ps_positions portfolio)) correlations l = (Inr r, l')"
    and "\<And>c. c \<in> set contexts \<Longrightarrow> \<exists>f \<in> set fs. context_for sv now f c"
    and "set fs \<subseteq> {f \<in> set features. ft_symbol f \<notin> set exited}"
  shows "list_all (cycle_entry sv now features exited portfolio) (pr_allocations r)"
proof (cases "precondition_mode pre = MODE_NORMAL")
  case True
  have "cycle_entry sv now features exited portfolio a" if a: "a \<in> set (pr_allocations r)" for a
  proof -
    let ?c = "sr_candidate (pa_candidate a)"
    obtain ctx d i x where ctx: "ctx \<in> set contexts" "readiness_reason ctx = None" "candidate_create d i ctx x = Inr ?c"
      using allocation_backed [OF assms(1) True a] by (auto simp: backed_def backed_by_def)
    obtain f where f: "f \<in> set fs" "context_for sv now f ctx" using assms(2) ctx(1) by blast
    note c = candidate_create_Inr [OF ctx(3)]
    have fresh: "feature_fresh sv f now" using ctx(2) f(2) by (simp add: readiness_reason_def context_for_def split: if_splits)
    obtain q where q: "map_of (live_quotes_of features) (item_symbol (pa_candidate a)) = Some q"
      "pa_expected_entry_price a = q"
      using allocation_revalidated [OF assms(1) True a] by blast
    have held: "(pp_market x, pp_symbol x) \<noteq> item_symbol (pa_candidate a)" if "x \<in> set (ps_positions portfolio)" for x
      using allocation_not_held [OF assms(1) True a] that by (metis (no_types, lifting) image_eqI list.set_map)
    show ?thesis
      using held live_quotes_of_Some [OF q(1)] q(2) f fresh c assms(3)
      by (auto simp: cycle_entry_def context_for_def list_all_iff Let_def feature_fresh_def)
  qed
  then show ?thesis by (simp add: list_all_iff)
qed (simp add: exits_only_empty [OF assms(1)])


lemma batch_counts:
  assumes "batch_execute registry limits result account portfolio (Aware now) s = (Inr b, s')"
  shows "length (br_risk_decisions b) = length (pr_allocations result)"
    and "br_receipts b = [] \<or> length (br_receipts b) = length (pr_allocations result)"
proof -
  obtain ds s1 where risk: "for_st (batch_risk registry limits (pr_cycle_id result) account portfolio now)
      (pr_allocations result) s = (Inr ds, s1)"
    and b: "br_risk_decisions b = ds \<and> (br_receipts b = []
      \<or> (\<exists>e e'. execute_batch ds (pr_cycle_id result) (Aware now) e = (Inr (br_receipts b), e')))"
    using assms unfolding batch_execute_def by (auto simp: zoom_iff split: if_splits) blast+
  have n: "length ds = length (pr_allocations result)"
    using for_st_list_all2 [OF risk, of "\<lambda>_ _. True"] by (simp add: list_all2_lengthD)
  then show "length (br_risk_decisions b) = length (pr_allocations result)" using b by simp
  show "br_receipts b = [] \<or> length (br_receipts b) = length (pr_allocations result)"
    using b n execute_batch_Inr(2) by metis
qed

lemma bind_unit: "bind_st (return_st x) f = f x" "bind_st (lift_st (Inr x)) f = f x"
  by (auto simp: fun_eq_iff bind_st_def return_st_def lift_st_def)

text \<open>A receipt that a batch adds to the paper ledger is of an order for one of its decisions.\<close>

lemma batch_loop_new:
  assumes "batch_loop b t ds e = (Inr rs, e')" and "map_of (pe_receipts e') k = Some x"
  shows "map_of (pe_receipts e) k = Some x
    \<or> (\<exists>d \<in> set ds. \<exists>now policy. er_order x = order_of d k now \<and> er_fill x = fill_of policy d k now)"
  using assms
proof (induction ds arbitrary: e rs)
  case (Cons d ds)
  obtain r e1 rs' where s: "execute d (batch_key b d) t e = (Inr r, e1)" "batch_loop b t ds e1 = (Inr rs', e')"
    using Cons.prems(1) by auto
  have "map_of (pe_receipts e1) k = Some x \<Longrightarrow> map_of (pe_receipts e) k = Some x
      \<or> (\<exists>now policy. er_order x = order_of d k now \<and> er_fill x = fill_of policy d k now)"
    using s(1) by (cases rule: execute_cases) (auto simp: filled_def split: if_splits)
  then show ?case using Cons.IH [OF s(2) Cons.prems(2)] by auto
qed (simp add: return_st_def)

lemma batch_execute_new:
  assumes "batch_execute registry limits result account portfolio (Aware now) s = (Inr b, s')"
    and "map_of (pe_receipts (bs_engine s')) k = Some x"
  shows "map_of (pe_receipts (bs_engine s)) k = Some x \<or> (\<exists>a \<in> set (pr_allocations result). order_for account a x)"
proof -
  let ?risk = "for_st (batch_risk registry limits (pr_cycle_id result) account portfolio now) (pr_allocations result)"
  let ?tail = "\<lambda>rs. for_st (\<lambda>(a, r). batch_append (pr_cycle_id result) (sr_candidate (pa_candidate a))
      STAGE_EXECUTION ORDERED ''PAPER_ORDER_CREATED'' now (po_order_id (er_order r)))
      (zip (pr_allocations result) rs)"
  obtain ds s1 where risk: "?risk s = (Inr ds, s1)" using assms(1) unfolding batch_execute_def by auto
  have "keeps (\<lambda>s. bs_engine s = e) ?risk" for e by (intro keeps_intros batch_risk_frame)
  from keepsD [OF this refl risk] have e1: "bs_engine s1 = bs_engine s" .
  have tail: "keeps (\<lambda>s. bs_engine s = e) (?tail rs)" for e rs
    by (intro keeps_intros) (auto simp: split_beta intro: batch_append_frame)
  have intents: "list_all2 (\<lambda>a d. \<exists>i. rd_intent d = batch_intent (pr_cycle_id result) account now i a) (pr_allocations result) ds"
    by (rule for_st_list_all2 [OF risk]) (auto dest!: batch_risk_Inr elim!: evaluate_Inr)
  have for_d: "\<exists>a \<in> set (pr_allocations result). order_for account a x"
    if d: "d \<in> set ds" and ord: "er_order x = order_of d k t" "er_fill x = fill_of policy d k t" for d t policy
  proof -
    obtain a i where "a \<in> set (pr_allocations result)" "rd_intent d = batch_intent (pr_cycle_id result) account now i a"
    proof -
      obtain n where "n < length ds" "ds ! n = d" using d by (auto simp: in_set_conv_nth)
      then have "n < length (pr_allocations result)"
        "\<exists>i. rd_intent d = batch_intent (pr_cycle_id result) account now i (pr_allocations result ! n)"
        using intents list_all2_lengthD [OF intents] list_all2_nthD2 [OF intents] by auto
      then show thesis using that nth_mem by blast
    qed
    then show ?thesis using ord
      by (auto simp: order_for_def order_of_def fill_of_def batch_intent_def item_symbol_def Let_def intro!: bexI [of _ a])
  qed
  show ?thesis
  proof (cases "\<exists>d \<in> set ds. \<not> approved d")
    case True
    then show ?thesis using assms risk e1 by (auto simp: batch_execute_def bind_st_def lift_st_def return_st_def)
  next
    case False
    then obtain rs s2 us where b: "zoom bs_engine (\<lambda>e s. s\<lparr>bs_engine := e\<rparr>)
          (execute_batch ds (pr_cycle_id result) (Aware now)) s1 = (Inr rs, s2)"
      and t: "?tail rs s2 = (Inr us, s')"
      using assms(1) risk unfolding batch_execute_def bind_unit bind_st_Inr_iff by auto
    have "bs_engine s' = bs_engine s2" by (rule keepsD [OF tail refl t])
    moreover obtain e2 where "execute_batch ds (pr_cycle_id result) (Aware now) (bs_engine s) = (Inr rs, e2)" "bs_engine s2 = e2"
      using b e1 by (auto simp: zoom_iff)
    moreover from this(1) have "batch_loop (pr_cycle_id result) (Aware now) ds (bs_engine s) = (Inr rs, e2)"
      by (cases rule: execute_batch_cases) auto
    ultimately have "map_of (pe_receipts (bs_engine s)) k = Some x
        \<or> (\<exists>d \<in> set ds. \<exists>now policy. er_order x = order_of d k now \<and> er_fill x = fill_of policy d k now)"
      using batch_loop_new assms(2) by simp
    then show ?thesis using for_d by blast
  qed
qed

lemma register_keeps_engine: "keeps (\<lambda>l. lf_engine l = e) (lifecycle_register as rs)"
  unfolding lifecycle_register_def
  by (intro keeps_intros keeps_zoom) simp_all

lemma decide_and_execute_new:
  assumes "decide_and_execute sv m features fs portfolio now contexts s = (Inr (result, batch), s')"
    and "map_of (pe_receipts (lf_engine (ss_lifecycle s'))) k = Some x"
  shows "map_of (pe_receipts (lf_engine (ss_lifecycle s))) k = Some x
    \<or> (\<exists>a \<in> set (pr_allocations result). order_for (sv_account_id sv) a x)"
proof -
  obtain correlations session_open s1 s2 s3 where st:
    "correlations_of sv m (map ft_symbol fs) s = (Inr correlations, s1)"
    "in_ledger (run (sv_pipeline sv) contexts \<lparr>cp_entry_kill_switch_clear = True, cp_daily_loss_capacity = True,
        cp_entry_session_open = session_open, cp_capital_available = True\<rparr> (Aware now) (live_quotes_of features)
        (map (\<lambda>p. (pp_market p, pp_symbol p)) (ps_positions portfolio)) correlations) s1 = (Inr result, s2)"
    "in_batch (batch_execute (pl_registry (sv_pipeline sv)) (sv_limits sv) result (sv_account_id sv) portfolio
        (Aware now)) s2 = (Inr batch, s3)"
    and reg: "(if sv_manages_exits sv \<and> br_receipts batch \<noteq> []
        then in_lifecycle (lifecycle_register (pr_allocations result) (br_receipts batch)) else return_st ()) s3
        = (Inr (), s')"
    using assms(1) unfolding decide_and_execute_def by auto
  have "ss_lifecycle s1 = ss_lifecycle s"
    using st(1) by (auto simp: correlations_of_def Let_def in_world_iff split: if_splits)
  moreover have "lf_engine (ss_lifecycle s2) = lf_engine (ss_lifecycle s1)"
    using st(2) by (auto simp: in_ledger_def in_lifecycle_def zoom_iff)
  moreover have "lf_engine (ss_lifecycle s') = lf_engine (ss_lifecycle s3)"
    using reg keepsD [OF register_keeps_engine refl]
    by (auto simp: in_lifecycle_def zoom_iff return_st_def split: if_splits)
  moreover obtain b where "batch_execute (pl_registry (sv_pipeline sv)) (sv_limits sv) result (sv_account_id sv) portfolio
      (Aware now) \<lparr>bs_engine = lf_engine (ss_lifecycle s2), bs_ledger = lf_ledger (ss_lifecycle s2)\<rparr> = (Inr batch, b)"
    "lf_engine (ss_lifecycle s3) = bs_engine b"
    using st(3) by (auto simp: in_batch_def in_lifecycle_def zoom_iff)
  ultimately show ?thesis using batch_execute_new [of _ _ result _ portfolio now _ batch b k x] assms(2) by fastforce
qed

lemma decide_and_execute_Inr:
  assumes "decide_and_execute sv m features fs portfolio now contexts s = (Inr (result, batch), s')"
  obtains session_open correlations l1 l2 b1 b2 where
    "sv_entry_session_open sv m now = Inr session_open"
    "run (sv_pipeline sv) contexts \<lparr>cp_entry_kill_switch_clear = True, cp_daily_loss_capacity = True,
        cp_entry_session_open = session_open, cp_capital_available = True\<rparr> (Aware now) (live_quotes_of features)
       (map (\<lambda>p. (pp_market p, pp_symbol p)) (ps_positions portfolio)) correlations l1 = (Inr result, l2)"
    "batch_execute (pl_registry (sv_pipeline sv)) (sv_limits sv) result (sv_account_id sv) portfolio
       (Aware now) b1 = (Inr batch, b2)"
  using assms unfolding decide_and_execute_def in_ledger_def in_batch_def in_lifecycle_def
  by (auto simp: zoom_iff)

text \<open>How a cycle that returns a result went.\<close>

lemma service_process_Inr:
  assumes "service_process sv features (Some (Aware now)) s = (Inr (Some r), s')"
  obtains rows s1 portfolio exited s2 contexts s3 where
    "list_all (\<lambda>f. ft_market f = ft_market (hd features)) features"
    "in_world (db_marks (sv_db sv) (ft_market (hd features))) s = (Inr rows, s1)"
    "manage_exits sv (ft_market (hd features)) (marks_with rows features) features now s1 = (Inr (portfolio, exited), s2)"
    "cycle_contexts sv now (filter (\<lambda>f. ft_symbol f \<notin> set exited) features) s2 = (Inr contexts, s3)"
    "(contexts = [] \<and> s' = s3 \<and> r = exit_only_result sv (ft_market (hd features)) features exited)
     \<or> (\<exists>result batch. contexts \<noteq> [] \<and> decide_and_execute sv (ft_market (hd features)) features
            (filter (\<lambda>f. ft_symbol f \<notin> set exited) features) portfolio now contexts s3 = (Inr (result, batch), s')
          \<and> r = cycle_result (ft_market (hd features)) exited result batch)"
proof -
  let ?m = "ft_market (hd features)"
  let ?go = "\<lambda>marks. bind_st (manage_exits sv ?m marks features now) (\<lambda>(portfolio, exited).
      bind_st (cycle_contexts sv now (filter (\<lambda>f. ft_symbol f \<notin> set exited) features)) (\<lambda>contexts.
      if contexts = [] then return_st (Some (exit_only_result sv ?m features exited))
      else bind_st (decide_and_execute sv ?m features (filter (\<lambda>f. ft_symbol f \<notin> set exited) features) portfolio now
        contexts) (\<lambda>(result, batch). return_st (Some (cycle_result ?m exited result batch)))))"
  have ne: "features \<noteq> []" using assms by (auto simp: service_process_def)
  have same: "\<not> (\<exists>f \<in> set features. ft_market f \<noteq> ?m)"
  proof
    assume "\<exists>f \<in> set features. ft_market f \<noteq> ?m"
    with assms ne show False by (simp add: service_process_def Let_def bind_st_Inr_iff)
  qed
  obtain rows s1 where rows: "in_world (db_marks (sv_db sv) ?m) s = (Inr rows, s1)"
    and go: "?go (marks_with rows features) s1 = (Inr (Some r), s')"
  proof -
    have "service_process sv features (Some (Aware now))
        = bind_st (in_world (db_marks (sv_db sv) ?m)) (\<lambda>rows. ?go (marks_with rows features))"
      unfolding service_process_def Let_def if_not_P [OF ne] if_not_P [OF same] by (simp add: bind_unit)
    with assms have "bind_st (in_world (db_marks (sv_db sv) ?m)) (\<lambda>rows. ?go (marks_with rows features)) s
        = (Inr (Some r), s')" by simp
    then show thesis by (rule bind_st_InrE) (rule that)
  qed
  obtain portfolio exited s2 where x:
    "manage_exits sv ?m (marks_with rows features) features now s1 = (Inr (portfolio, exited), s2)"
    using go by (simp add: bind_st_Inr_iff) fast
  obtain contexts s3 where c: "cycle_contexts sv now (filter (\<lambda>f. ft_symbol f \<notin> set exited) features) s2 = (Inr contexts, s3)"
    using go x by (simp add: bind_st_Inr_iff) fast
  show thesis
    using go x c by (intro that [OF _ rows x c]) (use same in \<open>auto simp: bind_st_Inr_iff list_all_iff split: if_splits\<close>)
qed


lemma batch_execute_empty:
  assumes "batch_execute registry limits result account portfolio (Aware now) s = (Inr b, s')"
    and "pr_allocations result = []"
  shows "b = \<lparr>br_risk_decisions = [], br_receipts = []\<rparr> \<and> bs_engine s' = bs_engine s"
  using assms by (auto simp: batch_execute_def execute_batch_def zoom_iff return_st_def split: if_splits)

lemma closed_decide:
  assumes "decide_and_execute sv m features fs portfolio now contexts s = (Inr (result, batch), s')"
    and "sv_entry_session_open sv m now = Inr False"
  shows "pr_mode result = EXITS_ONLY \<and> pr_candidates result = [] \<and> pr_allocations result = []
    \<and> batch = \<lparr>br_risk_decisions = [], br_receipts = []\<rparr>
    \<and> lf_engine (ss_lifecycle s') = lf_engine (ss_lifecycle s) \<and> lf_store (ss_lifecycle s') = lf_store (ss_lifecycle s)"
proof -
  obtain correlations s1 s2 s3 where st:
    "correlations_of sv m (map ft_symbol fs) s = (Inr correlations, s1)"
    "in_ledger (run (sv_pipeline sv) contexts \<lparr>cp_entry_kill_switch_clear = True, cp_daily_loss_capacity = True,
        cp_entry_session_open = False, cp_capital_available = True\<rparr> (Aware now) (live_quotes_of features)
        (map (\<lambda>p. (pp_market p, pp_symbol p)) (ps_positions portfolio)) correlations) s1 = (Inr result, s2)"
    "in_batch (batch_execute (pl_registry (sv_pipeline sv)) (sv_limits sv) result (sv_account_id sv) portfolio
        (Aware now)) s2 = (Inr batch, s3)"
    and reg: "(if sv_manages_exits sv \<and> br_receipts batch \<noteq> []
        then in_lifecycle (lifecycle_register (pr_allocations result) (br_receipts batch)) else return_st ()) s3
        = (Inr (), s')"
    using assms unfolding decide_and_execute_def by auto
  have s1: "ss_lifecycle s1 = ss_lifecycle s"
    using st(1) by (auto simp: correlations_of_def Let_def in_world_iff split: if_splits)
  have s2: "lf_engine (ss_lifecycle s2) = lf_engine (ss_lifecycle s1)" "lf_store (ss_lifecycle s2) = lf_store (ss_lifecycle s1)"
    using st(2) by (auto simp: in_ledger_def in_lifecycle_def zoom_iff)
  obtain l1 l2 where "run (sv_pipeline sv) contexts \<lparr>cp_entry_kill_switch_clear = True, cp_daily_loss_capacity = True,
        cp_entry_session_open = False, cp_capital_available = True\<rparr> (Aware now) (live_quotes_of features)
        (map (\<lambda>p. (pp_market p, pp_symbol p)) (ps_positions portfolio)) correlations l1 = (Inr result, l2)"
    using st(2) by (auto simp: in_ledger_def in_lifecycle_def zoom_iff)
  from exits_only_allocates_nothing [OF this] have none:
    "pr_mode result = EXITS_ONLY" "pr_candidates result = []" "pr_allocations result = []" by auto
  have s3: "batch = \<lparr>br_risk_decisions = [], br_receipts = []\<rparr>
    \<and> lf_engine (ss_lifecycle s3) = lf_engine (ss_lifecycle s2) \<and> lf_store (ss_lifecycle s3) = lf_store (ss_lifecycle s2)"
    using st(3) batch_execute_empty [OF _ none(3)] by (fastforce simp: in_batch_def in_lifecycle_def zoom_iff)
  show ?thesis using none s1 s2 s3 reg by (auto split: if_splits)
qed

section \<open>Properties\<close>

text \<open>
  C14: A decision cycle only enters what it should.  In any state a history of cycles leads
  to, when the service returns a result, all features were of one market; the entries of
  the cycle are the allocations the pipeline returned for the contexts of the features not
  exited (none if there is no context).  Every entry stands for a feature of this cycle that
  is not older than the configured age, enters at the close of a feature of its own symbol,
  is scored with market and sector fits between a quarter and four, and is neither for a
  symbol that the exits of this cycle closed nor for one that the portfolio taken after
  those exits still holds.  Every receipt the paper ledger has after the cycle and had not
  after its exits is of an order for one of these entries, with its side and quantity.  Risk
  decides every entry, and either every entry is ordered or none is.
\<close>

theorem decision_cycle_sound:
  assumes "service_process sv features (Some (Aware now)) (service_after sv calls (service_state_init l w)) = (Inr (Some r), s')"
    and "m = ft_market (hd features)"
  shows "\<exists>rows s1 portfolio exited s2 contexts s3 entries.
       in_world (db_marks (sv_db sv) m) (service_after sv calls (service_state_init l w)) = (Inr rows, s1)
     \<and> manage_exits sv m (marks_with rows features) features now s1 = (Inr (portfolio, exited), s2)
     \<and> cycle_contexts sv now (filter (\<lambda>f. ft_symbol f \<notin> set exited) features) s2 = (Inr contexts, s3)
     \<and> (contexts = [] \<and> entries = [] \<and> s' = s3 \<and> r = exit_only_result sv m features exited
        \<or> (\<exists>result batch. contexts \<noteq> []
             \<and> decide_and_execute sv m features (filter (\<lambda>f. ft_symbol f \<notin> set exited) features) portfolio now
                 contexts s3 = (Inr (result, batch), s')
             \<and> r = cycle_result m exited result batch \<and> entries = pr_allocations result))
     \<and> list_all (\<lambda>f. ft_market f = m) features
     \<and> list_all (cycle_entry sv now features exited portfolio) entries
     \<and> (\<forall>k x. map_of (pe_receipts (lf_engine (ss_lifecycle s'))) k = Some x
          \<longrightarrow> map_of (pe_receipts (lf_engine (ss_lifecycle s2))) k = Some x
            \<or> list_ex (\<lambda>a. order_for (sv_account_id sv) a x) entries)
     \<and> dr_market r = m \<and> dr_exit_count r = int (length exited)
     \<and> dr_allocation_count r = int (length entries)
     \<and> dr_risk_decision_count r = dr_allocation_count r
     \<and> dr_order_count r \<in> {0, dr_allocation_count r}"
proof -
  let ?s = "service_after sv calls (service_state_init l w)"
  let ?fs = "\<lambda>exited. filter (\<lambda>f. ft_symbol f \<notin> set exited) features"
  obtain rows s1 portfolio exited s2 contexts s3 where st:
    "list_all (\<lambda>f. ft_market f = m) features" "in_world (db_marks (sv_db sv) m) ?s = (Inr rows, s1)"
    "manage_exits sv m (marks_with rows features) features now s1 = (Inr (portfolio, exited), s2)"
    and ctx: "cycle_contexts sv now (?fs exited) s2 = (Inr contexts, s3)"
    and res: "(contexts = [] \<and> s' = s3 \<and> r = exit_only_result sv m features exited)
     \<or> (\<exists>result batch. contexts \<noteq> [] \<and> decide_and_execute sv m features (?fs exited) portfolio now contexts s3
            = (Inr (result, batch), s')
          \<and> r = cycle_result m exited result batch)"
    unfolding assms(2) by (rule service_process_Inr [OF assms(1)])
  have "regimes_bounded ?s"
    by (rule service_after_bounded) (simp add: regimes_bounded_def service_state_init_def)
  then have "regimes_bounded s2"
    using keepsD [OF keeps_manage_exits keepsD [OF regimes.in_world_keeps _ st(2)] st(3)] by blast
  then have cs: "\<exists>f \<in> set (?fs exited). context_for sv now f c" if "c \<in> set contexts" for c
    using cycle_contexts_Inr [OF ctx _ that] by blast
  have same: "ss_lifecycle s3 = ss_lifecycle s2" by (rule keepsD [OF account.contexts_keep refl ctx])
  from res show ?thesis
  proof (elim disjE exE conjE)
    assume r: "r = exit_only_result sv m features exited" "contexts = []" "s' = s3"
    show ?thesis
      by (rule exI [of _ rows], rule exI [of _ s1], rule exI [of _ portfolio], rule exI [of _ exited],
          rule exI [of _ s2], rule exI [of _ contexts], rule exI [of _ s3], rule exI [of _ "[]"])
        (use st ctx r same in \<open>simp add: exit_only_result_def\<close>)
  next
    fix result batch
    assume d: "decide_and_execute sv m features (?fs exited) portfolio now contexts s3 = (Inr (result, batch), s')"
      and r: "r = cycle_result m exited result batch" and ne: "contexts \<noteq> []"
    obtain session_open correlations l1 l2 b1 b2 where
      run: "run (sv_pipeline sv) contexts \<lparr>cp_entry_kill_switch_clear = True, cp_daily_loss_capacity = True,
          cp_entry_session_open = session_open, cp_capital_available = True\<rparr> (Aware now) (live_quotes_of features)
          (map (\<lambda>p. (pp_market p, pp_symbol p)) (ps_positions portfolio)) correlations l1 = (Inr result, l2)"
      and b: "batch_execute (pl_registry (sv_pipeline sv)) (sv_limits sv) result (sv_account_id sv) portfolio
          (Aware now) b1 = (Inr batch, b2)"
      by (rule decide_and_execute_Inr [OF d])
    have entries: "list_all (cycle_entry sv now features exited portfolio) (pr_allocations result)"
      by (rule cycle_allocation [OF run cs]) auto
    have new: "map_of (pe_receipts (lf_engine (ss_lifecycle s2))) k = Some x
        \<or> list_ex (\<lambda>a. order_for (sv_account_id sv) a x) (pr_allocations result)"
      if "map_of (pe_receipts (lf_engine (ss_lifecycle s'))) k = Some x" for k x
      using decide_and_execute_new [OF d that] by (simp add: same list_ex_iff)
    show ?thesis
      by (rule exI [of _ rows], rule exI [of _ s1], rule exI [of _ portfolio], rule exI [of _ exited],
          rule exI [of _ s2], rule exI [of _ contexts], rule exI [of _ s3], rule exI [of _ "pr_allocations result"])
        (use st ctx d r ne entries new batch_counts [OF b] in \<open>auto simp: cycle_result_def\<close>)
  qed
qed


text \<open>
  C15: Outside the entry session a cycle still manages its exits but enters nothing: it
  returns with mode EXITS_ONLY and no candidate, allocation, risk decision or order, and
  after the exits neither the paper ledger nor the exit plans change.
\<close>

theorem closed_session_only_exits:
  assumes "service_process sv features (Some (Aware now)) s = (Inr (Some r), s')"
    and "sv_entry_session_open sv (ft_market (hd features)) now = Inr False"
  shows "dr_mode r = EXITS_ONLY \<and> dr_candidate_count r = 0 \<and> dr_allocation_count r = 0
    \<and> dr_risk_decision_count r = 0 \<and> dr_order_count r = 0
    \<and> (\<exists>rows s1 portfolio exited s2.
         in_world (db_marks (sv_db sv) (dr_market r)) s = (Inr rows, s1)
       \<and> manage_exits sv (dr_market r) (marks_with rows features) features now s1 = (Inr (portfolio, exited), s2)
       \<and> dr_exit_count r = int (length exited)
       \<and> lf_engine (ss_lifecycle s') = lf_engine (ss_lifecycle s2)
       \<and> lf_store (ss_lifecycle s') = lf_store (ss_lifecycle s2))"
proof -
  let ?m = "ft_market (hd features)"
  obtain rows s1 portfolio exited s2 contexts s3 where st:
    "in_world (db_marks (sv_db sv) ?m) s = (Inr rows, s1)"
    "manage_exits sv ?m (marks_with rows features) features now s1 = (Inr (portfolio, exited), s2)"
    "cycle_contexts sv now (filter (\<lambda>f. ft_symbol f \<notin> set exited) features) s2 = (Inr contexts, s3)"
    and res: "(contexts = [] \<and> s' = s3 \<and> r = exit_only_result sv ?m features exited)
     \<or> (\<exists>result batch. contexts \<noteq> [] \<and> decide_and_execute sv ?m features
            (filter (\<lambda>f. ft_symbol f \<notin> set exited) features) portfolio now contexts s3 = (Inr (result, batch), s')
          \<and> r = cycle_result ?m exited result batch)"
    by (rule service_process_Inr [OF assms(1)])
  have same: "ss_lifecycle s3 = ss_lifecycle s2" by (rule keepsD [OF account.contexts_keep refl st(3)])
  from res show ?thesis
  proof (elim disjE exE conjE)
    assume "s' = s3" "r = exit_only_result sv ?m features exited"
    then show ?thesis using st(1,2) same by (simp add: exit_only_result_def)
  next
    fix result batch
    assume "decide_and_execute sv ?m features (filter (\<lambda>f. ft_symbol f \<notin> set exited) features) portfolio now
        contexts s3 = (Inr (result, batch), s')" and r: "r = cycle_result ?m exited result batch"
    from closed_decide [OF this(1) assms(2)] show ?thesis
      using st(1,2) same r by (simp add: cycle_result_def)
  qed
qed

text \<open>
  A quote that could not be refreshed is not dropped: after a failed fetch the cache is what
  it was, and the next technical context of the symbol is screened with the old quote.
\<close>

lemma failed_refresh_keeps_quotes:
  assumes "sv_quote_client sv = Some fetch" and "\<And>symbols w. \<exists>e w'. fetch symbols w = (Inl e, w')"
  shows "\<exists>s'. refresh_quotes sv symbols now s = (Inr (), s') \<and> ss_quote_cache s' = ss_quote_cache s
    \<and> ss_quote_cache_at s' = ss_quote_cache_at s"
proof -
  let ?stale = "py_sorted (<) (dict_fromkeys (filter (quote_stale now s) symbols))"
  obtain e w' where "fetch ?stale (ss_world s) = (Inl e, w')" using assms(2) by blast
  then show ?thesis using assms(1) by (simp add: refresh_quotes_def Let_def in_world_def zoom_def)
qed

text \<open>
  The continuous session as the deployment builds it: this service as the processor, over the
  database store of cycles.  \<open>gold\<close> is the Gold feature table, \<open>recover\<close> the recovery of exit plans.
\<close>

definition session_over ::
  "(nat \<Rightarrow> string) \<Rightarrow> (string \<Rightarrow> feature_record option) \<Rightarrow> (string \<Rightarrow> ('w service_state, int) st)
     \<Rightarrow> 'w decision_service \<Rightarrow> ('w \<Rightarrow> datetime \<times> 'w) \<Rightarrow> (pg_store, 'w service_state) session_ops" where
  "session_over uuid4 gold recover sv clock =
     pg_ops uuid4 gold recover (\<lambda>features evaluated_at. service_process sv features (Some (Aware evaluated_at)))
       (\<lambda>s. let (t, w) = clock (ss_world s) in (t, s\<lparr>ss_world := w\<rparr>))"

text \<open>
  C16: Features are decided once.  When the continuous session, with the decision service as
  its processor and the database store of cycles, has returned a decision for a set of
  features, then in all further calls of the session, failing ones and the retries of other
  features among them, the service is never called for these features again; and a call with
  the same features in any order returns that decision as a replay, as the table keeps it
  (its cycle, mode and counts; results come back with market NSE).  \<open>watch\<close> lists the calls of
  the service in the session's world and changes nothing else.
\<close>

theorem features_traded_once:
  assumes "ops = watch (session_over uuid4 gold recover sv clock)"
    and "session_process ops fs s = (Inr (Some rn), s1)" and "sr_decision rn = Some d"
    and "s2 = foldl (\<lambda>s fs. snd (session_process ops fs s)) s1 calls"
    and "mset (map ft_record_id fs') = mset (map ft_record_id fs)" and "set (map ft_market fs') = {NSE}"
    and "\<And>w. \<exists>t. fst (clock w) = Aware t"
  shows "\<exists>s3 new. session_process ops fs' s2
        = (Inr (Some \<lparr>sr_session_cycle_id = session_cycle_id_of (sn_account_id s) fs, sr_state = COMPLETED,
                      sr_decision = Some (d\<lparr>dr_market := NSE\<rparr>)\<rparr>), s3)
      \<and> fst (sn_world s3) = fst (sn_world s1) @ new
      \<and> list_all (\<lambda>ids. ids \<noteq> record_ids_of fs) new"
proof -
  have c: "\<exists>t. fst (so_clock ops w) = Aware t" for w
    using assms(7) [of "ss_world (snd w)"]
    by (auto simp: assms(1) watch_def session_over_def pg_ops_def unseen_def split: prod.splits)
  have r: "\<exists>rs st'. so_retryable ops t st = (Inr rs, st')" for t st
    by (simp add: assms(1) watch_def session_over_def pg_ops_def pg_retryable_def)
  show ?thesis
    using watched.features_spared [OF assms(2-4) [unfolded assms(1) session_over_def] assms(5,6)]
      c [unfolded assms(1) session_over_def] r [unfolded assms(1) session_over_def]
    unfolding assms(1) session_over_def by blast
qed

section \<open>An example\<close>

definition ex_service :: "bool \<Rightarrow> unit decision_service" where
  "ex_service open_session =
     \<lparr>sv_db = ex_database, sv_pipeline = ex_pipeline, sv_limits = ex_limits, sv_account_id = ''acc'',
      sv_equity = Fin 5000, sv_tradeability = ex_tradeability_limits, sv_symbol_regime = ex_regime_limits, sv_max_age = Fin 180,
      sv_clock = (\<lambda>w. (Aware 20, w)), sv_manages_exits = True, sv_entry_session_open = (\<lambda>_ _. Inr open_session),
      sv_quote_client = None, sv_iterate = id\<rparr>"

definition ex_fallen :: feature_record where
  "ex_fallen = ex_feature\<lparr>ft_symbol := ''RELIANCE'', ft_close := Fin 80\<rparr>"

definition ex_service_state :: "unit service_state" where
  "ex_service_state = service_state_init ex_lifecycle ()"

lemma ex_portfolio_built:
  "\<exists>p. (\<forall>s. service_portfolio (ex_service b) NSE [(''RELIANCE'', Fin 80)] 20 s = (Inr p, s))
     \<and> ps_captured_at p = Aware 20 \<and> ps_account_id p = ''acc''
     \<and> ps_positions p = [ex_position\<lparr>pp_mark_price := Fin 80\<rparr>]"
  using ex_snapshot by (auto simp: service_portfolio_def in_world_def zoom_def ex_service_def)

lemma ex_service_exits:
  "\<exists>s'. service_process (ex_service b) [ex_fallen] (Some (Aware 20)) ex_service_state
     = (Inr (Some (exit_only_result (ex_service b) NSE [ex_fallen] [''RELIANCE''])), s')"
proof -
  obtain p where p: "\<And>s. service_portfolio (ex_service b) NSE [(''RELIANCE'', Fin 80)] 20 s = (Inr p, s)"
    "ps_captured_at p = Aware 20" "ps_account_id p = ''acc''" "ps_positions p = [ex_position\<lparr>pp_mark_price := Fin 80\<rparr>]"
    using ex_portfolio_built by blast
  have golds: "golds_of [ex_fallen] = [(''RELIANCE'', ''f1'')]"
    by (simp add: golds_of_def ex_fallen_def ex_feature_def)
  have marks: "marks_with [] [ex_fallen] = [(''RELIANCE'', Fin 80)]"
    by (simp add: marks_with_def ex_fallen_def ex_feature_def)
  obtain out l' where m: "manage ex_limits NSE ''acc'' [(''RELIANCE'', Fin 80)] p [(''RELIANCE'', ''f1'')] (Aware 20)
      ex_lifecycle = (Inr [out], l')" and symbol: "oc_symbol out = ''RELIANCE''"
    using ex_manage_exits [OF p(2-4)] by blast
  have sv: "sv_manages_exits (ex_service b)" "sv_limits (ex_service b) = ex_limits" "sv_account_id (ex_service b) = ''acc''"
    "db_marks (sv_db (ex_service b)) NSE = return_st []" "sv_quote_client (ex_service b) = None"
    by (simp_all add: ex_service_def ex_database_def)
  have f: "ft_market ex_fallen = NSE" "ft_symbol ex_fallen = ''RELIANCE''" by (simp_all add: ex_fallen_def ex_feature_def)
  have "\<exists>s2. manage_exits (ex_service b) NSE [(''RELIANCE'', Fin 80)] [ex_fallen] 20 ex_service_state = (Inr (p, [''RELIANCE'']), s2)"
    using p(1) m symbol sv by (simp add: manage_exits_def bind_st_def return_st_def in_lifecycle_def zoom_def
        ex_service_state_def service_state_init_def golds dict_fromkeys_def Let_def)
  then obtain s2 where x:
    "manage_exits (ex_service b) NSE [(''RELIANCE'', Fin 80)] [ex_fallen] 20 ex_service_state = (Inr (p, [''RELIANCE'']), s2)" ..
  have c: "cycle_contexts (ex_service b) 20 [] s2 = (Inr [], s2)"
    using sv(5) by (simp add: cycle_contexts_def refresh_quotes_def bind_st_def return_st_def List.map_filter_def)
  have w: "ex_service_state\<lparr>ss_world := u\<rparr> = ex_service_state" for u
    by (simp add: ex_service_state_def service_state_init_def)
  show ?thesis
    using x c by (simp add: w service_process_def bind_st_def return_st_def lift_st_def in_world_def zoom_def sv f marks)
qed

theorem decision_cycle_sound_witness:
  "\<exists>r s' rows s1 portfolio exited s2.
     service_process (ex_service True) [ex_fallen] (Some (Aware 20)) (service_after (ex_service True) [] ex_service_state)
       = (Inr (Some r), s')
   \<and> manage_exits (ex_service True) (dr_market r) (marks_with rows [ex_fallen]) [ex_fallen] 20 s1
       = (Inr (portfolio, exited), s2)
   \<and> length exited = 1 \<and> dr_exit_count r = 1 \<and> dr_order_count r = 0"
proof -
  obtain s' where s': "service_process (ex_service True) [ex_fallen] (Some (Aware 20))
      (service_after (ex_service True) [] (service_state_init ex_lifecycle ()))
     = (Inr (Some (exit_only_result (ex_service True) NSE [ex_fallen] [''RELIANCE''])), s')"
    using ex_service_exits by (auto simp: service_after_def ex_service_state_def)
  obtain rows s1 portfolio exited s2 where
    "manage_exits (ex_service True) NSE (marks_with rows [ex_fallen]) [ex_fallen] 20 s1 = (Inr (portfolio, exited), s2)"
    "length exited = 1"
    using decision_cycle_sound [OF s'] by (auto simp: exit_only_result_def)
  then show ?thesis using s'
    by (intro exI conjI) (auto simp: exit_only_result_def ex_service_state_def)
qed

theorem closed_session_only_exits_witness:
  "\<exists>r s'. service_process (ex_service False) [ex_fallen] (Some (Aware 20)) ex_service_state
        = (Inr (Some r), s')
     \<and> dr_exit_count r = 1 \<and> dr_order_count r = 0"
proof -
  let ?sv = "ex_service False"
  obtain s' where "service_process ?sv [ex_fallen] (Some (Aware 20)) ex_service_state
     = (Inr (Some (exit_only_result ?sv NSE [ex_fallen] [''RELIANCE''])), s')"
    using ex_service_exits by blast
  from closed_session_only_exits [OF this] this show ?thesis by (auto simp: exit_only_result_def)
qed


text \<open>A session over the example service.\<close>

definition ex_trading_ops :: "(pg_store, string list list \<times> unit service_state) session_ops" where
  "ex_trading_ops = watch (session_over ex_uuid4 (\<lambda>_. None) (\<lambda>_. return_st 0) (ex_service True) (\<lambda>w. (Aware 20, w)))"

definition ex_trading_session :: "(pg_store, string list list \<times> unit service_state) session" where
  "ex_trading_session = \<lparr>sn_account_id = ''paper'', sn_health = session_health_init,
     sn_store = \<lparr>pg_lease = 300000000, pg_cycles = [], pg_drawn = 0\<rparr>, sn_world = ([], ex_service_state)\<rparr>"

lemma ex_trading_call:
  "\<exists>s1. session_process ex_trading_ops [ex_fallen] ex_trading_session
     = (Inr (Some \<lparr>sr_session_cycle_id = session_cycle_id_of ''paper'' [ex_fallen], sr_state = CLAIMED,
                   sr_decision = Some (exit_only_result (ex_service True) NSE [ex_fallen] [''RELIANCE''])\<rparr>), s1)
    \<and> fst (sn_world s1) = [record_ids_of [ex_fallen]]"
proof -
  have w: "ex_service_state\<lparr>ss_world := u\<rparr> = ex_service_state" for u
    by (simp add: ex_service_state_def service_state_init_def)
  have f: "ft_market ex_fallen = NSE" "ft_event_time ex_fallen = 0" by (simp_all add: ex_fallen_def ex_feature_def)
  obtain s' where s': "service_process (ex_service True) [ex_fallen] (Some (Aware 20)) ex_service_state
     = (Inr (Some (exit_only_result (ex_service True) NSE [ex_fallen] [''RELIANCE''])), s')"
    using ex_service_exits by blast
  show ?thesis
  by (simp add: session_process_def process_one_def process_front_def process_back_def try_claimed_def run_claimed_def
      bind_st_def return_st_def lift_st_def latest_event_def session_clock_def on_world_def Paper_Session.on_store_def zoom_def
      update_health_def pg_claim_def new_row_def pg_complete_def held_row_def pg_retryable_def retry_due_def set_row_def
      dt_add_def dt_min_def dt_max_def Let_def py_sorted_def unseen_def logged_def watch_def pg_ops_def
      ex_trading_ops_def session_over_def ex_trading_session_def w f s')
qed

text \<open>The second call with the same features is a replay, and the service has been called once.\<close>

theorem features_traded_once_witness:
  "\<exists>s1 s3. session_process ex_trading_ops [ex_fallen] ex_trading_session
      = (Inr (Some \<lparr>sr_session_cycle_id = session_cycle_id_of ''paper'' [ex_fallen], sr_state = CLAIMED,
                    sr_decision = Some (exit_only_result (ex_service True) NSE [ex_fallen] [''RELIANCE''])\<rparr>), s1)
   \<and> session_process ex_trading_ops [ex_fallen] s1
      = (Inr (Some \<lparr>sr_session_cycle_id = session_cycle_id_of ''paper'' [ex_fallen], sr_state = COMPLETED,
                    sr_decision = Some (exit_only_result (ex_service True) NSE [ex_fallen] [''RELIANCE''])\<rparr>), s3)
   \<and> count_list (fst (sn_world s3)) (record_ids_of [ex_fallen]) = 1"
proof -
  let ?d = "exit_only_result (ex_service True) NSE [ex_fallen] [''RELIANCE'']"
  obtain s1 where s1: "session_process ex_trading_ops [ex_fallen] ex_trading_session
     = (Inr (Some \<lparr>sr_session_cycle_id = session_cycle_id_of ''paper'' [ex_fallen], sr_state = CLAIMED,
                   sr_decision = Some ?d\<rparr>), s1)" "fst (sn_world s1) = [record_ids_of [ex_fallen]]"
    using ex_trading_call by blast
  have m: "set (map ft_market [ex_fallen]) = {NSE}" by (simp add: ex_fallen_def ex_feature_def)
  have "\<exists>s3 new. session_process ex_trading_ops [ex_fallen] s1
      = (Inr (Some \<lparr>sr_session_cycle_id = session_cycle_id_of (sn_account_id ex_trading_session) [ex_fallen], sr_state = COMPLETED,
                    sr_decision = Some (?d\<lparr>dr_market := NSE\<rparr>)\<rparr>), s3)
    \<and> fst (sn_world s3) = fst (sn_world s1) @ new \<and> list_all (\<lambda>ids. ids \<noteq> record_ids_of [ex_fallen]) new"
    by (rule features_traded_once [OF ex_trading_ops_def s1(1) _ _ refl m, where calls = "[]"]) simp_all
  then obtain s3 new where s3: "session_process ex_trading_ops [ex_fallen] s1
      = (Inr (Some \<lparr>sr_session_cycle_id = session_cycle_id_of ''paper'' [ex_fallen], sr_state = COMPLETED,
                    sr_decision = Some ?d\<rparr>), s3)"
    "fst (sn_world s3) = [record_ids_of [ex_fallen]] @ new" "list_all (\<lambda>ids. ids \<noteq> record_ids_of [ex_fallen]) new"
    by (auto simp: ex_trading_session_def exit_only_result_def s1(2))
  have "count_list (fst (sn_world s3)) (record_ids_of [ex_fallen]) = 1"
    using s3(2,3) count_list_0_iff [of new "record_ids_of [ex_fallen]"] by (auto simp: list_all_iff)
  with s1(1) s3(1) show ?thesis by blast
qed

end
