(* ===== verification/Paper_Policy.thy ===== *)
theory Paper_Policy
  imports Paper_Batch Screening Providers Nse_Session
begin

text \<open>
  How the deployment builds the limits of the paper account from its environment,
  src/src/nanodelta/runtime/paper\_policy.py, and when it allows entries
  (\<open>_entry_session_open\<close> of runtime/realtime\_config.py).  The environment is a dictionary of
  strings.
\<close>

section \<open>Model\<close>

definition policy_required :: "(string, string) dict \<Rightarrow> string \<Rightarrow> pyfloat result" where
  "policy_required env name =
     (let value = str_strip (env_get env name) in
      if value = [] then Inl (RuntimeError (name @ '' is required for paper trading policy''))
      else case py_float value of
             None \<Rightarrow> Inl (RuntimeError (name @ '' must be numeric''))
           | Some x \<Rightarrow> Inr x)"

definition policy_optional :: "(string, string) dict \<Rightarrow> string \<Rightarrow> pyfloat \<Rightarrow> pyfloat result" where
  "policy_optional env name fallback =
     (let value = str_strip (env_get env name) in
      if value = [] then Inr fallback
      else case py_float value of
             None \<Rightarrow> Inl (ValueError (''could not convert string to float: '' @ repr_str value))
           | Some x \<Rightarrow> Inr x)"

definition build_allocation_policy :: "(string, string) dict \<Rightarrow> allocation_policy result" where
  "build_allocation_policy env =
     bind_r (policy_required env ''NANODELTA_PAPER_EQUITY_INR'') (\<lambda>equity.
     bind_r (policy_required env ''NANODELTA_PAPER_RISK_PER_TRADE_INR'') (\<lambda>risk_per_trade.
     bind_r (bind_r (policy_required env ''NANODELTA_PAPER_MAX_POSITIONS'') int_of_float) (\<lambda>max_positions.
     bind_r (bind_r (policy_required env ''NANODELTA_PAPER_MAX_SECTOR_POSITIONS'') int_of_float) (\<lambda>max_sector.
     bind_r (py_div risk_per_trade equity) (\<lambda>fraction.
     bind_r (policy_optional env ''NANODELTA_PAPER_MAX_ORDER_NOTIONAL_INR'' equity) (\<lambda>order_notional.
     bind_r (policy_optional env ''NANODELTA_PAPER_MAX_TOTAL_NEW_NOTIONAL_INR'' equity) (\<lambda>total_notional.
     allocation_policy_post_init
       \<lparr>ap_equity = equity, ap_risk_fraction_per_trade = fraction, ap_max_order_notional = order_notional,
        ap_max_total_new_notional = total_notional, ap_max_positions = max_positions,
        ap_max_sector_positions = max_sector, ap_max_pairwise_correlation = rnd64 (70 / 100),
        ap_minimum_expected_r = 0, ap_maximum_entry_drift_fraction = rnd64 (3 / 1000),
        ap_minimum_reward_risk = 1\<rparr>)))))))"

definition build_tradeability_limits :: "(string, string) dict \<Rightarrow> tradeability_limits result" where
  "build_tradeability_limits env =
     bind_r (policy_optional env ''NANODELTA_TRADEABILITY_MIN_PRICE'' (Fin 20)) (\<lambda>minimum_price.
     bind_r (policy_optional env ''NANODELTA_TRADEABILITY_MIN_AVG_VOLUME'' (Fin 10000)) (\<lambda>volume.
     bind_r (policy_optional env ''NANODELTA_TRADEABILITY_MIN_AVG_TRADED_VALUE'' (Fin 1000000)) (\<lambda>traded.
     bind_r (policy_optional env ''NANODELTA_TRADEABILITY_MIN_ATR_PCT'' (rnd64 (1 / 1000))) (\<lambda>min_atr.
     bind_r (policy_optional env ''NANODELTA_TRADEABILITY_MAX_ATR_PCT'' (rnd64 (8 / 100))) (\<lambda>max_atr.
     bind_r (policy_optional env ''NANODELTA_TRADEABILITY_MAX_GAP_PCT'' (rnd64 (5 / 100))) (\<lambda>gap.
     bind_r (bind_r (policy_optional env ''NANODELTA_TRADEABILITY_AVERAGE_WINDOW'' (Fin 20)) int_of_float) (\<lambda>window.
     bind_r (policy_optional env ''NANODELTA_TRADEABILITY_MAX_BAR_GAP_MULTIPLE'' (Fin (3 / 2))) (\<lambda>bar_gap.
     bind_r (policy_optional env ''NANODELTA_TRADEABILITY_MAX_REPRICE_PCT'' (rnd64 (30 / 100))) (\<lambda>reprice.
     bind_r (policy_optional env ''NANODELTA_TRADEABILITY_MAX_SPREAD_PCT'' (rnd64 (1 / 100))) (\<lambda>spread.
     bind_r (policy_optional env ''NANODELTA_TRADEABILITY_CIRCUIT_PROXIMITY_PCT'' (rnd64 (2 / 100))) (\<lambda>circuit.
     tradeability_limits_post_init
       \<lparr>tl_minimum_price = minimum_price, tl_minimum_average_volume = volume,
        tl_minimum_average_traded_value = traded, tl_minimum_atr_pct = min_atr, tl_maximum_atr_pct = max_atr,
        tl_maximum_gap_pct = gap, tl_average_window = window, tl_maximum_bar_gap_multiple = bar_gap,
        tl_maximum_reprice_pct = reprice, tl_maximum_spread_pct = spread,
        tl_circuit_proximity_pct = circuit\<rparr>)))))))))))"

definition build_symbol_regime_limits :: "(string, string) dict \<Rightarrow> symbol_regime_limits result" where
  "build_symbol_regime_limits env =
     bind_r (policy_optional env ''NANODELTA_SYMBOL_REGIME_ADX_NO_TREND'' (Fin 20)) (\<lambda>no_trend.
     bind_r (policy_optional env ''NANODELTA_SYMBOL_REGIME_ADX_STRONG_TREND'' (Fin 35)) (\<lambda>strong.
     bind_r (policy_optional env ''NANODELTA_SYMBOL_REGIME_MIN_FIT'' (rnd64 (4 / 10))) (\<lambda>min_fit.
     bind_r (policy_optional env ''NANODELTA_SYMBOL_REGIME_MAX_FIT'' (rnd64 (12 / 10))) (\<lambda>max_fit.
     bind_r (policy_optional env ''NANODELTA_SYMBOL_REGIME_MISALIGNED_PENALTY'' (rnd64 (7 / 10))) (\<lambda>misaligned.
     bind_r (policy_optional env ''NANODELTA_SYMBOL_REGIME_MIN_VOLUME_RATIO'' (rnd64 (8 / 10))) (\<lambda>volume_ratio.
     bind_r (policy_optional env ''NANODELTA_SYMBOL_REGIME_LOW_VOLUME_PENALTY'' (rnd64 (8 / 10))) (\<lambda>low_volume.
     bind_r (policy_optional env ''NANODELTA_SYMBOL_REGIME_COMPRESSION_RANGE_PCT'' (rnd64 (3 / 100))) (\<lambda>compression.
     symbol_regime_limits_post_init
       \<lparr>sy_adx_no_trend = no_trend, sy_adx_strong_trend = strong, sy_minimum_fit = min_fit,
        sy_maximum_fit = max_fit, sy_misaligned_penalty = misaligned, sy_minimum_volume_ratio = volume_ratio,
        sy_low_volume_penalty = low_volume, sy_compression_range_pct = compression\<rparr>))))))))"

definition build_risk_limits :: "(string, string) dict \<Rightarrow> risk_limits result" where
  "build_risk_limits env =
     bind_r (policy_required env ''NANODELTA_PAPER_EQUITY_INR'') (\<lambda>equity.
     bind_r (bind_r (policy_required env ''NANODELTA_PAPER_MAX_POSITIONS'') int_of_float) (\<lambda>max_positions.
     bind_r (policy_optional env ''NANODELTA_PAPER_MAX_ORDER_NOTIONAL_INR'' equity) (\<lambda>order_notional.
     bind_r (policy_optional env ''NANODELTA_PAPER_MAX_POSITION_NOTIONAL_INR'' equity) (\<lambda>position_notional.
     bind_r (policy_optional env ''NANODELTA_PAPER_MAX_MARKET_GROSS_EXPOSURE_INR'' equity) (\<lambda>market_gross.
     bind_r (policy_optional env ''NANODELTA_PAPER_MAX_TOTAL_GROSS_EXPOSURE_INR'' equity) (\<lambda>total_gross.
     bind_r (policy_optional env ''NANODELTA_PAPER_MAX_DAILY_LOSS_INR'' (equity * rnd64 (5 / 100))) (\<lambda>daily_loss.
     bind_r (bind_r (int_float max_positions) (\<lambda>fallback.
               bind_r (policy_optional env ''NANODELTA_PAPER_MAX_OPEN_POSITIONS'' fallback) int_of_float)) (\<lambda>open_positions.
     bind_r (bind_r (policy_optional env ''NANODELTA_PAPER_MAX_SNAPSHOT_AGE_SECONDS'' (Fin 30)) int_of_float) (\<lambda>snapshot_age.
     risk_limits_post_init
       \<lparr>rl_max_order_notional = order_notional, rl_max_position_notional = position_notional,
        rl_max_market_gross_exposure = market_gross, rl_max_total_gross_exposure = total_gross,
        rl_max_daily_loss = daily_loss, rl_max_open_positions = open_positions,
        rl_max_snapshot_age_seconds = snapshot_age\<rparr>)))))))))"

definition entry_session_open ::
  "(string \<Rightarrow> int option) \<Rightarrow> (string, string) dict \<Rightarrow> market \<Rightarrow> instant \<Rightarrow> bool result" where
  "entry_session_open parse_date env m now =
     (if m \<noteq> NSE then Inr True
      else bind_r (nse_equity_session parse_date (Aware now) env) (\<lambda>x. Inr (nx_state x = SESSION_OPEN)))"

section \<open>Lemmas\<close>

lemma int_of_float_exact:
  assumes "\<bar>n\<bar> \<le> 2 ^ 53"
  shows "int_float n = Inr (Fin (of_int n))" and "int_of_float (Fin (of_int n)) = Inr n"
  using is_f64_int [OF assms]
  by (simp_all add: int_float_def float_of_int_def rnd64_f64 int_of_float_def truncate_rat_def)

text \<open>
  Sizing and risk read the same settings: the order limit is the same number for both, it is
  finite and positive, and, unless it is overridden, the account may hold as many positions
  as a cycle may open.
\<close>

theorem policies_agree:
  assumes a: "build_allocation_policy env = Inr a" and l: "build_risk_limits env = Inr l"
  shows "rl_max_order_notional l = ap_max_order_notional a"
    and "\<forall>v \<in> set [ap_equity a, ap_risk_fraction_per_trade a, ap_max_order_notional a, ap_max_total_new_notional a,
           rl_max_position_notional l, rl_max_market_gross_exposure l, rl_max_total_gross_exposure l,
           rl_max_daily_loss l]. isfinite v \<and> 0 < v"
    and "str_strip (env_get env ''NANODELTA_PAPER_MAX_OPEN_POSITIONS'') = [] \<Longrightarrow> ap_max_positions a \<le> 2 ^ 53
      \<Longrightarrow> rl_max_open_positions l = ap_max_positions a"
proof -
  have pos: "isfinite v \<and> 0 < v" if "isfinite v" "\<not> v \<le> 0" for v
    using that by (cases v) (auto simp: zero_pyfloat_def)
  show "rl_max_order_notional l = ap_max_order_notional a"
    using a l by (auto simp: build_allocation_policy_def build_risk_limits_def allocation_policy_post_init_def
        risk_limits_post_init_def split: if_splits)
  have "\<forall>v \<in> set [ap_equity a, ap_risk_fraction_per_trade a, ap_max_order_notional a, ap_max_total_new_notional a].
      isfinite v \<and> 0 < v"
    using a pos by (auto simp: build_allocation_policy_def allocation_policy_post_init_def split: if_splits)
  moreover have "\<forall>v \<in> set [rl_max_position_notional l, rl_max_market_gross_exposure l, rl_max_total_gross_exposure l,
      rl_max_daily_loss l]. isfinite v \<and> 0 < v"
    using l by (auto simp: build_risk_limits_def risk_limits_post_init_def split: if_splits)
  ultimately show "\<forall>v \<in> set [ap_equity a, ap_risk_fraction_per_trade a, ap_max_order_notional a, ap_max_total_new_notional a,
           rl_max_position_notional l, rl_max_market_gross_exposure l, rl_max_total_gross_exposure l,
           rl_max_daily_loss l]. isfinite v \<and> 0 < v" by simp
  assume unset: "str_strip (env_get env ''NANODELTA_PAPER_MAX_OPEN_POSITIONS'') = []" and small: "ap_max_positions a \<le> 2 ^ 53"
  obtain n where n: "bind_r (policy_required env ''NANODELTA_PAPER_MAX_POSITIONS'') int_of_float = Inr n"
    "ap_max_positions a = n" "0 < n"
    using a by (auto simp: build_allocation_policy_def allocation_policy_post_init_def positive_int_limit_def split: if_splits)
  have "bind_r (int_float n) (\<lambda>fallback.
      bind_r (policy_optional env ''NANODELTA_PAPER_MAX_OPEN_POSITIONS'' fallback) int_of_float) = Inr (rl_max_open_positions l)"
    using l n(1) by (auto simp: build_risk_limits_def risk_limits_post_init_def split: if_splits)
  then show "rl_max_open_positions l = ap_max_positions a"
    using int_of_float_exact [of n] small n(2,3) unset by (simp add: policy_optional_def)
qed

lemma rne_near:
  assumes "\<bar>x - of_int n\<bar> < 1 / 2"
  shows "rne x = n"
proof -
  have "\<lfloor>x\<rfloor> = n \<or> \<lfloor>x\<rfloor> = n - 1" using assms by (cases "of_int n \<le> x") (auto simp: floor_eq_iff)
  then show ?thesis using assms by (auto simp: rne_def Let_def abs_if split: if_splits)
qed

lemma rnd64_near:
  assumes "2 ^ k \<le> q" and "q < 2 ^ (k + 1)" and "k \<le> 52" and "\<bar>q * 2 ^ (52 - k) - of_int n\<bar> < 1 / 2"
  shows "rnd64 q = Fin (of_int n / 2 ^ (52 - k))"
proof -
  have q: "0 < q" using assms(1) by (meson less_le_trans zero_less_numeral zero_less_power)
  have "2 powi (int k) \<le> q" "q < 2 powi (int k + 1)" using assms(1,2) by (simp_all add: power_int_add)
  then have "ilog2 q = int k"
    using ilog2_bounds [OF q] powi2_less_iff [of "int k" "ilog2 q + 1"] powi2_less_iff [of "ilog2 q" "int k + 1"]
    by linarith
  then have e: "fexp q = - int (52 - k)" using q assms(3) by (simp add: fexp_def)
  then have "round_rat q = of_int (rne (q * 2 ^ (52 - k))) / 2 ^ (52 - k)"
    using q by (simp add: round_rat_def power_int_minus field_simps)
  then have r: "round_rat q = of_int n / 2 ^ (52 - k)" using rne_near [OF assms(4)] by simp
  obtain x where x: "rnd64 q = Fin x"
    by (rule literal_between [of "int k" q]) (use assms(1-3) in \<open>auto simp: power_int_add\<close>)
  then have "x = round_rat q" by (auto simp: rnd64_def Let_def split: if_splits)
  then show ?thesis using r x by simp
qed

section \<open>A capped order and its own limit\<close>

text \<open>
  An order that the order limit sizes has the quantity limit / price, and risk compares
  quantity * price with the same limit.  Both are rounded, and the product can be above the
  limit: with a limit of 500000 and a price of 30 the order of a tight stop is always
  refused, and with it the whole batch (\<open>batch_all_or_nothing\<close>).
\<close>

definition ex_environment :: "(string, string) dict" where
  "ex_environment =
     [(''NANODELTA_PAPER_EQUITY_INR'', ''3000000''), (''NANODELTA_PAPER_RISK_PER_TRADE_INR'', ''2000''),
      (''NANODELTA_PAPER_MAX_POSITIONS'', ''300''), (''NANODELTA_PAPER_MAX_SECTOR_POSITIONS'', ''30''),
      (''NANODELTA_PAPER_MAX_ORDER_NOTIONAL_INR'', ''500000'')]"

definition ex_capped_signal :: strategy_signal where
  "ex_capped_signal = \<lparr>sg_action = BUY, sg_confidence = Fin 1, sg_reference_price = Fin 30,
     sg_stop_price = Fin (1919 / 64), sg_target_price = Fin 31, sg_estimated_cost_r = Fin 0,
     sg_historical_expectancy_r = Fin 0, sg_ml_tilt_r = Fin 0\<rparr>"

lemma capped_notional:
  "rnd64 (500000 / 30) = Fin (of_int 4581298449066667 / 2 ^ (52 - 14))"
  "rnd64 (of_int 4581298449066667 / 2 ^ (52 - 14) * 30) = Fin (of_int 8589934592000001 / 2 ^ (52 - 18))"
proof -
  show "rnd64 (500000 / 30) = Fin (of_int 4581298449066667 / 2 ^ (52 - 14))"
    by (rule rnd64_near) simp_all
  show "rnd64 (of_int 4581298449066667 / 2 ^ (52 - 14) * 30) = Fin (of_int 8589934592000001 / 2 ^ (52 - 18))"
    by (rule rnd64_near) simp_all
qed

lemma ex_numbers: "py_float ''3000000'' = Some (Fin 3000000)" "py_float ''2000'' = Some (Fin 2000)"
  "py_float ''300'' = Some (Fin 300)" "py_float ''30'' = Some (Fin 30)" "py_float ''500000'' = Some (Fin 500000)"
  by (simp_all add: py_float_def str_strip_def is_space_def parse_decimal_def is_digit_def digits_value_def digit_value_def
      parse_exponent_def str_lower_def lower_char_def Let_def)

lemma ex_settings:
  "policy_required ex_environment ''NANODELTA_PAPER_EQUITY_INR'' = Inr (Fin 3000000)"
  "policy_required ex_environment ''NANODELTA_PAPER_RISK_PER_TRADE_INR'' = Inr (Fin 2000)"
  "policy_required ex_environment ''NANODELTA_PAPER_MAX_POSITIONS'' = Inr (Fin 300)"
  "policy_required ex_environment ''NANODELTA_PAPER_MAX_SECTOR_POSITIONS'' = Inr (Fin 30)"
  "policy_optional ex_environment ''NANODELTA_PAPER_MAX_ORDER_NOTIONAL_INR'' x = Inr (Fin 500000)"
  "policy_optional ex_environment ''NANODELTA_PAPER_MAX_TOTAL_NEW_NOTIONAL_INR'' x = Inr x"
  "policy_optional ex_environment ''NANODELTA_PAPER_MAX_POSITION_NOTIONAL_INR'' x = Inr x"
  "policy_optional ex_environment ''NANODELTA_PAPER_MAX_MARKET_GROSS_EXPOSURE_INR'' x = Inr x"
  "policy_optional ex_environment ''NANODELTA_PAPER_MAX_TOTAL_GROSS_EXPOSURE_INR'' x = Inr x"
  "policy_optional ex_environment ''NANODELTA_PAPER_MAX_DAILY_LOSS_INR'' x = Inr x"
  "policy_optional ex_environment ''NANODELTA_PAPER_MAX_OPEN_POSITIONS'' x = Inr x"
  "policy_optional ex_environment ''NANODELTA_PAPER_MAX_SNAPSHOT_AGE_SECONDS'' x = Inr x"
  by (simp_all add: policy_required_def policy_optional_def ex_environment_def env_get_def str_strip_def is_space_def
      ex_numbers)


text \<open>The risk-sized quantity of the example is far above the capped one.\<close>

lemma ex_fraction:
  obtains f where "rnd64 (2000 / 3000000) = Fin f" and "1 / 2048 \<le> f" and "f \<le> 1 / 1024"
  by (rule literal_between [of "- 11" "2000 / 3000000"]) (auto simp: power_int_minus)

lemma ex_risk_cash:
  assumes "1 / 2048 \<le> f" and "f \<le> 1 / 1024"
  obtains c where "rnd64 (3000000 * f) = Fin c" and "1024 \<le> c" and "c \<le> 4096"
proof -
  have f: "is_f64 1024" "is_f64 4096" by (simp_all add: is_f64_numeral)
  show thesis by (rule rnd64_Fin_between [OF f, of "3000000 * f"]) (use assms that in auto)
qed

lemma ex_by_risk:
  assumes "1024 \<le> c" and "c \<le> (4096 :: rat)"
  obtains q where "rnd64 (c * 64) = Fin q" and "65536 \<le> q"
proof -
  have f: "is_f64 65536" "is_f64 262144" by (simp_all add: is_f64_numeral)
  show thesis by (rule rnd64_Fin_between [OF f, of "c * 64"]) (use assms that in auto)
qed

lemma ex_daily_loss: obtains x where "Fin 3000000 * rnd64 (5 / 100) = Fin x" and "0 < x"
proof -
  obtain y where y: "rnd64 (5 / 100) = Fin y" "1 / 32 \<le> y" "y \<le> 1 / 16"
    by (rule literal_between [of "- 5" "5 / 100"]) (auto simp: power_int_minus)
  have f: "is_f64 65536" "is_f64 262144" by (simp_all add: is_f64_numeral)
  show thesis by (rule rnd64_Fin_between [OF f, of "3000000 * y"]) (use y that in auto)
qed

lemma ex_limits_between: "0 \<le> rnd64 (70 / 100)" "rnd64 (70 / 100) \<le> 1" "\<not> rnd64 (3 / 1000) < 0"
proof -
  show "0 \<le> rnd64 (70 / 100)" "\<not> rnd64 (3 / 1000) < 0" using rnd64_nonneg [of "70 / 100"] rnd64_nonneg [of "3 / 1000"]
    by (cases "rnd64 (3 / 1000)"; simp add: zero_pyfloat_def)+
  show "rnd64 (70 / 100) \<le> 1"
    by (rule literal_between [of "- 1" "70 / 100"]) (auto simp: power_int_minus one_pyfloat_def)
qed

theorem capped_order_refused:
  "\<exists>a l q. build_allocation_policy ex_environment = Inr a \<and> build_risk_limits ex_environment = Inr l
     \<and> order_quantity a ex_capped_signal = Inr q
     \<and> (\<forall>t approval portfolio now captured. ti_quantity t = q \<longrightarrow> ti_reference_price t = Fin 30
          \<longrightarrow> ''ORDER_NOTIONAL_LIMIT_EXCEEDED'' \<in> set (entry_reasons l t approval portfolio now captured))"
proof -
  obtain f where f: "rnd64 (2000 / 3000000) = Fin f" "1 / 2048 \<le> f" "f \<le> 1 / 1024" by (rule ex_fraction)
  obtain c where c: "rnd64 (3000000 * f) = Fin c" "1024 \<le> c" "c \<le> 4096" by (rule ex_risk_cash [OF f(2,3)])
  obtain r where r: "rnd64 (c * 64) = Fin r" "65536 \<le> r" by (rule ex_by_risk [OF c(2,3)])
  obtain x where x: "Fin 3000000 * rnd64 (5 / 100) = Fin x" "0 < x" by (rule ex_daily_loss)
  obtain a where a: "build_allocation_policy ex_environment = Inr a" "ap_equity a = Fin 3000000"
    "ap_risk_fraction_per_trade a = Fin f" "ap_max_order_notional a = Fin 500000"
    using f ex_limits_between by (simp add: build_allocation_policy_def ex_settings py_div_def allocation_policy_post_init_def
        positive_int_limit_def int_of_float_def truncate_rat_def float_of_int_def one_pyfloat_def zero_pyfloat_def)
  obtain l where l: "build_risk_limits ex_environment = Inr l" "rl_max_order_notional l = Fin 500000"
    using x by (simp add: build_risk_limits_def ex_settings risk_limits_post_init_def int_of_float_def truncate_rat_def
        int_float_def float_of_int_def)
  have q: "order_quantity a ex_capped_signal = Inr (Fin (of_int 4581298449066667 / 2 ^ (52 - 14)))"
  proof -
    have d: "\<bar>Fin 30 - Fin (1919 / 64)\<bar> = Fin (1 / 64)"
      using rnd64_f64 [OF is_f64_powi [of "- 6"]] by (simp add: minus_pyfloat_def power_int_minus)
    have cash: "Fin 3000000 * Fin f = Fin c" using c(1) by simp
    have by_risk: "py_div (Fin c) (Fin (1 / 64)) = Inr (Fin r)"
      using r(1) by (simp add: py_div_def zero_pyfloat_def)
    have by_notional: "py_div (Fin 500000) (Fin 30) = Inr (Fin (of_int 4581298449066667 / 2 ^ (52 - 14)))"
      using capped_notional(1) by (simp add: py_div_def zero_pyfloat_def)
    show ?thesis
      using r(2) by (simp only: order_quantity_def a ex_capped_signal_def strategy_signal.simps d cash by_risk by_notional bind_r_simps)
        (simp add: py_min_def)
  qed
  show ?thesis
  proof (intro exI conjI allI impI)
    show "build_allocation_policy ex_environment = Inr a" by (rule a(1))
    show "build_risk_limits ex_environment = Inr l" by (rule l(1))
    show "order_quantity a ex_capped_signal = Inr (Fin (of_int 4581298449066667 / 2 ^ (52 - 14)))" by (rule q)
    fix t :: trade_intent and approval portfolio now captured
    assume t: "ti_quantity t = Fin (of_int 4581298449066667 / 2 ^ (52 - 14))" "ti_reference_price t = Fin 30"
    have "order_notional t = Fin (of_int 8589934592000001 / 2 ^ (52 - 18))"
      using capped_notional(2) t by (simp only: order_notional_def times_pyfloat.simps)
    then have "rl_max_order_notional l < order_notional t" by (simp add: l(2))
    then show "''ORDER_NOTIONAL_LIMIT_EXCEEDED'' \<in> set (entry_reasons l t approval portfolio now captured)"
      by (simp add: entry_reasons_def)
  qed
qed

end
