(* ===== verification/Trading_Agents.thy ===== *)
theory Trading_Agents
  imports Qwen History
begin

text \<open>
  The bounded adapter to the TradingAgents research backend,
  src/src/nanodelta/agents/tradingagents.py.  The graph of the third-party package is a
  parameter that acts on a world; its answers are JSON values.  \<open>_now().astimezone(UTC)\<close> is
  the parameter \<open>ag_clock\<close>, and an aware datetime is held in UTC, so \<open>date()\<close> is its UTC day.
\<close>

section \<open>Model\<close>

record approved_candidate =
  ac_candidate_id :: string
  ac_identity :: strategy_identity
  ac_approval_id :: string
  ac_symbol :: string
  ac_event_time :: datetime
  ac_gold_snapshot_ids :: "string list"
  ac_deterministic_action :: advisory_action

definition approved_candidate_post_init :: "approved_candidate \<Rightarrow> approved_candidate result" where
  "approved_candidate_post_init c =
     (if ac_deterministic_action c = ABSTAIN
        then Inl (ValueError ''only a deterministic BUY or SELL candidate can be researched'')
      else if ac_symbol c = [] \<or> ac_gold_snapshot_ids c = []
        then Inl (ValueError ''symbol and gold_snapshot_ids are required'')
      else bind_r (utc (ac_event_time c) ''event_time'') (\<lambda>_. Inr c))"

record agent_request =
  ar_candidate :: approved_candidate
  ar_requested_at :: instant
  ar_input_fingerprint :: string

definition agent_request_create :: "approved_candidate \<Rightarrow> datetime \<Rightarrow> agent_request result" where
  "agent_request_create c requested_at =
     bind_r (utc requested_at ''requested_at'') (\<lambda>now.
     bind_r (utc (ac_event_time c) ''event_time'') (\<lambda>t.
       Inr \<lparr>ar_candidate = c, ar_requested_at = now,
            ar_input_fingerprint = stable_id ([ac_candidate_id c, ac_approval_id c] @ ac_gold_snapshot_ids c
              @ [isoformat t])\<rparr>))"

record role_evidence =
  re_role :: string
  re_summary :: string

record agent_evidence =
  ae_evidence_id :: string
  ae_cache_key :: string
  ae_input_fingerprint :: string
  ae_candidate_id :: string
  ae_approval_id :: string
  ae_framework :: string
  ae_framework_version :: string
  ae_model_config :: "(string \<times> string) list"
  ae_started_at :: instant
  ae_completed_at :: instant
  ae_action :: advisory_action
  ae_confidence :: "pyfloat option"
  ae_roles :: "role_evidence list"
  ae_raw_decision :: string
  ae_error :: "string option"

record 'w advisory_backend =
  ab_framework_version :: string
  ab_model_config :: "(string, string) dict"
  ab_analyze :: "string \<Rightarrow> int \<Rightarrow> ('w, (string, json) dict \<times> json) st"

text \<open>
  The wrapper of the optional package: \<open>propagate\<close> stands for constructing the graph from the
  configuration and calling it, and is \<open>None\<close> where neither a factory is given nor the
  package is installed.
\<close>

definition graph_model_config :: "(string, json) dict \<Rightarrow> (string, string) dict" where
  "graph_model_config config =
     map (\<lambda>(k, v). (k, json_str v))
       (filter (\<lambda>(k, _). k \<in> {''llm_provider'', ''deep_think_llm'', ''quick_think_llm'', ''temperature''}) config)"

definition graph_analyze ::
  "(string, json) dict \<Rightarrow> ((string, json) dict \<Rightarrow> string \<Rightarrow> string \<Rightarrow> ('w, json \<times> json) st) option
     \<Rightarrow> string \<Rightarrow> int \<Rightarrow> ('w, (string, json) dict \<times> json) st" where
  "graph_analyze config propagate symbol day =
     (case propagate of
        None \<Rightarrow> raise_st (RuntimeError ''TradingAgents is optional; install the pinned external package'')
      | Some graph \<Rightarrow>
          bind_st (graph config symbol (date_isoformat day)) (\<lambda>(state, decision).
            return_st ((case state of JObj d \<Rightarrow> d | _ \<Rightarrow> []), decision)))"

definition graph_backend ::
  "(string, json) dict \<Rightarrow> string \<Rightarrow> ((string, json) dict \<Rightarrow> string \<Rightarrow> string \<Rightarrow> ('w, json \<times> json) st) option
     \<Rightarrow> 'w advisory_backend" where
  "graph_backend config version propagate =
     \<lparr>ab_framework_version = version, ab_model_config = graph_model_config config,
      ab_analyze = graph_analyze config propagate\<rparr>"

record 'w agents_adapter =
  ag_backend :: "'w advisory_backend"
  ag_symbol_resolver :: "market \<Rightarrow> string \<Rightarrow> string result"
  ag_clock :: "'w \<Rightarrow> instant \<times> 'w"

record 'w agents_state =
  as_cache :: "(string, agent_evidence) dict"
  as_world :: 'w

definition role_fields :: "(string \<times> string) list" where
  "role_fields =
     [(''technical_analyst'', ''market_report''), (''sentiment_analyst'', ''sentiment_report''),
      (''news_analyst'', ''news_report''), (''fundamentals_analyst'', ''fundamentals_report''),
      (''bull_researcher'', ''investment_debate_state''), (''candidate_reviewer'', ''trader_investment_plan''),
      (''risk_review'', ''risk_debate_state'')]"

definition agent_serialize :: "json \<Rightarrow> string" where
  "agent_serialize v = (case v of JStr s \<Rightarrow> s | _ \<Rightarrow> json_dumps v)"

definition extract_roles :: "(string, json) dict \<Rightarrow> role_evidence list" where
  "extract_roles state =
     List.map_filter (\<lambda>(role, field).
       case map_of state field of
         None \<Rightarrow> None
       | Some v \<Rightarrow> if json_truth v then Some \<lparr>re_role = role, re_summary = agent_serialize v\<rparr> else None) role_fields"

definition dict_default :: "(string, json) dict \<Rightarrow> string \<Rightarrow> json \<Rightarrow> json" where
  "dict_default d k v = (case map_of d k of None \<Rightarrow> v | Some x \<Rightarrow> x)"

definition agent_confidence :: "(string, json) dict \<Rightarrow> pyfloat option result" where
  "agent_confidence d =
     (case map_of d ''confidence'' of
        Some raw \<Rightarrow>
          if (case raw of JBool _ \<Rightarrow> True | JInt _ \<Rightarrow> True | JFloat _ \<Rightarrow> True | _ \<Rightarrow> False)
          then bind_r (json_float raw) (\<lambda>x. Inr (if 0 \<le> x \<and> x \<le> 1 then Some x else None))
          else Inr None
      | None \<Rightarrow> Inr None)"

definition agent_action :: "string \<Rightarrow> advisory_action" where
  "agent_action raw =
     (let normalized = py_upper (str_strip raw) in
      if normalized \<in> {''BUY'', ''STRONG BUY''} then BUY
      else if normalized \<in> {''SELL'', ''STRONG SELL''} then SELL
      else ABSTAIN)"

definition normalize_decision :: "json \<Rightarrow> (advisory_action \<times> pyfloat option) result" where
  "normalize_decision decision =
     (case decision of
        JObj d \<Rightarrow>
          let raw = json_str (dict_default d ''action'' (dict_default d ''decision'' (dict_default d ''rating'' (JStr []))))
          in bind_r (agent_confidence d) (\<lambda>confidence. Inr (agent_action raw, confidence))
      | _ \<Rightarrow> Inr (agent_action (json_str decision), None))"

definition ends_with :: "string \<Rightarrow> string \<Rightarrow> bool" where
  "ends_with x s \<longleftrightarrow> length x \<le> length s \<and> drop (length s - length x) s = x"

definition agent_default_symbol :: "market \<Rightarrow> string \<Rightarrow> string" where
  "agent_default_symbol m symbol =
     (if m = NSE \<and> \<not> ends_with ''.NS'' symbol then symbol @ ''.NS''
      else if m = CRYPTO then str_replace CHR ''_'' ''-'' symbol
      else symbol)"

definition sorted_model_config :: "'w agents_adapter \<Rightarrow> (string \<times> string) list" where
  "sorted_model_config g = py_sorted (<) (ab_model_config (ag_backend g))"

definition agent_cache_key :: "'w agents_adapter \<Rightarrow> agent_request \<Rightarrow> string" where
  "agent_cache_key g r =
     stable_id [ar_input_fingerprint r, ab_framework_version (ag_backend g),
       repr_tuple (map (\<lambda>(k, v). repr_tuple [repr_str k, repr_str v]) (sorted_model_config g))]"

text \<open>What the guarded block yields: decision text, action, confidence and roles, or an error.\<close>

definition agent_opinion ::
  "'w agents_adapter \<Rightarrow> string \<Rightarrow> int
     \<Rightarrow> ('w, string \<times> advisory_action \<times> pyfloat option \<times> role_evidence list) st" where
  "agent_opinion g symbol day =
     bind_st (ab_analyze (ag_backend g) symbol day) (\<lambda>(state, decision).
     bind_st (lift_st (normalize_decision decision)) (\<lambda>(action, confidence).
       return_st (agent_serialize decision, action, confidence, extract_roles state)))"

definition event_day :: "datetime \<Rightarrow> int" where
  "event_day t = (case t of Naive x \<Rightarrow> date_of x | Aware x \<Rightarrow> date_of x)"

definition agent_research :: "'w agents_adapter \<Rightarrow> agent_request \<Rightarrow> ('w, agent_evidence) st" where
  "agent_research g r w0 =
     (let c = ar_candidate r; key = agent_cache_key g r; (started, w1) = ag_clock g w0 in
      case ag_symbol_resolver g (si_market (ac_identity c)) (ac_symbol c) of
        Inl e \<Rightarrow> (Inl e, w1)
      | Inr symbol \<Rightarrow>
          (let (x, w2) = agent_opinion g symbol (event_day (ac_event_time c)) w1;
               (raw, action, confidence, roles) = (case x of Inr o4 \<Rightarrow> o4 | Inl _ \<Rightarrow> ([], ABSTAIN, None, []));
               error = (case x of Inr _ \<Rightarrow> None | Inl e \<Rightarrow> Some (error_name e @ '': '' @ error_text e));
               (completed, w3) = ag_clock g w2
           in (Inr \<lparr>ae_evidence_id = key, ae_cache_key = key, ae_input_fingerprint = ar_input_fingerprint r,
                   ae_candidate_id = ac_candidate_id c, ae_approval_id = ac_approval_id c,
                   ae_framework = ''TauricResearch/TradingAgents'',
                   ae_framework_version = ab_framework_version (ag_backend g),
                   ae_model_config = sorted_model_config g, ae_started_at = started, ae_completed_at = completed,
                   ae_action = action, ae_confidence = confidence, ae_roles = roles, ae_raw_decision = raw,
                   ae_error = error\<rparr>, w3)))"

definition agent_run :: "'w agents_adapter \<Rightarrow> agent_request \<Rightarrow> strategy_approval \<Rightarrow> ('w agents_state, agent_evidence) st" where
  "agent_run g r approval s =
     (let c = ar_candidate r in
      if sa_approval_id approval \<noteq> ac_approval_id c
        then (Inl (PermissionError ''candidate approval_id does not match supplied approval''), s)
      else if sa_identity approval \<noteq> ac_identity c
        then (Inl (PermissionError ''candidate identity does not match supplied approval''), s)
      else if \<not> is_current approval (ar_requested_at r)
        then (Inl (PermissionError ''TradingAgents requires a current exact-identity approval''), s)
      else
        case map_of (as_cache s) (agent_cache_key g r) of
          Some cached \<Rightarrow> (Inr cached, s)
        | None \<Rightarrow>
            (case agent_research g r (as_world s) of
               (Inl e, w) \<Rightarrow> (Inl e, s\<lparr>as_world := w\<rparr>)
             | (Inr evidence, w) \<Rightarrow>
                 (Inr evidence, s\<lparr>as_cache := AList.update (agent_cache_key g r) evidence (as_cache s), as_world := w\<rparr>)))"


text \<open>Any history of calls of one adapter, failing ones among them.\<close>

definition agents_after ::
  "'w agents_adapter \<Rightarrow> (agent_request \<times> strategy_approval) list \<Rightarrow> 'w agents_state \<Rightarrow> 'w agents_state" where
  "agents_after g calls s = foldl (\<lambda>s (r, approval). snd (agent_run g r approval s)) s calls"

section \<open>What evidence can say\<close>

text \<open>Evidence of a failed analysis abstains, and a confidence is a number between 0 and 1.\<close>

definition sound_evidence :: "agent_evidence \<Rightarrow> bool" where
  "sound_evidence e \<longleftrightarrow> ae_evidence_id e = ae_cache_key e
     \<and> pred_option (\<lambda>x. 0 \<le> x \<and> x \<le> 1) (ae_confidence e)
     \<and> (ae_error e \<noteq> None \<longrightarrow> ae_action e = ABSTAIN \<and> ae_confidence e = None \<and> ae_roles e = [] \<and> ae_raw_decision e = [])"

lemma normalize_confidence:
  "normalize_decision d = Inr (a, c) \<Longrightarrow> pred_option (\<lambda>x. 0 \<le> x \<and> x \<le> 1) c"
  by (auto simp: normalize_decision_def agent_confidence_def Let_def split: json.splits option.splits if_splits)

lemma agent_research_sound:
  assumes "agent_research g r w = (Inr e, w')"
  shows "sound_evidence e" and "ae_cache_key e = agent_cache_key g r"
    and "ae_input_fingerprint e = ar_input_fingerprint r"
    and "ae_candidate_id e = ac_candidate_id (ar_candidate r)" and "ae_approval_id e = ac_approval_id (ar_candidate r)"
proof -
  have opinion: "pred_option (\<lambda>x. 0 \<le> x \<and> x \<le> 1) c"
    if "agent_opinion g symbol day v = (Inr (raw, a, c, roles), v')" for symbol day v raw a c roles v'
    using that by (auto simp: agent_opinion_def dest: normalize_confidence)
  show "sound_evidence e"
    using assms opinion by (auto simp: agent_research_def sound_evidence_def Let_def split: prod.splits sum.splits)
  show "ae_cache_key e = agent_cache_key g r" "ae_input_fingerprint e = ar_input_fingerprint r"
    "ae_candidate_id e = ac_candidate_id (ar_candidate r)" "ae_approval_id e = ac_approval_id (ar_candidate r)"
    using assms by (auto simp: agent_research_def Let_def split: prod.splits sum.splits)
qed

definition cache_sound :: "'w agents_state \<Rightarrow> bool" where
  "cache_sound s \<longleftrightarrow> list_all (\<lambda>(k, e). sound_evidence e \<and> ae_cache_key e = k) (as_cache s)"

lemma agent_run_keeps: "keeps cache_sound (agent_run g r approval)"
proof -
  have "list_all P (AList.update k v d)" if "list_all P d" "P (k, v)" for P k v and d :: "(string, agent_evidence) dict"
    using that by (induction d) auto
  then show ?thesis
    by (auto simp: keeps_def agent_run_def cache_sound_def Let_def agent_research_sound split: prod.splits sum.splits option.splits)
qed

lemma agents_after_sound: "cache_sound s \<Longrightarrow> cache_sound (agents_after g calls s)"
proof (induction calls arbitrary: s)
  case (Cons c calls)
  from agent_run_keeps [of g "fst c" "snd c"] Cons show ?case
    by (auto simp: keeps_def agents_after_def split_beta)
qed (simp add: agents_after_def)

section \<open>Properties\<close>

text \<open>
  C36: The research backend only advises.  In any state a history of calls leads to, evidence is
  returned only under the current approval of exactly the candidate's identity; it is filed
  under the key of the request, abstains whenever the backend failed, and carries a
  confidence between 0 and 1 or none; unless it was on file already it names the candidate
  and the approval of the request; and asking again returns the same evidence without
  calling the backend or the clock.
\<close>

theorem agents_only_advise:
  assumes "agent_run g r approval (agents_after g calls \<lparr>as_cache = [], as_world = w\<rparr>) = (Inr e, s')"
  shows "sa_approval_id approval = ac_approval_id (ar_candidate r) \<and> sa_identity approval = ac_identity (ar_candidate r)
    \<and> is_current approval (ar_requested_at r) \<and> ae_cache_key e = agent_cache_key g r \<and> sound_evidence e
    \<and> (map_of (as_cache (agents_after g calls \<lparr>as_cache = [], as_world = w\<rparr>)) (agent_cache_key g r) = Some e
       \<or> ae_candidate_id e = ac_candidate_id (ar_candidate r) \<and> ae_approval_id e = sa_approval_id approval
         \<and> ae_input_fingerprint e = ar_input_fingerprint r)
    \<and> agent_run g r approval s' = (Inr e, s')"
proof -
  let ?s = "agents_after g calls \<lparr>as_cache = [], as_world = w\<rparr>"
  have "cache_sound ?s" by (rule agents_after_sound) (simp add: cache_sound_def)
  then have filed: "sound_evidence x \<and> ae_cache_key x = k" if "map_of (as_cache ?s) k = Some x" for k x
    using that by (auto simp: cache_sound_def list_all_iff dest!: map_of_SomeD)
  show ?thesis
  proof (cases "map_of (as_cache ?s) (agent_cache_key g r)")
    case (Some x)
    then show ?thesis using assms filed by (auto simp: agent_run_def Let_def split: if_splits)
  next
    case None
    then obtain w' where "agent_research g r (as_world ?s) = (Inr e, w')"
      using assms by (auto simp: agent_run_def Let_def split: if_splits prod.splits sum.splits)
    note e = agent_research_sound [OF this] this
    show ?thesis using assms None e by (auto simp: agent_run_def Let_def split: if_splits)
  qed
qed


text \<open>A backend that answers in lower case and gives no confidence.\<close>

definition ex_adapter :: "nat agents_adapter" where
  "ex_adapter =
     \<lparr>ag_backend = \<lparr>ab_framework_version = ''1'', ab_model_config = [],
        ab_analyze = (\<lambda>_ _ n. (Inr ([(''news_report'', JStr ''calm'')], JObj [(''action'', JStr ''buy'')]), n + 1))\<rparr>,
      ag_symbol_resolver = (\<lambda>m symbol. Inr (agent_default_symbol m symbol)), ag_clock = (\<lambda>n. (20, n))\<rparr>"

definition ex_agent_request :: agent_request where
  "ex_agent_request =
     \<lparr>ar_candidate = \<lparr>ac_candidate_id = ''cand-1'', ac_identity = ex_identity, ac_approval_id = ''approval-1'',
        ac_symbol = ''TCS'', ac_event_time = Aware 20, ac_gold_snapshot_ids = [''gold-1''],
        ac_deterministic_action = BUY\<rparr>,
      ar_requested_at = 20, ar_input_fingerprint = ''f''\<rparr>"

lemma ex_agent_action: "agent_action ''buy'' = BUY"
  by code_simp

theorem agents_only_advise_witness:
  "\<exists>e s'. agent_run ex_adapter ex_agent_request ex_approval (agents_after ex_adapter [] \<lparr>as_cache = [], as_world = 0\<rparr>)
        = (Inr e, s')
     \<and> ae_action e = BUY \<and> as_world s' = 1 \<and> agent_run ex_adapter ex_agent_request ex_approval s' = (Inr e, s')"
proof -
  have "sa_approval_id ex_approval = ''approval-1''" "sa_identity ex_approval = ex_identity" "is_current ex_approval 20"
    by (simp_all add: ex_approval_def is_current_def)
  then have "\<exists>e s'. agent_run ex_adapter ex_agent_request ex_approval
      (agents_after ex_adapter [] \<lparr>as_cache = [], as_world = 0\<rparr>) = (Inr e, s') \<and> ae_action e = BUY \<and> as_world s' = 1"
    by (simp add: agent_run_def agents_after_def agent_research_def agent_opinion_def st_defs ex_agent_request_def
        ex_adapter_def normalize_decision_def agent_confidence_def dict_default_def json_str_def ex_agent_action Let_def)
  then obtain e s' where e: "agent_run ex_adapter ex_agent_request ex_approval
      (agents_after ex_adapter [] \<lparr>as_cache = [], as_world = 0\<rparr>) = (Inr e, s')" "ae_action e = BUY" "as_world s' = 1"
    by blast
  then show ?thesis using agents_only_advise [OF e(1)] by blast
qed

end
