(* ===== verification/Nse_Universe.thy ===== *)
theory Nse_Universe
  imports Trading_Agents Nse_Session
begin

text \<open>
  The configured NSE universe, src/src/nanodelta/universe/nse.py: symbols.csv, the resolution
  of security identifiers against Dhan's instrument list, and the history jobs made of both.
  What \<open>csv.DictReader\<close> reads from a file or a download is a parameter: the header, and per
  row the cells under their distinct names (\<open>None\<close> where the row is short) and the surplus
  cells.
  Names, flags and timeframes are compared in lower case; only ASCII letters have a lower
  case that spells one of the words they are compared with.
\<close>

section \<open>Model\<close>

record csv_row =
  cr_cells :: "(string \<times> string option) list"
  cr_surplus :: "string list"

record csv_file =
  cf_fieldnames :: "string list option"
  cf_rows :: "csv_row list"

record nse_symbol_spec =
  ns_symbol :: string
  ns_security_id :: "string option"
  ns_exchange_segment :: string
  ns_instrument :: string
  ns_timeframes :: "string list"
  ns_trade_horizon :: string

record dhan_instrument =
  di_symbol :: string
  di_security_id :: string
  di_exchange_segment :: string
  di_instrument :: string

definition remove_suffix :: "string \<Rightarrow> string \<Rightarrow> string" where
  "remove_suffix x s = (if ends_with x s then take (length s - length x) s else s)"

definition dhan_history_timeframes :: "string list" where
  "dhan_history_timeframes = [''1m'', ''5m'', ''15m'', ''30m'', ''1h'', ''60m'', ''1d'']"

text \<open>The row with cleaned names and values; surplus cells are a list, which has no \<open>strip\<close>.\<close>

definition cleaned_row :: "csv_row \<Rightarrow> (string, string) dict result" where
  "cleaned_row r =
     (if cr_surplus r \<noteq> [] then Inl (OtherError ''AttributeError'' (repr_str ''list'' @ '' object has no attribute '' @ repr_str ''strip''))
      else Inr (fold (\<lambda>(name, value). AList.update (str_lower (str_strip name))
                        (str_strip (case value of None \<Rightarrow> [] | Some v \<Rightarrow> v))) (cr_cells r) []))"


definition cell_or :: "(string, string) dict \<Rightarrow> string \<Rightarrow> string \<Rightarrow> string" where
  "cell_or row k fallback = (case map_of row k of None \<Rightarrow> fallback | Some v \<Rightarrow> v)"

text \<open>\<open>row.get(k) or fallback\<close>\<close>

definition filled_or :: "(string, string) dict \<Rightarrow> string \<Rightarrow> string \<Rightarrow> string" where
  "filled_or row k fallback = (case map_of row k of None \<Rightarrow> fallback | Some v \<Rightarrow> if v = [] then fallback else v)"

definition repr_list :: "string list \<Rightarrow> string" where
  "repr_list xs = ''['' @ str_join '', '' (map repr_str xs) @ '']''"

definition row_timeframes :: "(string, string) dict \<Rightarrow> string list" where
  "row_timeframes row =
     map (\<lambda>v. str_lower (str_strip v)) (filter (\<lambda>v. str_strip v \<noteq> [])
       (split_on CHR ''|'' (str_replace CHR '';'' ''|'' (cell_or row ''timeframes'' ''5m|15m|1h|1d''))))"

text \<open>One row after the ones that gave \<open>specs\<close>; the symbols seen so far are those of \<open>specs\<close>.\<close>

definition load_row :: "int \<Rightarrow> csv_row \<Rightarrow> nse_symbol_spec list \<Rightarrow> nse_symbol_spec list result" where
  "load_row line raw specs =
     bind_r (cleaned_row raw) (\<lambda>row.
     let enabled = str_lower (cell_or row ''enabled'' ''true'');
         symbol = remove_suffix ''-EQ'' (py_upper (cell_or row ''symbol'' []));
         timeframes = row_timeframes row;
         unsupported = filter (\<lambda>t. t \<notin> set dhan_history_timeframes) timeframes in
     if enabled \<in> {''false'', ''0'', ''no'', ''n''} then Inr specs
     else if enabled \<notin> {''true'', ''1'', ''yes'', ''y'', []}
       then Inl (ValueError (''invalid enabled value on symbols.csv line '' @ str_of_int line))
     else if symbol = [] then Inl (ValueError (''empty symbol on symbols.csv line '' @ str_of_int line))
     else if symbol \<in> set (map ns_symbol specs)
       then Inl (ValueError (''duplicate NSE symbol in symbols.csv: '' @ symbol))
     else if timeframes = [] then Inl (ValueError (''no timeframes configured for '' @ symbol))
     else if unsupported \<noteq> []
       then Inl (ValueError (''Dhan direct history does not support ''
              @ repr_list (py_sorted (<) (dict_fromkeys unsupported)) @ '' for '' @ symbol))
     else Inr (specs @ [\<lparr>ns_symbol = symbol,
            ns_security_id = (let v = filled_or row ''security_id'' [] in if v = [] then None else Some v),
            ns_exchange_segment = filled_or row ''exchange_segment'' ''NSE_EQ'',
            ns_instrument = filled_or row ''instrument'' ''EQUITY'', ns_timeframes = timeframes,
            ns_trade_horizon = filled_or row ''trade_horizon'' ''intraday''\<rparr>]))"

fun load_rows :: "int \<Rightarrow> csv_row list \<Rightarrow> nse_symbol_spec list \<Rightarrow> nse_symbol_spec list result" where
  "load_rows line [] specs = Inr specs"
| "load_rows line (raw # rows) specs = bind_r (load_row line raw specs) (load_rows (line + 1) rows)"

definition load_nse_symbols :: "string \<Rightarrow> csv_file option \<Rightarrow> nse_symbol_spec list result" where
  "load_nse_symbols path file =
     (case file of
        None \<Rightarrow> Inl (OtherError ''FileNotFoundError'' (''NSE symbols CSV does not exist: '' @ path))
      | Some f \<Rightarrow>
          if (case cf_fieldnames f of
                None \<Rightarrow> True
              | Some names \<Rightarrow> ''symbol'' \<notin> set (map (\<lambda>n. str_lower (str_strip n)) names))
          then Inl (ValueError ''symbols.csv requires a symbol column'')
          else bind_r (load_rows 2 (cf_rows f) []) (\<lambda>specs.
            if specs = [] then Inl (ValueError ''symbols.csv contains no enabled NSE symbols'') else Inr specs))"

section \<open>Resolution of security identifiers\<close>

definition symbol_key :: "string \<Rightarrow> string" where
  "symbol_key v = remove_suffix ''-EQ'' (py_upper (str_strip v))"

fun master_value :: "csv_row \<Rightarrow> string list \<Rightarrow> string" where
  "master_value row [] = []"
| "master_value row (name # names) =
     (case map_of (cr_cells row) name of
        Some (Some v) \<Rightarrow> if str_strip v \<noteq> [] then str_strip v else master_value row names
      | _ \<Rightarrow> master_value row names)"

definition is_nse_equity :: "csv_row \<Rightarrow> bool" where
  "is_nse_equity row \<longleftrightarrow>
     (let exchange = py_upper (master_value row [''EXCH_ID'', ''SEM_EXM_EXCH_ID'']);
          segment = py_upper (master_value row [''SEGMENT'', ''SEM_SEGMENT'']);
          instrument = py_upper (master_value row [''INSTRUMENT'', ''SEM_INSTRUMENT_NAME'', ''INSTRUMENT_TYPE'',
            ''SEM_EXCH_INSTRUMENT_TYPE'']) in
      exchange = ''NSE'' \<and> segment \<in> {''E'', ''EQ'', ''NSE_EQ''}
        \<and> (instrument = [] \<or> str_contains ''EQUITY'' instrument))"

definition master_aliases :: "csv_row \<Rightarrow> string list" where
  "master_aliases row =
     map symbol_key (filter (\<lambda>v. v \<noteq> [])
       [master_value row [''SYMBOL_NAME'', ''SM_SYMBOL_NAME''], master_value row [''TRADING_SYMBOL'', ''SEM_TRADING_SYMBOL''],
        master_value row [''DISPLAY_NAME'', ''SEM_CUSTOM_SYMBOL''], master_value row [''UNDERLYING_SYMBOL'']])"

text \<open>The instruments a requested name matches, one per identifier.\<close>

definition master_matches :: "csv_row list \<Rightarrow> string \<Rightarrow> string \<Rightarrow> (string, dhan_instrument) dict" where
  "master_matches rows normalized original =
     fold (\<lambda>row d.
       let security_id = master_value row [''SECURITY_ID'', ''SEM_SMST_SECURITY_ID''] in
       if is_nse_equity row \<and> security_id \<noteq> [] \<and> normalized \<in> set (master_aliases row)
       then AList.update security_id \<lparr>di_symbol = symbol_key original, di_security_id = security_id,
              di_exchange_segment = ''NSE_EQ'', di_instrument = ''EQUITY''\<rparr> d
       else d) rows []"

definition resolve_one :: "csv_row list \<Rightarrow> string \<times> string \<Rightarrow> (string \<times> dhan_instrument) result" where
  "resolve_one rows = (\<lambda>(normalized, original).
     case master_matches rows normalized original of
       [] \<Rightarrow> Inl (LookupError (''NSE symbol not found in Dhan instrument master: '' @ original))
     | [(_, item)] \<Rightarrow> Inr (symbol_key original, item)
     | _ \<Rightarrow> Inl (ValueError (''NSE symbol is ambiguous in Dhan instrument master: '' @ original)))"

definition master_resolve :: "csv_file \<Rightarrow> string list \<Rightarrow> (string, dhan_instrument) dict result" where
  "master_resolve f symbols =
     (if cf_fieldnames f = None then Inl (ValueError ''Dhan instrument master has no header'')
      else bind_r (map_r (resolve_one (cf_rows f)) (fold (\<lambda>s. AList.update (symbol_key s) s) symbols [])) (\<lambda>items.
        Inr (fold (\<lambda>(k, i). AList.update k i) items [])))"

section \<open>The universe\<close>

definition dhan_security_ids :: "(string, string) dict \<Rightarrow> (string, string) dict result" where
  "dhan_security_ids ids =
     (let cleaned = fold (\<lambda>(s, v). AList.update (py_upper (str_strip s)) (str_strip v)) ids [] in
      if ids = [] then Inl (ValueError ''security_id or security_ids mapping is required'')
      else if \<exists>(s, v) \<in> set cleaned. s = [] \<or> v = []
        then Inl (ValueError ''Dhan security ID mappings cannot be empty'')
      else Inr cleaned)"

record dhan_universe =
  du_instruments :: "dhan_instrument list"
  du_jobs :: "history_job list"
  du_security_ids :: "(string, string) dict"

definition spec_instrument :: "(string, dhan_instrument) dict \<Rightarrow> nse_symbol_spec \<Rightarrow> dhan_instrument result" where
  "spec_instrument resolved spec =
     bind_r (case ns_security_id spec of
               Some v \<Rightarrow> Inr v
             | None \<Rightarrow> (case map_of resolved (ns_symbol spec) of
                 None \<Rightarrow> Inl (KeyError (ns_symbol spec))
               | Some i \<Rightarrow> Inr (di_security_id i))) (\<lambda>security_id.
       Inr \<lparr>di_symbol = ns_symbol spec, di_security_id = security_id,
            di_exchange_segment = ns_exchange_segment spec, di_instrument = ns_instrument spec\<rparr>)"

definition spec_jobs :: "nse_symbol_spec \<Rightarrow> history_job list result" where
  "spec_jobs spec =
     map_r (\<lambda>timeframe. history_job_post_init
       \<lparr>hj_market = NSE, hj_symbol = ns_symbol spec, hj_timeframe = timeframe,
        hj_provider_symbols = [(DHAN, ns_symbol spec)], hj_target_days = 730, hj_overlap_bars = 3,
        hj_request_limit = 1000, hj_window_start = None, hj_window_end = None\<rparr>) (ns_timeframes spec)"

text \<open>
  \<open>download\<close> fetches and reads the instrument list, \<open>token\<close> obtains an access token.
\<close>

definition universe_build ::
  "('w, csv_file) st \<Rightarrow> (instant \<Rightarrow> ('w, string) st) \<Rightarrow> string \<Rightarrow> csv_file option \<Rightarrow> datetime \<Rightarrow> ('w, dhan_universe) st" where
  "universe_build download token path file at_t =
     bind_st (lift_st (utc at_t ''now'')) (\<lambda>now.
     bind_st (lift_st (load_nse_symbols path file)) (\<lambda>specs.
     let unresolved = map ns_symbol (filter (\<lambda>s. ns_security_id s = None) specs) in
     bind_st (if unresolved = [] then return_st []
              else bind_st download (\<lambda>f. lift_st (master_resolve f unresolved))) (\<lambda>resolved.
     bind_st (lift_st (map_r (spec_instrument resolved) specs)) (\<lambda>instruments.
     bind_st (token now) (\<lambda>_.
     bind_st (lift_st (dhan_security_ids (fold (\<lambda>i. AList.update (di_symbol i) (di_security_id i)) instruments []))) (\<lambda>ids.
     bind_st (lift_st (map_r spec_jobs specs)) (\<lambda>jobs.
       return_st \<lparr>du_instruments = instruments, du_jobs = concat jobs, du_security_ids = ids\<rparr>)))))))"


section \<open>Properties\<close>

definition valid_specs :: "nse_symbol_spec list \<Rightarrow> bool" where
  "valid_specs specs \<longleftrightarrow> distinct (map ns_symbol specs)
     \<and> list_all (\<lambda>s. ns_symbol s \<noteq> [] \<and> ns_timeframes s \<noteq> [] \<and> set (ns_timeframes s) \<subseteq> set dhan_history_timeframes) specs"

lemma load_row_valid:
  assumes "load_row line raw specs = Inr specs'" and "valid_specs specs"
  shows "valid_specs specs'"
  using assms by (auto simp: load_row_def Let_def valid_specs_def filter_empty_conv split: if_splits)

lemma load_rows_valid: "load_rows line rows specs = Inr specs' \<Longrightarrow> valid_specs specs \<Longrightarrow> valid_specs specs'"
  by (induction rows arbitrary: line specs) (auto intro: load_row_valid)

lemma load_nse_symbols_valid:
  assumes "load_nse_symbols path file = Inr specs"
  shows "valid_specs specs" and "specs \<noteq> []"
  using assms load_rows_valid [of 2 _ "[]"]
  by (auto simp: load_nse_symbols_def valid_specs_def split: option.splits if_splits)

lemma spec_jobs_Inr:
  assumes "spec_jobs spec = Inr js" and "j \<in> set js"
  shows "hj_market j = NSE \<and> hj_symbol j = ns_symbol spec \<and> hj_timeframe j \<in> set (ns_timeframes spec)
    \<and> hj_provider_symbols j = [(DHAN, ns_symbol spec)] \<and> history_job_post_init j = Inr j"
proof -
  have post: "history_job_post_init x = Inr y \<Longrightarrow> y = x" for x y
    by (auto simp: history_job_post_init_def split: if_splits option.splits)
  from assms(1) have "list_all2 (\<lambda>t y. history_job_post_init
       \<lparr>hj_market = NSE, hj_symbol = ns_symbol spec, hj_timeframe = t, hj_provider_symbols = [(DHAN, ns_symbol spec)],
        hj_target_days = 730, hj_overlap_bars = 3, hj_request_limit = 1000, hj_window_start = None,
        hj_window_end = None\<rparr> = Inr y) (ns_timeframes spec) js"
    by (simp add: spec_jobs_def map_r_Inr_iff)
  then show ?thesis using assms(2) by (induction rule: list_all2_induct) (auto dest: post)
qed

text \<open>\<open>lists row name i\<close>: the instrument list has the NSE equity \<open>name\<close> under the identifier \<open>i\<close>.\<close>

definition lists :: "csv_row \<Rightarrow> string \<Rightarrow> string \<Rightarrow> bool" where
  "lists row name i \<longleftrightarrow> is_nse_equity row \<and> i \<noteq> [] \<and> i = master_value row [''SECURITY_ID'', ''SEM_SMST_SECURITY_ID'']
     \<and> name \<in> set (master_aliases row)"

lemma fold_update_keys:
  "fst ` set (fold (\<lambda>r d. if P r then AList.update (f r) (g r) d else d) rows d) = fst ` set d \<union> f ` {r \<in> set rows. P r}"
proof (induction rows arbitrary: d)
  case (Cons r rows)
  then show ?case by (cases "P r") (auto simp: dom_update)
qed simp

lemma fold_update_all:
  assumes "list_all Q d" and "\<And>r. P r \<Longrightarrow> Q (f r, g r)"
  shows "list_all Q (fold (\<lambda>r d. if P r then AList.update (f r) (g r) d else d) rows d)"
proof -
  have upd: "list_all Q d \<Longrightarrow> Q (k, v) \<Longrightarrow> list_all Q (AList.update k v d)" for k v d
    by (induction d) auto
  show ?thesis using assms(1)
  proof (induction rows arbitrary: d)
    case (Cons r rows)
    then show ?case using upd [of d "f r" "g r"] assms(2) [of r] by (cases "P r") auto
  qed simp
qed

lemma master_matches_keys: "fst ` set (master_matches rows normalized original) = {i. \<exists>row \<in> set rows. lists row normalized i}"
  unfolding master_matches_def Let_def fold_update_keys by (auto simp: lists_def)

lemma master_matches_id: "list_all (\<lambda>(k, i). di_security_id i = k) (master_matches rows normalized original)"
  unfolding master_matches_def Let_def by (rule fold_update_all) auto

text \<open>
  A symbol that is resolved has exactly one identifier in the instrument list: the one it is
  given is listed for its name, and no row lists another.
\<close>

theorem resolved_unambiguously:
  assumes "resolve_one rows (normalized, original) = Inr (k, i)"
  shows "k = symbol_key original" and "{x. \<exists>row \<in> set rows. lists row normalized x} = {di_security_id i}"
proof -
  obtain x where x: "master_matches rows normalized original = [(x, i)]" and k: "k = symbol_key original"
    using assms by (auto simp: resolve_one_def split: list.splits prod.splits)
  show "k = symbol_key original" by (rule k)
  show "{x. \<exists>row \<in> set rows. lists row normalized x} = {di_security_id i}"
    using master_matches_keys [of rows normalized original] master_matches_id [of rows normalized original] x by simp
qed

text \<open>
  A universe that is built has distinct symbols, and every job is a valid job of the backfill
  engine for one of them, served by Dhan under that symbol at a timeframe Dhan supports;
  every symbol has a job.
\<close>

theorem nse_universe_sound:
  assumes "universe_build download token path file at_t w = (Inr u, w')"
  shows "distinct (map di_symbol (du_instruments u)) \<and> du_instruments u \<noteq> []
    \<and> list_all (\<lambda>j. hj_market j = NSE \<and> hj_symbol j \<in> set (map di_symbol (du_instruments u))
          \<and> hj_timeframe j \<in> set dhan_history_timeframes \<and> hj_provider_symbols j = [(DHAN, hj_symbol j)]
          \<and> history_job_post_init j = Inr j) (du_jobs u)
    \<and> set (map di_symbol (du_instruments u)) \<subseteq> set (map hj_symbol (du_jobs u))
    \<and> list_all (\<lambda>(s, v). s \<noteq> [] \<and> v \<noteq> []) (du_security_ids u)"
proof -
  obtain specs resolved jobs where load: "load_nse_symbols path file = Inr specs"
    and ins: "map_r (spec_instrument resolved) specs = Inr (du_instruments u)"
    and jobs: "map_r spec_jobs specs = Inr jobs" "du_jobs u = concat jobs"
    and ids: "\<exists>d. dhan_security_ids d = Inr (du_security_ids u)"
    using assms by (auto simp: universe_build_def Let_def) blast
  note valid = load_nse_symbols_valid [OF load]
  have "list_all2 (\<lambda>s i. di_symbol i = ns_symbol s) specs (du_instruments u)"
    using ins by (auto simp: map_r_Inr_iff spec_instrument_def elim!: list_all2_mono split: option.splits)
  then have names: "map di_symbol (du_instruments u) = map ns_symbol specs"
    by (induction rule: list_all2_induct) auto
  have j: "list_all2 (\<lambda>s js. spec_jobs s = Inr js) specs jobs" using jobs(1) by (simp add: map_r_Inr_iff)
  have each: "\<exists>s \<in> set specs. spec_jobs s = Inr js" if "js \<in> set jobs" for js
    using j that by (induction rule: list_all2_induct) auto
  have some: "\<exists>js \<in> set jobs. spec_jobs s = Inr js" if "s \<in> set specs" for s
    using j that by (induction rule: list_all2_induct) auto
  have "list_all (\<lambda>j. hj_market j = NSE \<and> hj_symbol j \<in> set (map ns_symbol specs)
      \<and> hj_timeframe j \<in> set dhan_history_timeframes \<and> hj_provider_symbols j = [(DHAN, hj_symbol j)]
      \<and> history_job_post_init j = Inr j) (du_jobs u)"
    unfolding list_all_iff jobs(2)
  proof
    fix x assume "x \<in> set (concat jobs)"
    then obtain js where "js \<in> set jobs" "x \<in> set js" by auto
    then obtain s where s: "s \<in> set specs" "spec_jobs s = Inr js" "x \<in> set js" using each by blast
    then show "hj_market x = NSE \<and> hj_symbol x \<in> set (map ns_symbol specs)
      \<and> hj_timeframe x \<in> set dhan_history_timeframes \<and> hj_provider_symbols x = [(DHAN, hj_symbol x)]
      \<and> history_job_post_init x = Inr x"
      using spec_jobs_Inr [OF s(2,3)] valid(1) by (auto simp: valid_specs_def list_all_iff)
  qed
  moreover have "set (map ns_symbol specs) \<subseteq> set (map hj_symbol (du_jobs u))"
  proof
    fix x assume "x \<in> set (map ns_symbol specs)"
    then obtain s where s: "s \<in> set specs" "x = ns_symbol s" by auto
    obtain js where js: "js \<in> set jobs" "spec_jobs s = Inr js" using some s(1) by blast
    have "length js = length (ns_timeframes s)"
      using js(2) by (auto simp: spec_jobs_def map_r_Inr_iff dest: list_all2_lengthD)
    moreover have "ns_timeframes s \<noteq> []" using valid(1) s(1) by (auto simp: valid_specs_def list_all_iff)
    ultimately obtain y where "y \<in> set js" by (cases js) auto
    then show "x \<in> set (map hj_symbol (du_jobs u))"
      using spec_jobs_Inr [OF js(2)] js(1) s(2) jobs(2) by force
  qed
  moreover have "list_all (\<lambda>(s, v). s \<noteq> [] \<and> v \<noteq> []) (du_security_ids u)"
    using ids by (auto simp: dhan_security_ids_def Let_def list_all_iff split: if_splits)
  ultimately show ?thesis using names valid by (auto simp: valid_specs_def)
qed

end
