(* ===== verification/Spec2Isabelle.thy ===== *)
theory Spec2Isabelle
  imports Pipeline_Properties Lifecycle Paper_Batch FinOps Operations History Technical_Total
    Screening Builtin Supervisor Nse_Session Paper_Session Realtime Qwen Nse_Validation Decision_Service
    Paper_Policy Nse_Universe
begin

text \<open>
  \<^bold>\<open>NanoDelta.\<close>  This is a verification development of NanoDelta, a paper-trading platform for
  three isolated markets (NSE, forex, crypto).  The Python sources are under
  src/src/nanodelta; every theory names the file it models, and every definition keeps the
  name of the function or class where Isabelle allows it.

  \<^bold>\<open>The program.\<close>  Provider payloads are stored raw, canonicalised by the adapter of their
  provider and written to a lake in three layers (storage.py, markets/adapters.py,
  pipeline.py, features.py); a backfill engine keeps the history of candles complete
  (history/engine.py, history/timeframes.py).  Strategies are versioned definitions with
  validation artifacts and explicit approvals (strategies/registry.py,
  strategies/validation.py); a strategy is a plugin that turns a feature context into a
  signal (strategies/runtime.py, strategies/technical.py) and is validated against stored
  features (strategies/evaluation.py).  A staged pipeline turns contexts into allocations
  and records a decision for every stage (orchestration/decision\_pipeline.py, decisions.py);
  the hand-off checks every allocation with the risk engine and executes the batch on the
  paper ledger (orchestration/paper\_batch.py, risk/engine.py, paper/execution.py);
  protective exits close positions at their stop or target (paper/lifecycle.py) and their
  outcomes feed offline assessments (outcomes/learning.py).  A decision service runs exits,
  pipeline and hand-off for every batch of new features (runtime/paper\_decision.py), called
  by a session that decides each batch once (runtime/paper\_session.py).  Operators steer the market
  workers by audited commands (operations/controller.py), and spending on language models
  is reserved and accounted before and after every call (finops/core.py).

  \<^bold>\<open>Python in HOL.\<close>
  \<^item> \<^verbatim>\<open>Binary64\<close> and \<^verbatim>\<open>Py_Float\<close>: floats are the rationals that binary64 holds, two infinities and
    NaN; every operation rounds to nearest, ties to even, comparisons with NaN are false, and
    division raises on zero.  Rounding is an instance of the locale \<^verbatim>\<open>rounding\<close>.
  \<^item> \<^verbatim>\<open>Py_Base\<close>: an exception is a value of \<open>py_error\<close>; a method that mutates its object is a
    function from the state to an outcome and the state after it, also when it raises;
    dictionaries are association lists in insertion order; \<open>sorted\<close> is a stable sort.
  \<^item> \<^verbatim>\<open>Py_Text\<close> and \<^verbatim>\<open>Py_Parse\<close>: strings are lists of bytes of their UTF-8 text, \<open>str\<close> and \<open>repr\<close> of
    numbers, \<open>isoformat\<close>, SHA-256, \<open>int\<close> and \<open>float\<close> of a text, JSON values and their encoding.
    A datetime is naive or an instant in microseconds; arithmetic that leaves the years 1 to
    9999 raises.

  \<^bold>\<open>Components\<close>, in the order of the imports.
  \<^item> \<^verbatim>\<open>Contracts\<close> (contracts.py): markets, providers, stable identifiers.
  \<^item> \<^verbatim>\<open>Registry\<close>: registry and gates; an approval is usable only if it is on file, current and
    backed by a passed validation of the same identity, and revocation is final.
  \<^item> \<^verbatim>\<open>Strategy_Runtime\<close>, \<^verbatim>\<open>Evaluation\<close>, \<^verbatim>\<open>Technical\<close>, \<^verbatim>\<open>Technical_Total\<close>: plugins, their evaluation and
    the technical strategies; the locale \<^verbatim>\<open>routed_strategy\<close> is the contract of a strategy class
    and is interpreted for each of the nine classes and for their union.
  \<^item> \<^verbatim>\<open>Technical_Features\<close>, \<^verbatim>\<open>Screening\<close>, \<^verbatim>\<open>Builtin\<close>: the indicators the strategies read
    (strategies/technical\_features.py), the regime score and label of a symbol and its
    tradeability (strategies/symbol\_regime.py, strategies/tradeability.py) and the built-in
    momentum strategy (strategies/builtin.py).  The locale \<^verbatim>\<open>causal\<close> says that an indicator of a
    prefix is the prefix of the indicator; it is interpreted for every indicator.
  \<^item> \<^verbatim>\<open>Decisions\<close>, \<^verbatim>\<open>Decision_Pipeline\<close>, \<^verbatim>\<open>Pipeline_Properties\<close>: ledger and pipeline; what an
    allocation is backed by, the limits of a portfolio, and the audit trail of a cycle.
  \<^item> \<^verbatim>\<open>Risk\<close>, \<^verbatim>\<open>Paper_Execution\<close>, \<^verbatim>\<open>Outcomes\<close>, \<^verbatim>\<open>Lifecycle\<close>, \<^verbatim>\<open>Paper_Batch\<close>: orders, fills, positions and
    exits.  Risk approves exactly the orders that leave the account within its limits, where
    the account after the order is computed apart from the engine, in exact arithmetic
    (\<open>after_order\<close>); the position book refines the replay of the filled orders
    (\<open>replay_fills\<close>); keys execute once, batches are atomic, exits only reduce, and a pass over
    the exit plans accounts for every one of them (\<open>handled\<close>).
  \<^item> \<^verbatim>\<open>FinOps\<close>, \<^verbatim>\<open>Qwen\<close>: budgets, reservations and the kill switch; the guarded model call
    (finops/qwen.py) and the shadow review of candidates (runtime/llm\_review.py), where a
    verdict is the one the transport's response spells, the ledger gains the entry of that
    response, and a time-out keeps its reservation.
  \<^item> \<^verbatim>\<open>Operations\<close>: commands; the state of a worker refines the replay of the audit log.
  \<^item> \<^verbatim>\<open>Etl\<close>, \<^verbatim>\<open>Providers\<close>, \<^verbatim>\<open>Timeframes\<close>, \<^verbatim>\<open>History\<close>: ingestion, adapters, calendars and backfill;
    silver is clean and traceable to what was delivered and to the bronze file that holds it,
    ingestion is idempotent, features do not look ahead, watermarks do not move back, and
    ready means complete.
  \<^item> \<^verbatim>\<open>Supervisor\<close> (runtime/supervisor.py): a market worker is a step relation whose steps run
    between two suspension points of its task; a drained worker starts no further cycle and
    comes to its end, and the published state tells whether the task is alive, but for a task
    cancelled before it ran.  The worker carries the list of the snapshots it saved.
  \<^item> \<^verbatim>\<open>Quotes\<close>, \<^verbatim>\<open>Realtime\<close> (runtime/realtime.py, runtime/feed\_state.py): quotes become candles and
    candles provider payloads that the adapters read back; the market cycle fails over along
    the route of providers, recovers, and stores a state from which a restart resumes.  The
    locale \<^verbatim>\<open>feed_invariant\<close> is closed under what a stream can make the cycle do and is
    interpreted for the observing and the probing call.
  \<^item> \<^verbatim>\<open>Paper_Session\<close> (runtime/paper\_session.py): the leased cycle store and the session that
    decides every set of features once; the locale \<^verbatim>\<open>cycle_store\<close> is the contract of the store,
    interpreted for the memory store, and \<open>lease_step\<close> interleaves several sessions.
  \<^item> \<^verbatim>\<open>Postgres_Session\<close> (runtime/paper\_session.py): the database store of the deployment, its
    table as rows by key and each method as one transaction; it is the second interpretation
    of \<^verbatim>\<open>cycle_store\<close>, and with its processor watched one of \<^verbatim>\<open>watched_store\<close>.
  \<^item> \<^verbatim>\<open>Market_Context\<close> (runtime/technical\_context.py, regime.py, correlation.py,
    portfolio\_snapshot.py, index\_feed.py, universe/sectors.py): what a cycle reads of the market
    and the account; a snapshot of the account omits no open position.
  \<^item> \<^verbatim>\<open>Decision_Service\<close> (runtime/paper\_decision.py): a whole cycle over the components above.
    What it enters is what the pipeline allocated, fresh, not held and not just exited, every
    order is for such an entry, a closed session only exits, and under the session over the
    database store features are decided once.  The locale
    \<^verbatim>\<open>context_invariant\<close> says what building the contexts keeps; it is interpreted for the bounds
    of the cached regimes and for the account.
  \<^item> \<^verbatim>\<open>Paper_Policy\<close> (runtime/paper\_policy.py): the limits of the deployment from its
    environment; sizing and risk share the order limit, and an order sized by it can be
    refused for a rounding error.
  \<^item> \<^verbatim>\<open>Trading_Agents\<close> (agents/tradingagents.py): the adapter to the research backend; it only
    advises, under a current approval, and a failure abstains.
  \<^item> \<^verbatim>\<open>Nse_Universe\<close> (universe/nse.py): symbols.csv, security identifiers and history jobs; a
    resolved symbol has one identifier and every job is one the backfill engine accepts.
  \<^item> \<^verbatim>\<open>Nse_Session\<close> (markets/nse\_session.py): the live session, which agrees with the calendar
    of \<^verbatim>\<open>Timeframes\<close>.
  \<^item> \<^verbatim>\<open>Nse_Validation\<close> (validation/nse.py, validation/service.py): readiness of the history, the
    walk-forward evaluation and promotion; evidence in the research state stands on complete
    data, the folds are chronological (locale \<^verbatim>\<open>monotone_slots\<close>), and only a reviewed promotion
    approves.

  \<^bold>\<open>Loops.\<close>  Every loop over a collection is a structural recursion.  The loop over the opens of
  a window (\<open>MarketCalendar.expected_opens\<close>) is a partial function to \<open>option\<close>; that it returns
  is proved.  The loop that awaits provider frames (\<open>RealtimeMarketCycle._consume\<close>) is one too,
  and need not return: \<open>heartbeats_block_failover\<close>.  No model has fuel.

  \<^bold>\<open>Parameters.\<close>  Code that is not in the repository is an argument: provider clients, worker
  objects, the agent review, the TradingAgents graph, what a CSV reader reads,
  \<open>datetime.fromisoformat\<close>, \<open>uuid4\<close>, wall clocks and the rows a query returns;
  so is the order in which a Python set is iterated, where a result depends on it.

  \<^bold>\<open>Not modelled.\<close>  The HTTP API, the PostgreSQL stores (SQL text over the modelled classes)
  other than those of the session and of the feed state, the SQL that recovers exit plans,
  HTTP and web-socket transports, password hashing and tokens, metrics and logging, the
  command line entry points and the wiring of runtime/realtime\_config.py, the SQL command
  queue (runtime/control.py), and the concurrent synchronisation of the NSE jobs, which only
  calls the modelled engine once per job.
\<close>

end
